(* ===== verification/Prelude.thy ===== *)
theory Prelude
  imports Main "HOL-Library.Word" "HOL-Library.Sublist"
begin

text \<open>
  The prelude of the development: the state-and-error monad in which the storage
  and pipeline code is modelled, its invariant and postcondition calculus, the
  operations of Rust's \<^verbatim>\<open>str\<close> that the sources use, and generic facts on lists
  that several components share.

  Rust code that runs SQL statements inside a function returning
  \<^verbatim>\<open>Result<T, E>\<close> becomes a value of type \<^verbatim>\<open>('s, 'e, 'a) sx\<close>: a function from the
  state to an error or a value, paired with the state that is left behind.  The
  state is returned on the error branch as well, because a pass that runs its
  statements outside a transaction keeps the effects of the statements before
  the failing one.
\<close>

named_theorems keeps_intros \<open>introduction rules of the invariant calculus\<close>
named_theorems post_intros \<open>introduction rules of the postcondition calculus\<close>
named_theorems sx_defs \<open>definitions of the monad\<close>
named_theorems sx_apply \<open>the primitive actions applied to a state\<close>

section \<open>The state-and-error monad\<close>

type_synonym ('s, 'e, 'a) sx = "'s \<Rightarrow> ('e + 'a) \<times> 's"

definition sreturn :: "'a \<Rightarrow> ('s, 'e, 'a) sx" where
  [sx_defs]: "sreturn x = (\<lambda>s. (Inr x, s))"

definition sthrow :: "'e \<Rightarrow> ('s, 'e, 'a) sx" where
  [sx_defs]: "sthrow e = (\<lambda>s. (Inl e, s))"

definition sbind :: "('s, 'e, 'a) sx \<Rightarrow> ('a \<Rightarrow> ('s, 'e, 'b) sx) \<Rightarrow> ('s, 'e, 'b) sx" where
  [sx_defs]: "sbind m f = (\<lambda>s. case m s of (Inl e, s') \<Rightarrow> (Inl e, s') | (Inr x, s') \<Rightarrow> f x s')"

definition sthen :: "('s, 'e, 'a) sx \<Rightarrow> ('s, 'e, 'b) sx \<Rightarrow> ('s, 'e, 'b) sx" where
  [sx_defs]: "sthen m n = sbind m (\<lambda>_. n)"

definition squery :: "('s \<Rightarrow> 'a) \<Rightarrow> ('s, 'e, 'a) sx" where
  [sx_defs]: "squery f = (\<lambda>s. (Inr (f s), s))"

definition smodify :: "('s \<Rightarrow> 's) \<Rightarrow> ('s, 'e, unit) sx" where
  [sx_defs]: "smodify f = (\<lambda>s. (Inr (), f s))"

definition slift :: "'e + 'a \<Rightarrow> ('s, 'e, 'a) sx" where
  [sx_defs]: "slift r = (\<lambda>s. (r, s))"

definition swhen :: "bool \<Rightarrow> ('s, 'e, unit) sx \<Rightarrow> ('s, 'e, unit) sx" where
  [sx_defs]: "swhen b m = (if b then m else sreturn ())"

text \<open>\<^verbatim>\<open>for x in xs { body(x)?; }\<close>\<close>

primrec sfor :: "'a list \<Rightarrow> ('a \<Rightarrow> ('s, 'e, unit) sx) \<Rightarrow> ('s, 'e, unit) sx" where
  "sfor [] f = sreturn ()"
| "sfor (x # xs) f = sthen (f x) (sfor xs f)"

text \<open>A loop that threads an accumulator (counters, maps being filled).\<close>

primrec sfold :: "('a \<Rightarrow> 'b \<Rightarrow> ('s, 'e, 'b) sx) \<Rightarrow> 'a list \<Rightarrow> 'b \<Rightarrow> ('s, 'e, 'b) sx" where
  "sfold f [] acc = sreturn acc"
| "sfold f (x # xs) acc = sbind (f x acc) (sfold f xs)"

text \<open>\<^verbatim>\<open>let tx = conn.transaction()?; \<dots>; tx.commit()?\<close>: an error rolls every statement back.\<close>

definition transaction :: "('s, 'e, 'a) sx \<Rightarrow> ('s, 'e, 'a) sx" where
  [sx_defs]: "transaction m = (\<lambda>s. case m s of (Inl e, s') \<Rightarrow> (Inl e, s) | (Inr x, s') \<Rightarrow> (Inr x, s'))"

lemma sbind_sreturn [simp]: "sbind (sreturn x) f = f x"
  by (simp add: sx_defs)

lemma sbind_sthrow [simp]: "sbind (sthrow e) f = sthrow e"
  by (simp add: sx_defs)

lemma sbind_assoc: "sbind (sbind m f) g = sbind m (\<lambda>x. sbind (f x) g)"
  by (auto simp: sx_defs fun_eq_iff split: prod.splits sum.splits)

lemma sbind_return_right [simp]: "sbind m sreturn = m"
  by (auto simp: sx_defs fun_eq_iff split: prod.splits sum.splits)

lemma sthen_return [simp]: "sthen (sreturn u) m = m"
  by (simp add: sthen_def)

lemma sfor_append: "sfor (xs @ ys) f = sthen (sfor xs f) (sfor ys f)"
  by (induction xs) (auto simp: sthen_def sbind_assoc)

lemma sbind_InrE:
  assumes "sbind m f s = (Inr y, t)"
  obtains x u where "m s = (Inr x, u)" and "f x u = (Inr y, t)"
  using assms by (auto simp: sbind_def split: prod.splits sum.splits)

lemma sthen_InrE:
  assumes "sthen m n s = (Inr y, t)"
  obtains x u where "m s = (Inr x, u)" and "n u = (Inr y, t)"
  using assms by (auto simp: sthen_def elim: sbind_InrE)

lemma sbind_eq_Inr: "m s = (Inr x, u) \<Longrightarrow> sbind m f s = f x u"
  by (simp add: sbind_def)

lemma sbind_eq_Inl: "m s = (Inl e, u) \<Longrightarrow> sbind m f s = (Inl e, u)"
  by (simp add: sbind_def)

lemma sthen_eq_Inr: "m s = (Inr x, u) \<Longrightarrow> sthen m n s = n u"
  by (simp add: sthen_def sbind_def)

lemma sthen_eq_Inl: "m s = (Inl e, u) \<Longrightarrow> sthen m n s = (Inl e, u)"
  by (simp add: sthen_def sbind_def)

lemma squery_apply [simp]: "squery f s = (Inr (f s), s)"
  by (simp add: squery_def)

lemma smodify_apply [simp]: "smodify f s = (Inr (), f s)"
  by (simp add: smodify_def)

lemma sreturn_apply [sx_apply]: "sreturn x s = (Inr x, s)"
  by (simp add: sreturn_def)

lemma sthrow_apply [sx_apply]: "sthrow e s = (Inl e, s)"
  by (simp add: sthrow_def)

lemma slift_apply [sx_apply]: "slift r s = (r, s)"
  by (simp add: slift_def)

lemma sbind_squery [simp]: "sbind (squery q) f s = f (q s) s"
  by (simp add: sbind_def)

lemma sthen_smodify [simp]: "sthen (smodify g) n s = n (g s)"
  by (simp add: sthen_def sbind_def)

lemma transaction_Inl: "transaction m s = (Inl e, t) \<Longrightarrow> t = s"
  by (auto simp: transaction_def split: prod.splits sum.splits)

lemma transaction_Inr: "transaction m s = (Inr x, t) \<longleftrightarrow> m s = (Inr x, t)"
  by (auto simp: transaction_def split: prod.splits sum.splits)

section \<open>The invariant calculus\<close>

definition keeps :: "('s \<Rightarrow> bool) \<Rightarrow> ('s, 'e, 'a) sx \<Rightarrow> bool" where
  "keeps I m \<longleftrightarrow> (\<forall>s. I s \<longrightarrow> I (snd (m s)))"

lemma keepsI: "(\<And>s. I s \<Longrightarrow> I (snd (m s))) \<Longrightarrow> keeps I m"
  by (simp add: keeps_def)

lemma keepsD: "keeps I m \<Longrightarrow> I s \<Longrightarrow> I (snd (m s))"
  by (simp add: keeps_def)

lemma keeps_result: "keeps I m \<Longrightarrow> I s \<Longrightarrow> m s = (r, t) \<Longrightarrow> I t"
  by (metis keepsD snd_conv)

lemma keeps_sreturn [keeps_intros]: "keeps I (sreturn x)"
  by (simp add: keeps_def sx_apply)

lemma keeps_sthrow [keeps_intros]: "keeps I (sthrow e)"
  by (simp add: keeps_def sx_apply)

lemma keeps_squery [keeps_intros]: "keeps I (squery f)"
  by (simp add: keeps_def)

lemma keeps_slift [keeps_intros]: "keeps I (slift r)"
  by (simp add: keeps_def sx_apply)

lemma keeps_sbind [keeps_intros]: "keeps I m \<Longrightarrow> (\<And>x. keeps I (f x)) \<Longrightarrow> keeps I (sbind m f)"
  unfolding keeps_def sbind_def by (fastforce split: prod.splits sum.splits)

lemma keeps_sthen [keeps_intros]: "keeps I m \<Longrightarrow> keeps I n \<Longrightarrow> keeps I (sthen m n)"
  unfolding sthen_def by (rule keeps_sbind)

lemma keeps_swhen [keeps_intros]: "keeps I m \<Longrightarrow> keeps I (swhen b m)"
  by (simp add: swhen_def keeps_sreturn)

lemma keeps_if [keeps_intros]: "keeps I m \<Longrightarrow> keeps I n \<Longrightarrow> keeps I (if b then m else n)"
  by simp

lemma keeps_option [keeps_intros]:
  "keeps I m \<Longrightarrow> (\<And>x. keeps I (f x)) \<Longrightarrow> keeps I (case z of None \<Rightarrow> m | Some x \<Rightarrow> f x)"
  by (cases z) auto

lemma keeps_prod [keeps_intros]: "(\<And>a b. keeps I (f a b)) \<Longrightarrow> keeps I (case z of (a, b) \<Rightarrow> f a b)"
  by (cases z) auto

lemma keeps_sum [keeps_intros]:
  "(\<And>e. keeps I (f e)) \<Longrightarrow> (\<And>x. keeps I (g x)) \<Longrightarrow> keeps I (case z of Inl e \<Rightarrow> f e | Inr x \<Rightarrow> g x)"
  by (cases z) auto

lemma keeps_sfor [keeps_intros]: "(\<And>x. keeps I (f x)) \<Longrightarrow> keeps I (sfor xs f)"
  by (induction xs) (auto intro: keeps_intros)

lemma keeps_sfold [keeps_intros]: "(\<And>x acc. keeps I (f x acc)) \<Longrightarrow> keeps I (sfold f xs acc)"
  by (induction xs arbitrary: acc) (auto intro: keeps_intros)

lemma keeps_transaction [keeps_intros]: "keeps I m \<Longrightarrow> keeps I (transaction m)"
  unfolding keeps_def transaction_def by (fastforce split: prod.splits sum.splits)

section \<open>Total correctness\<close>

text \<open>From a state with \<^verbatim>\<open>P\<close> the operation returns a value, and value and state satisfy \<^verbatim>\<open>Q\<close>.\<close>

definition returns :: "('s \<Rightarrow> bool) \<Rightarrow> ('s, 'e, 'a) sx \<Rightarrow> ('a \<Rightarrow> 's \<Rightarrow> bool) \<Rightarrow> bool" where
  "returns P m Q \<longleftrightarrow> (\<forall>s. P s \<longrightarrow> (\<exists>x t. m s = (Inr x, t) \<and> Q x t))"

lemma returnsI: "(\<And>s. P s \<Longrightarrow> \<exists>x t. m s = (Inr x, t) \<and> Q x t) \<Longrightarrow> returns P m Q"
  by (simp add: returns_def)

lemma returnsE:
  assumes "returns P m Q" "P s"
  obtains x t where "m s = (Inr x, t)" "Q x t"
  using assms by (auto simp: returns_def)

lemma returns_weaken:
  "returns P m Q \<Longrightarrow> (\<And>s. P' s \<Longrightarrow> P s) \<Longrightarrow> (\<And>x s. Q x s \<Longrightarrow> Q' x s) \<Longrightarrow> returns P' m Q'"
  unfolding returns_def by blast

lemma returns_sreturn: "(\<And>s. P s \<Longrightarrow> Q x s) \<Longrightarrow> returns P (sreturn x) Q"
  by (simp add: returns_def sx_apply)

lemma returns_slift: "r = Inr x \<Longrightarrow> (\<And>s. P s \<Longrightarrow> Q x s) \<Longrightarrow> returns P (slift r) Q"
  by (simp add: returns_def sx_apply)

lemma returns_squery: "(\<And>s. P s \<Longrightarrow> Q (f s) s) \<Longrightarrow> returns P (squery f) Q"
  by (simp add: returns_def)

lemma returns_smodify: "(\<And>s. P s \<Longrightarrow> Q () (g s)) \<Longrightarrow> returns P (smodify g) Q"
  by (simp add: returns_def)

lemma returns_sbind:
  "returns P m R \<Longrightarrow> (\<And>x. returns (R x) (f x) Q) \<Longrightarrow> returns P (sbind m f) Q"
  unfolding returns_def by (metis sbind_eq_Inr)

lemma returns_sthen:
  "returns P m (\<lambda>_. R) \<Longrightarrow> returns R n Q \<Longrightarrow> returns P (sthen m n) Q"
  unfolding sthen_def by (rule returns_sbind)

text \<open>Loops: the state predicate carries a budget that each iteration may use a unit of.\<close>

lemma returns_sfor:
  assumes "\<And>x n. x \<in> set xs \<Longrightarrow> returns (J (Suc n)) (f x) (\<lambda>_. J n)"
  shows "returns (J (length xs + n)) (sfor xs f) (\<lambda>_. J n)"
  using assms by (induction xs) (auto intro!: returns_sthen returns_sreturn)

lemma returns_sfor_const:
  assumes "\<And>x. x \<in> set xs \<Longrightarrow> returns J (f x) (\<lambda>_. J)"
  shows "returns J (sfor xs f) (\<lambda>_. J)"
  using assms by (induction xs) (auto intro!: returns_sthen returns_sreturn)

lemma returns_sfold:
  assumes "\<And>x acc n. x \<in> set xs \<Longrightarrow> returns (\<lambda>s. A acc s \<and> J (Suc n) s) (f x acc) (\<lambda>acc' s. A acc' s \<and> J n s)"
  shows "returns (\<lambda>s. A acc s \<and> J (length xs + n) s) (sfold f xs acc) (\<lambda>acc' s. A acc' s \<and> J n s)"
  using assms
proof (induction xs arbitrary: acc)
  case Nil
  then show ?case by (simp add: returns_sreturn)
next
  case (Cons x xs)
  have "returns (\<lambda>s. A acc s \<and> J (Suc (length xs + n)) s) (f x acc) (\<lambda>acc' s. A acc' s \<and> J (length xs + n) s)"
    using Cons.prems by simp
  moreover have "returns (\<lambda>s. A acc' s \<and> J (length xs + n) s) (sfold f xs acc') (\<lambda>acc' s. A acc' s \<and> J n s)" for acc'
    using Cons by simp
  ultimately show ?case by (auto intro: returns_sbind)
qed

section \<open>Rust string operations\<close>

text \<open>Strings are the UTF-8 bytes of the Rust strings, one \<^typ>\<open>char\<close> per byte.\<close>

definition strip_prefix :: "string \<Rightarrow> string \<Rightarrow> string option" where
  "strip_prefix p s = (if prefix p s then Some (drop (length p) s) else None)"

definition strip_suffix :: "string \<Rightarrow> string \<Rightarrow> string option" where
  "strip_suffix p s = (if suffix p s then Some (take (length s - length p) s) else None)"

fun split_once :: "char \<Rightarrow> string \<Rightarrow> (string \<times> string) option" where
  "split_once c [] = None"
| "split_once c (x # xs) =
     (if x = c then Some ([], xs)
      else case split_once c xs of None \<Rightarrow> None | Some (a, b) \<Rightarrow> Some (x # a, b))"

lemma strip_prefix_append [simp]: "strip_prefix p (p @ s) = Some s"
  by (simp add: strip_prefix_def)

lemma strip_prefix_Some: "strip_prefix p s = Some r \<longleftrightarrow> s = p @ r"
  by (auto simp: strip_prefix_def prefix_def)

lemma strip_prefix_None: "strip_prefix p s = None \<longleftrightarrow> \<not> prefix p s"
  by (simp add: strip_prefix_def)

lemma strip_suffix_append [simp]: "strip_suffix p (s @ p) = Some s"
  by (simp add: strip_suffix_def suffix_def)

lemma strip_suffix_Some: "strip_suffix p s = Some r \<longleftrightarrow> s = r @ p"
  by (auto simp: strip_suffix_def suffix_def)

lemma split_once_append: "c \<notin> set a \<Longrightarrow> split_once c (a @ c # b) = Some (a, b)"
  by (induction a) auto

lemma split_once_None: "split_once c s = None \<longleftrightarrow> c \<notin> set s"
  by (induction s) (auto split: option.splits)

lemma split_once_Some: "split_once c s = Some (a, b) \<Longrightarrow> s = a @ c # b \<and> c \<notin> set a"
  by (induction s arbitrary: a) (auto split: if_splits option.splits)

section \<open>Lists\<close>

lemma distinct_map_filter: "distinct (map f xs) \<Longrightarrow> distinct (map f (filter P xs))"
  by (induction xs) auto

lemma distinct_map_inj_same:
  "distinct (map f xs) \<Longrightarrow> x \<in> set xs \<Longrightarrow> y \<in> set xs \<Longrightarrow> f x = f y \<Longrightarrow> x = y"
  by (simp add: distinct_map inj_on_def)

lemma map_cong_key: "(\<And>x. f (g x) = f x) \<Longrightarrow> map f (map g xs) = map f xs"
  by simp

lemma find_Some_set: "find P xs = Some x \<Longrightarrow> x \<in> set xs \<and> P x"
  by (induction xs) (auto split: if_splits)

lemma find_None_set: "find P xs = None \<longleftrightarrow> (\<forall>x\<in>set xs. \<not> P x)"
  by (induction xs) auto

lemma find_distinct_key:
  "distinct (map f xs) \<Longrightarrow> x \<in> set xs \<Longrightarrow> find (\<lambda>y. f y = f x) xs = Some x"
  by (induction xs) (auto simp: image_iff)

section \<open>Step relations\<close>

text \<open>A predicate every step keeps holds in every state that can be reached.\<close>

locale step_invariant =
  fixes step :: "'s \<Rightarrow> 's \<Rightarrow> bool" and inv :: "'s \<Rightarrow> bool"
  assumes preserved: "step s t \<Longrightarrow> inv s \<Longrightarrow> inv t"
begin

lemma reachable: "step\<^sup>*\<^sup>* s t \<Longrightarrow> inv s \<Longrightarrow> inv t"
  by (induction rule: rtranclp_induct) (auto intro: preserved)

end

end
