(* ===== verification/Keyed_Table.thy ===== *)
theory Keyed_Table
  imports Prelude
begin

text \<open>
  Tables with a key, as lists of rows in storage order: lookup by key, \<^verbatim>\<open>INSERT \<dots> ON CONFLICT
  DO UPDATE\<close> and \<^verbatim>\<open>DELETE\<close> by key.  The locale states what a table promises its clients from
  the one law a merge function has to obey (it keeps the key); the storage theories interpret
  it on the tables of the schema.
\<close>

definition lookup_by :: "('r \<Rightarrow> 'k) \<Rightarrow> 'k \<Rightarrow> 'r list \<Rightarrow> 'r option" where
  "lookup_by key k rows = find (\<lambda>r. key r = k) rows"

definition upsert_by :: "('r \<Rightarrow> 'k) \<Rightarrow> ('r \<Rightarrow> 'r \<Rightarrow> 'r) \<Rightarrow> 'r \<Rightarrow> 'r list \<Rightarrow> 'r list" where
  "upsert_by key merge new rows =
    (if list_ex (\<lambda>r. key r = key new) rows
     then map (\<lambda>r. if key r = key new then merge r new else r) rows
     else rows @ [new])"

definition delete_by :: "('r \<Rightarrow> 'k) \<Rightarrow> 'k \<Rightarrow> 'r list \<Rightarrow> 'r list" where
  "delete_by key k rows = filter (\<lambda>r. key r \<noteq> k) rows"

lemma lookup_by_Some: "lookup_by key k rows = Some r \<Longrightarrow> r \<in> set rows \<and> key r = k"
  unfolding lookup_by_def by (drule find_Some_set) simp

lemma lookup_by_None: "lookup_by key k rows = None \<longleftrightarrow> k \<notin> key ` set rows"
  by (auto simp: lookup_by_def find_None_set)

lemma lookup_by_eq_iff:
  "distinct (map key rows) \<Longrightarrow> lookup_by key k rows = Some r \<longleftrightarrow> r \<in> set rows \<and> key r = k"
  using find_Some_set[of "\<lambda>r. key r = k" rows r] find_distinct_key[of key rows r]
  by (auto simp: lookup_by_def)

lemma set_delete_by [simp]: "set (delete_by key k rows) = {r \<in> set rows. key r \<noteq> k}"
  by (auto simp: delete_by_def)

lemma distinct_delete_by: "distinct (map key rows) \<Longrightarrow> distinct (map key (delete_by key k rows))"
  by (simp add: delete_by_def distinct_map_filter)

lemma lookup_delete_same [simp]: "lookup_by key k (delete_by key k rows) = None"
  by (auto simp: lookup_by_None)

lemma lookup_delete_other [simp]:
  "k \<noteq> j \<Longrightarrow> lookup_by key j (delete_by key k rows) = lookup_by key j rows"
  by (induction rows) (auto simp: lookup_by_def delete_by_def)

lemma lookup_replace: "key r = k \<Longrightarrow> lookup_by key k (delete_by key k rows @ [r]) = Some r"
  by (induction rows) (auto simp: lookup_by_def delete_by_def)

lemma upsert_by_fresh: "key new \<notin> key ` set rows \<Longrightarrow> upsert_by key merge new rows = rows @ [new]"
  by (auto simp: upsert_by_def list_ex_iff image_iff)

locale keyed_table =
  fixes key :: "'r \<Rightarrow> 'k" and merge :: "'r \<Rightarrow> 'r \<Rightarrow> 'r"
  assumes merge_key: "key old = key new \<Longrightarrow> key (merge old new) = key new"
begin

lemma upsert_keys: "map key (upsert_by key merge new rows) =
    (if key new \<in> key ` set rows then map key rows else map key rows @ [key new])"
proof -
  have "list_ex (\<lambda>r. key r = key new) rows \<longleftrightarrow> key new \<in> key ` set rows"
    by (auto simp: list_ex_iff image_iff eq_commute)
  then show ?thesis by (auto simp: upsert_by_def merge_key)
qed

lemma upsert_key_set: "key ` set (upsert_by key merge new rows) = insert (key new) (key ` set rows)"
proof -
  have "set (map key (upsert_by key merge new rows)) = insert (key new) (key ` set rows)"
    unfolding upsert_keys by auto
  then show ?thesis by simp
qed

lemma upsert_distinct:
  "distinct (map key rows) \<Longrightarrow> distinct (map key (upsert_by key merge new rows))"
  by (simp add: upsert_keys)

lemma upsert_set:
  "r \<in> set (upsert_by key merge new rows) \<Longrightarrow>
     r = new \<or> (\<exists>old\<in>set rows. key old = key new \<and> r = merge old new) \<or> (r \<in> set rows \<and> key r \<noteq> key new)"
  by (auto simp: upsert_by_def list_ex_iff split: if_splits)

lemma lookup_upsert_same:
  "lookup_by key (key new) (upsert_by key merge new rows) =
     Some (case lookup_by key (key new) rows of None \<Rightarrow> new | Some old \<Rightarrow> merge old new)"
proof (cases "lookup_by key (key new) rows")
  case None
  then show ?thesis
    by (induction rows) (auto simp: upsert_by_def lookup_by_def split: if_splits)
next
  case (Some old)
  have "list_ex (\<lambda>r. key r = key new) rows"
    using lookup_by_Some[OF Some] by (auto simp: list_ex_iff)
  moreover have "find (\<lambda>r. key r = key new) (map (\<lambda>r. if key r = key new then merge r new else r) rows)
      = Some (merge old new)"
    using Some by (induction rows) (auto simp: lookup_by_def merge_key split: if_splits)
  ultimately show ?thesis using Some by (simp add: upsert_by_def lookup_by_def)
qed

lemma lookup_upsert_other:
  assumes "k \<noteq> key new"
  shows "lookup_by key k (upsert_by key merge new rows) = lookup_by key k rows"
proof -
  have "find (\<lambda>r. key r = k) (map (\<lambda>r. if key r = key new then merge r new else r) rows)
      = find (\<lambda>r. key r = k) rows"
    using assms by (induction rows) (auto simp: merge_key)
  moreover have "find (\<lambda>r. key r = k) (rows @ [new]) = find (\<lambda>r. key r = k) rows"
    using assms by (induction rows) auto
  ultimately show ?thesis by (simp add: upsert_by_def lookup_by_def)
qed

end

end
