(* ===== verification/IR_Hash.thy ===== *)
theory IR_Hash
  imports Prelude
begin

text \<open>
  \<^verbatim>\<open>crates/standardoc-ir/src/hash.rs\<close>: a BLAKE3 digest as 32 bytes with its hexadecimal
  printer and parser.  Bytes are \<^typ>\<open>8 word\<close>, as \<^verbatim>\<open>u8\<close> in the source.  The lemmas show
  that the printer always yields 64 lower-case hex digits, that the parser accepts exactly
  the 64-digit strings in either case, and that printing what was parsed is the lower-case
  form of the input.
\<close>

unbundle bit_operations_syntax

type_synonym Blake3Hash = "8 word list"

definition wf_hash :: "Blake3Hash \<Rightarrow> bool" where
  "wf_hash h \<longleftrightarrow> length h = 32"

datatype ParseHashError = InvalidLength nat | InvalidChar

definition byte_of_char :: "char \<Rightarrow> 8 word" where
  "byte_of_char c = of_nat (of_char c)"

definition char_of_byte :: "8 word \<Rightarrow> char" where
  "char_of_byte b = char_of (unat b)"

definition nibble_to_char :: "8 word \<Rightarrow> char" where
  "nibble_to_char n0 =
    (let n = n0 AND 0x0f in
     if n < 10 then char_of_byte (0x30 + n) else char_of_byte (0x61 + n - 10))"

definition char_to_nibble :: "8 word \<Rightarrow> 8 word option" where
  "char_to_nibble c =
    (if 0x30 \<le> c \<and> c \<le> 0x39 then Some (c - 0x30)
     else if 0x61 \<le> c \<and> c \<le> 0x66 then Some (c - 0x61 + 10)
     else if 0x41 \<le> c \<and> c \<le> 0x46 then Some (c - 0x41 + 10)
     else None)"

fun to_hex :: "Blake3Hash \<Rightarrow> string" where
  "to_hex [] = []"
| "to_hex (b # bs) = nibble_to_char (drop_bit 4 b) # nibble_to_char (b AND 0x0f) # to_hex bs"

text \<open>The loop over \<^verbatim>\<open>chunks_exact(2)\<close>; a trailing odd byte is not visited.\<close>

fun decode_chunks :: "8 word list \<Rightarrow> ParseHashError + 8 word list" where
  "decode_chunks (a # b # rest) =
    (case char_to_nibble a of None \<Rightarrow> Inl InvalidChar
     | Some hi \<Rightarrow> (case char_to_nibble b of None \<Rightarrow> Inl InvalidChar
        | Some lo \<Rightarrow> (case decode_chunks rest of Inl e \<Rightarrow> Inl e
             | Inr out \<Rightarrow> Inr ((push_bit 4 hi OR lo) # out))))"
| "decode_chunks _ = Inr []"

definition from_hex :: "string \<Rightarrow> ParseHashError + Blake3Hash" where
  "from_hex s =
    (let bytes = map byte_of_char s in
     if length bytes \<noteq> 64 then Inl (InvalidLength (length bytes)) else decode_chunks bytes)"

section \<open>Digits\<close>

definition is_hex_digit :: "char \<Rightarrow> bool" where
  "is_hex_digit c \<longleftrightarrow> (let v = (of_char c :: nat) in
     48 \<le> v \<and> v \<le> 57 \<or> 97 \<le> v \<and> v \<le> 102 \<or> 65 \<le> v \<and> v \<le> 70)"

definition lower_hex :: "char \<Rightarrow> char" where
  "lower_hex c = (let v = (of_char c :: nat) in if 65 \<le> v \<and> v \<le> 70 then char_of (v + 32) else c)"

lemma unat_byte_of_char [simp]: "unat (byte_of_char c) = of_char c"
proof -
  have "(of_char c :: nat) < 256" by simp
  then show ?thesis by (simp add: byte_of_char_def unat_of_nat)
qed

lemma char_to_nibble_nat:
  "char_to_nibble b = (let v = unat b in
     if 48 \<le> v \<and> v \<le> 57 then Some (of_nat (v - 48))
     else if 97 \<le> v \<and> v \<le> 102 then Some (of_nat (v - 87))
     else if 65 \<le> v \<and> v \<le> 70 then Some (of_nat (v - 55)) else None)"
  by (auto simp: char_to_nibble_def Let_def word_le_nat_alt of_nat_diff)

lemma and_15_small: "(n::8 word) < 16 \<Longrightarrow> n AND 0x0f = n"
proof -
  assume "n < 16"
  then have "unat n < 2 ^ 4" by (simp add: word_less_nat_alt)
  then have "unat (take_bit 4 n) = unat n" by (simp add: unsigned_take_bit_eq take_bit_nat_eq_self)
  then have "take_bit 4 n = n" by (simp only: word_unat_eq_iff)
  then show ?thesis by (simp add: take_bit_eq_mask mask_numeral)
qed

lemma nibble_to_char_nat:
  assumes "k < 16"
  shows "nibble_to_char (of_nat k) = char_of (if k < 10 then 48 + k else 87 + k)"
proof -
  have u: "unat (of_nat k :: 8 word) = k" using assms by (simp add: unat_of_nat)
  have lt: "(of_nat k :: 8 word) < 16" using assms u by (simp add: word_less_nat_alt)
  have 1: "unat (0x30 + of_nat k :: 8 word) = 48 + k"
    using assms u by (subst unat_add_lem[THEN iffD1]) auto
  have 2: "unat (0x57 + of_nat k :: 8 word) = 87 + k"
    using assms u by (subst unat_add_lem[THEN iffD1]) auto
  have 3: "0x61 + of_nat k - 10 = (0x57 + of_nat k :: 8 word)" by simp
  show ?thesis
    using and_15_small[OF lt] u 1 2 3
    by (simp add: nibble_to_char_def Let_def char_of_byte_def word_less_nat_alt)
qed

text \<open>The parser's digit table against the printer's: all three cases of a digit.\<close>

lemma hex_digit_decode:
  "char_to_nibble (byte_of_char c) = None \<longleftrightarrow> \<not> is_hex_digit c"
  "char_to_nibble (byte_of_char c) = Some n \<Longrightarrow> n < 16 \<and> nibble_to_char n = lower_hex c"
proof -
  show "char_to_nibble (byte_of_char c) = None \<longleftrightarrow> \<not> is_hex_digit c"
    by (simp add: char_to_nibble_nat is_hex_digit_def Let_def)
  assume "char_to_nibble (byte_of_char c) = Some n"
  then consider "48 \<le> (of_char c::nat)" "(of_char c::nat) \<le> 57" "n = of_nat (of_char c - 48)"
    | "97 \<le> (of_char c::nat)" "(of_char c::nat) \<le> 102" "n = of_nat (of_char c - 87)"
    | "65 \<le> (of_char c::nat)" "(of_char c::nat) \<le> 70" "n = of_nat (of_char c - 55)"
    by (auto simp: char_to_nibble_nat Let_def simp del: of_nat_diff split: if_splits)
  then show "n < 16 \<and> nibble_to_char n = lower_hex c"
  proof cases
    case 1
    then have "of_char c - 48 < (10 :: nat)" by linarith
    with 1 show ?thesis using nibble_to_char_nat[of "of_char c - 48"]
      by (simp add: lower_hex_def Let_def word_less_nat_alt unat_of_nat del: of_nat_diff)
  next
    case 2
    then have "of_char c - 87 < (16 :: nat)" "\<not> of_char c - 87 < (10 :: nat)" by linarith+
    with 2 show ?thesis using nibble_to_char_nat[of "of_char c - 87"]
      by (simp add: lower_hex_def Let_def word_less_nat_alt unat_of_nat del: of_nat_diff)
  next
    case 3
    then have "of_char c - 55 < (16 :: nat)" "\<not> of_char c - 55 < (10 :: nat)" by linarith+
    with 3 show ?thesis using nibble_to_char_nat[of "of_char c - 55"]
      by (simp add: lower_hex_def Let_def word_less_nat_alt unat_of_nat del: of_nat_diff)
  qed
qed

lemma nibble_roundtrip: "n < 16 \<Longrightarrow> char_to_nibble (byte_of_char (nibble_to_char n)) = Some n"
proof -
  assume "n < 16"
  then have k: "unat n < 16" by (simp add: word_less_nat_alt)
  have "(of_char (nibble_to_char n) :: nat) = (if unat n < 10 then 48 + unat n else 87 + unat n)"
    using nibble_to_char_nat[OF k] k by simp
  then show ?thesis using k by (simp add: char_to_nibble_nat Let_def)
qed

lemma nibble_mask: "nibble_to_char n = nibble_to_char (n AND 0x0f)" "n AND 0x0f < (16 :: 8 word)"
proof -
  show "nibble_to_char n = nibble_to_char (n AND 0x0f)"
    by (simp add: nibble_to_char_def ac_simps)
  have "n AND 0x0f \<le> (15 :: 8 word)" by (rule word_and_le1)
  then show "n AND 0x0f < (16 :: 8 word)" by (simp add: word_le_nat_alt word_less_nat_alt)
qed

lemma lower_hex_nibble [simp]: "is_hex_digit (nibble_to_char n)"
  "lower_hex (nibble_to_char n) = nibble_to_char n"
proof -
  have "char_to_nibble (byte_of_char (nibble_to_char n)) = Some (n AND 0x0f)"
    using nibble_roundtrip[OF nibble_mask(2)[of n]] by (simp only: nibble_mask(1)[of n, symmetric])
  then show "is_hex_digit (nibble_to_char n)" "lower_hex (nibble_to_char n) = nibble_to_char n"
    using hex_digit_decode(1)[of "nibble_to_char n"] hex_digit_decode(2)[of "nibble_to_char n"]
    by (simp, metis nibble_mask(1))
qed

section \<open>Bytes and digests\<close>

lemma and_15_take_bit: "(b::8 word) AND 0x0f = take_bit 4 b"
  by (simp add: take_bit_eq_mask mask_numeral)

lemma byte_split: "push_bit 4 (drop_bit 4 b) OR (b AND 0x0f) = (b :: 8 word)"
  unfolding and_15_take_bit by (rule bit_eqI) (auto simp: bit_simps)

lemma small_no_high_bit: "(n::8 word) < 16 \<Longrightarrow> bit n k \<Longrightarrow> k < 4"
  using and_15_small[of n] unfolding and_15_take_bit by (metis bit_take_bit_iff)

lemma byte_join:
  assumes "hi < (16 :: 8 word)" "lo < 16"
  shows "drop_bit 4 (push_bit 4 hi OR lo) = hi" "(push_bit 4 hi OR lo) AND 0x0f = lo"
proof -
  show "drop_bit 4 (push_bit 4 hi OR lo) = hi"
    using small_no_high_bit[OF assms(1)] small_no_high_bit[OF assms(2)]
    by (intro bit_eqI) (fastforce simp: bit_simps)
  show "(push_bit 4 hi OR lo) AND 0x0f = lo"
    unfolding and_15_take_bit using small_no_high_bit[OF assms(2)]
    by (intro bit_eqI) (auto simp: bit_simps)
qed

lemma drop_4_small: "drop_bit 4 (b :: 8 word) < 16"
proof -
  have "unat (drop_bit 4 b) < 16"
    using unsigned_less[of b, where ?'a=nat]
    by (simp add: drop_bit_eq_div unat_div div_less_iff_less_mult)
  then show ?thesis by (simp add: word_less_nat_alt)
qed

lemma length_to_hex [simp]: "length (to_hex h) = 2 * length h"
  by (induction h) auto

lemma decode_to_hex: "decode_chunks (map byte_of_char (to_hex h)) = Inr h"
  by (induction h) (simp_all add: nibble_roundtrip drop_4_small nibble_mask(2) byte_split)

lemma to_hex_inject [simp]: "to_hex a = to_hex b \<longleftrightarrow> a = b"
  by (metis decode_to_hex sum.inject(2))

lemma to_hex_lower: "map lower_hex (to_hex h) = to_hex h \<and> list_all is_hex_digit (to_hex h)"
  by (induction h) auto

lemma decode_chunks_Inr:
  "even (length s) \<Longrightarrow> decode_chunks (map byte_of_char s) = Inr h \<longleftrightarrow>
     list_all is_hex_digit s \<and> to_hex h = map lower_hex s \<and> 2 * length h = length s"
proof (induction s arbitrary: h rule: induct_list012)
  case (3 a b s)
  show ?case
  proof (cases "is_hex_digit a \<and> is_hex_digit b")
    case False
    then show ?thesis
      using hex_digit_decode(1)[of a] hex_digit_decode(1)[of b] by (auto split: option.splits)
  next
    case True
    then obtain hi lo where d: "char_to_nibble (byte_of_char a) = Some hi"
        "char_to_nibble (byte_of_char b) = Some lo"
      using hex_digit_decode(1)[of a] hex_digit_decode(1)[of b] by blast
    note ab = hex_digit_decode(2)[OF d(1)] hex_digit_decode(2)[OF d(2)]
    have inv: "x = push_bit 4 hi OR lo"
      if "nibble_to_char (drop_bit 4 x) = nibble_to_char hi" "nibble_to_char (x AND 0x0f) = nibble_to_char lo"
      for x
      using that ab byte_split[of x] nibble_roundtrip drop_4_small nibble_mask(2)
      by (metis option.inject)
    have "decode_chunks (map byte_of_char (a # b # s)) = Inr h \<longleftrightarrow>
        (\<exists>t. h = (push_bit 4 hi OR lo) # t \<and> decode_chunks (map byte_of_char s) = Inr t)"
      using d by (auto split: sum.splits)
    also have "\<dots> \<longleftrightarrow> (\<exists>x t. h = x # t \<and> nibble_to_char (drop_bit 4 x) = lower_hex a
        \<and> nibble_to_char (x AND 0x0f) = lower_hex b \<and> decode_chunks (map byte_of_char s) = Inr t)"
      using ab inv byte_join[of hi lo] by metis
    finally show ?thesis using 3 True by (cases h) auto
  qed
qed auto

lemma decode_chunks_Inl: "decode_chunks bs = Inl e \<Longrightarrow> e = InvalidChar"
  by (induction bs rule: decode_chunks.induct) (auto split: option.splits sum.splits)

lemma decode_chunks_total:
  "list_all is_hex_digit s \<Longrightarrow> \<exists>h. decode_chunks (map byte_of_char s) = Inr h"
proof (induction s rule: induct_list012)
  case (3 a b s)
  then show ?case
    using hex_digit_decode(1)[of a] hex_digit_decode(1)[of b] by (auto split: option.splits sum.splits)
qed auto

lemma from_hex_to_hex [simp]: "wf_hash h \<Longrightarrow> from_hex (to_hex h) = Inr h"
  using decode_to_hex[of h] by (simp add: from_hex_def wf_hash_def)

section \<open>Properties\<close>

text \<open>
  The hexadecimal form of a digest is 64 lower-case hex digits and
  \<^verbatim>\<open>Blake3Hash::from_hex\<close> reads the same digest back from it.
\<close>

theorem blake3_hex_roundtrip:
  assumes "wf_hash h"
  shows "from_hex (to_hex h) = Inr h \<and> length (to_hex h) = 64
    \<and> list_all is_hex_digit (to_hex h) \<and> map lower_hex (to_hex h) = to_hex h"
  using assms to_hex_lower[of h] decode_to_hex[of h] by (simp add: from_hex_def wf_hash_def)

theorem blake3_hex_roundtrip_witness:
  "from_hex (to_hex (replicate 32 0xab)) = Inr (replicate 32 0xab)"
  using blake3_hex_roundtrip[of "replicate 32 0xab"] by (simp add: wf_hash_def)

text \<open>
  \<^verbatim>\<open>Blake3Hash::from_hex\<close> is decided on every input: a string whose byte length is not 64
  is rejected with that length, one with a non-digit among 64 bytes with \<^verbatim>\<open>InvalidChar\<close>, and
  every other one yields a 32-byte digest that prints as the lower-case form of the input (so
  the parser is insensitive to case and accepts nothing else).
\<close>

theorem blake3_from_hex_complete:
  "case from_hex s of
     Inl (InvalidLength n) \<Rightarrow> n = length s \<and> length s \<noteq> 64
   | Inl InvalidChar \<Rightarrow> length s = 64 \<and> \<not> list_all is_hex_digit s
   | Inr h \<Rightarrow> length s = 64 \<and> list_all is_hex_digit s \<and> wf_hash h \<and> to_hex h = map lower_hex s"
proof (cases "length s = 64")
  case True
  then show ?thesis
    using decode_chunks_Inr[of s] decode_chunks_Inl[of "map byte_of_char s"] decode_chunks_total[of s]
    by (auto simp: from_hex_def wf_hash_def split: sum.splits ParseHashError.splits)
qed (simp add: from_hex_def)

end
