(* ===== verification/IR_Kinds.thy ===== *)
theory IR_Kinds
  imports Prelude
begin

text \<open>
  The closed vocabularies of the intermediate representation
  (\<^verbatim>\<open>crates/standardoc-ir/src\<close>: \<^verbatim>\<open>kinds.rs\<close>, \<^verbatim>\<open>bridge_kind.rs\<close>, \<^verbatim>\<open>ffi.rs\<close>,
  \<^verbatim>\<open>project.rs\<close>, \<^verbatim>\<open>workspace.rs\<close>): each Rust enum is a datatype with the source's
  constructors, each \<^verbatim>\<open>as_str\<close>/\<^verbatim>\<open>from_str\<close> pair a printer and a parser.
  The lemmas show that every parser inverts its printer, and where it does not.
\<close>

section \<open>kinds.rs\<close>

datatype Kind = Callable | Type | Value | Module | Macro

datatype EdgeKind = Calls | Imports | Extends | Implements | References | UsesType

datatype EdgeConfidence = Extracted | Inferred | Ambiguous

datatype Visibility = Public | Private | Crate | Protected

datatype SourceOrigin = Workspace | CargoRegistry | NodeModulesDts | ManualExternal

datatype Language = Rust | TypeScript | JavaScript | Lua | Vue | Svelte | C

datatype DeclKind =
    Module | Namespace | Crate | Struct | Enum | Union | Class | Interface | TypeAlias
  | Function | Method | Constructor | Getter | Setter | Const | Static | Var | Field
  | EnumVariant | DeclarativeMacro | ProcMacro | Decorator | Custom Language string

datatype EntryPointKind = BinaryMain | PublicApi | FfiExport

section \<open>bridge_kind.rs\<close>

definition BUILTIN_BRIDGE_KINDS :: "string list" where
  "BUILTIN_BRIDGE_KINDS =
    [''tauri'', ''wasm-bindgen'', ''napi'', ''neon'', ''pyo3'', ''cffi'', ''ffi'', ''cxx'',
     ''uniffi'', ''jni'', ''cgo'', ''mlua'', ''wit'', ''swift-bridge'', ''kotlin-native'',
     ''electron-ipc'', ''wasi'', ''dotnet-pinvoke'', ''comlink'',
     ''db-table'', ''db-view'', ''db-procedure'', ''db-model'', ''db-column'', ''db-index'',
     ''db-migration'', ''sql'', ''sqlx'', ''diesel'', ''sea-orm'', ''prisma'', ''drizzle'',
     ''typeorm'', ''mikro-orm'', ''kysely'', ''mongoose'', ''sqlalchemy'', ''django-orm'',
     ''peewee'', ''gorm'', ''sqlc'', ''ef-core'', ''activerecord'',
     ''rest'', ''graphql'', ''grpc'', ''proto'', ''openapi'', ''trpc'', ''connect-rpc'',
     ''jsonrpc'', ''soap'', ''webhook'', ''server-actions'', ''route-handler'',
     ''redis-pubsub'', ''redis-stream'', ''kafka'', ''nats'', ''rabbitmq'', ''mqtt'',
     ''aws-sqs'', ''aws-sns'', ''gcp-pubsub'', ''azure-servicebus'', ''cron'', ''temporal'',
     ''bullmq'', ''sidekiq'', ''celery'', ''unix-socket'', ''pipe'',
     ''embed-asset'', ''i18n-key'', ''env-var'', ''config-key'', ''feature-flag'',
     ''secret-ref'']"

definition CUSTOM_BRIDGE_PREFIX :: string where
  "CUSTOM_BRIDGE_PREFIX = ''custom:''"

datatype BridgeKindError = Invalid string

datatype BridgeKind = BridgeKind (bridge_slug: string)

definition is_builtin_bridge :: "BridgeKind \<Rightarrow> bool" where
  "is_builtin_bridge b \<longleftrightarrow> List.member BUILTIN_BRIDGE_KINDS (bridge_slug b)"

definition is_custom_bridge :: "BridgeKind \<Rightarrow> bool" where
  "is_custom_bridge b \<longleftrightarrow> prefix CUSTOM_BRIDGE_PREFIX (bridge_slug b)"

definition is_valid_bridge :: "BridgeKind \<Rightarrow> bool" where
  "is_valid_bridge b \<longleftrightarrow> is_builtin_bridge b \<or> is_custom_bridge b"

definition try_validate :: "BridgeKind \<Rightarrow> BridgeKindError + unit" where
  "try_validate b = (if is_valid_bridge b then Inr () else Inl (Invalid (bridge_slug b)))"

section \<open>ffi.rs\<close>

datatype FfiAbi = C | System | Stdcall | Lua | Jni | PythonCApi | Other string

fun abi_as_slug :: "FfiAbi \<Rightarrow> string" where
  "abi_as_slug FfiAbi.C = ''c''"
| "abi_as_slug FfiAbi.System = ''system''"
| "abi_as_slug FfiAbi.Stdcall = ''stdcall''"
| "abi_as_slug FfiAbi.Lua = ''lua''"
| "abi_as_slug FfiAbi.Jni = ''jni''"
| "abi_as_slug FfiAbi.PythonCApi = ''python_c_api''"
| "abi_as_slug (FfiAbi.Other s) = s"

definition abi_from_slug :: "string \<Rightarrow> FfiAbi" where
  "abi_from_slug s =
    (if s = ''c'' then FfiAbi.C
     else if s = ''system'' then FfiAbi.System
     else if s = ''stdcall'' then FfiAbi.Stdcall
     else if s = ''lua'' then FfiAbi.Lua
     else if s = ''jni'' then FfiAbi.Jni
     else if s = ''python_c_api'' then FfiAbi.PythonCApi
     else FfiAbi.Other s)"

datatype FfiDirection = Export | Import

fun direction_as_slug :: "FfiDirection \<Rightarrow> string" where
  "direction_as_slug Export = ''export''"
| "direction_as_slug Import = ''import''"

definition direction_from_slug :: "string \<Rightarrow> FfiDirection option" where
  "direction_from_slug s =
    (if s = ''export'' then Some Export else if s = ''import'' then Some Import else None)"

record RawFfiBinding =
  fb_symbol_fqdn :: string
  fb_abi :: FfiAbi
  fb_direction :: FfiDirection
  fb_abi_name :: string
  fb_convention :: "string option"

section \<open>project.rs\<close>

datatype ProjectKind =
  Rust | Node | Bun | Deno | Python | Lua | C | Cpp | Unknown | Custom string

fun project_kind_as_str :: "ProjectKind \<Rightarrow> string" where
  "project_kind_as_str ProjectKind.Rust = ''rust''"
| "project_kind_as_str ProjectKind.Node = ''node''"
| "project_kind_as_str ProjectKind.Bun = ''bun''"
| "project_kind_as_str ProjectKind.Deno = ''deno''"
| "project_kind_as_str ProjectKind.Python = ''python''"
| "project_kind_as_str ProjectKind.Lua = ''lua''"
| "project_kind_as_str ProjectKind.C = ''c''"
| "project_kind_as_str ProjectKind.Cpp = ''cpp''"
| "project_kind_as_str ProjectKind.Unknown = ''unknown''"
| "project_kind_as_str (ProjectKind.Custom tag) = ''custom:'' @ tag"

definition project_kind_from_str :: "string \<Rightarrow> ProjectKind option" where
  "project_kind_from_str s =
    (if s = ''rust'' then Some ProjectKind.Rust
     else if s = ''node'' then Some ProjectKind.Node
     else if s = ''bun'' then Some ProjectKind.Bun
     else if s = ''deno'' then Some ProjectKind.Deno
     else if s = ''python'' then Some ProjectKind.Python
     else if s = ''lua'' then Some ProjectKind.Lua
     else if s = ''c'' then Some ProjectKind.C
     else if s = ''cpp'' \<or> s = ''c++'' then Some ProjectKind.Cpp
     else if s = ''unknown'' then Some ProjectKind.Unknown
     else map_option ProjectKind.Custom (strip_prefix ''custom:'' s))"

record ProjectInfo =
  pi_project_id :: "32 word"
  pi_label :: string
  pi_kind :: ProjectKind
  pi_root_path :: string
  pi_rel_path :: string

section \<open>workspace.rs\<close>

datatype WorkspaceKind =
    Cargo | Npm | Pnpm | Yarn | Bun | Deno | Go | Lerna | Nx | Turborepo | Mira
  | Custom string

fun workspace_kind_as_str :: "WorkspaceKind \<Rightarrow> string" where
  "workspace_kind_as_str WorkspaceKind.Cargo = ''cargo''"
| "workspace_kind_as_str WorkspaceKind.Npm = ''npm''"
| "workspace_kind_as_str WorkspaceKind.Pnpm = ''pnpm''"
| "workspace_kind_as_str WorkspaceKind.Yarn = ''yarn''"
| "workspace_kind_as_str WorkspaceKind.Bun = ''bun''"
| "workspace_kind_as_str WorkspaceKind.Deno = ''deno''"
| "workspace_kind_as_str WorkspaceKind.Go = ''go''"
| "workspace_kind_as_str WorkspaceKind.Lerna = ''lerna''"
| "workspace_kind_as_str WorkspaceKind.Nx = ''nx''"
| "workspace_kind_as_str WorkspaceKind.Turborepo = ''turborepo''"
| "workspace_kind_as_str WorkspaceKind.Mira = ''mira''"
| "workspace_kind_as_str (WorkspaceKind.Custom tag) = ''custom:'' @ tag"

definition workspace_kind_from_str :: "string \<Rightarrow> WorkspaceKind" where
  "workspace_kind_from_str s =
    (if s = ''cargo'' then WorkspaceKind.Cargo
     else if s = ''npm'' then WorkspaceKind.Npm
     else if s = ''pnpm'' then WorkspaceKind.Pnpm
     else if s = ''yarn'' then WorkspaceKind.Yarn
     else if s = ''bun'' then WorkspaceKind.Bun
     else if s = ''deno'' then WorkspaceKind.Deno
     else if s = ''go'' then WorkspaceKind.Go
     else if s = ''lerna'' then WorkspaceKind.Lerna
     else if s = ''nx'' then WorkspaceKind.Nx
     else if s = ''turborepo'' then WorkspaceKind.Turborepo
     else if s = ''mira'' then WorkspaceKind.Mira
     else (case strip_prefix ''custom:'' s of
             None \<Rightarrow> WorkspaceKind.Custom s
           | Some tag \<Rightarrow> WorkspaceKind.Custom tag))"

fun workspace_kind_is_builtin :: "WorkspaceKind \<Rightarrow> bool" where
  "workspace_kind_is_builtin (WorkspaceKind.Custom _) = False"
| "workspace_kind_is_builtin _ = True"

datatype LinkDirection = In | Out | Bidirectional

fun link_direction_as_i64 :: "LinkDirection \<Rightarrow> int" where
  "link_direction_as_i64 In = 0"
| "link_direction_as_i64 Out = 1"
| "link_direction_as_i64 Bidirectional = 2"

definition link_direction_from_i64 :: "int \<Rightarrow> LinkDirection option" where
  "link_direction_from_i64 v =
    (if v = 0 then Some In else if v = 1 then Some Out
     else if v = 2 then Some Bidirectional else None)"

datatype LinkedWorkspaceStatus = Active | Paused | Archived

fun link_status_as_str :: "LinkedWorkspaceStatus \<Rightarrow> string" where
  "link_status_as_str Active = ''active''"
| "link_status_as_str Paused = ''paused''"
| "link_status_as_str Archived = ''archived''"

definition link_status_from_str :: "string \<Rightarrow> LinkedWorkspaceStatus option" where
  "link_status_from_str s =
    (if s = ''active'' then Some Active else if s = ''paused'' then Some Paused
     else if s = ''archived'' then Some Archived else None)"

datatype IndexingMode = BlobImport | Extract

fun indexing_mode_as_str :: "IndexingMode \<Rightarrow> string" where
  "indexing_mode_as_str BlobImport = ''blob_import''"
| "indexing_mode_as_str Extract = ''extract''"

definition indexing_mode_from_str :: "string \<Rightarrow> IndexingMode option" where
  "indexing_mode_from_str s =
    (if s = ''blob_import'' then Some BlobImport
     else if s = ''extract'' then Some Extract else None)"

section \<open>Parsers invert printers\<close>

lemma direction_roundtrip [simp]: "direction_from_slug (direction_as_slug d) = Some d"
  by (cases d) (simp_all add: direction_from_slug_def)

lemma project_kind_roundtrip [simp]: "project_kind_from_str (project_kind_as_str k) = Some k"
  by (cases k) (simp_all add: project_kind_from_str_def strip_prefix_def)

lemma workspace_kind_roundtrip [simp]: "workspace_kind_from_str (workspace_kind_as_str k) = k"
  by (cases k) (simp_all add: workspace_kind_from_str_def strip_prefix_def)

lemma link_direction_roundtrip [simp]: "link_direction_from_i64 (link_direction_as_i64 d) = Some d"
  by (cases d) (simp_all add: link_direction_from_i64_def)

lemma link_status_roundtrip [simp]: "link_status_from_str (link_status_as_str d) = Some d"
  by (cases d) (simp_all add: link_status_from_str_def)

lemma indexing_mode_roundtrip [simp]: "indexing_mode_from_str (indexing_mode_as_str d) = Some d"
  by (cases d) (simp_all add: indexing_mode_from_str_def)

lemma abi_slug_of_parse [simp]: "abi_as_slug (abi_from_slug s) = s"
  by (simp add: abi_from_slug_def)

text \<open>
  The open constructor \<^const>\<open>FfiAbi.Other\<close> is the only one that may fail to come back:
  a provider that tags a binding \<^verbatim>\<open>Other("c")\<close> reads back the closed constructor.
\<close>

lemma abi_roundtrip_iff:
  "abi_from_slug (abi_as_slug a) = a \<longleftrightarrow>
   (\<forall>s. a = FfiAbi.Other s \<longrightarrow>
        s \<notin> {''c'', ''system'', ''stdcall'', ''lua'', ''jni'', ''python_c_api''})"
  by (cases a) (simp_all add: abi_from_slug_def)

lemma try_validate_ok_iff:
  "try_validate b = Inr () \<longleftrightarrow> List.member BUILTIN_BRIDGE_KINDS (bridge_slug b)
     \<or> prefix ''custom:'' (bridge_slug b)"
  by (simp add: try_validate_def is_valid_bridge_def is_builtin_bridge_def is_custom_bridge_def
      CUSTOM_BRIDGE_PREFIX_def)

end
