(* ===== verification/IR_Lookup.thy ===== *)
theory IR_Lookup
  imports IR_Kinds
begin

text \<open>
  \<^verbatim>\<open>crates/standardoc-ir/src/lookup.rs\<close> and \<^verbatim>\<open>builtins.rs\<close>: the per-module identifier
  table with its scope arena, the shadowing walk \<^verbatim>\<open>resolve_local\<close>, and the registry of
  built-in identifiers, methods and substrate bridges.

  \<^verbatim>\<open>u32\<close> indices are \<^typ>\<open>32 word\<close>, so the truncating cast of \<^verbatim>\<open>push_scope\<close> wraps as in
  the source.  \<^verbatim>\<open>resolve_local\<close> loops along parent links that nothing in its type bounds;
  it is a partial function whose value \<^const>\<open>None\<close> is divergence.  The lemmas show that on
  tables the builders produce (a parent is always an earlier scope) it returns, and that what
  it returns is the last binding of the innermost enclosing scope that has one.
\<close>

section \<open>lookup.rs\<close>

datatype AliasMutability = Const | Mutable

fun alias_as_slug :: "AliasMutability \<Rightarrow> string" where
  "alias_as_slug AliasMutability.Const = ''via-alias''"
| "alias_as_slug AliasMutability.Mutable = ''via-alias-mutable''"

datatype Substrate =
    Native Language | Ust string | Wasm | Ffi string | Browser | Node | Database
  | MessageBus | Kernel | Hypervisor | Custom string

datatype LocalDeclKind =
    Function | Class | Interface | Enum | Struct | Trait | Impl | TypeAlias | Const | Let
  | Var | Macro | Module | Namespace | Custom Language string

datatype ScopeKind =
  Module | Function | Block | TypeContainer | Loop | Catch | Macro | Custom Language string

datatype BuiltinTag =
    Net | Decode | Encode | Console | FileSystem | Process | Math | Time | Memory
  | Reflection | Async | Iter | Format | Custom string

fun builtin_tag_slug :: "BuiltinTag \<Rightarrow> string" where
  "builtin_tag_slug BuiltinTag.Net = ''net''"
| "builtin_tag_slug BuiltinTag.Decode = ''decode''"
| "builtin_tag_slug BuiltinTag.Encode = ''encode''"
| "builtin_tag_slug BuiltinTag.Console = ''console''"
| "builtin_tag_slug BuiltinTag.FileSystem = ''fs''"
| "builtin_tag_slug BuiltinTag.Process = ''process''"
| "builtin_tag_slug BuiltinTag.Math = ''math''"
| "builtin_tag_slug BuiltinTag.Time = ''time''"
| "builtin_tag_slug BuiltinTag.Memory = ''memory''"
| "builtin_tag_slug BuiltinTag.Reflection = ''reflection''"
| "builtin_tag_slug BuiltinTag.Async = ''async''"
| "builtin_tag_slug BuiltinTag.Iter = ''iter''"
| "builtin_tag_slug BuiltinTag.Format = ''format''"
| "builtin_tag_slug (BuiltinTag.Custom tag) = tag"

datatype BindingSource =
    Import (bs_module_path: string) (bs_original_name: "string option")
      (bs_is_type_only: bool) (bs_is_re_export: bool)
  | LocalDecl LocalDeclKind
  | TypeParam
  | Param
  | Builtin BuiltinTag string
  | Bridge Substrate Substrate string
  | Unresolved

record ScopeRange =
  sc_start_line :: "32 word"
  sc_end_line :: "32 word"
  sc_parent :: "32 word option"
  sc_kind :: ScopeKind

record IdentResolution =
  ir_name :: string
  ir_source :: BindingSource
  ir_resolved_fqdn :: "string option"
  ir_aliases_to :: "string option"
  ir_mutability :: "AliasMutability option"
  ir_scope_idx :: "32 word"
  ir_attributes :: "string list"
  ir_ir_kind :: "Kind option"

record ImportRecord =
  im_local_name :: string
  im_origin_module :: string
  im_origin_symbol :: "string option"
  im_is_type_only :: bool
  im_is_re_export :: bool

record ModuleLookup =
  ml_module_fqdn :: string
  ml_language :: Language
  ml_scopes :: "ScopeRange list"
  ml_bindings :: "string \<rightharpoonup> IdentResolution list"
  ml_imports :: "ImportRecord list"
  ml_built_at_epoch_ms :: "64 word"
  ml_span_to_scope :: "32 word \<times> 32 word \<rightharpoonup> 32 word"

definition ROOT_SCOPE :: "32 word" where
  "ROOT_SCOPE = 0"

text \<open>\<^verbatim>\<open>ModuleLookup::new\<close>; the clock reading of \<^verbatim>\<open>epoch_ms_now\<close> is an argument.\<close>

definition module_lookup_new :: "64 word \<Rightarrow> string \<Rightarrow> Language \<Rightarrow> ModuleLookup" where
  "module_lookup_new now module_fqdn language =
    \<lparr> ml_module_fqdn = module_fqdn, ml_language = language,
      ml_scopes = [\<lparr> sc_start_line = 1, sc_end_line = - 1, sc_parent = None,
                     sc_kind = ScopeKind.Module \<rparr>],
      ml_bindings = Map.empty, ml_imports = [], ml_built_at_epoch_ms = now,
      ml_span_to_scope = Map.empty \<rparr>"

definition push_scope :: "ScopeRange \<Rightarrow> ModuleLookup \<Rightarrow> 32 word \<times> ModuleLookup" where
  "push_scope rng ml =
    (of_nat (length (ml_scopes ml)), ml\<lparr>ml_scopes := ml_scopes ml @ [rng]\<rparr>)"

definition push_scope_with_span ::
  "ScopeRange \<Rightarrow> 32 word \<Rightarrow> 32 word \<Rightarrow> ModuleLookup \<Rightarrow> 32 word \<times> ModuleLookup" where
  "push_scope_with_span rng byte_lo byte_hi ml =
    (let (idx, ml') = push_scope rng ml
     in (idx, ml'\<lparr>ml_span_to_scope := (ml_span_to_scope ml')((byte_lo, byte_hi) \<mapsto> idx)\<rparr>))"

definition scope_idx_for_span :: "ModuleLookup \<Rightarrow> 32 word \<Rightarrow> 32 word \<Rightarrow> 32 word option" where
  "scope_idx_for_span ml byte_lo byte_hi = ml_span_to_scope ml (byte_lo, byte_hi)"

definition push_binding :: "IdentResolution \<Rightarrow> ModuleLookup \<Rightarrow> ModuleLookup" where
  "push_binding r ml =
    ml\<lparr>ml_bindings := (ml_bindings ml)(ir_name r \<mapsto>
        (case ml_bindings ml (ir_name r) of None \<Rightarrow> [] | Some rs \<Rightarrow> rs) @ [r])\<rparr>"

definition push_import :: "ImportRecord \<Rightarrow> ModuleLookup \<Rightarrow> ModuleLookup" where
  "push_import i ml = ml\<lparr>ml_imports := ml_imports ml @ [i]\<rparr>"

definition scope_parent :: "ScopeRange list \<Rightarrow> 32 word \<Rightarrow> 32 word option" where
  "scope_parent scopes i =
    (if unat i < length scopes then sc_parent (scopes ! unat i) else None)"

partial_function (option) resolve_loop ::
  "ScopeRange list \<Rightarrow> IdentResolution list \<Rightarrow> 32 word \<Rightarrow> IdentResolution option option" where
  [code]: "resolve_loop scopes entries scope_idx =
    (case find (\<lambda>r. ir_scope_idx r = scope_idx) (rev entries) of
       Some found \<Rightarrow> Some (Some found)
     | None \<Rightarrow> (case scope_parent scopes scope_idx of
         Some parent \<Rightarrow> resolve_loop scopes entries parent
       | None \<Rightarrow> Some None))"

definition resolve_local ::
  "ModuleLookup \<Rightarrow> string \<Rightarrow> 32 word \<Rightarrow> IdentResolution option option" where
  "resolve_local ml name scope_idx =
    (case ml_bindings ml name of
       None \<Rightarrow> Some None
     | Some entries \<Rightarrow> resolve_loop (ml_scopes ml) entries scope_idx)"

section \<open>builtins.rs\<close>

datatype BuiltinTier = Drop | Attribute | Edge

record BuiltinEntry =
  be_name :: string
  be_language :: Language
  be_kind :: Kind
  be_tag :: BuiltinTag
  be_tier :: BuiltinTier
  be_synthetic_fqdn :: string

fun language_slug :: "Language \<Rightarrow> string" where
  "language_slug Language.Rust = ''rust''"
| "language_slug Language.TypeScript = ''ts''"
| "language_slug Language.JavaScript = ''js''"
| "language_slug Language.Lua = ''lua''"
| "language_slug Language.Vue = ''vue''"
| "language_slug Language.Svelte = ''svelte''"
| "language_slug Language.C = ''c''"

definition make_synthetic_fqdn :: "Language \<Rightarrow> string \<Rightarrow> string" where
  "make_synthetic_fqdn language canonical_name =
    ''<builtin>::'' @ language_slug language @ ''::'' @ canonical_name"

definition builtin_entry_new ::
  "string \<Rightarrow> Language \<Rightarrow> Kind \<Rightarrow> BuiltinTag \<Rightarrow> BuiltinTier \<Rightarrow> BuiltinEntry" where
  "builtin_entry_new name language kind tag tier =
    \<lparr> be_name = name, be_language = language, be_kind = kind, be_tag = tag, be_tier = tier,
      be_synthetic_fqdn = make_synthetic_fqdn language name \<rparr>"

record BridgeMapping =
  bm_source_name :: string
  bm_target_fqdn :: string

record SubstrateBridge =
  sb_from :: Substrate
  sb_to :: Substrate
  sb_bridge_kind :: BridgeKind
  sb_mappings :: "BridgeMapping list"

record BuiltinMethodEntry =
  bme_parent_type :: string
  bme_method :: string
  bme_language :: Language
  bme_synthetic_fqdn :: string
  bme_returns :: "string option"
  bme_closure_arg_type :: "string option"
  bme_is_trait :: bool

definition builtin_method_entry_new :: "string \<Rightarrow> string \<Rightarrow> Language \<Rightarrow> BuiltinMethodEntry" where
  "builtin_method_entry_new parent_type method language =
    \<lparr> bme_parent_type = parent_type, bme_method = method, bme_language = language,
      bme_synthetic_fqdn = make_synthetic_fqdn language (parent_type @ ''::'' @ method),
      bme_returns = None, bme_closure_arg_type = None, bme_is_trait = False \<rparr>"

definition with_returns :: "string \<Rightarrow> BuiltinMethodEntry \<Rightarrow> BuiltinMethodEntry" where
  "with_returns r e = e\<lparr>bme_returns := Some r\<rparr>"

definition with_closure_arg :: "string \<Rightarrow> BuiltinMethodEntry \<Rightarrow> BuiltinMethodEntry" where
  "with_closure_arg c e = e\<lparr>bme_closure_arg_type := Some c\<rparr>"

definition with_trait :: "BuiltinMethodEntry \<Rightarrow> BuiltinMethodEntry" where
  "with_trait e = e\<lparr>bme_is_trait := True\<rparr>"

record BuiltinRegistry =
  br_by_language :: "Language \<rightharpoonup> BuiltinEntry list"
  br_user_extensions :: "BuiltinEntry list"
  br_bridges :: "SubstrateBridge list"
  br_methods_by_language :: "Language \<rightharpoonup> BuiltinMethodEntry list"

definition registry_new :: BuiltinRegistry where
  "registry_new = \<lparr> br_by_language = Map.empty, br_user_extensions = [], br_bridges = [],
                    br_methods_by_language = Map.empty \<rparr>"

text \<open>\<^verbatim>\<open>map.entry(k).or_default().push(v)\<close>\<close>

definition entry_push :: "'k \<Rightarrow> 'v \<Rightarrow> ('k \<rightharpoonup> 'v list) \<Rightarrow> ('k \<rightharpoonup> 'v list)" where
  "entry_push k v m = m(k \<mapsto> (case m k of None \<Rightarrow> [] | Some vs \<Rightarrow> vs) @ [v])"

definition register :: "BuiltinEntry \<Rightarrow> BuiltinRegistry \<Rightarrow> BuiltinRegistry" where
  "register e r = r\<lparr>br_by_language := entry_push (be_language e) e (br_by_language r)\<rparr>"

definition register_user :: "BuiltinEntry \<Rightarrow> BuiltinRegistry \<Rightarrow> BuiltinRegistry" where
  "register_user e r = r\<lparr>br_user_extensions := br_user_extensions r @ [e]\<rparr>"

definition register_bridge :: "SubstrateBridge \<Rightarrow> BuiltinRegistry \<Rightarrow> BuiltinRegistry" where
  "register_bridge b r = r\<lparr>br_bridges := br_bridges r @ [b]\<rparr>"

definition register_method :: "BuiltinMethodEntry \<Rightarrow> BuiltinRegistry \<Rightarrow> BuiltinRegistry" where
  "register_method e r =
    r\<lparr>br_methods_by_language := entry_push (bme_language e) e (br_methods_by_language r)\<rparr>"

definition lookup_method ::
  "BuiltinRegistry \<Rightarrow> string \<Rightarrow> string \<Rightarrow> Language \<Rightarrow> BuiltinMethodEntry option" where
  "lookup_method r parent_type method language =
    (case br_methods_by_language r language of
       None \<Rightarrow> None
     | Some methods \<Rightarrow>
         find (\<lambda>m. bme_parent_type m = parent_type \<and> bme_method m = method) methods)"

definition lookup_builtin :: "BuiltinRegistry \<Rightarrow> string \<Rightarrow> Language \<Rightarrow> BuiltinEntry option" where
  "lookup_builtin r name language =
    (case (case br_by_language r language of
             None \<Rightarrow> None | Some entries \<Rightarrow> find (\<lambda>e. be_name e = name) entries) of
       Some e \<Rightarrow> Some e
     | None \<Rightarrow> find (\<lambda>e. be_language e = language \<and> be_name e = name) (br_user_extensions r))"

definition lookup_bridge ::
  "BuiltinRegistry \<Rightarrow> Substrate \<Rightarrow> Substrate \<Rightarrow> string \<Rightarrow> BridgeMapping option" where
  "lookup_bridge r from to source_name =
    find (\<lambda>m. bm_source_name m = source_name)
      (concat (map sb_mappings (filter (\<lambda>b. sb_from b = from \<and> sb_to b = to) (br_bridges r))))"

section \<open>Scope chains\<close>

definition wf_scopes :: "ScopeRange list \<Rightarrow> bool" where
  "wf_scopes scopes \<longleftrightarrow> (\<forall>i<length scopes. case sc_parent (scopes ! i) of
      None \<Rightarrow> True | Some p \<Rightarrow> unat p < i)"

lemma wf_scopes_parent: "wf_scopes scopes \<Longrightarrow> scope_parent scopes i = Some p \<Longrightarrow> unat p < unat i"
  by (fastforce simp: wf_scopes_def scope_parent_def split: if_splits option.splits)

lemma wf_scopes_push:
  "wf_scopes scopes \<Longrightarrow> (\<forall>p. sc_parent r = Some p \<longrightarrow> unat p < length scopes)
     \<Longrightarrow> wf_scopes (scopes @ [r])"
  by (auto simp: wf_scopes_def nth_append less_Suc_eq split: option.splits)

text \<open>The scopes enclosing \<^verbatim>\<open>i\<close>, innermost first.\<close>

function scope_chain :: "ScopeRange list \<Rightarrow> 32 word \<Rightarrow> 32 word list" where
  "scope_chain scopes i = i # (case scope_parent scopes i of
      None \<Rightarrow> [] | Some p \<Rightarrow> if unat p < unat i then scope_chain scopes p else [])"
  by pat_completeness auto
termination by (relation "measure (\<lambda>(_, i). unat i)") auto

declare scope_chain.simps [simp del]

definition scope_bindings :: "IdentResolution list \<Rightarrow> 32 word \<Rightarrow> IdentResolution list" where
  "scope_bindings entries i = filter (\<lambda>r. ir_scope_idx r = i) entries"

text \<open>What \<^verbatim>\<open>resolve_local\<close> promises: the last binding of the first scope of the chain that has one.\<close>

definition innermost_binding :: "ModuleLookup \<Rightarrow> string \<Rightarrow> 32 word \<Rightarrow> IdentResolution option" where
  "innermost_binding ml name i =
    (case ml_bindings ml name of None \<Rightarrow> None | Some entries \<Rightarrow>
      map_option (\<lambda>j. last (scope_bindings entries j))
        (find (\<lambda>j. scope_bindings entries j \<noteq> []) (scope_chain (ml_scopes ml) i)))"

lemma find_rev_last:
  "find P (rev xs) = (if filter P xs = [] then None else Some (last (filter P xs)))"
  by (induction xs rule: rev_induct) auto

lemma resolve_loop_innermost:
  assumes "wf_scopes scopes"
  shows "resolve_loop scopes entries i =
    Some (map_option (\<lambda>j. last (scope_bindings entries j))
      (find (\<lambda>j. scope_bindings entries j \<noteq> []) (scope_chain scopes i)))"
proof (induction "unat i" arbitrary: i rule: less_induct)
  case less
  show ?case
    using less wf_scopes_parent[OF assms]
    by (subst resolve_loop.simps, subst scope_chain.simps)
      (auto simp: find_rev_last scope_bindings_def split: option.splits)
qed

lemma push_scope_wf:
  "wf_scopes (ml_scopes ml) \<Longrightarrow> (\<forall>p. sc_parent r = Some p \<longrightarrow> unat p < length (ml_scopes ml))
    \<Longrightarrow> wf_scopes (ml_scopes (snd (push_scope r ml)))"
  by (simp add: push_scope_def wf_scopes_push)

lemma module_lookup_new_wf [simp]: "wf_scopes (ml_scopes (module_lookup_new now m l))"
  by (simp add: module_lookup_new_def wf_scopes_def)

lemma push_binding_scopes [simp]: "ml_scopes (push_binding r ml) = ml_scopes ml"
  by (simp add: push_binding_def)

section \<open>Properties\<close>

text \<open>
  C31. On a table whose scopes point to earlier scopes (what \<^verbatim>\<open>new\<close> and \<^verbatim>\<open>push_scope\<close> build),
  \<^verbatim>\<open>ModuleLookup::resolve_local\<close> returns, and it returns the latest binding of the innermost
  enclosing scope that binds the name, or \<^verbatim>\<open>None\<close> when no enclosing scope does.
\<close>

theorem resolve_local_innermost:
  assumes "wf_scopes (ml_scopes ml)"
  shows "resolve_local ml name i = Some (innermost_binding ml name i)"
  using resolve_loop_innermost[OF assms]
  by (simp add: resolve_local_def innermost_binding_def split: option.splits)

definition example_lookup :: ModuleLookup where
  "example_lookup =
    (let mk = (\<lambda>i f. \<lparr> ir_name = ''x'', ir_source = BindingSource.Param, ir_resolved_fqdn = Some f,
                      ir_aliases_to = None, ir_mutability = None, ir_scope_idx = i,
                      ir_attributes = [], ir_ir_kind = None \<rparr>);
         sc = \<lparr> sc_start_line = 2, sc_end_line = 9, sc_parent = Some 0, sc_kind = ScopeKind.Function \<rparr>
     in push_binding (mk 1 ''m::f::x'') (push_binding (mk 0 ''m::x'')
          (snd (push_scope sc (module_lookup_new 0 ''m'' Language.Rust)))))"

theorem resolve_local_innermost_witness:
  "map_option (map_option ir_resolved_fqdn) (resolve_local example_lookup ''x'' 1)
     = Some (Some (Some ''m::f::x''))"
proof -
  have "wf_scopes (ml_scopes example_lookup)"
    by (simp add: example_lookup_def Let_def push_scope_def wf_scopes_def module_lookup_new_def
        less_Suc_eq numeral_2_eq_2)
  from resolve_local_innermost[OF this, of "''x''" 1] show ?thesis
    by (simp add: innermost_binding_def example_lookup_def Let_def push_scope_def
        module_lookup_new_def push_binding_def scope_bindings_def scope_chain.simps[of _ 1])
qed

end
