(* ===== verification/IR_Types.thy ===== *)
theory IR_Types
  imports IR_Hash IR_Lookup
begin

text \<open>
  The structures a language provider hands to the pipeline
  (\<^verbatim>\<open>crates/standardoc-ir/src\<close>: \<^verbatim>\<open>location.rs\<close>, \<^verbatim>\<open>attribute.rs\<close>, \<^verbatim>\<open>signature.rs\<close>,
  \<^verbatim>\<open>symbol.rs\<close>, \<^verbatim>\<open>edge.rs\<close>, \<^verbatim>\<open>call_site.rs\<close>, \<^verbatim>\<open>document.rs\<close>, \<^verbatim>\<open>extracted.rs\<close>,
  \<^verbatim>\<open>cross_workspace.rs\<close>): one record per struct, field names prefixed per struct, line and
  column numbers as \<^typ>\<open>32 word\<close>, and the whitespace normalisation of type displays.
\<close>

section \<open>Locations and attributes\<close>

record Site =
  site_file :: string
  site_line :: "32 word"
  site_col :: "32 word"

record SymbolLocation =
  loc_file :: string
  loc_start_line :: "32 word"
  loc_end_line :: "32 word"
  loc_start_col :: "32 word"
  loc_end_col :: "32 word"

record RawAttributeArg =
  aa_key :: "string option"
  aa_value :: string
  aa_is_string_literal :: bool

record RawAttribute =
  at_name :: string
  at_args :: "RawAttributeArg list"
  at_site :: Site

section \<open>Signatures\<close>

datatype TypeRef = TypeRef (type_display: string)

record Param =
  pa_name :: string
  pa_ty :: TypeRef
  pa_default :: "string option"

record Modifiers =
  mo_is_async :: bool
  mo_deprecated :: "string option"
  mo_generic_params :: "string list"
  mo_where_clause :: "string option"

record SignatureMeta =
  sm_exposed_via :: "BridgeKind list"

record Signature =
  sg_params :: "Param list"
  sg_returns :: "TypeRef option"
  sg_modifiers :: Modifiers
  sg_meta :: SignatureMeta

text \<open>
  \<^verbatim>\<open>str::split_whitespace\<close> splits at the code points with the Unicode property White-Space;
  here are their UTF-8 encodings.
\<close>

definition WHITE_SPACE :: "string list" where
  "WHITE_SPACE =
    [[CHR 0x20], [CHR 0x09], [CHR 0x0A], [CHR 0x0B], [CHR 0x0C], [CHR 0x0D],
     [CHR 0xC2, CHR 0x85], [CHR 0xC2, CHR 0xA0], [CHR 0xE1, CHR 0x9A, CHR 0x80],
     [CHR 0xE2, CHR 0x80, CHR 0x80], [CHR 0xE2, CHR 0x80, CHR 0x81],
     [CHR 0xE2, CHR 0x80, CHR 0x82], [CHR 0xE2, CHR 0x80, CHR 0x83],
     [CHR 0xE2, CHR 0x80, CHR 0x84], [CHR 0xE2, CHR 0x80, CHR 0x85],
     [CHR 0xE2, CHR 0x80, CHR 0x86], [CHR 0xE2, CHR 0x80, CHR 0x87],
     [CHR 0xE2, CHR 0x80, CHR 0x88], [CHR 0xE2, CHR 0x80, CHR 0x89],
     [CHR 0xE2, CHR 0x80, CHR 0x8A], [CHR 0xE2, CHR 0x80, CHR 0xA8],
     [CHR 0xE2, CHR 0x80, CHR 0xA9], [CHR 0xE2, CHR 0x80, CHR 0xAF],
     [CHR 0xE2, CHR 0x81, CHR 0x9F], [CHR 0xE3, CHR 0x80, CHR 0x80]]"

definition ws_len :: "string \<Rightarrow> nat" where
  "ws_len s = (case find (\<lambda>p. prefix p s) WHITE_SPACE of None \<Rightarrow> 0 | Some p \<Rightarrow> length p)"

function split_ws_from :: "string \<Rightarrow> string \<Rightarrow> string list" where
  "split_ws_from cur [] = (if cur = [] then [] else [cur])"
| "split_ws_from cur (c # cs) =
    (if ws_len (c # cs) = 0 then split_ws_from (cur @ [c]) cs
     else (if cur = [] then [] else [cur]) @ split_ws_from [] (drop (ws_len (c # cs)) (c # cs)))"
  by pat_completeness auto
termination by (relation "measure (\<lambda>(_, s). length s)") auto

definition split_whitespace :: "string \<Rightarrow> string list" where
  "split_whitespace s = split_ws_from [] s"

fun join_str :: "string \<Rightarrow> string list \<Rightarrow> string" where
  "join_str sep [] = []"
| "join_str sep [x] = x"
| "join_str sep (x # xs) = x @ sep @ join_str sep xs"

definition normalize_display :: "string \<Rightarrow> string" where
  "normalize_display s = join_str '' '' (split_whitespace s)"

definition type_ref_new :: "string \<Rightarrow> TypeRef" where
  "type_ref_new display = TypeRef (normalize_display display)"

definition needs_space_between_rust_tokens :: "string \<Rightarrow> string \<Rightarrow> bool" where
  "needs_space_between_rust_tokens prev curtok =
    (if curtok \<in> {''>'', '')'', '']'', '','', '';'', '':''} then False
     else if curtok \<in> {''<'', ''('', ''[''} then False
     else if prev \<in> {''<'', ''('', ''['', ''&'', [CHR 0x27]} then False
     else if prev = ''::'' \<or> curtok = ''::'' then False
     else True)"

fun compact_tokens_from :: "string \<Rightarrow> string list \<Rightarrow> string" where
  "compact_tokens_from prev [] = []"
| "compact_tokens_from prev (tok # toks) =
    (if needs_space_between_rust_tokens prev tok then '' '' else []) @ tok @ compact_tokens_from tok toks"

definition compact_rust_tokens :: "string \<Rightarrow> string" where
  "compact_rust_tokens s =
    (case split_whitespace s of [] \<Rightarrow> [] | tok # toks \<Rightarrow> tok @ compact_tokens_from tok toks)"

definition modifiers_default :: Modifiers where
  "modifiers_default = \<lparr> mo_is_async = False, mo_deprecated = None, mo_generic_params = [],
                        mo_where_clause = None \<rparr>"

definition modifiers_is_default :: "Modifiers \<Rightarrow> bool" where
  "modifiers_is_default m \<longleftrightarrow> \<not> mo_is_async m \<and> mo_deprecated m = None
     \<and> mo_generic_params m = [] \<and> mo_where_clause m = None"

definition signature_meta_is_default :: "SignatureMeta \<Rightarrow> bool" where
  "signature_meta_is_default m \<longleftrightarrow> sm_exposed_via m = []"

definition signature_default :: Signature where
  "signature_default = \<lparr> sg_params = [], sg_returns = None, sg_modifiers = modifiers_default,
                        sg_meta = \<lparr> sm_exposed_via = [] \<rparr> \<rparr>"

section \<open>Symbols, edges, call sites, documents\<close>

record RawSymbol =
  rs_name :: string
  rs_fqdn :: string
  rs_kind :: Kind
  rs_language_kind :: string
  rs_decl_kind :: "DeclKind option"
  rs_implements_trait :: "string option"
  rs_receiver_type :: "TypeRef option"
  rs_entry_point :: "EntryPointKind option"
  rs_module :: "string option"
  rs_visibility :: Visibility
  rs_location :: SymbolLocation
  rs_signature :: "Signature option"
  rs_body_hash :: "Blake3Hash option"
  rs_attributes :: "RawAttribute list"
  rs_flags :: "string list"

datatype ResolvedOrUnresolved =
    Resolved string
  | Unresolved string
  | UnresolvedBridge BridgeKind string

fun default_confidence :: "ResolvedOrUnresolved \<Rightarrow> EdgeConfidence" where
  "default_confidence (ResolvedOrUnresolved.Resolved _) = EdgeConfidence.Extracted"
| "default_confidence (ResolvedOrUnresolved.UnresolvedBridge _ _) = EdgeConfidence.Inferred"
| "default_confidence (ResolvedOrUnresolved.Unresolved _) = EdgeConfidence.Ambiguous"

record RawEdge =
  re_from_fqdn :: string
  re_kind :: EdgeKind
  re_to :: ResolvedOrUnresolved
  re_sites :: "Site list"
  re_attributes :: "string list"
  re_confidence :: EdgeConfidence
  re_receiver_type :: "string option"

definition with_default_confidence ::
  "string \<Rightarrow> EdgeKind \<Rightarrow> ResolvedOrUnresolved \<Rightarrow> Site list \<Rightarrow> string list \<Rightarrow> RawEdge" where
  "with_default_confidence from_fqdn kind to sites attributes =
    \<lparr> re_from_fqdn = from_fqdn, re_kind = kind, re_to = to, re_sites = sites,
      re_attributes = attributes, re_confidence = default_confidence to,
      re_receiver_type = None \<rparr>"

record RawCallArg =
  ca_value :: string
  ca_is_string_literal :: bool

record RawCallSite =
  cs_from_fqdn :: string
  cs_callee_text :: string
  cs_args :: "RawCallArg list"
  cs_receiver_chain :: "string list"
  cs_site :: Site

record RawDocument =
  rd_symbol_fqdn :: string
  rd_description :: string

record ExtractedFile =
  ef_file :: string
  ef_language :: Language
  ef_source_origin :: SourceOrigin
  ef_is_external :: bool
  ef_content_hash :: Blake3Hash
  ef_byte_size :: "64 word"
  ef_symbols :: "RawSymbol list"
  ef_edges :: "RawEdge list"
  ef_call_sites :: "RawCallSite list"
  ef_documents :: "RawDocument list"
  ef_ffi_bindings :: "RawFfiBinding list"
  ef_module_lookup :: "ModuleLookup option"

datatype CrossWorkspaceLookup =
    Hit string string
  | KnownPeerMissingSymbol string
  | Unknown

definition BRIDGE_SLUG :: string where
  "BRIDGE_SLUG = ''custom:cross-workspace''"

fun is_hit :: "CrossWorkspaceLookup \<Rightarrow> bool" where
  "is_hit (Hit _ _) = True"
| "is_hit _ = False"

section \<open>Whitespace normalisation\<close>

text \<open>A token: non-empty, and no whitespace code point starts inside it.\<close>

definition is_token :: "string \<Rightarrow> bool" where
  "is_token t \<longleftrightarrow> t \<noteq> [] \<and> (\<forall>i<length t. ws_len (drop i t) = 0)"

lemma white_space_nonempty: "p \<in> set WHITE_SPACE \<Longrightarrow> p \<noteq> []"
  by (auto simp: WHITE_SPACE_def)

lemma white_space_no_inner_space: "p \<in> set WHITE_SPACE \<Longrightarrow> CHR 0x20 \<notin> set (tl p)"
  by (auto simp: WHITE_SPACE_def)

lemma ws_len_0: "ws_len s = 0 \<longleftrightarrow> (\<forall>p\<in>set WHITE_SPACE. \<not> prefix p s)"
  using white_space_nonempty
  by (auto simp: ws_len_def find_None_set split: option.splits dest: find_Some_set)

lemma ws_len_0_prefix: "ws_len (s @ t) = 0 \<Longrightarrow> ws_len s = 0"
  by (auto simp: ws_len_0)

lemma ws_len_0_space:
  assumes "ws_len s = 0" "s \<noteq> []"
  shows "ws_len (s @ CHR 0x20 # t) = 0"
  unfolding ws_len_0
proof (intro ballI notI)
  fix p assume p: "p \<in> set WHITE_SPACE" and pre: "prefix p (s @ CHR 0x20 # t)"
  have "\<not> prefix p s" using assms(1) p by (simp add: ws_len_0)
  then obtain q where "p = s @ CHR 0x20 # q"
    using pre assms(2) by (auto simp: prefix_append prefix_Cons)
  then have "CHR 0x20 \<in> set (tl p)" using assms(2) by (cases s) auto
  then show False using white_space_no_inner_space[OF p] by blast
qed

lemma ws_len_space: "ws_len (CHR 0x20 # s) = 1"
  by (simp add: ws_len_def WHITE_SPACE_def)

lemma split_ws_tokens:
  "(\<forall>i<length cur. ws_len (drop i (cur @ s)) = 0) \<Longrightarrow> t \<in> set (split_ws_from cur s) \<Longrightarrow> is_token t"
proof (induction cur s rule: split_ws_from.induct)
  case (1 cur)
  then show ?case by (auto simp: is_token_def split: if_splits)
next
  case (2 cur c cs)
  show ?case
  proof (cases "ws_len (c # cs) = 0")
    case True
    with 2 show ?thesis by (auto simp: less_Suc_eq)
  next
    case False
    have "is_token cur" if "cur \<noteq> []"
      using that 2(3) by (auto simp: is_token_def dest: ws_len_0_prefix)
    with False 2 show ?thesis by (auto split: if_splits)
  qed
qed

lemma split_ws_append_token:
  assumes "\<And>i. i < length t \<Longrightarrow> ws_len (drop i t @ s) = 0"
  shows "split_ws_from cur (t @ s) = split_ws_from (cur @ t) s"
  using assms
proof (induction t arbitrary: cur)
  case (Cons c t)
  have "ws_len (c # t @ s) = 0" using Cons.prems[of 0] by simp
  moreover have "split_ws_from (cur @ [c]) (t @ s) = split_ws_from ((cur @ [c]) @ t) s"
    using Cons.prems[of "Suc _"] by (intro Cons.IH) auto
  ultimately show ?case by simp
qed simp

lemma split_join_tokens:
  "list_all is_token ts \<Longrightarrow> split_ws_from [] (join_str '' '' ts) = ts"
proof (induction "'' ''" ts rule: join_str.induct)
  case (2 t)
  then show ?case using split_ws_append_token[of t "[]" "[]"] by (auto simp: is_token_def)
next
  case (3 t u ts)
  have "split_ws_from [] (t @ CHR 0x20 # join_str '' '' (u # ts))
      = split_ws_from t (CHR 0x20 # join_str '' '' (u # ts))"
    using 3(2) split_ws_append_token[of t _ "[]"] by (simp add: is_token_def ws_len_0_space)
  then show ?case using 3 by (auto simp: ws_len_space is_token_def)
qed simp

section \<open>Properties\<close>

text \<open>
  \<^verbatim>\<open>normalize_display\<close>, the pass inside \<^verbatim>\<open>TypeRef::new\<close>, is idempotent as its comment says,
  and it keeps exactly the whitespace-separated tokens of its input.
\<close>

theorem normalize_display_idem:
  "normalize_display (normalize_display s) = normalize_display s \<and>
   split_whitespace (normalize_display s) = split_whitespace s"
proof -
  have "list_all is_token (split_whitespace s)"
    using split_ws_tokens[of "[]"] by (auto simp: split_whitespace_def list_all_iff)
  from split_join_tokens[OF this] show ?thesis
    by (simp add: normalize_display_def split_whitespace_def)
qed

end
