(* ===== verification/Conv.thy ===== *)
theory Conv
  imports IR_Types
begin

text \<open>
  \<^verbatim>\<open>crates/standardoc-core/src/storage/error.rs\<close> and \<^verbatim>\<open>conv.rs\<close>: the storage errors and the
  conversions between the closed vocabularies and the text columns of the database.

  Error values keep the source's constructors; the human-readable \<^verbatim>\<open>detail\<close> strings are not
  modelled.  \<^verbatim>\<open>serde_json\<close> and \<^verbatim>\<open>bincode\<close> are the fields of the record \<^verbatim>\<open>codec\<close>, an
  argument of every definition that encodes or decodes a column; what a property needs of them
  (decoding inverts encoding on the value at hand) is a hypothesis of that property.
\<close>

section \<open>error.rs\<close>

datatype sqlite_error =
    ConstraintCheck | ConstraintUnique | ConstraintPrimaryKey | ConstraintForeignKey
  | SqliteFull | QueryReturnedNoRows | DatabaseBusy | DatabaseLocked | DatabaseCorrupt | IntegralOutOfRange

datatype StorageError =
    Sqlite sqlite_error
  | Pool
  | MigrationFailed "32 word" "32 word" sqlite_error
  | SchemaVersionTooNew "32 word" "32 word"
  | LockHeld string
  | ReadOnlyMissingDatabase string
  | Io
  | Json
  | CheckConstraintViolated
  | InvalidSchemaMetadata string string
  | InvalidStoredData
  | BridgeKindInvalid BridgeKindError
  | FtsCorrupted
  | FtsCountMismatch int int
  | RescanInProgress

definition map_constraint :: "sqlite_error \<Rightarrow> StorageError" where
  "map_constraint err = (if err = ConstraintCheck then CheckConstraintViolated else Sqlite err)"

section \<open>Third-party encoders\<close>

record codec =
  sig_to_json :: "Signature \<Rightarrow> string"
  sig_from_json :: "string \<Rightarrow> Signature option"
  strs_to_json :: "string list \<Rightarrow> string"
  strs_from_json :: "string \<Rightarrow> string list option"
  args_to_json :: "RawCallArg list \<Rightarrow> string"
  encode_lookup :: "ModuleLookup \<Rightarrow> (8 word list) option"
  decode_lookup :: "8 word list \<Rightarrow> ModuleLookup option"

text \<open>
  \<^verbatim>\<open>span_to_scope\<close> carries \<^verbatim>\<open>#[serde(skip)]\<close>: what decoding returns has the empty map there.
\<close>

definition persisted_lookup :: "ModuleLookup \<Rightarrow> ModuleLookup" where
  "persisted_lookup ml = ml\<lparr>ml_span_to_scope := Map.empty\<rparr>"

section \<open>conv.rs\<close>

fun first_invalid_bridge :: "BridgeKind list \<Rightarrow> StorageError + unit" where
  "first_invalid_bridge [] = Inr ()"
| "first_invalid_bridge (b # bs) =
    (case try_validate b of Inl e \<Rightarrow> Inl (BridgeKindInvalid e) | Inr _ \<Rightarrow> first_invalid_bridge bs)"

definition signature_to_json :: "codec \<Rightarrow> Signature \<Rightarrow> StorageError + string" where
  "signature_to_json K sg =
    (case first_invalid_bridge (sm_exposed_via (sg_meta sg)) of
       Inl e \<Rightarrow> Inl e
     | Inr _ \<Rightarrow> Inr (sig_to_json K sg))"

definition json_to_signature :: "codec \<Rightarrow> string \<Rightarrow> StorageError + Signature" where
  "json_to_signature K s = (case sig_from_json K s of None \<Rightarrow> Inl Json | Some sg \<Rightarrow> Inr sg)"

fun language_to_sql_text :: "Language \<Rightarrow> string" where
  "language_to_sql_text Language.Rust = ''rust''"
| "language_to_sql_text Language.TypeScript = ''typescript''"
| "language_to_sql_text Language.JavaScript = ''javascript''"
| "language_to_sql_text Language.Lua = ''lua''"
| "language_to_sql_text Language.Vue = ''vue''"
| "language_to_sql_text Language.Svelte = ''svelte''"
| "language_to_sql_text Language.C = ''c''"

definition language_from_sql_text :: "string \<Rightarrow> StorageError + Language" where
  "language_from_sql_text s =
    (if s = ''rust'' then Inr Language.Rust
     else if s = ''typescript'' then Inr Language.TypeScript
     else if s = ''javascript'' then Inr Language.JavaScript
     else if s = ''lua'' then Inr Language.Lua
     else if s = ''vue'' then Inr Language.Vue
     else if s = ''svelte'' then Inr Language.Svelte
     else if s = ''c'' then Inr Language.C
     else Inl InvalidStoredData)"

fun kind_to_sql_text :: "Kind \<Rightarrow> string" where
  "kind_to_sql_text Kind.Callable = ''callable''"
| "kind_to_sql_text Kind.Type = ''type''"
| "kind_to_sql_text Kind.Value = ''value''"
| "kind_to_sql_text Kind.Module = ''module''"
| "kind_to_sql_text Kind.Macro = ''macro''"

definition kind_from_sql_text :: "string \<Rightarrow> StorageError + Kind" where
  "kind_from_sql_text s =
    (if s = ''callable'' then Inr Kind.Callable
     else if s = ''type'' then Inr Kind.Type
     else if s = ''value'' then Inr Kind.Value
     else if s = ''module'' then Inr Kind.Module
     else if s = ''macro'' then Inr Kind.Macro
     else Inl InvalidStoredData)"

fun decl_kind_to_sql_text :: "DeclKind \<Rightarrow> string" where
  "decl_kind_to_sql_text DeclKind.Module = ''module''"
| "decl_kind_to_sql_text DeclKind.Namespace = ''namespace''"
| "decl_kind_to_sql_text DeclKind.Crate = ''crate''"
| "decl_kind_to_sql_text DeclKind.Struct = ''struct''"
| "decl_kind_to_sql_text DeclKind.Enum = ''enum''"
| "decl_kind_to_sql_text DeclKind.Union = ''union''"
| "decl_kind_to_sql_text DeclKind.Class = ''class''"
| "decl_kind_to_sql_text DeclKind.Interface = ''interface''"
| "decl_kind_to_sql_text DeclKind.TypeAlias = ''type_alias''"
| "decl_kind_to_sql_text DeclKind.Function = ''function''"
| "decl_kind_to_sql_text DeclKind.Method = ''method''"
| "decl_kind_to_sql_text DeclKind.Constructor = ''constructor''"
| "decl_kind_to_sql_text DeclKind.Getter = ''getter''"
| "decl_kind_to_sql_text DeclKind.Setter = ''setter''"
| "decl_kind_to_sql_text DeclKind.Const = ''const''"
| "decl_kind_to_sql_text DeclKind.Static = ''static''"
| "decl_kind_to_sql_text DeclKind.Var = ''var''"
| "decl_kind_to_sql_text DeclKind.Field = ''field''"
| "decl_kind_to_sql_text DeclKind.EnumVariant = ''enum_variant''"
| "decl_kind_to_sql_text DeclKind.DeclarativeMacro = ''declarative_macro''"
| "decl_kind_to_sql_text DeclKind.ProcMacro = ''proc_macro''"
| "decl_kind_to_sql_text DeclKind.Decorator = ''decorator''"
| "decl_kind_to_sql_text (DeclKind.Custom lang tag) =
     ''custom:'' @ language_to_sql_text lang @ '':'' @ tag"

definition decl_kind_from_sql_text :: "string \<Rightarrow> StorageError + DeclKind" where
  "decl_kind_from_sql_text s =
    (if s = ''module'' then Inr DeclKind.Module
     else if s = ''namespace'' then Inr DeclKind.Namespace
     else if s = ''crate'' then Inr DeclKind.Crate
     else if s = ''struct'' then Inr DeclKind.Struct
     else if s = ''enum'' then Inr DeclKind.Enum
     else if s = ''union'' then Inr DeclKind.Union
     else if s = ''class'' then Inr DeclKind.Class
     else if s = ''interface'' then Inr DeclKind.Interface
     else if s = ''type_alias'' then Inr DeclKind.TypeAlias
     else if s = ''function'' then Inr DeclKind.Function
     else if s = ''method'' then Inr DeclKind.Method
     else if s = ''constructor'' then Inr DeclKind.Constructor
     else if s = ''getter'' then Inr DeclKind.Getter
     else if s = ''setter'' then Inr DeclKind.Setter
     else if s = ''const'' then Inr DeclKind.Const
     else if s = ''static'' then Inr DeclKind.Static
     else if s = ''var'' then Inr DeclKind.Var
     else if s = ''field'' then Inr DeclKind.Field
     else if s = ''enum_variant'' then Inr DeclKind.EnumVariant
     else if s = ''declarative_macro'' then Inr DeclKind.DeclarativeMacro
     else if s = ''proc_macro'' then Inr DeclKind.ProcMacro
     else if s = ''decorator'' then Inr DeclKind.Decorator
     else (case strip_prefix ''custom:'' s of
             None \<Rightarrow> Inl InvalidStoredData
           | Some rest \<Rightarrow> (case split_once (CHR '':'') rest of
               None \<Rightarrow> Inl InvalidStoredData
             | Some (lang_s, tag) \<Rightarrow> (case language_from_sql_text lang_s of
                 Inl e \<Rightarrow> Inl e
               | Inr lang \<Rightarrow> Inr (DeclKind.Custom lang tag)))))"

fun entry_point_to_sql_text :: "EntryPointKind \<Rightarrow> string" where
  "entry_point_to_sql_text BinaryMain = ''binary_main''"
| "entry_point_to_sql_text PublicApi = ''public_api''"
| "entry_point_to_sql_text FfiExport = ''ffi_export''"

definition entry_point_from_sql_text :: "string \<Rightarrow> StorageError + EntryPointKind" where
  "entry_point_from_sql_text s =
    (if s = ''binary_main'' then Inr BinaryMain
     else if s = ''public_api'' then Inr PublicApi
     else if s = ''ffi_export'' then Inr FfiExport
     else Inl InvalidStoredData)"

fun visibility_to_sql_text :: "Visibility \<Rightarrow> string" where
  "visibility_to_sql_text Visibility.Public = ''public''"
| "visibility_to_sql_text Visibility.Private = ''private''"
| "visibility_to_sql_text Visibility.Crate = ''crate''"
| "visibility_to_sql_text Visibility.Protected = ''protected''"

definition visibility_from_sql_text :: "string \<Rightarrow> StorageError + Visibility" where
  "visibility_from_sql_text s =
    (if s = ''public'' then Inr Visibility.Public
     else if s = ''private'' then Inr Visibility.Private
     else if s = ''crate'' then Inr Visibility.Crate
     else if s = ''protected'' then Inr Visibility.Protected
     else Inl InvalidStoredData)"

fun source_origin_to_sql_text :: "SourceOrigin \<Rightarrow> string" where
  "source_origin_to_sql_text SourceOrigin.Workspace = ''workspace''"
| "source_origin_to_sql_text SourceOrigin.CargoRegistry = ''cargo_registry''"
| "source_origin_to_sql_text SourceOrigin.NodeModulesDts = ''node_modules_dts''"
| "source_origin_to_sql_text SourceOrigin.ManualExternal = ''manual_external''"

definition source_origin_from_sql_text :: "string \<Rightarrow> StorageError + SourceOrigin" where
  "source_origin_from_sql_text s =
    (if s = ''workspace'' then Inr SourceOrigin.Workspace
     else if s = ''cargo_registry'' then Inr SourceOrigin.CargoRegistry
     else if s = ''node_modules_dts'' then Inr SourceOrigin.NodeModulesDts
     else if s = ''manual_external'' then Inr SourceOrigin.ManualExternal
     else Inl InvalidStoredData)"

fun edge_kind_to_sql_text :: "EdgeKind \<Rightarrow> string" where
  "edge_kind_to_sql_text Calls = ''CALLS''"
| "edge_kind_to_sql_text Imports = ''IMPORTS''"
| "edge_kind_to_sql_text Extends = ''EXTENDS''"
| "edge_kind_to_sql_text Implements = ''IMPLEMENTS''"
| "edge_kind_to_sql_text References = ''REFERENCES''"
| "edge_kind_to_sql_text UsesType = ''USES_TYPE''"

definition edge_kind_from_sql_text :: "string \<Rightarrow> StorageError + EdgeKind" where
  "edge_kind_from_sql_text s =
    (if s = ''CALLS'' then Inr Calls
     else if s = ''IMPORTS'' then Inr Imports
     else if s = ''EXTENDS'' then Inr Extends
     else if s = ''IMPLEMENTS'' then Inr Implements
     else if s = ''REFERENCES'' then Inr References
     else if s = ''USES_TYPE'' then Inr UsesType
     else Inl InvalidStoredData)"

fun edge_confidence_to_sql_text :: "EdgeConfidence \<Rightarrow> string" where
  "edge_confidence_to_sql_text Extracted = ''extracted''"
| "edge_confidence_to_sql_text Inferred = ''inferred''"
| "edge_confidence_to_sql_text Ambiguous = ''ambiguous''"

definition edge_confidence_from_sql_text :: "string \<Rightarrow> StorageError + EdgeConfidence" where
  "edge_confidence_from_sql_text s =
    (if s = ''extracted'' then Inr Extracted
     else if s = ''inferred'' then Inr Inferred
     else if s = ''ambiguous'' then Inr Ambiguous
     else Inl InvalidStoredData)"

section \<open>Round trips\<close>

lemma language_text_roundtrip [simp]: "language_from_sql_text (language_to_sql_text l) = Inr l"
  by (cases l) (simp_all add: language_from_sql_text_def)

lemma kind_text_roundtrip [simp]: "kind_from_sql_text (kind_to_sql_text k) = Inr k"
  by (cases k) (simp_all add: kind_from_sql_text_def)

lemma entry_point_text_roundtrip [simp]:
  "entry_point_from_sql_text (entry_point_to_sql_text k) = Inr k"
  by (cases k) (simp_all add: entry_point_from_sql_text_def)

lemma visibility_text_roundtrip [simp]:
  "visibility_from_sql_text (visibility_to_sql_text k) = Inr k"
  by (cases k) (simp_all add: visibility_from_sql_text_def)

lemma source_origin_text_roundtrip [simp]:
  "source_origin_from_sql_text (source_origin_to_sql_text k) = Inr k"
  by (cases k) (simp_all add: source_origin_from_sql_text_def)

lemma edge_kind_text_roundtrip [simp]: "edge_kind_from_sql_text (edge_kind_to_sql_text k) = Inr k"
  by (cases k) (simp_all add: edge_kind_from_sql_text_def)

lemma edge_confidence_text_roundtrip [simp]:
  "edge_confidence_from_sql_text (edge_confidence_to_sql_text k) = Inr k"
  by (cases k) (simp_all add: edge_confidence_from_sql_text_def)

lemma language_text_no_colon: "CHR '':'' \<notin> set (language_to_sql_text l)"
  by (cases l) simp_all

lemma custom_decl_parse:
  "decl_kind_from_sql_text (''custom:'' @ rest) =
    (case split_once (CHR '':'') rest of
       None \<Rightarrow> Inl InvalidStoredData
     | Some (lang_s, tag) \<Rightarrow> (case language_from_sql_text lang_s of
         Inl e \<Rightarrow> Inl e | Inr lang \<Rightarrow> Inr (DeclKind.Custom lang tag)))"
  by (simp add: decl_kind_from_sql_text_def strip_prefix_def)

lemma decl_kind_text_roundtrip [simp]: "decl_kind_from_sql_text (decl_kind_to_sql_text d) = Inr d"
proof (cases d)
  case (Custom lang tag)
  then show ?thesis
    using custom_decl_parse[of "language_to_sql_text lang @ CHR '':'' # tag"]
    by (simp add: split_once_append[OF language_text_no_colon])
qed (simp_all add: decl_kind_from_sql_text_def)

lemma first_invalid_bridge_ok_iff:
  "first_invalid_bridge bs = Inr () \<longleftrightarrow> list_all is_valid_bridge bs"
  by (induction bs) (auto simp: try_validate_def)

section \<open>Properties\<close>

text \<open>
  Every declaration kind, the open \<^verbatim>\<open>Custom\<close> constructor with an arbitrary tag included,
  survives the flat text column: the reader returns the kind that was written, so two kinds
  never share a text.
\<close>

theorem decl_kind_column_roundtrip:
  "decl_kind_from_sql_text (decl_kind_to_sql_text d) = Inr d \<and>
   (decl_kind_to_sql_text d = decl_kind_to_sql_text e \<longleftrightarrow> d = e)"
  by (metis decl_kind_text_roundtrip sum.inject(2))

end
