(* ===== verification/Schema.thy ===== *)
theory Schema
  imports Keyed_Table Conv
begin

text \<open>
  The database schema (\<^verbatim>\<open>crates/standardoc-core/migrations/init_v0.sql\<close>) and the SQL
  statements the storage code is written in: one record per table row, the record \<^verbatim>\<open>db\<close> of
  all tables with their \<^verbatim>\<open>AUTOINCREMENT\<close> counters, and one definition per kind of statement
  with the constraints SQLite enforces on it (\<^verbatim>\<open>CHECK\<close>, \<^verbatim>\<open>UNIQUE\<close>, foreign keys with their
  \<^verbatim>\<open>ON DELETE\<close> actions, the FTS triggers).  A statement that violates a constraint leaves the
  database as it was.

  Tables are lists in storage order.  A column is the text or integer SQLite stores; a column
  with \<^verbatim>\<open>CHECK (\<dots> IN (0, 1))\<close> is a truth value, line and column numbers are \<^typ>\<open>32 word\<close>.
  Deleting a symbol sets \<^verbatim>\<open>to_symbol_id\<close> of its incoming edges to \<^verbatim>\<open>NULL\<close>; as those edges
  have no \<^verbatim>\<open>to_unresolved\<close>, the table's \<^verbatim>\<open>CHECK\<close> then rejects the statement.

  The invariant \<^verbatim>\<open>db_ok\<close> collects all constraints, that ids stay below their counters and
  that the full-text index mirrors the symbol table; each statement is shown to keep it.
\<close>

section \<open>Rows\<close>

record project_row =
  pj_id :: int
  pj_label :: string
  pj_kind :: string
  pj_root_path :: string
  pj_rel_path :: string

record file_row =
  f_path :: string
  f_content_hash :: string
  f_language :: string
  f_last_scanned :: int
  f_byte_size :: int
  f_last_scan_error :: "string option"
  f_is_external :: bool
  f_project_id :: "int option"

record sym_row =
  s_id :: int
  s_fqdn :: string
  s_name :: string
  s_kind :: string
  s_language_kind :: string
  s_language :: string
  s_module :: "string option"
  s_visibility :: string
  s_file_path :: string
  s_start_line :: "32 word"
  s_end_line :: "32 word"
  s_start_col :: "32 word"
  s_end_col :: "32 word"
  s_signature_json :: "string option"
  s_body_hash :: "string option"
  s_decl_kind :: "string option"
  s_implements_trait :: "string option"
  s_receiver_type :: "string option"
  s_entry_point :: "string option"
  s_is_external :: bool
  s_source_origin :: string
  s_last_modified_revision :: int
  s_flags :: string
  s_workspace_id :: string

record edge_row =
  e_id :: int
  e_from_symbol_id :: int
  e_kind :: string
  e_to_symbol_id :: "int option"
  e_to_unresolved :: "string option"
  e_attributes :: string
  e_confidence :: string
  e_receiver_type :: "string option"

record site_row =
  es_edge_id :: int
  es_file_path :: string
  es_line :: "32 word"
  es_col :: "32 word"

record DocumentInput =
  d_symbol_id :: int
  d_description :: "string option"
  d_examples_json :: "string option"
  d_tags_json :: "string option"
  d_params_json :: "string option"
  d_returns_json :: "string option"
  d_ai_summary :: "string option"
  d_last_updated :: int

record enrichment_row =
  en_symbol_id :: int
  en_description :: "string option"
  en_params_json :: "string option"
  en_returns_json :: "string option"
  en_modifiers_json :: "string option"
  en_confidence :: string
  en_sources_json :: string
  en_last_updated :: int

record call_row =
  c_id :: int
  c_from_fqdn :: string
  c_callee_text :: string
  c_args_json :: string
  c_receiver_chain_json :: string
  c_file_path :: string
  c_line :: "32 word"
  c_col :: "32 word"

record decl_row =
  dl_symbol_id :: int
  dl_location :: SymbolLocation

record ffi_row =
  fr_symbol_id :: int
  fr_abi :: string
  fr_direction :: string
  fr_abi_name :: string
  fr_convention :: "string option"

record catalog_row =
  wc_workspace_id :: string
  wc_root_path :: string
  wc_link_direction :: int
  wc_linked_at :: int
  wc_last_indexed_at :: "int option"
  wc_status :: string
  wc_indexing_mode :: string

record lookup_row =
  lk_module_fqdn :: string
  lk_workspace_id :: string
  lk_language :: string
  lk_built_at :: int
  lk_payload :: "8 word list"

record import_row =
  wi_workspace_id :: string
  wi_module_fqdn :: string
  wi_local_name :: string
  wi_origin_module :: string
  wi_origin_symbol :: "string option"
  wi_is_type_only :: bool
  wi_is_re_export :: bool

record db =
  t_schema_meta :: "string \<rightharpoonup> string"
  t_projects :: "project_row list"
  t_files :: "file_row list"
  t_symbols :: "sym_row list"
  t_edges :: "edge_row list"
  t_edge_sites :: "site_row list"
  t_documents :: "DocumentInput list"
  t_enrichments :: "enrichment_row list"
  t_call_sites :: "call_row list"
  t_decl_locations :: "decl_row list"
  t_ffi_bindings :: "ffi_row list"
  t_catalog :: "catalog_row list"
  t_module_lookups :: "lookup_row list"
  t_workspace_imports :: "import_row list"
  t_fts :: "(int \<times> string \<times> string) list"
  project_seq :: int
  sym_seq :: int
  edge_seq :: int
  call_seq :: int

type_synonym 'a stmt = "(db, sqlite_error, 'a) sx"
type_synonym 'a sql = "(db, StorageError, 'a) sx"

text \<open>\<^verbatim>\<open>?\<close> on a \<^verbatim>\<open>rusqlite::Result\<close> (\<^verbatim>\<open>From<rusqlite::Error>\<close>), and \<^verbatim>\<open>.map_err(map_constraint)?\<close>.\<close>

definition map_err :: "('e \<Rightarrow> 'f) \<Rightarrow> ('s, 'e, 'a) sx \<Rightarrow> ('s, 'f, 'a) sx" where
  "map_err h m = (\<lambda>s. case m s of (Inl e, s') \<Rightarrow> (Inl (h e), s') | (Inr x, s') \<Rightarrow> (Inr x, s'))"

abbreviation run :: "'a stmt \<Rightarrow> 'a sql" where
  "run \<equiv> map_err Sqlite"

abbreviation run_mapped :: "'a stmt \<Rightarrow> 'a sql" where
  "run_mapped \<equiv> map_err map_constraint"

section \<open>Constraints\<close>

definition I64_MAX :: int where
  "I64_MAX = 9223372036854775807"

definition sym_checks :: "sym_row \<Rightarrow> bool" where
  "sym_checks r \<longleftrightarrow>
     s_kind r \<in> {''callable'', ''type'', ''value'', ''module'', ''macro''} \<and>
     s_visibility r \<in> {''public'', ''private'', ''crate'', ''protected''} \<and>
     (case s_entry_point r of None \<Rightarrow> True
      | Some t \<Rightarrow> t \<in> {''binary_main'', ''public_api'', ''ffi_export''}) \<and>
     s_source_origin r \<in> {''workspace'', ''cargo_registry'', ''node_modules_dts'', ''manual_external''}"

definition edge_target_check :: "edge_row \<Rightarrow> bool" where
  "edge_target_check e \<longleftrightarrow>
     (e_to_symbol_id e \<noteq> None \<and> e_to_unresolved e = None) \<or>
     (e_to_symbol_id e = None \<and> e_to_unresolved e \<noteq> None)"

definition edge_checks :: "edge_row \<Rightarrow> bool" where
  "edge_checks e \<longleftrightarrow>
     e_kind e \<in> {''CALLS'', ''IMPORTS'', ''EXTENDS'', ''IMPLEMENTS'', ''REFERENCES'', ''USES_TYPE''} \<and>
     e_confidence e \<in> {''extracted'', ''inferred'', ''ambiguous''} \<and>
     edge_target_check e"

definition enrichment_checks :: "enrichment_row \<Rightarrow> bool" where
  "enrichment_checks r \<longleftrightarrow> en_confidence r \<in> {''low'', ''medium'', ''high''}"

definition ffi_checks :: "ffi_row \<Rightarrow> bool" where
  "ffi_checks r \<longleftrightarrow> fr_direction r \<in> {''export'', ''import''}"

definition catalog_checks :: "catalog_row \<Rightarrow> bool" where
  "catalog_checks r \<longleftrightarrow> wc_link_direction r \<in> {0, 1, 2} \<and>
     wc_status r \<in> {''active'', ''paused'', ''archived''} \<and>
     wc_indexing_mode r \<in> {''blob_import'', ''extract''}"

definition sym_key :: "sym_row \<Rightarrow> string \<times> string" where
  "sym_key r = (s_workspace_id r, s_fqdn r)"

definition site_key :: "site_row \<Rightarrow> int \<times> string \<times> 32 word \<times> 32 word" where
  "site_key r = (es_edge_id r, es_file_path r, es_line r, es_col r)"

definition ffi_key :: "ffi_row \<Rightarrow> int \<times> string \<times> string \<times> string" where
  "ffi_key r = (fr_symbol_id r, fr_abi r, fr_direction r, fr_abi_name r)"

definition lookup_key :: "lookup_row \<Rightarrow> string \<times> string" where
  "lookup_key r = (lk_workspace_id r, lk_module_fqdn r)"

definition import_key :: "import_row \<Rightarrow> string \<times> string \<times> string \<times> string" where
  "import_key r = (wi_workspace_id r, wi_module_fqdn r, wi_local_name r, wi_origin_module r)"

definition fts_doc :: "sym_row \<Rightarrow> int \<times> string \<times> string" where
  "fts_doc r = (s_id r, s_name r, s_fqdn r)"

abbreviation file_paths :: "db \<Rightarrow> string set" where
  "file_paths db \<equiv> f_path ` set (t_files db)"

abbreviation sym_ids :: "db \<Rightarrow> int set" where
  "sym_ids db \<equiv> s_id ` set (t_symbols db)"

abbreviation edge_ids :: "db \<Rightarrow> int set" where
  "edge_ids db \<equiv> e_id ` set (t_edges db)"

section \<open>The invariant\<close>

definition ok_ids :: "('r \<Rightarrow> int) \<Rightarrow> 'r list \<Rightarrow> int \<Rightarrow> bool" where
  "ok_ids key rows sq \<longleftrightarrow> distinct (map key rows) \<and> (\<forall>r\<in>set rows. key r \<le> sq)"

definition ok_satellite :: "('r \<Rightarrow> 'k) \<Rightarrow> ('r \<Rightarrow> int) \<Rightarrow> 'r list \<Rightarrow> int set \<Rightarrow> bool" where
  "ok_satellite key ref rows ids \<longleftrightarrow> distinct (map key rows) \<and> (\<forall>r\<in>set rows. ref r \<in> ids)"

definition ok_projects :: "project_row list \<Rightarrow> int \<Rightarrow> bool" where
  "ok_projects ps sq \<longleftrightarrow> ok_ids pj_id ps sq \<and> distinct (map pj_root_path ps)"

definition ok_files :: "file_row list \<Rightarrow> int set \<Rightarrow> bool" where
  "ok_files fs pids \<longleftrightarrow> distinct (map f_path fs) \<and>
     (\<forall>r\<in>set fs. case f_project_id r of None \<Rightarrow> True | Some p \<Rightarrow> p \<in> pids)"

definition ok_symbols :: "sym_row list \<Rightarrow> int \<Rightarrow> string set \<Rightarrow> bool" where
  "ok_symbols ss sq paths \<longleftrightarrow> ok_ids s_id ss sq \<and> distinct (map sym_key ss) \<and>
     (\<forall>r\<in>set ss. s_file_path r \<in> paths \<and> sym_checks r)"

definition ok_edges :: "edge_row list \<Rightarrow> int \<Rightarrow> int set \<Rightarrow> bool" where
  "ok_edges es sq ids \<longleftrightarrow> ok_ids e_id es sq \<and>
     (\<forall>e\<in>set es. e_from_symbol_id e \<in> ids \<and> edge_checks e \<and>
        (case e_to_symbol_id e of None \<Rightarrow> True | Some t \<Rightarrow> t \<in> ids))"

definition ok_calls :: "call_row list \<Rightarrow> int \<Rightarrow> string set \<Rightarrow> bool" where
  "ok_calls cs sq paths \<longleftrightarrow> ok_ids c_id cs sq \<and> (\<forall>r\<in>set cs. c_file_path r \<in> paths)"

definition ok_fts :: "(int \<times> string \<times> string) list \<Rightarrow> sym_row list \<Rightarrow> bool" where
  "ok_fts fts ss \<longleftrightarrow> distinct (map fst fts) \<and> set fts = fts_doc ` set ss"

definition ok_catalog :: "catalog_row list \<Rightarrow> bool" where
  "ok_catalog cs \<longleftrightarrow> distinct (map wc_workspace_id cs) \<and> (\<forall>r\<in>set cs. catalog_checks r)"

definition db_ok :: "db \<Rightarrow> bool" where
  "db_ok db \<longleftrightarrow>
     ok_projects (t_projects db) (project_seq db) \<and>
     ok_files (t_files db) (pj_id ` set (t_projects db)) \<and>
     ok_symbols (t_symbols db) (sym_seq db) (file_paths db) \<and>
     ok_edges (t_edges db) (edge_seq db) (sym_ids db) \<and>
     ok_satellite site_key es_edge_id (t_edge_sites db) (edge_ids db) \<and>
     ok_satellite d_symbol_id d_symbol_id (t_documents db) (sym_ids db) \<and>
     ok_satellite en_symbol_id en_symbol_id (t_enrichments db) (sym_ids db) \<and>
     (\<forall>r\<in>set (t_enrichments db). enrichment_checks r) \<and>
     ok_calls (t_call_sites db) (call_seq db) (file_paths db) \<and>
     ok_satellite dl_symbol_id dl_symbol_id (t_decl_locations db) (sym_ids db) \<and>
     ok_satellite ffi_key fr_symbol_id (t_ffi_bindings db) (sym_ids db) \<and>
     (\<forall>r\<in>set (t_ffi_bindings db). ffi_checks r) \<and>
     ok_catalog (t_catalog db) \<and>
     distinct (map lookup_key (t_module_lookups db)) \<and>
     distinct (map import_key (t_workspace_imports db)) \<and>
     ok_fts (t_fts db) (t_symbols db)"

text \<open>The state \<^verbatim>\<open>init_v0.sql\<close> creates.\<close>

definition init_meta :: "string \<rightharpoonup> string" where
  "init_meta =
    [''schema_version'' \<mapsto> ''6'', ''workspace_root'' \<mapsto> '''', ''created_at'' \<mapsto> '''',
     ''cold_start_progress'' \<mapsto> '''', ''watcher_debounce_ms'' \<mapsto> ''500'', ''revision'' \<mapsto> ''0'',
     ''external_cargo_lockfile_hash'' \<mapsto> '''', ''external_npm_lockfile_hash'' \<mapsto> '''',
     ''external_npm_lockfile_kind'' \<mapsto> '''', ''external_luarocks_hash'' \<mapsto> '''']"

definition init_db :: db where
  "init_db = \<lparr> t_schema_meta = init_meta, t_projects = [], t_files = [], t_symbols = [],
     t_edges = [], t_edge_sites = [], t_documents = [], t_enrichments = [], t_call_sites = [],
     t_decl_locations = [], t_ffi_bindings = [], t_catalog = [], t_module_lookups = [],
     t_workspace_imports = [], t_fts = [], project_seq = 0, sym_seq = 0, edge_seq = 0,
     call_seq = 0 \<rparr>"

section \<open>Statements\<close>

text \<open>\<^verbatim>\<open>AUTOINCREMENT\<close>: ids are never reused, and the table is full once the counter is exhausted.\<close>

definition merge_file :: "file_row \<Rightarrow> file_row \<Rightarrow> file_row" where
  "merge_file old new = new\<lparr>f_project_id := f_project_id old\<rparr>"

definition sql_upsert_file :: "file_row \<Rightarrow> unit stmt" where
  "sql_upsert_file r = smodify (\<lambda>db. db\<lparr>t_files := upsert_by f_path merge_file r (t_files db)\<rparr>)"

definition merge_symbol :: "sym_row \<Rightarrow> sym_row \<Rightarrow> sym_row" where
  "merge_symbol old new = new\<lparr>s_id := s_id old\<rparr>"

definition sql_upsert_symbol :: "sym_row \<Rightarrow> int stmt" where
  "sql_upsert_symbol r = (\<lambda>db.
     if \<not> sym_checks r then (Inl ConstraintCheck, db)
     else if I64_MAX \<le> sym_seq db then (Inl SqliteFull, db)
     else if s_file_path r \<notin> file_paths db then (Inl ConstraintForeignKey, db)
     else
       let new = r\<lparr>s_id := sym_seq db + 1\<rparr>;
           row = (case lookup_by sym_key (sym_key r) (t_symbols db) of
                    None \<Rightarrow> new | Some old \<Rightarrow> merge_symbol old new)
       in (Inr (s_id row),
           db\<lparr>t_symbols := upsert_by sym_key merge_symbol new (t_symbols db),
              t_fts := filter (\<lambda>d. fst d \<noteq> s_id row) (t_fts db) @ [fts_doc row],
              sym_seq := sym_seq db + 1\<rparr>))"

text \<open>An \<^verbatim>\<open>UPDATE\<close> of columns under no constraint, for the row with a given id.\<close>

definition update_symbol :: "int \<Rightarrow> (sym_row \<Rightarrow> sym_row) \<Rightarrow> db \<Rightarrow> db" where
  "update_symbol i g db =
    db\<lparr>t_symbols := map (\<lambda>r. if s_id r = i then g r else r) (t_symbols db)\<rparr>"

text \<open>The row of a symbol and everything \<^verbatim>\<open>ON DELETE CASCADE\<close> removes with it.\<close>

definition purge_symbol :: "int \<Rightarrow> db \<Rightarrow> db" where
  "purge_symbol i db =
    db\<lparr>t_symbols := filter (\<lambda>r. s_id r \<noteq> i) (t_symbols db),
       t_fts := filter (\<lambda>d. fst d \<noteq> i) (t_fts db),
       t_edges := filter (\<lambda>e. e_from_symbol_id e \<noteq> i) (t_edges db),
       t_edge_sites := filter (\<lambda>r. \<not> list_ex (\<lambda>e. e_id e = es_edge_id r \<and> e_from_symbol_id e = i) (t_edges db))
                         (t_edge_sites db),
       t_documents := filter (\<lambda>r. d_symbol_id r \<noteq> i) (t_documents db),
       t_enrichments := filter (\<lambda>r. en_symbol_id r \<noteq> i) (t_enrichments db),
       t_decl_locations := filter (\<lambda>r. dl_symbol_id r \<noteq> i) (t_decl_locations db),
       t_ffi_bindings := filter (\<lambda>r. fr_symbol_id r \<noteq> i) (t_ffi_bindings db)\<rparr>"

definition sql_delete_symbol :: "int \<Rightarrow> unit stmt" where
  "sql_delete_symbol i = (\<lambda>db.
     if i \<notin> sym_ids db then (Inr (), db)
     else if list_ex (\<lambda>e. e_to_symbol_id e = Some i) (t_edges db) then (Inl ConstraintCheck, db)
     else (Inr (), purge_symbol i db))"

text \<open>\<^verbatim>\<open>DELETE FROM symbols WHERE \<dots>\<close>: row by row, all or nothing; the number of rows deleted.\<close>

definition sql_delete_symbols_where :: "(sym_row \<Rightarrow> bool) \<Rightarrow> nat stmt" where
  "sql_delete_symbols_where P = transaction
     (sbind (squery (\<lambda>db. map s_id (filter P (t_symbols db)))) (\<lambda>ids.
      sthen (sfor ids sql_delete_symbol) (sreturn (length ids))))"

definition sql_delete_file :: "string \<Rightarrow> unit stmt" where
  "sql_delete_file path = transaction
     (sthen (sbind (sql_delete_symbols_where (\<lambda>r. s_file_path r = path)) (\<lambda>_. sreturn ()))
       (smodify (\<lambda>db.
          db\<lparr>t_files := delete_by f_path path (t_files db),
             t_call_sites := filter (\<lambda>r. c_file_path r \<noteq> path) (t_call_sites db)\<rparr>)))"

definition edge_fk :: "db \<Rightarrow> edge_row \<Rightarrow> bool" where
  "edge_fk db e \<longleftrightarrow> e_from_symbol_id e \<in> sym_ids db \<and>
     (case e_to_symbol_id e of None \<Rightarrow> True | Some t \<Rightarrow> t \<in> sym_ids db)"

definition sql_insert_edge :: "edge_row \<Rightarrow> int stmt" where
  "sql_insert_edge e = (\<lambda>db.
     if \<not> edge_checks e then (Inl ConstraintCheck, db)
     else if I64_MAX \<le> edge_seq db then (Inl SqliteFull, db)
     else if \<not> edge_fk db e then (Inl ConstraintForeignKey, db)
     else (Inr (edge_seq db + 1),
           db\<lparr>t_edges := t_edges db @ [e\<lparr>e_id := edge_seq db + 1\<rparr>],
              edge_seq := edge_seq db + 1\<rparr>))"

text \<open>
  \<^verbatim>\<open>UPDATE edges SET \<dots> WHERE \<dots>\<close>: \<^verbatim>\<open>upd\<close> is \<^const>\<open>None\<close> on the rows the \<^verbatim>\<open>WHERE\<close> clause
  leaves out; the result is the number of rows changed.
\<close>

definition sql_update_edges :: "(db \<Rightarrow> edge_row \<Rightarrow> edge_row option) \<Rightarrow> nat stmt" where
  "sql_update_edges upd = (\<lambda>db.
     let changed = List.map_filter (upd db) (t_edges db) in
     if \<not> list_all edge_checks changed then (Inl ConstraintCheck, db)
     else if \<not> list_all (edge_fk db) changed then (Inl ConstraintForeignKey, db)
     else (Inr (length changed),
           db\<lparr>t_edges := map (\<lambda>e. case upd db e of None \<Rightarrow> e | Some e' \<Rightarrow> e') (t_edges db)\<rparr>))"

definition delete_edges_where :: "(edge_row \<Rightarrow> bool) \<Rightarrow> db \<Rightarrow> db" where
  "delete_edges_where P db =
    db\<lparr>t_edges := filter (\<lambda>e. \<not> P e) (t_edges db),
       t_edge_sites := filter (\<lambda>r. \<not> list_ex (\<lambda>e. e_id e = es_edge_id r \<and> P e) (t_edges db))
                         (t_edge_sites db)\<rparr>"

definition sql_delete_edges_where :: "(edge_row \<Rightarrow> bool) \<Rightarrow> nat stmt" where
  "sql_delete_edges_where P = (\<lambda>db.
     (Inr (length (filter P (t_edges db))), delete_edges_where P db))"

text \<open>\<^verbatim>\<open>INSERT OR IGNORE INTO edge_sites\<close>: a duplicate key is skipped, a dangling edge is an error.\<close>

definition sql_insert_edge_site :: "site_row \<Rightarrow> unit stmt" where
  "sql_insert_edge_site r = (\<lambda>db.
     if list_ex (\<lambda>x. site_key x = site_key r) (t_edge_sites db) then (Inr (), db)
     else if es_edge_id r \<notin> edge_ids db then (Inl ConstraintForeignKey, db)
     else (Inr (), db\<lparr>t_edge_sites := t_edge_sites db @ [r]\<rparr>))"

definition take_new :: "'r \<Rightarrow> 'r \<Rightarrow> 'r" where
  "take_new old new = new"

definition sql_upsert_document :: "DocumentInput \<Rightarrow> unit stmt" where
  "sql_upsert_document d = (\<lambda>db.
     if d_symbol_id d \<notin> sym_ids db then (Inl ConstraintForeignKey, db)
     else (Inr (), db\<lparr>t_documents := upsert_by d_symbol_id take_new d (t_documents db)\<rparr>))"

definition sql_upsert_enrichment :: "enrichment_row \<Rightarrow> unit stmt" where
  "sql_upsert_enrichment r = (\<lambda>db.
     if \<not> enrichment_checks r then (Inl ConstraintCheck, db)
     else if en_symbol_id r \<notin> sym_ids db then (Inl ConstraintForeignKey, db)
     else (Inr (), db\<lparr>t_enrichments := upsert_by en_symbol_id take_new r (t_enrichments db)\<rparr>))"

definition sql_upsert_decl_location :: "decl_row \<Rightarrow> unit stmt" where
  "sql_upsert_decl_location r = (\<lambda>db.
     if dl_symbol_id r \<notin> sym_ids db then (Inl ConstraintForeignKey, db)
     else (Inr (), db\<lparr>t_decl_locations := upsert_by dl_symbol_id take_new r (t_decl_locations db)\<rparr>))"

definition sql_upsert_ffi :: "ffi_row \<Rightarrow> unit stmt" where
  "sql_upsert_ffi r = (\<lambda>db.
     if \<not> ffi_checks r then (Inl ConstraintCheck, db)
     else if fr_symbol_id r \<notin> sym_ids db then (Inl ConstraintForeignKey, db)
     else (Inr (), db\<lparr>t_ffi_bindings := upsert_by ffi_key take_new r (t_ffi_bindings db)\<rparr>))"

definition sql_insert_call_site :: "call_row \<Rightarrow> int stmt" where
  "sql_insert_call_site r = (\<lambda>db.
     if I64_MAX \<le> call_seq db then (Inl SqliteFull, db)
     else if c_file_path r \<notin> file_paths db then (Inl ConstraintForeignKey, db)
     else (Inr (call_seq db + 1),
           db\<lparr>t_call_sites := t_call_sites db @ [r\<lparr>c_id := call_seq db + 1\<rparr>],
              call_seq := call_seq db + 1\<rparr>))"

text \<open>\<^verbatim>\<open>INSERT OR REPLACE INTO module_lookups\<close>: the old row is deleted, the new one appended.\<close>

definition sql_replace_lookup :: "lookup_row \<Rightarrow> unit stmt" where
  "sql_replace_lookup r = smodify (\<lambda>db.
     db\<lparr>t_module_lookups := delete_by lookup_key (lookup_key r) (t_module_lookups db) @ [r]\<rparr>)"

definition sql_insert_import :: "import_row \<Rightarrow> unit stmt" where
  "sql_insert_import r = (\<lambda>db.
     if list_ex (\<lambda>x. import_key x = import_key r) (t_workspace_imports db)
     then (Inl ConstraintPrimaryKey, db)
     else (Inr (), db\<lparr>t_workspace_imports := t_workspace_imports db @ [r]\<rparr>))"

definition sql_delete_imports_where :: "(import_row \<Rightarrow> bool) \<Rightarrow> unit stmt" where
  "sql_delete_imports_where P = smodify (\<lambda>db.
     db\<lparr>t_workspace_imports := filter (\<lambda>r. \<not> P r) (t_workspace_imports db)\<rparr>)"

definition sql_delete_lookups_where :: "(lookup_row \<Rightarrow> bool) \<Rightarrow> unit stmt" where
  "sql_delete_lookups_where P = smodify (\<lambda>db.
     db\<lparr>t_module_lookups := filter (\<lambda>r. \<not> P r) (t_module_lookups db)\<rparr>)"

definition sql_insert_project :: "project_row \<Rightarrow> int stmt" where
  "sql_insert_project r = (\<lambda>db.
     if I64_MAX \<le> project_seq db then (Inl SqliteFull, db)
     else if list_ex (\<lambda>x. pj_root_path x = pj_root_path r) (t_projects db)
     then (Inl ConstraintUnique, db)
     else (Inr (project_seq db + 1),
           db\<lparr>t_projects := t_projects db @ [r\<lparr>pj_id := project_seq db + 1\<rparr>],
              project_seq := project_seq db + 1\<rparr>))"

definition sql_delete_project :: "int \<Rightarrow> unit stmt" where
  "sql_delete_project p = (\<lambda>db.
     if p \<in> pj_id ` set (t_projects db) \<and> list_ex (\<lambda>r. f_project_id r = Some p) (t_files db)
     then (Inl ConstraintForeignKey, db)
     else (Inr (), db\<lparr>t_projects := filter (\<lambda>r. pj_id r \<noteq> p) (t_projects db)\<rparr>))"

definition sql_insert_catalog :: "catalog_row \<Rightarrow> unit stmt" where
  "sql_insert_catalog r = (\<lambda>db.
     if \<not> catalog_checks r then (Inl ConstraintCheck, db)
     else if list_ex (\<lambda>x. wc_workspace_id x = wc_workspace_id r) (t_catalog db)
     then (Inl ConstraintPrimaryKey, db)
     else (Inr (), db\<lparr>t_catalog := t_catalog db @ [r]\<rparr>))"

definition set_meta :: "string \<Rightarrow> string \<Rightarrow> db \<Rightarrow> db" where
  "set_meta k v db = db\<lparr>t_schema_meta := (t_schema_meta db)(k \<mapsto> v)\<rparr>"

end
