(* ===== verification/Schema_Inv.thy ===== *)
theory Schema_Inv
  imports Schema
begin

text \<open>
  Every SQL statement keeps the database invariant.  The tables with an upsert are instances
  of the keyed-table interface; the remaining lemmas are one per statement, collected in
  \<^verbatim>\<open>keeps_intros\<close> so that a composite operation keeps the invariant by introduction rules
  alone.
\<close>

interpretation files_tab: keyed_table f_path merge_file
  by unfold_locales (simp add: merge_file_def)

interpretation symbols_tab: keyed_table sym_key merge_symbol
  by unfold_locales (simp add: merge_symbol_def sym_key_def)

interpretation documents_tab: keyed_table d_symbol_id take_new
  by unfold_locales (simp add: take_new_def)

interpretation enrichments_tab: keyed_table en_symbol_id take_new
  by unfold_locales (simp add: take_new_def)

interpretation decl_tab: keyed_table dl_symbol_id take_new
  by unfold_locales (simp add: take_new_def)

interpretation ffi_tab: keyed_table ffi_key take_new
  by unfold_locales (simp add: take_new_def)

section \<open>Monotonicity of the table invariants\<close>

lemma ok_satellite_mono: "ok_satellite key ref rows A \<Longrightarrow> A \<subseteq> B \<Longrightarrow> ok_satellite key ref rows B"
  by (auto simp: ok_satellite_def)

lemma ok_symbols_mono: "ok_symbols ss sq A \<Longrightarrow> A \<subseteq> B \<Longrightarrow> ok_symbols ss sq B"
  by (auto simp: ok_symbols_def)

lemma ok_edges_mono: "ok_edges es sq A \<Longrightarrow> A \<subseteq> B \<Longrightarrow> ok_edges es sq B"
  by (fastforce simp: ok_edges_def split: option.splits)

lemma ok_calls_mono: "ok_calls cs sq A \<Longrightarrow> A \<subseteq> B \<Longrightarrow> ok_calls cs sq B"
  by (auto simp: ok_calls_def)

lemma ok_files_mono: "ok_files fs A \<Longrightarrow> A \<subseteq> B \<Longrightarrow> ok_files fs B"
  by (fastforce simp: ok_files_def split: option.splits)

lemma ok_ids_filter: "ok_ids key rows sq \<Longrightarrow> ok_ids key (filter P rows) sq"
  by (auto simp: ok_ids_def distinct_map_filter)

lemma ok_edges_filter:
  "ok_edges es sq A \<Longrightarrow> (\<And>e. e \<in> set es \<Longrightarrow> P e \<Longrightarrow> e_from_symbol_id e \<in> A \<Longrightarrow> e_from_symbol_id e \<in> B)
    \<Longrightarrow> (\<And>e t. e \<in> set es \<Longrightarrow> P e \<Longrightarrow> e_to_symbol_id e = Some t \<Longrightarrow> t \<in> A \<Longrightarrow> t \<in> B)
    \<Longrightarrow> ok_edges (filter P es) sq B"
  unfolding ok_edges_def by (fastforce intro: ok_ids_filter split: option.splits)

lemma ok_satellite_filter:
  "ok_satellite key ref rows A \<Longrightarrow> (\<And>r. r \<in> set rows \<Longrightarrow> P r \<Longrightarrow> ref r \<in> A \<Longrightarrow> ref r \<in> B)
     \<Longrightarrow> ok_satellite key ref (filter P rows) B"
  by (auto simp: ok_satellite_def distinct_map_filter)

lemma ok_satellite_append:
  "ok_satellite key ref rows A \<Longrightarrow> key r \<notin> key ` set rows \<Longrightarrow> ref r \<in> A
     \<Longrightarrow> ok_satellite key ref (rows @ [r]) A"
  by (auto simp: ok_satellite_def)

lemma ok_ids_append: "ok_ids key rows sq \<Longrightarrow> key r = sq + 1 \<Longrightarrow> ok_ids key (rows @ [r]) (sq + 1)"
  by (fastforce simp: ok_ids_def)

lemmas ok_monos = ok_satellite_mono ok_symbols_mono ok_edges_mono ok_calls_mono ok_files_mono

lemma db_ok_subD:
  assumes "db_ok db"
  shows "ok_projects (t_projects db) (project_seq db)"
    "ok_files (t_files db) (pj_id ` set (t_projects db))"
    "ok_symbols (t_symbols db) (sym_seq db) (file_paths db)"
    "ok_edges (t_edges db) (edge_seq db) (sym_ids db)"
    "ok_satellite site_key es_edge_id (t_edge_sites db) (edge_ids db)"
    "ok_fts (t_fts db) (t_symbols db)"
  using assms by (simp_all add: db_ok_def)

lemma init_db_ok [simp]: "db_ok init_db"
  by (simp add: init_db_def db_ok_def ok_projects_def ok_ids_def ok_files_def ok_symbols_def
      ok_edges_def ok_satellite_def ok_calls_def ok_catalog_def ok_fts_def)

section \<open>Symbols\<close>

lemma sym_id_inj:
  "db_ok db \<Longrightarrow> r \<in> set (t_symbols db) \<Longrightarrow> q \<in> set (t_symbols db) \<Longrightarrow> s_id r = s_id q \<Longrightarrow> r = q"
  using distinct_map_inj_same[of s_id "t_symbols db" r q]
  by (auto simp: db_ok_def ok_symbols_def ok_ids_def)

lemma sym_key_inj:
  "db_ok db \<Longrightarrow> r \<in> set (t_symbols db) \<Longrightarrow> q \<in> set (t_symbols db) \<Longrightarrow> sym_key r = sym_key q \<Longrightarrow> r = q"
  using distinct_map_inj_same[of sym_key "t_symbols db" r q]
  by (auto simp: db_ok_def ok_symbols_def)

lemma sym_id_le_seq: "db_ok db \<Longrightarrow> r \<in> set (t_symbols db) \<Longrightarrow> s_id r \<le> sym_seq db"
  by (auto simp: db_ok_def ok_symbols_def ok_ids_def)

lemma edge_to_sym: "db_ok db \<Longrightarrow> e \<in> set (t_edges db) \<Longrightarrow> e_to_symbol_id e = Some t \<Longrightarrow> t \<in> sym_ids db"
  by (fastforce simp: db_ok_def ok_edges_def split: option.splits)

lemma edge_from_sym: "db_ok db \<Longrightarrow> e \<in> set (t_edges db) \<Longrightarrow> e_from_symbol_id e \<in> sym_ids db"
  by (auto simp: db_ok_def ok_edges_def)

lemma edge_xor: "db_ok db \<Longrightarrow> e \<in> set (t_edges db) \<Longrightarrow> edge_target_check e"
  by (auto simp: db_ok_def ok_edges_def edge_checks_def)

text \<open>The symbol table after an upsert: one row is added or one row is replaced in place.\<close>

lemma upsert_symbol_insert:
  assumes "lookup_by sym_key (sym_key new) rows = None"
  shows "upsert_by sym_key merge_symbol new rows = rows @ [new]"
  using assms by (intro upsert_by_fresh) (simp add: lookup_by_None)

lemma upsert_symbol_replace:
  assumes "db_ok db" "lookup_by sym_key (sym_key new) (t_symbols db) = Some old"
  shows "upsert_by sym_key merge_symbol new (t_symbols db)
    = map (\<lambda>r. if s_id r = s_id old then merge_symbol old new else r) (t_symbols db)"
proof -
  have old: "old \<in> set (t_symbols db)" "sym_key old = sym_key new"
    using lookup_by_Some[OF assms(2)] by auto
  have "sym_key r = sym_key new \<longleftrightarrow> r = old" "s_id r = s_id old \<longleftrightarrow> r = old"
    if "r \<in> set (t_symbols db)" for r
    using that old sym_key_inj[OF assms(1)] sym_id_inj[OF assms(1)] by metis+
  then show ?thesis using old by (auto simp: upsert_by_def list_ex_iff)
qed

lemma replace_ids:
  "s_id new = s_id old \<Longrightarrow> s_id ` set (map (\<lambda>r. if s_id r = s_id old then new else r) rows) = s_id ` set rows"
  unfolding set_map image_image by (rule image_cong) auto

lemma replace_set:
  "old \<in> set rows \<Longrightarrow> set (map (\<lambda>r. if s_id r = s_id old then new else r) rows)
     = insert new {r \<in> set rows. s_id r \<noteq> s_id old}"
  by auto

lemma ok_symbols_replace:
  assumes ok: "ok_symbols rows sq paths" and old: "old \<in> set rows"
    and new: "s_id new = s_id old" "sym_key new = sym_key old" "s_file_path new \<in> paths" "sym_checks new"
  shows "ok_symbols (map (\<lambda>r. if s_id r = s_id old then new else r) rows) sq paths"
proof -
  have ids: "map s_id (map (\<lambda>r. if s_id r = s_id old then new else r) rows) = map s_id rows"
    using new(1) by auto
  have keys: "map sym_key (map (\<lambda>r. if s_id r = s_id old then new else r) rows) = map sym_key rows"
    using ok old new(2) distinct_map_inj_same[of s_id rows _ old]
    by (auto simp: ok_symbols_def ok_ids_def)
  show ?thesis
    unfolding ok_symbols_def ok_ids_def ids keys replace_set[OF old]
    using ok old new by (auto simp: ok_symbols_def ok_ids_def)
qed

lemma ok_symbols_seq: "ok_symbols rows sq paths \<Longrightarrow> ok_symbols rows (sq + 1) paths"
  by (force simp: ok_symbols_def ok_ids_def)

lemma ok_fts_replace:
  assumes ok: "ok_fts fts rows" and old: "old \<in> set rows" "s_id new = s_id old"
  shows "ok_fts (filter (\<lambda>d. fst d \<noteq> s_id old) fts @ [fts_doc new])
           (map (\<lambda>r. if s_id r = s_id old then new else r) rows)"
  using ok old(2) unfolding ok_fts_def replace_set[OF old(1)]
  by (auto simp: fts_doc_def distinct_map_filter)

lemma ok_fts_fresh:
  assumes "ok_fts fts rows" "\<forall>r\<in>set rows. s_id r \<noteq> s_id new"
  shows "ok_fts (filter (\<lambda>d. fst d \<noteq> s_id new) fts @ [fts_doc new]) (rows @ [new])"
proof -
  have "filter (\<lambda>d. fst d \<noteq> s_id new) fts = fts"
    using assms by (auto simp: ok_fts_def fts_doc_def filter_id_conv)
  then show ?thesis using assms by (auto simp: ok_fts_def fts_doc_def)
qed

lemma keeps_upsert_symbol [keeps_intros]: "keeps db_ok (sql_upsert_symbol r)"
proof (rule keepsI)
  fix db assume ok: "db_ok db"
  define new where "new = r\<lparr>s_id := sym_seq db + 1\<rparr>"
  have key: "sym_key new = sym_key r" by (simp add: new_def sym_key_def)
  have syms: "ok_symbols (t_symbols db) (sym_seq db) (file_paths db)" and fts: "ok_fts (t_fts db) (t_symbols db)"
    using ok by (simp_all add: db_ok_def)
  have fresh: "\<forall>q\<in>set (t_symbols db). s_id q \<noteq> s_id new"
    using sym_id_le_seq[OF ok] by (fastforce simp: new_def)
  show "db_ok (snd (sql_upsert_symbol r db))"
  proof (cases "sym_checks r \<and> sym_seq db < I64_MAX \<and> s_file_path r \<in> file_paths db")
    case False
    then show ?thesis using ok by (auto simp: sql_upsert_symbol_def)
  next
    case True
    then have chk: "sym_checks new" "s_file_path new \<in> file_paths db"
      by (simp_all add: new_def sym_checks_def)
    show ?thesis
    proof (cases "lookup_by sym_key (sym_key r) (t_symbols db)")
      case None
      let ?ss = "t_symbols db @ [new]"
      have "sym_key r \<notin> sym_key ` set (t_symbols db)" using None by (simp add: lookup_by_None)
      then have "ok_symbols ?ss (sym_seq db + 1) (file_paths db)"
        using syms chk key ok_ids_append[of s_id "t_symbols db" "sym_seq db" new]
        by (auto simp: ok_symbols_def new_def)
      moreover have "sym_ids db \<subseteq> s_id ` set ?ss" by auto
      moreover have "sql_upsert_symbol r db = (Inr (s_id new), db\<lparr>t_symbols := ?ss,
          t_fts := filter (\<lambda>d. fst d \<noteq> s_id new) (t_fts db) @ [fts_doc new], sym_seq := sym_seq db + 1\<rparr>)"
        using True None key by (simp add: sql_upsert_symbol_def upsert_symbol_insert Let_def new_def[symmetric])
      ultimately show ?thesis
        using ok ok_fts_fresh[OF fts fresh] by (auto simp: db_ok_def intro: ok_monos)
    next
      case (Some old)
      let ?m = "merge_symbol old new"
      let ?ss = "map (\<lambda>r. if s_id r = s_id old then ?m else r) (t_symbols db)"
      have old: "old \<in> set (t_symbols db)" "sym_key old = sym_key r" using lookup_by_Some[OF Some] by auto
      have m: "s_id ?m = s_id old" "sym_key ?m = sym_key old" "s_file_path ?m \<in> file_paths db" "sym_checks ?m"
        using chk old(2) key by (simp_all add: merge_symbol_def sym_key_def sym_checks_def)
      have "ok_symbols ?ss (sym_seq db) (file_paths db)" using ok_symbols_replace[OF syms old(1) m] .
      then have "ok_symbols ?ss (sym_seq db + 1) (file_paths db)" by (rule ok_symbols_seq)
      moreover have "ok_fts (filter (\<lambda>d. fst d \<noteq> s_id old) (t_fts db) @ [fts_doc ?m]) ?ss"
        using ok_fts_replace[OF fts old(1) m(1)] .
      moreover have "s_id ` set ?ss = sym_ids db"
        by (rule replace_ids[OF m(1)])
      moreover have "sql_upsert_symbol r db = (Inr (s_id old), db\<lparr>t_symbols := ?ss,
          t_fts := filter (\<lambda>d. fst d \<noteq> s_id old) (t_fts db) @ [fts_doc ?m], sym_seq := sym_seq db + 1\<rparr>)"
        using True Some key upsert_symbol_replace[OF ok, of new old] m(1)
        by (simp add: sql_upsert_symbol_def Let_def new_def[symmetric])
      ultimately show ?thesis using ok by (simp add: db_ok_def)
    qed
  qed
qed

lemma update_symbol_ok:
  assumes "db_ok db" "\<And>r. s_id (g r) = s_id r" "\<And>r. sym_key (g r) = sym_key r" "\<And>r. s_name (g r) = s_name r"
    "\<And>r. s_file_path (g r) = s_file_path r" "\<And>r. sym_checks r \<Longrightarrow> sym_checks (g r)"
  shows "db_ok (update_symbol i g db)"
proof -
  let ?ss = "map (\<lambda>r. if s_id r = i then g r else r) (t_symbols db)"
  have ids: "map s_id ?ss = map s_id (t_symbols db)" and keys: "map sym_key ?ss = map sym_key (t_symbols db)"
    and docs: "map fts_doc ?ss = map fts_doc (t_symbols db)"
    using assms(2-4) by (auto simp: fts_doc_def sym_key_def)
  have idset: "s_id ` set ?ss = sym_ids db" and docset: "fts_doc ` set ?ss = fts_doc ` set (t_symbols db)"
    using arg_cong[OF ids, of set] arg_cong[OF docs, of set] by (simp_all only: set_map)
  have "ok_symbols ?ss (sym_seq db) (file_paths db)"
    using assms(1,2,5,6) unfolding db_ok_def ok_symbols_def ok_ids_def ids keys by auto
  then show ?thesis
    using assms(1) idset docset by (simp add: update_symbol_def db_ok_def ok_fts_def)
qed

lemma keeps_update_symbol [keeps_intros]:
  "(\<And>r. s_id (g r) = s_id r) \<Longrightarrow> (\<And>r. sym_key (g r) = sym_key r) \<Longrightarrow> (\<And>r. s_name (g r) = s_name r)
    \<Longrightarrow> (\<And>r. s_file_path (g r) = s_file_path r) \<Longrightarrow> (\<And>r. sym_checks r \<Longrightarrow> sym_checks (g r))
    \<Longrightarrow> keeps db_ok (smodify (update_symbol i g))"
  by (rule keepsI) (simp add: update_symbol_ok)

lemma purge_symbol_ok:
  assumes ok: "db_ok db" and no: "\<forall>e\<in>set (t_edges db). e_to_symbol_id e \<noteq> Some i"
  shows "db_ok (purge_symbol i db)"
proof -
  let ?ids = "s_id ` set (filter (\<lambda>r. s_id r \<noteq> i) (t_symbols db))"
  have ids: "x \<in> ?ids \<longleftrightarrow> x \<in> sym_ids db \<and> x \<noteq> i" for x by auto
  have "ok_symbols (filter (\<lambda>r. s_id r \<noteq> i) (t_symbols db)) (sym_seq db) (file_paths db)"
    using db_ok_subD(3)[OF ok] by (auto simp: ok_symbols_def distinct_map_filter intro: ok_ids_filter)
  moreover have "ok_edges (filter (\<lambda>e. e_from_symbol_id e \<noteq> i) (t_edges db)) (edge_seq db) ?ids"
    by (rule ok_edges_filter[OF db_ok_subD(4)[OF ok]]) (use no ids in auto)
  moreover have "ok_satellite site_key es_edge_id
      (filter (\<lambda>r. \<not> list_ex (\<lambda>e. e_id e = es_edge_id r \<and> e_from_symbol_id e = i) (t_edges db)) (t_edge_sites db))
      (e_id ` set (filter (\<lambda>e. e_from_symbol_id e \<noteq> i) (t_edges db)))"
    by (rule ok_satellite_filter[OF db_ok_subD(5)[OF ok]]) (auto simp: list_ex_iff)
  moreover have "ok_fts (filter (\<lambda>d. fst d \<noteq> i) (t_fts db)) (filter (\<lambda>r. s_id r \<noteq> i) (t_symbols db))"
    using db_ok_subD(6)[OF ok] by (auto simp: ok_fts_def fts_doc_def distinct_map_filter)
  ultimately show ?thesis
    using ok unfolding purge_symbol_def db_ok_def
    by (auto simp: ids intro!: ok_satellite_filter)
qed

lemma keeps_delete_symbol [keeps_intros]: "keeps db_ok (sql_delete_symbol i)"
  by (rule keepsI) (auto simp: sql_delete_symbol_def list_ex_iff intro: purge_symbol_ok)

lemma keeps_delete_symbols_where [keeps_intros]: "keeps db_ok (sql_delete_symbols_where P)"
  unfolding sql_delete_symbols_where_def by (intro keeps_intros)

text \<open>After the symbols of a file are gone, its row and its call sites can go.\<close>

lemma delete_symbol_gone:
  assumes "sql_delete_symbol i db = (Inr u, db')"
  shows "t_symbols db' = filter (\<lambda>r. s_id r \<noteq> i) (t_symbols db)"
    and "t_files db' = t_files db" and "t_call_sites db' = t_call_sites db"
proof -
  have "filter (\<lambda>r. s_id r \<noteq> i) (t_symbols db) = t_symbols db" if "i \<notin> sym_ids db"
    using that by (auto simp: filter_id_conv)
  then show "t_symbols db' = filter (\<lambda>r. s_id r \<noteq> i) (t_symbols db)"
    "t_files db' = t_files db" "t_call_sites db' = t_call_sites db"
    using assms by (auto simp: sql_delete_symbol_def purge_symbol_def split: if_splits)
qed

lemma sfor_delete_symbol_gone:
  assumes "sfor ids sql_delete_symbol db = (Inr u, db')"
  shows "t_symbols db' = filter (\<lambda>r. s_id r \<notin> set ids) (t_symbols db) \<and>
    t_files db' = t_files db \<and> t_call_sites db' = t_call_sites db"
  using assms
proof (induction ids arbitrary: db)
  case Nil
  then show ?case by (simp add: sx_apply)
next
  case (Cons i ids)
  then obtain v db1 where d: "sql_delete_symbol i db = (Inr v, db1)" "sfor ids sql_delete_symbol db1 = (Inr u, db')"
    by (auto elim!: sthen_InrE)
  show ?case using Cons.IH[OF d(2)] delete_symbol_gone[OF d(1)] by (simp add: conj_commute)
qed

lemma delete_symbols_where_gone:
  assumes "sql_delete_symbols_where P db = (Inr n, db')"
  shows "t_symbols db' = filter (\<lambda>r. s_id r \<notin> s_id ` set (filter P (t_symbols db))) (t_symbols db)"
    and "t_files db' = t_files db" and "t_call_sites db' = t_call_sites db"
proof -
  obtain u where "sfor (map s_id (filter P (t_symbols db))) sql_delete_symbol db = (Inr u, db')"
    using assms by (auto simp: sql_delete_symbols_where_def transaction_Inr sx_apply elim!: sthen_InrE)
  from sfor_delete_symbol_gone[OF this]
  show "t_symbols db' = filter (\<lambda>r. s_id r \<notin> s_id ` set (filter P (t_symbols db))) (t_symbols db)"
    "t_files db' = t_files db" "t_call_sites db' = t_call_sites db" by simp_all
qed

lemma delete_file_rows_ok:
  assumes ok: "db_ok db" and none: "\<forall>r\<in>set (t_symbols db). s_file_path r \<noteq> path"
  shows "db_ok (db\<lparr>t_files := delete_by f_path path (t_files db),
                   t_call_sites := filter (\<lambda>r. c_file_path r \<noteq> path) (t_call_sites db)\<rparr>)"
proof -
  have "ok_symbols (t_symbols db) (sym_seq db) (f_path ` set (delete_by f_path path (t_files db)))"
    using db_ok_subD(3)[OF ok] none unfolding ok_symbols_def by fastforce
  moreover have "ok_files (delete_by f_path path (t_files db)) (pj_id ` set (t_projects db))"
    using db_ok_subD(2)[OF ok] by (auto simp: ok_files_def distinct_delete_by)
  moreover have "ok_calls (filter (\<lambda>r. c_file_path r \<noteq> path) (t_call_sites db)) (call_seq db)
      (f_path ` set (delete_by f_path path (t_files db)))"
    using ok unfolding db_ok_def ok_calls_def by (auto intro: ok_ids_filter) 
  ultimately show ?thesis using ok by (simp add: db_ok_def)
qed

lemma keeps_delete_file [keeps_intros]: "keeps db_ok (sql_delete_file path)"
proof (rule keepsI)
  fix db assume ok: "db_ok db"
  show "db_ok (snd (sql_delete_file path db))"
  proof (cases "sql_delete_symbols_where (\<lambda>r. s_file_path r = path) db")
    case (Pair r db')
    show ?thesis
    proof (cases r)
      case Inl
      then show ?thesis using ok Pair by (simp add: sql_delete_file_def sx_defs)
    next
      case (Inr n)
      have ok': "db_ok db'" using keeps_result[OF keeps_delete_symbols_where ok Pair] .
      have "\<forall>r\<in>set (t_symbols db'). s_file_path r \<noteq> path"
        using delete_symbols_where_gone(1) Pair Inr by fastforce
      from delete_file_rows_ok[OF ok' this] show ?thesis
        using Pair Inr by (simp add: sql_delete_file_def sx_defs)
    qed
  qed
qed

section \<open>Files, edges and sites\<close>

lemma keeps_upsert_file [keeps_intros]:
  assumes "f_project_id r = None"
  shows "keeps db_ok (sql_upsert_file r)"
proof (rule keepsI)
  fix db assume ok: "db_ok db"
  let ?fs = "upsert_by f_path merge_file r (t_files db)"
  have sub: "file_paths db \<subseteq> f_path ` set ?fs" by (auto simp: files_tab.upsert_key_set)
  have "ok_files ?fs (pj_id ` set (t_projects db))"
    unfolding ok_files_def
  proof (intro conjI ballI)
    show "distinct (map f_path ?fs)"
      using db_ok_subD(2)[OF ok] by (intro files_tab.upsert_distinct) (simp add: ok_files_def)
    fix x assume "x \<in> set ?fs"
    with files_tab.upsert_set[OF this] db_ok_subD(2)[OF ok] assms
    show "case f_project_id x of None \<Rightarrow> True | Some p \<Rightarrow> p \<in> pj_id ` set (t_projects db)"
      by (auto simp: merge_file_def ok_files_def)
  qed
  then show "db_ok (snd (sql_upsert_file r db))"
    using ok sub by (auto simp: sql_upsert_file_def db_ok_def intro: ok_monos)
qed

lemma ok_edges_append:
  "ok_edges es sq ids \<Longrightarrow> edge_checks e \<Longrightarrow> e_from_symbol_id e \<in> ids
    \<Longrightarrow> (\<And>t. e_to_symbol_id e = Some t \<Longrightarrow> t \<in> ids) \<Longrightarrow> ok_edges (es @ [e\<lparr>e_id := sq + 1\<rparr>]) (sq + 1) ids"
  using ok_ids_append[of e_id es sq "e\<lparr>e_id := sq + 1\<rparr>"]
  by (auto simp: ok_edges_def edge_checks_def edge_target_check_def split: option.splits)

lemma keeps_insert_edge [keeps_intros]: "keeps db_ok (sql_insert_edge e)"
proof (rule keepsI)
  fix db assume ok: "db_ok db"
  have "edge_ids db \<subseteq> e_id ` set (t_edges db @ [e\<lparr>e_id := edge_seq db + 1\<rparr>])" by auto
  then show "db_ok (snd (sql_insert_edge e db))"
    using ok ok_edges_append[OF db_ok_subD(4)[OF ok], of e]
    by (auto simp: sql_insert_edge_def db_ok_def edge_fk_def intro: ok_satellite_mono split: option.splits)
qed

text \<open>What an \<^verbatim>\<open>UPDATE edges\<close> may not touch: the id.\<close>

definition keeps_edge_id :: "(db \<Rightarrow> edge_row \<Rightarrow> edge_row option) \<Rightarrow> bool" where
  "keeps_edge_id upd \<longleftrightarrow> (\<forall>db e e'. upd db e = Some e' \<longrightarrow> e_id e' = e_id e)"

lemma keeps_edge_idI [intro]: "(\<And>db e e'. upd db e = Some e' \<Longrightarrow> e_id e' = e_id e) \<Longrightarrow> keeps_edge_id upd"
  by (simp add: keeps_edge_id_def)

lemma keeps_update_edges [keeps_intros]:
  assumes "keeps_edge_id upd"
  shows "keeps db_ok (sql_update_edges upd)"
proof (rule keepsI)
  fix db assume ok: "db_ok db"
  let ?f = "\<lambda>e. case upd db e of None \<Rightarrow> e | Some e' \<Rightarrow> e'"
  let ?ch = "List.map_filter (upd db) (t_edges db)"
  have ids: "map e_id (map ?f (t_edges db)) = map e_id (t_edges db)"
    using assms by (auto simp: keeps_edge_id_def split: option.splits)
  have idset: "e_id ` set (map ?f (t_edges db)) = edge_ids db"
    using arg_cong[OF ids, of set] by (simp only: set_map)
  have "ok_edges (map ?f (t_edges db)) (edge_seq db) (sym_ids db)"
    if chk: "list_all edge_checks ?ch" and fk: "list_all (edge_fk db) ?ch"
  proof -
    have "edge_checks (?f e) \<and> edge_fk db (?f e)" if e: "e \<in> set (t_edges db)" for e
    proof (cases "upd db e")
      case None
      then show ?thesis using db_ok_subD(4)[OF ok] e by (auto simp: ok_edges_def edge_fk_def)
    next
      case (Some e')
      then have "e' \<in> set ?ch" using e by (force simp: List.map_filter_def)
      then show ?thesis using chk fk Some by (auto simp: list_all_iff)
    qed
    moreover have "ok_ids e_id (map ?f (t_edges db)) (edge_seq db)"
    proof -
      have "\<forall>x\<in>e_id ` set (map ?f (t_edges db)). x \<le> edge_seq db"
        unfolding idset using db_ok_subD(4)[OF ok] by (auto simp: ok_edges_def ok_ids_def)
      then show ?thesis
        using db_ok_subD(4)[OF ok] unfolding ok_edges_def ok_ids_def ids by auto
    qed
    ultimately show ?thesis by (auto simp: ok_edges_def edge_fk_def)
  qed
  then show "db_ok (snd (sql_update_edges upd db))"
    using ok idset by (simp add: sql_update_edges_def db_ok_def Let_def)
qed

lemma delete_edges_where_ok:
  assumes ok: "db_ok db"
  shows "db_ok (delete_edges_where P db)"
proof -
  have "ok_edges (filter (\<lambda>e. \<not> P e) (t_edges db)) (edge_seq db) (sym_ids db)"
    by (rule ok_edges_filter[OF db_ok_subD(4)[OF ok]]) auto
  moreover have "ok_satellite site_key es_edge_id
      (filter (\<lambda>r. \<not> list_ex (\<lambda>e. e_id e = es_edge_id r \<and> P e) (t_edges db)) (t_edge_sites db))
      (e_id ` set (filter (\<lambda>e. \<not> P e) (t_edges db)))"
    by (rule ok_satellite_filter[OF db_ok_subD(5)[OF ok]]) (auto simp: list_ex_iff)
  ultimately show ?thesis using ok by (simp add: delete_edges_where_def db_ok_def)
qed

lemma keeps_delete_edges_where [keeps_intros]: "keeps db_ok (sql_delete_edges_where P)"
  by (rule keepsI) (simp add: sql_delete_edges_where_def delete_edges_where_ok)

lemma keeps_insert_edge_site [keeps_intros]: "keeps db_ok (sql_insert_edge_site r)"
  by (rule keepsI)
    (auto simp: sql_insert_edge_site_def db_ok_def list_ex_iff image_iff eq_commute
      intro!: ok_satellite_append)

lemma keeps_modify_sites [keeps_intros]:
  "keeps db_ok (smodify (\<lambda>db. db\<lparr>t_edge_sites := filter P (t_edge_sites db)\<rparr>))"
  by (rule keepsI) (auto simp: db_ok_def intro: ok_satellite_filter)

section \<open>Satellites, lookups, projects, catalog\<close>

lemma keeps_upsert_document [keeps_intros]: "keeps db_ok (sql_upsert_document d)"
  by (rule keepsI)
    (auto simp: sql_upsert_document_def db_ok_def ok_satellite_def take_new_def
      dest: documents_tab.upsert_set intro: documents_tab.upsert_distinct)

lemma keeps_upsert_enrichment [keeps_intros]: "keeps db_ok (sql_upsert_enrichment d)"
  by (rule keepsI)
    (auto simp: sql_upsert_enrichment_def db_ok_def ok_satellite_def take_new_def
      dest: enrichments_tab.upsert_set intro: enrichments_tab.upsert_distinct)

lemma keeps_upsert_decl_location [keeps_intros]: "keeps db_ok (sql_upsert_decl_location d)"
  by (rule keepsI)
    (auto simp: sql_upsert_decl_location_def db_ok_def ok_satellite_def take_new_def
      dest: decl_tab.upsert_set intro: decl_tab.upsert_distinct)

lemma keeps_upsert_ffi [keeps_intros]: "keeps db_ok (sql_upsert_ffi d)"
  by (rule keepsI)
    (auto simp: sql_upsert_ffi_def db_ok_def ok_satellite_def take_new_def
      dest: ffi_tab.upsert_set intro: ffi_tab.upsert_distinct)

lemma keeps_modify_documents [keeps_intros]:
  "keeps db_ok (smodify (\<lambda>db. db\<lparr>t_documents := filter P (t_documents db)\<rparr>))"
  by (rule keepsI) (auto simp: db_ok_def intro: ok_satellite_filter)

lemma keeps_modify_decl [keeps_intros]:
  "keeps db_ok (smodify (\<lambda>db. db\<lparr>t_decl_locations := filter P (t_decl_locations db)\<rparr>))"
  by (rule keepsI) (auto simp: db_ok_def intro: ok_satellite_filter)

lemma keeps_modify_ffi [keeps_intros]:
  "keeps db_ok (smodify (\<lambda>db. db\<lparr>t_ffi_bindings := filter P (t_ffi_bindings db)\<rparr>))"
  by (rule keepsI) (auto simp: db_ok_def intro: ok_satellite_filter)

lemma keeps_modify_calls [keeps_intros]:
  "keeps db_ok (smodify (\<lambda>db. db\<lparr>t_call_sites := filter P (t_call_sites db)\<rparr>))"
  by (rule keepsI) (auto simp: db_ok_def ok_calls_def intro: ok_ids_filter)

lemma keeps_insert_call_site [keeps_intros]: "keeps db_ok (sql_insert_call_site r)"
proof (rule keepsI)
  fix db assume "db_ok db"
  then show "db_ok (snd (sql_insert_call_site r db))"
    using ok_ids_append[of c_id "t_call_sites db" "call_seq db" "r\<lparr>c_id := call_seq db + 1\<rparr>"]
    by (auto simp: sql_insert_call_site_def db_ok_def ok_calls_def)
qed

lemma keeps_replace_lookup [keeps_intros]: "keeps db_ok (sql_replace_lookup r)"
  by (rule keepsI) (auto simp: sql_replace_lookup_def db_ok_def distinct_delete_by)

lemma keeps_insert_import [keeps_intros]: "keeps db_ok (sql_insert_import r)"
  by (rule keepsI) (auto simp: sql_insert_import_def db_ok_def list_ex_iff image_iff eq_commute)

lemma keeps_delete_imports_where [keeps_intros]: "keeps db_ok (sql_delete_imports_where P)"
  by (rule keepsI) (auto simp: sql_delete_imports_where_def db_ok_def distinct_map_filter)

lemma keeps_delete_lookups_where [keeps_intros]: "keeps db_ok (sql_delete_lookups_where P)"
  by (rule keepsI) (auto simp: sql_delete_lookups_where_def db_ok_def distinct_map_filter)

lemma keeps_insert_project [keeps_intros]: "keeps db_ok (sql_insert_project r)"
proof (rule keepsI)
  fix db assume ok: "db_ok db"
  let ?r = "r\<lparr>pj_id := project_seq db + 1\<rparr>"
  have "pj_id ` set (t_projects db) \<subseteq> pj_id ` set (t_projects db @ [?r])" by auto
  then show "db_ok (snd (sql_insert_project r db))"
    using ok ok_ids_append[of pj_id "t_projects db" "project_seq db" ?r]
    by (auto simp: sql_insert_project_def db_ok_def ok_projects_def list_ex_iff image_iff eq_commute
        intro: ok_files_mono)
qed

lemma keeps_delete_project [keeps_intros]: "keeps db_ok (sql_delete_project p)"
proof (rule keepsI)
  fix db assume ok: "db_ok db"
  let ?ps = "filter (\<lambda>r. pj_id r \<noteq> p) (t_projects db)"
  have "ok_projects ?ps (project_seq db)"
    using ok by (auto simp: db_ok_def ok_projects_def distinct_map_filter intro: ok_ids_filter)
  moreover have "ok_files (t_files db) (pj_id ` set ?ps)"
    if "\<not> (p \<in> pj_id ` set (t_projects db) \<and> list_ex (\<lambda>r. f_project_id r = Some p) (t_files db))"
    using db_ok_subD(2)[OF ok] that by (fastforce simp: ok_files_def list_ex_iff split: option.splits)
  ultimately show "db_ok (snd (sql_delete_project p db))"
    using ok by (auto simp: sql_delete_project_def db_ok_def)
qed

lemma keeps_insert_catalog [keeps_intros]: "keeps db_ok (sql_insert_catalog r)"
  by (rule keepsI)
    (auto simp: sql_insert_catalog_def db_ok_def ok_catalog_def list_ex_iff image_iff eq_commute)

lemma keeps_set_meta [keeps_intros]: "keeps db_ok (smodify (set_meta k v))"
  by (rule keepsI) (auto simp: set_meta_def db_ok_def)

lemma keeps_map_err [keeps_intros]: "keeps I m \<Longrightarrow> keeps I (map_err h m)"
  unfolding keeps_def map_err_def by (fastforce split: prod.splits sum.splits)

lemma map_err_Inr [simp]: "map_err h m s = (Inr x, t) \<longleftrightarrow> m s = (Inr x, t)"
  by (auto simp: map_err_def split: prod.splits sum.splits)

lemma map_err_Inl: "map_err h m s = (Inl e, t) \<longleftrightarrow> (\<exists>d. m s = (Inl d, t) \<and> e = h d)"
  by (auto simp: map_err_def split: prod.splits sum.splits)

end
