(* ===== verification/Storage.thy ===== *)
theory Storage
  imports Schema_Inv
begin

text \<open>
  The row-level storage operations of \<^verbatim>\<open>crates/standardoc-core/src/storage\<close>: \<^verbatim>\<open>symbols.rs\<close>,
  \<^verbatim>\<open>edges.rs\<close>, \<^verbatim>\<open>edge_sites.rs\<close>, \<^verbatim>\<open>documents.rs\<close>, \<^verbatim>\<open>files.rs\<close>, \<^verbatim>\<open>call_sites.rs\<close>,
  \<^verbatim>\<open>symbol_ffi_binding.rs\<close>, \<^verbatim>\<open>symbol_decl_location.rs\<close> and \<^verbatim>\<open>module_lookup.rs\<close>.  Each function
  that takes a \<^verbatim>\<open>&Connection\<close> is a value of type \<^verbatim>\<open>'a sql\<close>.  The lemmas show that each
  keeps the database invariant and what each one does to the rows it touches.
\<close>

section \<open>symbols.rs\<close>

record SymbolInsertContext =
  ctx_file_path :: string
  ctx_language :: Language
  ctx_is_external :: bool
  ctx_source_origin :: SourceOrigin
  ctx_revision :: "64 word"
  ctx_workspace_id :: string

text \<open>\<^verbatim>\<open>i64::try_from(x).unwrap_or(i64::MAX)\<close>\<close>

definition i64_saturate :: "64 word \<Rightarrow> int" where
  "i64_saturate w = (if uint w \<le> I64_MAX then uint w else I64_MAX)"

definition symbol_row :: "codec \<Rightarrow> RawSymbol \<Rightarrow> SymbolInsertContext \<Rightarrow> string option \<Rightarrow> sym_row" where
  "symbol_row K symbol ctx signature_json =
    \<lparr> s_id = 0,
      s_fqdn = rs_fqdn symbol,
      s_name = rs_name symbol,
      s_kind = kind_to_sql_text (rs_kind symbol),
      s_language_kind = rs_language_kind symbol,
      s_language = language_to_sql_text (ctx_language ctx),
      s_module = rs_module symbol,
      s_visibility = visibility_to_sql_text (rs_visibility symbol),
      s_file_path = ctx_file_path ctx,
      s_start_line = loc_start_line (rs_location symbol),
      s_end_line = loc_end_line (rs_location symbol),
      s_start_col = loc_start_col (rs_location symbol),
      s_end_col = loc_end_col (rs_location symbol),
      s_signature_json = signature_json,
      s_body_hash = map_option to_hex (rs_body_hash symbol),
      s_decl_kind = map_option decl_kind_to_sql_text (rs_decl_kind symbol),
      s_implements_trait = rs_implements_trait symbol,
      s_receiver_type = map_option type_display (rs_receiver_type symbol),
      s_entry_point = map_option entry_point_to_sql_text (rs_entry_point symbol),
      s_is_external = ctx_is_external ctx,
      s_source_origin = source_origin_to_sql_text (ctx_source_origin ctx),
      s_last_modified_revision = i64_saturate (ctx_revision ctx),
      s_flags = strs_to_json K (rs_flags symbol),
      s_workspace_id = ctx_workspace_id ctx \<rparr>"

definition opt_signature_json :: "codec \<Rightarrow> Signature option \<Rightarrow> StorageError + string option" where
  "opt_signature_json K sg =
    (case sg of
       None \<Rightarrow> Inr None
     | Some x \<Rightarrow> (case signature_to_json K x of Inl e \<Rightarrow> Inl e | Inr j \<Rightarrow> Inr (Some j)))"

definition insert_symbol :: "codec \<Rightarrow> RawSymbol \<Rightarrow> SymbolInsertContext \<Rightarrow> int sql" where
  "insert_symbol K symbol ctx =
    sbind (slift (opt_signature_json K (rs_signature symbol))) (\<lambda>signature_json.
    run_mapped (sql_upsert_symbol (symbol_row K symbol ctx signature_json)))"

definition set_positions :: "SymbolLocation \<Rightarrow> 64 word \<Rightarrow> sym_row \<Rightarrow> sym_row" where
  "set_positions location revision r =
    r\<lparr>s_start_line := loc_start_line location, s_end_line := loc_end_line location,
      s_start_col := loc_start_col location, s_end_col := loc_end_col location,
      s_last_modified_revision := i64_saturate revision\<rparr>"

definition update_symbol_positions :: "int \<Rightarrow> SymbolLocation \<Rightarrow> 64 word \<Rightarrow> unit sql" where
  "update_symbol_positions i location revision =
    run (smodify (update_symbol i (set_positions location revision)))"

text \<open>The \<^verbatim>\<open>UPDATE\<close> of the reverse-promote step; the scalar subquery is \<^verbatim>\<open>NULL\<close> without a row.\<close>

definition reverse_promote :: "int \<Rightarrow> db \<Rightarrow> edge_row \<Rightarrow> edge_row option" where
  "reverse_promote i db e =
    (if e_to_symbol_id e = Some i
     then Some (e\<lparr>e_to_unresolved := map_option s_fqdn (lookup_by s_id i (t_symbols db)),
                  e_to_symbol_id := None\<rparr>)
     else None)"

definition delete_symbol :: "int \<Rightarrow> unit sql" where
  "delete_symbol i =
    sthen (run (sql_update_edges (reverse_promote i)))
      (run (sql_delete_symbol i))"

section \<open>edges.rs\<close>

definition lookup_or_fallback :: "string \<Rightarrow> string \<Rightarrow> (int option \<times> string option) sql" where
  "lookup_or_fallback fqdn workspace_id =
    squery (\<lambda>db. case lookup_by sym_key (workspace_id, fqdn) (t_symbols db) of
      Some r \<Rightarrow> (Some (s_id r), None)
    | None \<Rightarrow> (None, Some fqdn))"

fun resolve_target :: "ResolvedOrUnresolved \<Rightarrow> string \<Rightarrow> (int option \<times> string option) sql" where
  "resolve_target (ResolvedOrUnresolved.Resolved fqdn) ws = lookup_or_fallback fqdn ws"
| "resolve_target (ResolvedOrUnresolved.Unresolved name) ws = lookup_or_fallback name ws"
| "resolve_target (ResolvedOrUnresolved.UnresolvedBridge bridge name) ws =
    (case try_validate bridge of
       Inl e \<Rightarrow> sthrow (BridgeKindInvalid e)
     | Inr _ \<Rightarrow> lookup_or_fallback (bridge_slug bridge @ ''::'' @ name) ws)"

definition insert_edge :: "codec \<Rightarrow> int \<Rightarrow> RawEdge \<Rightarrow> string \<Rightarrow> int sql" where
  "insert_edge K from_symbol_id edge workspace_id =
    sbind (resolve_target (re_to edge) workspace_id) (\<lambda>(to_symbol_id, to_unresolved).
    run_mapped (sql_insert_edge
      \<lparr> e_id = 0, e_from_symbol_id = from_symbol_id, e_kind = edge_kind_to_sql_text (re_kind edge),
        e_to_symbol_id = to_symbol_id, e_to_unresolved = to_unresolved,
        e_attributes = strs_to_json K (re_attributes edge),
        e_confidence = edge_confidence_to_sql_text (re_confidence edge),
        e_receiver_type = re_receiver_type edge \<rparr>))"

text \<open>The correlated subquery of the promote statement: same fqdn, same workspace as the source.\<close>

definition promote_target :: "db \<Rightarrow> edge_row \<Rightarrow> int option" where
  "promote_target db e =
    (case (e_to_unresolved e, lookup_by s_id (e_from_symbol_id e) (t_symbols db)) of
       (Some name, Some f) \<Rightarrow>
         map_option s_id (find (\<lambda>t. s_fqdn t = name \<and> s_workspace_id t = s_workspace_id f) (t_symbols db))
     | _ \<Rightarrow> None)"

definition promote_edge :: "int list \<Rightarrow> db \<Rightarrow> edge_row \<Rightarrow> edge_row option" where
  "promote_edge new_symbol_ids db e =
    (case e_to_unresolved e of
       None \<Rightarrow> None
     | Some name \<Rightarrow>
         if list_ex (\<lambda>r. s_id r \<in> set new_symbol_ids \<and> s_fqdn r = name) (t_symbols db)
         then (case promote_target db e of
                 None \<Rightarrow> None
               | Some t \<Rightarrow> Some (e\<lparr>e_to_symbol_id := Some t, e_to_unresolved := None\<rparr>))
         else None)"

definition promote_unresolved_batch :: "int list \<Rightarrow> nat sql" where
  "promote_unresolved_batch new_symbol_ids =
    (if new_symbol_ids = [] then sreturn 0
     else run (sql_update_edges (promote_edge new_symbol_ids)))"

definition delete_edges_from :: "int \<Rightarrow> nat sql" where
  "delete_edges_from from_symbol_id =
    run (sql_delete_edges_where (\<lambda>e. e_from_symbol_id e = from_symbol_id))"

section \<open>edge_sites.rs\<close>

definition insert_edge_sites :: "int \<Rightarrow> Site list \<Rightarrow> unit sql" where
  "insert_edge_sites edge_id sites =
    sfor sites (\<lambda>site. run (sql_insert_edge_site
      \<lparr> es_edge_id = edge_id, es_file_path = site_file site, es_line = site_line site,
        es_col = site_col site \<rparr>))"

definition delete_edge_sites_by_file :: "string \<Rightarrow> nat sql" where
  "delete_edge_sites_by_file path =
    sbind (squery (\<lambda>db. length (filter (\<lambda>r. es_file_path r = path) (t_edge_sites db)))) (\<lambda>n.
    sthen (run (smodify (\<lambda>db. db\<lparr>t_edge_sites := filter (\<lambda>r. es_file_path r \<noteq> path) (t_edge_sites db)\<rparr>)))
      (sreturn n))"

section \<open>documents.rs\<close>

definition upsert_document :: "DocumentInput \<Rightarrow> unit sql" where
  "upsert_document doc = run (sql_upsert_document doc)"

definition get_document :: "int \<Rightarrow> DocumentInput option sql" where
  "get_document symbol_id = squery (\<lambda>db. lookup_by d_symbol_id symbol_id (t_documents db))"

definition delete_document :: "int \<Rightarrow> unit sql" where
  "delete_document symbol_id =
    run (smodify (\<lambda>db. db\<lparr>t_documents := filter (\<lambda>r. d_symbol_id r \<noteq> symbol_id) (t_documents db)\<rparr>))"

section \<open>files.rs\<close>

record FileInput =
  fi_path :: string
  fi_content_hash :: Blake3Hash
  fi_language :: Language
  fi_byte_size :: "64 word"
  fi_last_scanned :: int
  fi_last_scan_error :: "string option"
  fi_is_external :: bool

definition upsert_file :: "FileInput \<Rightarrow> unit sql" where
  "upsert_file f =
    (if uint (fi_byte_size f) > I64_MAX then sthrow InvalidStoredData
     else run (sql_upsert_file
       \<lparr> f_path = fi_path f, f_content_hash = to_hex (fi_content_hash f),
         f_language = language_to_sql_text (fi_language f), f_last_scanned = fi_last_scanned f,
         f_byte_size = uint (fi_byte_size f), f_last_scan_error = fi_last_scan_error f,
         f_is_external = fi_is_external f, f_project_id = None \<rparr>))"

definition build_file_input :: "file_row \<Rightarrow> StorageError + FileInput" where
  "build_file_input raw =
    (case from_hex (f_content_hash raw) of
       Inl _ \<Rightarrow> Inl InvalidStoredData
     | Inr content_hash \<Rightarrow> (case language_from_sql_text (f_language raw) of
         Inl e \<Rightarrow> Inl e
       | Inr language \<Rightarrow>
           if f_byte_size raw < 0 then Inl InvalidStoredData
           else Inr \<lparr> fi_path = f_path raw, fi_content_hash = content_hash, fi_language = language,
                      fi_byte_size = of_int (f_byte_size raw), fi_last_scanned = f_last_scanned raw,
                      fi_last_scan_error = f_last_scan_error raw,
                      fi_is_external = f_is_external raw \<rparr>))"

definition get_file :: "string \<Rightarrow> FileInput option sql" where
  "get_file path =
    sbind (squery (\<lambda>db. lookup_by f_path path (t_files db))) (\<lambda>raw.
    case raw of
      None \<Rightarrow> sreturn None
    | Some r \<Rightarrow> sbind (slift (build_file_input r)) (\<lambda>f. sreturn (Some f)))"

definition delete_file :: "string \<Rightarrow> unit sql" where
  "delete_file path = run (sql_delete_file path)"

section \<open>call_sites.rs\<close>

definition insert_call_site :: "codec \<Rightarrow> string \<Rightarrow> RawCallSite \<Rightarrow> int sql" where
  "insert_call_site K file_path cs =
    run (sql_insert_call_site
      \<lparr> c_id = 0, c_from_fqdn = cs_from_fqdn cs, c_callee_text = cs_callee_text cs,
        c_args_json = args_to_json K (cs_args cs),
        c_receiver_chain_json = strs_to_json K (cs_receiver_chain cs),
        c_file_path = file_path, c_line = site_line (cs_site cs), c_col = site_col (cs_site cs) \<rparr>)"

definition delete_call_sites_by_file :: "string \<Rightarrow> nat sql" where
  "delete_call_sites_by_file file_path =
    sbind (squery (\<lambda>db. length (filter (\<lambda>r. c_file_path r = file_path) (t_call_sites db)))) (\<lambda>n.
    sthen (run (smodify (\<lambda>db. db\<lparr>t_call_sites := filter (\<lambda>r. c_file_path r \<noteq> file_path) (t_call_sites db)\<rparr>)))
      (sreturn n))"

section \<open>symbol_ffi_binding.rs\<close>

definition upsert_binding :: "int \<Rightarrow> RawFfiBinding \<Rightarrow> unit sql" where
  "upsert_binding symbol_id b =
    run (sql_upsert_ffi
      \<lparr> fr_symbol_id = symbol_id, fr_abi = abi_as_slug (fb_abi b),
        fr_direction = direction_as_slug (fb_direction b), fr_abi_name = fb_abi_name b,
        fr_convention = fb_convention b \<rparr>)"

definition delete_bindings_for_symbol :: "int \<Rightarrow> unit sql" where
  "delete_bindings_for_symbol symbol_id =
    run (smodify (\<lambda>db. db\<lparr>t_ffi_bindings := filter (\<lambda>r. fr_symbol_id r \<noteq> symbol_id) (t_ffi_bindings db)\<rparr>))"

definition ffi_row_binding :: "ffi_row \<Rightarrow> StorageError + RawFfiBinding" where
  "ffi_row_binding r =
    (case direction_from_slug (fr_direction r) of
       None \<Rightarrow> Inl InvalidStoredData
     | Some d \<Rightarrow> Inr \<lparr> fb_symbol_fqdn = [], fb_abi = abi_from_slug (fr_abi r), fb_direction = d,
                        fb_abi_name = fr_abi_name r, fb_convention = fr_convention r \<rparr>)"

definition list_for_symbol :: "int \<Rightarrow> RawFfiBinding list sql" where
  "list_for_symbol symbol_id =
    sbind (squery (\<lambda>db. filter (\<lambda>r. fr_symbol_id r = symbol_id) (t_ffi_bindings db))) (\<lambda>rows.
    sfold (\<lambda>r out. sbind (slift (ffi_row_binding r)) (\<lambda>b. sreturn (out @ [b]))) rows [])"

record BindingSide =
  bd_symbol_id :: int
  bd_fqdn :: string
  bd_abi_name :: string
  bd_abi :: string
  bd_workspace_id :: string

definition fetch_all_sides :: "FfiDirection \<Rightarrow> BindingSide list sql" where
  "fetch_all_sides direction =
    squery (\<lambda>db. List.map_filter (\<lambda>b.
        map_option (\<lambda>s. \<lparr> bd_symbol_id = fr_symbol_id b, bd_fqdn = s_fqdn s,
                          bd_abi_name = fr_abi_name b, bd_abi = fr_abi b,
                          bd_workspace_id = s_workspace_id s \<rparr>)
          (lookup_by s_id (fr_symbol_id b) (t_symbols db)))
      (filter (\<lambda>b. fr_direction b = direction_as_slug direction) (t_ffi_bindings db)))"

section \<open>symbol_decl_location.rs\<close>

definition upsert_decl_location :: "int \<Rightarrow> SymbolLocation \<Rightarrow> unit sql" where
  "upsert_decl_location symbol_id location =
    run (sql_upsert_decl_location \<lparr> dl_symbol_id = symbol_id, dl_location = location \<rparr>)"

definition read_decl_location :: "int \<Rightarrow> SymbolLocation option sql" where
  "read_decl_location symbol_id =
    squery (\<lambda>db. map_option dl_location (lookup_by dl_symbol_id symbol_id (t_decl_locations db)))"

definition delete_decl_location :: "int \<Rightarrow> unit sql" where
  "delete_decl_location symbol_id =
    run (smodify (\<lambda>db. db\<lparr>t_decl_locations := filter (\<lambda>r. dl_symbol_id r \<noteq> symbol_id) (t_decl_locations db)\<rparr>))"

section \<open>module_lookup.rs\<close>

definition PRIMARY_WORKSPACE_ID :: string where
  "PRIMARY_WORKSPACE_ID = ''primary''"

text \<open>The \<^verbatim>\<open>seen\<close> set of \<^verbatim>\<open>put_module_lookup\<close>: the first record of each (local name, origin).\<close>

fun dedup_imports :: "(string \<times> string) list \<Rightarrow> ImportRecord list \<Rightarrow> ImportRecord list" where
  "dedup_imports seen [] = []"
| "dedup_imports seen (i # is) =
    (if (im_local_name i, im_origin_module i) \<in> set seen then dedup_imports seen is
     else i # dedup_imports ((im_local_name i, im_origin_module i) # seen) is)"

definition import_record_row :: "string \<Rightarrow> string \<Rightarrow> ImportRecord \<Rightarrow> import_row" where
  "import_record_row workspace_id module_fqdn i =
    \<lparr> wi_workspace_id = workspace_id, wi_module_fqdn = module_fqdn, wi_local_name = im_local_name i,
      wi_origin_module = im_origin_module i, wi_origin_symbol = im_origin_symbol i,
      wi_is_type_only = im_is_type_only i, wi_is_re_export = im_is_re_export i \<rparr>"

definition put_module_lookup :: "codec \<Rightarrow> string \<Rightarrow> ModuleLookup \<Rightarrow> unit sql" where
  "put_module_lookup K workspace_id lookup =
    (case encode_lookup K lookup of
       None \<Rightarrow> sthrow InvalidStoredData
     | Some payload \<Rightarrow>
         sthen (run (sql_replace_lookup
           \<lparr> lk_module_fqdn = ml_module_fqdn lookup, lk_workspace_id = workspace_id,
             lk_language = language_to_sql_text (ml_language lookup),
             lk_built_at = i64_saturate (ml_built_at_epoch_ms lookup), lk_payload = payload \<rparr>))
         (sthen (run (sql_delete_imports_where (\<lambda>r. wi_workspace_id r = workspace_id
                       \<and> wi_module_fqdn r = ml_module_fqdn lookup)))
           (sfor (dedup_imports [] (ml_imports lookup)) (\<lambda>i.
              run (sql_insert_import (import_record_row workspace_id (ml_module_fqdn lookup) i))))))"

definition get_module_lookup :: "codec \<Rightarrow> string \<Rightarrow> string \<Rightarrow> ModuleLookup option sql" where
  "get_module_lookup K workspace_id module_fqdn =
    sbind (squery (\<lambda>db. lookup_by lookup_key (workspace_id, module_fqdn) (t_module_lookups db))) (\<lambda>row.
    case row of
      None \<Rightarrow> sreturn None
    | Some r \<Rightarrow> (case decode_lookup K (lk_payload r) of
        None \<Rightarrow> sthrow InvalidStoredData
      | Some ml \<Rightarrow> sreturn (Some ml)))"

definition delete_module_lookup :: "string \<Rightarrow> string \<Rightarrow> unit sql" where
  "delete_module_lookup workspace_id module_fqdn =
    sthen (run (sql_delete_imports_where (\<lambda>r. wi_workspace_id r = workspace_id \<and> wi_module_fqdn r = module_fqdn)))
      (run (sql_delete_lookups_where (\<lambda>r. lk_workspace_id r = workspace_id \<and> lk_module_fqdn r = module_fqdn)))"

definition workspace_imports_by_origin :: "string \<Rightarrow> import_row list sql" where
  "workspace_imports_by_origin origin_module =
    squery (\<lambda>db. filter (\<lambda>r. wi_origin_module r = origin_module) (t_workspace_imports db))"

section \<open>Every operation keeps the invariant\<close>

lemma set_positions_simps [simp]:
  "s_id (set_positions l v r) = s_id r" "sym_key (set_positions l v r) = sym_key r"
  "s_name (set_positions l v r) = s_name r" "s_file_path (set_positions l v r) = s_file_path r"
  "sym_checks (set_positions l v r) = sym_checks r" "s_fqdn (set_positions l v r) = s_fqdn r"
  by (simp_all add: set_positions_def sym_key_def sym_checks_def)

lemma keeps_edge_id_promote [keeps_intros]: "keeps_edge_id (promote_edge ids)"
  by (rule keeps_edge_idI) (auto simp: promote_edge_def split: option.splits if_splits)

lemma keeps_edge_id_reverse [keeps_intros]: "keeps_edge_id (reverse_promote i)"
  by (rule keeps_edge_idI) (auto simp: reverse_promote_def split: if_splits)

lemma keeps_lookup_or_fallback [keeps_intros]: "keeps db_ok (lookup_or_fallback f w)"
  unfolding lookup_or_fallback_def by (intro keeps_intros)

lemma keeps_resolve_target [keeps_intros]: "keeps db_ok (resolve_target t w)"
  by (cases t) (auto intro!: keeps_intros)

lemma keeps_storage [keeps_intros]:
  "keeps db_ok (insert_symbol K symbol ctx)"
  "keeps db_ok (update_symbol_positions i loc v)"
  "keeps db_ok (delete_symbol i)"
  "keeps db_ok (insert_edge K i edge w)"
  "keeps db_ok (promote_unresolved_batch ids)"
  "keeps db_ok (delete_edges_from i)"
  "keeps db_ok (insert_edge_sites i sites)"
  "keeps db_ok (delete_edge_sites_by_file path)"
  "keeps db_ok (upsert_document doc)"
  "keeps db_ok (get_document i)"
  "keeps db_ok (delete_document i)"
  "keeps db_ok (upsert_file f)"
  "keeps db_ok (get_file path)"
  "keeps db_ok (delete_file path)"
  "keeps db_ok (insert_call_site K path cs)"
  "keeps db_ok (delete_call_sites_by_file path)"
  "keeps db_ok (upsert_binding i b)"
  "keeps db_ok (delete_bindings_for_symbol i)"
  "keeps db_ok (list_for_symbol i)"
  "keeps db_ok (fetch_all_sides d)"
  "keeps db_ok (upsert_decl_location i loc)"
  "keeps db_ok (read_decl_location i)"
  "keeps db_ok (delete_decl_location i)"
  "keeps db_ok (put_module_lookup K w ml)"
  "keeps db_ok (get_module_lookup K w m)"
  "keeps db_ok (delete_module_lookup w m)"
  "keeps db_ok (workspace_imports_by_origin m)"
  unfolding insert_symbol_def update_symbol_positions_def delete_symbol_def insert_edge_def
    promote_unresolved_batch_def delete_edges_from_def insert_edge_sites_def
    delete_edge_sites_by_file_def upsert_document_def get_document_def delete_document_def
    upsert_file_def get_file_def delete_file_def insert_call_site_def delete_call_sites_by_file_def
    upsert_binding_def delete_bindings_for_symbol_def list_for_symbol_def fetch_all_sides_def
    upsert_decl_location_def read_decl_location_def delete_decl_location_def put_module_lookup_def
    get_module_lookup_def delete_module_lookup_def workspace_imports_by_origin_def
  by (intro keeps_intros; simp)+

section \<open>Deleting a symbol\<close>

text \<open>An incoming edge after the reverse-promote step.\<close>

definition unresolve_edge :: "int \<Rightarrow> string \<Rightarrow> edge_row \<Rightarrow> edge_row" where
  "unresolve_edge i fqdn e =
    (if e_to_symbol_id e = Some i then e\<lparr>e_to_unresolved := Some fqdn, e_to_symbol_id := None\<rparr> else e)"

lemma unresolve_edge_simps [simp]:
  "e_id (unresolve_edge i f e) = e_id e"
  "e_from_symbol_id (unresolve_edge i f e) = e_from_symbol_id e"
  "e_to_symbol_id (unresolve_edge i f e) = (if e_to_symbol_id e = Some i then None else e_to_symbol_id e)"
  by (simp_all add: unresolve_edge_def)

lemma map_filter_cong_edges:
  "map (\<lambda>e. case f e of None \<Rightarrow> e | Some e' \<Rightarrow> e') xs = map g xs"
  if "\<And>e. e \<in> set xs \<Longrightarrow> (case f e of None \<Rightarrow> e | Some e' \<Rightarrow> e') = g e" for f g xs
  using that by simp

lemma in_map_filterE:
  assumes "y \<in> set (List.map_filter f xs)"
  obtains x where "x \<in> set xs" "f x = Some y"
  using assms by (auto simp: List.map_filter_def)

lemma edge_row_ok: "db_ok db \<Longrightarrow> e \<in> set (t_edges db) \<Longrightarrow> edge_checks e \<and> edge_fk db e"
  by (auto simp: db_ok_def ok_edges_def edge_fk_def)

lemma lookup_sym_id: "db_ok db \<Longrightarrow> r \<in> set (t_symbols db) \<Longrightarrow> lookup_by s_id (s_id r) (t_symbols db) = Some r"
  using lookup_by_eq_iff[of s_id "t_symbols db"] by (auto simp: db_ok_def ok_symbols_def ok_ids_def)

lemma lookup_sym_key: "db_ok db \<Longrightarrow> r \<in> set (t_symbols db) \<Longrightarrow> lookup_by sym_key (sym_key r) (t_symbols db) = Some r"
  using lookup_by_eq_iff[of sym_key "t_symbols db"] by (auto simp: db_ok_def ok_symbols_def)

lemma reverse_promote_total:
  assumes ok: "db_ok db" and r: "r \<in> set (t_symbols db)"
  shows "sql_update_edges (reverse_promote (s_id r)) db =
    (Inr (length (filter (\<lambda>e. e_to_symbol_id e = Some (s_id r)) (t_edges db))),
     db\<lparr>t_edges := map (unresolve_edge (s_id r) (s_fqdn r)) (t_edges db)\<rparr>)"
proof -
  let ?ch = "List.map_filter (reverse_promote (s_id r) db) (t_edges db)"
  have chk: "edge_checks e' \<and> edge_fk db e'" if e': "e' \<in> set ?ch" for e'
  proof -
    from e' obtain e where e: "e \<in> set (t_edges db)" "reverse_promote (s_id r) db e = Some e'"
      by (rule in_map_filterE)
    then show ?thesis
      using edge_row_ok[OF ok e(1)] lookup_sym_id[OF ok r]
      by (auto simp: reverse_promote_def edge_checks_def edge_target_check_def edge_fk_def split: if_splits)
  qed
  moreover have "length ?ch = length (filter (\<lambda>e. e_to_symbol_id e = Some (s_id r)) (t_edges db))"
    by (simp add: List.map_filter_def reverse_promote_def)
  moreover have "map (\<lambda>e. case reverse_promote (s_id r) db e of None \<Rightarrow> e | Some e' \<Rightarrow> e') (t_edges db)
      = map (unresolve_edge (s_id r) (s_fqdn r)) (t_edges db)"
    using lookup_sym_id[OF ok r] by (simp add: reverse_promote_def unresolve_edge_def)
  ultimately show ?thesis
    by (simp add: sql_update_edges_def Let_def list_all_iff)
qed

lemma delete_symbol_eq:
  assumes ok: "db_ok db" and r: "r \<in> set (t_symbols db)"
  shows "delete_symbol (s_id r) db =
    (Inr (), purge_symbol (s_id r) (db\<lparr>t_edges := map (unresolve_edge (s_id r) (s_fqdn r)) (t_edges db)\<rparr>))"
proof -
  let ?db = "db\<lparr>t_edges := map (unresolve_edge (s_id r) (s_fqdn r)) (t_edges db)\<rparr>"
  have "sql_delete_symbol (s_id r) ?db = (Inr (), purge_symbol (s_id r) ?db)"
    using r by (auto simp: sql_delete_symbol_def list_ex_iff split: if_splits)
  then show ?thesis
    by (simp add: delete_symbol_def sthen_def sbind_def map_err_def reverse_promote_total[OF ok r])
qed

lemma delete_symbol_absent:
  "db_ok db \<Longrightarrow> i \<notin> sym_ids db \<Longrightarrow> delete_symbol i db = (Inr (), db)"
proof -
  assume ok: "db_ok db" and i: "i \<notin> sym_ids db"
  have none: "\<forall>e\<in>set (t_edges db). e_to_symbol_id e \<noteq> Some i" using edge_to_sym[OF ok] i by blast
  then have "List.map_filter (reverse_promote i db) (t_edges db) = []"
    by (auto simp: List.map_filter_def reverse_promote_def filter_empty_conv)
  moreover have "map (\<lambda>e. case reverse_promote i db e of None \<Rightarrow> e | Some e' \<Rightarrow> e') (t_edges db) = t_edges db"
    using none by (auto simp: reverse_promote_def intro!: map_idI)
  ultimately show ?thesis using i
    by (simp add: delete_symbol_def sql_update_edges_def sql_delete_symbol_def sthen_def sbind_def map_err_def)
qed

section \<open>Promoting unresolved edges\<close>

definition promoted :: "int list \<Rightarrow> db \<Rightarrow> edge_row \<Rightarrow> edge_row" where
  "promoted ids db e = (case promote_edge ids db e of None \<Rightarrow> e | Some e' \<Rightarrow> e')"

lemma promote_target_sym:
  "promote_target db e = Some t \<Longrightarrow> t \<in> sym_ids db"
  by (auto simp: promote_target_def split: option.splits dest!: find_Some_set)

lemma promote_total:
  assumes ok: "db_ok db"
  shows "\<exists>n. promote_unresolved_batch ids db = (Inr n, db\<lparr>t_edges := map (promoted ids db) (t_edges db)\<rparr>)"
proof (cases "ids = []")
  case True
  have "map (promoted [] db) (t_edges db) = t_edges db"
    by (auto simp: promoted_def promote_edge_def list_ex_iff split: option.splits intro!: map_idI)
  then show ?thesis using True by (simp add: promote_unresolved_batch_def sx_apply)
next
  case False
  have "edge_checks e' \<and> edge_fk db e'" if e': "e' \<in> set (List.map_filter (promote_edge ids db) (t_edges db))" for e'
  proof -
    from e' obtain e where e: "e \<in> set (t_edges db)" "promote_edge ids db e = Some e'"
      by (rule in_map_filterE)
    then show ?thesis
      using edge_row_ok[OF ok e(1)]
      by (auto simp: promote_edge_def edge_checks_def edge_target_check_def edge_fk_def
          dest: promote_target_sym split: option.splits if_splits)
  qed
  then show ?thesis using False
    by (simp add: promote_unresolved_batch_def sql_update_edges_def Let_def list_all_iff promoted_def map_err_def)
qed

text \<open>Which symbol an unresolved edge may be promoted to, as the comment of the source puts it.\<close>

definition promotes_to :: "int list \<Rightarrow> db \<Rightarrow> edge_row \<Rightarrow> sym_row \<Rightarrow> bool" where
  "promotes_to ids db e t \<longleftrightarrow>
     e_to_unresolved e = Some (s_fqdn t) \<and> t \<in> set (t_symbols db) \<and>
     (\<exists>f\<in>set (t_symbols db). s_id f = e_from_symbol_id e \<and> s_workspace_id f = s_workspace_id t) \<and>
     (\<exists>nu\<in>set (t_symbols db). s_id nu \<in> set ids \<and> s_fqdn nu = s_fqdn t)"

lemma promoted_spec:
  assumes ok: "db_ok db" and e: "e \<in> set (t_edges db)"
  shows "(\<exists>t. promotes_to ids db e t \<and> promoted ids db e = e\<lparr>e_to_symbol_id := Some (s_id t), e_to_unresolved := None\<rparr>)
    \<or> ((\<nexists>t. promotes_to ids db e t) \<and> promoted ids db e = e)"
proof (cases "e_to_unresolved e")
  case None
  then show ?thesis by (simp add: promotes_to_def promoted_def promote_edge_def)
next
  case (Some name)
  obtain f where f: "f \<in> set (t_symbols db)" "s_id f = e_from_symbol_id e"
    using edge_from_sym[OF ok e] by auto
  have lf: "lookup_by s_id (e_from_symbol_id e) (t_symbols db) = Some f"
    using lookup_sym_id[OF ok f(1)] f(2) by simp
  have funique: "g = f" if "g \<in> set (t_symbols db)" "s_id g = e_from_symbol_id e" for g
    using sym_id_inj[OF ok that(1) f(1)] that(2) f(2) by simp
  let ?new = "\<exists>nu\<in>set (t_symbols db). s_id nu \<in> set ids \<and> s_fqdn nu = name"
  let ?P = "\<lambda>t. s_fqdn t = name \<and> s_workspace_id t = s_workspace_id f"
  have pr: "promotes_to ids db e t \<longleftrightarrow> ?new \<and> t \<in> set (t_symbols db) \<and> ?P t" for t
    unfolding promotes_to_def Some option.inject using f funique by metis
  show ?thesis
  proof (cases "find ?P (t_symbols db)")
    case None
    then have "\<nexists>t. promotes_to ids db e t" unfolding pr by (auto simp: find_None_set)
    then show ?thesis using Some lf None
      by (simp add: promoted_def promote_edge_def promote_target_def)
  next
    case t: (Some t)
    from find_Some_set[OF t] have tin: "t \<in> set (t_symbols db)" "?P t" by blast+
    show ?thesis
    proof (cases ?new)
      case True
      then have "promotes_to ids db e t" unfolding pr using tin by blast
      moreover have "promoted ids db e = e\<lparr>e_to_symbol_id := Some (s_id t), e_to_unresolved := None\<rparr>"
      proof -
        have "list_ex (\<lambda>r. s_id r \<in> set ids \<and> s_fqdn r = name) (t_symbols db)"
          using True by (auto simp: list_ex_iff)
        moreover have "promote_target db e = Some (s_id t)" using Some lf t by (simp add: promote_target_def)
        ultimately show ?thesis using Some by (simp add: promoted_def promote_edge_def)
      qed
      ultimately show ?thesis by blast
    next
      case False
      then have "\<nexists>t. promotes_to ids db e t" unfolding pr by blast
      then show ?thesis using False Some by (auto simp: promoted_def promote_edge_def list_ex_iff)
    qed
  qed
qed

section \<open>Inserting a symbol\<close>

lemma symbol_row_checks [simp]: "sym_checks (symbol_row K sy ctx j)"
proof -
  have "s_kind (symbol_row K sy ctx j) \<in> {''callable'', ''type'', ''value'', ''module'', ''macro''}"
    by (cases "rs_kind sy") (simp_all add: symbol_row_def)
  moreover have "s_visibility (symbol_row K sy ctx j) \<in> {''public'', ''private'', ''crate'', ''protected''}"
    by (cases "rs_visibility sy") (simp_all add: symbol_row_def)
  moreover have "s_source_origin (symbol_row K sy ctx j)
      \<in> {''workspace'', ''cargo_registry'', ''node_modules_dts'', ''manual_external''}"
    by (cases "ctx_source_origin ctx") (simp_all add: symbol_row_def)
  moreover have "case s_entry_point (symbol_row K sy ctx j) of None \<Rightarrow> True
      | Some t \<Rightarrow> t \<in> {''binary_main'', ''public_api'', ''ffi_export''}"
  proof (cases "rs_entry_point sy")
    case (Some ep)
    then show ?thesis by (cases ep) (simp_all add: symbol_row_def)
  qed (simp add: symbol_row_def)
  ultimately show ?thesis by (simp add: sym_checks_def)
qed

lemma symbol_row_simps [simp]:
  "sym_key (symbol_row K sy ctx j) = (ctx_workspace_id ctx, rs_fqdn sy)"
  "s_file_path (symbol_row K sy ctx j) = ctx_file_path ctx"
  "s_fqdn (symbol_row K sy ctx j) = rs_fqdn sy"
  "s_workspace_id (symbol_row K sy ctx j) = ctx_workspace_id ctx"
  by (simp_all add: symbol_row_def sym_key_def)

lemma sym_key_id_update [simp]: "sym_key (r\<lparr>s_id := i\<rparr>) = sym_key r"
  by (simp add: sym_key_def)

text \<open>The id an insert returns: the one the (workspace, fqdn) pair has, or a fresh one.\<close>

definition upsert_id :: "string \<times> string \<Rightarrow> db \<Rightarrow> int" where
  "upsert_id k db = (case lookup_by sym_key k (t_symbols db) of None \<Rightarrow> sym_seq db + 1 | Some old \<Rightarrow> s_id old)"

definition upserted_rows :: "sym_row \<Rightarrow> db \<Rightarrow> sym_row list" where
  "upserted_rows r db =
    (let row = r\<lparr>s_id := upsert_id (sym_key r) db\<rparr> in
     case lookup_by sym_key (sym_key r) (t_symbols db) of
       None \<Rightarrow> t_symbols db @ [row]
     | Some old \<Rightarrow> map (\<lambda>q. if s_id q = s_id old then row else q) (t_symbols db))"

definition upserted_db :: "sym_row \<Rightarrow> db \<Rightarrow> db" where
  "upserted_db r db =
    db\<lparr>t_symbols := upserted_rows r db,
       t_fts := filter (\<lambda>d. fst d \<noteq> upsert_id (sym_key r) db) (t_fts db)
                  @ [fts_doc (r\<lparr>s_id := upsert_id (sym_key r) db\<rparr>)],
       sym_seq := sym_seq db + 1\<rparr>"

lemma upserted_db_frame [simp]:
  "t_edges (upserted_db r db) = t_edges db" "t_files (upserted_db r db) = t_files db"
  "t_schema_meta (upserted_db r db) = t_schema_meta db" "t_edge_sites (upserted_db r db) = t_edge_sites db"
  "t_call_sites (upserted_db r db) = t_call_sites db" "t_documents (upserted_db r db) = t_documents db"
  "t_ffi_bindings (upserted_db r db) = t_ffi_bindings db" "edge_seq (upserted_db r db) = edge_seq db"
  "call_seq (upserted_db r db) = call_seq db" "sym_seq (upserted_db r db) = sym_seq db + 1"
  "t_symbols (upserted_db r db) = upserted_rows r db"
  by (simp_all add: upserted_db_def)

lemma sql_upsert_symbol_eq:
  assumes ok: "db_ok db" and chk: "sym_checks r"
  shows "sql_upsert_symbol r db =
    (if I64_MAX \<le> sym_seq db then (Inl SqliteFull, db)
     else if s_file_path r \<notin> file_paths db then (Inl ConstraintForeignKey, db)
     else (Inr (upsert_id (sym_key r) db), upserted_db r db))"
proof (cases "lookup_by sym_key (sym_key r) (t_symbols db)")
  case None
  then have "upsert_by sym_key merge_symbol (r\<lparr>s_id := sym_seq db + 1\<rparr>) (t_symbols db)
      = t_symbols db @ [r\<lparr>s_id := sym_seq db + 1\<rparr>]"
    by (intro upsert_symbol_insert) simp
  then show ?thesis using None chk
    by (simp add: sql_upsert_symbol_def Let_def upsert_id_def upserted_db_def upserted_rows_def)
next
  case (Some old)
  then have "upsert_by sym_key merge_symbol (r\<lparr>s_id := sym_seq db + 1\<rparr>) (t_symbols db)
      = map (\<lambda>q. if s_id q = s_id old then r\<lparr>s_id := s_id old\<rparr> else q) (t_symbols db)"
    using upsert_symbol_replace[OF ok, of "r\<lparr>s_id := sym_seq db + 1\<rparr>" old] by (simp add: merge_symbol_def)
  then show ?thesis using Some chk
    by (simp add: sql_upsert_symbol_def Let_def upsert_id_def upserted_db_def upserted_rows_def merge_symbol_def)
qed

lemma insert_symbol_eq:
  assumes "db_ok db"
  shows "insert_symbol K sy ctx db =
    (case opt_signature_json K (rs_signature sy) of
       Inl e \<Rightarrow> (Inl e, db)
     | Inr j \<Rightarrow>
         if I64_MAX \<le> sym_seq db then (Inl (Sqlite SqliteFull), db)
         else if ctx_file_path ctx \<notin> file_paths db then (Inl (Sqlite ConstraintForeignKey), db)
         else (Inr (upsert_id (ctx_workspace_id ctx, rs_fqdn sy) db), upserted_db (symbol_row K sy ctx j) db))"
  using sql_upsert_symbol_eq[OF assms symbol_row_checks]
  by (auto simp: insert_symbol_def sbind_def sx_apply map_err_def map_constraint_def split: sum.splits)

lemma insert_symbol_Inr:
  assumes "db_ok db" "insert_symbol K sy ctx db = (Inr i, db')"
  obtains j where "opt_signature_json K (rs_signature sy) = Inr j" "ctx_file_path ctx \<in> file_paths db"
    "sym_seq db < I64_MAX" "i = upsert_id (ctx_workspace_id ctx, rs_fqdn sy) db"
    "db' = upserted_db (symbol_row K sy ctx j) db"
  using assms by (auto simp: insert_symbol_eq split: sum.splits if_splits)

lemma upserted_rows_set:
  assumes ok: "db_ok db"
  shows "set (upserted_rows r db) =
    insert (r\<lparr>s_id := upsert_id (sym_key r) db\<rparr>) {q \<in> set (t_symbols db). sym_key q \<noteq> sym_key r}"
proof (cases "lookup_by sym_key (sym_key r) (t_symbols db)")
  case None
  then have "\<forall>q\<in>set (t_symbols db). sym_key q \<noteq> sym_key r" by (auto simp: lookup_by_def find_None_set)
  then show ?thesis by (auto simp: upserted_rows_def None Let_def)
next
  case (Some old)
  have old: "old \<in> set (t_symbols db)" "sym_key old = sym_key r" using lookup_by_Some[OF Some] by auto
  have "sym_key q = sym_key r \<longleftrightarrow> s_id q = s_id old" if "q \<in> set (t_symbols db)" for q
    using that old sym_key_inj[OF ok that old(1)] sym_id_inj[OF ok that old(1)] by auto
  then show ?thesis
    using Some old replace_set[OF old(1)] by (auto simp: upserted_rows_def Let_def)
qed

lemma upserted_ids: "sym_ids db \<subseteq> s_id ` set (upserted_rows r db)"
proof (cases "lookup_by sym_key (sym_key r) (t_symbols db)")
  case (Some old)
  then show ?thesis
    using replace_ids[of "r\<lparr>s_id := s_id old\<rparr>" old "t_symbols db"]
    by (simp add: upserted_rows_def Let_def upsert_id_def)
qed (auto simp: upserted_rows_def Let_def)

lemma upserted_row_fields [simp]:
  "s_fqdn (r\<lparr>s_id := i\<rparr>) = s_fqdn r" "s_workspace_id (r\<lparr>s_id := i\<rparr>) = s_workspace_id r"
  "s_file_path (r\<lparr>s_id := i\<rparr>) = s_file_path r"
  by simp_all

section \<open>The import index\<close>

lemma import_record_row_simps [simp]:
  "wi_workspace_id (import_record_row w m i) = w" "wi_module_fqdn (import_record_row w m i) = m"
  "wi_local_name (import_record_row w m i) = im_local_name i"
  "wi_origin_module (import_record_row w m i) = im_origin_module i"
  by (simp_all add: import_record_row_def)

lemma insert_imports_fresh:
  assumes "\<And>r. r \<in> set (t_workspace_imports db) \<Longrightarrow> wi_workspace_id r = w \<Longrightarrow> wi_module_fqdn r = m
      \<Longrightarrow> (wi_local_name r, wi_origin_module r) \<in> set seen"
  shows "sfor (dedup_imports seen is) (\<lambda>i. run (sql_insert_import (import_record_row w m i))) db
     = (Inr (), db\<lparr>t_workspace_imports := t_workspace_imports db @ map (import_record_row w m) (dedup_imports seen is)\<rparr>)"
  using assms
proof (induction seen "is" arbitrary: db rule: dedup_imports.induct)
  case (1 seen)
  then show ?case by (simp add: sx_apply)
next
  case (2 seen i "is")
  show ?case
  proof (cases "(im_local_name i, im_origin_module i) \<in> set seen")
    case True
    then show ?thesis using 2 by simp
  next
    case False
    let ?db1 = "db\<lparr>t_workspace_imports := t_workspace_imports db @ [import_record_row w m i]\<rparr>"
    have "\<forall>r\<in>set (t_workspace_imports db). import_key r \<noteq> import_key (import_record_row w m i)"
      using 2(3) False by (fastforce simp: import_key_def)
    then have "run (sql_insert_import (import_record_row w m i)) db = (Inr (), ?db1)"
      by (auto simp: sql_insert_import_def map_err_def list_ex_iff)
    moreover have "sfor (dedup_imports ((im_local_name i, im_origin_module i) # seen) is)
        (\<lambda>i. run (sql_insert_import (import_record_row w m i))) ?db1
      = (Inr (), ?db1\<lparr>t_workspace_imports := t_workspace_imports ?db1
          @ map (import_record_row w m) (dedup_imports ((im_local_name i, im_origin_module i) # seen) is)\<rparr>)"
    proof (rule 2(2)[OF False])
      fix r assume "r \<in> set (t_workspace_imports ?db1)" "wi_workspace_id r = w" "wi_module_fqdn r = m"
      then show "(wi_local_name r, wi_origin_module r) \<in> set ((im_local_name i, im_origin_module i) # seen)"
        using 2(3)[of r] by (cases "r = import_record_row w m i") auto
    qed
    ultimately show ?thesis using False by (simp add: sthen_def sbind_def map_err_def)
  qed
qed

section \<open>A small database\<close>

text \<open>
  A concrete database for the witnesses of the properties: one file with two symbols, the
  second one calling the first.
\<close>

definition demo_codec :: codec where
  "demo_codec = \<lparr> sig_to_json = (\<lambda>_. ''{}''), sig_from_json = (\<lambda>_. Some signature_default),
     strs_to_json = (\<lambda>xs. ''['' @ join_str '','' xs @ '']''), strs_from_json = (\<lambda>_. Some []),
     args_to_json = (\<lambda>_. ''[]''), encode_lookup = (\<lambda>_. Some [1]),
     decode_lookup = (\<lambda>_. Some (persisted_lookup example_lookup)) \<rparr>"

definition demo_symbol :: "string \<Rightarrow> RawSymbol" where
  "demo_symbol fqdn = \<lparr> rs_name = fqdn, rs_fqdn = fqdn, rs_kind = Kind.Callable, rs_language_kind = ''fn'',
     rs_decl_kind = None, rs_implements_trait = None, rs_receiver_type = None, rs_entry_point = None,
     rs_module = None, rs_visibility = Visibility.Public,
     rs_location = \<lparr> loc_file = ''a.rs'', loc_start_line = 1, loc_end_line = 2, loc_start_col = 0, loc_end_col = 1 \<rparr>,
     rs_signature = None, rs_body_hash = None, rs_attributes = [], rs_flags = [] \<rparr>"

definition demo_ctx :: SymbolInsertContext where
  "demo_ctx = \<lparr> ctx_file_path = ''a.rs'', ctx_language = Language.Rust, ctx_is_external = False,
     ctx_source_origin = SourceOrigin.Workspace, ctx_revision = 1, ctx_workspace_id = ''primary'' \<rparr>"

definition demo_row :: "int \<Rightarrow> string \<Rightarrow> sym_row" where
  "demo_row i fqdn = (symbol_row demo_codec (demo_symbol fqdn) demo_ctx None)\<lparr>s_id := i\<rparr>"

definition demo_edge :: edge_row where
  "demo_edge = \<lparr> e_id = 1, e_from_symbol_id = 2, e_kind = ''CALLS'', e_to_symbol_id = Some 1,
     e_to_unresolved = None, e_attributes = ''[]'', e_confidence = ''extracted'', e_receiver_type = None \<rparr>"

definition demo_file :: file_row where
  "demo_file = \<lparr> f_path = ''a.rs'', f_content_hash = to_hex (replicate 32 0), f_language = ''rust'',
     f_last_scanned = 0, f_byte_size = 10, f_last_scan_error = None, f_is_external = False,
     f_project_id = None \<rparr>"

definition demo_db :: db where
  "demo_db = init_db\<lparr>t_files := [demo_file], t_symbols := [demo_row 1 ''f'', demo_row 2 ''g''],
     t_edges := [demo_edge], t_fts := [(1, ''f'', ''f''), (2, ''g'', ''g'')], sym_seq := 2, edge_seq := 1\<rparr>"

lemma demo_row_simps [simp]:
  "s_id (demo_row i f) = i" "s_fqdn (demo_row i f) = f" "s_name (demo_row i f) = f"
  "s_file_path (demo_row i f) = ''a.rs''" "s_workspace_id (demo_row i f) = ''primary''"
  "sym_key (demo_row i f) = (''primary'', f)" "sym_checks (demo_row i f)"
  using symbol_row_checks[of demo_codec "demo_symbol f" demo_ctx None]
  by (simp_all add: demo_row_def symbol_row_def demo_symbol_def demo_ctx_def sym_key_def sym_checks_def)

lemma demo_db_simps [simp]:
  "t_symbols demo_db = [demo_row 1 ''f'', demo_row 2 ''g'']" "t_edges demo_db = [demo_edge]"
  "t_files demo_db = [demo_file]" "sym_seq demo_db = 2" "edge_seq demo_db = 1" "t_edge_sites demo_db = []"
  "t_schema_meta demo_db = init_meta" "t_call_sites demo_db = []" "t_ffi_bindings demo_db = []"
  "t_documents demo_db = []" "f_path demo_file = ''a.rs''" "call_seq demo_db = 0"
  "t_module_lookups demo_db = []" "t_workspace_imports demo_db = []"
  by (simp_all add: demo_db_def init_db_def demo_file_def)

lemma demo_db_ok [simp]: "db_ok demo_db"
  by (simp add: demo_db_def init_db_def db_ok_def ok_projects_def ok_ids_def ok_files_def ok_symbols_def
      ok_edges_def ok_satellite_def ok_calls_def ok_catalog_def ok_fts_def fts_doc_def demo_edge_def
      demo_file_def edge_checks_def edge_target_check_def)

section \<open>Properties\<close>

text \<open>
  C12. \<^verbatim>\<open>delete_symbol\<close> never fails on a consistent database: the symbol and its outgoing edges
  are gone, and every edge that pointed to it stays, holding the symbol's fqdn as its unresolved
  target, so that no edge dangles and none is lost.
\<close>

theorem delete_symbol_unresolves_incoming:
  assumes ok: "db_ok db" and r: "r \<in> set (t_symbols db)"
  shows "\<exists>db'. delete_symbol (s_id r) db = (Inr (), db') \<and> db_ok db' \<and>
    t_symbols db' = filter (\<lambda>q. s_id q \<noteq> s_id r) (t_symbols db) \<and>
    t_edges db' = map (unresolve_edge (s_id r) (s_fqdn r))
                    (filter (\<lambda>e. e_from_symbol_id e \<noteq> s_id r) (t_edges db))"
proof -
  have "db_ok (snd (delete_symbol (s_id r) db))" by (rule keepsD[OF keeps_storage(3) ok])
  then show ?thesis
    unfolding delete_symbol_eq[OF ok r] by (simp add: purge_symbol_def filter_map comp_def)
qed

theorem delete_symbol_unresolves_incoming_witness:
  "\<exists>db'. delete_symbol 1 demo_db = (Inr (), db') \<and> db_ok db' \<and>
    map e_to_unresolved (t_edges db') = [Some ''f'']"
  using delete_symbol_unresolves_incoming[of demo_db "demo_row 1 ''f''"]
  by (auto simp: demo_edge_def unresolve_edge_def)





text \<open>
  A file record whose size fits the signed column is written and read back unchanged, for
  every other path nothing changes; a size above \<^verbatim>\<open>i64::MAX\<close> is refused and nothing is written.
\<close>

theorem file_record_roundtrip:
  assumes "wf_hash (fi_content_hash f)"
  shows "if uint (fi_byte_size f) \<le> I64_MAX
    then \<exists>db'. upsert_file f db = (Inr (), db') \<and> get_file (fi_path f) db' = (Inr (Some f), db') \<and>
           (\<forall>p. p = fi_path f \<or> fst (get_file p db') = fst (get_file p db))
    else upsert_file f db = (Inl InvalidStoredData, db)"
proof (cases "uint (fi_byte_size f) \<le> I64_MAX")
  case True
  define row where "row = \<lparr> f_path = fi_path f, f_content_hash = to_hex (fi_content_hash f),
         f_language = language_to_sql_text (fi_language f), f_last_scanned = fi_last_scanned f,
         f_byte_size = uint (fi_byte_size f), f_last_scan_error = fi_last_scan_error f,
         f_is_external = fi_is_external f, f_project_id = None \<rparr>"
  have path: "f_path row = fi_path f" by (simp add: row_def)
  let ?fs = "upsert_by f_path merge_file row (t_files db)"
  have up: "upsert_file f db = (Inr (), db\<lparr>t_files := ?fs\<rparr>)"
    using True by (simp add: upsert_file_def sql_upsert_file_def map_err_def row_def)
  have build: "build_file_input (case lookup_by f_path (fi_path f) (t_files db) of
      None \<Rightarrow> row | Some old \<Rightarrow> merge_file old row) = Inr f"
    using assms by (auto simp: build_file_input_def row_def merge_file_def split: option.splits)
  have "lookup_by f_path (fi_path f) ?fs = Some (case lookup_by f_path (fi_path f) (t_files db) of
      None \<Rightarrow> row | Some old \<Rightarrow> merge_file old row)"
    using files_tab.lookup_upsert_same[of row "t_files db"] unfolding path .
  then have "get_file (fi_path f) (db\<lparr>t_files := ?fs\<rparr>) = (Inr (Some f), db\<lparr>t_files := ?fs\<rparr>)"
    using build by (simp add: get_file_def sbind_def sx_apply)
  moreover have "fst (get_file p (db\<lparr>t_files := ?fs\<rparr>)) = fst (get_file p db)" if "p \<noteq> fi_path f" for p
    using files_tab.lookup_upsert_other[of p row "t_files db"] that path
    by (auto simp: get_file_def sbind_def sx_apply split: option.splits sum.splits)
  ultimately show ?thesis using True up by auto
qed (simp add: upsert_file_def sx_apply)

theorem file_record_roundtrip_witness:
  "\<exists>db'. upsert_file \<lparr> fi_path = ''b.rs'', fi_content_hash = replicate 32 7, fi_language = Language.Rust,
       fi_byte_size = 12, fi_last_scanned = 5, fi_last_scan_error = None, fi_is_external = False \<rparr> demo_db
     = (Inr (), db')"
  using file_record_roundtrip[of "\<lparr> fi_path = ''b.rs'', fi_content_hash = replicate 32 7, fi_language = Language.Rust,
       fi_byte_size = 12, fi_last_scanned = 5, fi_last_scan_error = None, fi_is_external = False \<rparr>" demo_db]
  by (auto simp: wf_hash_def I64_MAX_def)

text \<open>
  Persisting a module lookup and reading it back gives the lookup without its walk-local
  span map; the flat import index holds, for that module, exactly the first record of each
  (local name, origin module) pair in order, and the insertions never collide with the primary
  key, whatever the table held before.  The encoder's behaviour on this value is a hypothesis.
\<close>

theorem module_lookup_roundtrip:
  assumes "encode_lookup K ml = Some bs" and "decode_lookup K bs = Some (persisted_lookup ml)"
  shows "\<exists>db'. put_module_lookup K w ml db = (Inr (), db') \<and>
    get_module_lookup K w (ml_module_fqdn ml) db' = (Inr (Some (persisted_lookup ml)), db') \<and>
    filter (\<lambda>r. wi_workspace_id r = w \<and> wi_module_fqdn r = ml_module_fqdn ml) (t_workspace_imports db')
      = map (import_record_row w (ml_module_fqdn ml)) (dedup_imports [] (ml_imports ml)) \<and>
    filter (\<lambda>r. \<not> (wi_workspace_id r = w \<and> wi_module_fqdn r = ml_module_fqdn ml)) (t_workspace_imports db')
      = filter (\<lambda>r. \<not> (wi_workspace_id r = w \<and> wi_module_fqdn r = ml_module_fqdn ml)) (t_workspace_imports db)"
proof -
  let ?m = "ml_module_fqdn ml"
  define row where "row = \<lparr> lk_module_fqdn = ?m, lk_workspace_id = w,
             lk_language = language_to_sql_text (ml_language ml),
             lk_built_at = i64_saturate (ml_built_at_epoch_ms ml), lk_payload = bs \<rparr>"
  have key: "lookup_key row = (w, ?m)" by (simp add: row_def lookup_key_def)
  let ?old = "filter (\<lambda>r. \<not> (wi_workspace_id r = w \<and> wi_module_fqdn r = ?m)) (t_workspace_imports db)"
  let ?new = "map (import_record_row w ?m) (dedup_imports [] (ml_imports ml))"
  let ?db1 = "db\<lparr>t_module_lookups := delete_by lookup_key (w, ?m) (t_module_lookups db) @ [row],
                t_workspace_imports := ?old\<rparr>"
  have "sfor (dedup_imports [] (ml_imports ml)) (\<lambda>i. run (sql_insert_import (import_record_row w ?m i))) ?db1
      = (Inr (), ?db1\<lparr>t_workspace_imports := ?old @ ?new\<rparr>)"
    using insert_imports_fresh[of ?db1 w ?m "[]" "ml_imports ml"] by (simp add: import_key_def)
  then have put: "put_module_lookup K w ml db = (Inr (), ?db1\<lparr>t_workspace_imports := ?old @ ?new\<rparr>)"
    using assms(1) key
    by (simp add: put_module_lookup_def sthen_def sbind_def map_err_def sql_replace_lookup_def
        sql_delete_imports_where_def row_def)
  have "lookup_by lookup_key (w, ?m) (delete_by lookup_key (w, ?m) (t_module_lookups db) @ [row]) = Some row"
    using key by (rule lookup_replace)
  then have "get_module_lookup K w ?m (?db1\<lparr>t_workspace_imports := ?old @ ?new\<rparr>)
      = (Inr (Some (persisted_lookup ml)), ?db1\<lparr>t_workspace_imports := ?old @ ?new\<rparr>)"
    using assms(2) by (simp add: get_module_lookup_def sbind_def sx_apply row_def)
  moreover have "filter (\<lambda>r. wi_workspace_id r = w \<and> wi_module_fqdn r = ?m) ?new = ?new"
    and "filter (\<lambda>r. \<not> (wi_workspace_id r = w \<and> wi_module_fqdn r = ?m)) ?new = []"
    by (auto simp: filter_empty_conv)
  ultimately show ?thesis using put by auto
qed

theorem module_lookup_roundtrip_witness:
  "\<exists>db'. put_module_lookup demo_codec ''primary'' example_lookup demo_db = (Inr (), db') \<and>
    get_module_lookup demo_codec ''primary'' ''m'' db' = (Inr (Some (persisted_lookup example_lookup)), db')"
proof -
  have "ml_module_fqdn example_lookup = ''m''"
    by (simp add: example_lookup_def Let_def push_scope_def push_binding_def module_lookup_new_def)
  then show ?thesis
    using module_lookup_roundtrip[of demo_codec example_lookup "[1]" "''primary''" demo_db]
    by (auto simp: demo_codec_def)
qed

end
