(* ===== verification/Sql_Text.thy ===== *)
theory Sql_Text
  imports Prelude
begin

text \<open>
  Text functions of the language and of SQLite that the storage code relies on: decimal
  printing and parsing of integers (\<^verbatim>\<open>u64::to_string\<close>, \<^verbatim>\<open>str::parse\<close>), \<^verbatim>\<open>CAST(\<dots> AS INTEGER)\<close>,
  and the \<^verbatim>\<open>LIKE\<close> operator (case-insensitive on ASCII, \<^verbatim>\<open>%\<close> and \<^verbatim>\<open>_\<close> as wildcards, one \<^verbatim>\<open>_\<close>
  per UTF-8 code point).
\<close>

section \<open>Decimal numbers\<close>

definition digit_char :: "nat \<Rightarrow> char" where
  "digit_char d = char_of (48 + d)"

fun nat_to_dec :: "nat \<Rightarrow> string" where
  "nat_to_dec n = (if n < 10 then [digit_char n] else nat_to_dec (n div 10) @ [digit_char (n mod 10)])"

declare nat_to_dec.simps [simp del]

definition is_digit :: "char \<Rightarrow> bool" where
  "is_digit c \<longleftrightarrow> 48 \<le> (of_char c :: nat) \<and> (of_char c :: nat) \<le> 57"

definition digit_value :: "char \<Rightarrow> nat" where
  "digit_value c = of_char c - 48"

definition dec_value :: "string \<Rightarrow> nat" where
  "dec_value s = foldl (\<lambda>n c. 10 * n + digit_value c) 0 s"

text \<open>\<^verbatim>\<open>str::parse\<close> into an unsigned type with the given maximum.\<close>

definition parse_uint :: "nat \<Rightarrow> string \<Rightarrow> nat option" where
  "parse_uint mx s =
    (let ds = (case s of [] \<Rightarrow> [] | c # cs \<Rightarrow> if c = CHR ''+'' then cs else s) in
     if ds = [] \<or> \<not> list_all is_digit ds then None
     else if dec_value ds \<le> mx then Some (dec_value ds) else None)"

definition U64_MAX :: nat where
  "U64_MAX = 18446744073709551615"

definition U32_MAX :: nat where
  "U32_MAX = 4294967295"

definition parse_u64 :: "string \<Rightarrow> 64 word option" where
  "parse_u64 s = map_option of_nat (parse_uint U64_MAX s)"

definition u64_to_string :: "64 word \<Rightarrow> string" where
  "u64_to_string w = nat_to_dec (unat w)"

definition int_to_dec :: "int \<Rightarrow> string" where
  "int_to_dec i = (if i < 0 then CHR ''-'' # nat_to_dec (nat (- i)) else nat_to_dec (nat i))"

text \<open>\<^verbatim>\<open>CAST(text AS INTEGER)\<close>: leading spaces, a sign, the longest run of digits, clamped.\<close>

definition sqlite_space :: "char \<Rightarrow> bool" where
  "sqlite_space c \<longleftrightarrow> of_char c = (32::nat) \<or> (9 \<le> (of_char c :: nat) \<and> (of_char c :: nat) \<le> 13)"

definition cast_integer :: "string \<Rightarrow> int" where
  "cast_integer s =
    (let t = dropWhile sqlite_space s;
         neg = (case t of c # _ \<Rightarrow> c = CHR ''-'' | [] \<Rightarrow> False);
         u = (case t of c # cs \<Rightarrow> if c = CHR ''-'' \<or> c = CHR ''+'' then cs else t | [] \<Rightarrow> []);
         v = int (dec_value (takeWhile is_digit u))
     in if neg then max (- v) (- 9223372036854775808) else min v 9223372036854775807)"

lemma of_char_digit: "d < 10 \<Longrightarrow> (of_char (digit_char d) :: nat) = 48 + d"
  by (simp add: digit_char_def)

lemma digit_char_simps [simp]: "d < 10 \<Longrightarrow> is_digit (digit_char d)" "d < 10 \<Longrightarrow> digit_value (digit_char d) = d"
  by (simp_all add: is_digit_def digit_value_def of_char_digit)

lemma dec_value_snoc: "dec_value (s @ [c]) = 10 * dec_value s + digit_value c"
  by (simp add: dec_value_def)

lemma nat_to_dec_digits: "list_all is_digit (nat_to_dec n)"
  by (induction n rule: nat_to_dec.induct) (subst nat_to_dec.simps, auto)

lemma nat_to_dec_nonempty [simp]: "nat_to_dec n \<noteq> []"
  by (subst nat_to_dec.simps) simp

lemma dec_value_nat_to_dec [simp]: "dec_value (nat_to_dec n) = n"
proof (induction n rule: nat_to_dec.induct)
  case (1 n)
  show ?case
  proof (cases "n < 10")
    case True
    then show ?thesis by (subst nat_to_dec.simps) (simp add: dec_value_def)
  next
    case False
    then show ?thesis using 1 by (subst nat_to_dec.simps) (simp add: dec_value_snoc)
  qed
qed

lemma plus_not_digit: "is_digit c \<Longrightarrow> c \<noteq> CHR ''+''" "is_digit c \<Longrightarrow> c \<noteq> CHR ''/''" "is_digit c \<Longrightarrow> c \<noteq> CHR ''-''"
  "is_digit c \<Longrightarrow> \<not> sqlite_space c"
  by (auto simp: is_digit_def sqlite_space_def)

lemma parse_uint_print: "parse_uint m (nat_to_dec n) = (if n \<le> m then Some n else None)"
proof -
  obtain c cs where s: "nat_to_dec n = c # cs" by (cases "nat_to_dec n") auto
  have "c \<noteq> CHR ''+''" using nat_to_dec_digits[of n] s by (auto dest: plus_not_digit)
  then have "parse_uint m (nat_to_dec n) =
      (if nat_to_dec n = [] \<or> \<not> list_all is_digit (nat_to_dec n) then None
       else if dec_value (nat_to_dec n) \<le> m then Some (dec_value (nat_to_dec n)) else None)"
    unfolding parse_uint_def s by simp
  then show ?thesis using nat_to_dec_digits[of n] by simp
qed

lemma parse_u64_print [simp]: "parse_u64 (u64_to_string w) = Some w"
  using unsigned_less[of w, where ?'a=nat]
  by (simp add: parse_u64_def u64_to_string_def parse_uint_print U64_MAX_def)

lemma cast_integer_print: "int n \<le> 9223372036854775807 \<Longrightarrow> cast_integer (nat_to_dec n) = int n"
proof -
  assume n: "int n \<le> 9223372036854775807"
  obtain c cs where s: "nat_to_dec n = c # cs" by (cases "nat_to_dec n") auto
  have c: "is_digit c" using nat_to_dec_digits[of n] s by simp
  have tw: "takeWhile is_digit cs = cs"
    using nat_to_dec_digits[of n] s by (simp add: takeWhile_eq_all_conv list_all_iff)
  show ?thesis
    using n c plus_not_digit(1,3,4)[OF c] dec_value_nat_to_dec[of n] unfolding cast_integer_def Let_def
    by (simp add: s tw)
qed

section \<open>LIKE\<close>

definition ascii_lower :: "char \<Rightarrow> char" where
  "ascii_lower c = (let v = (of_char c :: nat) in if 65 \<le> v \<and> v \<le> 90 then char_of (v + 32) else c)"

definition utf8_continuation :: "char \<Rightarrow> bool" where
  "utf8_continuation c \<longleftrightarrow> 128 \<le> (of_char c :: nat) \<and> (of_char c :: nat) \<le> 191"

definition next_char :: "string \<Rightarrow> string" where
  "next_char t = dropWhile utf8_continuation (tl t)"

lemma next_char_shorter: "t \<noteq> [] \<Longrightarrow> length (next_char t) < length t"
  using length_dropWhile_le[of utf8_continuation "tl t"] by (cases t) (auto simp: next_char_def)

function sql_like :: "string \<Rightarrow> string \<Rightarrow> bool" where
  "sql_like [] t \<longleftrightarrow> t = []"
| "sql_like (p # ps) t \<longleftrightarrow>
    (if p = CHR ''%'' then sql_like ps t \<or> (if t = [] then False else sql_like (p # ps) (next_char t))
     else if p = CHR ''_'' then (if t = [] then False else sql_like ps (next_char t))
     else (case t of [] \<Rightarrow> False | c # cs \<Rightarrow> ascii_lower p = ascii_lower c \<and> sql_like ps cs))"
  by pat_completeness auto
termination
  by (relation "measure (\<lambda>(p, t). length p + length t)")
    (auto dest: next_char_shorter)

declare sql_like.simps(2) [simp del]

text \<open>A pattern without wildcards matches up to ASCII case only.\<close>

definition no_wildcard :: "string \<Rightarrow> bool" where
  "no_wildcard p \<longleftrightarrow> CHR ''%'' \<notin> set p \<and> CHR ''_'' \<notin> set p"

lemma sql_like_literal:
  "no_wildcard p \<Longrightarrow> sql_like (p @ q) t \<longleftrightarrow> (\<exists>u v. t = u @ v \<and> map ascii_lower u = map ascii_lower p \<and> sql_like q v)"
proof (induction p arbitrary: t)
  case (Cons c p)
  then have c: "c \<noteq> CHR ''%''" "c \<noteq> CHR ''_''" "no_wildcard p" by (auto simp: no_wildcard_def)
  show ?case
  proof (cases t)
    case (Cons d t')
    have "sql_like ((c # p) @ q) t \<longleftrightarrow> ascii_lower c = ascii_lower d \<and>
        (\<exists>u v. t' = u @ v \<and> map ascii_lower u = map ascii_lower p \<and> sql_like q v)"
      using Cons c Cons.IH[OF c(3), of t'] by (simp add: sql_like.simps(2))
    also have "\<dots> \<longleftrightarrow> (\<exists>u v. t = u @ v \<and> map ascii_lower u = map ascii_lower (c # p) \<and> sql_like q v)"
      unfolding Cons by (auto simp: Cons_eq_append_conv) (metis append_Cons list.simps(9))+
    finally show ?thesis .
  qed (use c in \<open>simp add: sql_like.simps(2)\<close>)
qed simp

end
