(* ===== verification/Storage_Meta.thy ===== *)
theory Storage_Meta
  imports Storage Sql_Text "HOL-Library.List_Lexorder" "HOL-Library.Char_ord"
begin

text \<open>
  The rest of \<^verbatim>\<open>crates/standardoc-core/src/storage\<close>: \<^verbatim>\<open>schema_meta.rs\<close> (the revision counter and
  the other singletons), the metadata and path operations of \<^verbatim>\<open>handle.rs\<close>, \<^verbatim>\<open>projects.rs\<close>,
  \<^verbatim>\<open>workspace_catalog.rs\<close>, \<^verbatim>\<open>enrichments.rs\<close>, \<^verbatim>\<open>fts.rs\<close> and \<^verbatim>\<open>cross_workspace.rs\<close>.

  Clock readings and fresh UUIDs are arguments.  \<^verbatim>\<open>IndexHandle::conn\<close> fails only while a rescan
  has swapped the pool out; the operations here are those of a handle whose pool is present.
  \<^verbatim>\<open>ORDER BY\<close> on a text column sorts by bytes, as SQLite's \<^verbatim>\<open>BINARY\<close> collation.
\<close>

section \<open>schema_meta.rs\<close>

definition WORKSPACE_KIND_KEY :: string where "WORKSPACE_KIND_KEY = ''workspace_kind''"
definition REVISION_KEY :: string where "REVISION_KEY = ''revision''"
definition SCHEMA_VERSION_KEY :: string where "SCHEMA_VERSION_KEY = ''schema_version''"

text \<open>\<^verbatim>\<open>query_row\<close> on the primary key, and \<^verbatim>\<open>UPDATE \<dots> WHERE key = \<close>, which changes no row when the key is absent.\<close>

definition meta_value :: "string \<Rightarrow> string sql" where
  "meta_value key =
    sbind (squery (\<lambda>db. t_schema_meta db key)) (\<lambda>v.
    case v of None \<Rightarrow> sthrow (Sqlite QueryReturnedNoRows) | Some raw \<Rightarrow> sreturn raw)"

definition update_meta :: "string \<Rightarrow> (string \<Rightarrow> string) \<Rightarrow> unit sql" where
  "update_meta key g =
    smodify (\<lambda>db. case t_schema_meta db key of None \<Rightarrow> db | Some raw \<Rightarrow> set_meta key (g raw) db)"

definition read_revision :: "64 word sql" where
  "read_revision =
    sbind (meta_value REVISION_KEY) (\<lambda>raw.
    case parse_u64 raw of
      None \<Rightarrow> sthrow (InvalidSchemaMetadata REVISION_KEY raw)
    | Some v \<Rightarrow> sreturn v)"

definition set_revision :: "64 word \<Rightarrow> unit sql" where
  "set_revision revision = update_meta REVISION_KEY (\<lambda>_. u64_to_string revision)"

text \<open>An integer sum that leaves the 64-bit range becomes a floating-point value in SQLite.\<close>

definition bump_text :: "string \<Rightarrow> string" where
  "bump_text raw =
    (if cast_integer raw < I64_MAX then int_to_dec (cast_integer raw + 1) else ''9.22337203685478e+18'')"

definition bump_revision :: "unit sql" where
  "bump_revision = update_meta REVISION_KEY bump_text"

definition read_schema_version :: "32 word sql" where
  "read_schema_version =
    sbind (meta_value SCHEMA_VERSION_KEY) (\<lambda>raw.
    case parse_uint U32_MAX raw of
      None \<Rightarrow> sthrow (InvalidSchemaMetadata SCHEMA_VERSION_KEY raw)
    | Some v \<Rightarrow> sreturn (of_nat v))"

definition read_workspace_kind :: "WorkspaceKind option sql" where
  "read_workspace_kind =
    squery (\<lambda>db. map_option workspace_kind_from_str (t_schema_meta db WORKSPACE_KIND_KEY))"

definition write_workspace_kind :: "WorkspaceKind \<Rightarrow> unit sql" where
  "write_workspace_kind kind = smodify (set_meta WORKSPACE_KIND_KEY (workspace_kind_as_str kind))"

definition delete_workspace_kind :: "unit sql" where
  "delete_workspace_kind =
    smodify (\<lambda>db. db\<lparr>t_schema_meta := (t_schema_meta db)(WORKSPACE_KIND_KEY := None)\<rparr>)"

section \<open>handle.rs and cold_start.rs: revision, progress, paths\<close>

definition handle_revision :: "db \<Rightarrow> 64 word" where
  "handle_revision db = (case read_revision db of (Inr v, _) \<Rightarrow> v | (Inl _, _) \<Rightarrow> 0)"

definition handle_bump_revision :: "unit sql" where
  "handle_bump_revision = (\<lambda>db. (Inr (), snd (bump_revision db)))"

definition parse_cold_start_progress :: "string \<Rightarrow> StorageError + (64 word \<times> 64 word) option" where
  "parse_cold_start_progress value =
    (if value = [] then Inr None
     else case split_once (CHR ''/'') value of
       None \<Rightarrow> Inl InvalidStoredData
     | Some (done_str, total_str) \<Rightarrow>
         (case parse_u64 done_str of
            None \<Rightarrow> Inl InvalidStoredData
          | Some dn \<Rightarrow> (case parse_u64 total_str of
              None \<Rightarrow> Inl InvalidStoredData
            | Some ttl \<Rightarrow> Inr (Some (dn, ttl)))))"

definition cold_start_progress :: "(64 word \<times> 64 word) option sql" where
  "cold_start_progress =
    sbind (meta_value ''cold_start_progress'') (\<lambda>value. slift (parse_cold_start_progress value))"

definition write_progress_value :: "string \<Rightarrow> unit sql" where
  "write_progress_value value = update_meta ''cold_start_progress'' (\<lambda>_. value)"

definition set_progress :: "64 word \<Rightarrow> 64 word \<Rightarrow> unit sql" where
  "set_progress dn ttl = write_progress_value (u64_to_string dn @ ''/'' @ u64_to_string ttl)"

definition clear_progress :: "unit sql" where
  "clear_progress = write_progress_value []"

definition list_all_file_paths :: "string list sql" where
  "list_all_file_paths = squery (\<lambda>db. map f_path (t_files db))"

definition list_paths_matching_ignore :: "(string \<Rightarrow> bool) \<Rightarrow> string list sql" where
  "list_paths_matching_ignore is_skipped = squery (\<lambda>db. filter is_skipped (map f_path (t_files db)))"

definition delete_path_counted :: "string \<Rightarrow> nat \<Rightarrow> nat sql" where
  "delete_path_counted path removed =
    sbind (squery (\<lambda>db. length (filter (\<lambda>r. f_path r = path) (t_files db)))) (\<lambda>n.
    sthen (run (sql_delete_file path)) (sreturn (removed + n)))"

definition delete_paths :: "string list \<Rightarrow> unit sql" where
  "delete_paths paths =
    (if paths = [] then sreturn ()
     else sbind (transaction (sfold delete_path_counted paths 0)) (\<lambda>removed.
          swhen (0 < removed) handle_bump_revision))"

definition seed_runtime_metadata :: "string \<Rightarrow> StorageError + string \<Rightarrow> unit sql" where
  "seed_runtime_metadata workspace_root now_ms =
    sthen (update_meta ''workspace_root'' (\<lambda>_. workspace_root))
    (sbind (meta_value ''created_at'') (\<lambda>created_at.
     if created_at = [] then sbind (slift now_ms) (\<lambda>now. update_meta ''created_at'' (\<lambda>_. now))
     else sreturn ()))"

section \<open>projects.rs\<close>

definition row_to_project :: "project_row \<Rightarrow> StorageError + ProjectInfo" where
  "row_to_project r =
    (case project_kind_from_str (pj_kind r) of
       None \<Rightarrow> Inl InvalidStoredData
     | Some kind \<Rightarrow>
         if 0 \<le> pj_id r \<and> pj_id r \<le> int U32_MAX
         then Inr \<lparr> pi_project_id = of_int (pj_id r), pi_label = pj_label r, pi_kind = kind,
                    pi_root_path = pj_root_path r, pi_rel_path = pj_rel_path r \<rparr>
         else Inl InvalidStoredData)"

definition opt_project :: "project_row option \<Rightarrow> ProjectInfo option sql" where
  "opt_project row =
    (case row of None \<Rightarrow> sreturn None
     | Some r \<Rightarrow> sbind (slift (row_to_project r)) (\<lambda>p. sreturn (Some p)))"

definition insert_project :: "string \<Rightarrow> ProjectKind \<Rightarrow> string \<Rightarrow> string \<Rightarrow> 32 word sql" where
  "insert_project label kind root_path rel_path =
    sbind (run (sql_insert_project
      \<lparr> pj_id = 0, pj_label = label, pj_kind = project_kind_as_str kind, pj_root_path = root_path,
        pj_rel_path = rel_path \<rparr>)) (\<lambda>i.
    if 0 \<le> i \<and> i \<le> int U32_MAX then sreturn (of_int i) else sthrow InvalidStoredData)"

definition project_find_by_root_path :: "string \<Rightarrow> ProjectInfo option sql" where
  "project_find_by_root_path root_path =
    sbind (squery (\<lambda>db. find (\<lambda>r. pj_root_path r = root_path) (t_projects db))) opt_project"

definition update_project :: "int \<Rightarrow> (project_row \<Rightarrow> project_row) \<Rightarrow> db \<Rightarrow> db" where
  "update_project i g db = db\<lparr>t_projects := map (\<lambda>r. if pj_id r = i then g r else r) (t_projects db)\<rparr>"

definition upsert_project :: "string \<Rightarrow> ProjectKind \<Rightarrow> string \<Rightarrow> string \<Rightarrow> 32 word sql" where
  "upsert_project label kind root_path rel_path =
    sbind (project_find_by_root_path root_path) (\<lambda>existing.
    case existing of
      Some p \<Rightarrow> sthen (run (smodify (update_project (uint (pi_project_id p))
                  (\<lambda>r. r\<lparr>pj_label := label, pj_kind := project_kind_as_str kind, pj_rel_path := rel_path\<rparr>))))
                (sreturn (pi_project_id p))
    | None \<Rightarrow> insert_project label kind root_path rel_path)"

definition get_project :: "32 word \<Rightarrow> ProjectInfo option sql" where
  "get_project project_id =
    sbind (squery (\<lambda>db. find (\<lambda>r. pj_id r = uint project_id) (t_projects db))) opt_project"

definition project_push :: "project_row \<Rightarrow> ProjectInfo list \<Rightarrow> ProjectInfo list sql" where
  "project_push r out = sbind (slift (row_to_project r)) (\<lambda>p. sreturn (out @ [p]))"

definition list_projects :: "ProjectInfo list sql" where
  "list_projects =
    sbind (squery (\<lambda>db. sort_key pj_rel_path (t_projects db))) (\<lambda>rows. sfold project_push rows [])"

text \<open>SQL's \<^verbatim>\<open>length\<close> counts code points.\<close>

definition utf8_length :: "string \<Rightarrow> nat" where
  "utf8_length s = length (filter (\<lambda>c. \<not> utf8_continuation c) s)"

definition owns_path :: "string \<Rightarrow> project_row \<Rightarrow> bool" where
  "owns_path path r \<longleftrightarrow> path = pj_root_path r \<or> sql_like (pj_root_path r @ ''/%'') path
     \<or> sql_like (pj_root_path r @ [CHR 0x5C] @ ''%'') path"

definition find_for_file_path :: "string \<Rightarrow> ProjectInfo option sql" where
  "find_for_file_path file_abs_path =
    sbind (squery (\<lambda>db. case rev (sort_key (\<lambda>r. utf8_length (pj_root_path r))
                       (rev (filter (owns_path file_abs_path) (t_projects db)))) of
             [] \<Rightarrow> None | r # _ \<Rightarrow> Some r)) opt_project"

definition delete_project :: "32 word \<Rightarrow> unit sql" where
  "delete_project project_id =
    sthen (run (smodify (\<lambda>db. db\<lparr>t_files :=
        map (\<lambda>r. if f_project_id r = Some (uint project_id) then r\<lparr>f_project_id := None\<rparr> else r) (t_files db)\<rparr>)))
      (run (sql_delete_project (uint project_id)))"

section \<open>workspace_catalog.rs\<close>

record LinkedWorkspace =
  lw_workspace_id :: string
  lw_root_path :: string
  lw_link_direction :: LinkDirection
  lw_linked_at_epoch_ms :: int
  lw_last_indexed_at_epoch_ms :: "int option"
  lw_status :: LinkedWorkspaceStatus
  lw_indexing_mode :: IndexingMode

definition row_to_linked_workspace :: "catalog_row \<Rightarrow> StorageError + LinkedWorkspace" where
  "row_to_linked_workspace r =
    (case link_direction_from_i64 (wc_link_direction r) of
       None \<Rightarrow> Inl InvalidStoredData
     | Some direction \<Rightarrow> (case link_status_from_str (wc_status r) of
         None \<Rightarrow> Inl InvalidStoredData
       | Some status \<Rightarrow> (case indexing_mode_from_str (wc_indexing_mode r) of
           None \<Rightarrow> Inl InvalidStoredData
         | Some mode \<Rightarrow> Inr
             \<lparr> lw_workspace_id = wc_workspace_id r, lw_root_path = wc_root_path r,
               lw_link_direction = direction, lw_linked_at_epoch_ms = wc_linked_at r,
               lw_last_indexed_at_epoch_ms = wc_last_indexed_at r, lw_status = status,
               lw_indexing_mode = mode \<rparr>)))"

definition register_linked_workspace ::
  "string \<Rightarrow> int \<Rightarrow> string \<Rightarrow> LinkDirection \<Rightarrow> IndexingMode \<Rightarrow> string sql" where
  "register_linked_workspace uuid now root_path direction mode =
    sthen (run (sql_insert_catalog
      \<lparr> wc_workspace_id = uuid, wc_root_path = root_path, wc_link_direction = link_direction_as_i64 direction,
        wc_linked_at = now, wc_last_indexed_at = None, wc_status = ''active'',
        wc_indexing_mode = indexing_mode_as_str mode \<rparr>))
      (sreturn uuid)"

definition get_linked_workspace :: "string \<Rightarrow> LinkedWorkspace option sql" where
  "get_linked_workspace workspace_id =
    sbind (squery (\<lambda>db. lookup_by wc_workspace_id workspace_id (t_catalog db))) (\<lambda>row.
    case row of None \<Rightarrow> sreturn None
    | Some r \<Rightarrow> sbind (slift (row_to_linked_workspace r)) (\<lambda>w. sreturn (Some w)))"

definition linked_push :: "catalog_row \<Rightarrow> LinkedWorkspace list \<Rightarrow> LinkedWorkspace list sql" where
  "linked_push r out = sbind (slift (row_to_linked_workspace r)) (\<lambda>w. sreturn (out @ [w]))"

definition list_linked_workspaces :: "LinkedWorkspace list sql" where
  "list_linked_workspaces =
    sbind (squery (\<lambda>db. sort_key wc_linked_at (t_catalog db))) (\<lambda>rows. sfold linked_push rows [])"

definition catalog_find_by_root_path :: "string \<Rightarrow> LinkedWorkspace list sql" where
  "catalog_find_by_root_path root_path =
    sbind (squery (\<lambda>db. sort_key wc_linked_at (filter (\<lambda>r. wc_root_path r = root_path) (t_catalog db)))) (\<lambda>rows.
    sfold linked_push rows [])"

definition unregister_linked_workspace :: "string \<Rightarrow> unit sql" where
  "unregister_linked_workspace workspace_id =
    sthen (run (sql_delete_imports_where (\<lambda>r. wi_workspace_id r = workspace_id)))
    (sthen (run (sql_delete_lookups_where (\<lambda>r. lk_workspace_id r = workspace_id)))
      (run (smodify (\<lambda>db. db\<lparr>t_catalog := delete_by wc_workspace_id workspace_id (t_catalog db)\<rparr>))))"

definition update_catalog :: "string \<Rightarrow> (catalog_row \<Rightarrow> catalog_row) \<Rightarrow> unit stmt" where
  "update_catalog workspace_id g = (\<lambda>db.
     let rows = map (\<lambda>r. if wc_workspace_id r = workspace_id then g r else r) (t_catalog db) in
     if list_all catalog_checks rows then (Inr (), db\<lparr>t_catalog := rows\<rparr>) else (Inl ConstraintCheck, db))"

definition set_link_direction :: "string \<Rightarrow> LinkDirection \<Rightarrow> unit sql" where
  "set_link_direction workspace_id direction =
    run (update_catalog workspace_id (\<lambda>r. r\<lparr>wc_link_direction := link_direction_as_i64 direction\<rparr>))"

definition set_status :: "string \<Rightarrow> LinkedWorkspaceStatus \<Rightarrow> unit sql" where
  "set_status workspace_id status =
    run (update_catalog workspace_id (\<lambda>r. r\<lparr>wc_status := link_status_as_str status\<rparr>))"

definition set_indexing_mode :: "string \<Rightarrow> IndexingMode \<Rightarrow> unit sql" where
  "set_indexing_mode workspace_id mode =
    run (update_catalog workspace_id (\<lambda>r. r\<lparr>wc_indexing_mode := indexing_mode_as_str mode\<rparr>))"

definition touch_last_indexed :: "int \<Rightarrow> string \<Rightarrow> unit sql" where
  "touch_last_indexed now workspace_id =
    run (update_catalog workspace_id (\<lambda>r. r\<lparr>wc_last_indexed_at := Some now\<rparr>))"

section \<open>enrichments.rs\<close>

datatype ConfidenceLevel = Low | Medium | High

fun confidence_as_str :: "ConfidenceLevel \<Rightarrow> string" where
  "confidence_as_str Low = ''low''"
| "confidence_as_str Medium = ''medium''"
| "confidence_as_str High = ''high''"

definition confidence_from_sql_text :: "string \<Rightarrow> StorageError + ConfidenceLevel" where
  "confidence_from_sql_text s =
    (if s = ''low'' then Inr Low else if s = ''medium'' then Inr Medium
     else if s = ''high'' then Inr High else Inl InvalidStoredData)"

record EnrichmentInput =
  ei_symbol_id :: int
  ei_description :: "string option"
  ei_params_json :: "string option"
  ei_returns_json :: "string option"
  ei_modifiers_json :: "string option"
  ei_confidence :: ConfidenceLevel
  ei_sources_json :: string
  ei_last_updated :: int

definition upsert_enrichment :: "EnrichmentInput \<Rightarrow> unit sql" where
  "upsert_enrichment enr =
    run_mapped (sql_upsert_enrichment
      \<lparr> en_symbol_id = ei_symbol_id enr, en_description = ei_description enr,
        en_params_json = ei_params_json enr, en_returns_json = ei_returns_json enr,
        en_modifiers_json = ei_modifiers_json enr, en_confidence = confidence_as_str (ei_confidence enr),
        en_sources_json = ei_sources_json enr, en_last_updated = ei_last_updated enr \<rparr>)"

definition build_enrichment_input :: "enrichment_row \<Rightarrow> StorageError + EnrichmentInput" where
  "build_enrichment_input raw =
    (case confidence_from_sql_text (en_confidence raw) of
       Inl e \<Rightarrow> Inl e
     | Inr confidence \<Rightarrow> Inr
         \<lparr> ei_symbol_id = en_symbol_id raw, ei_description = en_description raw,
           ei_params_json = en_params_json raw, ei_returns_json = en_returns_json raw,
           ei_modifiers_json = en_modifiers_json raw, ei_confidence = confidence,
           ei_sources_json = en_sources_json raw, ei_last_updated = en_last_updated raw \<rparr>)"

definition get_enrichment :: "int \<Rightarrow> EnrichmentInput option sql" where
  "get_enrichment symbol_id =
    sbind (squery (\<lambda>db. lookup_by en_symbol_id symbol_id (t_enrichments db))) (\<lambda>raw.
    case raw of None \<Rightarrow> sreturn None
    | Some r \<Rightarrow> sbind (slift (build_enrichment_input r)) (\<lambda>e. sreturn (Some e)))"

section \<open>fts.rs\<close>

definition reindex_fts :: "unit sql" where
  "reindex_fts = smodify (\<lambda>db. db\<lparr>t_fts := map fts_doc (t_symbols db)\<rparr>)"

text \<open>The integrity check compares the index with the content table.\<close>

definition fts_integrity_check :: "unit sql" where
  "fts_integrity_check =
    sbind (squery (\<lambda>db. set (t_fts db) = fts_doc ` set (t_symbols db))) (\<lambda>consistent.
    if consistent then sreturn () else sthrow FtsCorrupted)"

definition assert_fts_counts_match :: "unit sql" where
  "assert_fts_counts_match =
    sbind (squery (\<lambda>db. (int (length (t_symbols db)), int (length (t_fts db))))) (\<lambda>(symbols, fts).
    if symbols \<noteq> fts then sthrow (FtsCountMismatch symbols fts) else sreturn ())"

section \<open>cross_workspace.rs\<close>

record CrossWorkspaceResolution =
  cw_workspace_id :: string
  cw_resolved_fqdn :: string
  cw_binding_source :: BindingSource

definition decode_module_lookup :: "codec \<Rightarrow> 8 word list \<Rightarrow> StorageError + ModuleLookup" where
  "decode_module_lookup K bytes =
    (case decode_lookup K bytes of None \<Rightarrow> Inl InvalidStoredData | Some ml \<Rightarrow> Inr ml)"

definition root_resolution_from_payload ::
  "codec \<Rightarrow> 8 word list \<Rightarrow> string \<Rightarrow> string \<Rightarrow> string \<Rightarrow> StorageError + CrossWorkspaceResolution option" where
  "root_resolution_from_payload K payload origin_module origin_symbol workspace_id =
    (case decode_module_lookup K payload of
       Inl e \<Rightarrow> Inl e
     | Inr lookup \<Rightarrow> Inr
         (case ml_bindings lookup origin_symbol of
            None \<Rightarrow> None
          | Some entries \<Rightarrow> (case find (\<lambda>b. ir_scope_idx b = ROOT_SCOPE) entries of
              None \<Rightarrow> None
            | Some root_binding \<Rightarrow> Some
                \<lparr> cw_workspace_id = workspace_id,
                  cw_resolved_fqdn = (case ir_resolved_fqdn root_binding of
                     Some f \<Rightarrow> f | None \<Rightarrow> origin_module @ ''::'' @ origin_symbol),
                  cw_binding_source = ir_source root_binding \<rparr>)))"

definition peer_lookups :: "string \<Rightarrow> db \<Rightarrow> lookup_row list" where
  "peer_lookups origin_module db =
    filter (\<lambda>r. lk_module_fqdn r = origin_module \<and> lk_workspace_id r \<noteq> PRIMARY_WORKSPACE_ID) (t_module_lookups db)"

fun first_resolution ::
  "codec \<Rightarrow> string \<Rightarrow> string \<Rightarrow> lookup_row list \<Rightarrow> StorageError + CrossWorkspaceResolution option" where
  "first_resolution K origin_module origin_symbol [] = Inr None"
| "first_resolution K origin_module origin_symbol (r # rows) =
    (case root_resolution_from_payload K (lk_payload r) origin_module origin_symbol (lk_workspace_id r) of
       Inl e \<Rightarrow> Inl e
     | Inr (Some res) \<Rightarrow> Inr (Some res)
     | Inr None \<Rightarrow> first_resolution K origin_module origin_symbol rows)"

definition resolve_cross_workspace_import ::
  "codec \<Rightarrow> string \<Rightarrow> string \<Rightarrow> CrossWorkspaceResolution option sql" where
  "resolve_cross_workspace_import K origin_module origin_symbol =
    sbind (squery (peer_lookups origin_module)) (\<lambda>rows.
    slift (first_resolution K origin_module origin_symbol rows))"

definition peer_workspace_for_module :: "string \<Rightarrow> string option sql" where
  "peer_workspace_for_module origin_module =
    squery (\<lambda>db. case peer_lookups origin_module db of [] \<Rightarrow> None | r # _ \<Rightarrow> Some (lk_workspace_id r))"

definition resolve_intra_workspace_import ::
  "codec \<Rightarrow> string \<Rightarrow> string \<Rightarrow> CrossWorkspaceResolution option sql" where
  "resolve_intra_workspace_import K origin_module origin_symbol =
    sbind (squery (\<lambda>db. lookup_by lookup_key (PRIMARY_WORKSPACE_ID, origin_module) (t_module_lookups db))) (\<lambda>row.
    case row of
      None \<Rightarrow> sreturn None
    | Some r \<Rightarrow> slift (root_resolution_from_payload K (lk_payload r) origin_module origin_symbol PRIMARY_WORKSPACE_ID))"

definition provider_push ::
  "codec \<Rightarrow> string \<Rightarrow> string \<Rightarrow> lookup_row \<Rightarrow> CrossWorkspaceResolution list \<Rightarrow> CrossWorkspaceResolution list sql" where
  "provider_push K origin_module origin_symbol r out =
    sbind (slift (root_resolution_from_payload K (lk_payload r) origin_module origin_symbol (lk_workspace_id r))) (\<lambda>res.
    sreturn (case res of None \<Rightarrow> out | Some x \<Rightarrow> out @ [x]))"

definition list_cross_workspace_providers ::
  "codec \<Rightarrow> string \<Rightarrow> string \<Rightarrow> CrossWorkspaceResolution list sql" where
  "list_cross_workspace_providers K origin_module origin_symbol =
    sbind (squery (peer_lookups origin_module)) (\<lambda>rows.
    sfold (provider_push K origin_module origin_symbol) rows [])"

section \<open>Invariant\<close>

lemma keeps_update_meta [keeps_intros]: "keeps db_ok (update_meta k g)"
  by (rule keepsI) (auto simp: update_meta_def set_meta_def db_ok_def split: option.splits)

lemma keeps_update_catalog [keeps_intros]:
  assumes "\<And>r. wc_workspace_id (g r) = wc_workspace_id r"
  shows "keeps db_ok (update_catalog w g)"
proof (rule keepsI)
  fix db assume ok: "db_ok db"
  let ?rows = "map (\<lambda>r. if wc_workspace_id r = w then g r else r) (t_catalog db)"
  have "map wc_workspace_id ?rows = map wc_workspace_id (t_catalog db)" using assms by auto
  then have "list_all catalog_checks ?rows \<Longrightarrow> ok_catalog ?rows"
    using ok unfolding db_ok_def ok_catalog_def by (simp only: list_all_iff simp_thms)
  then show "db_ok (snd (update_catalog w g db))"
    using ok by (simp add: update_catalog_def Let_def db_ok_def)
qed

lemma keeps_meta_value [keeps_intros]: "keeps db_ok (meta_value k)"
  unfolding meta_value_def by (intro keeps_intros)

lemma keeps_handle_bump [keeps_intros]: "keeps db_ok handle_bump_revision"
  using keepsD[OF keeps_update_meta[of REVISION_KEY bump_text]]
  by (auto simp: handle_bump_revision_def bump_revision_def intro: keepsI)

lemma keeps_delete_path_counted [keeps_intros]: "keeps db_ok (delete_path_counted p n)"
  unfolding delete_path_counted_def by (intro keeps_intros)

lemma keeps_delete_paths [keeps_intros]: "keeps db_ok (delete_paths ps)"
  unfolding delete_paths_def by (intro keeps_intros)

lemma keeps_meta [keeps_intros]:
  "keeps db_ok read_revision" "keeps db_ok (set_revision v)" "keeps db_ok bump_revision"
  "keeps db_ok (write_progress_value t)"
  unfolding read_revision_def set_revision_def bump_revision_def write_progress_value_def
  by (intro keeps_intros)+

section \<open>The revision row\<close>

lemma read_set_meta_revision [simp]:
  "read_revision (set_meta REVISION_KEY (u64_to_string v) db) = (Inr v, set_meta REVISION_KEY (u64_to_string v) db)"
  by (simp add: read_revision_def meta_value_def sbind_def set_meta_def sx_apply)

lemma set_revision_eq:
  "t_schema_meta db REVISION_KEY \<noteq> None \<Longrightarrow> set_revision v db = (Inr (), set_meta REVISION_KEY (u64_to_string v) db)"
  by (auto simp: set_revision_def update_meta_def)

lemma read_revision_Inr:
  "read_revision db = (Inr v, t) \<Longrightarrow> t = db \<and> t_schema_meta db REVISION_KEY \<noteq> None"
  by (auto simp: read_revision_def meta_value_def sbind_def sx_apply split: option.splits)

section \<open>Properties\<close>

text \<open>
  The revision the writer stores is the revision the next reader gets, for every 64-bit value,
  as long as the counter's row exists; and the bump used outside the writer adds one to every
  stored value below \<^verbatim>\<open>i64::MAX\<close>.
\<close>

theorem revision_roundtrip:
  assumes "t_schema_meta db REVISION_KEY \<noteq> None"
  shows "\<exists>db'. set_revision v db = (Inr (), db') \<and> read_revision db' = (Inr v, db') \<and>
    (if uint v < I64_MAX then fst (read_revision (snd (bump_revision db'))) = Inr (v + 1) else True)"
proof -
  obtain raw where raw: "t_schema_meta db REVISION_KEY = Some raw" using assms by auto
  let ?db = "set_meta REVISION_KEY (u64_to_string v) db"
  have set: "set_revision v db = (Inr (), ?db)" using raw by (simp add: set_revision_eq)
  have "bump_text (u64_to_string v) = u64_to_string (v + 1)" if "uint v < I64_MAX"
  proof -
    have n: "int (unat v) < I64_MAX" using that by simp
    then have "unat v < 9223372036854775807" unfolding I64_MAX_def by linarith
    then have "unat (v + 1) = unat v + 1" by (simp add: unat_word_ariths)
    moreover have "cast_integer (nat_to_dec (unat v)) = int (unat v)"
      using n by (intro cast_integer_print) (simp add: I64_MAX_def)
    moreover have "\<not> uint v + 1 < 0" using unsigned_greater_eq[of v, where ?'a=int] by linarith
    ultimately show ?thesis
      using n by (simp add: bump_text_def u64_to_string_def int_to_dec_def nat_add_distrib)
  qed
  then have "snd (bump_revision ?db) = set_meta REVISION_KEY (u64_to_string (v + 1)) ?db" if "uint v < I64_MAX"
    using that by (simp add: bump_revision_def update_meta_def set_meta_def)
  then show ?thesis using set by auto
qed

theorem revision_roundtrip_witness:
  "\<exists>db'. set_revision 41 demo_db = (Inr (), db') \<and> fst (read_revision (snd (bump_revision db'))) = Inr 42"
  using revision_roundtrip[of demo_db 41] by (auto simp: init_meta_def REVISION_KEY_def I64_MAX_def)

text \<open>
  The cold-start progress a chunk writes is what \<^verbatim>\<open>cold_start_progress\<close> reports, and after
  \<^verbatim>\<open>clear_progress\<close> it reports none.
\<close>

theorem cold_start_progress_roundtrip:
  assumes "t_schema_meta db ''cold_start_progress'' \<noteq> None"
  shows "fst (cold_start_progress (snd (set_progress dn ttl db))) = Inr (Some (dn, ttl)) \<and>
    fst (cold_start_progress (snd (clear_progress db))) = Inr None"
proof -
  have "CHR ''/'' \<notin> set (u64_to_string dn)"
    using nat_to_dec_digits[of "unat dn"] plus_not_digit(2) by (auto simp: u64_to_string_def list_all_iff)
  then have "split_once (CHR ''/'') (u64_to_string dn @ CHR ''/'' # u64_to_string ttl)
      = Some (u64_to_string dn, u64_to_string ttl)"
    by (rule split_once_append)
  then have "parse_cold_start_progress (u64_to_string dn @ ''/'' @ u64_to_string ttl) = Inr (Some (dn, ttl))"
    by (simp add: parse_cold_start_progress_def)
  then show ?thesis
    using assms
    by (auto simp: cold_start_progress_def set_progress_def clear_progress_def write_progress_value_def
        update_meta_def set_meta_def meta_value_def sbind_def sx_apply parse_cold_start_progress_def)
qed

theorem cold_start_progress_roundtrip_witness:
  "fst (cold_start_progress (snd (set_progress 3 10 demo_db))) = Inr (Some (3, 10))"
  using cold_start_progress_roundtrip[of demo_db 3 10] by (simp add: init_meta_def)

end
