(* ===== verification/Query_Rows.thy ===== *)
theory Query_Rows
  imports Storage_Meta
begin

text \<open>
  The row readers of the query layer (\<^verbatim>\<open>query/rows.rs\<close>) and the plain lookups of \<^verbatim>\<open>query.rs\<close>: a symbol
  by its name, the symbols of a name or of a file, the edges of a symbol, the file record.

  A query reads one state of the database, so it is a function from the database to an error or a
  value.  Rows come in the order of the \<^verbatim>\<open>ORDER BY\<close> clause and, where that leaves it open, in storage
  order.
\<close>

section \<open>Results\<close>

type_synonym 'a result = "StorageError + 'a"

definition ebind :: "'e + 'a \<Rightarrow> ('a \<Rightarrow> 'e + 'b) \<Rightarrow> 'e + 'b" where
  "ebind r f = (case r of Inl e \<Rightarrow> Inl e | Inr x \<Rightarrow> f x)"

text \<open>\<^verbatim>\<open>Option::map(f).transpose()?\<close> and \<^verbatim>\<open>iter().map(f).collect::<Result<Vec<_>, _>>()?\<close>\<close>

fun transpose_opt :: "('a \<Rightarrow> 'e + 'b) \<Rightarrow> 'a option \<Rightarrow> 'e + 'b option" where
  "transpose_opt f None = Inr None"
| "transpose_opt f (Some x) = ebind (f x) (\<lambda>y. Inr (Some y))"

fun collect_ok :: "('a \<Rightarrow> 'e + 'b) \<Rightarrow> 'a list \<Rightarrow> 'e + 'b list" where
  "collect_ok f [] = Inr []"
| "collect_ok f (x # xs) = ebind (f x) (\<lambda>y. ebind (collect_ok f xs) (\<lambda>ys. Inr (y # ys)))"

lemma ebind_simps [simp]: "ebind (Inr x) f = f x" "ebind (Inl e) f = Inl e"
  by (simp_all add: ebind_def)

lemma ebind_Inr: "ebind r f = Inr y \<longleftrightarrow> (\<exists>x. r = Inr x \<and> f x = Inr y)"
  by (cases r) auto

lemma collect_ok_Inr: "collect_ok f xs = Inr ys \<longleftrightarrow> list_all2 (\<lambda>x y. f x = Inr y) xs ys"
  by (induction xs arbitrary: ys) (auto simp: ebind_Inr list_all2_Cons1)

lemma collect_ok_map: "(\<And>x. x \<in> set xs \<Longrightarrow> f x = Inr (g x)) \<Longrightarrow> collect_ok f xs = Inr (map g xs)"
  by (induction xs) auto

section \<open>rows.rs\<close>

definition position_to_u32 :: "int \<Rightarrow> 32 word result" where
  "position_to_u32 v = (if 0 \<le> v \<and> v < 2 ^ 32 then Inr (word_of_int v) else Inl InvalidStoredData)"

definition parse_flags_json :: "codec \<Rightarrow> string \<Rightarrow> string list" where
  "parse_flags_json K raw = (case strs_from_json K raw of None \<Rightarrow> [] | Some xs \<Rightarrow> xs)"

definition body_hash_from_hex :: "string \<Rightarrow> Blake3Hash result" where
  "body_hash_from_hex hex = (case from_hex hex of Inl _ \<Rightarrow> Inl InvalidStoredData | Inr h \<Rightarrow> Inr h)"

definition build_symbol :: "codec \<Rightarrow> sym_row \<Rightarrow> RawSymbol result" where
  "build_symbol K raw =
    ebind (kind_from_sql_text (s_kind raw)) (\<lambda>kind.
    ebind (visibility_from_sql_text (s_visibility raw)) (\<lambda>visibility.
    ebind (transpose_opt (json_to_signature K) (s_signature_json raw)) (\<lambda>signature.
    ebind (transpose_opt body_hash_from_hex (s_body_hash raw)) (\<lambda>body_hash.
    ebind (transpose_opt decl_kind_from_sql_text (s_decl_kind raw)) (\<lambda>decl_kind.
    ebind (transpose_opt entry_point_from_sql_text (s_entry_point raw)) (\<lambda>entry_point.
    ebind (position_to_u32 (uint (s_start_line raw))) (\<lambda>start_line.
    ebind (position_to_u32 (uint (s_end_line raw))) (\<lambda>end_line.
    ebind (position_to_u32 (uint (s_start_col raw))) (\<lambda>start_col.
    ebind (position_to_u32 (uint (s_end_col raw))) (\<lambda>end_col.
    Inr \<lparr> rs_name = s_name raw, rs_fqdn = s_fqdn raw, rs_kind = kind, rs_language_kind = s_language_kind raw,
          rs_decl_kind = decl_kind, rs_implements_trait = s_implements_trait raw,
          rs_receiver_type = map_option type_ref_new (s_receiver_type raw), rs_entry_point = entry_point,
          rs_module = s_module raw, rs_visibility = visibility,
          rs_location = \<lparr> loc_file = s_file_path raw, loc_start_line = start_line, loc_end_line = end_line,
                          loc_start_col = start_col, loc_end_col = end_col \<rparr>,
          rs_signature = signature, rs_body_hash = body_hash, rs_attributes = [],
          rs_flags = parse_flags_json K (s_flags raw) \<rparr>))))))))))"

definition lookup_fqdn_by_id :: "db \<Rightarrow> int \<Rightarrow> string option" where
  "lookup_fqdn_by_id db i = map_option s_fqdn (find (\<lambda>r. s_id r = i) (t_symbols db))"

definition lookup_id_by_fqdn :: "db \<Rightarrow> string \<Rightarrow> int option" where
  "lookup_id_by_fqdn db fqdn =
    map_option s_id (find (\<lambda>r. s_workspace_id r = PRIMARY_WORKSPACE_ID \<and> s_fqdn r = fqdn) (t_symbols db))"

definition read_site :: "site_row \<Rightarrow> Site result" where
  "read_site r =
    ebind (position_to_u32 (uint (es_line r))) (\<lambda>line.
    ebind (position_to_u32 (uint (es_col r))) (\<lambda>col.
    Inr \<lparr> site_file = es_file_path r, site_line = line, site_col = col \<rparr>))"

text \<open>\<^verbatim>\<open>ORDER BY file_path ASC, line ASC, col ASC\<close>: stable sorts by the columns from the last to the first.\<close>

definition load_edge_sites :: "db \<Rightarrow> int \<Rightarrow> Site list result" where
  "load_edge_sites db edge_id =
    collect_ok read_site (sort_key es_file_path (sort_key es_line (sort_key es_col
      (filter (\<lambda>r. es_edge_id r = edge_id) (t_edge_sites db)))))"

definition edge_target :: "db \<Rightarrow> edge_row \<Rightarrow> ResolvedOrUnresolved result" where
  "edge_target db raw =
    (case (e_to_symbol_id raw, e_to_unresolved raw) of
       (Some i, None) \<Rightarrow>
         (case lookup_fqdn_by_id db i of None \<Rightarrow> Inl InvalidStoredData
          | Some fqdn \<Rightarrow> Inr (ResolvedOrUnresolved.Resolved fqdn))
     | (None, Some name) \<Rightarrow> Inr (ResolvedOrUnresolved.Unresolved name)
     | _ \<Rightarrow> Inl InvalidStoredData)"

definition build_edge :: "codec \<Rightarrow> db \<Rightarrow> edge_row \<Rightarrow> string \<Rightarrow> RawEdge result" where
  "build_edge K db raw from_fqdn =
    ebind (edge_kind_from_sql_text (e_kind raw)) (\<lambda>kind.
    ebind (edge_target db raw) (\<lambda>to.
    ebind (load_edge_sites db (e_id raw)) (\<lambda>sites.
    case strs_from_json K (e_attributes raw) of
      None \<Rightarrow> Inl InvalidStoredData
    | Some attributes \<Rightarrow>
        ebind (edge_confidence_from_sql_text (e_confidence raw)) (\<lambda>confidence.
        Inr \<lparr> re_from_fqdn = from_fqdn, re_kind = kind, re_to = to, re_sites = sites, re_attributes = attributes,
              re_confidence = confidence, re_receiver_type = e_receiver_type raw \<rparr>))))"

section \<open>query.rs: lookups\<close>

definition symbol_by_fqdn_in_workspace :: "codec \<Rightarrow> db \<Rightarrow> string \<Rightarrow> string \<Rightarrow> RawSymbol option result" where
  "symbol_by_fqdn_in_workspace K db fqdn workspace_id =
    transpose_opt (build_symbol K) (find (\<lambda>r. s_workspace_id r = workspace_id \<and> s_fqdn r = fqdn) (t_symbols db))"

definition symbol_by_fqdn :: "codec \<Rightarrow> db \<Rightarrow> string \<Rightarrow> RawSymbol option result" where
  "symbol_by_fqdn K db fqdn = symbol_by_fqdn_in_workspace K db fqdn PRIMARY_WORKSPACE_ID"

text \<open>\<^verbatim>\<open>LIMIT\<close> with \<^verbatim>\<open>i64::try_from(limit).unwrap_or(i64::MAX)\<close>\<close>

definition limit_i64 :: "nat \<Rightarrow> nat" where
  "limit_i64 n = min n (nat I64_MAX)"

definition symbols_by_name :: "codec \<Rightarrow> db \<Rightarrow> string \<Rightarrow> nat \<Rightarrow> RawSymbol list result" where
  "symbols_by_name K db name limit =
    collect_ok (build_symbol K)
      (take (limit_i64 limit) (sort_key s_fqdn (filter (\<lambda>r. s_name r = name) (t_symbols db))))"

definition symbols_by_file :: "codec \<Rightarrow> db \<Rightarrow> string \<Rightarrow> RawSymbol list result" where
  "symbols_by_file K db path =
    collect_ok (build_symbol K)
      (sort_key s_start_line (sort_key s_start_col (filter (\<lambda>r. s_file_path r = path) (t_symbols db))))"

definition edges_from :: "codec \<Rightarrow> db \<Rightarrow> string \<Rightarrow> RawEdge list result" where
  "edges_from K db fqdn =
    (case lookup_id_by_fqdn db fqdn of
       None \<Rightarrow> Inr []
     | Some i \<Rightarrow>
         collect_ok (\<lambda>row. build_edge K db row fqdn)
           (sort_key e_id (filter (\<lambda>e. e_from_symbol_id e = i) (t_edges db))))"

text \<open>The join with \<^verbatim>\<open>symbols\<close> drops an edge whose source row is missing.\<close>

definition join_from :: "db \<Rightarrow> edge_row \<Rightarrow> (edge_row \<times> string) option" where
  "join_from db e = map_option (Pair e) (lookup_fqdn_by_id db (e_from_symbol_id e))"

definition points_to :: "int option \<Rightarrow> string \<Rightarrow> edge_row \<Rightarrow> bool" where
  "points_to target_id fqdn e \<longleftrightarrow>
     (target_id \<noteq> None \<and> e_to_symbol_id e = target_id) \<or> e_to_unresolved e = Some fqdn"

definition edges_to :: "codec \<Rightarrow> db \<Rightarrow> string \<Rightarrow> RawEdge list result" where
  "edges_to K db fqdn =
    collect_ok (\<lambda>(row, from_fqdn). build_edge K db row from_fqdn)
      (List.map_filter (join_from db)
        (sort_key e_id (filter (points_to (lookup_id_by_fqdn db fqdn) fqdn) (t_edges db))))"

record FileInfo =
  fio_path :: string
  fio_content_hash :: string
  fio_language :: Language
  fio_last_scanned_ms :: int
  fio_byte_size :: int
  fio_last_scan_error :: "string option"

definition file_info :: "db \<Rightarrow> string \<Rightarrow> FileInfo option result" where
  "file_info db path =
    transpose_opt (\<lambda>r. ebind (language_from_sql_text (f_language r)) (\<lambda>language.
      Inr \<lparr> fio_path = f_path r, fio_content_hash = f_content_hash r, fio_language = language,
            fio_last_scanned_ms = f_last_scanned r, fio_byte_size = f_byte_size r,
            fio_last_scan_error = f_last_scan_error r \<rparr>)) (lookup_by f_path path (t_files db))"

text \<open>\<^verbatim>\<open>rev.max(0) as u64\<close> of an \<^verbatim>\<open>i64\<close> column\<close>

definition last_modified_revisions_for_fqdns :: "db \<Rightarrow> string list \<Rightarrow> (string \<rightharpoonup> 64 word)" where
  "last_modified_revisions_for_fqdns db fqdns =
    (if fqdns = [] then Map.empty
     else map_of (rev (map (\<lambda>r. (s_fqdn r, word_of_int (max (s_last_modified_revision r) 0)))
       (filter (\<lambda>r. s_workspace_id r = PRIMARY_WORKSPACE_ID \<and> s_fqdn r \<in> set fqdns) (t_symbols db)))))"

definition schema_version :: "db \<Rightarrow> 32 word result" where
  "schema_version db = fst (read_schema_version db)"

section \<open>What is stored is what is read\<close>

lemma position_roundtrip [simp]: "position_to_u32 (uint (w :: 32 word)) = Inr w"
  using unsigned_less[of w, where ?'a=int] by (simp add: position_to_u32_def)

text \<open>What is relied on of the JSON encoder: decoding inverts encoding, on the values of a symbol.\<close>

definition codec_reads :: "codec \<Rightarrow> RawSymbol \<Rightarrow> bool" where
  "codec_reads K s \<longleftrightarrow>
     (case rs_signature s of None \<Rightarrow> True | Some sg \<Rightarrow> sig_from_json K (sig_to_json K sg) = Some sg) \<and>
     strs_from_json K (strs_to_json K (rs_flags s)) = Some (rs_flags s)"

text \<open>
  A symbol as the providers build it: its location is in the file it is stored for, a body digest has
  32 bytes, the display of its receiver type is normalised (the only constructor does so).
\<close>

definition readable_symbol :: "RawSymbol \<Rightarrow> string \<Rightarrow> bool" where
  "readable_symbol s path \<longleftrightarrow> loc_file (rs_location s) = path \<and>
     (case rs_body_hash s of None \<Rightarrow> True | Some h \<Rightarrow> wf_hash h) \<and>
     (case rs_receiver_type s of None \<Rightarrow> True | Some t \<Rightarrow> normalize_display (type_display t) = type_display t)"

lemma build_symbol_row:
  assumes K: "codec_reads K s" and s: "readable_symbol s (ctx_file_path ctx)"
    and sg: "opt_signature_json K (rs_signature s) = Inr j"
  shows "build_symbol K ((symbol_row K s ctx j)\<lparr>s_id := i\<rparr>) = Inr (s\<lparr>rs_attributes := []\<rparr>)"
proof -
  have sig: "transpose_opt (json_to_signature K) j = Inr (rs_signature s)"
    using sg K by (auto simp: opt_signature_json_def signature_to_json_def json_to_signature_def codec_reads_def
        split: option.splits sum.splits)
  have hash: "transpose_opt body_hash_from_hex (map_option to_hex (rs_body_hash s)) = Inr (rs_body_hash s)"
    using s from_hex_to_hex by (auto simp: readable_symbol_def body_hash_from_hex_def split: option.splits)
  have decl: "transpose_opt decl_kind_from_sql_text (map_option decl_kind_to_sql_text (rs_decl_kind s)) = Inr (rs_decl_kind s)"
    "transpose_opt entry_point_from_sql_text (map_option entry_point_to_sql_text (rs_entry_point s)) = Inr (rs_entry_point s)"
    by (cases "rs_decl_kind s", simp_all, cases "rs_entry_point s", simp_all)
  have recv: "map_option type_ref_new (map_option type_display (rs_receiver_type s)) = rs_receiver_type s"
    using s by (cases "rs_receiver_type s") (auto simp: readable_symbol_def type_ref_new_def)
  have flags: "parse_flags_json K (strs_to_json K (rs_flags s)) = rs_flags s"
    using K by (simp add: parse_flags_json_def codec_reads_def)
  have loc: "\<lparr> loc_file = ctx_file_path ctx, loc_start_line = loc_start_line (rs_location s), loc_end_line = loc_end_line (rs_location s),
      loc_start_col = loc_start_col (rs_location s), loc_end_col = loc_end_col (rs_location s) \<rparr> = rs_location s"
    using s by (simp add: readable_symbol_def)
  show ?thesis
    by (simp add: build_symbol_def symbol_row_def sig hash decl recv flags loc)
qed

text \<open>
  Whatever the extraction says about a symbol can be read back: after \<^verbatim>\<open>insert_symbol\<close> the lookup by
  name in the workspace of the insertion returns the symbol itself, with the attributes left out, which
  the schema does not store.
\<close>

theorem inserted_symbol_is_found:
  assumes run: "insert_symbol K s ctx db = (Inr i, db')"
    and K: "codec_reads K s" and readable: "readable_symbol s (ctx_file_path ctx)"
  shows "symbol_by_fqdn_in_workspace K db' (rs_fqdn s) (ctx_workspace_id ctx) = Inr (Some (s\<lparr>rs_attributes := []\<rparr>))"
proof -
  obtain j where j: "opt_signature_json K (rs_signature s) = Inr j"
      "sql_upsert_symbol (symbol_row K s ctx j) db = (Inr i, db')"
    using run unfolding insert_symbol_def by (auto elim!: sbind_InrE simp: sx_apply)
  let ?new = "(symbol_row K s ctx j)\<lparr>s_id := sym_seq db + 1\<rparr>"
  have tab: "t_symbols db' = upsert_by sym_key merge_symbol ?new (t_symbols db)"
    using j(2) by (auto simp: sql_upsert_symbol_def Let_def split: if_splits)
  obtain k where "lookup_by sym_key (sym_key ?new) (t_symbols db') = Some ((symbol_row K s ctx j)\<lparr>s_id := k\<rparr>)"
    unfolding tab symbols_tab.lookup_upsert_same
    by (cases "lookup_by sym_key (sym_key ?new) (t_symbols db)") (auto simp: merge_symbol_def)
  moreover have "sym_key ?new = (ctx_workspace_id ctx, rs_fqdn s)" by (simp add: sym_key_def symbol_row_def)
  moreover have "(\<lambda>r. s_workspace_id r = w \<and> s_fqdn r = f) = (\<lambda>r. sym_key r = (w, f))" for w f
    by (auto simp: sym_key_def)
  ultimately show ?thesis
    using build_symbol_row[OF K readable j(1)] by (simp add: symbol_by_fqdn_in_workspace_def lookup_by_def)
qed

theorem inserted_symbol_is_found_witness:
  "\<exists>i db'. insert_symbol demo_codec (demo_symbol ''h'') demo_ctx demo_db = (Inr i, db') \<and>
    symbol_by_fqdn_in_workspace demo_codec db' ''h'' ''primary'' = Inr (Some (demo_symbol ''h''))"
proof -
  obtain i db' where run: "insert_symbol demo_codec (demo_symbol ''h'') demo_ctx demo_db = (Inr i, db')"
    by (simp add: insert_symbol_eq demo_ctx_def demo_symbol_def demo_file_def opt_signature_json_def I64_MAX_def)
  have "codec_reads demo_codec (demo_symbol ''h'')" "readable_symbol (demo_symbol ''h'') (ctx_file_path demo_ctx)"
    by (simp_all add: codec_reads_def readable_symbol_def demo_codec_def demo_symbol_def demo_ctx_def)
  from inserted_symbol_is_found[OF run this] run show ?thesis
    by (auto simp: demo_symbol_def demo_ctx_def)
qed

end
