(* ===== verification/Query_List.thy ===== *)
theory Query_List
  imports Query_Rows
begin

text \<open>
  The searches of \<^verbatim>\<open>query.rs\<close>: filtered listings with a cursor, glob patterns as SQLite evaluates them,
  text search with its sanitised query, similarity ranking, the symbol at a position, and the test
  heuristics.  The full-text engine (which rows match, in which order) and the similarity score are
  arguments.
\<close>

section \<open>Filters\<close>

record SymbolFilter =
  sf_kind :: "Kind option"
  sf_visibility :: "Visibility option"
  sf_module :: "string option"
  sf_include_external :: bool
  sf_workspace_id :: "string option"

definition symbol_filter_default :: SymbolFilter where
  "symbol_filter_default = \<lparr> sf_kind = None, sf_visibility = None, sf_module = None, sf_include_external = True,
     sf_workspace_id = None \<rparr>"

definition effective_workspace_id :: "SymbolFilter \<Rightarrow> string" where
  "effective_workspace_id f = (case sf_workspace_id f of None \<Rightarrow> PRIMARY_WORKSPACE_ID | Some w \<Rightarrow> w)"

text \<open>The \<^verbatim>\<open>WHERE\<close> clause on the shape of a symbol, without the workspace.\<close>

definition shape_matches :: "SymbolFilter \<Rightarrow> sym_row \<Rightarrow> bool" where
  "shape_matches f r \<longleftrightarrow>
     (case sf_kind f of None \<Rightarrow> True | Some k \<Rightarrow> s_kind r = kind_to_sql_text k) \<and>
     (case sf_visibility f of None \<Rightarrow> True | Some v \<Rightarrow> s_visibility r = visibility_to_sql_text v) \<and>
     (case sf_module f of None \<Rightarrow> True | Some m \<Rightarrow> s_module r = Some m) \<and>
     (sf_include_external f \<or> \<not> s_is_external r)"

definition filter_matches :: "SymbolFilter \<Rightarrow> sym_row \<Rightarrow> bool" where
  "filter_matches f r \<longleftrightarrow> shape_matches f r \<and> s_workspace_id r = effective_workspace_id f"

section \<open>Listing\<close>

record ListSymbolsPage =
  lsp_items :: "RawSymbol list"
  lsp_next_cursor :: "string option"

definition after_cursor :: "string option \<Rightarrow> sym_row \<Rightarrow> bool" where
  "after_cursor cursor r = (case cursor of None \<Rightarrow> True | Some c \<Rightarrow> c < s_fqdn r)"

definition list_symbols :: "codec \<Rightarrow> db \<Rightarrow> SymbolFilter \<Rightarrow> nat \<Rightarrow> string option \<Rightarrow> ListSymbolsPage result" where
  "list_symbols K db f limit cursor =
    ebind (collect_ok (build_symbol K) (take (limit_i64 limit)
        (sort_key s_fqdn (filter (\<lambda>r. filter_matches f r \<and> after_cursor cursor r) (t_symbols db))))) (\<lambda>items.
    Inr \<lparr> lsp_items = items,
          lsp_next_cursor = (if length items = limit \<and> items \<noteq> [] then Some (rs_fqdn (last items)) else None) \<rparr>)"

section \<open>Test heuristics\<close>

definition str_contains :: "string \<Rightarrow> string \<Rightarrow> bool" where
  "str_contains needle s = sublist needle s"

definition fqdn_looks_like_test :: "string \<Rightarrow> bool" where
  "fqdn_looks_like_test fqdn \<longleftrightarrow>
     str_contains ''::tests::'' fqdn \<or> str_contains ''::test::'' fqdn \<or> suffix ''::tests'' fqdn \<or> suffix ''::test'' fqdn \<or>
     suffix ''_test'' fqdn \<or> suffix ''_tests'' fqdn \<or> suffix ''.test'' fqdn \<or> suffix ''.spec'' fqdn"

definition slashed :: "string \<Rightarrow> string" where
  "slashed = map (\<lambda>c. if c = CHR 0x5C then CHR ''/'' else c)"

definition file_path_looks_like_test :: "string \<Rightarrow> bool" where
  "file_path_looks_like_test file = (let norm = slashed file in
     str_contains ''/tests/'' norm \<or> str_contains ''/test/'' norm \<or> str_contains ''/__tests__/'' norm \<or>
     suffix ''_test.rs'' norm \<or> suffix ''_tests.rs'' norm \<or>
     suffix ''.test.ts'' norm \<or> suffix ''.test.tsx'' norm \<or> suffix ''.test.js'' norm \<or> suffix ''.test.jsx'' norm \<or>
     suffix ''.spec.ts'' norm \<or> suffix ''.spec.tsx'' norm \<or> suffix ''.spec.js'' norm \<or> suffix ''.spec.jsx'' norm)"

definition symbol_looks_like_test :: "RawSymbol \<Rightarrow> bool" where
  "symbol_looks_like_test s \<longleftrightarrow> fqdn_looks_like_test (rs_fqdn s) \<or> file_path_looks_like_test (loc_file (rs_location s))"

record ListSymbol =
  ls_symbol :: RawSymbol
  ls_project_id :: "32 word option"
  ls_is_test :: bool

text \<open>\<^verbatim>\<open>row.get::<_, Option<u32>>\<close> of an integer column\<close>

definition column_u32 :: "int \<Rightarrow> 32 word result" where
  "column_u32 v = (if 0 \<le> v \<and> v < 2 ^ 32 then Inr (word_of_int v) else Inl (Sqlite IntegralOutOfRange))"

definition project_by_path :: "db \<Rightarrow> string list \<Rightarrow> (string \<times> 32 word option) list result" where
  "project_by_path db paths =
    collect_ok (\<lambda>r. ebind (transpose_opt column_u32 (f_project_id r)) (\<lambda>p. Inr (f_path r, p)))
      (filter (\<lambda>r. f_path r \<in> set paths) (t_files db))"

definition list_symbols_projected ::
  "codec \<Rightarrow> db \<Rightarrow> SymbolFilter \<Rightarrow> nat \<Rightarrow> string option \<Rightarrow> (ListSymbol list \<times> string option) result" where
  "list_symbols_projected K db f limit cursor =
    ebind (list_symbols K db f limit cursor) (\<lambda>page.
    if lsp_items page = [] then Inr ([], lsp_next_cursor page)
    else ebind (project_by_path db (map (loc_file \<circ> rs_location) (lsp_items page))) (\<lambda>projects.
      Inr (map (\<lambda>s. \<lparr> ls_symbol = s,
                      ls_project_id = Option.bind (map_of (rev projects) (loc_file (rs_location s))) id,
                      ls_is_test = symbol_looks_like_test s \<rparr>) (lsp_items page), lsp_next_cursor page)))"

section \<open>Pagination\<close>

text \<open>The rows a filter selects, in the order of the listing.\<close>

definition listed :: "db \<Rightarrow> SymbolFilter \<Rightarrow> sym_row list" where
  "listed db f = sort_key s_fqdn (filter (filter_matches f) (t_symbols db))"

text \<open>A client that follows the cursors, with a bound on the number of pages.\<close>

fun walk_pages :: "nat \<Rightarrow> codec \<Rightarrow> db \<Rightarrow> SymbolFilter \<Rightarrow> nat \<Rightarrow> string option \<Rightarrow> RawSymbol list option result" where
  "walk_pages 0 K db f limit cursor = Inr None"
| "walk_pages (Suc n) K db f limit cursor =
    ebind (list_symbols K db f limit cursor) (\<lambda>page.
    case lsp_next_cursor page of
      None \<Rightarrow> Inr (Some (lsp_items page))
    | Some c \<Rightarrow> ebind (walk_pages n K db f limit (Some c)) (\<lambda>rest.
        Inr (map_option (\<lambda>items. lsp_items page @ items) rest)))"

lemma keyset_rest:
  fixes key :: "'a \<Rightarrow> 'k :: linorder"
  assumes "sorted_wrt (<) (map key (past @ rest))" "past \<noteq> []"
  shows "filter (\<lambda>r. key (last past) < key r) (past @ rest) = rest"
proof -
  have ms: "sorted_wrt (<) (map key past @ map key rest)" using assms(1) by simp
  have "key x < key y" if "x \<in> set past" "y \<in> set rest" for x y
    using that ms by (auto simp: sorted_wrt_append)
  then have "filter (\<lambda>r. key (last past) < key r) rest = rest"
    using assms(2) by (intro filter_True) auto
  moreover have "key x \<le> key (last past)" if "x \<in> set past" for x
  proof -
    have "sorted_wrt (<) (map key (butlast past) @ [key (last past)])"
      using ms assms(2) by (metis append_butlast_last_id list.simps(8,9) map_append sorted_wrt_append)
    then have "x \<in> set (butlast past) \<Longrightarrow> key x < key (last past)" by (auto simp: sorted_wrt_append)
    then show ?thesis using that assms(2) by (metis append_butlast_last_id in_set_conv_decomp less_imp_le order_refl set_ConsD rotate1.simps(2) set_rotate1)
  qed
  then have "filter (\<lambda>r. key (last past) < key r) past = []" by (auto simp: filter_empty_conv not_less)
  ultimately show ?thesis by simp
qed

lemma strict_sort:
  fixes key :: "'a \<Rightarrow> 'k :: linorder"
  shows "distinct (map key xs) \<Longrightarrow> sorted_wrt (<) (map key (sort_key key xs))"
  using sorted_sort_key[of key xs] by (simp add: strict_sorted_iff distinct_map inj_on_def)

lemma listed_strict:
  assumes "db_ok db"
  shows "sorted_wrt (<) (map s_fqdn (listed db f))"
proof -
  have "distinct (map sym_key (filter (filter_matches f) (t_symbols db)))"
    using db_ok_subD(3)[OF assms] by (auto simp: ok_symbols_def intro: distinct_map_filter)
  then have "distinct (map s_fqdn (filter (filter_matches f) (t_symbols db)))"
    by (auto simp: distinct_map inj_on_def filter_matches_def sym_key_def)
  then show ?thesis unfolding listed_def by (rule strict_sort)
qed

lemma page_rows:
  assumes ok: "db_ok db" and split: "listed db f = past @ rest"
    and cursor: "if past = [] then cursor = None else cursor = Some (s_fqdn (last past))"
  shows "sort_key s_fqdn (filter (\<lambda>r. filter_matches f r \<and> after_cursor cursor r) (t_symbols db)) = rest"
proof -
  have "filter (\<lambda>r. filter_matches f r \<and> after_cursor cursor r) (t_symbols db) =
      filter (after_cursor cursor) (filter (filter_matches f) (t_symbols db))"
    by (simp add: conj_commute)
  then have "sort_key s_fqdn (filter (\<lambda>r. filter_matches f r \<and> after_cursor cursor r) (t_symbols db)) =
      filter (after_cursor cursor) (listed db f)"
    by (simp add: listed_def filter_sort)
  also have "\<dots> = rest"
  proof (cases "past = []")
    case True
    then show ?thesis using cursor split by (simp add: after_cursor_def)
  next
    case False
    then have "after_cursor cursor = (\<lambda>r. s_fqdn (last past) < s_fqdn r)" using cursor by (auto simp: after_cursor_def)
    then show ?thesis using keyset_rest[of s_fqdn past rest] listed_strict[OF ok, of f] False unfolding split by simp
  qed
  finally show ?thesis .
qed

lemma build_symbol_fqdn: "build_symbol K r = Inr s \<Longrightarrow> rs_fqdn s = s_fqdn r"
  by (auto simp: build_symbol_def ebind_Inr)

lemma list_all2_lastD: "list_all2 Q xs ys \<Longrightarrow> xs \<noteq> [] \<Longrightarrow> Q (last xs) (last ys)"
  by (induction rule: list_all2_induct) auto

lemma walk_from:
  assumes ok: "db_ok db" and lim: "0 < limit" "limit \<le> nat I64_MAX"
    and "listed db f = past @ rest" and "if past = [] then cursor = None else cursor = Some (s_fqdn (last past))"
    and "collect_ok (build_symbol K) rest = Inr items" and "length rest < n"
  shows "walk_pages n K db f limit cursor = Inr (Some items)"
  using assms(4-)
proof (induction n arbitrary: past rest cursor items)
  case (Suc n)
  let ?page = "take limit rest"
  have l: "limit_i64 limit = limit" using lim(2) by (simp add: limit_i64_def)
  have "list_all2 (\<lambda>x y. build_symbol K x = Inr y) (take limit rest @ drop limit rest) (take limit items @ drop limit items)"
    using Suc.prems(3) by (simp add: collect_ok_Inr)
  moreover have len: "length items = length rest" using Suc.prems(3) by (auto simp: collect_ok_Inr list_all2_lengthD)
  ultimately have b: "collect_ok (build_symbol K) ?page = Inr (take limit items)"
      "collect_ok (build_symbol K) (drop limit rest) = Inr (drop limit items)"
    by (auto simp: collect_ok_Inr list_all2_append)
  have page: "list_symbols K db f limit cursor = Inr \<lparr> lsp_items = take limit items,
      lsp_next_cursor = (if limit \<le> length items then Some (rs_fqdn (last (take limit items))) else None) \<rparr>"
    unfolding list_symbols_def page_rows[OF ok Suc.prems(1,2)] l b(1) using lim(1) by auto
  show ?case
  proof (cases "limit \<le> length rest")
    case False
    then show ?thesis using page len by simp
  next
    case True
    then have ne: "take limit rest \<noteq> []" "take limit items \<noteq> []" using lim(1) len by auto
    have "build_symbol K (last (take limit rest)) = Inr (last (take limit items))"
      using list_all2_lastD[OF b(1)[unfolded collect_ok_Inr] ne(1)] .
    then have c: "rs_fqdn (last (take limit items)) = s_fqdn (last (past @ take limit rest))"
      using ne(1) build_symbol_fqdn by simp
    have "walk_pages n K db f limit (Some (s_fqdn (last (past @ take limit rest)))) = Inr (Some (drop limit items))"
      using Suc.prems(1,4) ne(1) b(2) lim(1) True
      by (intro Suc.IH[of "past @ take limit rest" "drop limit rest"]) auto
    then show ?thesis using page True len c by simp
  qed
qed simp

text \<open>
  C18. Following the cursors of \<^verbatim>\<open>list_symbols\<close> visits every symbol the filter selects exactly once, in the
  order of the names, and comes to an end: with any page size from 1 to \<^verbatim>\<open>i64::MAX\<close> the concatenation of
  the pages is the whole sorted listing.
\<close>

theorem pages_cover_listing:
  assumes "db_ok db" and "0 < limit" "limit \<le> nat I64_MAX"
    and "collect_ok (build_symbol K) (listed db f) = Inr items" and "length (listed db f) < n"
  shows "walk_pages n K db f limit None = Inr (Some items)"
  using walk_from[OF assms(1-3), of f "[]" "listed db f" None K items n] assms(4,5) by simp

text \<open>Two symbols, one per page.\<close>

theorem pages_cover_listing_witness:
  "walk_pages 3 demo_codec demo_db symbol_filter_default 1 None = Inr (Some [demo_symbol ''f'', demo_symbol ''g''])"
proof -
  have l: "listed demo_db symbol_filter_default = [demo_row 1 ''f'', demo_row 2 ''g'']"
    by (simp add: listed_def filter_matches_def shape_matches_def symbol_filter_default_def effective_workspace_id_def
        PRIMARY_WORKSPACE_ID_def)
  have "codec_reads demo_codec (demo_symbol x)" "readable_symbol (demo_symbol x) (ctx_file_path demo_ctx)"
    "opt_signature_json demo_codec (rs_signature (demo_symbol x)) = Inr None" for x
    by (simp_all add: codec_reads_def readable_symbol_def demo_codec_def demo_symbol_def demo_ctx_def opt_signature_json_def)
  then have "build_symbol demo_codec (demo_row i x) = Inr (demo_symbol x)" for i x
    using build_symbol_row[of demo_codec "demo_symbol x" demo_ctx None i] by (simp add: demo_row_def) (simp add: demo_symbol_def)
  then show ?thesis
    using pages_cover_listing[of demo_db 1 demo_codec symbol_filter_default "[demo_symbol ''f'', demo_symbol ''g'']" 3]
    by (simp add: l I64_MAX_def)
qed

section \<open>The symbol at a position\<close>

definition contains_position :: "32 word \<Rightarrow> 32 word \<Rightarrow> sym_row \<Rightarrow> bool" where
  "contains_position line col r \<longleftrightarrow>
     s_start_line r \<le> line \<and> line \<le> s_end_line r \<and>
     (s_start_line r < line \<or> s_start_col r \<le> col) \<and> (line < s_end_line r \<or> col \<le> s_end_col r)"

definition range_size :: "sym_row \<Rightarrow> int" where
  "range_size r = (uint (s_end_line r) - uint (s_start_line r)) * 1000 + (uint (s_end_col r) - uint (s_start_col r))"

definition symbol_at_position :: "codec \<Rightarrow> db \<Rightarrow> string \<Rightarrow> 32 word \<Rightarrow> 32 word \<Rightarrow> RawSymbol option result" where
  "symbol_at_position K db file_path line col =
    transpose_opt (build_symbol K)
      (case sort_key range_size (filter (\<lambda>r. s_file_path r = file_path \<and> contains_position line col r) (t_symbols db)) of
         [] \<Rightarrow> None | r # _ \<Rightarrow> Some r)"

text \<open>One range inside another, by position in the text.\<close>

definition before_eq :: "32 word \<Rightarrow> 32 word \<Rightarrow> 32 word \<Rightarrow> 32 word \<Rightarrow> bool" where
  "before_eq l1 c1 l2 c2 \<longleftrightarrow> l1 < l2 \<or> l1 = l2 \<and> c1 \<le> c2"

definition inside :: "sym_row \<Rightarrow> sym_row \<Rightarrow> bool" where
  "inside q r \<longleftrightarrow> before_eq (s_start_line r) (s_start_col r) (s_start_line q) (s_start_col q) \<and>
     before_eq (s_end_line q) (s_end_col q) (s_end_line r) (s_end_col r) \<and>
     (s_start_line q, s_start_col q, s_end_line q, s_end_col q) \<noteq> (s_start_line r, s_start_col r, s_end_line r, s_end_col r)"

definition narrow :: "sym_row \<Rightarrow> bool" where
  "narrow r \<longleftrightarrow> s_start_col r < 500 \<and> s_end_col r < 500"

lemma inside_smaller:
  assumes "inside q r" "narrow q" "narrow r"
  shows "range_size q < range_size r"
proof -
  have cols: "uint (s_start_col x) < 500" "uint (s_end_col x) < 500" "0 \<le> uint (s_start_col x)" "0 \<le> uint (s_end_col x)"
    if "narrow x" for x using that by (auto simp: narrow_def word_less_def)
  note c = cols[OF assms(2)] cols[OF assms(3)]
  have le: "uint (s_start_line r) \<le> uint (s_start_line q)" "uint (s_end_line q) \<le> uint (s_end_line r)"
    using assms(1) by (auto simp: inside_def before_eq_def word_less_def)
  show ?thesis
  proof (cases "uint (s_start_line r) = uint (s_start_line q) \<and> uint (s_end_line q) = uint (s_end_line r)")
    case True
    then have "s_start_line r = s_start_line q" "s_end_line q = s_end_line r" by (auto simp: word_uint_eq_iff)
    then have "s_start_col r \<le> s_start_col q" "s_end_col q \<le> s_end_col r" "s_start_col r \<noteq> s_start_col q \<or> s_end_col q \<noteq> s_end_col r"
      using assms(1) by (auto simp: inside_def before_eq_def)
    then have "uint (s_start_col r) \<le> uint (s_start_col q)" "uint (s_end_col q) \<le> uint (s_end_col r)"
      "uint (s_start_col r) \<noteq> uint (s_start_col q) \<or> uint (s_end_col q) \<noteq> uint (s_end_col r)"
      by (auto simp: word_le_def word_uint_eq_iff)
    then show ?thesis using True by (auto simp: range_size_def)
  next
    case False
    then have "uint (s_end_line q) - uint (s_start_line q) + 1 \<le> uint (s_end_line r) - uint (s_start_line r)"
      using le by linarith
    moreover have "x * 1000 + (b - a) < y * 1000 + (d - c)"
      if "x + 1 \<le> y" "b < 500" "0 \<le> a" "c < 500" "0 \<le> d" for x y a b c d :: int using that by linarith
    ultimately show ?thesis unfolding range_size_def using c by blast
  qed
qed

text \<open>
  The symbol under the cursor is the deepest one: \<^verbatim>\<open>symbol_at_position\<close> answers nothing exactly when no
  symbol of the file contains the position, and otherwise a symbol that contains it and has no other
  symbol strictly inside that contains it too, in files whose columns stay below 500.  (The query orders
  ranges by 1000 times the number of lines plus the difference of columns, so longer lines break the
  order.)
\<close>

theorem symbol_at_position_deepest:
  assumes "\<forall>r\<in>set (t_symbols db). s_file_path r = path \<longrightarrow> narrow r"
    and "symbol_at_position K db path line col = Inr answer"
  shows "case answer of
      None \<Rightarrow> \<not> (\<exists>r\<in>set (t_symbols db). s_file_path r = path \<and> contains_position line col r)
    | Some s \<Rightarrow> \<exists>r\<in>set (t_symbols db). build_symbol K r = Inr s \<and> s_file_path r = path \<and> contains_position line col r \<and>
        \<not> (\<exists>q\<in>set (t_symbols db). s_file_path q = path \<and> contains_position line col q \<and> inside q r)"
proof -
  let ?rows = "filter (\<lambda>r. s_file_path r = path \<and> contains_position line col r) (t_symbols db)"
  have set: "set (sort_key range_size ?rows) = set ?rows" by simp
  show ?thesis
  proof (cases "sort_key range_size ?rows")
    case Nil
    then have "?rows = []" using set by (metis set_empty)
    then show ?thesis using assms(2) Nil by (auto simp: symbol_at_position_def filter_empty_conv)
  next
    case (Cons r rs)
    obtain s where s: "answer = Some s" "build_symbol K r = Inr s"
      using assms(2) Cons by (auto simp: symbol_at_position_def ebind_Inr)
    have r: "r \<in> set (t_symbols db)" "s_file_path r = path" "contains_position line col r"
      using set unfolding Cons by auto
    have "sorted (map range_size (r # rs))" using sorted_sort_key[of range_size ?rows] unfolding Cons by simp
    then have least: "range_size r \<le> range_size q" if "q \<in> set ?rows" for q
      using that set unfolding Cons by auto
    have "\<not> inside q r" if "q \<in> set (t_symbols db)" "s_file_path q = path" "contains_position line col q" for q
      using that r(1,2) least[of q] inside_smaller[of q r] assms(1) by force
    then show ?thesis using s r by auto
  qed
qed

text \<open>A function inside a module: the position is in both.\<close>

definition demo_nested_db :: db where
  "demo_nested_db = demo_db\<lparr>t_symbols := [(demo_row 1 ''m'')\<lparr>s_start_line := 1, s_end_line := 9, s_start_col := 0, s_end_col := 1\<rparr>,
     (demo_row 2 ''m::f'')\<lparr>s_start_line := 2, s_end_line := 4, s_start_col := 4, s_end_col := 5\<rparr>]\<rparr>"

theorem symbol_at_position_deepest_witness:
  "\<exists>s r. symbol_at_position demo_codec demo_nested_db ''a.rs'' 3 0 = Inr (Some s) \<and> rs_fqdn s = ''m::f'' \<and>
     build_symbol demo_codec r = Inr s \<and>
     \<not> (\<exists>q\<in>set (t_symbols demo_nested_db). s_file_path q = ''a.rs'' \<and> contains_position 3 0 q \<and> inside q r)"
proof -
  have narrow: "\<forall>r\<in>set (t_symbols demo_nested_db). s_file_path r = p \<longrightarrow> narrow r" for p
    by (simp add: demo_nested_db_def narrow_def)
  have "\<exists>s. symbol_at_position demo_codec demo_nested_db ''a.rs'' 3 0 = Inr (Some s) \<and> rs_fqdn s = ''m::f''"
    by (simp add: symbol_at_position_def demo_nested_db_def contains_position_def range_size_def build_symbol_def
        demo_row_def symbol_row_def demo_symbol_def demo_ctx_def kind_from_sql_text_def visibility_from_sql_text_def
        position_to_u32_def)
  then obtain s where s: "symbol_at_position demo_codec demo_nested_db ''a.rs'' 3 0 = Inr (Some s)" "rs_fqdn s = ''m::f''" by blast
  then show ?thesis using symbol_at_position_deepest[OF narrow s(1)] by auto
qed

section \<open>Glob patterns\<close>

text \<open>
  SQLite reads patterns and texts as sequences of UTF-8 characters; a character is the string of its
  bytes, and the order of the byte strings is the order of the code points.
\<close>

function utf8_chars :: "string \<Rightarrow> string list" where
  "utf8_chars [] = []"
| "utf8_chars (c # cs) = (c # takeWhile utf8_continuation cs) # utf8_chars (dropWhile utf8_continuation cs)"
  by pat_completeness auto
termination by (relation "measure length") (auto simp: length_dropWhile_le le_imp_less_Suc)

text \<open>The items of a set, up to the closing bracket; \<^verbatim>\<open>prior\<close> is the possible start of a range.\<close>

function glob_items :: "string \<Rightarrow> string option \<Rightarrow> bool \<Rightarrow> string list \<Rightarrow> (bool \<times> string list) option" where
  "glob_items c prior seen [] = None"
| "glob_items c prior seen (p # ps) =
    (if p = '']'' then Some (seen, ps)
     else case (prior, ps) of
       (Some lo, hi # ps') \<Rightarrow>
         if p = ''-'' \<and> hi \<noteq> '']'' then glob_items c None (seen \<or> (lo \<le> c \<and> c \<le> hi)) ps'
         else glob_items c (Some p) (seen \<or> c = p) ps
     | _ \<Rightarrow> glob_items c (Some p) (seen \<or> c = p) ps)"
  by pat_completeness auto
termination by (relation "measure (\<lambda>(c, prior, seen, ps). length ps)") auto

declare glob_items.simps(2) [simp del]

definition glob_set :: "string \<Rightarrow> string list \<Rightarrow> (bool \<times> string list) option" where
  "glob_set c ps =
    (let (invert, ps) = (case ps of p # ps' \<Rightarrow> if p = ''^'' then (True, ps') else (False, ps) | [] \<Rightarrow> (False, ps));
         (seen, ps) = (case ps of p # ps' \<Rightarrow> if p = '']'' then (c = '']'', ps') else (False, ps) | [] \<Rightarrow> (False, ps))
     in map_option (\<lambda>(seen, rest). (seen \<noteq> invert, rest)) (glob_items c None seen ps))"

lemma glob_items_shorter: "glob_items c prior seen ps = Some (b, rest) \<Longrightarrow> length rest < length ps"
proof (induction "length ps" arbitrary: prior seen ps rule: less_induct)
  case less
  show ?case
  proof (cases ps)
    case (Cons p ps')
    have "length rest < length ps'" if "glob_items c pr se qs = Some (b, rest)" "qs = ps' \<or> qs = tl ps' \<and> ps' \<noteq> []" for pr se qs
      using less.hyps[of qs pr se] that Cons by (cases ps') auto
    then show ?thesis
      using less.prems unfolding Cons glob_items.simps(2)
      by (auto split: if_splits option.splits list.splits intro: less_SucI)
  qed (use less.prems in simp)
qed

lemma glob_set_shorter: "glob_set c ps = Some (b, rest) \<Longrightarrow> length rest < length ps"
  by (fastforce simp: glob_set_def Let_def split: list.splits if_splits prod.splits dest: glob_items_shorter)

function glob_match :: "string list \<Rightarrow> string list \<Rightarrow> bool" where
  "glob_match [] t \<longleftrightarrow> t = []"
| "glob_match (p # ps) t \<longleftrightarrow>
    (if p = ''*'' then glob_match ps t \<or> (case t of [] \<Rightarrow> False | _ # t' \<Rightarrow> glob_match (p # ps) t')
     else case t of
       [] \<Rightarrow> False
     | c # t' \<Rightarrow>
         if p = ''['' then (case glob_set c ps of None \<Rightarrow> False | Some (hit, rest) \<Rightarrow> hit \<and> glob_match rest t')
         else (p = ''?'' \<or> p = c) \<and> glob_match ps t')"
  by pat_completeness auto
termination
  by (relation "measure (\<lambda>(ps, t). length ps + length t)") (auto dest: glob_set_shorter)

declare glob_match.simps(2) [simp del]

definition sql_glob :: "string \<Rightarrow> string \<Rightarrow> bool" where
  "sql_glob pattern t = glob_match (utf8_chars pattern) (utf8_chars t)"

definition find_by_pattern :: "codec \<Rightarrow> db \<Rightarrow> string \<Rightarrow> SymbolFilter \<Rightarrow> nat \<Rightarrow> RawSymbol list result" where
  "find_by_pattern K db pattern f limit =
    collect_ok (build_symbol K) (take (limit_i64 limit) (sort_key s_fqdn
      (filter (\<lambda>r. (sql_glob pattern (s_name r) \<or> sql_glob pattern (s_fqdn r)) \<and> filter_matches f r) (t_symbols db))))"

definition plain_chars :: "string list \<Rightarrow> bool" where
  "plain_chars ps \<longleftrightarrow> ''*'' \<notin> set ps \<and> ''?'' \<notin> set ps \<and> ''['' \<notin> set ps"

lemma glob_plain: "plain_chars ps \<Longrightarrow> glob_match (ps @ qs) t \<longleftrightarrow> (\<exists>t'. t = ps @ t' \<and> glob_match qs t')"
proof (induction ps arbitrary: t)
  case (Cons p ps)
  then show ?case by (cases t) (auto simp: plain_chars_def glob_match.simps(2))
qed simp

lemma glob_star: "glob_match (''*'' # qs) t \<longleftrightarrow> (\<exists>u v. t = u @ v \<and> glob_match qs v)"
proof (induction t)
  case Nil
  then show ?case by (simp add: glob_match.simps(2))
next
  case (Cons c t)
  have "glob_match (''*'' # qs) (c # t) \<longleftrightarrow> glob_match qs (c # t) \<or> (\<exists>u v. t = u @ v \<and> glob_match qs v)"
    using Cons by (subst glob_match.simps(2)) simp
  also have "\<dots> \<longleftrightarrow> (\<exists>u v. c # t = u @ v \<and> glob_match qs v)"
    by (auto simp: Cons_eq_append_conv)
  finally show ?case .
qed

text \<open>A pattern without metacharacters between stars finds the texts that contain it.\<close>

lemma glob_contains:
  assumes "plain_chars ps"
  shows "glob_match (''*'' # ps @ [''*'']) t \<longleftrightarrow> sublist ps t"
proof -
  have "glob_match [''*''] v" for v using glob_star[of "[]" v] by auto
  then show ?thesis unfolding glob_star glob_plain[OF assms] by (auto simp: sublist_def)
qed

section \<open>Similarity\<close>

text \<open>
  \<^verbatim>\<open>query/similarity.rs\<close>: the tokens of an identifier.  \<^verbatim>\<open>alnum\<close> and \<^verbatim>\<open>lower\<close> are \<^verbatim>\<open>char::is_alphanumeric\<close> and
  \<^verbatim>\<open>char::to_lowercase\<close> on a character given by its bytes.
\<close>

definition ascii_in :: "nat \<Rightarrow> nat \<Rightarrow> string \<Rightarrow> bool" where
  "ascii_in lo hi c = (case c of [b] \<Rightarrow> lo \<le> (of_char b :: nat) \<and> (of_char b :: nat) \<le> hi | _ \<Rightarrow> False)"

abbreviation is_ascii_uppercase :: "string \<Rightarrow> bool" where "is_ascii_uppercase \<equiv> ascii_in 65 90"
abbreviation is_ascii_lowercase :: "string \<Rightarrow> bool" where "is_ascii_lowercase \<equiv> ascii_in 97 122"
abbreviation is_ascii_digit :: "string \<Rightarrow> bool" where "is_ascii_digit \<equiv> ascii_in 48 57"

definition is_ascii_alphabetic :: "string \<Rightarrow> bool" where
  "is_ascii_alphabetic c \<longleftrightarrow> is_ascii_uppercase c \<or> is_ascii_lowercase c"

definition push_if_nonempty :: "string list \<Rightarrow> string \<Rightarrow> string list" where
  "push_if_nonempty out cur = (if cur = [] then out else out @ [cur])"

definition boundary :: "string \<Rightarrow> string \<Rightarrow> bool" where
  "boundary p c \<longleftrightarrow>
     is_ascii_uppercase c \<and> (is_ascii_lowercase p \<or> is_ascii_digit p) \<or>
     is_ascii_alphabetic c \<and> is_ascii_digit p \<or>
     is_ascii_digit c \<and> is_ascii_alphabetic p"

fun tokenize_from ::
  "(string \<Rightarrow> bool) \<Rightarrow> (string \<Rightarrow> string) \<Rightarrow> string list \<Rightarrow> string list \<Rightarrow> string \<Rightarrow> string option \<Rightarrow> string list" where
  "tokenize_from alnum lower [] out cur prev = push_if_nonempty out cur"
| "tokenize_from alnum lower (c # cs) out cur prev =
    (if \<not> alnum c then tokenize_from alnum lower cs (push_if_nonempty out cur) [] (Some c)
     else if (case prev of None \<Rightarrow> False | Some p \<Rightarrow> boundary p c)
     then tokenize_from alnum lower cs (push_if_nonempty out cur) (lower c) (Some c)
     else tokenize_from alnum lower cs out (cur @ lower c) (Some c))"

definition tokenize :: "(string \<Rightarrow> bool) \<Rightarrow> (string \<Rightarrow> string) \<Rightarrow> string \<Rightarrow> string list" where
  "tokenize alnum lower s = tokenize_from alnum lower (utf8_chars s) [] [] None"

text \<open>Splitting loses no alphanumeric character: the tokens put together are the lowercased characters kept.\<close>

lemma concat_tokenize_from:
  "concat (tokenize_from alnum lower cs out cur prev) = concat out @ cur @ concat (map lower (filter alnum cs))"
  by (induction alnum lower cs out cur prev rule: tokenize_from.induct)
    (auto simp: push_if_nonempty_def)

lemma tokenize_nonempty:
  assumes "\<And>c. lower c \<noteq> []"
  shows "[] \<notin> set (tokenize alnum lower s)"
proof -
  have "[] \<notin> set out \<Longrightarrow> [] \<notin> set (tokenize_from alnum lower cs out cur prev)" for cs out cur prev
    by (induction alnum lower cs out cur prev rule: tokenize_from.induct) (auto simp: push_if_nonempty_def)
  then show ?thesis by (simp add: tokenize_def)
qed

text \<open>
  \<^verbatim>\<open>find_similar\<close>: \<^verbatim>\<open>score\<close> (an \<^verbatim>\<open>f32\<close> that is never NaN) and \<^verbatim>\<open>str::to_lowercase\<close> are arguments.  The sort is by
  descending score, then by name.
\<close>

definition find_similar ::
  "codec \<Rightarrow> (string \<Rightarrow> string \<Rightarrow> 'sc::linorder) \<Rightarrow> (string \<Rightarrow> string) \<Rightarrow> db \<Rightarrow> string \<Rightarrow> 'sc \<Rightarrow> SymbolFilter \<Rightarrow> nat
     \<Rightarrow> (RawSymbol \<times> 'sc) list result" where
  "find_similar K score to_lowercase db reference threshold f limit =
    ebind (collect_ok (build_symbol K) (filter (shape_matches f) (t_symbols db))) (\<lambda>symbols.
    let scored = List.map_filter (\<lambda>s. let sc = score reference (rs_name s) in if threshold \<le> sc then Some (s, sc) else None)
          (filter (\<lambda>s. to_lowercase (rs_name s) \<noteq> to_lowercase reference) symbols)
    in Inr (take limit (rev (sort_key snd (rev (sort_key (rs_fqdn \<circ> fst) scored))))))"

text \<open>The workspace of the filter plays no role in the search for similar names.\<close>

lemma find_similar_ignores_workspace:
  "find_similar K score lo db reference threshold (f\<lparr>sf_workspace_id := w\<rparr>) limit =
   find_similar K score lo db reference threshold f limit"
proof -
  have "shape_matches (f\<lparr>sf_workspace_id := w\<rparr>) = shape_matches f" by (auto simp: shape_matches_def)
  then show ?thesis by (simp add: find_similar_def)
qed

section \<open>Text search\<close>

fun sanitize_loop :: "(string \<Rightarrow> bool) \<Rightarrow> string list \<Rightarrow> string list \<Rightarrow> bool \<Rightarrow> string list" where
  "sanitize_loop alnum [] out last_was_space = out"
| "sanitize_loop alnum (c # cs) out last_was_space =
    (if alnum c \<or> c = ''_'' then sanitize_loop alnum cs (out @ [c]) False
     else if \<not> last_was_space then sanitize_loop alnum cs (out @ ['' '']) True
     else sanitize_loop alnum cs out last_was_space)"

text \<open>\<^verbatim>\<open>out.truncate(out.trim_end().len())\<close>: no kept character is white space, so only spaces are cut.\<close>

definition trim_end_spaces :: "string list \<Rightarrow> string list" where
  "trim_end_spaces cs = rev (dropWhile (\<lambda>c. c = '' '') (rev cs))"

definition sanitize_fts5_query :: "(string \<Rightarrow> bool) \<Rightarrow> string \<Rightarrow> string" where
  "sanitize_fts5_query alnum raw = concat (trim_end_spaces (sanitize_loop alnum (utf8_chars raw) [] True))"

definition quoted :: "string \<Rightarrow> string" where
  "quoted t = [CHR 0x22] @ t @ [CHR 0x22]"

definition or_fallback_expr :: "string \<Rightarrow> string option" where
  "or_fallback_expr sanitized =
    (let tokens = split_whitespace sanitized in
     if length tokens < 2 then None else Some (join_str '' OR '' (map quoted tokens)))"

text \<open>
  \<^verbatim>\<open>fts expr\<close> gives the row ids of the search index that match, in rank order.
\<close>

definition search_fetch :: "codec \<Rightarrow> (string \<Rightarrow> (int \<times> string \<times> string) list \<Rightarrow> int list) \<Rightarrow> db \<Rightarrow> SymbolFilter \<Rightarrow> nat \<Rightarrow> string \<Rightarrow> RawSymbol list result" where
  "search_fetch K fts db f limit expr =
    collect_ok (build_symbol K) (take (limit_i64 limit) (filter (filter_matches f)
      (List.map_filter (\<lambda>i. find (\<lambda>r. s_id r = i) (t_symbols db)) (fts expr (t_fts db)))))"

definition search_text ::
  "codec \<Rightarrow> (string \<Rightarrow> (int \<times> string \<times> string) list \<Rightarrow> int list) \<Rightarrow> (string \<Rightarrow> bool) \<Rightarrow> db \<Rightarrow> string \<Rightarrow> nat \<Rightarrow> SymbolFilter
     \<Rightarrow> RawSymbol list result" where
  "search_text K fts alnum db query limit f =
    (let sanitized = sanitize_fts5_query alnum query in
     if sanitized = [] then Inr []
     else ebind (search_fetch K fts db f limit sanitized) (\<lambda>primary.
       case (primary, or_fallback_expr sanitized) of
         ([], Some or_expr) \<Rightarrow> search_fetch K fts db f limit or_expr
       | _ \<Rightarrow> Inr primary))"

text \<open>A sanitised query: words of kept characters, with single spaces between them and none at the ends.\<close>

definition clean_query :: "(string \<Rightarrow> bool) \<Rightarrow> string list \<Rightarrow> bool" where
  "clean_query alnum cs \<longleftrightarrow> (\<forall>c\<in>set cs. alnum c \<or> c = ''_'' \<or> c = '' '') \<and>
     (cs \<noteq> [] \<longrightarrow> hd cs \<noteq> '' '') \<and> \<not> sublist ['' '', '' ''] cs"

lemma sanitize_loop_clean:
  assumes "clean_query alnum out" "last_was_space \<longleftrightarrow> out = [] \<or> last out = '' ''" "\<not> alnum '' ''"
  shows "clean_query alnum (sanitize_loop alnum cs out last_was_space)"
  using assms
proof (induction alnum cs out last_was_space rule: sanitize_loop.induct)
  case (2 alnum c cs out sp)
  have pair: "\<not> sublist ['' '', '' ''] (out @ [x])" if "x = '' '' \<Longrightarrow> out \<noteq> [] \<and> last out \<noteq> '' ''" for x
  proof
    assume "sublist ['' '', '' ''] (out @ [x])"
    then obtain ps ss where eq: "out @ [x] = ps @ ['' '', '' ''] @ ss" by (auto simp: sublist_def)
    show False
    proof (cases ss rule: rev_cases)
      case Nil
      then have "out = ps @ ['' '']" "x = '' ''" using eq by auto
      then show False using that by auto
    next
      case (snoc ss' y)
      then have "out = ps @ ['' '', '' ''] @ ss'" using eq by auto
      then show False using "2.prems"(1) by (auto simp: clean_query_def sublist_def)
    qed
  qed
  show ?case
  proof (cases "alnum c \<or> c = ''_''")
    case True
    then have "clean_query alnum (out @ [c])" using "2.prems" pair[of c] by (cases out) (auto simp: clean_query_def)
    moreover have "c \<noteq> '' ''" using True "2.prems"(3) by auto
    ultimately show ?thesis using "2.IH"(1) True "2.prems"(3) by simp
  next
    case False
    show ?thesis
    proof (cases sp)
      case True
      then show ?thesis using False "2.IH"(3) "2.prems" by simp
    next
      case sp: False
      then have "clean_query alnum (out @ ['' ''])" using "2.prems" pair[of "'' ''"] by (cases out) (auto simp: clean_query_def)
      then show ?thesis using False sp "2.IH"(2) "2.prems"(3) by simp
    qed
  qed
qed simp

text \<open>
  No operator of the full-text language survives: a sanitised query consists of words of kept
  characters (letters, digits, underscores) separated by single spaces, with no space at either end.
\<close>

theorem sanitized_query_clean:
  assumes "\<not> alnum '' ''"
  shows "\<exists>cs. sanitize_fts5_query alnum raw = concat cs \<and> clean_query alnum cs \<and> (cs \<noteq> [] \<longrightarrow> last cs \<noteq> '' '')"
proof -
  let ?out = "sanitize_loop alnum (utf8_chars raw) [] True"
  have c: "clean_query alnum ?out" by (rule sanitize_loop_clean) (auto simp: clean_query_def assms)
  obtain tail where t: "?out = trim_end_spaces ?out @ tail"
    unfolding trim_end_spaces_def by (metis rev_append rev_rev_ident takeWhile_dropWhile_id)
  have "clean_query alnum (trim_end_spaces ?out)"
    using c unfolding clean_query_def by (subst (asm) (1 2 3 4) t) (auto simp: sublist_append hd_append split: if_splits)
  moreover have "trim_end_spaces ?out \<noteq> [] \<longrightarrow> last (trim_end_spaces ?out) \<noteq> '' ''"
  proof
    assume "trim_end_spaces ?out \<noteq> []"
    then have "dropWhile (\<lambda>c. c = '' '') (rev ?out) \<noteq> []" by (simp add: trim_end_spaces_def)
    from hd_dropWhile[OF this] show "last (trim_end_spaces ?out) \<noteq> '' ''" by (simp add: trim_end_spaces_def last_rev)
  qed
  ultimately show ?thesis unfolding sanitize_fts5_query_def by blast
qed

theorem sanitized_query_clean_witness:
  "sanitize_fts5_query is_ascii_alphabetic ''-std-(cli)*'' = ''std cli'' \<and>
   (\<exists>cs. ''std cli'' = concat cs \<and> clean_query is_ascii_alphabetic cs \<and> (cs \<noteq> [] \<longrightarrow> last cs \<noteq> '' ''))"
proof -
  have run: "sanitize_fts5_query is_ascii_alphabetic ''-std-(cli)*'' = ''std cli''" by code_simp
  have "\<not> is_ascii_alphabetic '' ''" by code_simp
  from sanitized_query_clean[of is_ascii_alphabetic "''-std-(cli)*''", OF this] show ?thesis unfolding run by simp
qed

end
