(* ===== verification/Query_Graph.thy ===== *)
theory Query_Graph
  imports Query_List
begin

text \<open>
  The graph payload of the visualisation (\<^verbatim>\<open>query/graph.rs\<close>): the breadth-first expansion around a focal
  symbol and the bounded snapshot of the workspace.

  Hash sets that are only asked for membership are lists in order of insertion.  The queries of one
  request read one state of the database.
\<close>

section \<open>Data\<close>

definition FETCH_GRAPH_DEFAULT_DEPTH :: "8 word" where "FETCH_GRAPH_DEFAULT_DEPTH = 2"
definition FETCH_GRAPH_MAX_DEPTH :: "8 word" where "FETCH_GRAPH_MAX_DEPTH = 5"
definition FETCH_GRAPH_DEFAULT_MAX_NODES :: "32 word" where "FETCH_GRAPH_DEFAULT_MAX_NODES = 500"
definition FETCH_GRAPH_MAX_NODES_CAP :: "32 word" where "FETCH_GRAPH_MAX_NODES_CAP = 5000"
definition BOUNDED_LIST_PAGE :: nat where "BOUNDED_LIST_PAGE = 100"

record GraphRequest =
  gr_focal :: "string option"
  gr_depth :: "8 word"
  gr_kinds :: "EdgeKind list option"
  gr_max_nodes :: "32 word"
  gr_include_external :: bool

record GraphSymbol =
  gs_fqdn :: string
  gs_name :: string
  gs_kind :: Kind
  gs_visibility :: Visibility
  gs_module :: "string option"
  gs_language_kind :: string
  gs_is_external :: bool
  gs_is_test :: bool
  gs_file :: string
  gs_start_line :: "32 word"
  gs_project_id :: "32 word option"
  gs_decl_kind :: "DeclKind option"
  gs_implements_trait :: "string option"
  gs_receiver_type :: "string option"
  gs_entry_point :: "EntryPointKind option"

record GraphEdge =
  ge_from :: string
  ge_to :: string
  ge_kind :: EdgeKind
  ge_outbound :: bool

record GraphProject =
  gp_project_id :: "32 word"
  gp_label :: string
  gp_kind :: string
  gp_rel_path :: string

record GraphResponse =
  gre_symbols :: "GraphSymbol list"
  gre_edges :: "GraphEdge list"
  gre_projects :: "GraphProject list"
  gre_focal :: "string option"

section \<open>Helpers\<close>

definition kind_allowed :: "EdgeKind list option \<Rightarrow> EdgeKind \<Rightarrow> bool" where
  "kind_allowed allow kind = (case allow of None \<Rightarrow> True | Some ks \<Rightarrow> kind \<in> set ks)"

fun resolved_fqdn :: "ResolvedOrUnresolved \<Rightarrow> string option" where
  "resolved_fqdn (ResolvedOrUnresolved.Resolved fqdn) = Some fqdn"
| "resolved_fqdn (ResolvedOrUnresolved.Unresolved _) = None"
| "resolved_fqdn (ResolvedOrUnresolved.UnresolvedBridge _ _) = None"

text \<open>The variables of the traversal: \<^verbatim>\<open>visited\<close>, \<^verbatim>\<open>next_frontier\<close>, \<^verbatim>\<open>edges\<close>, \<^verbatim>\<open>seen_edges\<close>.\<close>

record traversal =
  tv_visited :: "string list"
  tv_next :: "string list"
  tv_edges :: "GraphEdge list"
  tv_seen :: "(string \<times> string \<times> EdgeKind) list"

definition push_edge :: "string \<Rightarrow> string \<Rightarrow> EdgeKind \<Rightarrow> bool \<Rightarrow> traversal \<Rightarrow> traversal" where
  "push_edge src dst kind outbound st =
    (if (src, dst, kind) \<in> set (tv_seen st) then st
     else st\<lparr>tv_seen := tv_seen st @ [(src, dst, kind)],
             tv_edges := tv_edges st @ [\<lparr> ge_from = src, ge_to = dst, ge_kind = kind, ge_outbound = outbound \<rparr>]\<rparr>)"

text \<open>\<^verbatim>\<open>if visited.len() < max_nodes && !visited.contains(..)\<close>\<close>

definition admit :: "nat \<Rightarrow> string \<Rightarrow> traversal \<Rightarrow> traversal" where
  "admit max_nodes fqdn st =
    (if length (tv_visited st) < max_nodes \<and> fqdn \<notin> set (tv_visited st)
     then st\<lparr>tv_visited := tv_visited st @ [fqdn], tv_next := tv_next st @ [fqdn]\<rparr> else st)"

definition visit_out :: "EdgeKind list option \<Rightarrow> nat \<Rightarrow> string \<Rightarrow> RawEdge \<Rightarrow> traversal \<Rightarrow> traversal" where
  "visit_out kinds max_nodes node e st =
    (if \<not> kind_allowed kinds (re_kind e) then st
     else case resolved_fqdn (re_to e) of
       None \<Rightarrow> st
     | Some target \<Rightarrow> admit max_nodes target (push_edge node target (re_kind e) True st))"

definition visit_in :: "EdgeKind list option \<Rightarrow> nat \<Rightarrow> string \<Rightarrow> RawEdge \<Rightarrow> traversal \<Rightarrow> traversal" where
  "visit_in kinds max_nodes node e st =
    (if \<not> kind_allowed kinds (re_kind e) then st
     else admit max_nodes (re_from_fqdn e) (push_edge (re_from_fqdn e) node (re_kind e) False st))"

definition expand_node ::
  "codec \<Rightarrow> db \<Rightarrow> EdgeKind list option \<Rightarrow> nat \<Rightarrow> string \<Rightarrow> traversal \<Rightarrow> traversal result" where
  "expand_node K db kinds max_nodes node st =
    ebind (edges_from K db node) (\<lambda>outs.
    let st = fold (visit_out kinds max_nodes node) outs st in
    ebind (edges_to K db node) (\<lambda>ins. Inr (fold (visit_in kinds max_nodes node) ins st)))"

fun expand_frontier ::
  "codec \<Rightarrow> db \<Rightarrow> EdgeKind list option \<Rightarrow> nat \<Rightarrow> string list \<Rightarrow> traversal \<Rightarrow> traversal result" where
  "expand_frontier K db kinds max_nodes [] st = Inr st"
| "expand_frontier K db kinds max_nodes (node # nodes) st =
    ebind (expand_node K db kinds max_nodes node st) (expand_frontier K db kinds max_nodes nodes)"

fun expand_levels ::
  "codec \<Rightarrow> db \<Rightarrow> EdgeKind list option \<Rightarrow> nat \<Rightarrow> nat \<Rightarrow> string list \<Rightarrow> traversal \<Rightarrow> traversal result" where
  "expand_levels K db kinds max_nodes 0 frontier st = Inr st"
| "expand_levels K db kinds max_nodes (Suc depth) frontier st =
    (if max_nodes \<le> length (tv_visited st) \<or> frontier = [] then Inr st
     else ebind (expand_frontier K db kinds max_nodes frontier (st\<lparr>tv_next := []\<rparr>)) (\<lambda>st.
       expand_levels K db kinds max_nodes depth (tv_next st) st))"

definition symbol_exists :: "db \<Rightarrow> string \<Rightarrow> bool" where
  "symbol_exists db fqdn = list_ex (\<lambda>r. s_workspace_id r = PRIMARY_WORKSPACE_ID \<and> s_fqdn r = fqdn) (t_symbols db)"

section \<open>Symbols and projects of a response\<close>

text \<open>\<^verbatim>\<open>read_graph_symbol\<close>: the columns of the join; the only one that can fail is \<^verbatim>\<open>project_id\<close>.\<close>

definition read_graph_symbol :: "db \<Rightarrow> sym_row \<Rightarrow> (sym_row \<times> 32 word option) result" where
  "read_graph_symbol db r =
    ebind (transpose_opt column_u32 (Option.bind (lookup_by f_path (s_file_path r) (t_files db)) f_project_id)) (\<lambda>p.
    Inr (r, p))"

definition build_graph_symbol :: "sym_row \<times> 32 word option \<Rightarrow> GraphSymbol result" where
  "build_graph_symbol raw =
    (case raw of (r, project_id) \<Rightarrow>
     ebind (transpose_opt decl_kind_from_sql_text (s_decl_kind r)) (\<lambda>decl_kind.
     ebind (transpose_opt entry_point_from_sql_text (s_entry_point r)) (\<lambda>entry_point.
     ebind (kind_from_sql_text (s_kind r)) (\<lambda>kind.
     ebind (visibility_from_sql_text (s_visibility r)) (\<lambda>visibility.
     Inr \<lparr> gs_fqdn = s_fqdn r, gs_name = s_name r, gs_kind = kind, gs_visibility = visibility, gs_module = s_module r,
           gs_language_kind = s_language_kind r, gs_is_external = s_is_external r,
           gs_is_test = fqdn_looks_like_test (s_fqdn r) \<or> file_path_looks_like_test (s_file_path r),
           gs_file = s_file_path r, gs_start_line = s_start_line r, gs_project_id = project_id,
           gs_decl_kind = decl_kind, gs_implements_trait = s_implements_trait r,
           gs_receiver_type = s_receiver_type r, gs_entry_point = entry_point \<rparr>)))))"

definition graph_rows :: "db \<Rightarrow> string list \<Rightarrow> bool \<Rightarrow> sym_row list" where
  "graph_rows db fqdns include_external =
    sort_key s_fqdn (filter (\<lambda>r. s_workspace_id r = PRIMARY_WORKSPACE_ID \<and> s_fqdn r \<in> set fqdns \<and>
      (include_external \<or> \<not> s_is_external r)) (t_symbols db))"

definition load_graph_symbols :: "db \<Rightarrow> string list \<Rightarrow> bool \<Rightarrow> GraphSymbol list result" where
  "load_graph_symbols db fqdns include_external =
    (if fqdns = [] then Inr []
     else ebind (collect_ok (read_graph_symbol db) (graph_rows db fqdns include_external)) (\<lambda>raws.
       collect_ok build_graph_symbol raws))"

definition graph_project :: "ProjectInfo \<Rightarrow> GraphProject" where
  "graph_project p = \<lparr> gp_project_id = pi_project_id p, gp_label = pi_label p,
     gp_kind = project_kind_as_str (pi_kind p), gp_rel_path = pi_rel_path p \<rparr>"

definition load_graph_projects :: "db \<Rightarrow> GraphProject list result" where
  "load_graph_projects db = ebind (fst (list_projects db)) (\<lambda>ps. Inr (map graph_project ps))"

section \<open>Focal mode\<close>

definition shipped :: "GraphSymbol list \<Rightarrow> GraphEdge \<Rightarrow> bool" where
  "shipped symbols e \<longleftrightarrow> ge_from e \<in> gs_fqdn ` set symbols \<and> ge_to e \<in> gs_fqdn ` set symbols"

definition start_at :: "string \<Rightarrow> traversal" where
  "start_at focal = \<lparr> tv_visited = [focal], tv_next = [], tv_edges = [], tv_seen = [] \<rparr>"

definition compose_focal ::
  "codec \<Rightarrow> db \<Rightarrow> string \<Rightarrow> 8 word \<Rightarrow> EdgeKind list option \<Rightarrow> 32 word \<Rightarrow> bool \<Rightarrow> GraphResponse result" where
  "compose_focal K db focal depth kinds max_nodes include_external =
    (if \<not> symbol_exists db focal
     then Inr \<lparr> gre_symbols = [], gre_edges = [], gre_projects = [], gre_focal = Some focal \<rparr>
     else ebind (expand_levels K db kinds (unat max_nodes) (unat depth) [focal] (start_at focal)) (\<lambda>st.
          ebind (load_graph_symbols db (tv_visited st) include_external) (\<lambda>symbols.
          ebind (load_graph_projects db) (\<lambda>projects.
          Inr \<lparr> gre_symbols = symbols, gre_edges = filter (shipped symbols) (tv_edges st),
                gre_projects = projects, gre_focal = Some focal \<rparr>))))"

section \<open>Bounded mode\<close>

definition list_fqdns_page :: "db \<Rightarrow> nat \<Rightarrow> bool \<Rightarrow> string option \<Rightarrow> string list" where
  "list_fqdns_page db limit include_external cursor =
    map s_fqdn (take (limit_i64 limit) (sort_key s_fqdn (filter (\<lambda>r.
      (s_workspace_id r = PRIMARY_WORKSPACE_ID \<and> (include_external \<or> \<not> s_is_external r)) \<and> after_cursor cursor r) (t_symbols db))))"

function list_bounded_loop :: "db \<Rightarrow> nat \<Rightarrow> bool \<Rightarrow> string list \<Rightarrow> string option \<Rightarrow> string list" where
  "list_bounded_loop db max_nodes include_external out cursor =
    (if max_nodes \<le> length out then out
     else let page_size = min (max_nodes - length out) BOUNDED_LIST_PAGE;
              page = list_fqdns_page db page_size include_external cursor
          in if page = [] then out
             else if length page \<noteq> page_size then out @ page
             else list_bounded_loop db max_nodes include_external (out @ page) (Some (last page)))"
  by pat_completeness auto
termination
  by (relation "measure (\<lambda>(db, max_nodes, ext, out, cursor). max_nodes - length out)") (auto simp: neq_Nil_conv)

declare list_bounded_loop.simps [simp del]

definition list_bounded_fqdns :: "db \<Rightarrow> nat \<Rightarrow> bool \<Rightarrow> string list" where
  "list_bounded_fqdns db max_nodes include_external =
    (if max_nodes = 0 then [] else list_bounded_loop db max_nodes include_external [] None)"

definition bounded_edge :: "EdgeKind list option \<Rightarrow> string list \<Rightarrow> string \<Rightarrow> RawEdge \<Rightarrow> traversal \<Rightarrow> traversal" where
  "bounded_edge kinds nodes src e st =
    (if \<not> kind_allowed kinds (re_kind e) then st
     else case resolved_fqdn (re_to e) of
       None \<Rightarrow> st
     | Some target \<Rightarrow> if target \<in> set nodes then push_edge src target (re_kind e) True st else st)"

fun bounded_edges ::
  "codec \<Rightarrow> db \<Rightarrow> EdgeKind list option \<Rightarrow> string list \<Rightarrow> string list \<Rightarrow> traversal \<Rightarrow> traversal result" where
  "bounded_edges K db kinds nodes [] st = Inr st"
| "bounded_edges K db kinds nodes (src # srcs) st =
    ebind (edges_from K db src) (\<lambda>es. bounded_edges K db kinds nodes srcs (fold (bounded_edge kinds nodes src) es st))"

definition compose_bounded :: "codec \<Rightarrow> db \<Rightarrow> EdgeKind list option \<Rightarrow> 32 word \<Rightarrow> bool \<Rightarrow> GraphResponse result" where
  "compose_bounded K db kinds max_nodes include_external =
    (let nodes = list_bounded_fqdns db (unat max_nodes) include_external in
     ebind (bounded_edges K db kinds nodes nodes \<lparr> tv_visited = [], tv_next = [], tv_edges = [], tv_seen = [] \<rparr>) (\<lambda>st.
     ebind (load_graph_symbols db nodes include_external) (\<lambda>symbols.
     ebind (load_graph_projects db) (\<lambda>projects.
     Inr \<lparr> gre_symbols = symbols, gre_edges = tv_edges st, gre_projects = projects, gre_focal = None \<rparr>))))"

definition fetch_graph :: "codec \<Rightarrow> db \<Rightarrow> GraphRequest \<Rightarrow> GraphResponse result" where
  "fetch_graph K db req =
    (case gr_focal req of
       Some focal \<Rightarrow> compose_focal K db focal (gr_depth req) (gr_kinds req) (gr_max_nodes req) (gr_include_external req)
     | None \<Rightarrow> compose_bounded K db (gr_kinds req) (gr_max_nodes req) (gr_include_external req))"

section \<open>The traversal\<close>

text \<open>One hop, along an allowed edge in either direction.\<close>

definition neighbours :: "codec \<Rightarrow> db \<Rightarrow> EdgeKind list option \<Rightarrow> string \<Rightarrow> string set" where
  "neighbours K db kinds x =
    {y. \<exists>es e. edges_from K db x = Inr es \<and> e \<in> set es \<and> kind_allowed kinds (re_kind e) \<and> resolved_fqdn (re_to e) = Some y} \<union>
    {y. \<exists>es e. edges_to K db x = Inr es \<and> e \<in> set es \<and> kind_allowed kinds (re_kind e) \<and> re_from_fqdn e = y}"

fun within :: "codec \<Rightarrow> db \<Rightarrow> EdgeKind list option \<Rightarrow> nat \<Rightarrow> string \<Rightarrow> string set" where
  "within K db kinds 0 x = {x}"
| "within K db kinds (Suc n) x = within K db kinds n x \<union> (\<Union>y\<in>within K db kinds n x. neighbours K db kinds y)"

text \<open>The effect of admitting a list of candidates.\<close>

definition admits :: "nat \<Rightarrow> string set \<Rightarrow> traversal \<Rightarrow> traversal \<Rightarrow> bool" where
  "admits m ts st st' \<longleftrightarrow> (\<exists>new. tv_visited st' = tv_visited st @ new \<and> tv_next st' = tv_next st @ new \<and> set new \<subseteq> ts \<and>
     (distinct (tv_visited st) \<longrightarrow> distinct (tv_visited st')) \<and>
     length (tv_visited st') \<le> max (length (tv_visited st)) m \<and>
     (length (tv_visited st') < m \<longrightarrow> ts \<subseteq> set (tv_visited st')))"

lemma admits_refl: "admits m {} st st"
  by (simp add: admits_def)

lemma admits_trans:
  assumes "admits m ts st st1" "admits m us st1 st2"
  shows "admits m (ts \<union> us) st st2"
proof -
  obtain n1 where 1: "tv_visited st1 = tv_visited st @ n1" "tv_next st1 = tv_next st @ n1" "set n1 \<subseteq> ts"
      "distinct (tv_visited st) \<longrightarrow> distinct (tv_visited st1)" "length (tv_visited st1) \<le> max (length (tv_visited st)) m"
      "length (tv_visited st1) < m \<longrightarrow> ts \<subseteq> set (tv_visited st1)"
    using assms(1) by (auto simp: admits_def)
  obtain n2 where 2: "tv_visited st2 = tv_visited st1 @ n2" "tv_next st2 = tv_next st1 @ n2" "set n2 \<subseteq> us"
      "distinct (tv_visited st1) \<longrightarrow> distinct (tv_visited st2)" "length (tv_visited st2) \<le> max (length (tv_visited st1)) m"
      "length (tv_visited st2) < m \<longrightarrow> us \<subseteq> set (tv_visited st2)"
    using assms(2) by (auto simp: admits_def)
  have "length (tv_visited st2) < m \<longrightarrow> ts \<union> us \<subseteq> set (tv_visited st2)" using 1(6) 2(1,6) by auto
  then show ?thesis
    unfolding admits_def using 1 2 by (intro exI[of _ "n1 @ n2"]) auto
qed

lemma admit_admits: "admits m {t} st (admit m t (push_edge a b k o' st))"
  by (auto simp: admits_def admit_def push_edge_def not_less)

lemma visit_out_admits:
  "admits m {y. kind_allowed kinds (re_kind e) \<and> resolved_fqdn (re_to e) = Some y} st (visit_out kinds m node e st)"
  using admits_refl[of m st] admit_admits[of m _ st]
  by (cases "kind_allowed kinds (re_kind e)"; cases "resolved_fqdn (re_to e)") (auto simp: visit_out_def)

lemma visit_in_admits:
  "admits m {y. kind_allowed kinds (re_kind e) \<and> re_from_fqdn e = y} st (visit_in kinds m node e st)"
  using admits_refl[of m st] admit_admits[of m _ st] by (cases "kind_allowed kinds (re_kind e)") (auto simp: visit_in_def)

lemma fold_admits:
  assumes "\<And>e st. admits m (A e) st (g e st)"
  shows "admits m (\<Union>e\<in>set es. A e) st (fold g es st)"
proof (induction es arbitrary: st)
  case (Cons e es)
  show ?case using admits_trans[OF assms[of e st] Cons.IH[of "g e st"]] by simp
qed (simp add: admits_refl)

lemma expand_node_admits:
  assumes "expand_node K db kinds m node st = Inr st'"
  shows "admits m (neighbours K db kinds node) st st'"
proof -
  obtain outs ins where e: "edges_from K db node = Inr outs" "edges_to K db node = Inr ins"
      "st' = fold (visit_in kinds m node) ins (fold (visit_out kinds m node) outs st)"
    using assms by (auto simp: expand_node_def ebind_Inr Let_def)
  have "admits m ((\<Union>e\<in>set outs. {y. kind_allowed kinds (re_kind e) \<and> resolved_fqdn (re_to e) = Some y}) \<union>
      (\<Union>e\<in>set ins. {y. kind_allowed kinds (re_kind e) \<and> re_from_fqdn e = y})) st st'"
    unfolding e(3) by (intro admits_trans[OF fold_admits fold_admits]) (rule visit_out_admits visit_in_admits)+
  moreover have "(\<Union>e\<in>set outs. {y. kind_allowed kinds (re_kind e) \<and> resolved_fqdn (re_to e) = Some y}) \<union>
      (\<Union>e\<in>set ins. {y. kind_allowed kinds (re_kind e) \<and> re_from_fqdn e = y}) = neighbours K db kinds node"
    using e(1,2) by (auto simp: neighbours_def)
  ultimately show ?thesis by simp
qed

lemma expand_frontier_admits:
  "expand_frontier K db kinds m nodes st = Inr st' \<Longrightarrow> admits m (\<Union>x\<in>set nodes. neighbours K db kinds x) st st'"
proof (induction nodes arbitrary: st)
  case (Cons x nodes)
  then obtain st1 where s: "expand_node K db kinds m x st = Inr st1" "expand_frontier K db kinds m nodes st1 = Inr st'"
    by (auto simp: ebind_Inr)
  show ?case using admits_trans[OF expand_node_admits[OF s(1)] Cons.IH[OF s(2)]] by simp
qed (simp add: admits_refl)

text \<open>
  Between levels: the visited nodes lie within \<^verbatim>\<open>n\<close> hops, and unless the cap was reached every visited
  node outside the frontier has all its neighbours visited and all nodes within \<^verbatim>\<open>n\<close> hops are visited.
\<close>

definition level_inv ::
  "codec \<Rightarrow> db \<Rightarrow> EdgeKind list option \<Rightarrow> nat \<Rightarrow> string \<Rightarrow> nat \<Rightarrow> string list \<Rightarrow> traversal \<Rightarrow> bool" where
  "level_inv K db kinds m focal n frontier st \<longleftrightarrow>
     distinct (tv_visited st) \<and> focal \<in> set (tv_visited st) \<and> length (tv_visited st) \<le> max 1 m \<and>
     set (tv_visited st) \<subseteq> within K db kinds n focal \<and> set frontier \<subseteq> set (tv_visited st) \<and>
     (length (tv_visited st) < m \<longrightarrow>
        within K db kinds n focal \<subseteq> set (tv_visited st) \<and>
        (\<forall>x\<in>set (tv_visited st) - set frontier. neighbours K db kinds x \<subseteq> set (tv_visited st)))"

lemma level_step:
  assumes I: "level_inv K db kinds m focal n frontier st"
    and run: "expand_frontier K db kinds m frontier (st\<lparr>tv_next := []\<rparr>) = Inr st'"
  shows "level_inv K db kinds m focal (Suc n) (tv_next st') st'"
proof -
  let ?N = "\<Union>x\<in>set frontier. neighbours K db kinds x" and ?W = "within K db kinds n focal"
  obtain new where a: "tv_visited st' = tv_visited st @ new" "tv_next st' = new" "set new \<subseteq> ?N"
      "distinct (tv_visited st) \<longrightarrow> distinct (tv_visited st')"
      "length (tv_visited st') \<le> max (length (tv_visited st)) m"
      "length (tv_visited st') < m \<longrightarrow> ?N \<subseteq> set (tv_visited st')"
    using expand_frontier_admits[OF run] by (auto simp: admits_def)
  have sub: "set (tv_visited st) \<subseteq> ?W" "set frontier \<subseteq> set (tv_visited st)" using I by (auto simp: level_inv_def)
  have "set new \<subseteq> within K db kinds (Suc n) focal" using a(3) sub by auto
  then have vis: "set (tv_visited st') \<subseteq> within K db kinds (Suc n) focal" using a(1) sub(1) by auto
  have closed: "?W \<subseteq> set (tv_visited st) \<and> (\<forall>x\<in>set (tv_visited st). neighbours K db kinds x \<subseteq> set (tv_visited st'))"
    if lt: "length (tv_visited st') < m"
  proof -
    have "length (tv_visited st) < m" using lt a(1) by simp
    then have W: "?W \<subseteq> set (tv_visited st)"
      and C: "\<forall>x\<in>set (tv_visited st) - set frontier. neighbours K db kinds x \<subseteq> set (tv_visited st)"
      using I by (auto simp: level_inv_def)
    have "neighbours K db kinds x \<subseteq> set (tv_visited st')" if "x \<in> set (tv_visited st)" for x
      using that C a(1,6) lt by (cases "x \<in> set frontier") auto
    then show ?thesis using W by blast
  qed
  then have "within K db kinds (Suc n) focal \<subseteq> set (tv_visited st')" if "length (tv_visited st') < m"
    using that a(1) by auto
  then show ?thesis
    unfolding level_inv_def using I a vis closed by (auto simp: level_inv_def)
qed

lemma within_mono: "n \<le> n' \<Longrightarrow> within K db kinds n x \<subseteq> within K db kinds n' x"
  by (induction n' rule: nat_induct) (auto simp: le_Suc_eq)

lemma within_closed:
  assumes "focal \<in> V" "\<forall>x\<in>V. neighbours K db kinds x \<subseteq> V"
  shows "within K db kinds n focal \<subseteq> V"
  using assms by (induction n) auto

lemma expand_levels_inv:
  assumes "expand_levels K db kinds m depth frontier st = Inr st'" "level_inv K db kinds m focal n frontier st"
  shows "distinct (tv_visited st') \<and> focal \<in> set (tv_visited st') \<and> length (tv_visited st') \<le> max 1 m \<and>
    set (tv_visited st') \<subseteq> within K db kinds (n + depth) focal \<and>
    (length (tv_visited st') < m \<longrightarrow> within K db kinds (n + depth) focal \<subseteq> set (tv_visited st'))"
  using assms
proof (induction depth arbitrary: frontier st n)
  case 0
  then show ?case by (auto simp: level_inv_def)
next
  case (Suc depth)
  show ?case
  proof (cases "m \<le> length (tv_visited st) \<or> frontier = []")
    case True
    then have st: "st' = st" using Suc.prems(1) by simp
    have "within K db kinds (n + Suc depth) focal \<subseteq> set (tv_visited st)" if "length (tv_visited st) < m"
      using within_closed[of focal "set (tv_visited st)" K db kinds "n + Suc depth"] True that Suc.prems(2)
      by (auto simp: level_inv_def)
    moreover have "set (tv_visited st) \<subseteq> within K db kinds (n + Suc depth) focal"
      using Suc.prems(2) within_mono[of n "n + Suc depth" K db kinds focal] by (auto simp: level_inv_def)
    ultimately show ?thesis using Suc.prems(2) st by (auto simp: level_inv_def)
  next
    case False
    then obtain st1 where s: "expand_frontier K db kinds m frontier (st\<lparr>tv_next := []\<rparr>) = Inr st1"
        "expand_levels K db kinds m depth (tv_next st1) st1 = Inr st'"
      using Suc.prems(1) by (auto simp: ebind_Inr)
    show ?thesis using Suc.IH[OF s(2) level_step[OF Suc.prems(2) s(1)]] by simp
  qed
qed

lemma start_inv: "level_inv K db kinds m focal 0 [focal] (start_at focal)"
  by (simp add: level_inv_def start_at_def)

lemma finite_neighbours: "finite (neighbours K db kinds x)"
proof -
  have "finite {y. \<exists>es e. edges_from K db x = Inr es \<and> e \<in> set es \<and> kind_allowed kinds (re_kind e) \<and> resolved_fqdn (re_to e) = Some y}"
  proof (cases "edges_from K db x")
    case (Inr es)
    then have "{y. \<exists>es e. edges_from K db x = Inr es \<and> e \<in> set es \<and> kind_allowed kinds (re_kind e) \<and> resolved_fqdn (re_to e) = Some y} \<subseteq>
        (the \<circ> resolved_fqdn \<circ> re_to) ` set es" by force
    then show ?thesis by (rule finite_subset) simp
  qed simp
  moreover have "finite {y. \<exists>es e. edges_to K db x = Inr es \<and> e \<in> set es \<and> kind_allowed kinds (re_kind e) \<and> re_from_fqdn e = y}"
  proof (cases "edges_to K db x")
    case (Inr es)
    then have "{y. \<exists>es e. edges_to K db x = Inr es \<and> e \<in> set es \<and> kind_allowed kinds (re_kind e) \<and> re_from_fqdn e = y} \<subseteq>
        re_from_fqdn ` set es" by auto
    then show ?thesis by (rule finite_subset) simp
  qed simp
  ultimately show ?thesis by (simp add: neighbours_def)
qed

lemma finite_within: "finite (within K db kinds n x)"
  by (induction n) (auto intro: finite_neighbours)

section \<open>The edges\<close>

definition edge_key :: "GraphEdge \<Rightarrow> string \<times> string \<times> EdgeKind" where
  "edge_key e = (ge_from e, ge_to e, ge_kind e)"

text \<open>An edge of the index, as the two edge queries report it.\<close>

definition indexed_edge :: "codec \<Rightarrow> db \<Rightarrow> string \<times> string \<times> EdgeKind \<Rightarrow> bool" where
  "indexed_edge K db key = (case key of (a, b, k) \<Rightarrow>
     (\<exists>es e. edges_from K db a = Inr es \<and> e \<in> set es \<and> resolved_fqdn (re_to e) = Some b \<and> re_kind e = k) \<or>
     (\<exists>es e. edges_to K db b = Inr es \<and> e \<in> set es \<and> re_from_fqdn e = a \<and> re_kind e = k))"

definition edges_inv :: "codec \<Rightarrow> db \<Rightarrow> EdgeKind list option \<Rightarrow> traversal \<Rightarrow> bool" where
  "edges_inv K db kinds st \<longleftrightarrow> tv_seen st = map edge_key (tv_edges st) \<and> distinct (map edge_key (tv_edges st)) \<and>
     (\<forall>e\<in>set (tv_edges st). kind_allowed kinds (ge_kind e) \<and> indexed_edge K db (edge_key e))"

lemma push_edge_inv:
  "edges_inv K db kinds st \<Longrightarrow> kind_allowed kinds k \<Longrightarrow> indexed_edge K db (a, b, k) \<Longrightarrow> edges_inv K db kinds (push_edge a b k o' st)"
  by (auto simp: edges_inv_def push_edge_def edge_key_def)

lemma admit_edges: "edges_inv K db kinds (admit m t st) = edges_inv K db kinds st"
  by (simp add: edges_inv_def admit_def)

lemma fold_inv: "(\<And>x s. x \<in> set xs \<Longrightarrow> Q s \<Longrightarrow> Q (g x s)) \<Longrightarrow> Q s \<Longrightarrow> Q (fold g xs s)"
  by (induction xs arbitrary: s) auto

lemma expand_node_edges:
  assumes "expand_node K db kinds m node st = Inr st'" "edges_inv K db kinds st"
  shows "edges_inv K db kinds st'"
proof -
  obtain outs ins where e: "edges_from K db node = Inr outs" "edges_to K db node = Inr ins"
      "st' = fold (visit_in kinds m node) ins (fold (visit_out kinds m node) outs st)"
    using assms(1) by (auto simp: expand_node_def ebind_Inr Let_def)
  have out: "edges_inv K db kinds (visit_out kinds m node x s)" if "x \<in> set outs" "edges_inv K db kinds s" for x s
  proof (cases "kind_allowed kinds (re_kind x)")
    case True
    have "indexed_edge K db (node, y, re_kind x)" if "resolved_fqdn (re_to x) = Some y" for y
      using that e(1) \<open>x \<in> set outs\<close> by (auto simp: indexed_edge_def)
    then show ?thesis using that(2) True push_edge_inv
      by (auto simp: visit_out_def admit_edges split: option.split)
  qed (use that in \<open>simp add: visit_out_def\<close>)
  have inn: "edges_inv K db kinds (visit_in kinds m node x s)" if "x \<in> set ins" "edges_inv K db kinds s" for x s
  proof (cases "kind_allowed kinds (re_kind x)")
    case True
    have "indexed_edge K db (re_from_fqdn x, node, re_kind x)" using that e(2) by (auto simp: indexed_edge_def)
    then show ?thesis using that(2) True push_edge_inv by (auto simp: visit_in_def admit_edges)
  qed (use that in \<open>simp add: visit_in_def\<close>)
  have "edges_inv K db kinds (fold (visit_out kinds m node) outs st)"
    by (rule fold_inv[where Q = "edges_inv K db kinds"]) (use out assms(2) in auto)
  then show ?thesis unfolding e(3) by (rule fold_inv[where Q = "edges_inv K db kinds", rotated]) (use inn in auto)
qed

lemma expand_levels_edges:
  "expand_levels K db kinds m depth frontier st = Inr st' \<Longrightarrow> edges_inv K db kinds st \<Longrightarrow> edges_inv K db kinds st'"
proof (induction depth arbitrary: frontier st)
  case (Suc depth)
  have frontier: "expand_frontier K db kinds m nodes s = Inr s' \<Longrightarrow> edges_inv K db kinds s \<Longrightarrow> edges_inv K db kinds s'" for nodes s s'
    by (induction nodes arbitrary: s) (auto simp: ebind_Inr expand_node_edges)
  have "edges_inv K db kinds (st\<lparr>tv_next := []\<rparr>)" using Suc.prems(2) by (simp add: edges_inv_def)
  then show ?case using Suc frontier by (auto simp: ebind_Inr split: if_splits)
qed simp

section \<open>The symbols\<close>

lemma list_all2_map_eq: "list_all2 Q xs ys \<Longrightarrow> (\<And>x y. Q x y \<Longrightarrow> f x = g y) \<Longrightarrow> map f xs = map g ys"
  by (induction rule: list_all2_induct) auto

lemma load_graph_symbols_fqdns:
  assumes "load_graph_symbols db fqdns ext = Inr symbols"
  shows "map gs_fqdn symbols = map s_fqdn (graph_rows db fqdns ext)"
proof (cases "fqdns = []")
  case True
  then show ?thesis using assms by (simp add: load_graph_symbols_def graph_rows_def)
next
  case False
  then obtain raws where r: "collect_ok (read_graph_symbol db) (graph_rows db fqdns ext) = Inr raws"
      "collect_ok build_graph_symbol raws = Inr symbols"
    using assms by (auto simp: load_graph_symbols_def ebind_Inr)
  have "map s_fqdn (graph_rows db fqdns ext) = map (s_fqdn \<circ> fst) raws"
    using r(1) unfolding collect_ok_Inr by (rule list_all2_map_eq) (auto simp: read_graph_symbol_def ebind_Inr)
  moreover have "map (s_fqdn \<circ> fst) raws = map gs_fqdn symbols"
    using r(2) unfolding collect_ok_Inr by (rule list_all2_map_eq) (auto simp: build_graph_symbol_def ebind_Inr split: prod.splits)
  ultimately show ?thesis by simp
qed

lemma primary_fqdns_distinct:
  assumes "db_ok db"
  shows "distinct (map s_fqdn (filter (\<lambda>r. s_workspace_id r = w \<and> Q r) (t_symbols db)))"
proof -
  have "distinct (map sym_key (filter (\<lambda>r. s_workspace_id r = w \<and> Q r) (t_symbols db)))"
    using db_ok_subD(3)[OF assms] by (auto simp: ok_symbols_def intro: distinct_map_filter)
  then show ?thesis by (auto simp: distinct_map inj_on_def sym_key_def)
qed

lemma graph_rows_strict: "db_ok db \<Longrightarrow> sorted_wrt (<) (map s_fqdn (graph_rows db fqdns ext))"
  unfolding graph_rows_def by (intro strict_sort primary_fqdns_distinct)

text \<open>The names a request may ship.\<close>

definition shippable :: "db \<Rightarrow> bool \<Rightarrow> string set" where
  "shippable db ext = {s_fqdn r | r. r \<in> set (t_symbols db) \<and> s_workspace_id r = PRIMARY_WORKSPACE_ID \<and> (ext \<or> \<not> s_is_external r)}"

lemma graph_rows_set: "s_fqdn ` set (graph_rows db fqdns ext) = set fqdns \<inter> shippable db ext"
  by (auto simp: graph_rows_def shippable_def)

text \<open>
  C16. The graph around a focal symbol is a bounded ball: its symbols, listed in strictly increasing order
  of name, lie within \<^verbatim>\<open>depth\<close> hops of the focal symbol and are no more than \<^verbatim>\<open>max_nodes\<close>; when fewer
  than \<^verbatim>\<open>max_nodes\<close> names lie within \<^verbatim>\<open>depth\<close> hops, they are all of those the index can ship.  Its edges
  are edges of the index, of an allowed kind, without duplicates, and both ends of every edge are among
  the symbols.
\<close>

theorem focal_graph_is_ball:
  assumes ok: "db_ok db" and focal: "gr_focal req = Some focal" "symbol_exists db focal"
    and run: "fetch_graph K db req = Inr resp"
  shows "let ball = within K db (gr_kinds req) (unat (gr_depth req)) focal;
             names = set (map gs_fqdn (gre_symbols resp))
    in sorted_wrt (<) (map gs_fqdn (gre_symbols resp)) \<and>
       length (gre_symbols resp) \<le> max 1 (unat (gr_max_nodes req)) \<and>
       names \<subseteq> ball \<inter> shippable db (gr_include_external req) \<and>
       (card ball < unat (gr_max_nodes req) \<longrightarrow> names = ball \<inter> shippable db (gr_include_external req)) \<and>
       distinct (map edge_key (gre_edges resp)) \<and>
       (\<forall>e\<in>set (gre_edges resp). ge_from e \<in> names \<and> ge_to e \<in> names \<and> kind_allowed (gr_kinds req) (ge_kind e) \<and>
          indexed_edge K db (edge_key e))"
proof -
  let ?kinds = "gr_kinds req" and ?m = "unat (gr_max_nodes req)" and ?ext = "gr_include_external req"
  let ?ball = "within K db ?kinds (unat (gr_depth req)) focal"
  obtain st symbols projects where r: "expand_levels K db ?kinds ?m (unat (gr_depth req)) [focal] (start_at focal) = Inr st"
      "load_graph_symbols db (tv_visited st) ?ext = Inr symbols"
      "resp = \<lparr> gre_symbols = symbols, gre_edges = filter (shipped symbols) (tv_edges st), gre_projects = projects, gre_focal = Some focal \<rparr>"
    using run focal by (auto simp: fetch_graph_def compose_focal_def ebind_Inr)
  note v = expand_levels_inv[OF r(1) start_inv, unfolded add_0]
  then have vl: "length (tv_visited st) \<le> max 1 ?m" by blast
  have e: "edges_inv K db ?kinds st"
    using expand_levels_edges[OF r(1)] by (simp add: edges_inv_def start_at_def)
  note names = load_graph_symbols_fqdns[OF r(2)]
  have set: "set (map gs_fqdn symbols) = set (tv_visited st) \<inter> shippable db ?ext"
    unfolding names using graph_rows_set by simp
  have strict: "sorted_wrt (<) (map gs_fqdn symbols)" unfolding names by (rule graph_rows_strict[OF ok])
  then have "length symbols = card (set (map gs_fqdn symbols))" by (metis distinct_card length_map strict_sorted_iff)
  also have "\<dots> \<le> card (set (tv_visited st))" unfolding set by (intro card_mono) auto
  also have "\<dots> \<le> max 1 ?m" by (rule order_trans[OF card_length vl])
  finally have len: "length symbols \<le> max 1 ?m" .
  have "length (tv_visited st) \<le> card ?ball"
    using v card_mono[OF finite_within, of "set (tv_visited st)" K db ?kinds "unat (gr_depth req)" focal] by (simp add: distinct_card)
  then have full: "set (map gs_fqdn symbols) = ?ball \<inter> shippable db ?ext" if "card ?ball < ?m"
    using that v set by auto
  have ends: "ge_from x \<in> set (map gs_fqdn symbols) \<and> ge_to x \<in> set (map gs_fqdn symbols)" if "shipped symbols x" for x
    using that by (auto simp: shipped_def)
  have dist: "distinct (map edge_key (filter (shipped symbols) (tv_edges st)))"
    using e by (auto simp: edges_inv_def intro: distinct_map_filter)
  have edges: "\<forall>x\<in>set (filter (shipped symbols) (tv_edges st)). ge_from x \<in> set (map gs_fqdn symbols) \<and>
      ge_to x \<in> set (map gs_fqdn symbols) \<and> kind_allowed ?kinds (ge_kind x) \<and> indexed_edge K db (edge_key x)"
    using e ends by (simp add: edges_inv_def)
  have sub: "set (map gs_fqdn symbols) \<subseteq> ?ball \<inter> shippable db ?ext" using v set by blast
  show ?thesis unfolding Let_def r(3) using strict len sub full dist edges by (intro conjI impI) simp_all
qed

definition demo_request :: "string option \<Rightarrow> GraphRequest" where
  "demo_request focal = \<lparr> gr_focal = focal, gr_depth = 1, gr_kinds = None, gr_max_nodes = 10, gr_include_external = False \<rparr>"

theorem focal_graph_is_ball_witness:
  "\<exists>resp. fetch_graph demo_codec demo_db (demo_request (Some ''f'')) = Inr resp \<and> map gs_fqdn (gre_symbols resp) = [''f'', ''g''] \<and>
     {''f'', ''g''} \<subseteq> within demo_codec demo_db None 1 ''f''"
proof -
  have "map_sum id (map gs_fqdn \<circ> gre_symbols) (fetch_graph demo_codec demo_db (demo_request (Some ''f''))) = Inr [''f'', ''g'']"
    by code_simp
  then obtain resp where r: "fetch_graph demo_codec demo_db (demo_request (Some ''f'')) = Inr resp" "map gs_fqdn (gre_symbols resp) = [''f'', ''g'']"
    by (cases "fetch_graph demo_codec demo_db (demo_request (Some ''f''))") auto
  have "symbol_exists demo_db ''f''" by (simp add: symbol_exists_def PRIMARY_WORKSPACE_ID_def)
  then show ?thesis
    using focal_graph_is_ball[OF demo_db_ok _ _ r(1), of "''f''"] r unfolding Let_def by (simp add: demo_request_def)
qed

section \<open>The snapshot\<close>

definition snapshot_rows :: "db \<Rightarrow> bool \<Rightarrow> sym_row list" where
  "snapshot_rows db ext = sort_key s_fqdn (filter (\<lambda>r. s_workspace_id r = PRIMARY_WORKSPACE_ID \<and> (ext \<or> \<not> s_is_external r)) (t_symbols db))"

lemma snapshot_strict: "db_ok db \<Longrightarrow> sorted_wrt (<) (map s_fqdn (snapshot_rows db ext))"
  unfolding snapshot_rows_def by (intro strict_sort primary_fqdns_distinct)

lemma fqdns_page:
  assumes ok: "db_ok db" and split: "snapshot_rows db ext = past @ rest"
    and cursor: "if past = [] then cursor = None else cursor = Some (s_fqdn (last past))" and n: "n \<le> nat I64_MAX"
  shows "list_fqdns_page db n ext cursor = map s_fqdn (take n rest)"
proof -
  let ?P = "\<lambda>r. s_workspace_id r = PRIMARY_WORKSPACE_ID \<and> (ext \<or> \<not> s_is_external r)"
  have "filter (\<lambda>r. ?P r \<and> after_cursor cursor r) (t_symbols db) = filter (after_cursor cursor) (filter ?P (t_symbols db))"
    by (simp add: conj_ac)
  then have "sort_key s_fqdn (filter (\<lambda>r. ?P r \<and> after_cursor cursor r) (t_symbols db)) = filter (after_cursor cursor) (snapshot_rows db ext)"
    by (simp add: snapshot_rows_def filter_sort)
  also have "\<dots> = rest"
  proof (cases "past = []")
    case True
    then show ?thesis using cursor split by (simp add: after_cursor_def)
  next
    case False
    then have "after_cursor cursor = (\<lambda>r. s_fqdn (last past) < s_fqdn r)" using cursor by (auto simp: after_cursor_def)
    then show ?thesis using keyset_rest[of s_fqdn past rest] snapshot_strict[OF ok, of ext] False unfolding split by simp
  qed
  finally show ?thesis using n by (simp add: list_fqdns_page_def limit_i64_def)
qed

lemma list_bounded_from:
  assumes ok: "db_ok db"
    and "snapshot_rows db ext = past @ rest" "if past = [] then cursor = None else cursor = Some (s_fqdn (last past))"
    and "length past \<le> m"
  shows "list_bounded_loop db m ext (map s_fqdn past) cursor = map s_fqdn (take m (past @ rest))"
  using assms(2-)
proof (induction "m - length past" arbitrary: past rest cursor rule: less_induct)
  case less
  define n where "n = min (m - length past) BOUNDED_LIST_PAGE"
  have n: "n \<le> nat I64_MAX" "n \<le> m - length past" "m \<le> length past \<or> 0 < n" by (auto simp: n_def BOUNDED_LIST_PAGE_def I64_MAX_def)
  let ?page = "map s_fqdn (take n rest)"
  have unfolded: "list_bounded_loop db m ext (map s_fqdn past) cursor =
      (if m \<le> length past then map s_fqdn past else if ?page = [] then map s_fqdn past
       else if length ?page \<noteq> n then map s_fqdn past @ ?page
       else list_bounded_loop db m ext (map s_fqdn (past @ take n rest)) (Some (last ?page)))"
    unfolding fqdns_page[OF ok less.prems(1,2) n(1), symmetric]
    by (subst list_bounded_loop.simps) (simp only: length_map Let_def n_def[symmetric] map_append fqdns_page[OF ok less.prems(1,2) n(1)])
  consider "m \<le> length past" | "length past < m" "length rest < n" | "length past < m" "n \<le> length rest" by linarith
  then show ?case
  proof cases
    case 1
    then show ?thesis using less.prems(3) unfolding unfolded by simp
  next
    case 2
    then have "take n rest = rest" "take m (past @ rest) = past @ rest" using n(2) by auto
    then show ?thesis using 2 unfolding unfolded by auto
  next
    case 3
    let ?past = "past @ take n rest"
    have ne: "take n rest \<noteq> []" using 3 n(3) by auto
    have "list_bounded_loop db m ext (map s_fqdn past) cursor = list_bounded_loop db m ext (map s_fqdn ?past) (Some (last ?page))"
      unfolding unfolded using 3 ne by simp
    also have "\<dots> = map s_fqdn (take m (?past @ drop n rest))"
      using less.prems(1) 3 ne n by (intro less.hyps) (auto simp: last_map)
    finally show ?thesis by simp
  qed
qed

lemma list_bounded_eq: "db_ok db \<Longrightarrow> list_bounded_fqdns db m ext = map s_fqdn (take m (snapshot_rows db ext))"
  using list_bounded_from[of db ext "[]" "snapshot_rows db ext" None m] by (simp add: list_bounded_fqdns_def)

lemma bounded_edges_inv:
  assumes "bounded_edges K db kinds nodes srcs st = Inr st'" "set srcs \<subseteq> set nodes"
    and "edges_inv K db kinds st" "\<forall>e\<in>set (tv_edges st). ge_from e \<in> set nodes \<and> ge_to e \<in> set nodes"
  shows "edges_inv K db kinds st' \<and> (\<forall>e\<in>set (tv_edges st'). ge_from e \<in> set nodes \<and> ge_to e \<in> set nodes)"
  using assms
proof (induction srcs arbitrary: st)
  case (Cons src srcs)
  obtain es where es: "edges_from K db src = Inr es"
      "bounded_edges K db kinds nodes srcs (fold (bounded_edge kinds nodes src) es st) = Inr st'"
    using Cons.prems(1) by (auto simp: ebind_Inr)
  let ?Q = "\<lambda>s. edges_inv K db kinds s \<and> (\<forall>e\<in>set (tv_edges s). ge_from e \<in> set nodes \<and> ge_to e \<in> set nodes)"
  have "?Q (bounded_edge kinds nodes src x s)" if x: "x \<in> set es" and q: "?Q s" for x s
  proof (cases "kind_allowed kinds (re_kind x) \<and> (\<exists>t. resolved_fqdn (re_to x) = Some t \<and> t \<in> set nodes)")
    case True
    then obtain t where t: "resolved_fqdn (re_to x) = Some t" "t \<in> set nodes" "kind_allowed kinds (re_kind x)" by blast
    have "indexed_edge K db (src, t, re_kind x)" using es(1) x t(1) by (auto simp: indexed_edge_def)
    then have "edges_inv K db kinds (push_edge src t (re_kind x) True s)" using q t(3) push_edge_inv by blast
    then show ?thesis using q t Cons.prems(2) by (auto simp: bounded_edge_def push_edge_def)
  next
    case False
    then show ?thesis using q by (auto simp: bounded_edge_def split: option.split)
  qed
  then have "?Q (fold (bounded_edge kinds nodes src) es st)"
    using fold_inv[where Q = ?Q and xs = es and s = st and g = "bounded_edge kinds nodes src"] Cons.prems(3,4) by blast
  then show ?case using Cons.IH[OF es(2)] Cons.prems(2) by simp
qed simp

text \<open>
  C17. Without a focal symbol the graph is the snapshot of the first \<^verbatim>\<open>max_nodes\<close> names of the primary
  workspace, however the listing is cut into pages of one hundred, and its edges connect names of the
  snapshot only, without duplicates.
\<close>

theorem bounded_graph_is_snapshot:
  assumes ok: "db_ok db" and "gr_focal req = None" and run: "fetch_graph K db req = Inr resp"
  shows "map gs_fqdn (gre_symbols resp) =
      map s_fqdn (take (unat (gr_max_nodes req)) (snapshot_rows db (gr_include_external req))) \<and>
    distinct (map edge_key (gre_edges resp)) \<and>
    (\<forall>e\<in>set (gre_edges resp). ge_from e \<in> gs_fqdn ` set (gre_symbols resp) \<and> ge_to e \<in> gs_fqdn ` set (gre_symbols resp) \<and>
       kind_allowed (gr_kinds req) (ge_kind e) \<and> indexed_edge K db (edge_key e))"
proof -
  let ?ext = "gr_include_external req" and ?m = "unat (gr_max_nodes req)"
  let ?rows = "take ?m (snapshot_rows db ?ext)"
  let ?nodes = "map s_fqdn ?rows"
  obtain st symbols projects where r:
      "bounded_edges K db (gr_kinds req) ?nodes ?nodes \<lparr> tv_visited = [], tv_next = [], tv_edges = [], tv_seen = [] \<rparr> = Inr st"
      "load_graph_symbols db ?nodes ?ext = Inr symbols"
      "resp = \<lparr> gre_symbols = symbols, gre_edges = tv_edges st, gre_projects = projects, gre_focal = None \<rparr>"
    using run assms(2) by (auto simp: fetch_graph_def compose_bounded_def list_bounded_eq[OF ok] ebind_Inr Let_def)
  have e: "edges_inv K db (gr_kinds req) st \<and> (\<forall>e\<in>set (tv_edges st). ge_from e \<in> set ?nodes \<and> ge_to e \<in> set ?nodes)"
    using bounded_edges_inv[OF r(1)] by (simp add: edges_inv_def)
  have "map s_fqdn (graph_rows db ?nodes ?ext) = ?nodes"
  proof (rule strict_sorted_equal)
    show "sorted_wrt (<) (map s_fqdn (graph_rows db ?nodes ?ext))" by (rule graph_rows_strict[OF ok])
    show "sorted_wrt (<) ?nodes"
      using sorted_wrt_take[OF snapshot_strict[OF ok, of ?ext], of ?m] by (simp add: take_map)
    have "set ?nodes \<subseteq> shippable db ?ext"
      using set_take_subset[of ?m "snapshot_rows db ?ext"] by (fastforce simp: snapshot_rows_def shippable_def)
    then show "set (map s_fqdn (graph_rows db ?nodes ?ext)) = set ?nodes" using graph_rows_set[of db ?nodes ?ext] by auto
  qed
  then have names: "map gs_fqdn symbols = ?nodes" using load_graph_symbols_fqdns[OF r(2)] by simp
  then have "set ?nodes = gs_fqdn ` set symbols" by (metis set_map)
  then show ?thesis using names e unfolding r(3) by (auto simp: edges_inv_def)
qed

theorem bounded_graph_is_snapshot_witness:
  "\<exists>resp. fetch_graph demo_codec demo_db (demo_request None) = Inr resp \<and> map gs_fqdn (gre_symbols resp) = [''f'', ''g''] \<and>
     map edge_key (gre_edges resp) = [(''g'', ''f'', EdgeKind.Calls)] \<and> indexed_edge demo_codec demo_db (''g'', ''f'', EdgeKind.Calls)"
proof -
  let ?names = "[''f'', ''g'']"
  have "list_bounded_fqdns demo_db 10 False = ?names"
    using demo_row_simps by (simp add: list_bounded_eq snapshot_rows_def PRIMARY_WORKSPACE_ID_def demo_row_def symbol_row_def demo_symbol_def demo_ctx_def)
  then have "fetch_graph demo_codec demo_db (demo_request None) =
     ebind (bounded_edges demo_codec demo_db None ?names ?names \<lparr> tv_visited = [], tv_next = [], tv_edges = [], tv_seen = [] \<rparr>) (\<lambda>st.
     ebind (load_graph_symbols demo_db ?names False) (\<lambda>symbols.
     ebind (load_graph_projects demo_db) (\<lambda>projects.
     Inr \<lparr> gre_symbols = symbols, gre_edges = tv_edges st, gre_projects = projects, gre_focal = None \<rparr>)))"
    (is "_ = ?run") by (simp add: fetch_graph_def compose_bounded_def demo_request_def Let_def)
  moreover have "map_sum id (map edge_key \<circ> gre_edges) ?run = Inr [(''g'', ''f'', EdgeKind.Calls)]" by code_simp
  ultimately obtain resp where r: "fetch_graph demo_codec demo_db (demo_request None) = Inr resp"
      "map edge_key (gre_edges resp) = [(''g'', ''f'', EdgeKind.Calls)]"
    by (cases ?run) auto
  then obtain e where "gre_edges resp = [e]" "edge_key e = (''g'', ''f'', EdgeKind.Calls)" by auto
  then show ?thesis
    using bounded_graph_is_snapshot[OF demo_db_ok _ r(1)] r
    by (simp add: demo_request_def snapshot_rows_def PRIMARY_WORKSPACE_ID_def demo_row_def symbol_row_def demo_symbol_def demo_ctx_def)
qed

end
