(* ===== verification/Batch.thy ===== *)
theory Batch
  imports Storage_Meta
begin

text \<open>
  Applying one extracted file to the index (\<^verbatim>\<open>crates/standardoc-core/src/pipeline\<close>:
  \<^verbatim>\<open>diff.rs\<close>, \<^verbatim>\<open>batch.rs\<close>).  The diff splits the extracted symbols by fqdn against the rows
  of the file; the batch then deletes, updates, inserts, rewrites edges, promotes unresolved
  edges and replays documents, call sites, FFI bindings and the module lookup.

  The codec and the two readings of the clock that \<^verbatim>\<open>apply_upsert_file\<close> takes are fields of the
  record \<^verbatim>\<open>penv\<close>.  A \<^verbatim>\<open>HashMap\<close> that the code iterates over (the FFI groups) is visited in
  order of first insertion; the groups concern different symbols, so the order does not show.
  The \<^verbatim>\<open>debug_assert_eq!\<close> of the source is not part of a release build and is not modelled.
\<close>

record penv =
  pe_codec :: codec
  pe_now_file :: "StorageError + int"
  pe_now_docs :: "StorageError + int"

section \<open>diff.rs\<close>

record DbSymbolRow =
  dr_id :: int
  dr_fqdn :: string
  dr_body_hash :: "string option"

record DiffPlan =
  dp_inserts :: "RawSymbol list"
  dp_modifications :: "(int \<times> RawSymbol) list"
  dp_position_updates :: "(int \<times> RawSymbol) list"
  dp_deletions :: "int list"

definition db_symbol_row :: "sym_row \<Rightarrow> DbSymbolRow" where
  "db_symbol_row r = \<lparr> dr_id = s_id r, dr_fqdn = s_fqdn r, dr_body_hash = s_body_hash r \<rparr>"

definition fetch_existing_symbols :: "string \<Rightarrow> DbSymbolRow list sql" where
  "fetch_existing_symbols file_path =
    squery (\<lambda>db. map db_symbol_row (filter (\<lambda>r. s_file_path r = file_path) (t_symbols db)))"

definition by_fqdn :: "DbSymbolRow list \<Rightarrow> string \<rightharpoonup> DbSymbolRow" where
  "by_fqdn existing = foldl (\<lambda>m row. m(dr_fqdn row \<mapsto> row)) Map.empty existing"

definition diff_step :: "(string \<rightharpoonup> DbSymbolRow) \<Rightarrow> DiffPlan \<Rightarrow> RawSymbol \<Rightarrow> DiffPlan" where
  "diff_step m plan sy =
    (case m (rs_fqdn sy) of
       None \<Rightarrow> plan\<lparr>dp_inserts := dp_inserts plan @ [sy]\<rparr>
     | Some row \<Rightarrow>
         if map_option to_hex (rs_body_hash sy) = dr_body_hash row
         then plan\<lparr>dp_position_updates := dp_position_updates plan @ [(dr_id row, sy)]\<rparr>
         else plan\<lparr>dp_modifications := dp_modifications plan @ [(dr_id row, sy)]\<rparr>)"

definition diff_symbols :: "DbSymbolRow list \<Rightarrow> RawSymbol list \<Rightarrow> DiffPlan" where
  "diff_symbols existing extracted =
    (let plan = foldl (diff_step (by_fqdn existing))
                  \<lparr> dp_inserts = [], dp_modifications = [], dp_position_updates = [], dp_deletions = [] \<rparr> extracted
     in plan\<lparr>dp_deletions :=
          map dr_id (filter (\<lambda>row. dr_fqdn row \<notin> rs_fqdn ` set extracted) existing)\<rparr>)"

section \<open>batch.rs\<close>

definition lookup_symbol_id_by_fqdn :: "string \<Rightarrow> string \<Rightarrow> int option sql" where
  "lookup_symbol_id_by_fqdn fqdn workspace_id =
    squery (\<lambda>db. map_option s_id (lookup_by sym_key (workspace_id, fqdn) (t_symbols db)))"

definition upsert_file_row :: "penv \<Rightarrow> ExtractedFile \<Rightarrow> unit sql" where
  "upsert_file_row E extracted =
    sbind (slift (pe_now_file E)) (\<lambda>last_scanned.
    upsert_file \<lparr> fi_path = ef_file extracted, fi_content_hash = ef_content_hash extracted,
      fi_language = ef_language extracted, fi_byte_size = ef_byte_size extracted,
      fi_last_scanned = last_scanned, fi_last_scan_error = None,
      fi_is_external = ef_is_external extracted \<rparr>)"

definition apply_deletes :: "DiffPlan \<Rightarrow> unit sql" where
  "apply_deletes plan = sfor (dp_deletions plan) delete_symbol"

definition apply_position_updates :: "DiffPlan \<Rightarrow> 64 word \<Rightarrow> unit sql" where
  "apply_position_updates plan revision =
    sfor (dp_position_updates plan) (\<lambda>(i, sy). update_symbol_positions i (rs_location sy) revision)"

definition apply_modification ::
  "penv \<Rightarrow> SymbolInsertContext \<Rightarrow> int \<times> RawSymbol \<Rightarrow> int list \<Rightarrow> int list sql" where
  "apply_modification E ctx im ids =
    sbind (insert_symbol (pe_codec E) (snd im) ctx) (\<lambda>id_back.
    sthen (delete_edges_from id_back) (sreturn (ids @ [id_back])))"

definition apply_insert :: "penv \<Rightarrow> SymbolInsertContext \<Rightarrow> RawSymbol \<Rightarrow> int list \<Rightarrow> int list sql" where
  "apply_insert E ctx sy ids =
    sbind (insert_symbol (pe_codec E) sy ctx) (\<lambda>i. sreturn (ids @ [i]))"

definition apply_inserts_and_modifications ::
  "penv \<Rightarrow> DiffPlan \<Rightarrow> SymbolInsertContext \<Rightarrow> int list sql" where
  "apply_inserts_and_modifications E plan ctx =
    sbind (sfold (apply_modification E ctx) (dp_modifications plan) []) (\<lambda>ids.
    sfold (apply_insert E ctx) (dp_inserts plan) ids)"

definition touched_fqdns :: "DiffPlan \<Rightarrow> string set" where
  "touched_fqdns plan = rs_fqdn ` set (dp_inserts plan) \<union> (rs_fqdn \<circ> snd) ` set (dp_modifications plan)"

definition apply_edge :: "penv \<Rightarrow> DiffPlan \<Rightarrow> string \<Rightarrow> RawEdge \<Rightarrow> unit sql" where
  "apply_edge E plan workspace_id edge =
    (if re_from_fqdn edge \<notin> touched_fqdns plan then sreturn ()
     else sbind (lookup_symbol_id_by_fqdn (re_from_fqdn edge) workspace_id) (\<lambda>from_id.
       case from_id of
         None \<Rightarrow> sreturn ()
       | Some i \<Rightarrow> sbind (insert_edge (pe_codec E) i edge workspace_id) (\<lambda>edge_id.
           swhen (re_sites edge \<noteq> []) (insert_edge_sites edge_id (re_sites edge)))))"

definition apply_edges :: "penv \<Rightarrow> DiffPlan \<Rightarrow> RawEdge list \<Rightarrow> string \<Rightarrow> unit sql" where
  "apply_edges E plan edges workspace_id = sfor edges (apply_edge E plan workspace_id)"

definition document_input :: "int \<Rightarrow> string \<Rightarrow> int \<Rightarrow> DocumentInput" where
  "document_input i description now =
    \<lparr> d_symbol_id = i, d_description = Some description, d_examples_json = None, d_tags_json = None,
      d_params_json = None, d_returns_json = None, d_ai_summary = None, d_last_updated = now \<rparr>"

definition apply_document :: "DiffPlan \<Rightarrow> string \<Rightarrow> int \<Rightarrow> RawDocument \<Rightarrow> unit sql" where
  "apply_document plan workspace_id now doc =
    (if rd_symbol_fqdn doc \<notin> touched_fqdns plan then sreturn ()
     else sbind (lookup_symbol_id_by_fqdn (rd_symbol_fqdn doc) workspace_id) (\<lambda>i.
       case i of
         None \<Rightarrow> sreturn ()
       | Some sid \<Rightarrow> upsert_document (document_input sid (rd_description doc) now)))"

definition apply_documents :: "penv \<Rightarrow> DiffPlan \<Rightarrow> int list \<Rightarrow> RawDocument list \<Rightarrow> string \<Rightarrow> unit sql" where
  "apply_documents E plan new_or_modified_ids documents workspace_id =
    (if new_or_modified_ids = [] \<and> documents = [] then sreturn ()
     else sthen (sfor new_or_modified_ids delete_document)
       (if documents = [] then sreturn ()
        else sbind (slift (pe_now_docs E)) (\<lambda>now.
          sfor documents (apply_document plan workspace_id now))))"

definition apply_call_sites :: "penv \<Rightarrow> string \<Rightarrow> RawCallSite list \<Rightarrow> unit sql" where
  "apply_call_sites E file_path call_sites =
    sthen (delete_call_sites_by_file file_path)
      (sfor call_sites (\<lambda>cs. sthen (insert_call_site (pe_codec E) file_path cs) (sreturn ())))"

fun group_push :: "int \<Rightarrow> 'b \<Rightarrow> (int \<times> 'b list) list \<Rightarrow> (int \<times> 'b list) list" where
  "group_push i b [] = [(i, [b])]"
| "group_push i b ((j, bs) # gs) = (if i = j then (j, bs @ [b]) # gs else (j, bs) # group_push i b gs)"

definition group_binding ::
  "string \<Rightarrow> RawFfiBinding \<Rightarrow> (int \<times> RawFfiBinding list) list \<Rightarrow> (int \<times> RawFfiBinding list) list sql" where
  "group_binding workspace_id b groups =
    sbind (lookup_symbol_id_by_fqdn (fb_symbol_fqdn b) workspace_id) (\<lambda>i.
    sreturn (case i of None \<Rightarrow> groups | Some sid \<Rightarrow> group_push sid b groups))"

definition apply_ffi_bindings :: "RawFfiBinding list \<Rightarrow> string \<Rightarrow> unit sql" where
  "apply_ffi_bindings bindings workspace_id =
    (if bindings = [] then sreturn ()
     else sbind (sfold (group_binding workspace_id) bindings []) (\<lambda>by_symbol.
       sfor by_symbol (\<lambda>(sym_id, group).
         sthen (delete_bindings_for_symbol sym_id) (sfor group (upsert_binding sym_id)))))"

definition insert_context :: "ExtractedFile \<Rightarrow> 64 word \<Rightarrow> string \<Rightarrow> SymbolInsertContext" where
  "insert_context extracted revision workspace_id =
    \<lparr> ctx_file_path = ef_file extracted, ctx_language = ef_language extracted,
      ctx_is_external = ef_is_external extracted, ctx_source_origin = ef_source_origin extracted,
      ctx_revision = revision, ctx_workspace_id = workspace_id \<rparr>"

text \<open>The part of \<^verbatim>\<open>apply_upsert_file\<close> that writes the symbol table, and what follows it.\<close>

definition apply_symbols :: "penv \<Rightarrow> DiffPlan \<Rightarrow> SymbolInsertContext \<Rightarrow> int list sql" where
  "apply_symbols E plan ctx =
    sthen (apply_deletes plan)
    (sthen (apply_position_updates plan (ctx_revision ctx))
      (apply_inserts_and_modifications E plan ctx))"

definition apply_satellites :: "penv \<Rightarrow> ExtractedFile \<Rightarrow> DiffPlan \<Rightarrow> string \<Rightarrow> int list \<Rightarrow> unit sql" where
  "apply_satellites E extracted plan workspace_id new_or_modified_ids =
    sthen (apply_edges E plan (ef_edges extracted) workspace_id)
    (sthen (promote_unresolved_batch new_or_modified_ids)
    (sthen (apply_documents E plan new_or_modified_ids (ef_documents extracted) workspace_id)
    (sthen (apply_call_sites E (ef_file extracted) (ef_call_sites extracted))
    (sthen (apply_ffi_bindings (ef_ffi_bindings extracted) workspace_id)
      (case ef_module_lookup extracted of
         None \<Rightarrow> sreturn ()
       | Some lookup \<Rightarrow> put_module_lookup (pe_codec E) workspace_id lookup)))))"

definition apply_upsert_file :: "penv \<Rightarrow> ExtractedFile \<Rightarrow> 64 word \<Rightarrow> string \<Rightarrow> unit sql" where
  "apply_upsert_file E extracted revision workspace_id =
    sthen (upsert_file_row E extracted)
    (sbind (fetch_existing_symbols (ef_file extracted)) (\<lambda>existing.
     let plan = diff_symbols existing (ef_symbols extracted) in
     sbind (apply_symbols E plan (insert_context extracted revision workspace_id))
       (apply_satellites E extracted plan workspace_id)))"

definition fetch_symbol_ids_by_file :: "string \<Rightarrow> int list sql" where
  "fetch_symbol_ids_by_file path =
    squery (\<lambda>db. map s_id (filter (\<lambda>r. s_file_path r = path) (t_symbols db)))"

definition apply_delete_file :: "string \<Rightarrow> unit sql" where
  "apply_delete_file path =
    sbind (fetch_symbol_ids_by_file path) (\<lambda>symbol_ids.
    sthen (sfor symbol_ids delete_symbol)
    (sthen (delete_edge_sites_by_file path) (delete_file path)))"

definition record_parse_error :: "penv \<Rightarrow> string \<Rightarrow> Language \<Rightarrow> string \<Rightarrow> unit sql" where
  "record_parse_error E extracted_path language detail =
    sbind (slift (pe_now_file E)) (\<lambda>now.
    sbind (get_file extracted_path) (\<lambda>existing.
    upsert_file (case existing of
        Some prev \<Rightarrow> prev\<lparr>fi_last_scan_error := Some detail, fi_last_scanned := now\<rparr>
      | None \<Rightarrow> \<lparr> fi_path = extracted_path, fi_content_hash = replicate 32 0, fi_language = language,
                  fi_byte_size = 0, fi_last_scanned = now, fi_last_scan_error = Some detail,
                  fi_is_external = False \<rparr>)))"

section \<open>Every operation keeps the invariant\<close>

lemma keeps_batch_helpers [keeps_intros]:
  "keeps db_ok (lookup_symbol_id_by_fqdn f w)"
  "keeps db_ok (upsert_file_row E x)"
  "keeps db_ok (apply_deletes plan)"
  "keeps db_ok (fetch_existing_symbols p)"
  "keeps db_ok (fetch_symbol_ids_by_file p)"
  "keeps db_ok (apply_modification E ctx im ids)"
  "keeps db_ok (apply_insert E ctx sy ids)"
  unfolding lookup_symbol_id_by_fqdn_def upsert_file_row_def apply_deletes_def
    fetch_existing_symbols_def fetch_symbol_ids_by_file_def apply_modification_def apply_insert_def
  by (intro keeps_intros)+

lemma keeps_apply_position_updates [keeps_intros]: "keeps db_ok (apply_position_updates plan rv)"
  unfolding apply_position_updates_def by (intro keeps_intros)

lemma keeps_apply_edge [keeps_intros]: "keeps db_ok (apply_edge E plan w e)"
  unfolding apply_edge_def by (intro keeps_intros)

lemma keeps_apply_document [keeps_intros]: "keeps db_ok (apply_document plan w now d)"
  unfolding apply_document_def by (intro keeps_intros)

lemma keeps_group_binding [keeps_intros]: "keeps db_ok (group_binding w b gs)"
  unfolding group_binding_def by (intro keeps_intros)

lemma keeps_batch_steps [keeps_intros]:
  "keeps db_ok (apply_inserts_and_modifications E plan ctx)"
  "keeps db_ok (apply_edges E plan es w)"
  "keeps db_ok (apply_documents E plan ids ds w)"
  "keeps db_ok (apply_call_sites E p css)"
  "keeps db_ok (apply_ffi_bindings bs w)"
  unfolding apply_inserts_and_modifications_def apply_edges_def apply_documents_def
    apply_call_sites_def apply_ffi_bindings_def
  by (intro keeps_intros)+

lemma keeps_apply_symbols [keeps_intros]: "keeps db_ok (apply_symbols E plan ctx)"
  unfolding apply_symbols_def by (intro keeps_intros)

lemma keeps_apply_satellites [keeps_intros]: "keeps db_ok (apply_satellites E x plan w ids)"
  unfolding apply_satellites_def by (intro keeps_intros)

lemma keeps_apply_upsert_file [keeps_intros]: "keeps db_ok (apply_upsert_file E x rv w)"
  unfolding apply_upsert_file_def Let_def by (intro keeps_intros)

lemma keeps_apply_delete_file [keeps_intros]: "keeps db_ok (apply_delete_file p)"
  unfolding apply_delete_file_def by (intro keeps_intros)

lemma keeps_record_parse_error [keeps_intros]: "keeps db_ok (record_parse_error E p l d)"
  unfolding record_parse_error_def by (intro keeps_intros)

section \<open>The diff\<close>

lemma by_fqdn_None: "by_fqdn existing f = None \<longleftrightarrow> f \<notin> dr_fqdn ` set existing"
  unfolding by_fqdn_def by (induction existing rule: rev_induct) auto

lemma by_fqdn_Some: "by_fqdn existing f = Some row \<Longrightarrow> row \<in> set existing \<and> dr_fqdn row = f"
  unfolding by_fqdn_def by (induction existing rule: rev_induct) (auto split: if_splits)

definition hash_unchanged :: "DbSymbolRow \<Rightarrow> RawSymbol \<Rightarrow> bool" where
  "hash_unchanged row sy \<longleftrightarrow> map_option to_hex (rs_body_hash sy) = dr_body_hash row"

lemma diff_foldl:
  fixes m :: "string \<rightharpoonup> DbSymbolRow" and xs :: "RawSymbol list"
  defines "plan \<equiv> foldl (diff_step m)
     \<lparr> dp_inserts = [], dp_modifications = [], dp_position_updates = [], dp_deletions = [] \<rparr> xs"
  shows "dp_inserts plan = filter (\<lambda>sy. m (rs_fqdn sy) = None) xs"
    "set (dp_modifications plan) = {(dr_id row, sy) | row sy. sy \<in> set xs \<and> m (rs_fqdn sy) = Some row \<and> \<not> hash_unchanged row sy}"
    "set (dp_position_updates plan) = {(dr_id row, sy) | row sy. sy \<in> set xs \<and> m (rs_fqdn sy) = Some row \<and> hash_unchanged row sy}"
    "dp_deletions plan = []"
  unfolding plan_def
  by (induction xs rule: rev_induct)
    (auto simp: diff_step_def hash_unchanged_def split: option.splits)

lemma diff_symbols_simps:
  "dp_inserts (diff_symbols existing xs) = filter (\<lambda>sy. rs_fqdn sy \<notin> dr_fqdn ` set existing) xs"
  "set (dp_modifications (diff_symbols existing xs)) =
     {(dr_id row, sy) | row sy. sy \<in> set xs \<and> by_fqdn existing (rs_fqdn sy) = Some row \<and> \<not> hash_unchanged row sy}"
  "set (dp_position_updates (diff_symbols existing xs)) =
     {(dr_id row, sy) | row sy. sy \<in> set xs \<and> by_fqdn existing (rs_fqdn sy) = Some row \<and> hash_unchanged row sy}"
  "dp_deletions (diff_symbols existing xs) =
     map dr_id (filter (\<lambda>row. dr_fqdn row \<notin> rs_fqdn ` set xs) existing)"
  using diff_foldl[of "by_fqdn existing" xs] by (simp_all add: diff_symbols_def by_fqdn_None)

section \<open>Deleting symbols one by one\<close>

text \<open>The \<^verbatim>\<open>AUTOINCREMENT\<close> counters of symbols, edges and call sites.\<close>

definition counters :: "db \<Rightarrow> int \<times> int \<times> int" where
  "counters db = (sym_seq db, edge_seq db, call_seq db)"

text \<open>An edge after the symbols with the given ids were deleted.\<close>

definition unresolve_all :: "int list \<Rightarrow> db \<Rightarrow> edge_row \<Rightarrow> edge_row" where
  "unresolve_all ids db e =
    (case e_to_symbol_id e of
       None \<Rightarrow> e
     | Some t \<Rightarrow>
         if t \<in> set ids
         then (case lookup_by s_id t (t_symbols db) of
                 None \<Rightarrow> e | Some r \<Rightarrow> e\<lparr>e_to_unresolved := Some (s_fqdn r), e_to_symbol_id := None\<rparr>)
         else e)"

lemma unresolve_all_simps [simp]:
  "e_from_symbol_id (unresolve_all ids db e) = e_from_symbol_id e" "e_id (unresolve_all ids db e) = e_id e"
  by (auto simp: unresolve_all_def split: option.splits)

lemma lookup_filter_other: "t \<noteq> i \<Longrightarrow> lookup_by s_id t (filter (\<lambda>r. s_id r \<noteq> i) rows) = lookup_by s_id t rows"
  using lookup_delete_other[of i t s_id rows] by (simp add: delete_by_def)

lemma delete_symbol_total:
  assumes ok: "db_ok db"
  shows "\<exists>db'. delete_symbol i db = (Inr (), db') \<and> db_ok db' \<and>
    t_symbols db' = filter (\<lambda>r. s_id r \<noteq> i) (t_symbols db) \<and>
    t_files db' = t_files db \<and> t_call_sites db' = t_call_sites db \<and> counters db' = counters db \<and>
    t_edges db' = map (unresolve_all [i] db) (filter (\<lambda>e. e_from_symbol_id e \<noteq> i) (t_edges db))"
proof (cases "i \<in> sym_ids db")
  case True
  then obtain r where r: "r \<in> set (t_symbols db)" "s_id r = i" by auto
  have ok1: "db_ok (snd (delete_symbol i db))" by (rule keepsD[OF keeps_storage(3) ok])
  have "unresolve_edge i (s_fqdn r) = unresolve_all [i] db"
    using lookup_sym_id[OF ok r(1)] r(2)
    by (auto simp: unresolve_edge_def unresolve_all_def fun_eq_iff split: option.splits)
  then show ?thesis
    using delete_symbol_eq[OF ok r(1)] ok1 r(2) by (auto simp: purge_symbol_def filter_map comp_def counters_def)
next
  case False
  then have "filter (\<lambda>r. s_id r \<noteq> i) (t_symbols db) = t_symbols db" by (auto simp: filter_id_conv)
  moreover have "filter (\<lambda>e. e_from_symbol_id e \<noteq> i) (t_edges db) = t_edges db"
    using edge_from_sym[OF ok] False by (auto simp: filter_id_conv)
  moreover have "map (unresolve_all [i] db) (t_edges db) = t_edges db"
    using edge_to_sym[OF ok] False by (auto simp: unresolve_all_def split: option.splits intro!: map_idI)
  ultimately show ?thesis using delete_symbol_absent[OF ok False] ok by simp
qed

lemma unresolve_all_Cons:
  assumes "t_symbols db1 = filter (\<lambda>r. s_id r \<noteq> i) (t_symbols db)"
    and "\<And>t. e_to_symbol_id e = Some t \<Longrightarrow> t \<in> sym_ids db"
  shows "unresolve_all ids db1 (unresolve_all [i] db e) = unresolve_all (i # ids) db e"
proof (cases "e_to_symbol_id e")
  case (Some t)
  then obtain r where "lookup_by s_id t (t_symbols db) = Some r"
    using assms(2)[OF Some] lookup_by_None[of s_id t "t_symbols db"] by (cases "lookup_by s_id t (t_symbols db)") auto
  then show ?thesis
    using Some assms(1) by (cases "t = i") (auto simp: unresolve_all_def lookup_filter_other)
qed (simp add: unresolve_all_def)

lemma sfor_delete_symbol_total:
  assumes "db_ok db"
  shows "\<exists>db'. sfor ids delete_symbol db = (Inr (), db') \<and> db_ok db' \<and>
    t_symbols db' = filter (\<lambda>r. s_id r \<notin> set ids) (t_symbols db) \<and>
    t_files db' = t_files db \<and> t_call_sites db' = t_call_sites db \<and> counters db' = counters db \<and>
    t_edges db' = map (unresolve_all ids db) (filter (\<lambda>e. e_from_symbol_id e \<notin> set ids) (t_edges db))"
  using assms
proof (induction ids arbitrary: db)
  case Nil
  have "unresolve_all [] db = id" by (auto simp: unresolve_all_def fun_eq_iff split: option.splits)
  then show ?case using Nil by (auto simp: sx_apply)
next
  case (Cons i ids)
  obtain db1 where d: "delete_symbol i db = (Inr (), db1)" and ok1: "db_ok db1"
      and s1: "t_symbols db1 = filter (\<lambda>r. s_id r \<noteq> i) (t_symbols db)"
      and f1: "t_files db1 = t_files db" "t_call_sites db1 = t_call_sites db" "counters db1 = counters db"
      and e1: "t_edges db1 = map (unresolve_all [i] db) (filter (\<lambda>e. e_from_symbol_id e \<noteq> i) (t_edges db))"
    using delete_symbol_total[OF Cons.prems] by blast
  obtain db' where rest: "sfor ids delete_symbol db1 = (Inr (), db')" "db_ok db'"
      "t_symbols db' = filter (\<lambda>r. s_id r \<notin> set ids) (t_symbols db1)"
      "t_files db' = t_files db1" "t_call_sites db' = t_call_sites db1" "counters db' = counters db1"
      "t_edges db' = map (unresolve_all ids db1) (filter (\<lambda>e. e_from_symbol_id e \<notin> set ids) (t_edges db1))"
    using Cons.IH[OF ok1] by blast
  have "t_edges db' = map (unresolve_all (i # ids) db) (filter (\<lambda>e. e_from_symbol_id e \<notin> set (i # ids)) (t_edges db))"
    unfolding rest(7) e1
    using unresolve_all_Cons[OF s1] edge_to_sym[OF Cons.prems]
    by (auto simp: filter_map comp_def conj_commute)
  moreover have "sfor (i # ids) delete_symbol db = (Inr (), db')"
    using d rest(1) by (simp add: sthen_eq_Inr)
  moreover have "t_symbols db' = filter (\<lambda>r. s_id r \<notin> set (i # ids)) (t_symbols db)"
    using rest(3) s1 by (simp add: conj_commute)
  ultimately show ?case using rest f1 by simp
qed

section \<open>What the steps leave alone\<close>

text \<open>
  A view of the database that does not see the tables of edges, documents, call sites and lookups
  is not changed by the steps after the symbol writes when the extraction has no FFI binding, and
  never when it does not see the bindings either.
\<close>

locale edge_frame =
  fixes g :: "db \<Rightarrow> 'v"
  assumes g_t_edges: "\<And>db v. g (db\<lparr>t_edges := v\<rparr>) = g db"
    and g_t_edge_sites: "\<And>db v. g (db\<lparr>t_edge_sites := v\<rparr>) = g db"
    and g_edge_seq: "\<And>db v. g (db\<lparr>edge_seq := v\<rparr>) = g db"
    and g_t_documents: "\<And>db v. g (db\<lparr>t_documents := v\<rparr>) = g db"
    and g_t_call_sites: "\<And>db v. g (db\<lparr>t_call_sites := v\<rparr>) = g db"
    and g_call_seq: "\<And>db v. g (db\<lparr>call_seq := v\<rparr>) = g db"
    and g_t_module_lookups: "\<And>db v. g (db\<lparr>t_module_lookups := v\<rparr>) = g db"
    and g_t_workspace_imports: "\<And>db v. g (db\<lparr>t_workspace_imports := v\<rparr>) = g db"
begin

lemmas g_edges = g_t_edges g_t_edge_sites g_edge_seq g_t_documents g_t_call_sites g_call_seq g_t_module_lookups g_t_workspace_imports

lemma frame_stmts:
  "keeps (\<lambda>db. g db = S) (sql_insert_edge e)"
  "keeps (\<lambda>db. g db = S) (sql_update_edges u)"
  "keeps (\<lambda>db. g db = S) (sql_delete_edges_where P)"
  "keeps (\<lambda>db. g db = S) (sql_insert_edge_site r)"
  "keeps (\<lambda>db. g db = S) (sql_upsert_document d)"
  "keeps (\<lambda>db. g db = S) (sql_insert_call_site c)"
  "keeps (\<lambda>db. g db = S) (sql_replace_lookup l)"
  "keeps (\<lambda>db. g db = S) (sql_delete_imports_where Q)"
  "keeps (\<lambda>db. g db = S) (sql_insert_import i)"
  "keeps (\<lambda>db. g db = S) (smodify (\<lambda>db. db\<lparr>t_edge_sites := filter G (t_edge_sites db)\<rparr>))"
  "keeps (\<lambda>db. g db = S) (smodify (\<lambda>db. db\<lparr>t_documents := filter D (t_documents db)\<rparr>))"
  "keeps (\<lambda>db. g db = S) (smodify (\<lambda>db. db\<lparr>t_call_sites := filter C' (t_call_sites db)\<rparr>))"
  by (rule keepsI; auto simp: sql_insert_edge_def sql_update_edges_def sql_delete_edges_where_def
      delete_edges_where_def sql_insert_edge_site_def sql_upsert_document_def sql_insert_call_site_def
      sql_replace_lookup_def sql_delete_imports_where_def sql_insert_import_def
      Let_def g_edges)+

lemma frame_resolve_target: "keeps (\<lambda>db. g db = S) (resolve_target t w)"
  by (cases t) (auto simp: lookup_or_fallback_def intro!: keeps_intros)

lemma frame_steps:
  "keeps (\<lambda>db. g db = S) (lookup_symbol_id_by_fqdn f w)"
  "keeps (\<lambda>db. g db = S) (apply_edges E plan es w)"
  "keeps (\<lambda>db. g db = S) (promote_unresolved_batch ids)"
  "keeps (\<lambda>db. g db = S) (apply_documents E plan ids ds w)"
  "keeps (\<lambda>db. g db = S) (apply_call_sites E p css)"
  "keeps (\<lambda>db. g db = S) (put_module_lookup K w ml)"
  unfolding lookup_symbol_id_by_fqdn_def apply_edges_def apply_edge_def insert_edge_def insert_edge_sites_def
    promote_unresolved_batch_def apply_documents_def apply_document_def delete_document_def
    upsert_document_def apply_call_sites_def delete_call_sites_by_file_def insert_call_site_def
    put_module_lookup_def
  by (intro keeps_intros frame_stmts frame_resolve_target)+

lemma frame_satellites_without_ffi:
  "ef_ffi_bindings x = [] \<Longrightarrow> keeps (\<lambda>db. g db = S) (apply_satellites E x plan w ids)"
  unfolding apply_satellites_def by (auto simp: apply_ffi_bindings_def intro!: keeps_intros frame_steps)

lemma frame_delete_edges_from: "keeps (\<lambda>db. g db = S) (delete_edges_from i)"
  unfolding delete_edges_from_def by (intro keeps_intros frame_stmts)

end

locale satellite_frame = edge_frame +
  assumes g_t_ffi_bindings: "\<And>db v. g (db\<lparr>t_ffi_bindings := v\<rparr>) = g db"
begin

lemmas g_satellites = g_edges g_t_ffi_bindings

lemma frame_ffi_stmts:
  "keeps (\<lambda>db. g db = S) (sql_upsert_ffi f)"
  "keeps (\<lambda>db. g db = S) (smodify (\<lambda>db. db\<lparr>t_ffi_bindings := filter B (t_ffi_bindings db)\<rparr>))"
  by (rule keepsI; auto simp: sql_upsert_ffi_def g_t_ffi_bindings)+

lemma frame_satellites: "keeps (\<lambda>db. g db = S) (apply_satellites E x plan w ids)"
  unfolding apply_satellites_def apply_ffi_bindings_def group_binding_def delete_bindings_for_symbol_def
    upsert_binding_def
  by (intro keeps_intros frame_ffi_stmts frame_steps)

end

text \<open>A view that does not see the symbols either is not changed by the symbol writes.\<close>

locale symbol_frame = satellite_frame +
  assumes g_t_symbols: "\<And>db v. g (db\<lparr>t_symbols := v\<rparr>) = g db"
    and g_t_fts: "\<And>db v. g (db\<lparr>t_fts := v\<rparr>) = g db"
    and g_sym_seq: "\<And>db v. g (db\<lparr>sym_seq := v\<rparr>) = g db"
    and g_t_enrichments: "\<And>db v. g (db\<lparr>t_enrichments := v\<rparr>) = g db"
    and g_t_decl_locations: "\<And>db v. g (db\<lparr>t_decl_locations := v\<rparr>) = g db"
begin

lemmas g_symbols = g_t_symbols g_t_fts g_sym_seq g_t_enrichments g_t_decl_locations

lemma frame_symbol_stmts:
  "keeps (\<lambda>db. g db = S) (sql_upsert_symbol r)"
  "keeps (\<lambda>db. g db = S) (sql_delete_symbol i)"
  "keeps (\<lambda>db. g db = S) (smodify (update_symbol i h))"
  by (rule keepsI; auto simp: sql_upsert_symbol_def sql_delete_symbol_def purge_symbol_def update_symbol_def
      Let_def g_satellites g_symbols)+

lemma frame_delete_symbol: "keeps (\<lambda>db. g db = S) (delete_symbol i)"
  unfolding delete_symbol_def by (intro keeps_intros frame_stmts frame_symbol_stmts)

lemma frame_apply_symbols: "keeps (\<lambda>db. g db = S) (apply_symbols E plan ctx)"
  unfolding apply_symbols_def apply_deletes_def apply_position_updates_def
    update_symbol_positions_def apply_inserts_and_modifications_def apply_modification_def apply_insert_def
    insert_symbol_def
  by (intro keeps_intros frame_symbol_stmts frame_delete_symbol frame_delete_edges_from)

end

text \<open>A view that does not see the files either is not changed by any batch.\<close>

locale batch_frame = symbol_frame +
  assumes g_t_files: "\<And>db v. g (db\<lparr>t_files := v\<rparr>) = g db"
begin

lemma frame_file_stmts:
  "keeps (\<lambda>db. g db = S) (sql_upsert_file f)"
  "keeps (\<lambda>db. g db = S) (sql_delete_file p)"
proof -
  have "keeps (\<lambda>db. g db = S) (smodify (\<lambda>db. db\<lparr>t_files := delete_by f_path p (t_files db),
      t_call_sites := filter (\<lambda>r. c_file_path r \<noteq> p) (t_call_sites db)\<rparr>))"
    by (rule keepsI) (simp add: g_t_files g_satellites)
  then show "keeps (\<lambda>db. g db = S) (sql_delete_file p)"
    unfolding sql_delete_file_def sql_delete_symbols_where_def
    by (intro keeps_intros frame_symbol_stmts)
  show "keeps (\<lambda>db. g db = S) (sql_upsert_file f)"
    by (rule keepsI) (simp add: sql_upsert_file_def g_t_files)
qed

lemma frame_batch:
  "keeps (\<lambda>db. g db = S) (upsert_file_row E x)"
  "keeps (\<lambda>db. g db = S) (apply_upsert_file E x rv w)"
  "keeps (\<lambda>db. g db = S) (apply_delete_file p)"
  "keeps (\<lambda>db. g db = S) (record_parse_error E p l d)"
  unfolding apply_upsert_file_def upsert_file_row_def upsert_file_def fetch_existing_symbols_def Let_def
    apply_delete_file_def fetch_symbol_ids_by_file_def delete_edge_sites_by_file_def delete_file_def
    record_parse_error_def get_file_def
  by (intro keeps_intros frame_stmts frame_file_stmts frame_satellites frame_apply_symbols frame_delete_symbol)+

end

interpretation bindings: edge_frame t_ffi_bindings
  by unfold_locales simp_all

interpretation syms: satellite_frame t_symbols
  by unfold_locales simp_all

interpretation files: symbol_frame t_files
  by unfold_locales simp_all

interpretation meta: batch_frame t_schema_meta
  by unfold_locales simp_all

lemma sym_frame_file_row: "keeps (\<lambda>db. t_symbols db = S) (upsert_file_row E x)"
  unfolding upsert_file_row_def upsert_file_def
  by (intro keeps_intros keepsI) (auto simp: sql_upsert_file_def map_err_def)

section \<open>The symbols of a file\<close>

definition file_syms :: "string \<Rightarrow> db \<Rightarrow> (int \<times> string) set" where
  "file_syms p db = (\<lambda>r. (s_id r, s_fqdn r)) ` {r \<in> set (t_symbols db). s_file_path r = p}"

text \<open>Paths are scoped per workspace (\<^verbatim>\<open>peer_path\<close>): the rows of a path belong to one workspace.\<close>

definition path_owned :: "string \<Rightarrow> string \<Rightarrow> db \<Rightarrow> bool" where
  "path_owned w p db \<longleftrightarrow> (\<forall>r\<in>set (t_symbols db). s_file_path r = p \<longrightarrow> s_workspace_id r = w)"

lemma file_syms_cong: "t_symbols db = t_symbols db' \<Longrightarrow> file_syms p db = file_syms p db'"
  by (simp add: file_syms_def)

lemma insert_symbol_file_syms:
  assumes ok: "db_ok db" and own: "path_owned (ctx_workspace_id ctx) (ctx_file_path ctx) db"
    and ins: "insert_symbol K sy ctx db = (Inr i, db')"
  shows "path_owned (ctx_workspace_id ctx) (ctx_file_path ctx) db'"
    and "file_syms (ctx_file_path ctx) db' = insert (i, rs_fqdn sy) (file_syms (ctx_file_path ctx) db)"
proof -
  let ?w = "ctx_workspace_id ctx" and ?p = "ctx_file_path ctx"
  obtain j where i: "i = upsert_id (?w, rs_fqdn sy) db" and db': "db' = upserted_db (symbol_row K sy ctx j) db"
    using insert_symbol_Inr[OF ok ins] by metis
  have set': "set (t_symbols db') = insert ((symbol_row K sy ctx j)\<lparr>s_id := i\<rparr>)
      {q \<in> set (t_symbols db). sym_key q \<noteq> (?w, rs_fqdn sy)}"
    using upserted_rows_set[OF ok, of "symbol_row K sy ctx j"] by (simp add: db' i)
  show "path_owned ?w ?p db'" using own set' by (auto simp: path_owned_def)
  have same: "s_id q = i" if "q \<in> set (t_symbols db)" "sym_key q = (?w, rs_fqdn sy)" for q
    using lookup_sym_key[OF ok that(1)] that(2) by (simp add: i upsert_id_def)
  let ?g = "\<lambda>r. (s_id r, s_fqdn r)"
  let ?A = "{q \<in> set (t_symbols db). s_file_path q = ?p \<and> sym_key q \<noteq> (?w, rs_fqdn sy)}"
  let ?B = "{q \<in> set (t_symbols db). s_file_path q = ?p \<and> sym_key q = (?w, rs_fqdn sy)}"
  have "{r \<in> set (t_symbols db'). s_file_path r = ?p} = insert ((symbol_row K sy ctx j)\<lparr>s_id := i\<rparr>) ?A"
    unfolding set' by auto
  then have new: "file_syms ?p db' = insert (i, rs_fqdn sy) (?g ` ?A)" by (simp add: file_syms_def)
  have "{r \<in> set (t_symbols db). s_file_path r = ?p} = ?A \<union> ?B" by auto
  then have old: "file_syms ?p db = ?g ` ?A \<union> ?g ` ?B" by (simp add: file_syms_def image_Un)
  have "?g ` ?B \<subseteq> {(i, rs_fqdn sy)}" using same by (auto simp: sym_key_def)
  then show "file_syms ?p db' = insert (i, rs_fqdn sy) (file_syms ?p db)" unfolding new old by auto
qed

definition sym_core :: "sym_row \<Rightarrow> int \<times> string \<times> string \<times> string \<times> string option" where
  "sym_core r = (s_id r, s_fqdn r, s_file_path r, s_workspace_id r, s_body_hash r)"

lemma file_syms_core: "file_syms p db = {(i, f). \<exists>w h. (i, f, p, w, h) \<in> set (map sym_core (t_symbols db))}"
  by (force simp: file_syms_def sym_core_def)

lemma path_owned_core: "path_owned w p db \<longleftrightarrow> (\<forall>(i, f, q, v, h) \<in> set (map sym_core (t_symbols db)). q = p \<longrightarrow> v = w)"
  by (force simp: path_owned_def sym_core_def)

lemma core_frame_positions: "keeps (\<lambda>db. map sym_core (t_symbols db) = M) (apply_position_updates plan v)"
proof -
  have "sym_core (set_positions l v r) = sym_core r" for l v r
    by (simp add: sym_core_def set_positions_def)
  then have "keeps (\<lambda>db. map sym_core (t_symbols db) = M) (update_symbol_positions i l v)" for i l v
    unfolding update_symbol_positions_def
    by (intro keeps_map_err keepsI) (auto simp: update_symbol_def)
  then show ?thesis unfolding apply_position_updates_def by (intro keeps_intros) 
qed

lemma apply_modification_step:
  assumes ok: "db_ok db" and own: "path_owned (ctx_workspace_id ctx) (ctx_file_path ctx) db"
    and run: "apply_modification E ctx im ids db = (Inr ids', db')"
  shows "db_ok db' \<and> path_owned (ctx_workspace_id ctx) (ctx_file_path ctx) db' \<and>
    (\<exists>i. file_syms (ctx_file_path ctx) db' = insert (i, rs_fqdn (snd im)) (file_syms (ctx_file_path ctx) db))"
proof -
  obtain i db1 n where ins: "insert_symbol (pe_codec E) (snd im) ctx db = (Inr i, db1)"
      and del: "delete_edges_from i db1 = (Inr n, db')"
    using run unfolding apply_modification_def
    by (auto elim!: sbind_InrE sthen_InrE simp: sx_apply)
  have "t_symbols db' = t_symbols db1"
    by (rule keeps_result[OF syms.frame_delete_edges_from[of "t_symbols db1"] refl del])
  moreover have "db_ok db'" by (rule keeps_result[OF keeps_batch_helpers(6) ok run])
  ultimately show ?thesis
    using insert_symbol_file_syms[OF ok own ins] file_syms_cong[of db' db1] by (auto simp: path_owned_def)
qed

lemma sfold_modifications:
  assumes "db_ok db" "path_owned (ctx_workspace_id ctx) (ctx_file_path ctx) db"
    and "sfold (apply_modification E ctx) xs ids db = (Inr ids', db')"
  shows "db_ok db' \<and> path_owned (ctx_workspace_id ctx) (ctx_file_path ctx) db' \<and>
    file_syms (ctx_file_path ctx) db \<subseteq> file_syms (ctx_file_path ctx) db' \<and>
    snd ` file_syms (ctx_file_path ctx) db' = snd ` file_syms (ctx_file_path ctx) db \<union> (rs_fqdn \<circ> snd) ` set xs"
  using assms
proof (induction xs arbitrary: ids db)
  case Nil
  then show ?case by (simp add: sx_apply)
next
  case (Cons x xs)
  then obtain ids1 db1 where s: "apply_modification E ctx x ids db = (Inr ids1, db1)"
      "sfold (apply_modification E ctx) xs ids1 db1 = (Inr ids', db')"
    by (auto elim: sbind_InrE)
  note st = apply_modification_step[OF Cons.prems(1,2) s(1)]
  with Cons.IH[OF _ _ s(2)] show ?case by auto
qed

lemma sfold_inserts:
  assumes "db_ok db" "path_owned (ctx_workspace_id ctx) (ctx_file_path ctx) db"
    and "sfold (apply_insert E ctx) xs ids db = (Inr ids', db')"
  shows "db_ok db' \<and> path_owned (ctx_workspace_id ctx) (ctx_file_path ctx) db' \<and>
    file_syms (ctx_file_path ctx) db \<subseteq> file_syms (ctx_file_path ctx) db' \<and>
    snd ` file_syms (ctx_file_path ctx) db' = snd ` file_syms (ctx_file_path ctx) db \<union> rs_fqdn ` set xs"
  using assms
proof (induction xs arbitrary: ids db)
  case Nil
  then show ?case by (simp add: sx_apply)
next
  case (Cons x xs)
  then obtain i db1 where s: "insert_symbol (pe_codec E) x ctx db = (Inr i, db1)"
      "sfold (apply_insert E ctx) xs (ids @ [i]) db1 = (Inr ids', db')"
    unfolding apply_insert_def by (auto elim!: sbind_InrE simp: sx_apply)
  have "db_ok db1" by (rule keeps_result[OF keeps_storage(1) Cons.prems(1) s(1)])
  with Cons.IH[OF _ _ s(2)] insert_symbol_file_syms[OF Cons.prems(1,2) s(1)] show ?case by auto
qed

lemma apply_symbols_file_syms:
  assumes ok: "db_ok db" and own: "path_owned (ctx_workspace_id ctx) (ctx_file_path ctx) db"
    and plan: "plan = diff_symbols (map db_symbol_row (filter (\<lambda>r. s_file_path r = ctx_file_path ctx) (t_symbols db))) xs"
    and run: "apply_symbols E plan ctx db = (Inr ids, db')"
  shows "db_ok db' \<and> path_owned (ctx_workspace_id ctx) (ctx_file_path ctx) db' \<and>
    {(i, f) \<in> file_syms (ctx_file_path ctx) db. f \<in> rs_fqdn ` set xs} \<subseteq> file_syms (ctx_file_path ctx) db' \<and>
    snd ` file_syms (ctx_file_path ctx) db' = rs_fqdn ` set xs"
proof -
  let ?p = "ctx_file_path ctx"
  let ?ex = "map db_symbol_row (filter (\<lambda>r. s_file_path r = ?p) (t_symbols db))"
  obtain db1 u db2 v ids1 db3 where s: "apply_deletes plan db = (Inr u, db1)"
      "apply_position_updates plan (ctx_revision ctx) db1 = (Inr v, db2)"
      "sfold (apply_modification E ctx) (dp_modifications plan) [] db2 = (Inr ids1, db3)"
      "sfold (apply_insert E ctx) (dp_inserts plan) ids1 db3 = (Inr ids, db')"
    using run unfolding apply_symbols_def apply_inserts_and_modifications_def
    by (auto elim!: sbind_InrE sthen_InrE)
  have s1: "t_symbols db1 = filter (\<lambda>r. s_id r \<notin> set (dp_deletions plan)) (t_symbols db)" and ok1: "db_ok db1"
    using sfor_delete_symbol_total[OF ok, of "dp_deletions plan"] s(1) by (auto simp: apply_deletes_def)
  have "s_id r \<in> set (dp_deletions plan) \<longleftrightarrow> s_fqdn r \<notin> rs_fqdn ` set xs"
    if "r \<in> set (t_symbols db)" "s_file_path r = ?p" for r
    unfolding plan diff_symbols_simps using that sym_id_inj[OF ok]
    by (auto simp: db_symbol_row_def image_iff) blast
  then have "{r \<in> set (t_symbols db1). s_file_path r = ?p} =
      {r \<in> set (t_symbols db). s_file_path r = ?p \<and> s_fqdn r \<in> rs_fqdn ` set xs}"
    unfolding s1 by auto
  then have f1: "file_syms ?p db1 = {(i, f) \<in> file_syms ?p db. f \<in> rs_fqdn ` set xs}"
    unfolding file_syms_def by force
  have own1: "path_owned (ctx_workspace_id ctx) ?p db1" using own by (auto simp: path_owned_def s1)
  have core: "map sym_core (t_symbols db2) = map sym_core (t_symbols db1)"
    by (rule keeps_result[OF core_frame_positions refl s(2)])
  have ok2: "db_ok db2" by (rule keeps_result[OF keeps_apply_position_updates ok1 s(2)])
  have f2: "file_syms ?p db2 = file_syms ?p db1" and own2: "path_owned (ctx_workspace_id ctx) ?p db2"
    using own1 unfolding file_syms_core path_owned_core core by auto
  note m = sfold_modifications[OF ok2 own2 s(3)]
  note ins = sfold_inserts[OF _ _ s(4)]
  have "(rs_fqdn \<circ> snd) ` set (dp_modifications plan) \<subseteq> rs_fqdn ` set xs"
    unfolding plan diff_symbols_simps by auto
  moreover have "rs_fqdn ` set xs \<subseteq> snd ` file_syms ?p db1 \<union> rs_fqdn ` set (dp_inserts plan)"
    unfolding plan diff_symbols_simps f1 by (auto simp: file_syms_def db_symbol_row_def image_iff) blast+
  moreover have "rs_fqdn ` set (dp_inserts plan) \<subseteq> rs_fqdn ` set xs"
    unfolding plan diff_symbols_simps by auto
  ultimately show ?thesis using m ins f1 f2 by auto
qed

section \<open>The symbols of the other files\<close>

definition other_syms :: "string \<Rightarrow> db \<Rightarrow> sym_row set" where
  "other_syms p db = {r \<in> set (t_symbols db). s_file_path r \<noteq> p}"

lemma insert_symbol_other_syms:
  assumes ok: "db_ok db" and ins: "insert_symbol K sy ctx db = (Inr i, db')"
  shows "other_syms (ctx_file_path ctx) db' =
    {r \<in> other_syms (ctx_file_path ctx) db. sym_key r \<noteq> (ctx_workspace_id ctx, rs_fqdn sy)}"
proof -
  obtain j where db': "db' = upserted_db (symbol_row K sy ctx j) db"
    using insert_symbol_Inr[OF ok ins] by metis
  show ?thesis
    using upserted_rows_set[OF ok, of "symbol_row K sy ctx j"] by (auto simp: db' other_syms_def)
qed

lemma sfold_modifications_other:
  assumes "db_ok db" and "sfold (apply_modification E ctx) xs ids db = (Inr ids', db')"
  shows "db_ok db' \<and> other_syms (ctx_file_path ctx) db' =
    {r \<in> other_syms (ctx_file_path ctx) db. sym_key r \<notin> (\<lambda>im. (ctx_workspace_id ctx, rs_fqdn (snd im))) ` set xs}"
  using assms
proof (induction xs arbitrary: ids db)
  case Nil
  then show ?case by (simp add: sx_apply)
next
  case (Cons x xs)
  then obtain ids1 db1 where s: "apply_modification E ctx x ids db = (Inr ids1, db1)"
      "sfold (apply_modification E ctx) xs ids1 db1 = (Inr ids', db')"
    by (auto elim: sbind_InrE)
  obtain i db0 n where ins: "insert_symbol (pe_codec E) (snd x) ctx db = (Inr i, db0)"
      and del: "delete_edges_from i db0 = (Inr n, db1)"
    using s(1) unfolding apply_modification_def by (auto elim!: sbind_InrE sthen_InrE simp: sx_apply)
  have "t_symbols db1 = t_symbols db0"
    by (rule keeps_result[OF syms.frame_delete_edges_from[of "t_symbols db0"] refl del])
  moreover have "db_ok db1" by (rule keeps_result[OF keeps_batch_helpers(6) Cons.prems(1) s(1)])
  ultimately show ?case
    using Cons.IH[OF _ s(2)] insert_symbol_other_syms[OF Cons.prems(1) ins] by (auto simp: other_syms_def)
qed

lemma sfold_inserts_other:
  assumes "db_ok db" and "sfold (apply_insert E ctx) xs ids db = (Inr ids', db')"
  shows "other_syms (ctx_file_path ctx) db' =
    {r \<in> other_syms (ctx_file_path ctx) db. sym_key r \<notin> (\<lambda>sy. (ctx_workspace_id ctx, rs_fqdn sy)) ` set xs}"
  using assms
proof (induction xs arbitrary: ids db)
  case Nil
  then show ?case by (simp add: sx_apply)
next
  case (Cons x xs)
  then obtain i db1 where s: "insert_symbol (pe_codec E) x ctx db = (Inr i, db1)"
      "sfold (apply_insert E ctx) xs (ids @ [i]) db1 = (Inr ids', db')"
    unfolding apply_insert_def by (auto elim!: sbind_InrE simp: sx_apply)
  have "db_ok db1" by (rule keeps_result[OF keeps_storage(1) Cons.prems(1) s(1)])
  with Cons.IH[OF _ s(2)] insert_symbol_other_syms[OF Cons.prems(1) s(1)] show ?case by auto
qed

text \<open>A position update whose ids are all of the file leaves the other files alone.\<close>

lemma position_updates_other:
  assumes "\<And>i sy r. (i, sy) \<in> set ups \<Longrightarrow> r \<in> set (t_symbols db) \<Longrightarrow> s_id r = i \<Longrightarrow> s_file_path r = p"
    and "sfor ups (\<lambda>(i, sy). update_symbol_positions i (rs_location sy) rv) db = (Inr u, db')"
  shows "other_syms p db' = other_syms p db"
  using assms
proof (induction ups arbitrary: db)
  case Nil
  then show ?case by (simp add: sx_apply)
next
  case (Cons x ups)
  obtain i sy where x: "x = (i, sy)" by (cases x)
  let ?g = "\<lambda>r. if s_id r = i then set_positions (rs_location sy) rv r else r"
  let ?db = "db\<lparr>t_symbols := map ?g (t_symbols db)\<rparr>"
  have "sfor ups (\<lambda>(i, sy). update_symbol_positions i (rs_location sy) rv) ?db = (Inr u, db')"
    using Cons.prems(2) by (simp add: x update_symbol_positions_def sthen_def sbind_def map_err_def update_symbol_def)
  moreover have "s_id (?g r) = s_id r" "s_file_path (?g r) = s_file_path r" for r by simp_all
  then have "s_file_path r = p" if "(j, s') \<in> set ups" "r \<in> set (t_symbols ?db)" "s_id r = j" for j s' r
    using that Cons.prems(1)[of j s'] by auto
  ultimately have "other_syms p db' = other_syms p ?db" using Cons.IH[of ?db] by blast
  also have "other_syms p ?db = other_syms p db"
    using Cons.prems(1)[of i sy] by (force simp: other_syms_def x)
  finally show ?case .
qed

lemma apply_symbols_other_syms:
  assumes ok: "db_ok db" and own: "path_owned (ctx_workspace_id ctx) (ctx_file_path ctx) db"
    and plan: "plan = diff_symbols (map db_symbol_row (filter (\<lambda>r. s_file_path r = ctx_file_path ctx) (t_symbols db))) xs"
    and run: "apply_symbols E plan ctx db = (Inr ids, db')"
  shows "other_syms (ctx_file_path ctx) db' =
    {r \<in> other_syms (ctx_file_path ctx) db. sym_key r \<notin> (\<lambda>sy. (ctx_workspace_id ctx, rs_fqdn sy)) ` set xs}"
proof -
  let ?p = "ctx_file_path ctx" and ?key = "\<lambda>sy. (ctx_workspace_id ctx, rs_fqdn sy)"
  let ?ex = "map db_symbol_row (filter (\<lambda>r. s_file_path r = ?p) (t_symbols db))"
  obtain db1 u db2 v ids1 db3 where s: "apply_deletes plan db = (Inr u, db1)"
      "apply_position_updates plan (ctx_revision ctx) db1 = (Inr v, db2)"
      "sfold (apply_modification E ctx) (dp_modifications plan) [] db2 = (Inr ids1, db3)"
      "sfold (apply_insert E ctx) (dp_inserts plan) ids1 db3 = (Inr ids, db')"
    using run unfolding apply_symbols_def apply_inserts_and_modifications_def
    by (auto elim!: sbind_InrE sthen_InrE)
  have s1: "t_symbols db1 = filter (\<lambda>r. s_id r \<notin> set (dp_deletions plan)) (t_symbols db)" and ok1: "db_ok db1"
    using sfor_delete_symbol_total[OF ok, of "dp_deletions plan"] s(1) by (auto simp: apply_deletes_def)
  have in_file: "s_file_path r = ?p" if "r \<in> set (t_symbols db)" "q \<in> set (t_symbols db)" "s_file_path q = ?p" "s_id r = s_id q" for r q
    using sym_id_inj[OF ok that(1,2)] that by simp
  have "s_file_path r = ?p" if r: "r \<in> set (t_symbols db)" "s_id r \<in> set (dp_deletions plan)" for r
  proof -
    from r(2) obtain q where "q \<in> set (t_symbols db)" "s_file_path q = ?p" "s_id r = s_id q"
      unfolding plan diff_symbols_simps by (auto simp: db_symbol_row_def)
    then show ?thesis using in_file[OF r(1)] by blast
  qed
  then have o1: "other_syms ?p db1 = other_syms ?p db"
    by (auto simp: other_syms_def s1)
  have ups: "s_file_path r = ?p" if up: "(i, sy) \<in> set (dp_position_updates plan)" "r \<in> set (t_symbols db1)" "s_id r = i" for i sy r
  proof -
    obtain row where row: "by_fqdn ?ex (rs_fqdn sy) = Some row" "dr_id row = i"
      using up(1) unfolding plan diff_symbols_simps by auto
    then obtain q where "q \<in> set (t_symbols db)" "s_file_path q = ?p" "s_id q = i"
      using by_fqdn_Some[OF row(1)] by (auto simp: db_symbol_row_def)
    then show ?thesis using in_file[of r q] up(2,3) by (simp add: s1)
  qed
  have o2: "other_syms ?p db2 = other_syms ?p db1"
    by (rule position_updates_other[OF ups]) (use s(2) in \<open>simp_all add: apply_position_updates_def\<close>)
  have ok2: "db_ok db2" by (rule keeps_result[OF keeps_apply_position_updates ok1 s(2)])
  note m = sfold_modifications_other[OF ok2 s(3)] and i = sfold_inserts_other[OF _ s(4)]
  have "sym_key r \<notin> ?key ` set xs \<longleftrightarrow>
      sym_key r \<notin> ?key ` (snd ` set (dp_modifications plan) \<union> set (dp_inserts plan))" if r: "r \<in> other_syms ?p db" for r
  proof -
    have "sym_key q \<noteq> sym_key r" if "q \<in> set (t_symbols db)" "s_file_path q = ?p" for q
      using sym_key_inj[OF ok that(1), of r] r that by (auto simp: other_syms_def)
    then have "rs_fqdn sy \<notin> s_fqdn ` {q \<in> set (t_symbols db). s_file_path q = ?p}" if "sym_key r = ?key sy" for sy
      using own that by (fastforce simp: path_owned_def sym_key_def)
    then have "sy \<in> set (dp_inserts plan)" if "sy \<in> set xs" "sym_key r = ?key sy" for sy
      using that unfolding plan diff_symbols_simps by (fastforce simp: db_symbol_row_def)
    moreover have "snd ` set (dp_modifications plan) \<union> set (dp_inserts plan) \<subseteq> set xs"
      unfolding plan diff_symbols_simps by auto
    ultimately show ?thesis by blast
  qed
  then show ?thesis using m i o1 o2 by (auto simp: image_iff)
qed

section \<open>An example database\<close>

text \<open>Two files: \<^verbatim>\<open>g\<close> in \<^verbatim>\<open>b.rs\<close> calls \<^verbatim>\<open>f\<close> in \<^verbatim>\<open>a.rs\<close>.\<close>

definition demo2_db :: db where
  "demo2_db = demo_db\<lparr>t_files := [demo_file, demo_file\<lparr>f_path := ''b.rs''\<rparr>],
     t_symbols := [demo_row 1 ''f'', (demo_row 2 ''g'')\<lparr>s_file_path := ''b.rs''\<rparr>]\<rparr>"

lemma demo2_db_simps [simp]:
  "t_symbols demo2_db = [demo_row 1 ''f'', (demo_row 2 ''g'')\<lparr>s_file_path := ''b.rs''\<rparr>]"
  "t_edges demo2_db = [demo_edge]" "t_files demo2_db = [demo_file, demo_file\<lparr>f_path := ''b.rs''\<rparr>]"
  "counters demo2_db = (2, 1, 0)" "t_schema_meta demo2_db = init_meta"
  by (simp_all add: demo2_db_def counters_def)

lemma demo2_db_ok [simp]: "db_ok demo2_db"
proof -
  have "sym_key ((demo_row 2 ''g'')\<lparr>s_file_path := ''b.rs''\<rparr>) = (''primary'', ''g'')"
    "sym_checks ((demo_row 2 ''g'')\<lparr>s_file_path := ''b.rs''\<rparr>)"
    using demo_row_simps[of 2 "''g''"] by (simp_all add: sym_key_def sym_checks_def)
  then show ?thesis
    by (simp add: demo2_db_def demo_db_def init_db_def db_ok_def ok_projects_def ok_ids_def ok_files_def
        ok_symbols_def ok_edges_def ok_satellite_def ok_calls_def ok_catalog_def ok_fts_def fts_doc_def
        demo_edge_def demo_file_def edge_checks_def edge_target_check_def)
qed

section \<open>Deleting a file\<close>

lemma sql_delete_file_empty:
  assumes "\<forall>r\<in>set (t_symbols db). s_file_path r \<noteq> p"
  shows "sql_delete_file p db = (Inr (), db\<lparr>t_files := delete_by f_path p (t_files db),
    t_call_sites := filter (\<lambda>r. c_file_path r \<noteq> p) (t_call_sites db)\<rparr>)"
proof -
  have "filter (\<lambda>r. s_file_path r = p) (t_symbols db) = []" using assms by (simp add: filter_empty_conv)
  then show ?thesis
    by (simp add: sql_delete_file_def sql_delete_symbols_where_def transaction_def sthen_def sbind_def sx_apply)
qed

definition file_ids :: "string \<Rightarrow> db \<Rightarrow> int list" where
  "file_ids p db = map s_id (filter (\<lambda>r. s_file_path r = p) (t_symbols db))"

lemma in_file_ids:
  "db_ok db \<Longrightarrow> r \<in> set (t_symbols db) \<Longrightarrow> s_id r \<in> set (file_ids p db) \<longleftrightarrow> s_file_path r = p"
  using sym_id_inj by (force simp: file_ids_def)

lemma apply_delete_file_run:
  assumes ok: "db_ok db"
  obtains db1 where "sfor (file_ids p db) delete_symbol db = (Inr (), db1)"
    "t_symbols db1 = filter (\<lambda>r. s_file_path r \<noteq> p) (t_symbols db)"
    "apply_delete_file p db = (Inr (), db1\<lparr>t_edge_sites := filter (\<lambda>r. es_file_path r \<noteq> p) (t_edge_sites db1),
       t_files := delete_by f_path p (t_files db), t_call_sites := filter (\<lambda>r. c_file_path r \<noteq> p) (t_call_sites db)\<rparr>)"
proof -
  obtain db1 where d: "sfor (file_ids p db) delete_symbol db = (Inr (), db1)"
      "t_symbols db1 = filter (\<lambda>r. s_id r \<notin> set (file_ids p db)) (t_symbols db)"
      "t_files db1 = t_files db" "t_call_sites db1 = t_call_sites db"
    using sfor_delete_symbol_total[OF ok, of "file_ids p db"] by blast
  let ?db2 = "db1\<lparr>t_edge_sites := filter (\<lambda>r. es_file_path r \<noteq> p) (t_edge_sites db1)\<rparr>"
  let ?db3 = "?db2\<lparr>t_files := delete_by f_path p (t_files db),
    t_call_sites := filter (\<lambda>r. c_file_path r \<noteq> p) (t_call_sites db)\<rparr>"
  have s1: "t_symbols db1 = filter (\<lambda>r. s_file_path r \<noteq> p) (t_symbols db)"
    unfolding d(2) using in_file_ids[OF ok] by (auto intro: filter_cong)
  have "sql_delete_file p ?db2 = (Inr (), ?db3)"
    using s1 d(3,4) by (subst sql_delete_file_empty) auto
  then have "apply_delete_file p db = (Inr (), ?db3)"
    using d(1) by (simp add: apply_delete_file_def fetch_symbol_ids_by_file_def file_ids_def[symmetric]
        sthen_eq_Inr delete_edge_sites_by_file_def delete_file_def)
      (simp add: sthen_def sbind_def map_err_def sx_apply)
  with d(1) s1 show thesis by (rule that)
qed



section \<open>The raw delete of a file\<close>

lemma sfor_sql_delete_blocked:
  assumes "j \<in> set ids" "j \<in> sym_ids db" "e \<in> set (t_edges db)" "e_to_symbol_id e = Some j"
    and "e_from_symbol_id e \<notin> set ids"
  shows "\<exists>db'. sfor ids sql_delete_symbol db = (Inl ConstraintCheck, db')"
  using assms
proof (induction ids arbitrary: db)
  case (Cons i ids)
  show ?case
  proof (cases "i \<in> sym_ids db \<and> list_ex (\<lambda>e. e_to_symbol_id e = Some i) (t_edges db)")
    case True
    then show ?thesis by (simp add: sthen_def sbind_def sql_delete_symbol_def)
  next
    case False
    then have ij: "j \<noteq> i" using Cons.prems by (auto simp: list_ex_iff)
    obtain db1 where d: "sql_delete_symbol i db = (Inr (), db1)" "db1 = db \<or> db1 = purge_symbol i db"
      using False that by (cases "i \<in> sym_ids db") (simp_all add: sql_delete_symbol_def)
    then have "j \<in> sym_ids db1" "e \<in> set (t_edges db1)" using Cons.prems ij by (auto simp: purge_symbol_def)
    then show ?thesis using Cons.IH[of db1] Cons.prems ij d(1) by (simp add: sthen_eq_Inr)
  qed
qed simp

text \<open>
  C32. \<^verbatim>\<open>delete_paths\<close> deletes the file row and leaves the rest to the cascades of the schema.  When
  a symbol of the file is the target of an edge that starts in another file, the \<^verbatim>\<open>SET NULL\<close>
  action breaks the exactly-one-target check: the call fails and the database is unchanged, where
  \<^verbatim>\<open>apply_delete_file\<close> succeeds.
\<close>

theorem delete_paths_blocked_by_incoming_edge:
  assumes ok: "db_ok db" and r: "r \<in> set (t_symbols db)" "s_file_path r = p"
    and e: "e \<in> set (t_edges db)" "e_to_symbol_id e = Some (s_id r)"
    and f: "f \<in> set (t_symbols db)" "s_id f = e_from_symbol_id e" "s_file_path f \<noteq> p"
  shows "delete_paths [p] db = (Inl (Sqlite ConstraintCheck), db) \<and>
    fst (apply_delete_file p db) = Inr ()"
proof
  have "s_id r \<in> set (file_ids p db)" "e_from_symbol_id e \<notin> set (file_ids p db)"
    using in_file_ids[OF ok r(1)] in_file_ids[OF ok f(1)] r f by auto
  then obtain db1 where "sfor (file_ids p db) sql_delete_symbol db = (Inl ConstraintCheck, db1)"
    using sfor_sql_delete_blocked[of "s_id r" _ db e] r e by blast
  then have "sql_delete_file p db = (Inl ConstraintCheck, db)"
    by (simp add: sql_delete_file_def sql_delete_symbols_where_def transaction_def sthen_def sbind_def
        file_ids_def)
  then show "delete_paths [p] db = (Inl (Sqlite ConstraintCheck), db)"
    by (simp add: delete_paths_def delete_path_counted_def sbind_def sthen_def map_err_def transaction_def sx_apply)
  show "fst (apply_delete_file p db) = Inr ()"
    by (rule apply_delete_file_run[OF ok, of p]) simp
qed

theorem delete_paths_blocked_by_incoming_edge_witness:
  "delete_paths [''a.rs''] demo2_db = (Inl (Sqlite ConstraintCheck), demo2_db)"
  using delete_paths_blocked_by_incoming_edge[OF demo2_db_ok, of "demo_row 1 ''f''" "''a.rs''" demo_edge
      "(demo_row 2 ''g'')\<lparr>s_file_path := ''b.rs''\<rparr>"]
  by (simp add: demo_edge_def)

end
