(* ===== verification/Batch_Total.thy ===== *)
theory Batch_Total
  imports Batch
begin

text \<open>
  Total correctness of \<^verbatim>\<open>apply_upsert_file\<close> (\<^verbatim>\<open>pipeline/batch.rs\<close>): what an extraction and a
  database need so that the batch cannot fail, and what the symbol table of the file then holds.
\<close>

section \<open>Room\<close>

text \<open>A consistent database with the file row present and room for that many new rows.\<close>

definition room :: "string \<Rightarrow> nat \<times> nat \<times> nat \<Rightarrow> db \<Rightarrow> bool" where
  "room p n db \<longleftrightarrow> db_ok db \<and> p \<in> file_paths db \<and>
     sym_seq db + int (fst n) \<le> I64_MAX \<and> edge_seq db + int (fst (snd n)) \<le> I64_MAX \<and>
     call_seq db + int (snd (snd n)) \<le> I64_MAX"

lemma room_ok: "room p n db \<Longrightarrow> db_ok db"
  by (simp add: room_def)

lemma room_mono: "room p (a', b', c') db \<Longrightarrow> a \<le> a' \<Longrightarrow> b \<le> b' \<Longrightarrow> c \<le> c' \<Longrightarrow> room p (a, b, c) db"
  by (simp add: room_def)

lemma room_frame:
  "room p n db \<Longrightarrow> db_ok db' \<Longrightarrow> file_paths db' = file_paths db \<Longrightarrow> counters db' = counters db \<Longrightarrow> room p n db'"
  by (simp add: room_def counters_def)

text \<open>An operation that always returns and leaves files and counters alone.\<close>

lemma returns_room:
  assumes "keeps db_ok m"
    and "\<And>db. db_ok db \<Longrightarrow> \<exists>x db'. m db = (Inr x, db') \<and> file_paths db' = file_paths db \<and> counters db' = counters db"
  shows "returns (room p n) m (\<lambda>_. room p n)"
proof (rule returnsI)
  fix db assume r: "room p n db"
  then obtain x db' where m: "m db = (Inr x, db')" "file_paths db' = file_paths db" "counters db' = counters db"
    using assms(2) room_ok by metis
  then show "\<exists>x t. m db = (Inr x, t) \<and> room p n t"
    using room_frame[OF r] keeps_result[OF assms(1) room_ok[OF r] m(1)] by blast
qed

section \<open>Extractions that can be stored\<close>

abbreviation isr :: "'e + 'a \<Rightarrow> bool" where
  "isr r \<equiv> \<not> isl r"

fun target_ok :: "ResolvedOrUnresolved \<Rightarrow> bool" where
  "target_ok (ResolvedOrUnresolved.UnresolvedBridge b name) = is_valid_bridge b"
| "target_ok _ = True"

definition storable :: "penv \<Rightarrow> ExtractedFile \<Rightarrow> bool" where
  "storable E x \<longleftrightarrow>
     uint (ef_byte_size x) \<le> I64_MAX \<and> isr (pe_now_file E) \<and> isr (pe_now_docs E) \<and>
     (\<forall>sy\<in>set (ef_symbols x). isr (opt_signature_json (pe_codec E) (rs_signature sy))) \<and>
     (\<forall>e\<in>set (ef_edges x). target_ok (re_to e)) \<and>
     (case ef_module_lookup x of None \<Rightarrow> True | Some ml \<Rightarrow> encode_lookup (pe_codec E) ml \<noteq> None)"

lemma isr_Inr: "isr r \<Longrightarrow> \<exists>x. r = Inr x"
  by (cases r) auto

section \<open>The steps\<close>

lemma returns_insert_symbol:
  assumes "isr (opt_signature_json K (rs_signature sy))"
  shows "returns (room (ctx_file_path ctx) (Suc a, n)) (insert_symbol K sy ctx) (\<lambda>_. room (ctx_file_path ctx) (a, n))"
proof (rule returnsI)
  fix db assume r: "room (ctx_file_path ctx) (Suc a, n) db"
  obtain j where j: "opt_signature_json K (rs_signature sy) = Inr j" using isr_Inr[OF assms] by blast
  let ?db = "upserted_db (symbol_row K sy ctx j) db"
  have run: "insert_symbol K sy ctx db = (Inr (upsert_id (ctx_workspace_id ctx, rs_fqdn sy) db), ?db)"
    using r j by (simp add: insert_symbol_eq room_def)
  then have "room (ctx_file_path ctx) (a, n) ?db"
    using r keeps_result[OF keeps_storage(1) room_ok[OF r] run] by (simp add: room_def upserted_db_def)
  with run show "\<exists>i db'. insert_symbol K sy ctx db = (Inr i, db') \<and> room (ctx_file_path ctx) (a, n) db'" by blast
qed

lemma returns_delete_edges_from: "returns (room p n) (delete_edges_from i) (\<lambda>_. room p n)"
  by (rule returns_room[OF keeps_storage(6)])
    (simp add: delete_edges_from_def sql_delete_edges_where_def delete_edges_where_def map_err_def counters_def)

lemma returns_apply_deletes: "returns (room p n) (apply_deletes plan) (\<lambda>_. room p n)"
  by (rule returns_room[OF keeps_batch_helpers(3)])
    (use sfor_delete_symbol_total[of _ "dp_deletions plan"] in \<open>fastforce simp: apply_deletes_def\<close>)

lemma returns_apply_position_updates: "returns (room p n) (apply_position_updates plan rv) (\<lambda>_. room p n)"
proof -
  have "returns (room p n) (update_symbol_positions i l rv) (\<lambda>_. room p n)" for i l
    by (rule returns_room[OF keeps_storage(2)])
      (simp add: update_symbol_positions_def map_err_def update_symbol_def counters_def)
  then show ?thesis
    unfolding apply_position_updates_def by (intro returns_sfor_const) (simp add: split_beta)
qed

lemma returns_apply_modification:
  assumes "isr (opt_signature_json (pe_codec E) (rs_signature (snd im)))"
  shows "returns (room (ctx_file_path ctx) (Suc a, n)) (apply_modification E ctx im ids)
    (\<lambda>_. room (ctx_file_path ctx) (a, n))"
  unfolding apply_modification_def
  by (intro returns_sbind[OF returns_insert_symbol[OF assms]] returns_sthen[OF returns_delete_edges_from] returns_sreturn)

lemma returns_apply_insert:
  assumes "isr (opt_signature_json (pe_codec E) (rs_signature sy))"
  shows "returns (room (ctx_file_path ctx) (Suc a, n)) (apply_insert E ctx sy ids)
    (\<lambda>_. room (ctx_file_path ctx) (a, n))"
  unfolding apply_insert_def
  by (intro returns_sbind[OF returns_insert_symbol[OF assms]] returns_sreturn)

lemma returns_apply_symbols:
  assumes sig: "\<And>sy. sy \<in> set (dp_inserts plan) \<union> snd ` set (dp_modifications plan)
      \<Longrightarrow> isr (opt_signature_json (pe_codec E) (rs_signature sy))"
  shows "returns (room (ctx_file_path ctx) (length (dp_modifications plan) + (length (dp_inserts plan) + a), n))
    (apply_symbols E plan ctx) (\<lambda>_. room (ctx_file_path ctx) (a, n))"
proof -
  let ?p = "ctx_file_path ctx" and ?i = "length (dp_inserts plan) + a"
  have mods: "returns (room ?p (length (dp_modifications plan) + ?i, n))
      (sfold (apply_modification E ctx) (dp_modifications plan) []) (\<lambda>_. room ?p (?i, n))"
    using returns_sfold[of "dp_modifications plan" "\<lambda>_ _. True" "\<lambda>a. room ?p (a, n)" "apply_modification E ctx" "[]" ?i]
      returns_apply_modification sig by auto
  have ins: "returns (room ?p (?i, n)) (sfold (apply_insert E ctx) (dp_inserts plan) ids) (\<lambda>_. room ?p (a, n))" for ids
    using returns_sfold[of "dp_inserts plan" "\<lambda>_ _. True" "\<lambda>a. room ?p (a, n)" "apply_insert E ctx" ids a]
      returns_apply_insert sig by auto
  show ?thesis
    unfolding apply_symbols_def apply_inserts_and_modifications_def
    by (intro returns_sthen[OF returns_apply_deletes] returns_sthen[OF returns_apply_position_updates]
        returns_sbind[OF mods] ins)
qed

lemma returns_upsert_file_row:
  assumes "uint (ef_byte_size x) \<le> I64_MAX" "isr (pe_now_file E)"
  shows "returns (\<lambda>db. db_ok db \<and> counters db = k) (upsert_file_row E x)
    (\<lambda>_ db. db_ok db \<and> counters db = k \<and> ef_file x \<in> file_paths db)"
proof (rule returnsI)
  fix db assume db: "db_ok db \<and> counters db = k"
  obtain now where "pe_now_file E = Inr now" using isr_Inr[OF assms(2)] by blast
  then have "\<exists>r. f_path r = ef_file x \<and>
      upsert_file_row E x db = (Inr (), db\<lparr>t_files := upsert_by f_path merge_file r (t_files db)\<rparr>)"
    using assms(1)
    by (simp add: upsert_file_row_def upsert_file_def sql_upsert_file_def map_err_def sbind_def sx_apply)
      (metis file_row.select_convs(1))
  then obtain r where r: "f_path r = ef_file x"
      and run: "upsert_file_row E x db = (Inr (), db\<lparr>t_files := upsert_by f_path merge_file r (t_files db)\<rparr>)"
    by blast
  have "lookup_by f_path (ef_file x) (upsert_by f_path merge_file r (t_files db)) \<noteq> None"
    using files_tab.lookup_upsert_same[of r "t_files db"] r by simp
  then have "ef_file x \<in> f_path ` set (upsert_by f_path merge_file r (t_files db))"
    by (simp add: lookup_by_None)
  then show "\<exists>u t. upsert_file_row E x db = (Inr u, t) \<and> (db_ok t \<and> counters t = k \<and> ef_file x \<in> file_paths t)"
    using run db keeps_result[OF keeps_batch_helpers(2) _ run] by (auto simp: counters_def)
qed

section \<open>Edges\<close>

lemma resolve_target_total:
  assumes "db_ok db" "target_ok t"
  shows "\<exists>i u. resolve_target t w db = (Inr (i, u), db) \<and> (i = None) \<noteq> (u = None) \<and>
    (case i of None \<Rightarrow> True | Some j \<Rightarrow> j \<in> sym_ids db)"
proof -
  have "\<exists>i u. lookup_or_fallback f w db = (Inr (i, u), db) \<and> (i = None) \<noteq> (u = None) \<and>
      (case i of None \<Rightarrow> True | Some j \<Rightarrow> j \<in> sym_ids db)" for f
    by (cases "lookup_by sym_key (w, f) (t_symbols db)")
      (auto simp: lookup_or_fallback_def dest: lookup_by_Some)
  then show ?thesis using assms(2) by (cases t) (auto simp: try_validate_def)
qed

lemma insert_edge_total:
  assumes ok: "db_ok db" and "i \<in> sym_ids db" "edge_seq db < I64_MAX" "target_ok (re_to e)"
  shows "\<exists>row. insert_edge K i e w db =
    (Inr (edge_seq db + 1), db\<lparr>t_edges := t_edges db @ [row], edge_seq := edge_seq db + 1\<rparr>) \<and> e_id row = edge_seq db + 1"
proof -
  obtain t u where t: "resolve_target (re_to e) w db = (Inr (t, u), db)" "(t = None) \<noteq> (u = None)"
      "case t of None \<Rightarrow> True | Some j \<Rightarrow> j \<in> sym_ids db"
    using resolve_target_total[OF ok assms(4)] by blast
  have "edge_kind_to_sql_text k \<in> {''CALLS'', ''IMPORTS'', ''EXTENDS'', ''IMPLEMENTS'', ''REFERENCES'', ''USES_TYPE''}" for k
    by (cases k) auto
  moreover have "edge_confidence_to_sql_text c \<in> {''extracted'', ''inferred'', ''ambiguous''}" for c
    by (cases c) auto
  moreover define row where "row = \<lparr> e_id = 0, e_from_symbol_id = i, e_kind = edge_kind_to_sql_text (re_kind e),
        e_to_symbol_id = t, e_to_unresolved = u, e_attributes = strs_to_json K (re_attributes e),
        e_confidence = edge_confidence_to_sql_text (re_confidence e), e_receiver_type = re_receiver_type e \<rparr>"
  ultimately have "edge_checks row" "edge_fk db row"
    using assms(2) t by (auto simp: edge_checks_def edge_target_check_def edge_fk_def)
  then have "insert_edge K i e w db = (Inr (edge_seq db + 1),
      db\<lparr>t_edges := t_edges db @ [row\<lparr>e_id := edge_seq db + 1\<rparr>], edge_seq := edge_seq db + 1\<rparr>)"
    using assms(3) t(1)
    by (simp add: insert_edge_def sbind_def map_err_def sql_insert_edge_def row_def[symmetric])
  then show ?thesis by (intro exI[of _ "row\<lparr>e_id := edge_seq db + 1\<rparr>"]) simp
qed

lemma insert_edge_sites_total:
  "i \<in> edge_ids db \<Longrightarrow> \<exists>s. insert_edge_sites i sites db = (Inr (), db\<lparr>t_edge_sites := s\<rparr>)"
proof (induction sites arbitrary: db)
  case Nil
  show ?case by (rule exI[of _ "t_edge_sites db"]) (simp add: insert_edge_sites_def sx_apply)
next
  case (Cons x xs)
  let ?r = "\<lparr> es_edge_id = i, es_file_path = site_file x, es_line = site_line x, es_col = site_col x \<rparr>"
  obtain s where s: "sql_insert_edge_site ?r db = (Inr (), db\<lparr>t_edge_sites := s\<rparr>)"
    using Cons.prems by (cases "list_ex (\<lambda>y. site_key y = site_key ?r) (t_edge_sites db)")
      (auto simp: sql_insert_edge_site_def intro: that[of "t_edge_sites db"])
  then show ?case
    using Cons.IH[of "db\<lparr>t_edge_sites := s\<rparr>"] Cons.prems
    by (auto simp: insert_edge_sites_def sthen_def sbind_def map_err_def)
qed

lemma returns_apply_edge:
  assumes "target_ok (re_to e)"
  shows "returns (room p (a, Suc b, c)) (apply_edge E plan w e) (\<lambda>_. room p (a, b, c))"
proof (rule returnsI)
  fix db assume r: "room p (a, Suc b, c) db"
  have ok: "db_ok db" by (rule room_ok[OF r])
  have weak: "room p (a, b, c) db" by (rule room_mono[OF r]) auto
  show "\<exists>u t. apply_edge E plan w e db = (Inr u, t) \<and> room p (a, b, c) t"
  proof (cases "lookup_by sym_key (w, re_from_fqdn e) (t_symbols db)")
    case None
    then show ?thesis using weak by (simp add: apply_edge_def lookup_symbol_id_by_fqdn_def sx_apply)
  next
    case (Some f)
    then have "s_id f \<in> sym_ids db" by (auto dest: lookup_by_Some)
    then obtain row where ins: "insert_edge (pe_codec E) (s_id f) e w db =
        (Inr (edge_seq db + 1), db\<lparr>t_edges := t_edges db @ [row], edge_seq := edge_seq db + 1\<rparr>)" "e_id row = edge_seq db + 1"
      using insert_edge_total[OF ok _ _ assms] r by (force simp: room_def)
    let ?db = "db\<lparr>t_edges := t_edges db @ [row], edge_seq := edge_seq db + 1\<rparr>"
    obtain s where s: "insert_edge_sites (edge_seq db + 1) (re_sites e) ?db = (Inr (), ?db\<lparr>t_edge_sites := s\<rparr>)"
      using insert_edge_sites_total[of "edge_seq db + 1" ?db "re_sites e"] ins(2) by auto
    have "\<exists>t. apply_edge E plan w e db = (Inr (), t) \<and> file_paths t = file_paths db \<and>
        sym_seq t = sym_seq db \<and> edge_seq t \<le> edge_seq db + 1 \<and> call_seq t = call_seq db"
      using ins(1) s Some
      by (auto simp: apply_edge_def lookup_symbol_id_by_fqdn_def sbind_def swhen_def sx_apply)
    then obtain t where t: "apply_edge E plan w e db = (Inr (), t)" "file_paths t = file_paths db"
        "sym_seq t = sym_seq db" "edge_seq t \<le> edge_seq db + 1" "call_seq t = call_seq db" by blast
    then have "room p (a, b, c) t"
      using r keeps_result[OF keeps_apply_edge ok t(1)] by (simp add: room_def)
    with t(1) show ?thesis by blast
  qed
qed

lemma returns_apply_edges:
  assumes "\<And>e. e \<in> set es \<Longrightarrow> target_ok (re_to e)"
  shows "returns (room p (a, length es + b, c)) (apply_edges E plan es w) (\<lambda>_. room p (a, b, c))"
  unfolding apply_edges_def
  using returns_sfor[of es "\<lambda>b. room p (a, b, c)" "apply_edge E plan w" b] returns_apply_edge assms by blast

section \<open>The other satellites\<close>

lemma returns_promote: "returns (room p n) (promote_unresolved_batch ids) (\<lambda>_. room p n)"
  by (rule returns_room[OF keeps_storage(5)]) (use promote_total[of _ ids] in \<open>fastforce simp: counters_def\<close>)

lemma returns_delete_document: "returns (room p n) (delete_document i) (\<lambda>_. room p n)"
  by (rule returns_room[OF keeps_storage(11)]) (simp add: delete_document_def map_err_def counters_def)

lemma returns_apply_document: "returns (room p n) (apply_document plan w now d) (\<lambda>_. room p n)"
proof (rule returns_room[OF keeps_apply_document])
  fix db :: db
  show "\<exists>x db'. apply_document plan w now d db = (Inr x, db') \<and> file_paths db' = file_paths db \<and> counters db' = counters db"
    by (cases "lookup_by sym_key (w, rd_symbol_fqdn d) (t_symbols db)")
      (auto simp: apply_document_def lookup_symbol_id_by_fqdn_def upsert_document_def sql_upsert_document_def
        document_input_def map_err_def counters_def sx_apply dest: lookup_by_Some)
qed

lemma returns_apply_documents:
  assumes "isr (pe_now_docs E)"
  shows "returns (room p n) (apply_documents E plan ids ds w) (\<lambda>_. room p n)"
proof -
  obtain now where now: "pe_now_docs E = Inr now" using isr_Inr[OF assms] by blast
  have "returns (room p n) (sbind (slift (pe_now_docs E)) (\<lambda>now. sfor ds (apply_document plan w now))) (\<lambda>_. room p n)"
    by (rule returns_sbind[OF returns_slift[OF now, where Q = "\<lambda>_. room p n"]])
      (auto intro: returns_sfor_const returns_apply_document)
  moreover have "returns (room p n) (sfor ids delete_document) (\<lambda>_. room p n)"
    by (intro returns_sfor_const returns_delete_document)
  ultimately show ?thesis
    unfolding apply_documents_def by (auto intro: returns_sthen returns_sreturn)
qed

lemma returns_apply_call_sites:
  "returns (room p (a, b, length css + c)) (apply_call_sites E p css) (\<lambda>_. room p (a, b, c))"
proof -
  have del: "returns (room p n) (delete_call_sites_by_file p) (\<lambda>_. room p n)" for n
    by (rule returns_room[OF keeps_storage(16)])
      (simp add: delete_call_sites_by_file_def sthen_def sbind_def map_err_def counters_def sx_apply)
  have ins: "returns (room p (a, b, Suc c)) (insert_call_site (pe_codec E) p cs) (\<lambda>_. room p (a, b, c))" for cs c
  proof (rule returnsI)
    fix db assume r: "room p (a, b, Suc c) db"
    then obtain i db' where run: "insert_call_site (pe_codec E) p cs db = (Inr i, db')"
        "file_paths db' = file_paths db" "sym_seq db' = sym_seq db" "edge_seq db' = edge_seq db" "call_seq db' = call_seq db + 1"
      by (auto simp: insert_call_site_def sql_insert_call_site_def map_err_def room_def)
    then have "room p (a, b, c) db'"
      using r keeps_result[OF keeps_storage(15) room_ok[OF r] run(1)] by (simp add: room_def)
    with run(1) show "\<exists>i t. insert_call_site (pe_codec E) p cs db = (Inr i, t) \<and> room p (a, b, c) t" by blast
  qed
  show ?thesis
    unfolding apply_call_sites_def
    by (intro returns_sthen[OF del] returns_sfor[where J = "\<lambda>c. room p (a, b, c)"] returns_sthen[OF ins] returns_sreturn)
qed

lemma group_push_keys: "fst ` set (group_push i b gs) = insert i (fst ` set gs)"
  by (induction i b gs rule: group_push.induct) auto

lemma group_binding_total:
  assumes "fst ` set gs \<subseteq> sym_ids db"
  shows "\<exists>gs'. group_binding w b gs db = (Inr gs', db) \<and> fst ` set gs' \<subseteq> sym_ids db"
proof (cases "lookup_by sym_key (w, fb_symbol_fqdn b) (t_symbols db)")
  case None
  then show ?thesis using assms by (simp add: group_binding_def lookup_symbol_id_by_fqdn_def sx_apply)
next
  case (Some r)
  then have "s_id r \<in> sym_ids db" by (auto dest: lookup_by_Some)
  then show ?thesis using assms Some
    by (simp add: group_binding_def lookup_symbol_id_by_fqdn_def sx_apply group_push_keys)
qed

lemma sfold_group_binding_total:
  "fst ` set gs \<subseteq> sym_ids db \<Longrightarrow>
    \<exists>gs'. sfold (group_binding w) bs gs db = (Inr gs', db) \<and> fst ` set gs' \<subseteq> sym_ids db"
proof (induction bs arbitrary: gs)
  case (Cons b bs)
  then obtain g1 where "group_binding w b gs db = (Inr g1, db)" "fst ` set g1 \<subseteq> sym_ids db"
    using group_binding_total[OF Cons.prems, of w b] by blast
  then show ?case using Cons.IH[of g1] by (simp add: sbind_eq_Inr)
qed (simp add: sx_apply)

text \<open>A loop body that returns whenever its symbol exists, and keeps the symbol table.\<close>

definition room_syms :: "string \<Rightarrow> nat \<times> nat \<times> nat \<Rightarrow> int set \<Rightarrow> db \<Rightarrow> bool" where
  "room_syms p n S db \<longleftrightarrow> room p n db \<and> sym_ids db = S"

lemma returns_upsert_binding:
  assumes "i \<in> S"
  shows "returns (room_syms p n S) (upsert_binding i b) (\<lambda>_. room_syms p n S)"
proof (rule returnsI)
  fix db assume r: "room_syms p n S db"
  have "direction_as_slug d \<in> {''export'', ''import''}" for d by (cases d) auto
  then obtain u db' where run: "upsert_binding i b db = (Inr u, db')"
      "file_paths db' = file_paths db" "counters db' = counters db" "t_symbols db' = t_symbols db"
    using r assms by (auto simp: upsert_binding_def sql_upsert_ffi_def ffi_checks_def map_err_def room_syms_def counters_def)
  have "db_ok db'" using r keeps_result[OF keeps_storage(17) _ run(1)] by (simp add: room_syms_def room_def)
  then show "\<exists>u t. upsert_binding i b db = (Inr u, t) \<and> room_syms p n S t"
    using run r room_frame[of p n db db'] by (auto simp: room_syms_def)
qed

lemma returns_delete_bindings: "returns (room_syms p n S) (delete_bindings_for_symbol i) (\<lambda>_. room_syms p n S)"
proof (rule returnsI)
  fix db assume r: "room_syms p n S db"
  let ?db = "db\<lparr>t_ffi_bindings := filter (\<lambda>r. fr_symbol_id r \<noteq> i) (t_ffi_bindings db)\<rparr>"
  have run: "delete_bindings_for_symbol i db = (Inr (), ?db)"
    by (simp add: delete_bindings_for_symbol_def map_err_def)
  have "db_ok ?db" using r keeps_result[OF keeps_storage(18) _ run] by (simp add: room_syms_def room_def)
  then show "\<exists>u t. delete_bindings_for_symbol i db = (Inr u, t) \<and> room_syms p n S t"
    using run r room_frame[of p n db ?db] by (auto simp: room_syms_def counters_def)
qed

lemma returns_apply_ffi_bindings: "returns (room p n) (apply_ffi_bindings bs w) (\<lambda>_. room p n)"
proof (cases "bs = []")
  case True
  then show ?thesis by (simp add: apply_ffi_bindings_def returns_sreturn)
next
  case False
  show ?thesis
  proof (rule returnsI)
    fix db assume r: "room p n db"
    obtain gs where gs: "sfold (group_binding w) bs [] db = (Inr gs, db)" "fst ` set gs \<subseteq> sym_ids db"
      using sfold_group_binding_total[of "[]" db w bs] by auto
    have "returns (room_syms p n (sym_ids db))
        (sfor gs (\<lambda>(i, group). sthen (delete_bindings_for_symbol i) (sfor group (upsert_binding i))))
        (\<lambda>_. room_syms p n (sym_ids db))"
      by (rule returns_sfor_const)
        (use gs(2) in \<open>auto intro!: returns_sthen[OF returns_delete_bindings] returns_sfor_const returns_upsert_binding\<close>)
    then show "\<exists>u t. apply_ffi_bindings bs w db = (Inr u, t) \<and> room p n t"
      using r gs(1) False by (auto simp: apply_ffi_bindings_def sbind_eq_Inr room_syms_def elim!: returnsE[where s = db])
  qed
qed

lemma returns_put_module_lookup:
  assumes "encode_lookup K ml \<noteq> None"
  shows "returns (room p n) (put_module_lookup K w ml) (\<lambda>_. room p n)"
proof (rule returns_room)
  show "keeps db_ok (put_module_lookup K w ml)" by (intro keeps_intros)
  fix db :: db
  obtain bs where bs: "encode_lookup K ml = Some bs" using assms by auto
  let ?m = "ml_module_fqdn ml"
  define row where "row = \<lparr> lk_module_fqdn = ?m, lk_workspace_id = w,
             lk_language = language_to_sql_text (ml_language ml),
             lk_built_at = i64_saturate (ml_built_at_epoch_ms ml), lk_payload = bs \<rparr>"
  let ?db1 = "db\<lparr>t_module_lookups := delete_by lookup_key (lookup_key row) (t_module_lookups db) @ [row],
     t_workspace_imports := filter (\<lambda>r. \<not> (wi_workspace_id r = w \<and> wi_module_fqdn r = ?m)) (t_workspace_imports db)\<rparr>"
  obtain ws where "sfor (dedup_imports [] (ml_imports ml)) (\<lambda>i. run (sql_insert_import (import_record_row w ?m i))) ?db1
      = (Inr (), ?db1\<lparr>t_workspace_imports := ws\<rparr>)"
    using insert_imports_fresh[of ?db1 w ?m "[]" "ml_imports ml"] by simp
  then have "put_module_lookup K w ml db = (Inr (), ?db1\<lparr>t_workspace_imports := ws\<rparr>)"
    using bs by (simp add: put_module_lookup_def sthen_def sbind_def map_err_def sql_replace_lookup_def
        sql_delete_imports_where_def row_def[symmetric])
  then show "\<exists>x db'. put_module_lookup K w ml db = (Inr x, db') \<and> file_paths db' = file_paths db \<and> counters db' = counters db"
    by (simp add: counters_def)
qed

lemma returns_apply_satellites:
  assumes st: "storable E x"
  shows "returns (room (ef_file x) (a, length (ef_edges x) + b, length (ef_call_sites x) + c))
    (apply_satellites E x plan w ids) (\<lambda>_. room (ef_file x) (a, b, c))"
proof -
  have edges: "\<And>e. e \<in> set (ef_edges x) \<Longrightarrow> target_ok (re_to e)" and docs: "isr (pe_now_docs E)"
    using st by (auto simp: storable_def)
  have "returns (room p n) (case ef_module_lookup x of None \<Rightarrow> sreturn () | Some l \<Rightarrow> put_module_lookup (pe_codec E) w l)
      (\<lambda>_. room p n)" for p n
    using st returns_put_module_lookup[of "pe_codec E"]
    by (cases "ef_module_lookup x") (auto simp: storable_def intro: returns_sreturn)
  then show ?thesis
    unfolding apply_satellites_def
    by (intro returns_sthen[OF returns_apply_edges[OF edges]] returns_sthen[OF returns_promote]
        returns_sthen[OF returns_apply_documents[OF docs]] returns_sthen[OF returns_apply_call_sites]
        returns_sthen[OF returns_apply_ffi_bindings])
qed

section \<open>The whole batch\<close>

lemma diff_step_count:
  "length (dp_modifications (foldl (diff_step m) plan xs)) + length (dp_inserts (foldl (diff_step m) plan xs))
     \<le> length (dp_modifications plan) + length (dp_inserts plan) + length xs"
proof (induction xs arbitrary: plan)
  case (Cons x xs)
  have "length (dp_modifications (diff_step m plan x)) + length (dp_inserts (diff_step m plan x))
      \<le> length (dp_modifications plan) + length (dp_inserts plan) + 1"
    by (auto simp: diff_step_def split: option.splits)
  then show ?case using Cons.IH[of "diff_step m plan x"] by simp
qed simp

lemma diff_symbols_count:
  "length (dp_modifications (diff_symbols ex xs)) + length (dp_inserts (diff_symbols ex xs)) \<le> length xs"
  using diff_step_count[of "by_fqdn ex" "\<lparr> dp_inserts = [], dp_modifications = [], dp_position_updates = [], dp_deletions = [] \<rparr>" xs]
  by (simp add: diff_symbols_def Let_def)

text \<open>Room for the rows of an extraction in the \<^verbatim>\<open>i64\<close> row ids.\<close>

definition has_room :: "ExtractedFile \<Rightarrow> db \<Rightarrow> bool" where
  "has_room x db \<longleftrightarrow> sym_seq db + int (length (ef_symbols x)) \<le> I64_MAX \<and>
     edge_seq db + int (length (ef_edges x)) \<le> I64_MAX \<and>
     call_seq db + int (length (ef_call_sites x)) \<le> I64_MAX"

text \<open>The run of a storable extraction, split at the symbol writes.\<close>

lemma apply_upsert_file_run:
  assumes ok: "db_ok db" and st: "storable E x" and room: "has_room x db"
  obtains db0 ids db1 db' where
    "upsert_file_row E x db = (Inr (), db0)" "db_ok db0" "t_symbols db0 = t_symbols db"
    "apply_symbols E (diff_symbols (map db_symbol_row (filter (\<lambda>r. s_file_path r = ef_file x) (t_symbols db))) (ef_symbols x))
       (insert_context x rv w) db0 = (Inr ids, db1)"
    "apply_satellites E x (diff_symbols (map db_symbol_row (filter (\<lambda>r. s_file_path r = ef_file x) (t_symbols db))) (ef_symbols x))
       w ids db1 = (Inr (), db')"
    "apply_upsert_file E x rv w db = (Inr (), db')" "db_ok db'" "t_symbols db' = t_symbols db1"
proof -
  let ?p = "ef_file x" and ?ctx = "insert_context x rv w"
  let ?plan = "diff_symbols (map db_symbol_row (filter (\<lambda>r. s_file_path r = ef_file x) (t_symbols db))) (ef_symbols x)"
  let ?n = "(length (ef_edges x) + 0, length (ef_call_sites x) + 0)"
  have ctx: "ctx_file_path ?ctx = ?p" by (simp add: insert_context_def)
  obtain u db0 where f: "upsert_file_row E x db = (Inr u, db0)" "db_ok db0" "counters db0 = counters db" "?p \<in> file_paths db0"
    using returns_upsert_file_row[of x E "counters db"] st ok by (auto simp: storable_def elim!: returnsE[where s = db])
  have s0: "t_symbols db0 = t_symbols db" by (rule keeps_result[OF sym_frame_file_row refl f(1)])
  have "room ?p (length (ef_symbols x), ?n) db0"
    using f room by (simp add: room_def has_room_def counters_def)
  then have r0: "room ?p (length (dp_modifications ?plan) + (length (dp_inserts ?plan) + 0), ?n) db0"
    by (rule room_mono) (use diff_symbols_count in auto)
  have "isr (opt_signature_json (pe_codec E) (rs_signature sy))"
    if "sy \<in> set (dp_inserts ?plan) \<union> snd ` set (dp_modifications ?plan)" for sy
    using that st unfolding diff_symbols_simps by (auto simp: storable_def)
  then obtain ids db1 where a: "apply_symbols E ?plan ?ctx db0 = (Inr ids, db1)" "room ?p (0, ?n) db1"
    using returns_apply_symbols[of ?plan E ?ctx 0 ?n] r0 unfolding ctx by (blast elim: returnsE)
  obtain v db' where s: "apply_satellites E x ?plan w ids db1 = (Inr v, db')"
    using returns_apply_satellites[OF st, of 0 0 0 ?plan w ids] a(2) by (blast elim: returnsE)
  have run: "apply_upsert_file E x rv w db = (Inr (), db')"
    using f(1) a(1) s by (simp add: apply_upsert_file_def fetch_existing_symbols_def sthen_eq_Inr sbind_eq_Inr s0 Let_def)
  show thesis
    by (rule that[of db0 ids db1 db'])
      (use f a(1) s run s0 keeps_result[OF keeps_apply_upsert_file ok run]
        keeps_result[OF syms.frame_satellites refl s] in auto)
qed


text \<open>A new version of \<^verbatim>\<open>a.rs\<close>: \<^verbatim>\<open>f\<close> is gone, \<^verbatim>\<open>g\<close> is unchanged, \<^verbatim>\<open>h\<close> is new.\<close>

definition demo_extracted :: ExtractedFile where
  "demo_extracted = \<lparr> ef_file = ''a.rs'', ef_language = Language.Rust, ef_source_origin = SourceOrigin.Workspace,
     ef_is_external = False, ef_content_hash = replicate 32 1, ef_byte_size = 20,
     ef_symbols = [demo_symbol ''g'', demo_symbol ''h''], ef_edges = [], ef_call_sites = [], ef_documents = [],
     ef_ffi_bindings = [], ef_module_lookup = None \<rparr>"

definition demo_env :: penv where
  "demo_env = \<lparr> pe_codec = demo_codec, pe_now_file = Inr 100, pe_now_docs = Inr 101 \<rparr>"

lemma demo_storable [simp]: "storable demo_env demo_extracted"
  by (simp add: storable_def demo_env_def demo_extracted_def I64_MAX_def demo_symbol_def opt_signature_json_def)

lemma demo_owned [simp]: "path_owned ''primary'' p demo_db"
  by (simp add: path_owned_def)


section \<open>The file row\<close>

text \<open>
  After a batch the file record read back is the one of the extraction: its hash, language and
  size, scanned now, with the error of an earlier failed parse cleared.
\<close>

theorem apply_upsert_file_records_file:
  assumes ok: "db_ok db" and st: "storable E x" and room: "has_room x db"
    and hash: "wf_hash (ef_content_hash x)" and now: "pe_now_file E = Inr now"
  shows "\<exists>db'. apply_upsert_file E x rv w db = (Inr (), db') \<and>
    get_file (ef_file x) db' = (Inr (Some \<lparr> fi_path = ef_file x, fi_content_hash = ef_content_hash x,
      fi_language = ef_language x, fi_byte_size = ef_byte_size x, fi_last_scanned = now,
      fi_last_scan_error = None, fi_is_external = ef_is_external x \<rparr>), db')"
proof (rule apply_upsert_file_run[OF ok st room, of rv w])
  fix db0 ids db1 db'
  let ?plan = "diff_symbols (map db_symbol_row (filter (\<lambda>r. s_file_path r = ef_file x) (t_symbols db))) (ef_symbols x)"
  assume a: "upsert_file_row E x db = (Inr (), db0)" "apply_symbols E ?plan (insert_context x rv w) db0 = (Inr ids, db1)"
    "apply_satellites E x ?plan w ids db1 = (Inr (), db')" "apply_upsert_file E x rv w db = (Inr (), db')"
  define row where "row = \<lparr> f_path = ef_file x, f_content_hash = to_hex (ef_content_hash x),
         f_language = language_to_sql_text (ef_language x), f_last_scanned = now,
         f_byte_size = uint (ef_byte_size x), f_last_scan_error = None,
         f_is_external = ef_is_external x, f_project_id = None \<rparr>"
  have "t_files db1 = t_files db0" by (rule keeps_result[OF files.frame_apply_symbols refl a(2)])
  moreover have "t_files db' = t_files db1" by (rule keeps_result[OF files.frame_satellites refl a(3)])
  moreover have "db0 = db\<lparr>t_files := upsert_by f_path merge_file row (t_files db)\<rparr>"
    using a(1) now st by (simp add: upsert_file_row_def upsert_file_def sql_upsert_file_def map_err_def
        sbind_def sx_apply storable_def row_def[symmetric])
  ultimately have files: "t_files db' = upsert_by f_path merge_file row (t_files db)" by simp
  have "lookup_by f_path (ef_file x) (t_files db') =
      Some (case lookup_by f_path (ef_file x) (t_files db) of None \<Rightarrow> row | Some old \<Rightarrow> merge_file old row)"
    unfolding files using files_tab.lookup_upsert_same[of row "t_files db"] by (simp add: row_def)
  then show ?thesis
    using a(4) hash by (auto simp: get_file_def sbind_def sx_apply build_file_input_def row_def merge_file_def
        split: option.splits)
qed

theorem apply_upsert_file_records_file_witness:
  "\<exists>db' f. apply_upsert_file demo_env demo_extracted 1 ''primary'' demo_db = (Inr (), db') \<and>
    get_file ''a.rs'' db' = (Inr (Some f), db') \<and> fi_content_hash f = replicate 32 1"
proof -
  have pre: "has_room demo_extracted demo_db" "wf_hash (ef_content_hash demo_extracted)" "pe_now_file demo_env = Inr 100"
    by (simp_all add: has_room_def demo_extracted_def I64_MAX_def wf_hash_def demo_env_def)
  have "ef_file demo_extracted = ''a.rs''" "ef_content_hash demo_extracted = replicate 32 1"
    by (simp_all add: demo_extracted_def)
  then show ?thesis
    using apply_upsert_file_records_file[OF demo_db_ok demo_storable pre, of 1 "''primary''"] by auto
qed

section \<open>FFI bindings\<close>

lemma keeps_binding_symbols:
  assumes "fr_symbol_id b \<notin> set (dp_deletions plan)"
  shows "keeps (\<lambda>db. b \<in> set (t_ffi_bindings db)) (apply_symbols E plan ctx)"
proof -
  have stmts: "keeps (\<lambda>db. b \<in> set (t_ffi_bindings db)) (sql_upsert_symbol r)"
    "keeps (\<lambda>db. b \<in> set (t_ffi_bindings db)) (smodify (update_symbol i h))"
    "keeps (\<lambda>db. b \<in> set (t_ffi_bindings db)) (delete_edges_from i)" for r i h
    by (rule keepsI; auto simp: sql_upsert_symbol_def update_symbol_def Let_def delete_edges_from_def
        sql_delete_edges_where_def delete_edges_where_def map_err_def)+
  have "keeps (\<lambda>db. b \<in> set (t_ffi_bindings db)) (delete_symbol i)" if "i \<noteq> fr_symbol_id b" for i
    unfolding delete_symbol_def
    by (intro keeps_intros keepsI)
      (use that in \<open>auto simp: sql_update_edges_def sql_delete_symbol_def purge_symbol_def Let_def\<close>)
  then have "keeps (\<lambda>db. b \<in> set (t_ffi_bindings db)) (sfor ids delete_symbol)" if "fr_symbol_id b \<notin> set ids" for ids
    using that by (induction ids) (auto intro!: keeps_intros)
  then have "keeps (\<lambda>db. b \<in> set (t_ffi_bindings db)) (apply_deletes plan)"
    using assms by (simp add: apply_deletes_def)
  then show ?thesis
    unfolding apply_symbols_def apply_position_updates_def update_symbol_positions_def
      apply_inserts_and_modifications_def apply_modification_def apply_insert_def insert_symbol_def
    by (intro keeps_intros stmts)
qed

text \<open>
  When the last FFI binding of a file is removed from its source, the extraction carries an
  empty list and the batch skips the binding step: every stored binding of a symbol that is still
  extracted stays in the index.
\<close>

theorem removed_ffi_bindings_survive:
  assumes ok: "db_ok db" and st: "storable E x" and room: "has_room x db"
    and none: "ef_ffi_bindings x = []"
    and b: "b \<in> set (t_ffi_bindings db)"
    and r: "r \<in> set (t_symbols db)" "s_id r = fr_symbol_id b" "s_fqdn r \<in> rs_fqdn ` set (ef_symbols x)"
  shows "\<exists>db'. apply_upsert_file E x rv w db = (Inr (), db') \<and> b \<in> set (t_ffi_bindings db')"
proof (rule apply_upsert_file_run[OF ok st room, of rv w])
  fix db0 ids db1 db'
  let ?plan = "diff_symbols (map db_symbol_row (filter (\<lambda>r. s_file_path r = ef_file x) (t_symbols db))) (ef_symbols x)"
  assume a: "upsert_file_row E x db = (Inr (), db0)" "apply_symbols E ?plan (insert_context x rv w) db0 = (Inr ids, db1)"
    "apply_satellites E x ?plan w ids db1 = (Inr (), db')" "apply_upsert_file E x rv w db = (Inr (), db')"
  have k0: "keeps (\<lambda>db. b \<in> set (t_ffi_bindings db)) (upsert_file_row E x)"
    unfolding upsert_file_row_def upsert_file_def
    by (intro keeps_intros keepsI) (auto simp: sql_upsert_file_def)
  have b0: "b \<in> set (t_ffi_bindings db0)" by (rule keeps_result[OF k0 b a(1)])
  have "s_id q \<noteq> fr_symbol_id b" if "q \<in> set (t_symbols db)" "s_fqdn q \<notin> rs_fqdn ` set (ef_symbols x)" for q
    using sym_id_inj[OF ok that(1) r(1)] r that(2) by auto
  then have "fr_symbol_id b \<notin> set (dp_deletions ?plan)"
    unfolding diff_symbols_simps by (fastforce simp: db_symbol_row_def)
  from keeps_result[OF keeps_binding_symbols[OF this] b0 a(2)] have "b \<in> set (t_ffi_bindings db1)" .
  moreover have "t_ffi_bindings db' = t_ffi_bindings db1"
    by (rule keeps_result[OF bindings.frame_satellites_without_ffi[OF none] refl a(3)])
  ultimately show ?thesis using a(4) by simp
qed

definition demo_binding :: ffi_row where
  "demo_binding = \<lparr> fr_symbol_id = 2, fr_abi = ''c'', fr_direction = ''export'', fr_abi_name = ''g'', fr_convention = None \<rparr>"

theorem removed_ffi_bindings_survive_witness:
  "\<exists>db'. apply_upsert_file demo_env demo_extracted 1 ''primary'' (demo_db\<lparr>t_ffi_bindings := [demo_binding]\<rparr>) = (Inr (), db') \<and>
    demo_binding \<in> set (t_ffi_bindings db')"
proof -
  let ?db = "demo_db\<lparr>t_ffi_bindings := [demo_binding]\<rparr>"
  have ok: "db_ok ?db"
    using demo_db_ok by (simp add: db_ok_def ok_satellite_def ffi_checks_def demo_binding_def)
  have room: "has_room demo_extracted ?db" by (simp add: has_room_def demo_extracted_def I64_MAX_def)
  have x: "ef_ffi_bindings demo_extracted = []" "''g'' \<in> rs_fqdn ` set (ef_symbols demo_extracted)"
    by (simp_all add: demo_extracted_def demo_symbol_def)
  show ?thesis
    by (rule removed_ffi_bindings_survive[OF ok demo_storable room x(1), of demo_binding "demo_row 2 ''g''"])
      (use x(2) in \<open>simp_all add: demo_binding_def\<close>)
qed

end
