(* ===== verification/Writer.thy ===== *)
theory Writer
  imports Batch_Total
begin

text \<open>
  The single writer and the bulk commits of the pipeline: \<^verbatim>\<open>commands.rs\<close>,
  \<^verbatim>\<open>pipeline/writer.rs\<close>, the path scoping of \<^verbatim>\<open>pipeline/peer_extract.rs\<close>,
  \<^verbatim>\<open>commit_outcomes\<close> and \<^verbatim>\<open>hash_matches_db\<close> of \<^verbatim>\<open>pipeline/reindex.rs\<close>, and
  \<^verbatim>\<open>cleanup_unseen\<close> of \<^verbatim>\<open>pipeline/cold_start.rs\<close>.

  Each command comes with the readings of the environment taken while it runs: what the pool
  gives (\<^const>\<open>None\<close> while a rescan has swapped it out, an error when no connection can be had)
  and the \<^verbatim>\<open>penv\<close> of the batch.  A command runs inside one immediate transaction, so a failing
  command is rolled back whole.  The temporary table \<^verbatim>\<open>seen_paths\<close> is the list it is filled from.
\<close>

section \<open>commands.rs\<close>

datatype IngestCommand =
    UpsertFile (uf_path: string) (uf_extracted: ExtractedFile)
  | DeleteFile (df_path: string)
  | RecordParseError (pr_path: string) (pr_language: Language) (pr_detail: string)
  | UpsertPeerFile (up_workspace_id: string) (up_path: string) (up_extracted: ExtractedFile)
  | DeletePeerFile (dp_workspace_id: string) (dp_path: string)
  | RecordPeerParseError (pp_workspace_id: string) (pp_path: string) (pp_language: Language) (pp_detail: string)
  | RescanFromScratch

section \<open>peer\_extract.rs: path scoping\<close>

definition peer_path :: "string \<Rightarrow> string \<Rightarrow> string" where
  "peer_path workspace_id rel =
    (if workspace_id = PRIMARY_WORKSPACE_ID then rel else ''ws:'' @ workspace_id @ '':'' @ rel)"

definition scope_symbol :: "string \<Rightarrow> RawSymbol \<Rightarrow> RawSymbol" where
  "scope_symbol scoped sy = sy\<lparr>rs_location := (rs_location sy)\<lparr>loc_file := scoped\<rparr>\<rparr>"

definition scope_edge :: "string \<Rightarrow> RawEdge \<Rightarrow> RawEdge" where
  "scope_edge scoped e = e\<lparr>re_sites := map (\<lambda>s. s\<lparr>site_file := scoped\<rparr>) (re_sites e)\<rparr>"

definition scope_call_site :: "string \<Rightarrow> RawCallSite \<Rightarrow> RawCallSite" where
  "scope_call_site scoped cs = cs\<lparr>cs_site := (cs_site cs)\<lparr>site_file := scoped\<rparr>\<rparr>"

definition scope_extracted_paths :: "ExtractedFile \<Rightarrow> string \<Rightarrow> ExtractedFile" where
  "scope_extracted_paths extracted workspace_id =
    (if workspace_id = PRIMARY_WORKSPACE_ID then extracted
     else let scoped = peer_path workspace_id (ef_file extracted) in
       extracted\<lparr>ef_file := scoped,
         ef_symbols := map (scope_symbol scoped) (ef_symbols extracted),
         ef_edges := map (scope_edge scoped) (ef_edges extracted),
         ef_call_sites := map (scope_call_site scoped) (ef_call_sites extracted)\<rparr>)"

section \<open>writer.rs\<close>

text \<open>\<^verbatim>\<open>u64::saturating_add(1)\<close>; \<^verbatim>\<open>u64::MAX\<close> is the word \<^term>\<open>- 1\<close>.\<close>

definition saturating_succ :: "64 word \<Rightarrow> 64 word" where
  "saturating_succ w = (if w = - 1 then w else w + 1)"

fun dispatch :: "penv \<Rightarrow> IngestCommand \<Rightarrow> 64 word \<Rightarrow> unit sql" where
  "dispatch E (UpsertFile path extracted) revision =
     apply_upsert_file E extracted revision PRIMARY_WORKSPACE_ID"
| "dispatch E (DeleteFile path) revision = apply_delete_file path"
| "dispatch E (RecordParseError path language detail) revision = record_parse_error E path language detail"
| "dispatch E (UpsertPeerFile workspace_id path extracted) revision =
     apply_upsert_file E (scope_extracted_paths extracted workspace_id) revision workspace_id"
| "dispatch E (DeletePeerFile workspace_id path) revision = apply_delete_file (peer_path workspace_id path)"
| "dispatch E (RecordPeerParseError workspace_id path language detail) revision =
     record_parse_error E (peer_path workspace_id path) language detail"
| "dispatch E RescanFromScratch revision = sthrow RescanInProgress"

text \<open>The \<^verbatim>\<open>Option<Pool>\<close> behind the lock, and what \<^verbatim>\<open>pool.get\<close> and \<^verbatim>\<open>BEGIN IMMEDIATE\<close> return.\<close>

type_synonym pool = "(StorageError + unit) option"

definition acquire_pool :: "pool \<Rightarrow> unit sql" where
  "acquire_pool pool = (case pool of None \<Rightarrow> sthrow RescanInProgress | Some conn \<Rightarrow> slift conn)"

definition process_command :: "pool \<Rightarrow> penv \<Rightarrow> IngestCommand \<Rightarrow> unit sql" where
  "process_command pool E cmd =
    sthen (acquire_pool pool)
    (transaction
      (sbind read_revision (\<lambda>current_revision.
       let next_revision = saturating_succ current_revision in
       sthen (dispatch E cmd next_revision) (set_revision next_revision))))"

text \<open>The loop drops the error of a command (it is logged) and goes on with the next one.\<close>

fun writer_loop :: "(pool \<times> penv \<times> IngestCommand) list \<Rightarrow> db \<Rightarrow> db" where
  "writer_loop [] db = db"
| "writer_loop ((pool, E, cmd) # rx) db = writer_loop rx (snd (process_command pool E cmd db))"

section \<open>reindex.rs and cold\_start.rs\<close>

datatype Outcome =
    Upsert (o_rel: string) (o_extracted: ExtractedFile)
  | ParseError (o_rel: string) (o_language: Language) (o_detail: string)
  | Skip (o_rel: string)

definition hash_matches_db :: "string \<Rightarrow> Blake3Hash \<Rightarrow> bool sql" where
  "hash_matches_db rel new_hash =
    squery (\<lambda>db. case lookup_by f_path rel (t_files db) of
      None \<Rightarrow> False | Some r \<Rightarrow> f_content_hash r = to_hex new_hash)"

fun commit_outcome :: "64 word \<Rightarrow> penv \<times> Outcome \<Rightarrow> unit sql" where
  "commit_outcome next_revision (E, Upsert rel extracted) =
     apply_upsert_file E extracted next_revision PRIMARY_WORKSPACE_ID"
| "commit_outcome next_revision (E, ParseError rel language detail) = record_parse_error E rel language detail"
| "commit_outcome next_revision (E, Skip rel) = sreturn ()"

definition is_skip :: "Outcome \<Rightarrow> bool" where
  "is_skip o' = (case o' of Skip rel \<Rightarrow> True | _ \<Rightarrow> False)"

definition commit_outcomes :: "(penv \<times> Outcome) list \<Rightarrow> unit sql" where
  "commit_outcomes outcomes =
    (if list_all (\<lambda>(E, o'). is_skip o') outcomes then sreturn ()
     else sbind (squery handle_revision) (\<lambda>revision.
       sthen (transaction (sfor outcomes (commit_outcome (saturating_succ revision))))
         handle_bump_revision))"

definition missing_paths :: "string list \<Rightarrow> db \<Rightarrow> string list" where
  "missing_paths seen db = map f_path (filter (\<lambda>r. \<not> f_is_external r \<and> f_path r \<notin> set seen) (t_files db))"

definition cleanup_unseen :: "string list \<Rightarrow> unit sql" where
  "cleanup_unseen seen =
    sbind (transaction
      (sbind (squery (missing_paths seen)) (\<lambda>missing.
       sthen (sfor missing apply_delete_file) (sreturn (length missing))))) (\<lambda>removed.
    swhen (0 < removed) handle_bump_revision)"

section \<open>Every command keeps the invariant\<close>

lemma keeps_dispatch [keeps_intros]: "keeps db_ok (dispatch E cmd rv)"
  by (cases cmd) (auto intro!: keeps_intros)

lemma keeps_process_command [keeps_intros]: "keeps db_ok (process_command pool E cmd)"
  unfolding process_command_def acquire_pool_def Let_def by (intro keeps_intros)

lemma keeps_commit_outcome [keeps_intros]: "keeps db_ok (commit_outcome rv eo)"
  by (cases "(rv, eo)" rule: commit_outcome.cases) (auto intro!: keeps_intros)

lemma keeps_commit_outcomes [keeps_intros]: "keeps db_ok (commit_outcomes os)"
  unfolding commit_outcomes_def by (intro keeps_intros)

lemma keeps_cleanup_unseen [keeps_intros]: "keeps db_ok (cleanup_unseen seen)"
  unfolding cleanup_unseen_def by (intro keeps_intros)

lemma meta_frame_dispatch: "keeps (\<lambda>db. t_schema_meta db = M) (dispatch E cmd rv)"
  by (cases cmd) (auto intro!: keeps_intros meta.frame_batch)

section \<open>Atomicity and the revision\<close>

lemma process_command_cases:
  assumes "process_command pool E cmd db = (res, db')"
  obtains (failed) e where "res = Inl e" "db' = db"
  | (committed) v db1 where "res = Inr ()" "read_revision db = (Inr v, db)"
      "dispatch E cmd (saturating_succ v) db = (Inr (), db1)"
      "db' = set_meta REVISION_KEY (u64_to_string (saturating_succ v)) db1"
proof (cases res)
  case (Inl e)
  have "db' = db"
    using assms Inl
    by (cases pool) (auto simp: process_command_def acquire_pool_def sthen_def sbind_def sx_apply transaction_def
        split: prod.splits sum.splits)
  with Inl failed show thesis by blast
next
  case (Inr u)
  obtain v t db1 where r: "read_revision db = (Inr v, t)"
      and d: "dispatch E cmd (saturating_succ v) t = (Inr (), db1)"
      and s: "set_revision (saturating_succ v) db1 = (Inr (), db')"
    using assms Inr
    by (cases pool) (auto simp: process_command_def acquire_pool_def sx_apply transaction_Inr Let_def slift_def
        elim!: sthen_InrE sbind_InrE)
  note t = read_revision_Inr[OF r]
  have "t_schema_meta db1 = t_schema_meta t" by (rule keeps_result[OF meta_frame_dispatch refl d])
  then have "db' = set_meta REVISION_KEY (u64_to_string (saturating_succ v)) db1"
    using s t by (simp add: set_revision_eq)
  then show thesis using r d t Inr committed by auto
qed

lemma revision_zero: "t_schema_meta db = init_meta \<Longrightarrow> read_revision db = (Inr 0, db)"
proof -
  assume "t_schema_meta db = init_meta"
  moreover have "digit_char 0 = CHR ''0''" by code_simp
  ultimately have "t_schema_meta db REVISION_KEY = Some (u64_to_string 0)"
    by (simp add: init_meta_def REVISION_KEY_def u64_to_string_def nat_to_dec.simps)
  then show ?thesis by (simp add: read_revision_def meta_value_def sbind_def sx_apply)
qed

text \<open>
  C2. A writer command is atomic: when it fails, for whatever reason (no pool, no connection, an
  unreadable revision, a failing write), the database is exactly as before; when it succeeds, the
  database is consistent and the stored revision is the old one plus one (saturating).
\<close>

theorem process_command_atomic:
  assumes ok: "db_ok db"
  shows "case process_command pool E cmd db of
      (Inl e, db') \<Rightarrow> db' = db
    | (Inr u, db') \<Rightarrow> db_ok db' \<and>
        (\<exists>v. read_revision db = (Inr v, db) \<and> read_revision db' = (Inr (saturating_succ v), db'))"
proof (cases "process_command pool E cmd db")
  case (Pair res db')
  then show ?thesis
  proof (cases rule: process_command_cases)
    case committed
    then show ?thesis using Pair keeps_result[OF keeps_process_command ok Pair] by auto
  qed (simp add: Pair)
qed

theorem process_command_atomic_witness:
  "process_command (Some (Inr ())) demo_env RescanFromScratch demo_db = (Inl RescanInProgress, demo_db) \<and>
   (case process_command None demo_env (DeleteFile ''a.rs'') demo_db of (Inl e, db') \<Rightarrow> db' = demo_db | (Inr u, db') \<Rightarrow> db_ok db')"
proof
  have run: "fst (process_command (Some (Inr ())) demo_env RescanFromScratch demo_db) = Inl RescanInProgress"
    using revision_zero[of demo_db]
    by (simp add: process_command_def acquire_pool_def sthen_def sbind_def sx_apply transaction_def Let_def)
  then show "process_command (Some (Inr ())) demo_env RescanFromScratch demo_db = (Inl RescanInProgress, demo_db)"
    using process_command_atomic[OF demo_db_ok, of "Some (Inr ())" demo_env RescanFromScratch]
    by (cases "process_command (Some (Inr ())) demo_env RescanFromScratch demo_db") auto
  show "case process_command None demo_env (DeleteFile ''a.rs'') demo_db of (Inl e, db') \<Rightarrow> db' = demo_db | (Inr u, db') \<Rightarrow> db_ok db'"
    using process_command_atomic[OF demo_db_ok, of None demo_env "DeleteFile ''a.rs''"]
    by (auto split: prod.splits sum.splits)
qed

text \<open>How many commands of a queue the writer commits.\<close>

fun committed :: "(pool \<times> penv \<times> IngestCommand) list \<Rightarrow> db \<Rightarrow> nat" where
  "committed [] db = 0"
| "committed ((pool, E, cmd) # rx) db =
    (case process_command pool E cmd db of
       (Inl e, db') \<Rightarrow> committed rx db'
     | (Inr u, db') \<Rightarrow> Suc (committed rx db'))"

lemma unat_saturating_succ: "unat (saturating_succ v) = min (unat v + 1) (2 ^ 64 - 1)"
proof (cases "v = - 1")
  case True
  have "unat (- 1 :: 64 word) = 2 ^ 64 - 1" by (simp add: unsigned_minus_1_eq_mask mask_eq_exp_minus_1)
  with True show ?thesis by (simp add: saturating_succ_def)
next
  case False
  have "unat (- 1 :: 64 word) = 2 ^ 64 - 1" by (simp add: unsigned_minus_1_eq_mask mask_eq_exp_minus_1)
  with False have "unat v \<noteq> 2 ^ 64 - 1" by (metis word_unat_eq_iff)
  moreover have "unat v < 2 ^ 64" using unsigned_less[of v, where ?'a = nat] by simp
  ultimately have lt: "unat v + 1 < 2 ^ 64" by linarith
  then have "unat (v + 1) = unat v + 1" by (simp add: unat_word_ariths)
  with False lt show ?thesis by (simp add: saturating_succ_def)
qed

text \<open>
  C15. The revision counts the committed commands: after the writer has drained a queue, the stored
  revision is the initial one plus the number of commands it committed, capped at \<^verbatim>\<open>u64::MAX\<close>.
\<close>

theorem writer_loop_revision:
  assumes "read_revision db = (Inr v, db)"
  shows "\<exists>v'. read_revision (writer_loop rx db) = (Inr v', writer_loop rx db) \<and>
    unat v' = min (unat v + committed rx db) (2 ^ 64 - 1)"
  using assms
proof (induction rx db arbitrary: v rule: writer_loop.induct)
  case (1 db)
  have "unat v < 2 ^ 64" using unsigned_less[of v, where ?'a = nat] by simp
  then have "unat v \<le> 2 ^ 64 - 1" by linarith
  with 1 show ?case by simp
next
  case (2 pool E cmd rx db)
  obtain res db' where run: "process_command pool E cmd db = (res, db')" by fastforce
  from run show ?case
  proof (cases rule: process_command_cases)
    case (failed e)
    then show ?thesis using 2 run by simp
  next
    case (committed v0 db1)
    then have v0: "v0 = v" using 2 by simp
    have "read_revision db' = (Inr (saturating_succ v), db')" using committed v0 by simp
    then obtain v' where v': "read_revision (writer_loop rx db') = (Inr v', writer_loop rx db')"
        "unat v' = min (unat (saturating_succ v) + Writer.committed rx db') (2 ^ 64 - 1)"
      using 2 run by auto
    moreover have "min (min (a + 1) m + n) m = min (a + Suc n) m" for a m n :: nat by auto
    ultimately show ?thesis using run committed(1) by (simp add: unat_saturating_succ)
  qed
qed

theorem writer_loop_revision_witness:
  "\<exists>v'. read_revision (writer_loop [(None, demo_env, DeleteFile ''a.rs'')] demo_db) =
      (Inr v', writer_loop [(None, demo_env, DeleteFile ''a.rs'')] demo_db) \<and> unat v' = 0"
proof -
  have "read_revision demo_db = (Inr 0, demo_db)"
    using revision_zero by simp
  then show ?thesis
    using writer_loop_revision[of demo_db 0 "[(None, demo_env, DeleteFile ''a.rs'')]"]
    by (simp add: process_command_def acquire_pool_def sthen_def sbind_def sx_apply)
qed

section \<open>Which workspace a path belongs to\<close>

text \<open>The inverse of \<^verbatim>\<open>peer_path\<close>: the workspace a stored path was scoped with.\<close>

definition path_scope :: "string \<Rightarrow> string option" where
  "path_scope path =
    (case strip_prefix ''ws:'' path of
       None \<Rightarrow> Some PRIMARY_WORKSPACE_ID
     | Some rest \<Rightarrow> map_option fst (split_once (CHR '':'') rest))"

lemma path_scope_peer_path:
  assumes "CHR '':'' \<notin> set w" "w = PRIMARY_WORKSPACE_ID \<Longrightarrow> \<not> prefix ''ws:'' rel"
  shows "path_scope (peer_path w rel) = Some w"
proof (cases "w = PRIMARY_WORKSPACE_ID")
  case True
  then show ?thesis using assms(2) by (simp add: path_scope_def peer_path_def strip_prefix_def)
next
  case False
  then show ?thesis
    using split_once_append[OF assms(1), of rel] by (simp add: path_scope_def peer_path_def strip_prefix_def)
qed

text \<open>
  Scoped paths never collide: two files get the same stored path only when they are the same
  file of the same workspace, provided workspace ids carry no colon (they are UUIDs) and no primary
  path starts with the reserved prefix \<^verbatim>\<open>ws:\<close>.
\<close>

theorem peer_path_injective:
  assumes "CHR '':'' \<notin> set w" "CHR '':'' \<notin> set w'"
    and "w = PRIMARY_WORKSPACE_ID \<Longrightarrow> \<not> prefix ''ws:'' rel" "w' = PRIMARY_WORKSPACE_ID \<Longrightarrow> \<not> prefix ''ws:'' rel'"
    and "peer_path w rel = peer_path w' rel'"
  shows "w = w' \<and> rel = rel'"
proof -
  have "w = w'" using path_scope_peer_path[of w rel] path_scope_peer_path[of w' rel'] assms by simp
  then show ?thesis using assms(5) by (auto simp: peer_path_def split: if_splits)
qed

theorem peer_path_injective_witness:
  "peer_path ''p1'' ''src/lib.rs'' \<noteq> peer_path ''primary'' ''src/lib.rs''"
  using peer_path_injective[of "''p1''" "''primary''" "''src/lib.rs''" "''src/lib.rs''"]
  by (auto simp: PRIMARY_WORKSPACE_ID_def)

section \<open>Rows stay in the scope of their path\<close>

definition scoped_rows :: "sym_row list \<Rightarrow> bool" where
  "scoped_rows rows \<longleftrightarrow> (\<forall>r\<in>set rows. path_scope (s_file_path r) = Some (s_workspace_id r))"

abbreviation scoped_db :: "db \<Rightarrow> bool" where
  "scoped_db db \<equiv> scoped_rows (t_symbols db)"

lemma scoped_owned: "scoped_db db \<Longrightarrow> path_scope p = Some w \<Longrightarrow> path_owned w p db"
  by (auto simp: scoped_rows_def path_owned_def)

lemma keeps_view: "(\<And>S. keeps (\<lambda>db. g db = S) m) \<Longrightarrow> keeps (\<lambda>db. P (g db)) m"
  by (simp add: keeps_def)

lemma keeps_scoped_stmts:
  "path_scope (s_file_path r) = Some (s_workspace_id r) \<Longrightarrow> keeps scoped_db (sql_upsert_symbol r)"
  "keeps scoped_db (sql_delete_symbol i)"
  "keeps scoped_db (smodify (update_symbol i (set_positions l v)))"
proof -
  assume r: "path_scope (s_file_path r) = Some (s_workspace_id r)"
  have "x \<in> set rows \<or> (\<exists>i. x = r\<lparr>s_id := i\<rparr>)"
    if "x \<in> set (upsert_by sym_key merge_symbol (r\<lparr>s_id := j\<rparr>) rows)" for x j rows
    using that by (auto simp: upsert_by_def merge_symbol_def split: if_splits)
  then show "keeps scoped_db (sql_upsert_symbol r)"
    using r by (intro keepsI) (fastforce simp: sql_upsert_symbol_def Let_def scoped_rows_def)
next
  show "keeps scoped_db (sql_delete_symbol i)"
    by (rule keepsI) (auto simp: sql_delete_symbol_def purge_symbol_def scoped_rows_def)
  show "keeps scoped_db (smodify (update_symbol i (set_positions l v)))"
    by (rule keepsI) (auto simp: update_symbol_def set_positions_def scoped_rows_def)
qed

lemmas keeps_scoped_frames =
  keeps_view[OF syms.frame_stmts(2)] keeps_view[OF syms.frame_stmts(10)]
  keeps_view[OF syms.frame_delete_edges_from] keeps_view[OF syms.frame_satellites] keeps_view[OF sym_frame_file_row]

lemma keeps_scoped_delete_symbol: "keeps scoped_db (delete_symbol i)"
  unfolding delete_symbol_def by (intro keeps_intros keeps_scoped_stmts keeps_scoped_frames)

lemma keeps_scoped_upsert_file:
  assumes "path_scope (ef_file x) = Some w"
  shows "keeps scoped_db (apply_upsert_file E x rv w)"
proof -
  have "path_scope (s_file_path (symbol_row K sy (insert_context x rv w) j)) =
      Some (s_workspace_id (symbol_row K sy (insert_context x rv w) j))" for K sy j
    using assms by (simp add: symbol_row_def insert_context_def)
  then show ?thesis
    unfolding apply_upsert_file_def fetch_existing_symbols_def Let_def apply_symbols_def apply_deletes_def
      apply_position_updates_def update_symbol_positions_def apply_inserts_and_modifications_def
      apply_modification_def apply_insert_def insert_symbol_def
    by (intro keeps_intros keeps_scoped_stmts keeps_scoped_frames keeps_scoped_delete_symbol)
qed

lemma keeps_scoped_delete_file: "keeps scoped_db (apply_delete_file p)"
proof -
  have "keeps scoped_db (smodify (\<lambda>db. db\<lparr>t_files := delete_by f_path p (t_files db),
      t_call_sites := filter (\<lambda>r. c_file_path r \<noteq> p) (t_call_sites db)\<rparr>))"
    by (rule keepsI) simp
  then show ?thesis
    unfolding apply_delete_file_def fetch_symbol_ids_by_file_def delete_edge_sites_by_file_def delete_file_def
      sql_delete_file_def sql_delete_symbols_where_def
    by (intro keeps_intros keeps_scoped_stmts keeps_scoped_frames keeps_scoped_delete_symbol)
qed

lemma keeps_scoped_parse_error: "keeps scoped_db (record_parse_error E p l d)"
proof -
  have "keeps scoped_db (sql_upsert_file f)" for f by (rule keepsI) (simp add: sql_upsert_file_def)
  then show ?thesis
    unfolding record_parse_error_def get_file_def upsert_file_def by (intro keeps_intros)
qed

section \<open>The ingest machine\<close>

text \<open>What the callers of the writer promise about paths: a primary path belongs to the primary
  workspace, a peer path to the peer.\<close>

fun cmd_scoped :: "IngestCommand \<Rightarrow> bool" where
  "cmd_scoped (UpsertFile path x) = (path_scope (ef_file x) = Some PRIMARY_WORKSPACE_ID)"
| "cmd_scoped (UpsertPeerFile w path x) = (path_scope (ef_file (scope_extracted_paths x w)) = Some w)"
| "cmd_scoped _ = True"

fun outcome_scoped :: "Outcome \<Rightarrow> bool" where
  "outcome_scoped (Upsert rel x) = (path_scope (ef_file x) = Some PRIMARY_WORKSPACE_ID)"
| "outcome_scoped _ = True"

inductive ingest_step :: "db \<Rightarrow> db \<Rightarrow> bool" where
  command: "cmd_scoped cmd \<Longrightarrow> process_command pool E cmd db = (res, db') \<Longrightarrow> ingest_step db db'"
| outcomes: "list_all (\<lambda>(E, o'). outcome_scoped o') os \<Longrightarrow> commit_outcomes os db = (res, db') \<Longrightarrow> ingest_step db db'"
| cleanup: "cleanup_unseen seen db = (res, db') \<Longrightarrow> ingest_step db db'"
| ignored: "delete_paths paths db = (res, db') \<Longrightarrow> ingest_step db db'"
| progress: "write_progress_value value db = (res, db') \<Longrightarrow> ingest_step db db'"

lemma keeps_scoped_dispatch: "cmd_scoped cmd \<Longrightarrow> keeps scoped_db (dispatch E cmd rv)"
  by (cases cmd)
    (auto intro!: keeps_intros keeps_scoped_upsert_file keeps_scoped_delete_file keeps_scoped_parse_error)

lemma keeps_scoped_meta:
  "keeps scoped_db (meta_value k)" "keeps scoped_db (update_meta k f)" "keeps scoped_db handle_bump_revision"
proof -
  show "keeps scoped_db (meta_value k)" unfolding meta_value_def by (intro keeps_intros)
  have upd: "keeps scoped_db (update_meta k f)" for k f
    by (rule keepsI) (simp add: update_meta_def set_meta_def split: option.splits)
  then show "keeps scoped_db (update_meta k f)" .
  show "keeps scoped_db handle_bump_revision"
    using keepsD[OF upd] by (auto simp: handle_bump_revision_def bump_revision_def intro!: keepsI)
qed

lemma keeps_scoped_process_command: "cmd_scoped cmd \<Longrightarrow> keeps scoped_db (process_command pool E cmd)"
  unfolding process_command_def acquire_pool_def read_revision_def set_revision_def Let_def
  by (intro keeps_intros keeps_scoped_dispatch keeps_scoped_meta)

lemma keeps_scoped_commit_outcomes:
  assumes "list_all (\<lambda>(E, o'). outcome_scoped o') os"
  shows "keeps scoped_db (commit_outcomes os)"
proof -
  have "keeps scoped_db (commit_outcome rv (E, o'))" if "outcome_scoped o'" for rv E o'
    using that by (cases o')
      (auto intro!: keeps_intros keeps_scoped_upsert_file keeps_scoped_parse_error)
  then have all: "keeps scoped_db (sfor os (commit_outcome rv))" for rv
    using assms by (induction os) (auto intro!: keeps_intros)
  show ?thesis
    unfolding commit_outcomes_def
    by (intro keeps_if keeps_sreturn keeps_sbind keeps_squery keeps_sthen keeps_transaction all keeps_scoped_meta)
qed

lemma keeps_scoped_delete_paths: "keeps scoped_db (delete_paths ps)"
proof -
  have "keeps scoped_db (smodify (\<lambda>db. db\<lparr>t_files := delete_by f_path p (t_files db),
      t_call_sites := filter (\<lambda>r. c_file_path r \<noteq> p) (t_call_sites db)\<rparr>))" for p
    by (rule keepsI) simp
  then show ?thesis
    unfolding delete_paths_def delete_path_counted_def sql_delete_file_def sql_delete_symbols_where_def
    by (intro keeps_intros keeps_scoped_stmts keeps_scoped_meta)
qed

lemma keeps_scoped_cleanup: "keeps scoped_db (cleanup_unseen seen)"
  unfolding cleanup_unseen_def by (intro keeps_intros keeps_scoped_delete_file keeps_scoped_meta)

interpretation ingest_ok: step_invariant ingest_step db_ok
proof unfold_locales
  fix s t :: db assume "ingest_step s t" "db_ok s"
  then show "db_ok t"
    by (cases rule: ingest_step.cases)
      (auto dest: keeps_result[OF keeps_process_command] keeps_result[OF keeps_commit_outcomes]
        keeps_result[OF keeps_cleanup_unseen] keeps_result[OF keeps_delete_paths] keeps_result[OF keeps_meta(4)])
qed

interpretation ingest_scoped: step_invariant ingest_step scoped_db
proof unfold_locales
  fix s t :: db assume "ingest_step s t" "scoped_db s"
  then show "scoped_db t"
    by (cases rule: ingest_step.cases)
      (auto dest: keeps_result[OF keeps_scoped_process_command] keeps_result[OF keeps_scoped_commit_outcomes]
        keeps_result[OF keeps_scoped_cleanup] keeps_result[OF keeps_scoped_delete_paths]
        keeps_result[OF keeps_scoped_meta(2)] simp: write_progress_value_def)
qed



section \<open>Upserting through the writer\<close>

lemma scoped_storable:
  "storable E x \<Longrightarrow> storable E (scope_extracted_paths x w)"
  by (simp add: storable_def scope_extracted_paths_def Let_def scope_symbol_def scope_edge_def)

lemma scoped_simps:
  "ef_file (scope_extracted_paths x w) = peer_path w (ef_file x)"
  "rs_fqdn ` set (ef_symbols (scope_extracted_paths x w)) = rs_fqdn ` set (ef_symbols x)"
  "has_room (scope_extracted_paths x w) db = has_room x db"
  by (auto simp: scope_extracted_paths_def peer_path_def Let_def scope_symbol_def has_room_def image_image)

lemma set_meta_frame [simp]:
  "t_symbols (set_meta k v db) = t_symbols db" "t_files (set_meta k v db) = t_files db"
  by (simp_all add: set_meta_def)

lemma process_command_dispatched:
  assumes "read_revision db = (Inr v, db)" "dispatch E cmd (saturating_succ v) db = (Inr (), db1)"
  shows "process_command (Some (Inr ())) E cmd db =
    (Inr (), set_meta REVISION_KEY (u64_to_string (saturating_succ v)) db1)"
proof -
  have "t_schema_meta db1 = t_schema_meta db" by (rule keeps_result[OF meta_frame_dispatch refl assms(2)])
  then have "set_revision (saturating_succ v) db1 = (Inr (), set_meta REVISION_KEY (u64_to_string (saturating_succ v)) db1)"
    using read_revision_Inr[OF assms(1)] by (intro set_revision_eq) simp
  with assms show ?thesis
    by (simp add: process_command_def acquire_pool_def sthen_def sbind_def sx_apply transaction_def Let_def)
qed

text \<open>The symbols of a scoped path after the batch, for the primary workspace and for peers alike.\<close>

lemma apply_upsert_file_fqdns:
  assumes ok: "db_ok db" and sc: "scoped_db db" "path_scope (ef_file x) = Some w"
    and st: "storable E x" "has_room x db"
  shows "\<exists>db'. apply_upsert_file E x rv w db = (Inr (), db') \<and>
    snd ` file_syms (ef_file x) db' = rs_fqdn ` set (ef_symbols x)"
proof (rule apply_upsert_file_run[OF ok st, of rv w])
  fix db0 ids db1 db'
  let ?plan = "diff_symbols (map db_symbol_row (filter (\<lambda>r. s_file_path r = ef_file x) (t_symbols db))) (ef_symbols x)"
  let ?ctx = "insert_context x rv w"
  assume a: "db_ok db0" "t_symbols db0 = t_symbols db" "apply_symbols E ?plan ?ctx db0 = (Inr ids, db1)"
    "apply_upsert_file E x rv w db = (Inr (), db')" "t_symbols db' = t_symbols db1"
  have "path_owned w (ef_file x) db0" using scoped_owned[OF sc] a(2) by (simp add: path_owned_def)
  then show ?thesis
    using a apply_symbols_file_syms[OF a(1), of ?ctx ?plan "ef_symbols x" E ids db1] file_syms_cong[OF a(5)]
    by (simp add: insert_context_def)
qed



section \<open>Cleaning up\<close>

lemma apply_delete_file_tables:
  assumes ok: "db_ok db"
  shows "\<exists>db'. apply_delete_file p db = (Inr (), db') \<and> db_ok db' \<and>
    t_files db' = filter (\<lambda>r. f_path r \<noteq> p) (t_files db) \<and>
    t_symbols db' = filter (\<lambda>r. s_file_path r \<noteq> p) (t_symbols db)"
proof (rule apply_delete_file_run[OF ok, of p])
  fix db1 :: db
  let ?db = "db1\<lparr>t_edge_sites := filter (\<lambda>r. es_file_path r \<noteq> p) (t_edge_sites db1),
       t_files := delete_by f_path p (t_files db), t_call_sites := filter (\<lambda>r. c_file_path r \<noteq> p) (t_call_sites db)\<rparr>"
  assume d: "t_symbols db1 = filter (\<lambda>r. s_file_path r \<noteq> p) (t_symbols db)"
    and run: "apply_delete_file p db = (Inr (), ?db)"
  then show ?thesis using keeps_result[OF keeps_apply_delete_file ok run] by (simp add: delete_by_def)
qed

lemma sfor_delete_files:
  assumes "db_ok db"
  shows "\<exists>db'. sfor ps apply_delete_file db = (Inr (), db') \<and> db_ok db' \<and>
    t_files db' = filter (\<lambda>r. f_path r \<notin> set ps) (t_files db) \<and>
    t_symbols db' = filter (\<lambda>r. s_file_path r \<notin> set ps) (t_symbols db)"
  using assms
proof (induction ps arbitrary: db)
  case Nil
  then show ?case by (simp add: sx_apply)
next
  case (Cons p ps)
  obtain db1 where d: "apply_delete_file p db = (Inr (), db1)" "db_ok db1"
      "t_files db1 = filter (\<lambda>r. f_path r \<noteq> p) (t_files db)"
      "t_symbols db1 = filter (\<lambda>r. s_file_path r \<noteq> p) (t_symbols db)"
    using apply_delete_file_tables[OF Cons.prems, of p] by blast
  then show ?case using Cons.IH[OF d(2)] by (auto simp: sthen_eq_Inr conj_commute)
qed

lemma cleanup_unseen_run:
  assumes ok: "db_ok db"
  shows "\<exists>db'. cleanup_unseen seen db = (Inr (), db') \<and> db_ok db' \<and>
    t_files db' = filter (\<lambda>r. f_is_external r \<or> f_path r \<in> set seen) (t_files db) \<and>
    t_symbols db' = filter (\<lambda>r. s_file_path r \<notin> set (missing_paths seen db)) (t_symbols db)"
proof -
  let ?m = "missing_paths seen db"
  obtain db1 where d: "sfor ?m apply_delete_file db = (Inr (), db1)"
      "t_files db1 = filter (\<lambda>r. f_path r \<notin> set ?m) (t_files db)"
      "t_symbols db1 = filter (\<lambda>r. s_file_path r \<notin> set ?m) (t_symbols db)"
    using sfor_delete_files[OF ok, of ?m] by blast
  have "f_path r \<notin> set ?m \<longleftrightarrow> f_is_external r \<or> f_path r \<in> set seen" if "r \<in> set (t_files db)" for r
    using that distinct_map_inj_same[of f_path "t_files db"] ok
    by (auto simp: missing_paths_def db_ok_def ok_files_def)
  then have f: "t_files db1 = filter (\<lambda>r. f_is_external r \<or> f_path r \<in> set seen) (t_files db)"
    unfolding d(2) by (auto intro: filter_cong)
  have bump: "t_files (snd (bump_revision s)) = t_files s \<and> t_symbols (snd (bump_revision s)) = t_symbols s" for s
    by (auto simp: bump_revision_def update_meta_def split: option.splits)
  obtain db' where run: "cleanup_unseen seen db = (Inr (), db')" "t_files db' = t_files db1" "t_symbols db' = t_symbols db1"
  proof (cases "?m = []")
    case True
    then show ?thesis using d(1) that[of db1]
      by (simp add: cleanup_unseen_def sbind_def sthen_def transaction_def sx_apply swhen_def)
  next
    case False
    then show ?thesis using d(1) that[of "snd (bump_revision db1)"] bump[of db1]
      by (simp add: cleanup_unseen_def sbind_def sthen_def transaction_def sx_apply swhen_def handle_bump_revision_def)
  qed
  then show ?thesis using d(3) f keeps_result[OF keeps_cleanup_unseen ok run(1)] by auto
qed

text \<open>
  C30. The clean-up at the end of a cold start always succeeds and removes exactly the files that
  are neither external nor seen by the walk, with their symbols; every other file and every symbol
  of another file is left as it is.  In particular a peer's files (stored with \<^verbatim>\<open>is_external = 0\<close>)
  are removed too, since the walk of the primary workspace never sees them.
\<close>

theorem cleanup_unseen_exact:
  assumes ok: "db_ok db"
  shows "\<exists>db'. cleanup_unseen seen db = (Inr (), db') \<and> db_ok db' \<and>
    t_files db' = filter (\<lambda>r. f_is_external r \<or> f_path r \<in> set seen) (t_files db) \<and>
    t_symbols db' = filter (\<lambda>r. s_file_path r \<notin> set (missing_paths seen db)) (t_symbols db)"
  by (rule cleanup_unseen_run[OF ok])

theorem cleanup_unseen_exact_witness:
  "\<exists>db'. cleanup_unseen [''b.rs''] demo2_db = (Inr (), db') \<and>
    t_files db' = [demo_file\<lparr>f_path := ''b.rs''\<rparr>] \<and>
    t_symbols db' = [(demo_row 2 ''g'')\<lparr>s_file_path := ''b.rs''\<rparr>]"
  using cleanup_unseen_exact[OF demo2_db_ok, of "[''b.rs'']"]
  by (auto simp: missing_paths_def demo_file_def)

section \<open>Skipping unchanged files\<close>

text \<open>An upsert changes one row of \<^verbatim>\<open>files\<close>, the one of the extracted file.\<close>

lemma upsert_file_table:
  assumes "apply_upsert_file E x rv w db = (Inr (), db')"
  obtains row where "t_files db' = upsert_by f_path merge_file row (t_files db)"
    "f_path row = ef_file x" "f_content_hash row = to_hex (ef_content_hash x)" "f_last_scan_error row = None"
proof -
  obtain db0 ids db1 where a: "upsert_file_row E x db = (Inr (), db0)"
      "apply_symbols E (diff_symbols (map db_symbol_row (filter (\<lambda>r. s_file_path r = ef_file x) (t_symbols db0))) (ef_symbols x))
         (insert_context x rv w) db0 = (Inr ids, db1)"
      "apply_satellites E x (diff_symbols (map db_symbol_row (filter (\<lambda>r. s_file_path r = ef_file x) (t_symbols db0))) (ef_symbols x))
         w ids db1 = (Inr (), db')"
    using assms unfolding apply_upsert_file_def fetch_existing_symbols_def Let_def
    by (auto elim!: sthen_InrE sbind_InrE)
  have "t_files db' = t_files db0"
    using keeps_result[OF files.frame_satellites refl a(3)] keeps_result[OF files.frame_apply_symbols refl a(2)] by simp
  moreover obtain row where "t_files db0 = upsert_by f_path merge_file row (t_files db)"
      "f_path row = ef_file x" "f_content_hash row = to_hex (ef_content_hash x)" "f_last_scan_error row = None"
    using a(1) unfolding upsert_file_row_def upsert_file_def sql_upsert_file_def
    by (fastforce elim!: sbind_InrE simp: sx_apply split: if_splits)
  ultimately show ?thesis using that by simp
qed

lemma upsert_file_hash:
  assumes "apply_upsert_file E x rv w db = (Inr (), db')"
  shows "fst (hash_matches_db (ef_file x) h db') = Inr (to_hex (ef_content_hash x) = to_hex h)"
  using assms
proof (rule upsert_file_table)
  fix row
  assume "t_files db' = upsert_by f_path merge_file row (t_files db)"
    "f_path row = ef_file x" "f_content_hash row = to_hex (ef_content_hash x)"
  then show ?thesis
    using files_tab.lookup_upsert_same[of row "t_files db"]
    by (auto simp: hash_matches_db_def merge_file_def split: option.splits)
qed

text \<open>
  Once an upsert is committed, the next scan skips the file exactly when its digest is the
  extracted one: a cold start that is interrupted resumes without extracting a file twice, and a
  changed file is never skipped.
\<close>

theorem committed_upsert_skips_exactly_same_hash:
  assumes "process_command pool E (UpsertFile path x) db = (Inr (), db')"
    and "wf_hash (ef_content_hash x)" "wf_hash h"
  shows "fst (hash_matches_db (ef_file x) h db') = Inr (h = ef_content_hash x)"
  using assms(1)
proof (cases rule: process_command_cases)
  case (committed v db1)
  then have "fst (hash_matches_db (ef_file x) h db1) = Inr (to_hex (ef_content_hash x) = to_hex h)"
    by (intro upsert_file_hash) simp
  moreover have "to_hex (ef_content_hash x) = to_hex h \<longleftrightarrow> h = ef_content_hash x"
    using from_hex_to_hex[OF assms(2)] from_hex_to_hex[OF assms(3)] by auto
  ultimately show ?thesis using committed(4) by (simp add: hash_matches_db_def)
qed simp

theorem committed_upsert_skips_exactly_same_hash_witness:
  "\<exists>db'. process_command (Some (Inr ())) demo_env (UpsertFile ''a.rs'' demo_extracted) demo_db = (Inr (), db') \<and>
    fst (hash_matches_db ''a.rs'' (replicate 32 1) db') = Inr True"
proof -
  have room: "has_room demo_extracted demo_db" by (simp add: has_room_def demo_extracted_def I64_MAX_def)
  obtain db1 where "apply_upsert_file demo_env demo_extracted (saturating_succ 0) ''primary'' demo_db = (Inr (), db1)"
    by (rule apply_upsert_file_run[OF demo_db_ok demo_storable room, of "saturating_succ 0" "''primary''"]) blast
  then obtain db' where run: "process_command (Some (Inr ())) demo_env (UpsertFile ''a.rs'' demo_extracted) demo_db = (Inr (), db')"
    using process_command_dispatched[OF revision_zero[of demo_db], of demo_env "UpsertFile ''a.rs'' demo_extracted"]
    by (auto simp: PRIMARY_WORKSPACE_ID_def)
  have "ef_file demo_extracted = ''a.rs''" "ef_content_hash demo_extracted = replicate 32 1" "wf_hash (replicate 32 1)"
    by (simp_all add: demo_extracted_def wf_hash_def)
  then show ?thesis using committed_upsert_skips_exactly_same_hash[OF run, of "replicate 32 1"] run by auto
qed

text \<open>
  A parse error keeps the digest of the last good version.  When the file then goes back to
  that version, the scan finds the digest unchanged and skips the file, so the recorded error
  stays on a file that parses.
\<close>

theorem parse_error_survives_revert:
  assumes good: "get_file p db = (Inr (Some f), db)" and hash: "wf_hash (fi_content_hash f)"
    and size: "uint (fi_byte_size f) \<le> I64_MAX" and now: "pe_now_file E = Inr now"
  shows "\<exists>db' f'. record_parse_error E p l detail db = (Inr (), db') \<and>
    get_file p db' = (Inr (Some f'), db') \<and> fi_last_scan_error f' = Some detail \<and>
    fst (hash_matches_db p (fi_content_hash f) db') = Inr True"
proof -
  let ?f = "f\<lparr>fi_last_scan_error := Some detail, fi_last_scanned := now\<rparr>"
  have p: "fi_path f = p"
    using good by (auto simp: get_file_def sbind_def sx_apply build_file_input_def
        dest!: lookup_by_Some split: option.splits sum.splits if_splits)
  define row where "row = \<lparr> f_path = p, f_content_hash = to_hex (fi_content_hash f),
         f_language = language_to_sql_text (fi_language f), f_last_scanned = now,
         f_byte_size = uint (fi_byte_size f), f_last_scan_error = Some detail,
         f_is_external = fi_is_external f, f_project_id = None \<rparr>"
  let ?db = "db\<lparr>t_files := upsert_by f_path merge_file row (t_files db)\<rparr>"
  have run: "record_parse_error E p l detail db = (Inr (), ?db)"
    using good now size
    by (simp add: record_parse_error_def sbind_def sx_apply upsert_file_def sql_upsert_file_def map_err_def p row_def)
  have look: "lookup_by f_path p (t_files ?db) =
      Some (case lookup_by f_path p (t_files db) of None \<Rightarrow> row | Some old \<Rightarrow> merge_file old row)"
    using files_tab.lookup_upsert_same[of row "t_files db"] by (simp add: row_def)
  then have "get_file p ?db = (Inr (Some ?f), ?db)"
    using hash p by (auto simp: get_file_def sbind_def sx_apply build_file_input_def row_def merge_file_def
        split: option.splits)
  moreover have "fst (hash_matches_db p (fi_content_hash f) ?db) = Inr True"
    using look by (auto simp: hash_matches_db_def row_def merge_file_def split: option.splits)
  ultimately show ?thesis using run by fastforce
qed

theorem parse_error_survives_revert_witness:
  "\<exists>db' f'. record_parse_error demo_env ''a.rs'' Language.Rust ''boom'' demo_db = (Inr (), db') \<and>
    get_file ''a.rs'' db' = (Inr (Some f'), db') \<and> fi_last_scan_error f' = Some ''boom'' \<and>
    fst (hash_matches_db ''a.rs'' (replicate 32 0) db') = Inr True"
proof -
  let ?f = "\<lparr> fi_path = ''a.rs'', fi_content_hash = replicate 32 0, fi_language = Language.Rust, fi_byte_size = 10,
      fi_last_scanned = 0, fi_last_scan_error = None, fi_is_external = False \<rparr>"
  have h: "wf_hash (replicate 32 0)" by (simp add: wf_hash_def)
  have "language_from_sql_text ''rust'' = Inr Language.Rust"
    using language_text_roundtrip[of Language.Rust] by simp
  then have "get_file ''a.rs'' demo_db = (Inr (Some ?f), demo_db)"
    using h by (simp add: get_file_def sbind_def sx_apply lookup_by_def build_file_input_def demo_file_def)
  then show ?thesis
    using parse_error_survives_revert[of "''a.rs''" demo_db ?f demo_env 100 Language.Rust "''boom''"] h
    by (simp add: demo_env_def I64_MAX_def)
qed

end
