(* ===== verification/Resolver.thy ===== *)
theory Resolver
  imports Batch_Total
begin

text \<open>
  Cross-workspace resolution: \<^verbatim>\<open>cross_workspace_resolver.rs\<close> (the resolver over the persisted
  module lookups, with its cache) and \<^verbatim>\<open>pipeline/cross_workspace_post.rs\<close> (the suffix chain and
  the rewriting of the edges of an extracted file).

  A resolver is a function that also threads a state, since the one of the source fills a cache.
  The locale \<^verbatim>\<open>cross_workspace_resolver\<close> states the trait's contract: on good states the answer
  is a function of the question.  The database resolver is an interpretation (a state is good when
  the cache holds answers the database gives), and so is a resolver without a state.  The handle's
  pool is present, and no writer commits while one file is rewritten.
\<close>

section \<open>Module paths\<close>

text \<open>\<^verbatim>\<open>s.split("::")\<close>\<close>

fun split_path_from :: "string \<Rightarrow> string \<Rightarrow> string list" where
  "split_path_from cur [] = [cur]"
| "split_path_from cur [c] = [cur @ [c]]"
| "split_path_from cur (c # d # s) =
    (if c = CHR '':'' \<and> d = CHR '':'' then cur # split_path_from [] s
     else split_path_from (cur @ [c]) (d # s))"

definition split_path :: "string \<Rightarrow> string list" where
  "split_path s = split_path_from [] s"

definition join_path :: "string list \<Rightarrow> string" where
  "join_path = join_str ''::''"

text \<open>\<^verbatim>\<open>s.split_once("::")\<close>\<close>

definition split_once_path :: "string \<Rightarrow> (string \<times> string) option" where
  "split_once_path s = (case split_path s of h # t # ts \<Rightarrow> Some (h, join_path (t # ts)) | _ \<Rightarrow> None)"

section \<open>cross\_workspace\_resolver.rs\<close>

definition compute_with_key :: "codec \<Rightarrow> db \<Rightarrow> string \<Rightarrow> string \<Rightarrow> CrossWorkspaceLookup" where
  "compute_with_key K db origin_module origin_symbol =
    (case fst (resolve_cross_workspace_import K origin_module origin_symbol db) of
       Inl _ \<Rightarrow> Unknown
     | Inr (Some r) \<Rightarrow> Hit (cw_workspace_id r) (cw_resolved_fqdn r)
     | Inr None \<Rightarrow>
         (case fst (resolve_intra_workspace_import K origin_module origin_symbol db) of
            Inr (Some r) \<Rightarrow> Hit (cw_workspace_id r) (cw_resolved_fqdn r)
          | _ \<Rightarrow> (case fst (peer_workspace_for_module origin_module db) of
              Inr (Some workspace_id) \<Rightarrow> KnownPeerMissingSymbol workspace_id
            | _ \<Rightarrow> Unknown)))"

definition underscore_to_hyphen :: "char \<Rightarrow> char" where
  "underscore_to_hyphen c = (if c = CHR ''_'' then CHR ''-'' else c)"

definition normalize_crate_prefix_to_hyphen :: "string \<Rightarrow> string" where
  "normalize_crate_prefix_to_hyphen module =
    (let (head, tail) = (case split_once_path module of Some (h, t) \<Rightarrow> (h, Some t) | None \<Rightarrow> (module, None))
     in if CHR ''_'' \<notin> set head then module
        else (case tail of
                Some t \<Rightarrow> map underscore_to_hyphen head @ ''::'' @ t
              | None \<Rightarrow> map underscore_to_hyphen head))"

definition compute :: "codec \<Rightarrow> db \<Rightarrow> string \<Rightarrow> string \<Rightarrow> CrossWorkspaceLookup" where
  "compute K db origin_module origin_symbol =
    (let direct = compute_with_key K db origin_module origin_symbol in
     if direct \<noteq> Unknown then direct
     else let normalized = normalize_crate_prefix_to_hyphen origin_module in
       if normalized \<noteq> origin_module
       then (let alt = compute_with_key K db normalized origin_symbol in
             if alt \<noteq> Unknown then alt else direct)
       else direct)"

type_synonym 's resolver = "string \<Rightarrow> string \<Rightarrow> 's \<Rightarrow> CrossWorkspaceLookup \<times> 's"

type_synonym resolver_cache = "string \<times> string \<rightharpoonup> CrossWorkspaceLookup"

definition db_resolve :: "codec \<Rightarrow> db \<Rightarrow> resolver_cache resolver" where
  "db_resolve K db origin_module origin_symbol cache =
    (case cache (origin_module, origin_symbol) of
       Some cached \<Rightarrow> (cached, cache)
     | None \<Rightarrow> let computed = compute K db origin_module origin_symbol in
         (computed, cache((origin_module, origin_symbol) \<mapsto> computed)))"

section \<open>cross\_workspace\_post.rs\<close>

definition append_tail :: "string \<Rightarrow> string list \<Rightarrow> string" where
  "append_tail fqdn tail = (if tail = [] then fqdn else fqdn @ ''::'' @ join_path tail)"

fun suffix_loop ::
  "'s resolver \<Rightarrow> string list \<Rightarrow> nat list \<Rightarrow> CrossWorkspaceLookup option \<Rightarrow> 's \<Rightarrow> CrossWorkspaceLookup option \<times> 's" where
  "suffix_loop R segments [] fallback st = (fallback, st)"
| "suffix_loop R segments (split # splits) fallback st =
    (case R (join_path (take split segments)) (segments ! split) st of
       (Hit workspace_id fqdn, st') \<Rightarrow>
         (Some (Hit workspace_id (append_tail fqdn (drop (split + 1) segments))), st')
     | (KnownPeerMissingSymbol workspace_id, st') \<Rightarrow>
         suffix_loop R segments splits
           (if fallback = None then Some (KnownPeerMissingSymbol workspace_id) else fallback) st'
     | (Unknown, st') \<Rightarrow> suffix_loop R segments splits fallback st')"

definition resolve_with_suffix_chain :: "'s resolver \<Rightarrow> string \<Rightarrow> 's \<Rightarrow> CrossWorkspaceLookup option \<times> 's" where
  "resolve_with_suffix_chain R candidate st =
    (let segments = split_path candidate in
     if length segments < 2 then (None, st)
     else suffix_loop R segments (rev [1..<length segments]) None st)"

definition language_supports_workspace_prefix :: "Language \<Rightarrow> bool" where
  "language_supports_workspace_prefix lang \<longleftrightarrow>
     lang \<in> {Language.Rust, Language.TypeScript, Language.JavaScript, Language.C, Language.Lua}"

definition is_local :: "string \<Rightarrow> string \<Rightarrow> bool" where
  "is_local fqdn local_prefix \<longleftrightarrow> fqdn = local_prefix \<or>
     (case strip_prefix local_prefix fqdn of None \<Rightarrow> False | Some rest \<Rightarrow> prefix ''::'' rest)"

definition push_attr :: "string \<Rightarrow> string list \<Rightarrow> string list" where
  "push_attr a attrs = (if a \<in> set attrs then attrs else attrs @ [a])"

definition stamp_attrs :: "string list \<Rightarrow> string \<Rightarrow> string list" where
  "stamp_attrs attrs workspace_id = push_attr (''peer-'' @ workspace_id) (push_attr ''cross-workspace'' attrs)"

fun edge_candidate :: "ResolvedOrUnresolved \<Rightarrow> string option" where
  "edge_candidate (ResolvedOrUnresolved.Resolved fqdn) = Some fqdn"
| "edge_candidate (ResolvedOrUnresolved.Unresolved name) = Some name"
| "edge_candidate (ResolvedOrUnresolved.UnresolvedBridge bridge name) = None"

definition retarget :: "RawEdge \<Rightarrow> ResolvedOrUnresolved \<Rightarrow> string \<Rightarrow> RawEdge" where
  "retarget edge to workspace_id =
    edge\<lparr>re_to := to, re_attributes := stamp_attrs (re_attributes edge) workspace_id,
         re_confidence := default_confidence to\<rparr>"

text \<open>The \<^verbatim>\<open>match outcome\<close> of the loop body, on what the suffix chain returned.\<close>

definition strengthen :: "RawEdge \<Rightarrow> string \<Rightarrow> CrossWorkspaceLookup option \<Rightarrow> RawEdge" where
  "strengthen edge candidate outcome =
    (case outcome of
       Some (Hit workspace_id fqdn) \<Rightarrow> retarget edge (ResolvedOrUnresolved.Resolved fqdn) workspace_id
     | Some (KnownPeerMissingSymbol workspace_id) \<Rightarrow>
         retarget edge (ResolvedOrUnresolved.UnresolvedBridge (BridgeKind BRIDGE_SLUG) candidate) workspace_id
     | _ \<Rightarrow> edge)"

definition rewrite_edge :: "'s resolver \<Rightarrow> string \<Rightarrow> RawEdge \<Rightarrow> 's \<Rightarrow> RawEdge \<times> 's" where
  "rewrite_edge R local_prefix edge st =
    (case edge_candidate (re_to edge) of
       None \<Rightarrow> (edge, st)
     | Some candidate \<Rightarrow>
         if is_local candidate local_prefix then (edge, st)
         else (case resolve_with_suffix_chain R candidate st of
                 (outcome, st') \<Rightarrow> (strengthen edge candidate outcome, st')))"

fun rewrite_edges :: "'s resolver \<Rightarrow> string \<Rightarrow> RawEdge list \<Rightarrow> 's \<Rightarrow> RawEdge list \<times> 's" where
  "rewrite_edges R local_prefix [] st = ([], st)"
| "rewrite_edges R local_prefix (e # es) st =
    (case rewrite_edge R local_prefix e st of (e', st1) \<Rightarrow>
     case rewrite_edges R local_prefix es st1 of (es', st2) \<Rightarrow> (e' # es', st2))"

text \<open>The prefix the edges of a file are compared with; \<^const>\<open>None\<close> where the pass returns early.\<close>

definition rewrite_prefix :: "ExtractedFile \<Rightarrow> string option" where
  "rewrite_prefix extracted =
    (case ef_module_lookup extracted of
       None \<Rightarrow> None
     | Some lookup \<Rightarrow>
         if \<not> language_supports_workspace_prefix (ml_language lookup) then None
         else let local_prefix = (case split_once_path (ml_module_fqdn lookup) of
                                    Some (head, _) \<Rightarrow> head | None \<Rightarrow> ml_module_fqdn lookup)
              in if local_prefix = [] then None else Some local_prefix)"

definition rewrite_cross_workspace_edges :: "'s resolver \<Rightarrow> ExtractedFile \<Rightarrow> 's \<Rightarrow> ExtractedFile \<times> 's" where
  "rewrite_cross_workspace_edges R extracted st =
    (case rewrite_prefix extracted of
       None \<Rightarrow> (extracted, st)
     | Some local_prefix \<Rightarrow>
         (case rewrite_edges R local_prefix (ef_edges extracted) st of
            (edges, st') \<Rightarrow> (extracted\<lparr>ef_edges := edges\<rparr>, st')))"

section \<open>Path lemmas\<close>

lemma split_path_from_nonempty: "split_path_from cur s \<noteq> []"
  by (induction cur s rule: split_path_from.induct) auto

lemma join_split_path_from: "join_str ''::'' (split_path_from cur s) = cur @ s"
proof (induction cur s rule: split_path_from.induct)
  case (3 cur c d s)
  show ?case
  proof (cases "c = CHR '':'' \<and> d = CHR '':''")
    case True
    obtain h t where "split_path_from [] s = h # t" using split_path_from_nonempty[of "[]" s] by (cases "split_path_from [] s") auto
    then show ?thesis using 3(1)[OF True] True by simp
  qed (use 3 in auto)
qed auto

lemma join_split_path: "join_path (split_path s) = s"
  by (simp add: join_path_def split_path_def join_split_path_from)

lemma find_rev_upt_longest:
  "find P (rev [a..<b]) = Some k \<Longrightarrow> k < j \<Longrightarrow> j < b \<Longrightarrow> \<not> P j"
proof (induction b)
  case (Suc b)
  then show ?case by (cases "a \<le> b") (auto split: if_splits simp: less_Suc_eq)
qed simp

section \<open>What the suffix chain looks for\<close>

text \<open>
  The specification of the chain: among the splits in the order tried, the first one the resolver
  can answer with a hit, else the caller's fallback, else the first one whose module a peer owns.
\<close>

definition chain_result ::
  "(string \<Rightarrow> string \<Rightarrow> CrossWorkspaceLookup) \<Rightarrow> string list \<Rightarrow> nat list \<Rightarrow> CrossWorkspaceLookup option \<Rightarrow> CrossWorkspaceLookup option" where
  "chain_result answer segs ks fb =
    (let ask = (\<lambda>k. answer (join_path (take k segs)) (segs ! k)) in
     case find (\<lambda>k. is_hit (ask k)) ks of
       Some k \<Rightarrow> (case ask k of Hit w f \<Rightarrow> Some (Hit w (append_tail f (drop (k + 1) segs))) | _ \<Rightarrow> None)
     | None \<Rightarrow> (case fb of Some l \<Rightarrow> Some l | None \<Rightarrow> map_option ask (find (\<lambda>k. ask k \<noteq> Unknown) ks)))"

lemma chain_result_Nil: "chain_result answer segs [] fb = fb"
  by (simp add: chain_result_def split: option.splits)

lemma chain_result_Cons:
  "chain_result answer segs (k # ks) fb =
    (case answer (join_path (take k segs)) (segs ! k) of
       Hit w f \<Rightarrow> Some (Hit w (append_tail f (drop (k + 1) segs)))
     | KnownPeerMissingSymbol w \<Rightarrow>
         chain_result answer segs ks (if fb = None then Some (KnownPeerMissingSymbol w) else fb)
     | Unknown \<Rightarrow> chain_result answer segs ks fb)"
  by (auto simp: chain_result_def Let_def split: CrossWorkspaceLookup.splits option.splits)

definition chain_answer :: "(string \<Rightarrow> string \<Rightarrow> CrossWorkspaceLookup) \<Rightarrow> string \<Rightarrow> CrossWorkspaceLookup option" where
  "chain_answer answer candidate =
    chain_result answer (split_path candidate) (rev [1..<length (split_path candidate)]) None"

text \<open>One edge, rewritten by the answers of a resolver.\<close>

definition strengthened :: "(string \<Rightarrow> string \<Rightarrow> CrossWorkspaceLookup) \<Rightarrow> string \<Rightarrow> RawEdge \<Rightarrow> RawEdge" where
  "strengthened answer local_prefix e =
    (case edge_candidate (re_to e) of
       None \<Rightarrow> e
     | Some c \<Rightarrow> if is_local c local_prefix then e else strengthen e c (chain_answer answer c))"

section \<open>The resolver interface\<close>

locale cross_workspace_resolver =
  fixes R :: "'s resolver" and answer :: "string \<Rightarrow> string \<Rightarrow> CrossWorkspaceLookup" and good :: "'s \<Rightarrow> bool"
  assumes answers: "good st \<Longrightarrow> fst (R m x st) = answer m x"
    and stays_good: "good st \<Longrightarrow> good (snd (R m x st))"
begin

lemma query: "good st \<Longrightarrow> \<exists>st'. R m x st = (answer m x, st') \<and> good st'"
  using answers[of st m x] stays_good[of st m x] by (cases "R m x st") auto

lemma suffix_loop_answer:
  "good st \<Longrightarrow> \<exists>st'. good st' \<and> suffix_loop R segs ks fb st = (chain_result answer segs ks fb, st')"
proof (induction ks arbitrary: fb st)
  case (Cons k ks)
  obtain st1 where q: "R (join_path (take k segs)) (segs ! k) st = (answer (join_path (take k segs)) (segs ! k), st1)" "good st1"
    using query[OF Cons.prems] by blast
  show ?case
    using Cons.IH[OF q(2)] q by (cases "answer (join_path (take k segs)) (segs ! k)") (auto simp: chain_result_Cons)
qed (simp add: chain_result_Nil)

lemma suffix_chain_answer:
  assumes "good st"
  shows "\<exists>st'. good st' \<and> resolve_with_suffix_chain R c st = (chain_answer answer c, st')"
proof (cases "length (split_path c) < 2")
  case True
  then have "[1..<length (split_path c)] = []" by simp
  then show ?thesis using True assms by (simp add: resolve_with_suffix_chain_def chain_answer_def chain_result_Nil)
next
  case False
  then show ?thesis
    using suffix_loop_answer[OF assms] by (simp add: resolve_with_suffix_chain_def chain_answer_def Let_def)
qed

lemma rewrite_edge_answer:
  assumes "good st"
  shows "\<exists>st'. good st' \<and> rewrite_edge R lp e st = (strengthened answer lp e, st')"
proof (cases "edge_candidate (re_to e)")
  case None
  then show ?thesis using assms by (simp add: rewrite_edge_def strengthened_def)
next
  case (Some c)
  then show ?thesis
    using assms suffix_chain_answer[OF assms, of c] by (auto simp: rewrite_edge_def strengthened_def)
qed

lemma rewrite_edges_answer:
  "good st \<Longrightarrow> \<exists>st'. good st' \<and> rewrite_edges R lp es st = (map (strengthened answer lp) es, st')"
proof (induction es arbitrary: st)
  case (Cons e es)
  obtain st1 where "good st1" "rewrite_edge R lp e st = (strengthened answer lp e, st1)"
    using rewrite_edge_answer[OF Cons.prems] by blast
  then show ?case using Cons.IH[of st1] by auto
qed simp

lemma rewrite_answer:
  assumes "good st"
  shows "fst (rewrite_cross_workspace_edges R x st) =
    (case rewrite_prefix x of None \<Rightarrow> x
     | Some lp \<Rightarrow> x\<lparr>ef_edges := map (strengthened answer lp) (ef_edges x)\<rparr>)"
proof (cases "rewrite_prefix x")
  case (Some lp)
  obtain st' where "rewrite_edges R lp (ef_edges x) st = (map (strengthened answer lp) (ef_edges x), st')"
    using rewrite_edges_answer[OF assms] by blast
  then show ?thesis using Some by (simp add: rewrite_cross_workspace_edges_def)
qed (simp add: rewrite_cross_workspace_edges_def)

end

text \<open>The database resolver: its cache holds answers of the database.\<close>

definition cache_ok :: "codec \<Rightarrow> db \<Rightarrow> resolver_cache \<Rightarrow> bool" where
  "cache_ok K db cache \<longleftrightarrow> (\<forall>m x l. cache (m, x) = Some l \<longrightarrow> l = compute K db m x)"

interpretation db_resolver: cross_workspace_resolver "db_resolve K db" "compute K db" "cache_ok K db" for K db
  by unfold_locales (auto simp: db_resolve_def cache_ok_def Let_def split: option.splits if_splits)

text \<open>A resolver without a state.\<close>

definition pure_resolver :: "(string \<Rightarrow> string \<Rightarrow> CrossWorkspaceLookup) \<Rightarrow> unit resolver" where
  "pure_resolver answer m x st = (answer m x, st)"

interpretation pure_resolver: cross_workspace_resolver "pure_resolver answer" answer "\<lambda>_. True" for answer
  by unfold_locales (simp_all add: pure_resolver_def)

lemma cross_bridge_valid: "is_valid_bridge (BridgeKind BRIDGE_SLUG)"
  by code_simp

section \<open>Properties\<close>

text \<open>
  C33. The rewriting pass with the caching resolver gives exactly what the database answers give,
  edge by edge: the cache never changes a result, and neither the order of the edges nor earlier
  queries influence how an edge is rewritten.
\<close>

theorem rewrite_cache_transparent:
  "fst (rewrite_cross_workspace_edges (db_resolve K db) x Map.empty) =
    (case rewrite_prefix x of None \<Rightarrow> x
     | Some lp \<Rightarrow> x\<lparr>ef_edges := map (strengthened (compute K db) lp) (ef_edges x)\<rparr>)"
  by (rule db_resolver.rewrite_answer) (simp add: cache_ok_def)

text \<open>
  The suffix chain tries the longest module first: with the candidate cut into segments, the
  result is the hit of the longest module prefix that has one, with the remaining segments
  appended; without any hit it is the answer of the longest prefix a peer owns; otherwise nothing.
\<close>

theorem suffix_chain_longest_module_first:
  assumes "segs = split_path c" "fst (resolve_with_suffix_chain (db_resolve K db) c Map.empty) = Some l"
  shows "\<exists>k. 0 < k \<and> k < length segs \<and>
    (case compute K db (join_path (take k segs)) (segs ! k) of
       Hit w f \<Rightarrow> l = Hit w (append_tail f (drop (k + 1) segs)) \<and>
         (\<forall>j. k < j \<longrightarrow> j < length segs \<longrightarrow> \<not> is_hit (compute K db (join_path (take j segs)) (segs ! j)))
     | KnownPeerMissingSymbol w \<Rightarrow> l = KnownPeerMissingSymbol w \<and>
         (\<forall>j. 0 < j \<longrightarrow> j < length segs \<longrightarrow> \<not> is_hit (compute K db (join_path (take j segs)) (segs ! j))) \<and>
         (\<forall>j. k < j \<longrightarrow> j < length segs \<longrightarrow> compute K db (join_path (take j segs)) (segs ! j) = Unknown)
     | Unknown \<Rightarrow> False)"
proof -
  let ?ask = "\<lambda>k. compute K db (join_path (take k segs)) (segs ! k)" and ?ks = "rev [1..<length segs]"
  have l: "chain_result (compute K db) segs ?ks None = Some l"
    using db_resolver.suffix_chain_answer[of K db Map.empty c] assms by (auto simp: cache_ok_def chain_answer_def)
  show ?thesis
  proof (cases "find (\<lambda>k. is_hit (?ask k)) ?ks")
    case (Some k)
    then have "0 < k" "k < length segs" "is_hit (?ask k)" using find_Some_set[OF Some] by auto
    moreover have "\<not> is_hit (?ask j)" if "k < j" "j < length segs" for j
      using find_rev_upt_longest[OF Some] that by auto
    ultimately show ?thesis using l Some by (intro exI[of _ k]) (cases "?ask k"; auto simp: chain_result_def)
  next
    case None
    then obtain k where k: "find (\<lambda>k. ?ask k \<noteq> Unknown) ?ks = Some k" "l = ?ask k"
      using l by (auto simp: chain_result_def Let_def)
    have nohit: "\<not> is_hit (?ask j)" if "0 < j" "j < length segs" for j
      using None that by (auto simp: find_None_set)
    have "0 < k" "k < length segs" "?ask k \<noteq> Unknown" using find_Some_set[OF k(1)] by auto
    moreover have "?ask j = Unknown" if "k < j" "j < length segs" for j
      using find_rev_upt_longest[OF k(1)] that by auto
    moreover have "\<not> is_hit (?ask k)" using nohit[OF calculation(1,2)] .
    ultimately show ?thesis using k(2) nohit by (intro exI[of _ k]) (cases "?ask k"; auto)
  qed
qed

text \<open>
  Two modules of the primary workspace: \<^verbatim>\<open>a\<close> re-exports \<^verbatim>\<open>X\<close> from \<^verbatim>\<open>b\<close>, and \<^verbatim>\<open>b\<close> re-exports it
  from \<^verbatim>\<open>c\<close>.
\<close>

definition demo_reexport :: "string \<Rightarrow> string \<Rightarrow> ModuleLookup" where
  "demo_reexport module target = push_binding
     \<lparr> ir_name = ''X'', ir_source = BindingSource.Param, ir_resolved_fqdn = Some target, ir_aliases_to = None,
       ir_mutability = None, ir_scope_idx = ROOT_SCOPE, ir_attributes = [], ir_ir_kind = None \<rparr>
     (module_lookup_new 0 module Language.Rust)"

definition demo_reexport_codec :: codec where
  "demo_reexport_codec = demo_codec\<lparr>decode_lookup := (\<lambda>bytes.
     if bytes = [1] then Some (demo_reexport ''a'' ''b::X'') else Some (demo_reexport ''b'' ''c::X''))\<rparr>"

definition demo_reexport_db :: db where
  "demo_reexport_db = init_db\<lparr>t_module_lookups :=
     [\<lparr> lk_module_fqdn = ''a'', lk_workspace_id = ''primary'', lk_language = ''rust'', lk_built_at = 0, lk_payload = [1] \<rparr>,
      \<lparr> lk_module_fqdn = ''b'', lk_workspace_id = ''primary'', lk_language = ''rust'', lk_built_at = 0, lk_payload = [2] \<rparr>]\<rparr>"

definition demo_reexport_edge :: "string \<Rightarrow> RawEdge" where
  "demo_reexport_edge target = \<lparr> re_from_fqdn = ''me::f'', re_kind = EdgeKind.Calls,
     re_to = ResolvedOrUnresolved.Unresolved target, re_sites = [], re_attributes = [],
     re_confidence = EdgeConfidence.Ambiguous, re_receiver_type = None \<rparr>"

lemmas demo_reexport_defs = demo_reexport_db_def demo_reexport_codec_def demo_reexport_def init_db_def
  module_lookup_new_def push_binding_def

lemma demo_reexport_lookup:
  "compute_with_key demo_reexport_codec demo_reexport_db m y =
    (if y = ''X'' \<and> m = ''a'' then Hit ''primary'' ''b::X''
     else if y = ''X'' \<and> m = ''b'' then Hit ''primary'' ''c::X'' else Unknown)"
  by (simp add: compute_with_key_def resolve_cross_workspace_import_def peer_lookups_def sbind_def sx_apply
      resolve_intra_workspace_import_def peer_workspace_for_module_def lookup_by_def lookup_key_def
      root_resolution_from_payload_def decode_module_lookup_def PRIMARY_WORKSPACE_ID_def demo_reexport_defs)

lemma demo_reexport_compute:
  "compute demo_reexport_codec demo_reexport_db ''a'' ''X'' = Hit ''primary'' ''b::X''"
  "compute demo_reexport_codec demo_reexport_db ''b'' ''X'' = Hit ''primary'' ''c::X''"
  "compute demo_reexport_codec demo_reexport_db ''a::X'' ''new'' = Unknown"
  by (simp_all add: compute_def demo_reexport_lookup Let_def)

theorem suffix_chain_longest_module_first_witness:
  "fst (resolve_with_suffix_chain (db_resolve demo_reexport_codec demo_reexport_db) ''a::X::new'' Map.empty) =
     Some (Hit ''primary'' ''b::X::new'')"
proof -
  let ?ask = "compute demo_reexport_codec demo_reexport_db"
  note ask = demo_reexport_compute
  have segs: "split_path ''a::X::new'' = [''a'', ''X'', ''new'']" by code_simp
  have j: "join_path [''a'', ''X''] = ''a::X''" "join_path [''a''] = ''a''" by code_simp+
  have "fst (resolve_with_suffix_chain (db_resolve demo_reexport_codec demo_reexport_db) ''a::X::new'' Map.empty) =
     chain_answer ?ask ''a::X::new''"
    using db_resolver.suffix_chain_answer[of demo_reexport_codec demo_reexport_db Map.empty "''a::X::new''"]
    by (auto simp: cache_ok_def)
  then obtain l where l: "fst (resolve_with_suffix_chain (db_resolve demo_reexport_codec demo_reexport_db) ''a::X::new'' Map.empty) = Some l"
    by (simp add: chain_answer_def segs chain_result_def ask j numeral_2_eq_2)
  have t: "append_tail ''b::X'' [''new''] = ''b::X::new''" by code_simp
  from suffix_chain_longest_module_first[OF segs[symmetric] l] have "l = Hit ''primary'' ''b::X::new''"
    apply (elim exE conjE)
    subgoal premises c for k
    proof -
      have "k = 1 \<or> k = 2" using c(1,2) by auto
      then show ?thesis using c(3) by (elim disjE) (simp_all add: ask j t numeral_2_eq_2)
    qed
    done
  with l show ?thesis by simp
qed

text \<open>
  The rewriting pass is not idempotent: after a hit the new target is a candidate again, so a
  symbol re-exported twice moves one module further with each run.
\<close>

theorem rewrite_not_idempotent:
  "\<exists>K db x. let once = fst (rewrite_cross_workspace_edges (db_resolve K db) x Map.empty) in
     fst (rewrite_cross_workspace_edges (db_resolve K db) once Map.empty) \<noteq> once"
proof -
  let ?K = demo_reexport_codec and ?db = demo_reexport_db
  let ?x = "demo_extracted\<lparr>ef_edges := [demo_reexport_edge ''a::X''],
      ef_module_lookup := Some (module_lookup_new 0 ''me'' Language.Rust)\<rparr>"
  let ?once = "fst (rewrite_cross_workspace_edges (db_resolve ?K ?db) ?x Map.empty)"
  have path: "split_path ''a::X'' = [''a'', ''X'']" "split_path ''b::X'' = [''b'', ''X'']" "split_once_path ''me'' = None"
    "\<not> is_local ''a::X'' ''me''" "\<not> is_local ''b::X'' ''me''" by code_simp+
  have ans: "chain_answer (compute ?K ?db) ''a::X'' = Some (Hit ''primary'' ''b::X'')"
    "chain_answer (compute ?K ?db) ''b::X'' = Some (Hit ''primary'' ''c::X'')"
    by (simp_all add: chain_answer_def path chain_result_def demo_reexport_compute join_path_def append_tail_def)
  have pre: "rewrite_prefix ?x = Some ''me''"
    by (simp add: rewrite_prefix_def language_supports_workspace_prefix_def module_lookup_new_def path)
  have rw: "fst (rewrite_cross_workspace_edges (db_resolve ?K ?db) y Map.empty) =
      y\<lparr>ef_edges := map (strengthened (compute ?K ?db) ''me'') (ef_edges y)\<rparr>"
    if "rewrite_prefix y = Some ''me''" for y
    using db_resolver.rewrite_answer[of ?K ?db Map.empty y] that by (simp add: cache_ok_def)
  have once: "map re_to (ef_edges ?once) = [ResolvedOrUnresolved.Resolved ''b::X'']"
    unfolding rw[OF pre] by (simp add: strengthened_def demo_reexport_edge_def path ans strengthen_def retarget_def)
  have "rewrite_prefix ?once = Some ''me''" unfolding rw[OF pre] using pre by (simp add: rewrite_prefix_def)
  from rw[OF this] once
  have "map re_to (ef_edges (fst (rewrite_cross_workspace_edges (db_resolve ?K ?db) ?once Map.empty)))
      = [ResolvedOrUnresolved.Resolved ''c::X'']"
    by (auto simp: strengthened_def path ans strengthen_def retarget_def)
  then have "fst (rewrite_cross_workspace_edges (db_resolve ?K ?db) ?once Map.empty) \<noteq> ?once" using once by auto
  then show ?thesis unfolding Let_def by blast
qed



end
