(* ===== verification/Sweep.thy ===== *)
theory Sweep
  imports Resolver
begin

text \<open>
  The second pass over unresolved edges at the end of a cold start
  (\<^verbatim>\<open>pipeline/resolve_unresolved.rs\<close>): every edge without a target is looked up again, through the
  receiver type, the traits the receiver implements, the builtin trait methods and the suffix
  chain, and the hits are written in one transaction.

  A query without \<^verbatim>\<open>ORDER BY\<close> returns rows in storage order, which is the order of the row ids.
\<close>

record UnresolvedEdge =
  ue_edge_id :: int
  ue_raw_name :: string
  ue_receiver_type :: "string option"
  ue_kind :: string

record ResolveReport =
  rr_resolved :: nat
  rr_via_receiver_type :: nat
  rr_via_trait_dispatch :: nat
  rr_via_builtin_trait_method :: nat
  rr_still_unresolved :: nat
  rr_duplicate_skipped :: nat

definition unresolved_edge :: "edge_row \<Rightarrow> UnresolvedEdge option" where
  "unresolved_edge e = map_option (\<lambda>name.
     \<lparr> ue_edge_id = e_id e, ue_raw_name = name, ue_receiver_type = e_receiver_type e, ue_kind = e_kind e \<rparr>)
     (e_to_unresolved e)"

definition unresolved_edges :: "db \<Rightarrow> UnresolvedEdge list" where
  "unresolved_edges db = List.map_filter unresolved_edge (t_edges db)"

section \<open>Lookups\<close>

definition lookup_symbol_id :: "db \<Rightarrow> string \<Rightarrow> int option" where
  "lookup_symbol_id db fqdn = map_option s_id (find (\<lambda>r. s_fqdn r = fqdn) (t_symbols db))"

text \<open>\<^verbatim>\<open>s.contains("::")\<close>\<close>

definition contains_path :: "string \<Rightarrow> bool" where
  "contains_path s \<longleftrightarrow> 1 < length (split_path s)"

definition BUILTIN_LIKE :: string where
  "BUILTIN_LIKE = ''<builtin>::%''"

definition nominal_matches :: "db \<Rightarrow> string \<Rightarrow> int list" where
  "nominal_matches db candidate =
    take 2 (map s_id (filter (\<lambda>r. sql_like (''%::'' @ candidate) (s_fqdn r) \<and> \<not> sql_like BUILTIN_LIKE (s_fqdn r))
      (t_symbols db)))"

definition try_resolve_via_receiver_type :: "db \<Rightarrow> string \<Rightarrow> string \<Rightarrow> int option" where
  "try_resolve_via_receiver_type db receiver_type method =
    (let candidate = receiver_type @ ''::'' @ method in
     case lookup_symbol_id db candidate of
       Some sid \<Rightarrow> Some sid
     | None \<Rightarrow>
         (case (if contains_path receiver_type then [] else nominal_matches db candidate) of
            [sid] \<Rightarrow> Some sid
          | _ \<Rightarrow> lookup_symbol_id db (''<builtin>::rust::'' @ candidate)))"

definition implemented_traits :: "db \<Rightarrow> string \<Rightarrow> string list" where
  "implemented_traits db receiver_type =
    (let pattern = (if contains_path receiver_type then [] else ''%::'' @ receiver_type) in
     sort (remdups (List.map_filter (\<lambda>e.
       case (lookup_by s_id (e_from_symbol_id e) (t_symbols db),
             Option.bind (e_to_symbol_id e) (\<lambda>t. lookup_by s_id t (t_symbols db))) of
         (Some src, Some trait_sym) \<Rightarrow>
           if e_kind e = ''IMPLEMENTS'' \<and> \<not> sql_like BUILTIN_LIKE (s_fqdn src) \<and>
              (s_fqdn src = receiver_type \<or> (pattern \<noteq> [] \<and> sql_like pattern (s_fqdn src)))
           then Some (s_fqdn trait_sym) else None
       | _ \<Rightarrow> None) (t_edges db))))"

fun first_method :: "db \<Rightarrow> string \<Rightarrow> string list \<Rightarrow> int option" where
  "first_method db method [] = None"
| "first_method db method (trait_fqdn # rest) =
    (case lookup_symbol_id db (trait_fqdn @ ''::'' @ method) of
       Some sid \<Rightarrow> Some sid | None \<Rightarrow> first_method db method rest)"

definition try_resolve_via_trait_dispatch :: "db \<Rightarrow> string \<Rightarrow> string \<Rightarrow> int option" where
  "try_resolve_via_trait_dispatch db receiver_type method =
    first_method db method (implemented_traits db receiver_type)"

definition try_resolve_via_builtin_trait_method :: "db \<Rightarrow> string \<Rightarrow> int option" where
  "try_resolve_via_builtin_trait_method db method =
    (case sort_key s_fqdn (filter (\<lambda>r. sql_like (''<builtin>::rust::%::'' @ method) (s_fqdn r) \<and> s_name r = method
        \<and> sql_like ''%\"trait_method\"%'' (s_flags r)) (t_symbols db)) of
       [] \<Rightarrow> None | r # _ \<Rightarrow> Some (s_id r))"

section \<open>The sweep\<close>

text \<open>The locals of the loop.\<close>

record sweep =
  sw_resolver :: resolver_cache
  sw_fqdn_cache :: "string \<rightharpoonup> int option"
  sw_updates :: "(int \<times> int) list"
  sw_still :: nat
  sw_receiver :: nat
  sw_trait :: nat
  sw_builtin :: nat

definition push_update :: "UnresolvedEdge \<Rightarrow> int \<Rightarrow> sweep \<Rightarrow> sweep" where
  "push_update edge sid sw = sw\<lparr>sw_updates := sw_updates sw @ [(ue_edge_id edge, sid)]\<rparr>"

definition sweep_chain :: "codec \<Rightarrow> db \<Rightarrow> UnresolvedEdge \<Rightarrow> sweep \<Rightarrow> sweep" where
  "sweep_chain K db edge sw =
    (case resolve_with_suffix_chain (db_resolve K db) (ue_raw_name edge) (sw_resolver sw) of (outcome, cache) \<Rightarrow>
     let sw = sw\<lparr>sw_resolver := cache\<rparr> in
     case outcome of
       Some (Hit workspace_id fqdn) \<Rightarrow>
         let fetched = (case sw_fqdn_cache sw fqdn of Some cached \<Rightarrow> cached | None \<Rightarrow> lookup_symbol_id db fqdn);
             sw = sw\<lparr>sw_fqdn_cache := (sw_fqdn_cache sw)(fqdn \<mapsto> fetched)\<rparr>
         in (case fetched of
               Some sid \<Rightarrow> push_update edge sid sw
             | None \<Rightarrow> sw\<lparr>sw_still := sw_still sw + 1\<rparr>)
     | _ \<Rightarrow> sw\<lparr>sw_still := sw_still sw + 1\<rparr>)"

definition sweep_receiver :: "codec \<Rightarrow> db \<Rightarrow> UnresolvedEdge \<Rightarrow> string \<Rightarrow> sweep \<Rightarrow> sweep" where
  "sweep_receiver K db edge rt sw =
    (case try_resolve_via_receiver_type db rt (ue_raw_name edge) of
       Some sid \<Rightarrow> (push_update edge sid sw)\<lparr>sw_receiver := sw_receiver sw + 1\<rparr>
     | None \<Rightarrow> (case try_resolve_via_trait_dispatch db rt (ue_raw_name edge) of
         Some sid \<Rightarrow> (push_update edge sid sw)\<lparr>sw_trait := sw_trait sw + 1\<rparr>
       | None \<Rightarrow> (case try_resolve_via_builtin_trait_method db (ue_raw_name edge) of
           Some sid \<Rightarrow> (push_update edge sid sw)\<lparr>sw_builtin := sw_builtin sw + 1\<rparr>
         | None \<Rightarrow> sweep_chain K db edge sw)))"

definition sweep_edge :: "codec \<Rightarrow> db \<Rightarrow> UnresolvedEdge \<Rightarrow> sweep \<Rightarrow> sweep" where
  "sweep_edge K db edge sw =
    (case ue_receiver_type edge of
       Some rt \<Rightarrow> if ue_kind edge = ''CALLS'' then sweep_receiver K db edge rt sw else sweep_chain K db edge sw
     | None \<Rightarrow> sweep_chain K db edge sw)"

definition sweep_start :: sweep where
  "sweep_start = \<lparr> sw_resolver = Map.empty, sw_fqdn_cache = Map.empty, sw_updates = [], sw_still = 0,
     sw_receiver = 0, sw_trait = 0, sw_builtin = 0 \<rparr>"

definition resolve_row :: "int \<Rightarrow> edge_row \<Rightarrow> edge_row" where
  "resolve_row sid e = e\<lparr>e_to_symbol_id := Some sid, e_to_unresolved := None\<rparr>"

text \<open>\<^verbatim>\<open>UPDATE OR IGNORE edges SET \<dots> WHERE id = \<close>: a row that would fail a check is left as it is.\<close>

definition or_ignore :: "int \<Rightarrow> int \<Rightarrow> db \<Rightarrow> edge_row \<Rightarrow> edge_row option" where
  "or_ignore edge_id sid db e =
    (if e_id e = edge_id \<and> edge_checks (resolve_row sid e) then Some (resolve_row sid e) else None)"

definition apply_update :: "int \<times> int \<Rightarrow> nat \<times> nat \<Rightarrow> (nat \<times> nat) sql" where
  "apply_update upd counts =
    (case (upd, counts) of ((edge_id, symbol_id), (resolved, duplicate_skipped)) \<Rightarrow>
     sbind (run (sql_update_edges (or_ignore edge_id symbol_id))) (\<lambda>changed.
     sreturn (if 0 < changed then (resolved + 1, duplicate_skipped) else (resolved, duplicate_skipped + 1))))"

definition apply_resolve_unresolved :: "codec \<Rightarrow> ResolveReport sql" where
  "apply_resolve_unresolved K =
    sbind (squery (\<lambda>db. fold (sweep_edge K db) (unresolved_edges db) sweep_start)) (\<lambda>sw.
    sbind (transaction (sfold apply_update (sw_updates sw) (0, 0))) (\<lambda>(resolved, duplicate_skipped).
    sreturn \<lparr> rr_resolved = resolved, rr_via_receiver_type = sw_receiver sw,
              rr_via_trait_dispatch = sw_trait sw, rr_via_builtin_trait_method = sw_builtin sw,
              rr_still_unresolved = sw_still sw, rr_duplicate_skipped = duplicate_skipped \<rparr>))"

section \<open>The lookups answer ids of symbols\<close>

lemma lookup_symbol_id_sym: "lookup_symbol_id db fqdn = Some sid \<Longrightarrow> sid \<in> sym_ids db"
  by (auto simp: lookup_symbol_id_def dest: find_Some_set)

lemma first_method_sym: "first_method db method traits = Some sid \<Longrightarrow> sid \<in> sym_ids db"
  by (induction traits) (auto split: option.splits dest: lookup_symbol_id_sym)

lemma nominal_matches_sym: "sid \<in> set (nominal_matches db candidate) \<Longrightarrow> sid \<in> sym_ids db"
  unfolding nominal_matches_def by (drule in_set_takeD) auto

lemma receiver_type_sym: "try_resolve_via_receiver_type db rt method = Some sid \<Longrightarrow> sid \<in> sym_ids db"
  using nominal_matches_sym[of sid db "rt @ ''::'' @ method"]
  by (auto simp: try_resolve_via_receiver_type_def Let_def dest: lookup_symbol_id_sym
      split: option.splits list.splits if_splits)

lemma trait_dispatch_sym: "try_resolve_via_trait_dispatch db rt method = Some sid \<Longrightarrow> sid \<in> sym_ids db"
  by (simp add: try_resolve_via_trait_dispatch_def first_method_sym)

lemma builtin_trait_method_sym:
  assumes "try_resolve_via_builtin_trait_method db method = Some sid"
  shows "sid \<in> sym_ids db"
proof -
  obtain P r rest where "sort_key s_fqdn (filter P (t_symbols db)) = r # rest" "sid = s_id r"
    using assms by (auto simp: try_resolve_via_builtin_trait_method_def split: list.splits)
  then have "r \<in> set (t_symbols db)"
    by (metis filter_is_subset list.set_intros(1) set_sort subsetD)
  then show ?thesis using \<open>sid = s_id r\<close> by blast
qed

lemmas lookup_syms = lookup_symbol_id_sym receiver_type_sym trait_dispatch_sym builtin_trait_method_sym

section \<open>The loop\<close>

text \<open>What the loop has computed after the edges \<^verbatim>\<open>done\<close>.\<close>

definition swept :: "db \<Rightarrow> UnresolvedEdge list \<Rightarrow> sweep \<Rightarrow> bool" where
  "swept db past sw \<longleftrightarrow>
     (\<forall>fqdn v. sw_fqdn_cache sw fqdn = Some v \<longrightarrow> v = lookup_symbol_id db fqdn) \<and>
     subseq (map fst (sw_updates sw)) (map ue_edge_id past) \<and>
     snd ` set (sw_updates sw) \<subseteq> sym_ids db \<and>
     length (sw_updates sw) + sw_still sw = length past \<and>
     sw_receiver sw + sw_trait sw + sw_builtin sw \<le> length (sw_updates sw)"

lemma swept_start: "swept db [] sweep_start"
  by (simp add: swept_def sweep_start_def)

lemma subseq_set: "subseq xs ys \<Longrightarrow> set xs \<subseteq> set ys"
  by (auto elim: list_emb_set)

lemma subseq_distinct_key: "subseq xs ys \<Longrightarrow> distinct ys \<Longrightarrow> distinct xs"
  by (induction rule: list_emb.induct) (auto dest: list_emb_set)

lemma subseq_snoc: "subseq xs ys \<Longrightarrow> subseq (xs @ [y]) (ys @ [y])"
  by (simp add: subseq_append')

lemma swept_push:
  assumes "swept db past sw" "sid \<in> sym_ids db"
  shows "swept db (past @ [edge]) (push_update edge sid sw)"
    "swept db (past @ [edge]) ((push_update edge sid sw)\<lparr>sw_receiver := sw_receiver sw + 1\<rparr>)"
    "swept db (past @ [edge]) ((push_update edge sid sw)\<lparr>sw_trait := sw_trait sw + 1\<rparr>)"
    "swept db (past @ [edge]) ((push_update edge sid sw)\<lparr>sw_builtin := sw_builtin sw + 1\<rparr>)"
  using assms subseq_snoc[of "map fst (sw_updates sw)" "map ue_edge_id past" "ue_edge_id edge"]
  by (auto simp: swept_def push_update_def)

lemma swept_still:
  assumes "swept db past sw"
  shows "swept db (past @ [edge]) (sw\<lparr>sw_still := sw_still sw + 1\<rparr>)"
  using assms by (auto simp: swept_def intro: subseq_order.trans)

lemma swept_caches:
  "swept db past sw \<Longrightarrow> swept db past (sw\<lparr>sw_resolver := c\<rparr>)"
  "swept db past sw \<Longrightarrow> v = lookup_symbol_id db fqdn \<Longrightarrow>
     swept db past (sw\<lparr>sw_fqdn_cache := (sw_fqdn_cache sw)(fqdn \<mapsto> v)\<rparr>)"
  by (auto simp: swept_def)

lemma swept_chain:
  assumes "swept db past sw"
  shows "swept db (past @ [edge]) (sweep_chain K db edge sw)"
proof -
  obtain outcome cache where r: "resolve_with_suffix_chain (db_resolve K db) (ue_raw_name edge) (sw_resolver sw) = (outcome, cache)"
    by fastforce
  let ?sw = "sw\<lparr>sw_resolver := cache\<rparr>"
  have s: "swept db past ?sw" using assms by (rule swept_caches)
  show ?thesis
  proof (cases "\<exists>ws fqdn. outcome = Some (Hit ws fqdn)")
    case True
    then obtain ws fqdn where o: "outcome = Some (Hit ws fqdn)" by blast
    let ?f = "case sw_fqdn_cache ?sw fqdn of Some cached \<Rightarrow> cached | None \<Rightarrow> lookup_symbol_id db fqdn"
    have f: "?f = lookup_symbol_id db fqdn"
      using s by (auto simp: swept_def split: option.splits)
    note c = swept_caches(2)[OF s f]
    show ?thesis
    proof (cases ?f)
      case None
      then show ?thesis using swept_still[OF c, of edge] by (simp add: sweep_chain_def r o Let_def)
    next
      case (Some sid)
      then have "sid \<in> sym_ids db" using f by (simp add: lookup_symbol_id_sym)
      then show ?thesis using swept_push(1)[OF c, of sid edge] Some by (simp add: sweep_chain_def r o Let_def)
    qed
  next
    case False
    then show ?thesis using swept_still[OF s, of edge]
      by (auto simp: sweep_chain_def r Let_def split: option.splits CrossWorkspaceLookup.splits)
  qed
qed

lemma swept_edge: "swept db past sw \<Longrightarrow> swept db (past @ [edge]) (sweep_edge K db edge sw)"
  using lookup_syms swept_push[of db past sw, simplified]
  by (auto simp: sweep_edge_def sweep_receiver_def intro: swept_chain split: option.split)

lemma swept_fold: "swept db past sw \<Longrightarrow> swept db (past @ edges) (fold (sweep_edge K db) edges sw)"
  using swept_edge by (induction edges arbitrary: past sw) fastforce+

section \<open>The updates\<close>

text \<open>The row after the updates: the ids in the update list are distinct.\<close>

definition updated_row :: "(int \<times> int) list \<Rightarrow> edge_row \<Rightarrow> edge_row" where
  "updated_row ups e = (case map_of ups (e_id e) of None \<Rightarrow> e | Some sid \<Rightarrow> resolve_row sid e)"

lemma resolve_row_checks: "edge_checks e \<Longrightarrow> edge_checks (resolve_row sid e)"
  by (simp add: edge_checks_def edge_target_check_def resolve_row_def)

lemma resolve_row_id [simp]: "e_id (resolve_row sid e) = e_id e"
  by (simp add: resolve_row_def)

lemma map_filter_single:
  assumes "distinct (map key xs)" "x \<in> set xs" "\<And>y. y \<in> set xs \<Longrightarrow> f y = (if key y = key x then Some (g y) else None)"
  shows "List.map_filter f xs = [g x]"
  using assms
proof (induction xs)
  case (Cons y ys)
  have none: "List.map_filter f ys = []" if "x = y"
  proof -
    have "f z = None" if "z \<in> set ys" for z
      using Cons.prems(1) Cons.prems(3)[of z] that \<open>x = y\<close> by (auto simp: image_iff)
    then show ?thesis by (auto simp: List.map_filter_def filter_empty_conv)
  qed
  show ?case
  proof (cases "x = y")
    case True
    then show ?thesis using none Cons.prems(3)[of y] by (simp add: List.map_filter_simps)
  next
    case False
    then have "x \<in> set ys" "key y \<noteq> key x" using Cons.prems by auto
    then show ?thesis using Cons by (simp add: List.map_filter_simps)
  qed
qed simp

lemma apply_update_run:
  assumes ok: "db_ok db" and i: "i \<in> edge_ids db" and s: "sid \<in> sym_ids db"
  shows "apply_update (i, sid) (r, d) db = (Inr (r + 1, d), db\<lparr>t_edges := map (updated_row [(i, sid)]) (t_edges db)\<rparr>)"
proof -
  obtain e where e: "e \<in> set (t_edges db)" "i = e_id e" using i by auto
  have chk: "edge_checks (resolve_row sid y)" "edge_fk db (resolve_row sid y)" if "y \<in> set (t_edges db)" for y
    using that db_ok_subD(4)[OF ok] s
    by (auto simp: ok_edges_def edge_fk_def resolve_row_checks) (auto simp: resolve_row_def)
  have ch: "List.map_filter (or_ignore i sid db) (t_edges db) = [resolve_row sid e]"
    using map_filter_single[of e_id "t_edges db" e "or_ignore i sid db" "resolve_row sid"] e chk db_ok_subD(4)[OF ok]
    by (auto simp: ok_edges_def ok_ids_def or_ignore_def)
  have "(case or_ignore i sid db y of None \<Rightarrow> y | Some e' \<Rightarrow> e') = updated_row [(i, sid)] y"
    if "y \<in> set (t_edges db)" for y
    using chk(1)[OF that] by (simp add: or_ignore_def updated_row_def)
  then show ?thesis
    using ch chk e by (simp add: apply_update_def sbind_def map_err_def sql_update_edges_def Let_def sx_apply)
qed

lemma updated_row_id [simp]: "e_id (updated_row ups e) = e_id e"
  by (simp add: updated_row_def split: option.split)

lemma or_ignore_id: "keeps_edge_id (or_ignore i sid)"
  by (rule keeps_edge_idI) (auto simp: or_ignore_def split: if_splits)

lemma apply_updates_run:
  assumes "db_ok db" "distinct (map fst ups)" "fst ` set ups \<subseteq> edge_ids db" "snd ` set ups \<subseteq> sym_ids db"
  shows "sfold apply_update ups (r, d) db = (Inr (r + length ups, d), db\<lparr>t_edges := map (updated_row ups) (t_edges db)\<rparr>)"
  using assms
proof (induction ups arbitrary: db r)
  case Nil
  then show ?case by (simp add: sx_apply updated_row_def)
next
  case (Cons u ups)
  obtain i sid where u: "u = (i, sid)" by fastforce
  let ?db = "db\<lparr>t_edges := map (updated_row [(i, sid)]) (t_edges db)\<rparr>"
  have run: "apply_update (i, sid) (r, d) db = (Inr (r + 1, d), ?db)"
    using Cons.prems u by (intro apply_update_run) auto
  have "keeps db_ok (apply_update (i, sid) (r, d))"
    unfolding apply_update_def by (auto intro!: keeps_intros or_ignore_id)
  from keeps_result[OF this Cons.prems(1) run] have ok: "db_ok ?db" .
  have ids: "edge_ids ?db = edge_ids db"
    by (simp add: image_image)
  have comp: "updated_row ups (updated_row [(i, sid)] e) = updated_row (u # ups) e" for e
  proof -
    have "map_of ups i = None" using Cons.prems(2) u by (auto simp: map_of_eq_None_iff)
    then show ?thesis by (simp add: updated_row_def u split: option.split)
  qed
  show ?case
    using Cons.IH[OF ok, of "r + 1"] Cons.prems u run ids comp
    by (simp add: sbind_eq_Inr o_def)
qed

lemma unresolved_ids:
  "map ue_edge_id (unresolved_edges db) = map e_id (filter (\<lambda>e. e_to_unresolved e \<noteq> None) (t_edges db))"
  by (induction "t_edges db") (auto simp: unresolved_edges_def unresolved_edge_def List.map_filter_def o_def)

text \<open>Each update takes one edge out of the unresolved ones.\<close>

lemma updated_row_unresolved:
  "e_to_unresolved (updated_row ups e) \<noteq> None \<longleftrightarrow> e_to_unresolved e \<noteq> None \<and> e_id e \<notin> fst ` set ups"
  by (auto simp: updated_row_def resolve_row_def dom_map_of_conv_image_fst[symmetric] split: option.splits)

lemma updated_count:
  assumes "distinct (map e_id es)" "distinct (map fst ups)"
    and mem: "fst ` set ups \<subseteq> e_id ` set (filter (\<lambda>e. e_to_unresolved e \<noteq> None) es)"
  shows "length ups + length (filter (\<lambda>e. e_to_unresolved e \<noteq> None) (map (updated_row ups) es))
    = length (filter (\<lambda>e. e_to_unresolved e \<noteq> None) es)"
proof -
  let ?un = "\<lambda>e. e_to_unresolved e \<noteq> None"
  let ?U = "filter ?un es"
  have dU: "distinct (map e_id ?U)" using assms(1) by (rule distinct_map_filter)
  have "card (e_id ` set (filter (\<lambda>e. e_id e \<in> fst ` set ups) ?U)) = card (fst ` set ups)"
    using mem by (intro arg_cong[of _ _ card]) force
  then have "length (filter (\<lambda>e. e_id e \<in> fst ` set ups) ?U) = length ups"
    using distinct_card[OF distinct_map_filter[OF dU, of "\<lambda>e. e_id e \<in> fst ` set ups"]] distinct_card[OF assms(2)] by simp
  moreover have "length (filter ?un (map (updated_row ups) es)) = length (filter (\<lambda>e. e_id e \<notin> fst ` set ups) ?U)"
    unfolding filter_map length_map o_def updated_row_unresolved by (simp add: conj_commute)
  ultimately show ?thesis
    using sum_length_filter_compl[of "\<lambda>e. e_id e \<in> fst ` set ups" ?U] by simp
qed

section \<open>The pass\<close>

text \<open>
  C35. On every well-formed database the pass returns, touches the edge table only and gives an edge
  a target only where it had none: every unresolved edge is either left as it was or points to a
  symbol of the database.  The report adds up: resolved and still unresolved edges are the edges
  without a target before the pass, the three receiver counters are part of the resolved ones, and
  nothing is ever counted as a skipped duplicate.
\<close>

theorem resolve_unresolved_pass:
  assumes ok: "db_ok db"
  shows "\<exists>report es. apply_resolve_unresolved K db = (Inr report, db\<lparr>t_edges := es\<rparr>) \<and>
    db_ok (db\<lparr>t_edges := es\<rparr>) \<and>
    list_all2 (\<lambda>e e'. e' = e \<or> (e_to_unresolved e \<noteq> None \<and> (\<exists>sid\<in>sym_ids db. e' = resolve_row sid e))) (t_edges db) es \<and>
    rr_resolved report + length (filter (\<lambda>e. e_to_unresolved e \<noteq> None) es)
      = length (filter (\<lambda>e. e_to_unresolved e \<noteq> None) (t_edges db)) \<and>
    rr_still_unresolved report = length (filter (\<lambda>e. e_to_unresolved e \<noteq> None) es) \<and>
    rr_via_receiver_type report + rr_via_trait_dispatch report + rr_via_builtin_trait_method report \<le> rr_resolved report \<and>
    rr_duplicate_skipped report = 0"
proof -
  let ?un = "\<lambda>e. e_to_unresolved e \<noteq> None"
  let ?sw = "fold (sweep_edge K db) (unresolved_edges db) sweep_start"
  let ?ups = "sw_updates ?sw"
  let ?es = "map (updated_row ?ups) (t_edges db)"
  have sw: "swept db (unresolved_edges db) ?sw"
    using swept_fold[OF swept_start] by simp
  have dist: "distinct (map e_id (t_edges db))"
    using db_ok_subD(4)[OF ok] by (simp add: ok_edges_def ok_ids_def)
  have sub: "subseq (map fst ?ups) (map e_id (filter ?un (t_edges db)))"
    using sw unfolding swept_def unresolved_ids by blast
  have dups: "distinct (map fst ?ups)"
    using subseq_distinct_key[OF sub] dist by (simp add: distinct_map_filter)
  have mem: "fst ` set ?ups \<subseteq> e_id ` set (filter ?un (t_edges db))"
    using subseq_set[OF sub] by simp
  then have mem': "fst ` set ?ups \<subseteq> edge_ids db" by auto
  have syms: "snd ` set ?ups \<subseteq> sym_ids db" using sw by (simp add: swept_def)
  have run: "sfold apply_update ?ups (0, 0) db = (Inr (length ?ups, 0), db\<lparr>t_edges := ?es\<rparr>)"
    using apply_updates_run[OF ok dups, of 0 0] mem' syms by simp
  have "keeps db_ok (sfold apply_update ?ups (0, 0))"
    unfolding apply_update_def by (auto intro!: keeps_intros or_ignore_id)
  from keeps_result[OF this ok run] have ok': "db_ok (db\<lparr>t_edges := ?es\<rparr>)" .
  have rows: "updated_row ?ups e = e \<or> (?un e \<and> (\<exists>sid\<in>sym_ids db. updated_row ?ups e = resolve_row sid e))"
    if e: "e \<in> set (t_edges db)" for e
  proof (cases "map_of ?ups (e_id e)")
    case (Some sid)
    then have "(e_id e, sid) \<in> set ?ups" by (rule map_of_SomeD)
    then have "sid \<in> sym_ids db" "e_id e \<in> e_id ` set (filter ?un (t_edges db))"
      using sw mem by (auto simp: swept_def rev_image_eqI)
    then show ?thesis using Some e distinct_map_inj_same[OF dist] by (fastforce simp: updated_row_def)
  qed (simp add: updated_row_def)
  have count: "length ?ups + length (filter ?un ?es) = length (filter ?un (t_edges db))"
    using updated_count[OF dist dups mem] .
  have len: "length ?ups + sw_still ?sw = length (filter ?un (t_edges db))"
    using sw unresolved_ids[of db] by (metis length_map swept_def)
  have "sw_receiver ?sw + sw_trait ?sw + sw_builtin ?sw \<le> length ?ups" using sw by (simp add: swept_def)
  moreover have "list_all2 (\<lambda>e e'. e' = e \<or> (?un e \<and> (\<exists>sid\<in>sym_ids db. e' = resolve_row sid e))) (t_edges db) ?es"
    using rows by (fastforce simp: list_all2_conv_all_nth)
  ultimately show ?thesis
    using run ok' count len
    by (intro exI[of _ ?es] exI) (auto simp: apply_resolve_unresolved_def sbind_def transaction_def sx_apply)
qed

text \<open>\<^verbatim>\<open>g\<close> calls the method \<^verbatim>\<open>f\<close> on a receiver of type \<^verbatim>\<open>T\<close>.\<close>

definition demo_sweep_db :: db where
  "demo_sweep_db = demo_db\<lparr>t_symbols := [demo_row 1 ''T::f'', demo_row 2 ''g''],
     t_fts := [(1, ''T::f'', ''T::f''), (2, ''g'', ''g'')],
     t_edges := [demo_edge\<lparr>e_to_symbol_id := None, e_to_unresolved := Some ''f'', e_receiver_type := Some ''T''\<rparr>]\<rparr>"

lemma demo_sweep_db_ok: "db_ok demo_sweep_db"
  by (simp add: demo_sweep_db_def demo_db_def init_db_def db_ok_def ok_projects_def ok_ids_def ok_files_def ok_symbols_def
      ok_edges_def ok_satellite_def ok_calls_def ok_catalog_def ok_fts_def fts_doc_def demo_edge_def
      demo_file_def edge_checks_def edge_target_check_def)

theorem resolve_unresolved_pass_witness:
  "\<exists>report db'. apply_resolve_unresolved demo_codec demo_sweep_db = (Inr report, db') \<and>
    rr_resolved report = 1 \<and> rr_still_unresolved report = 0 \<and> t_edges db' = [demo_edge\<lparr>e_receiver_type := Some ''T''\<rparr>]"
proof -
  have t: "t_symbols demo_sweep_db = [demo_row 1 ''T::f'', demo_row 2 ''g'']"
    "t_edges demo_sweep_db = [demo_edge\<lparr>e_to_symbol_id := None, e_to_unresolved := Some ''f'', e_receiver_type := Some ''T''\<rparr>]"
    by (simp_all add: demo_sweep_db_def)
  have hit: "sw_updates (fold (sweep_edge demo_codec demo_sweep_db) (unresolved_edges demo_sweep_db) sweep_start) = [(1, 1)]"
    by (simp add: unresolved_edges_def unresolved_edge_def List.map_filter_simps t demo_edge_def sweep_edge_def
        sweep_receiver_def try_resolve_via_receiver_type_def lookup_symbol_id_def push_update_def sweep_start_def)
  have run: "sfold apply_update [(1, 1)] (0, 0) demo_sweep_db =
      (Inr (1, 0), demo_sweep_db\<lparr>t_edges := map (updated_row [(1, 1)]) (t_edges demo_sweep_db)\<rparr>)"
    using apply_updates_run[OF demo_sweep_db_ok, of "[(1, 1)]" 0 0] by (simp add: t demo_edge_def)
  obtain report es where r: "apply_resolve_unresolved demo_codec demo_sweep_db = (Inr report, demo_sweep_db\<lparr>t_edges := es\<rparr>)"
    "rr_still_unresolved report = length (filter (\<lambda>e. e_to_unresolved e \<noteq> None) es)"
    using resolve_unresolved_pass[OF demo_sweep_db_ok, of demo_codec] by blast
  have "rr_resolved report = 1" "es = [demo_edge\<lparr>e_receiver_type := Some ''T''\<rparr>]"
    using r(1) hit run
    by (auto simp: apply_resolve_unresolved_def sbind_def transaction_def sx_apply t updated_row_def resolve_row_def
        demo_edge_def dest!: arg_cong[of "_\<lparr>t_edges := _\<rparr>" _ t_edges])
  then show ?thesis using r by (simp add: demo_edge_def)
qed

end
