(* ===== verification/Grouping.thy ===== *)
theory Grouping
  imports Prelude "HOL-Library.Multiset"
begin

text \<open>
  Grouping with a hash map, as several passes do it: \<^verbatim>\<open>entry(key).or_default().push(x)\<close> for every
  item, then a loop over the map.  The map is an association list in order of first insertion; the
  order in which Rust iterates it is a parameter of the passes, a function that permutes the list.
  The last lemma is the loop rule that remembers the items already handled.
\<close>

definition group_push :: "'k \<Rightarrow> 'a \<Rightarrow> ('k \<times> 'a list) list \<Rightarrow> ('k \<times> 'a list) list" where
  "group_push k x g =
    (if k \<in> fst ` set g then map (\<lambda>(j, ys). if j = k then (j, ys @ [x]) else (j, ys)) g else g @ [(k, [x])])"

definition group_by :: "('a \<Rightarrow> 'k) \<Rightarrow> 'a list \<Rightarrow> ('k \<times> 'a list) list" where
  "group_by key xs = fold (\<lambda>x. group_push (key x) x) xs []"

lemma grouped_push_keys:
  "map fst (group_push k x g) = (if k \<in> fst ` set g then map fst g else map fst g @ [k])"
  by (auto simp: group_push_def)

lemma group_by_keys: "distinct (map fst (group_by key xs)) \<and> fst ` set (group_by key xs) = key ` set xs"
proof (induction xs rule: rev_induct)
  case (snoc x xs)
  have "fst ` set (group_by key (xs @ [x])) = set (map fst (group_push (key x) x (group_by key xs)))"
    by (simp add: group_by_def)
  then show ?case using snoc unfolding grouped_push_keys
    by (auto simp: group_by_def grouped_push_keys split: if_splits)
qed (simp add: group_by_def)

lemma group_by_member: "(k, ys) \<in> set (group_by key xs) \<longleftrightarrow> ys \<noteq> [] \<and> ys = filter (\<lambda>x. key x = k) xs"
proof (induction xs arbitrary: k ys rule: rev_induct)
  case (snoc x xs)
  let ?g = "group_by key xs"
  have g: "group_by key (xs @ [x]) = group_push (key x) x ?g" by (simp add: group_by_def)
  have mem: "key x \<in> fst ` set ?g \<longleftrightarrow> filter (\<lambda>y. key y = key x) xs \<noteq> []"
    using group_by_keys[of key xs] by (auto simp: filter_empty_conv) (metis imageI)
  show ?case
  proof (cases "key x \<in> fst ` set ?g")
    case True
    then have "(k, ys) \<in> set (group_push (key x) x ?g) \<longleftrightarrow>
        (if k = key x then \<exists>zs. (k, zs) \<in> set ?g \<and> ys = zs @ [x] else (k, ys) \<in> set ?g)"
      unfolding group_push_def using True
      by (cases "k = key x") (auto simp: set_map image_def split: if_splits intro: bexI[rotated])
    then show ?thesis unfolding g using snoc mem True by auto
  next
    case False
    then show ?thesis unfolding g using snoc mem by (auto simp: group_push_def image_iff)
  qed
qed (simp add: group_by_def)

text \<open>What a loop over the map relies on: every entry comes once.\<close>

lemma permuted_set: "mset (ord g) = mset g \<Longrightarrow> set (ord g) = set g"
  by (metis set_mset_mset)

lemma permuted_groups:
  assumes "mset (ord (group_by key xs)) = mset (group_by key xs)"
  shows "mset (concat (map snd (ord (group_by key xs)))) = mset xs"
proof -
  have split: "mset (concat (map snd g)) = (\<Sum>p\<in>#mset g. mset (snd p))" for g :: "('a \<times> 'b list) list"
    by (induction g) auto
  have push: "mset (concat (map snd (group_push k x g))) = add_mset x (mset (concat (map snd g)))"
    if "distinct (map fst g)" for k and x :: 'b and g :: "('a \<times> 'b list) list"
    using that
  proof (induction g)
    case (Cons p g)
    have "map (snd \<circ> (\<lambda>(j, ys). if j = fst p then (j, ys @ [x]) else (j, ys))) g = map snd g"
      using Cons.prems by (auto simp: image_iff)
    then have "concat (map (snd \<circ> (\<lambda>(j, ys). if j = fst p then (j, ys @ [x]) else (j, ys))) g) = concat (map snd g)"
      by (rule arg_cong)
    then show ?case using Cons by (cases p) (auto simp: group_push_def simp del: map_eq_conv split: if_splits)
  qed (simp add: group_push_def)
  have "mset (concat (map snd (group_by key xs))) = mset xs"
  proof (induction xs rule: rev_induct)
    case (snoc x xs)
    then show ?case using push[of "group_by key xs" "key x" x] group_by_keys[of key xs] by (simp add: group_by_def)
  qed (simp add: group_by_def)
  then show ?thesis using assms by (simp only: split)
qed

text \<open>The loop rules with the items handled so far as a ghost argument of the invariant.\<close>

lemma returns_sfold_split:
  assumes "\<And>pre x post acc. xs = pre @ x # post \<Longrightarrow>
    returns (J (past @ pre) acc) (f x acc) (\<lambda>acc'. J (past @ pre @ [x]) acc')"
  shows "returns (J past acc) (sfold f xs acc) (\<lambda>acc'. J (past @ xs) acc')"
  using assms
proof (induction xs arbitrary: acc past)
  case Nil
  then show ?case by (simp add: returns_sreturn)
next
  case (Cons x xs)
  have "returns (J past acc) (f x acc) (\<lambda>acc'. J (past @ [x]) acc')" using Cons.prems[of "[]"] by simp
  moreover have "returns (J (past @ [x]) acc') (sfold f xs acc') (\<lambda>acc'. J ((past @ [x]) @ xs) acc')" for acc'
  proof (rule Cons.IH)
    fix pre y post acc'' assume "xs = pre @ y # post"
    then show "returns (J ((past @ [x]) @ pre) acc'') (f y acc'') (J ((past @ [x]) @ pre @ [y]))"
      using Cons.prems[of "x # pre" y post acc''] by simp
  qed
  ultimately show ?case by (auto intro: returns_sbind)
qed

lemma returns_sfold_done:
  assumes "\<And>x acc past. x \<in> set xs \<Longrightarrow> returns (J past acc) (f x acc) (\<lambda>acc'. J (past @ [x]) acc')"
  shows "returns (J past acc) (sfold f xs acc) (\<lambda>acc'. J (past @ xs) acc')"
proof (rule returns_sfold_split)
  fix pre x post acc assume "xs = pre @ x # post"
  then show "returns (J (past @ pre) acc) (f x acc) (J (past @ pre @ [x]))"
    using assms[of x "past @ pre" acc] by simp
qed

lemma returns_sfor_done:
  assumes "\<And>x past. x \<in> set xs \<Longrightarrow> returns (J past) (f x) (\<lambda>_. J (past @ [x]))"
  shows "returns (J past) (sfor xs f) (\<lambda>_. J (past @ xs))"
  using assms
proof (induction xs arbitrary: past)
  case Nil
  then show ?case by (simp add: returns_sreturn)
next
  case (Cons x xs)
  have "returns (J past) (f x) (\<lambda>_. J (past @ [x]))" using Cons.prems by simp
  moreover have "returns (J (past @ [x])) (sfor xs f) (\<lambda>_. J ((past @ [x]) @ xs))"
    using Cons.prems by (intro Cons.IH) simp
  ultimately show ?case by (auto intro: returns_sthen)
qed

lemma set_map_filter: "set (List.map_filter f xs) = {y. \<exists>x\<in>set xs. f x = Some y}"
  by (induction xs) (auto simp: List.map_filter_simps split: option.splits)

end
