(* ===== verification/Seed.thy ===== *)
theory Seed
  imports Sweep Grouping
begin

text \<open>
  Seeding of the builtin symbols (\<^verbatim>\<open>pipeline/seed_builtins.rs\<close>): the entries are grouped by language
  with a hash map (\<^verbatim>\<open>ord\<close> is its iteration order); each language gets one virtual file and each
  entry one synthetic symbol in it.  The statements run outside a transaction.
\<close>

definition BUILTIN_FILE_PREFIX :: string where
  "BUILTIN_FILE_PREFIX = ''<builtin>''"

fun lang_slug :: "Language \<Rightarrow> string" where
  "lang_slug Language.Rust = ''rust''"
| "lang_slug Language.TypeScript = ''ts''"
| "lang_slug Language.JavaScript = ''js''"
| "lang_slug Language.Lua = ''lua''"
| "lang_slug Language.Vue = ''vue''"
| "lang_slug Language.Svelte = ''svelte''"
| "lang_slug Language.C = ''c''"

definition synthetic_file_path :: "Language \<Rightarrow> string" where
  "synthetic_file_path lang = BUILTIN_FILE_PREFIX @ ''/'' @ lang_slug lang"

definition synthetic_module :: "Language \<Rightarrow> string" where
  "synthetic_module lang = BUILTIN_FILE_PREFIX @ ''::'' @ lang_slug lang"

definition builtin_file :: "Language \<Rightarrow> FileInput" where
  "builtin_file lang =
    \<lparr> fi_path = synthetic_file_path lang, fi_content_hash = replicate 32 0, fi_language = lang, fi_byte_size = 0,
      fi_last_scanned = 0, fi_last_scan_error = None, fi_is_external = True \<rparr>"

definition builtin_location :: "Language \<Rightarrow> SymbolLocation" where
  "builtin_location lang = \<lparr> loc_file = synthetic_file_path lang, loc_start_line = 0, loc_end_line = 0,
     loc_start_col = 0, loc_end_col = 0 \<rparr>"

definition builtin_ctx :: "Language \<Rightarrow> SymbolInsertContext" where
  "builtin_ctx lang = \<lparr> ctx_file_path = synthetic_file_path lang, ctx_language = lang, ctx_is_external = True,
     ctx_source_origin = SourceOrigin.ManualExternal, ctx_revision = 0, ctx_workspace_id = PRIMARY_WORKSPACE_ID \<rparr>"

definition builtin_symbol :: "Language \<Rightarrow> BuiltinEntry \<Rightarrow> RawSymbol" where
  "builtin_symbol lang entry =
    \<lparr> rs_name = be_name entry, rs_fqdn = be_synthetic_fqdn entry, rs_kind = be_kind entry, rs_language_kind = ''builtin'',
      rs_decl_kind = None, rs_implements_trait = None, rs_receiver_type = None, rs_entry_point = None,
      rs_module = Some (synthetic_module lang), rs_visibility = Visibility.Public, rs_location = builtin_location lang,
      rs_signature = None, rs_body_hash = None, rs_attributes = [], rs_flags = [] \<rparr>"

definition builtin_method_symbol :: "Language \<Rightarrow> BuiltinMethodEntry \<Rightarrow> RawSymbol" where
  "builtin_method_symbol lang method =
    \<lparr> rs_name = bme_method method, rs_fqdn = bme_synthetic_fqdn method, rs_kind = Kind.Callable,
      rs_language_kind = ''builtin_method'', rs_decl_kind = None, rs_implements_trait = None,
      rs_receiver_type = Some (type_ref_new (bme_parent_type method)), rs_entry_point = None,
      rs_module = Some (synthetic_module lang @ ''::'' @ bme_parent_type method), rs_visibility = Visibility.Public,
      rs_location = builtin_location lang, rs_signature = None, rs_body_hash = None, rs_attributes = [],
      rs_flags = (if bme_is_trait method then [''trait_method''] else []) \<rparr>"

definition seed_symbol :: "codec \<Rightarrow> Language \<Rightarrow> RawSymbol \<Rightarrow> nat \<Rightarrow> nat sql" where
  "seed_symbol K lang symbol inserted =
    sbind (insert_symbol K symbol (builtin_ctx lang)) (\<lambda>_. sreturn (inserted + 1))"

text \<open>The body of the loop over the languages, for the symbols of one language.\<close>

definition seed_lang :: "codec \<Rightarrow> (Language \<Rightarrow> 'a \<Rightarrow> RawSymbol) \<Rightarrow> Language \<times> 'a list \<Rightarrow> nat \<Rightarrow> nat sql" where
  "seed_lang K mk entry inserted =
    (case entry of (lang, lang_entries) \<Rightarrow>
     sthen (upsert_file (builtin_file lang))
           (sfold (\<lambda>e. seed_symbol K lang (mk lang e)) lang_entries inserted))"

definition seed_into :: "codec \<Rightarrow> ((Language \<times> BuiltinEntry list) list \<Rightarrow> (Language \<times> BuiltinEntry list) list)
    \<Rightarrow> BuiltinEntry list \<Rightarrow> nat sql" where
  "seed_into K ord entries = sfold (seed_lang K builtin_symbol) (ord (group_by be_language entries)) 0"

definition seed_methods_into :: "codec \<Rightarrow> ((Language \<times> BuiltinMethodEntry list) list \<Rightarrow> (Language \<times> BuiltinMethodEntry list) list)
    \<Rightarrow> BuiltinMethodEntry list \<Rightarrow> nat sql" where
  "seed_methods_into K ord methods = sfold (seed_lang K builtin_method_symbol) (ord (group_by bme_language methods)) 0"

definition seed_quietly :: "codec \<Rightarrow> ((Language \<times> BuiltinEntry list) list \<Rightarrow> (Language \<times> BuiltinEntry list) list)
    \<Rightarrow> BuiltinEntry list \<Rightarrow> unit sql" where
  "seed_quietly K ord entries = (\<lambda>db. if entries = [] then (Inr (), db) else (Inr (), snd (seed_into K ord entries db)))"

definition seed_methods_quietly :: "codec \<Rightarrow> ((Language \<times> BuiltinMethodEntry list) list \<Rightarrow> (Language \<times> BuiltinMethodEntry list) list)
    \<Rightarrow> BuiltinMethodEntry list \<Rightarrow> unit sql" where
  "seed_methods_quietly K ord methods =
    (\<lambda>db. if methods = [] then (Inr (), db) else (Inr (), snd (seed_methods_into K ord methods db)))"

section \<open>What seeding leaves behind\<close>

text \<open>The row of a seeded symbol, up to the row id.\<close>

definition seed_row :: "codec \<Rightarrow> Language \<times> RawSymbol \<Rightarrow> sym_row" where
  "seed_row K p = symbol_row K (snd p) (builtin_ctx (fst p)) None"

definition seed_key :: "Language \<times> RawSymbol \<Rightarrow> string \<times> string" where
  "seed_key p = (PRIMARY_WORKSPACE_ID, rs_fqdn (snd p))"

text \<open>
  The symbols \<^verbatim>\<open>L\<close> have been seeded: each key has a row, which is the row of one of the symbols with
  that key, and the rows of other keys are those of the start.
\<close>

definition seeded :: "codec \<Rightarrow> db \<Rightarrow> (Language \<times> RawSymbol) list \<Rightarrow> db \<Rightarrow> bool" where
  "seeded K db L db' \<longleftrightarrow>
     db_ok db' \<and> t_edges db' = t_edges db \<and> file_paths db \<subseteq> file_paths db' \<and>
     sym_seq db' = sym_seq db + int (length L) \<and>
     seed_key ` set L \<subseteq> sym_key ` set (t_symbols db') \<and>
     (\<forall>r\<in>set (t_symbols db'). if sym_key r \<in> seed_key ` set L
        then \<exists>p\<in>set L. r\<lparr>s_id := 0\<rparr> = seed_row K p else r \<in> set (t_symbols db)) \<and>
     (\<forall>r\<in>set (t_symbols db). sym_key r \<notin> seed_key ` set L \<longrightarrow> r \<in> set (t_symbols db'))"

lemma seed_row_key [simp]: "sym_key (seed_row K p) = seed_key p"
  by (simp add: seed_row_def seed_key_def builtin_ctx_def)

lemma seed_row_id: "(seed_row K p)\<lparr>s_id := 0\<rparr> = seed_row K p"
  by (simp add: seed_row_def symbol_row_def)

lemma seeded_present:
  assumes "seeded K db L db'" "k \<in> seed_key ` set L"
  obtains r p where "r \<in> set (t_symbols db')" "sym_key r = k" "p \<in> set L" "r\<lparr>s_id := 0\<rparr> = seed_row K p"
proof -
  have "k \<in> sym_key ` set (t_symbols db')" using assms by (auto simp: seeded_def)
  then obtain r where r: "r \<in> set (t_symbols db')" "sym_key r = k" by blast
  then have "\<exists>p\<in>set L. r\<lparr>s_id := 0\<rparr> = seed_row K p" using assms by (auto simp: seeded_def)
  then show ?thesis using that r by blast
qed

lemma seed_symbol_step:
  assumes sig: "rs_signature sy = None" and room: "sym_seq db + int (length L) < I64_MAX"
  shows "returns (\<lambda>db'. seeded K db L db' \<and> synthetic_file_path lang \<in> file_paths db' \<and> n = length L)
    (seed_symbol K lang sy n)
    (\<lambda>n' db'. seeded K db (L @ [(lang, sy)]) db' \<and> synthetic_file_path lang \<in> file_paths db' \<and> n' = length (L @ [(lang, sy)]))"
proof (rule returnsI, elim conjE)
  fix db' assume s: "seeded K db L db'" and f: "synthetic_file_path lang \<in> file_paths db'" and n: "n = length L"
  let ?p = "(lang, sy)"
  let ?db = "upserted_db (seed_row K ?p) db'"
  have ok: "db_ok db'" using s by (simp add: seeded_def)
  have run: "insert_symbol K sy (builtin_ctx lang) db' = (Inr (upsert_id (seed_key ?p) db'), ?db)"
    using insert_symbol_eq[OF ok, of K sy "builtin_ctx lang"] sig s room f
    by (simp add: opt_signature_json_def seeded_def builtin_ctx_def seed_key_def seed_row_def)
  have "set (t_symbols ?db) = {q \<in> set (t_symbols db'). sym_key q \<noteq> seed_key ?p} \<union>
      {(seed_row K ?p)\<lparr>s_id := upsert_id (seed_key ?p) db'\<rparr>}"
    using upserted_rows_set[OF ok, of "seed_row K ?p"] by auto
  moreover from this have "sym_key ` set (t_symbols ?db) = insert (seed_key ?p) (sym_key ` set (t_symbols db'))"
    by (auto simp: image_iff)
  moreover have "db_ok ?db" using keeps_result[OF keeps_storage(1) ok run] .
  ultimately have "seeded K db (L @ [?p]) ?db"
    using s seed_row_id[of K ?p] unfolding seeded_def by (auto split: if_splits)
  then show "\<exists>x t. seed_symbol K lang sy n db' = (Inr x, t) \<and> seeded K db (L @ [?p]) t \<and>
      synthetic_file_path lang \<in> file_paths t \<and> x = length (L @ [?p])"
    using run f n by (simp add: seed_symbol_def sbind_eq_Inr sx_apply)
qed

definition seed_pairs :: "(Language \<Rightarrow> 'a \<Rightarrow> RawSymbol) \<Rightarrow> (Language \<times> 'a list) list \<Rightarrow> (Language \<times> RawSymbol) list" where
  "seed_pairs mk gs = concat (map (\<lambda>(lang, es). map (\<lambda>e. (lang, mk lang e)) es) gs)"

lemma seed_pairs_snoc: "seed_pairs mk (gs @ [(lang, es)]) = seed_pairs mk gs @ map (\<lambda>e. (lang, mk lang e)) es"
  by (simp add: seed_pairs_def)

lemma seed_file_step:
  "returns (\<lambda>db'. seeded K db L db' \<and> n = length L) (upsert_file (builtin_file lang))
    (\<lambda>_ db'. seeded K db L db' \<and> synthetic_file_path lang \<in> file_paths db' \<and> n = length L)"
proof (rule returnsI, elim conjE)
  fix db' assume s: "seeded K db L db'" and n: "n = length L"
  obtain r where r: "f_path r = synthetic_file_path lang"
      and run: "upsert_file (builtin_file lang) db' = (Inr (), db'\<lparr>t_files := upsert_by f_path merge_file r (t_files db')\<rparr>)"
    by (simp add: upsert_file_def builtin_file_def sql_upsert_file_def map_err_def I64_MAX_def)
      (metis file_row.select_convs(1))
  have "db_ok (db'\<lparr>t_files := upsert_by f_path merge_file r (t_files db')\<rparr>)"
    using keeps_result[OF keeps_storage(12) _ run] s by (simp add: seeded_def)
  then show "\<exists>x t. upsert_file (builtin_file lang) db' = (Inr x, t) \<and> seeded K db L t \<and>
      synthetic_file_path lang \<in> file_paths t \<and> n = length L"
    using run s n r files_tab.upsert_key_set[of r "t_files db'"] unfolding seeded_def by auto
qed

lemma seed_lang_step:
  assumes sig: "\<And>l e. rs_signature (mk l e) = None" and room: "sym_seq db + int (length L) + int (length es) \<le> I64_MAX"
  shows "returns (\<lambda>db'. seeded K db L db' \<and> n = length L) (seed_lang K mk (lang, es) n)
    (\<lambda>n' db'. seeded K db (L @ map (\<lambda>e. (lang, mk lang e)) es) db' \<and> n' = length (L @ map (\<lambda>e. (lang, mk lang e)) es))"
proof -
  let ?h = "\<lambda>e. (lang, mk lang e)"
  let ?J = "\<lambda>past n' db'. seeded K db (L @ map ?h past) db' \<and> synthetic_file_path lang \<in> file_paths db' \<and> n' = length (L @ map ?h past)"
  have "returns (?J [] n) (sfold (\<lambda>e. seed_symbol K lang (mk lang e)) es n) (?J ([] @ es))"
  proof (rule returns_sfold_split[where J = ?J])
    fix pre e post n' assume "es = pre @ e # post"
    then show "returns (?J ([] @ pre) n') (seed_symbol K lang (mk lang e) n') (?J ([] @ pre @ [e]))"
      using seed_symbol_step[OF sig, of db "L @ map ?h pre" K lang n' lang e] room by simp
  qed
  then have "returns (\<lambda>db'. seeded K db L db' \<and> synthetic_file_path lang \<in> file_paths db' \<and> n = length L)
      (sfold (\<lambda>e. seed_symbol K lang (mk lang e)) es n)
      (\<lambda>n' db'. seeded K db (L @ map ?h es) db' \<and> n' = length (L @ map ?h es))"
    by (rule returns_weaken) auto
  then show ?thesis unfolding seed_lang_def by (auto intro: returns_sthen[OF seed_file_step])
qed

lemma seed_all:
  assumes ok: "db_ok db" and perm: "mset (ord (group_by key xs)) = mset (group_by key xs)"
    and sig: "\<And>l e. rs_signature (mk l e) = None" and room: "sym_seq db + int (length xs) \<le> I64_MAX"
  obtains db' L where "sfold (seed_lang K mk) (ord (group_by key xs)) 0 db = (Inr (length xs), db')" "seeded K db L db'"
    "set L = (\<lambda>e. (key e, mk (key e) e)) ` set xs"
proof -
  let ?gs = "ord (group_by key xs)"
  have all: "mset (concat (map snd ?gs)) = mset xs" using permuted_groups[of ord key xs, OF perm] .
  have len: "length (seed_pairs mk gs) = length (concat (map snd gs))" for gs
    by (induction gs) (auto simp: seed_pairs_def)
  let ?J = "\<lambda>gs n db'. seeded K db (seed_pairs mk gs) db' \<and> n = length (seed_pairs mk gs)"
  have "returns (?J [] 0) (sfold (seed_lang K mk) ?gs 0) (?J ([] @ ?gs))"
  proof (rule returns_sfold_split[where J = ?J])
    fix pre g post n assume split: "?gs = pre @ g # post"
    obtain lang es where g: "g = (lang, es)" by fastforce
    have "length (concat (map snd ?gs)) = length xs" using all by (rule mset_eq_length)
    then have "sym_seq db + int (length (seed_pairs mk pre)) + int (length es) \<le> I64_MAX"
      using room unfolding split g len by simp
    from seed_lang_step[where mk = mk and lang = lang, OF sig this, of K n]
    show "returns (?J ([] @ pre) n) (seed_lang K mk g n) (?J ([] @ pre @ [g]))"
      by (simp add: g seed_pairs_snoc)
  qed
  moreover have "?J [] 0 db" using ok by (simp add: seeded_def seed_pairs_def)
  ultimately obtain n db' where "sfold (seed_lang K mk) ?gs 0 db = (Inr n, db')" "seeded K db (seed_pairs mk ?gs) db'"
      "n = length (seed_pairs mk ?gs)" by (auto elim: returnsE)
  moreover have "length (seed_pairs mk ?gs) = length xs" unfolding len using all by (rule mset_eq_length)
  moreover have "set (seed_pairs mk ?gs) = (\<lambda>e. (key e, mk (key e) e)) ` set xs"
  proof -
    have "set ?gs = set (group_by key xs)" using perm by (metis set_mset_mset)
    then have "set (seed_pairs mk ?gs) = (\<Union>(l, es)\<in>set (group_by key xs). (\<lambda>e. (l, mk l e)) ` set es)"
      by (auto simp: seed_pairs_def)
    also have "\<dots> = (\<lambda>e. (key e, mk (key e) e)) ` set xs"
    proof (intro equalityI subsetI)
      fix p assume "p \<in> (\<lambda>e. (key e, mk (key e) e)) ` set xs"
      then obtain e where e: "e \<in> set xs" "p = (key e, mk (key e) e)" by blast
      then have "(key e, filter (\<lambda>x. key x = key e) xs) \<in> set (group_by key xs)"
        by (auto simp: group_by_member filter_empty_conv)
      moreover have "p \<in> (\<lambda>e'. (key e, mk (key e) e')) ` set (filter (\<lambda>x. key x = key e) xs)" using e by auto
      ultimately show "p \<in> (\<Union>(l, es)\<in>set (group_by key xs). (\<lambda>e. (l, mk l e)) ` set es)" by blast
    qed (auto simp: group_by_member)
    finally show ?thesis .
  qed
  ultimately show ?thesis using that by metis
qed

section \<open>Properties\<close>

lemma receiver_type_builtin:
  assumes "lookup_symbol_id db (''<builtin>::rust::'' @ rt @ ''::'' @ method) \<noteq> None"
  shows "\<exists>sid. try_resolve_via_receiver_type db rt method = Some sid"
  using assms unfolding try_resolve_via_receiver_type_def Let_def
  by (cases "lookup_symbol_id db (rt @ ''::'' @ method)") (auto split: list.split)

text \<open>
  Seeding builtins.  With room for the rows, seeding succeeds on every consistent database,
  whatever the iteration order of the hash map, and reports one insertion per entry.  Afterwards each
  entry's synthetic name is a symbol of the primary workspace in the virtual file of a language,
  written from an entry of that name; every other symbol and every edge is as before.
\<close>

theorem seed_into_seeds:
  assumes ok: "db_ok db" and perm: "\<And>g. mset (ord g) = mset g"
    and room: "sym_seq db + int (length entries) \<le> I64_MAX"
  shows "\<exists>db'. seed_into K ord entries db = (Inr (length entries), db') \<and> db_ok db' \<and> t_edges db' = t_edges db \<and>
    (\<forall>entry\<in>set entries. \<exists>r\<in>set (t_symbols db'). \<exists>e\<in>set entries.
       be_synthetic_fqdn e = be_synthetic_fqdn entry \<and> s_fqdn r = be_synthetic_fqdn entry \<and> s_name r = be_name e \<and>
       s_workspace_id r = ''primary'' \<and> s_file_path r = ''<builtin>/'' @ lang_slug (be_language e) \<and> s_is_external r) \<and>
    {r \<in> set (t_symbols db'). sym_key r \<notin> (\<lambda>e. (''primary'', be_synthetic_fqdn e)) ` set entries} =
    {r \<in> set (t_symbols db). sym_key r \<notin> (\<lambda>e. (''primary'', be_synthetic_fqdn e)) ` set entries}"
proof -
  obtain db' L where run: "seed_into K ord entries db = (Inr (length entries), db')" and s: "seeded K db L db'"
      and L: "set L = (\<lambda>e. (be_language e, builtin_symbol (be_language e) e)) ` set entries"
    by (rule seed_all[where mk = builtin_symbol and key = be_language and ord = ord and K = K, OF ok perm _ room])
      (auto simp: seed_into_def builtin_symbol_def)
  have keys: "seed_key ` set L = (\<lambda>e. (''primary'', be_synthetic_fqdn e)) ` set entries"
    unfolding L by (simp add: image_image seed_key_def builtin_symbol_def PRIMARY_WORKSPACE_ID_def)
  have "\<exists>r\<in>set (t_symbols db'). \<exists>e\<in>set entries.
       be_synthetic_fqdn e = be_synthetic_fqdn entry \<and> s_fqdn r = be_synthetic_fqdn entry \<and> s_name r = be_name e \<and>
       s_workspace_id r = ''primary'' \<and> s_file_path r = ''<builtin>/'' @ lang_slug (be_language e) \<and> s_is_external r"
    if entry: "entry \<in> set entries" for entry
  proof -
    have k: "(''primary'', be_synthetic_fqdn entry) \<in> seed_key ` set L" using entry unfolding keys by simp
    obtain r p where r: "r \<in> set (t_symbols db')" "sym_key r = (''primary'', be_synthetic_fqdn entry)"
        and "p \<in> set L" "r\<lparr>s_id := 0\<rparr> = seed_row K p"
      by (rule seeded_present[OF s k])
    then obtain e where e: "e \<in> set entries" "r\<lparr>s_id := 0\<rparr> = seed_row K (be_language e, builtin_symbol (be_language e) e)"
      using L by auto
    have "s_fqdn r = s_fqdn (r\<lparr>s_id := 0\<rparr>)" "s_name r = s_name (r\<lparr>s_id := 0\<rparr>)" "s_workspace_id r = s_workspace_id (r\<lparr>s_id := 0\<rparr>)"
      "s_file_path r = s_file_path (r\<lparr>s_id := 0\<rparr>)" "s_is_external r = s_is_external (r\<lparr>s_id := 0\<rparr>)" by simp_all
    then show ?thesis using r e(1) unfolding e(2)
      by (auto simp: sym_key_def seed_row_def symbol_row_def builtin_symbol_def builtin_ctx_def synthetic_file_path_def
          BUILTIN_FILE_PREFIX_def PRIMARY_WORKSPACE_ID_def intro!: bexI[of _ r] bexI[of _ e])
  qed
  then show ?thesis using run s unfolding seeded_def keys by (intro exI[of _ db']) (auto split: if_splits)
qed

text \<open>
  Seeding and the sweep together: once the methods are seeded, a call of a seeded Rust method on
  a receiver of its type always finds a target through the receiver-type lookup.
\<close>

theorem seeded_methods_resolve:
  assumes ok: "db_ok db" and perm: "\<And>g. mset (ord g) = mset g"
    and room: "sym_seq db + int (length methods) \<le> I64_MAX"
    and m: "m \<in> set methods" "bme_synthetic_fqdn m = make_synthetic_fqdn Language.Rust (bme_parent_type m @ ''::'' @ bme_method m)"
  shows "\<exists>db'. seed_methods_into K ord methods db = (Inr (length methods), db') \<and>
    (\<exists>sid\<in>sym_ids db'. try_resolve_via_receiver_type db' (bme_parent_type m) (bme_method m) = Some sid)"
proof -
  obtain db' L where run: "seed_methods_into K ord methods db = (Inr (length methods), db')" and s: "seeded K db L db'"
      and L: "set L = (\<lambda>e. (bme_language e, builtin_method_symbol (bme_language e) e)) ` set methods"
    by (rule seed_all[where mk = builtin_method_symbol and key = bme_language and ord = ord and K = K, OF ok perm _ room])
      (auto simp: seed_methods_into_def builtin_method_symbol_def)
  have "(PRIMARY_WORKSPACE_ID, bme_synthetic_fqdn m) \<in> seed_key ` set L"
    unfolding L using m(1) by (simp add: image_image seed_key_def builtin_method_symbol_def)
  then obtain r where "r \<in> set (t_symbols db')" "s_fqdn r = bme_synthetic_fqdn m"
    using seeded_present[OF s, of "(PRIMARY_WORKSPACE_ID, bme_synthetic_fqdn m)"] by (auto simp: sym_key_def)
  then have "lookup_symbol_id db' (''<builtin>::rust::'' @ bme_parent_type m @ ''::'' @ bme_method m) \<noteq> None"
    by (auto simp: lookup_symbol_id_def find_None_set m(2) make_synthetic_fqdn_def)
  from receiver_type_builtin[OF this] obtain sid
    where "try_resolve_via_receiver_type db' (bme_parent_type m) (bme_method m) = Some sid" ..
  with receiver_type_sym[OF this] run show ?thesis by auto
qed

theorem seed_into_seeds_witness:
  "\<exists>db'. seed_into demo_codec rev [builtin_entry_new ''print'' Language.Lua Kind.Callable BuiltinTag.Console BuiltinTier.Edge] demo_db = (Inr 1, db') \<and>
    (\<exists>r\<in>set (t_symbols db'). s_fqdn r = ''<builtin>::lua::print'' \<and> s_file_path r = ''<builtin>/lua'')"
  using seed_into_seeds[OF demo_db_ok, of rev "[builtin_entry_new ''print'' Language.Lua Kind.Callable BuiltinTag.Console BuiltinTier.Edge]" demo_codec]
  by (auto simp: builtin_entry_new_def make_synthetic_fqdn_def demo_db_def I64_MAX_def)

theorem seeded_methods_resolve_witness:
  "\<exists>db'. seed_methods_into demo_codec rev [builtin_method_entry_new ''Vec'' ''push'' Language.Rust] demo_db = (Inr 1, db') \<and>
    try_resolve_via_receiver_type db' ''Vec'' ''push'' \<noteq> None"
  using seeded_methods_resolve[OF demo_db_ok, of rev "[builtin_method_entry_new ''Vec'' ''push'' Language.Rust]"
      "builtin_method_entry_new ''Vec'' ''push'' Language.Rust" demo_codec]
  by (auto simp: builtin_method_entry_new_def demo_db_def I64_MAX_def)

end
