(* ===== verification/Ffi_Resolve.thy ===== *)
theory Ffi_Resolve
  imports Batch_Total Grouping Sql_Text
begin

text \<open>
  The pass that links FFI importers to the exporter of the same \<^verbatim>\<open>(abi, abi_name)\<close>
  (\<^verbatim>\<open>pipeline/ffi_resolve.rs\<close>).  Two hash maps group the sides; \<^verbatim>\<open>ord\<close> is the order in which the
  map of importers is iterated.  The statements run outside a transaction.
\<close>

record FfiResolveReport =
  ffr_matched :: nat
  ffr_ambiguous_skipped :: nat
  ffr_orphans_skipped :: nat

type_synonym ffi_groups = "((string \<times> string) \<times> BindingSide list) list"

definition side_key :: "BindingSide \<Rightarrow> string \<times> string" where
  "side_key s = (bd_abi s, bd_abi_name s)"

definition ffi_edge_exists :: "int \<Rightarrow> int \<Rightarrow> string \<Rightarrow> bool sql" where
  "ffi_edge_exists from_symbol_id to_symbol_id abi =
    squery (\<lambda>db. list_ex (\<lambda>e. e_from_symbol_id e = from_symbol_id \<and> e_to_symbol_id e = Some to_symbol_id \<and>
       e_kind e = ''IMPORTS'' \<and> sql_like (''%\"ffi:'' @ abi @ ''\"%'') (e_attributes e)) (t_edges db))"

definition ffi_edge :: "BindingSide \<Rightarrow> BindingSide \<Rightarrow> string \<Rightarrow> RawEdge" where
  "ffi_edge importer exporter abi =
    \<lparr> re_from_fqdn = bd_fqdn importer, re_kind = EdgeKind.Imports,
      re_to = ResolvedOrUnresolved.Resolved (bd_fqdn exporter), re_sites = [],
      re_attributes = [''ffi:'' @ abi], re_confidence = EdgeConfidence.Inferred, re_receiver_type = None \<rparr>"

definition ffi_match :: "codec \<Rightarrow> BindingSide \<Rightarrow> string \<Rightarrow> BindingSide \<Rightarrow> FfiResolveReport \<Rightarrow> FfiResolveReport sql" where
  "ffi_match K exporter abi importer report =
    (if bd_symbol_id importer = bd_symbol_id exporter then sreturn report
     else sbind (ffi_edge_exists (bd_symbol_id importer) (bd_symbol_id exporter) abi) (\<lambda>hit.
       if hit then sreturn report
       else sbind (insert_edge K (bd_symbol_id importer) (ffi_edge importer exporter abi) (bd_workspace_id importer)) (\<lambda>_.
            sreturn (report\<lparr>ffr_matched := ffr_matched report + 1\<rparr>))))"

definition ffi_group ::
  "codec \<Rightarrow> ffi_groups \<Rightarrow> (string \<times> string) \<times> BindingSide list \<Rightarrow> FfiResolveReport \<Rightarrow> FfiResolveReport sql" where
  "ffi_group K export_idx entry report =
    (case entry of (key, importers) \<Rightarrow>
     (case map_of export_idx key of
        None \<Rightarrow> sreturn (report\<lparr>ffr_orphans_skipped := ffr_orphans_skipped report + length importers\<rparr>)
      | Some exporters \<Rightarrow>
          if length exporters \<noteq> 1
          then sreturn (report\<lparr>ffr_ambiguous_skipped := ffr_ambiguous_skipped report + length importers\<rparr>)
          else sfold (ffi_match K (exporters ! 0) (fst key)) importers report))"

definition ffi_run_pass :: "codec \<Rightarrow> (ffi_groups \<Rightarrow> ffi_groups) \<Rightarrow> FfiResolveReport sql" where
  "ffi_run_pass K ord =
    sbind (fetch_all_sides FfiDirection.Export) (\<lambda>exports.
    sbind (fetch_all_sides FfiDirection.Import) (\<lambda>imports.
    let export_idx = group_by side_key exports;
        import_idx = group_by side_key imports
    in sfold (ffi_group K export_idx) (ord import_idx)
         \<lparr> ffr_matched = 0, ffr_ambiguous_skipped = 0, ffr_orphans_skipped = 0 \<rparr>))"

text \<open>\<^verbatim>\<open>apply_ffi_resolve_quietly\<close> drops the report and the error.\<close>

definition apply_ffi_resolve_quietly :: "codec \<Rightarrow> (ffi_groups \<Rightarrow> ffi_groups) \<Rightarrow> unit sql" where
  "apply_ffi_resolve_quietly K ord = (\<lambda>db. (Inr (), snd (ffi_run_pass K ord db)))"

section \<open>The sides of a database\<close>

definition sides :: "FfiDirection \<Rightarrow> db \<Rightarrow> BindingSide list" where
  "sides d db = (case fetch_all_sides d db of (Inr xs, _) \<Rightarrow> xs | _ \<Rightarrow> [])"

lemma fetch_sides: "fetch_all_sides d db = (Inr (sides d db), db)"
  by (simp add: sides_def fetch_all_sides_def)

lemma side_symbol:
  assumes "i \<in> set (sides d db)"
  obtains r where "r \<in> set (t_symbols db)" "s_id r = bd_symbol_id i" "sym_key r = (bd_workspace_id i, bd_fqdn i)"
  using assms by (auto simp: sides_def fetch_all_sides_def set_map_filter sym_key_def dest!: lookup_by_Some)

text \<open>The export that a given import is linked to, when there is exactly one with its key.\<close>

definition exporters_of :: "db \<Rightarrow> BindingSide \<Rightarrow> BindingSide list" where
  "exporters_of db i = filter (\<lambda>x. side_key x = side_key i) (sides FfiDirection.Export db)"

text \<open>The row the pass adds for an importer and its exporter.\<close>

definition ffi_link :: "codec \<Rightarrow> db \<Rightarrow> BindingSide \<Rightarrow> BindingSide \<Rightarrow> edge_row \<Rightarrow> bool" where
  "ffi_link K db i x e \<longleftrightarrow>
     bd_symbol_id i \<noteq> bd_symbol_id x \<and> e_from_symbol_id e = bd_symbol_id i \<and> e_kind e = ''IMPORTS'' \<and>
     e_confidence e = ''inferred'' \<and> e_attributes e = strs_to_json K [''ffi:'' @ bd_abi i] \<and>
     (bd_workspace_id i = bd_workspace_id x \<longrightarrow> e_to_symbol_id e = Some (bd_symbol_id x))"

definition grown :: "db \<Rightarrow> edge_row list \<Rightarrow> db" where
  "grown db new = db\<lparr>t_edges := t_edges db @ new, edge_seq := edge_seq db + int (length new)\<rparr>"

lemma grown_frame [simp]: "t_symbols (grown db new) = t_symbols db" "edge_seq (grown db new) = edge_seq db + int (length new)"
  "t_edges (grown db new) = t_edges db @ new"
  by (simp_all add: grown_def)

lemma insert_ffi_edge:
  assumes ok: "db_ok db'" and db': "db' = grown db new" and i: "i \<in> set (sides di db)" and x: "x \<in> set (sides dx db)"
    and ne: "bd_symbol_id i \<noteq> bd_symbol_id x" and room: "edge_seq db' < I64_MAX"
  shows "\<exists>e. insert_edge K (bd_symbol_id i) (ffi_edge i x (bd_abi i)) (bd_workspace_id i) db' =
      (Inr (edge_seq db' + 1), grown db (new @ [e])) \<and> ffi_link K db i x e"
proof -
  obtain r where r: "r \<in> set (t_symbols db)" "s_id r = bd_symbol_id i" using side_symbol[OF i] by blast
  obtain q where q: "q \<in> set (t_symbols db)" "s_id q = bd_symbol_id x" "sym_key q = (bd_workspace_id x, bd_fqdn x)"
    using side_symbol[OF x] by blast
  let ?l = "lookup_by sym_key (bd_workspace_id i, bd_fqdn x) (t_symbols db)"
  let ?t = "case ?l of Some r \<Rightarrow> (Some (s_id r), None) | None \<Rightarrow> (None, Some (bd_fqdn x))"
  have same: "?l = Some q" if "bd_workspace_id i = bd_workspace_id x"
    using q that db_ok_subD(3)[OF ok] db' by (simp add: lookup_by_eq_iff ok_symbols_def)
  define e where "e = \<lparr> e_id = 0, e_from_symbol_id = bd_symbol_id i, e_kind = ''IMPORTS'',
      e_to_symbol_id = fst ?t, e_to_unresolved = snd ?t, e_attributes = strs_to_json K [''ffi:'' @ bd_abi i],
      e_confidence = ''inferred'', e_receiver_type = None \<rparr>"
  have "edge_checks e" by (simp add: e_def edge_checks_def edge_target_check_def split: option.split)
  moreover have "edge_fk db' e"
    using r(1) db' unfolding r(2)[symmetric] e_def
    by (auto simp: edge_fk_def dest: lookup_by_Some split: option.split)
  ultimately have "insert_edge K (bd_symbol_id i) (ffi_edge i x (bd_abi i)) (bd_workspace_id i) db' =
      (Inr (edge_seq db' + 1), grown db (new @ [e\<lparr>e_id := edge_seq db' + 1\<rparr>]))"
    using room db'
    by (cases ?l) (simp_all add: insert_edge_def ffi_edge_def lookup_or_fallback_def sbind_def sql_insert_edge_def
      map_err_def e_def grown_def)
  moreover have "ffi_link K db i x (e\<lparr>e_id := edge_seq db' + 1\<rparr>)"
    using ne same q by (auto simp: ffi_link_def e_def)
  ultimately show ?thesis by blast
qed

section \<open>The loop\<close>

definition linked :: "BindingSide \<Rightarrow> BindingSide \<Rightarrow> db \<Rightarrow> bool" where
  "linked i x db \<longleftrightarrow> (\<exists>e\<in>set (t_edges db). e_from_symbol_id e = bd_symbol_id i \<and>
     e_to_symbol_id e = Some (bd_symbol_id x) \<and> e_kind e = ''IMPORTS'')"

text \<open>The state of the pass after the importers \<^verbatim>\<open>D\<close>.\<close>

definition resolved_upto :: "codec \<Rightarrow> db \<Rightarrow> BindingSide list \<Rightarrow> FfiResolveReport \<Rightarrow> db \<Rightarrow> bool" where
  "resolved_upto K db D report db' \<longleftrightarrow>
     (\<exists>new. db' = grown db new \<and> length new \<le> length D \<and> ffr_matched report = length new \<and>
        (\<forall>e\<in>set new. \<exists>i\<in>set D. \<exists>x. exporters_of db i = [x] \<and> ffi_link K db i x e)) \<and>
     db_ok db' \<and>
     ffr_orphans_skipped report = length (filter (\<lambda>i. exporters_of db i = []) D) \<and>
     ffr_ambiguous_skipped report = length (filter (\<lambda>i. 1 < length (exporters_of db i)) D) \<and>
     (\<forall>i\<in>set D. \<forall>x. exporters_of db i = [x] \<and> bd_symbol_id i \<noteq> bd_symbol_id x \<and>
        bd_workspace_id i = bd_workspace_id x \<longrightarrow> linked i x db')"

lemma linked_grown: "linked i x (grown db new) \<Longrightarrow> linked i x (grown db (new @ ext))"
  by (auto simp: linked_def)

lemma resolved_upto_skip:
  assumes inv: "resolved_upto K db D report db'" and sole: "\<And>i x. i \<in> set importers \<Longrightarrow> exporters_of db i \<noteq> [x]"
    and m: "ffr_matched report' = ffr_matched report"
    and o: "ffr_orphans_skipped report' = ffr_orphans_skipped report + length (filter (\<lambda>i. exporters_of db i = []) importers)"
    and a: "ffr_ambiguous_skipped report' = ffr_ambiguous_skipped report + length (filter (\<lambda>i. 1 < length (exporters_of db i)) importers)"
  shows "resolved_upto K db (D @ importers) report' db'"
proof -
  obtain new where new: "db' = grown db new" "length new \<le> length D" "ffr_matched report = length new"
      "\<forall>e\<in>set new. \<exists>i\<in>set D. \<exists>x. exporters_of db i = [x] \<and> ffi_link K db i x e"
    using inv by (auto simp: resolved_upto_def)
  have "\<exists>i\<in>set (D @ importers). \<exists>x. exporters_of db i = [x] \<and> ffi_link K db i x e" if "e \<in> set new" for e
    using new(4) that by (metis Un_iff set_append)
  then have "\<exists>new. db' = grown db new \<and> length new \<le> length (D @ importers) \<and> ffr_matched report' = length new \<and>
      (\<forall>e\<in>set new. \<exists>i\<in>set (D @ importers). \<exists>x. exporters_of db i = [x] \<and> ffi_link K db i x e)"
    using new m by (intro exI[of _ new]) auto
  then show ?thesis using inv sole o a unfolding resolved_upto_def by auto
qed

lemma ffi_match_step:
  assumes "i \<in> set (sides FfiDirection.Import db)" "exporters_of db i = [x]"
    and room: "edge_seq db + int (length D) < I64_MAX"
  shows "returns (resolved_upto K db D report) (ffi_match K x (bd_abi i) i report) (resolved_upto K db (D @ [i]))"
proof (rule returnsI)
  fix db' assume inv: "resolved_upto K db D report db'"
  then obtain new where new: "db' = grown db new" "length new \<le> length D" by (auto simp: resolved_upto_def)
  have ok: "db_ok db'" using inv by (simp add: resolved_upto_def)
  have x: "x \<in> set (sides FfiDirection.Export db)"
    using arg_cong[OF assms(2), of set] by (auto simp: exporters_of_def)
  have stay: "resolved_upto K db (D @ [i]) report db'"
    if "bd_symbol_id i = bd_symbol_id x \<or> linked i x db'"
    using inv that assms(2) by (fastforce simp: resolved_upto_def)
  show "\<exists>report' t. ffi_match K x (bd_abi i) i report db' = (Inr report', t) \<and> resolved_upto K db (D @ [i]) report' t"
  proof (cases "bd_symbol_id i = bd_symbol_id x \<or> fst (ffi_edge_exists (bd_symbol_id i) (bd_symbol_id x) (bd_abi i) db') = Inr True")
    case True
    then have "bd_symbol_id i = bd_symbol_id x \<or> linked i x db'"
      by (auto simp: ffi_edge_exists_def linked_def list_ex_iff)
    from stay[OF this] show ?thesis using True
      by (auto simp: ffi_match_def ffi_edge_exists_def sx_apply)
  next
    case False
    then have ne: "bd_symbol_id i \<noteq> bd_symbol_id x" by blast
    obtain e where e: "insert_edge K (bd_symbol_id i) (ffi_edge i x (bd_abi i)) (bd_workspace_id i) db' =
        (Inr (edge_seq db' + 1), grown db (new @ [e]))" "ffi_link K db i x e"
      using insert_ffi_edge[OF ok new(1) assms(1) x ne, of K] new room by auto
    have ok': "db_ok (grown db (new @ [e]))" using keeps_result[OF keeps_storage(4) ok e(1)] .
    have "bd_workspace_id i = bd_workspace_id x \<Longrightarrow> linked i x (grown db (new @ [e]))"
      using e(2) by (simp add: ffi_link_def linked_def)
    moreover have "db' = grown db n \<Longrightarrow> n = new" for n using new(1) by (metis grown_frame(3) same_append_eq)
    ultimately have "resolved_upto K db (D @ [i]) (report\<lparr>ffr_matched := ffr_matched report + 1\<rparr>) (grown db (new @ [e]))"
      using inv new ok' e(2) assms(2) linked_grown[of _ _ db new "[e]"]
      by (fastforce simp: resolved_upto_def intro!: exI[of _ "new @ [e]"])
    then show ?thesis using e(1) False
      by (auto simp: ffi_match_def ffi_edge_exists_def sbind_eq_Inr sx_apply)
  qed
qed

lemma ffi_group_step:
  assumes g: "g = (key, importers)" "importers \<noteq> []" "importers = filter (\<lambda>i. side_key i = key) (sides FfiDirection.Import db)"
    and room: "edge_seq db + int (length D) + int (length importers) \<le> I64_MAX"
  shows "returns (resolved_upto K db D report) (ffi_group K (group_by side_key (sides FfiDirection.Export db)) g report)
    (resolved_upto K db (D @ importers))"
proof -
  let ?idx = "group_by side_key (sides FfiDirection.Export db)"
  have exps: "exporters_of db i = filter (\<lambda>x. side_key x = key) (sides FfiDirection.Export db)" (is "_ = ?exps")
    if "i \<in> set importers" for i using that g(3) by (auto simp: exporters_of_def)
  have idx: "map_of ?idx key = (if ?exps = [] then None else Some ?exps)"
  proof (cases "map_of ?idx key")
    case None
    then have "key \<notin> side_key ` set (sides FfiDirection.Export db)"
      using group_by_keys[of side_key "sides FfiDirection.Export db"] by (auto simp: map_of_eq_None_iff)
    then have "?exps = []" by (auto simp: filter_empty_conv)
    then show ?thesis using None by simp
  next
    case (Some xs)
    then show ?thesis using map_of_SomeD[OF Some] by (auto simp: group_by_member)
  qed
  consider "?exps = []" | "1 < length ?exps" | x where "?exps = [x]"
    by (cases ?exps rule: remdups_adj.cases) auto
  then show ?thesis
  proof cases
    case 1
    then have "returns (resolved_upto K db D report) (sreturn (report\<lparr>ffr_orphans_skipped := ffr_orphans_skipped report + length importers\<rparr>))
        (resolved_upto K db (D @ importers))"
      using exps 1 by (intro returns_sreturn) (erule resolved_upto_skip; simp add: filter_id_conv)
    then show ?thesis using idx 1 by (simp add: ffi_group_def g(1))
  next
    case 2
    then have many: "1 < length (exporters_of db i)" if "i \<in> set importers" for i using exps[OF that] by simp
    then have amb: "filter (\<lambda>i. 1 < length (exporters_of db i)) importers = importers"
      "filter (\<lambda>i. exporters_of db i = []) importers = []" "\<And>i x. i \<in> set importers \<Longrightarrow> exporters_of db i \<noteq> [x]"
      by (auto simp: filter_id_conv filter_empty_conv) fastforce+
    have "returns (resolved_upto K db D report) (sreturn (report\<lparr>ffr_ambiguous_skipped := ffr_ambiguous_skipped report + length importers\<rparr>))
        (resolved_upto K db (D @ importers))"
      using amb by (intro returns_sreturn) (erule resolved_upto_skip; simp)
    moreover have "length ?exps \<noteq> 1" "?exps \<noteq> []" using 2 by force+
    ultimately show ?thesis using idx by (simp add: ffi_group_def g(1))
  next
    case 3
    have "returns (resolved_upto K db D report) (sfold (ffi_match K x (fst key)) importers report)
        (resolved_upto K db (D @ importers))"
    proof (rule returns_sfold_split)
      fix pre i post report' assume split: "importers = pre @ i # post"
      then have i: "i \<in> set (sides FfiDirection.Import db)" "side_key i = key"
        using arg_cong[OF g(3), of set] by auto
      have "exporters_of db i = [x]" using exps[of i] split 3 by simp
      from ffi_match_step[OF i(1) this, of "D @ pre" K report'] room split i(2)
      show "returns (resolved_upto K db (D @ pre) report') (ffi_match K x (fst key) i report') (resolved_upto K db (D @ pre @ [i]))"
        by (auto simp: side_key_def)
    qed
    then show ?thesis using idx 3 by (simp add: ffi_group_def g(1))
  qed
qed

section \<open>The pass\<close>

text \<open>
  Linking FFI importers.  With room for the new rows the pass succeeds on every consistent
  database, whatever the iteration order of the hash map.  It only appends edges: each one is an
  inferred \<^verbatim>\<open>IMPORTS\<close> edge from an importer to the one exporter that shares its abi and name.
  Afterwards every importer whose key has exactly one exporter, on another symbol of its workspace,
  is linked to it, and the report counts the new edges, the importers without an exporter and those
  with several.
\<close>

theorem ffi_resolve_links:
  assumes ok: "db_ok db" and perm: "\<And>g. mset (ord g) = mset g"
    and room: "edge_seq db + int (length (sides FfiDirection.Import db)) \<le> I64_MAX"
  shows "\<exists>report new. ffi_run_pass K ord db = (Inr report, grown db new) \<and> db_ok (grown db new) \<and>
    (\<forall>e\<in>set new. \<exists>i\<in>set (sides FfiDirection.Import db). \<exists>x. exporters_of db i = [x] \<and> ffi_link K db i x e) \<and>
    (\<forall>i\<in>set (sides FfiDirection.Import db). \<forall>x. exporters_of db i = [x] \<and> bd_symbol_id i \<noteq> bd_symbol_id x \<and>
       bd_workspace_id i = bd_workspace_id x \<longrightarrow> linked i x (grown db new)) \<and>
    ffr_matched report = length new \<and>
    ffr_orphans_skipped report = length (filter (\<lambda>i. exporters_of db i = []) (sides FfiDirection.Import db)) \<and>
    ffr_ambiguous_skipped report = length (filter (\<lambda>i. 1 < length (exporters_of db i)) (sides FfiDirection.Import db))"
proof -
  let ?imps = "sides FfiDirection.Import db" and ?exps = "sides FfiDirection.Export db"
  let ?gs = "ord (group_by side_key ?imps)"
  let ?start = "\<lparr> ffr_matched = 0, ffr_ambiguous_skipped = 0, ffr_orphans_skipped = 0 \<rparr>"
  let ?all = "concat (map snd ?gs)"
  have all: "mset ?all = mset ?imps" by (rule permuted_groups) (rule perm)
  have "returns (resolved_upto K db (concat (map snd ([] :: ffi_groups))) ?start) (sfold (ffi_group K (group_by side_key ?exps)) ?gs ?start)
      (resolved_upto K db (concat (map snd ([] @ ?gs))))"
  proof (rule returns_sfold_split[where J = "\<lambda>gs. resolved_upto K db (concat (map snd gs))"])
    fix pre g post report assume split: "?gs = pre @ g # post"
    obtain key importers where g: "g = (key, importers)" by fastforce
    then have "(key, importers) \<in> set (group_by side_key ?imps)"
      using split permuted_set[of ord "group_by side_key ?imps"] perm by (metis in_set_conv_decomp)
    then have m: "importers \<noteq> []" "importers = filter (\<lambda>i. side_key i = key) ?imps" unfolding group_by_member by blast+
    have "length ?all = length ?imps" using all by (rule mset_eq_length)
    then have "length (concat (map snd pre)) + length importers \<le> length ?imps" using split g by simp
    then show "returns (resolved_upto K db (concat (map snd ([] @ pre))) report) (ffi_group K (group_by side_key ?exps) g report)
        (resolved_upto K db (concat (map snd ([] @ pre @ [g]))))"
      using ffi_group_step[OF g m, of "concat (map snd pre)" K report] room g by simp
  qed
  moreover have "resolved_upto K db (concat (map snd ([] :: ffi_groups))) ?start db"
    using ok by (auto simp: resolved_upto_def grown_def intro!: exI[of _ "[]"])
  ultimately obtain report db' where run: "sfold (ffi_group K (group_by side_key ?exps)) ?gs ?start db = (Inr report, db')"
    "resolved_upto K db ?all report db'" by (auto elim: returnsE)
  have sets: "set ?all = set ?imps" using all by (metis set_mset_mset)
  have len: "length (filter P ?all) = length (filter P ?imps)" for P
    using all by (metis mset_eq_length mset_filter)
  have "ffi_run_pass K ord db = (Inr report, db')"
    using run(1) by (simp add: ffi_run_pass_def sbind_eq_Inr[OF fetch_sides] Let_def)
  then show ?thesis using run(2) unfolding resolved_upto_def sets len by blast
qed

text \<open>\<^verbatim>\<open>g\<close> imports the C name \<^verbatim>\<open>h\<close> that \<^verbatim>\<open>f\<close> exports.\<close>

definition demo_ffi_db :: db where
  "demo_ffi_db = demo_db\<lparr>t_edges := [], t_ffi_bindings :=
     [\<lparr> fr_symbol_id = 1, fr_abi = ''c'', fr_direction = ''export'', fr_abi_name = ''h'', fr_convention = None \<rparr>,
      \<lparr> fr_symbol_id = 2, fr_abi = ''c'', fr_direction = ''import'', fr_abi_name = ''h'', fr_convention = None \<rparr>]\<rparr>"

lemma demo_ffi_db_ok: "db_ok demo_ffi_db"
  by (simp add: demo_ffi_db_def demo_db_def init_db_def db_ok_def ok_projects_def ok_ids_def ok_files_def ok_symbols_def
      ok_edges_def ok_satellite_def ok_calls_def ok_catalog_def ok_fts_def fts_doc_def ffi_key_def ffi_checks_def
      demo_file_def)

theorem ffi_resolve_links_witness:
  "\<exists>report new. ffi_run_pass demo_codec rev demo_ffi_db = (Inr report, grown demo_ffi_db new) \<and>
    (\<exists>e\<in>set new. e_from_symbol_id e = 2 \<and> e_to_symbol_id e = Some 1 \<and> e_kind e = ''IMPORTS'')"
proof -
  have t: "t_symbols demo_ffi_db = [demo_row 1 ''f'', demo_row 2 ''g'']" "t_edges demo_ffi_db = []" "edge_seq demo_ffi_db = 1"
    by (simp_all add: demo_ffi_db_def demo_db_def)
  let ?i = "\<lparr> bd_symbol_id = 2, bd_fqdn = ''g'', bd_abi_name = ''h'', bd_abi = ''c'', bd_workspace_id = ''primary'' \<rparr>"
  let ?x = "\<lparr> bd_symbol_id = 1, bd_fqdn = ''f'', bd_abi_name = ''h'', bd_abi = ''c'', bd_workspace_id = ''primary'' \<rparr>"
  have s: "sides FfiDirection.Import demo_ffi_db = [?i]" "sides FfiDirection.Export demo_ffi_db = [?x]"
    by (simp_all add: sides_def fetch_all_sides_def t List.map_filter_simps lookup_by_def) (simp_all add: demo_ffi_db_def t List.map_filter_simps lookup_by_def)
  have sole: "exporters_of demo_ffi_db ?i = [?x]" by (simp add: exporters_of_def s side_key_def)
  have room: "edge_seq demo_ffi_db + int (length (sides FfiDirection.Import demo_ffi_db)) \<le> I64_MAX"
    by (simp add: s t I64_MAX_def)
  have "\<exists>report new. ffi_run_pass demo_codec rev demo_ffi_db = (Inr report, grown demo_ffi_db new) \<and> linked ?i ?x (grown demo_ffi_db new)"
    using ffi_resolve_links[OF demo_ffi_db_ok _ room, of rev demo_codec] sole by (auto simp: s)
  then show ?thesis by (fastforce simp: linked_def t)
qed

end
