(* ===== verification/C_Join.thy ===== *)
theory C_Join
  imports Batch_Total Grouping
begin

text \<open>
  The pass that joins C prototypes with their definitions (\<^verbatim>\<open>pipeline/c_join.rs\<close>): the location of a
  prototype with exactly one definition of its name is recorded with the definition, and the row of
  the prototype is deleted by a bare \<^verbatim>\<open>DELETE\<close>.  The statements run outside a transaction.
\<close>

record CJoinReport =
  cj_joined :: nat
  cj_orphans_kept :: nat
  cj_ambiguous_skipped :: nat

record DeclRow =
  dr_id :: int
  dr_name :: string
  dr_file_path :: string
  dr_start_line :: "32 word"
  dr_end_line :: "32 word"
  dr_start_col :: "32 word"
  dr_end_col :: "32 word"

definition is_decl :: "string \<Rightarrow> sym_row \<Rightarrow> bool" where
  "is_decl workspace_id r \<longleftrightarrow>
     s_language r = ''c'' \<and> s_language_kind r = ''fn_decl'' \<and> s_workspace_id r = workspace_id"

definition decl_of_row :: "sym_row \<Rightarrow> DeclRow" where
  "decl_of_row r = \<lparr> dr_id = s_id r, dr_name = s_name r, dr_file_path = s_file_path r,
     dr_start_line = s_start_line r, dr_end_line = s_end_line r, dr_start_col = s_start_col r, dr_end_col = s_end_col r \<rparr>"

definition collect_decls :: "string \<Rightarrow> DeclRow list sql" where
  "collect_decls workspace_id = squery (\<lambda>db. map decl_of_row (filter (is_decl workspace_id) (t_symbols db)))"

definition is_def :: "string \<Rightarrow> string \<Rightarrow> sym_row \<Rightarrow> bool" where
  "is_def workspace_id name r \<longleftrightarrow>
     s_language r = ''c'' \<and> s_language_kind r = ''fn'' \<and> s_name r = name \<and> s_workspace_id r = workspace_id"

definition find_defs_by_name :: "string \<Rightarrow> string \<Rightarrow> int list sql" where
  "find_defs_by_name workspace_id name = squery (\<lambda>db. map s_id (filter (is_def workspace_id name) (t_symbols db)))"

definition decl_location :: "DeclRow \<Rightarrow> SymbolLocation" where
  "decl_location d = \<lparr> loc_file = dr_file_path d, loc_start_line = dr_start_line d, loc_end_line = dr_end_line d,
     loc_start_col = dr_start_col d, loc_end_col = dr_end_col d \<rparr>"

definition join_decl :: "string \<Rightarrow> DeclRow \<Rightarrow> CJoinReport \<Rightarrow> CJoinReport sql" where
  "join_decl workspace_id d report =
    sbind (find_defs_by_name workspace_id (dr_name d)) (\<lambda>defs.
    (case defs of
       [] \<Rightarrow> sreturn (report\<lparr>cj_orphans_kept := cj_orphans_kept report + 1\<rparr>)
     | [def_id] \<Rightarrow>
         sthen (upsert_decl_location def_id (decl_location d))
        (sthen (run (sql_delete_symbol (dr_id d)))
        (sreturn (report\<lparr>cj_joined := cj_joined report + 1\<rparr>)))
     | _ \<Rightarrow> sreturn (report\<lparr>cj_ambiguous_skipped := cj_ambiguous_skipped report + 1\<rparr>)))"

definition c_join_run_pass :: "string \<Rightarrow> CJoinReport sql" where
  "c_join_run_pass workspace_id =
    sbind (collect_decls workspace_id) (\<lambda>decls.
    sfold (join_decl workspace_id) decls \<lparr> cj_joined = 0, cj_orphans_kept = 0, cj_ambiguous_skipped = 0 \<rparr>)"

definition apply_c_join_primary :: "CJoinReport sql" where
  "apply_c_join_primary = c_join_run_pass PRIMARY_WORKSPACE_ID"

definition apply_c_join_quietly :: "unit sql" where
  "apply_c_join_quietly = (\<lambda>db. (Inr (), snd (apply_c_join_primary db)))"

section \<open>The loop\<close>

definition defs_of :: "db \<Rightarrow> string \<Rightarrow> string \<Rightarrow> int list" where
  "defs_of db w name = map s_id (filter (is_def w name) (t_symbols db))"

definition joinable :: "db \<Rightarrow> string \<Rightarrow> sym_row \<Rightarrow> bool" where
  "joinable db w r \<longleftrightarrow> is_decl w r \<and> length (defs_of db w (s_name r)) = 1"

text \<open>The state of the pass after the prototypes \<^verbatim>\<open>D\<close>.\<close>

definition joined_upto :: "string \<Rightarrow> db \<Rightarrow> sym_row list \<Rightarrow> CJoinReport \<Rightarrow> db \<Rightarrow> bool" where
  "joined_upto w db D report db' \<longleftrightarrow>
     db_ok db' \<and>
     t_symbols db' = filter (\<lambda>r. \<not> (r \<in> set D \<and> joinable db w r)) (t_symbols db) \<and>
     set (t_edges db') \<subseteq> set (t_edges db) \<and>
     (\<forall>r\<in>set D. \<forall>i. defs_of db w (s_name r) = [i] \<longrightarrow> (\<exists>q\<in>set D. s_name q = s_name r \<and>
        lookup_by dl_symbol_id i (t_decl_locations db') = Some \<lparr> dl_symbol_id = i, dl_location = decl_location (decl_of_row q) \<rparr>)) \<and>
     cj_joined report = length (filter (\<lambda>r. length (defs_of db w (s_name r)) = 1) D) \<and>
     cj_orphans_kept report = length (filter (\<lambda>r. defs_of db w (s_name r) = []) D) \<and>
     cj_ambiguous_skipped report = length (filter (\<lambda>r. 1 < length (defs_of db w (s_name r))) D)"

lemma def_not_decl: "is_def w name r \<Longrightarrow> \<not> is_decl w r"
  by (simp add: is_def_def is_decl_def)

lemma joined_upto_defs:
  assumes "joined_upto w db D report db'"
  shows "defs_of db' w name = defs_of db w name"
proof -
  have "filter (is_def w name) (t_symbols db') = filter (is_def w name) (t_symbols db)"
    using assms def_not_decl by (auto simp: joined_upto_def joinable_def intro!: filter_cong)
  then show ?thesis by (simp add: defs_of_def)
qed

lemma sfold_map: "sfold f (map h xs) acc = sfold (\<lambda>x. f (h x)) xs acc"
  by (induction xs arbitrary: acc) (auto simp: fun_eq_iff sbind_def split: prod.splits sum.splits)

lemma defs_of_D:
  assumes "i \<in> set (defs_of db w name)"
  obtains x where "x \<in> set (t_symbols db)" "is_def w name x" "s_id x = i"
  using assms by (auto simp: defs_of_def)

lemma def_id_not_decl:
  "db_ok db \<Longrightarrow> r \<in> set (t_symbols db) \<Longrightarrow> is_decl w r \<Longrightarrow> i \<in> set (defs_of db w name) \<Longrightarrow> i \<noteq> s_id r"
  by (metis def_not_decl defs_of_D sym_id_inj)

lemma def_id_name:
  "db_ok db \<Longrightarrow> i \<in> set (defs_of db w name) \<Longrightarrow> i \<in> set (defs_of db w name') \<Longrightarrow> name = name'"
  by (metis is_def_def defs_of_D sym_id_inj)

lemma join_decl_step:
  assumes ok: "db_ok db" and r: "r \<in> set (t_symbols db)" "is_decl w r" "r \<notin> set D"
    and free: "\<And>e. e \<in> set (t_edges db) \<Longrightarrow> length (defs_of db w (s_name r)) = 1 \<Longrightarrow> e_to_symbol_id e \<noteq> Some (s_id r)"
  shows "returns (joined_upto w db D report) (join_decl w (decl_of_row r) report) (joined_upto w db (D @ [r]))"
proof (rule returnsI)
  fix db' assume inv: "joined_upto w db D report db'"
  have ok': "db_ok db'" using inv by (simp add: joined_upto_def)
  have defs: "find_defs_by_name w (s_name r) db' = (Inr (defs_of db w (s_name r)), db')"
    using joined_upto_defs[OF inv] by (simp add: find_defs_by_name_def defs_of_def)
  have name: "dr_name (decl_of_row r) = s_name r" "dr_id (decl_of_row r) = s_id r" by (simp_all add: decl_of_row_def)
  show "\<exists>x t. join_decl w (decl_of_row r) report db' = (Inr x, t) \<and> joined_upto w db (D @ [r]) x t"
  proof (cases "length (defs_of db w (s_name r)) = 1")
    case False
    then have many: "defs_of db w (s_name r) = [] \<or> 1 < length (defs_of db w (s_name r))"
      by (cases "defs_of db w (s_name r)") auto
    have "joined_upto w db (D @ [r])
        (if defs_of db w (s_name r) = [] then report\<lparr>cj_orphans_kept := cj_orphans_kept report + 1\<rparr>
         else report\<lparr>cj_ambiguous_skipped := cj_ambiguous_skipped report + 1\<rparr>) db'"
      using inv many by (auto simp: joined_upto_def joinable_def length_Suc_conv intro!: filter_cong)
    then show ?thesis using defs name False
      by (auto simp: join_decl_def sbind_eq_Inr sx_apply split: list.split)
  next
    case True
    then obtain i where i: "defs_of db w (s_name r) = [i]" by (auto simp: length_Suc_conv)
    let ?row = "\<lparr> dl_symbol_id = i, dl_location = decl_location (decl_of_row r) \<rparr>"
    let ?db1 = "db'\<lparr>t_decl_locations := upsert_by dl_symbol_id take_new ?row (t_decl_locations db')\<rparr>"
    have "i \<in> set (defs_of db' w (s_name r))" using i joined_upto_defs[OF inv, of "s_name r"] by simp
    then have mem: "i \<in> sym_ids db'" "i \<noteq> s_id r"
      using i def_id_not_decl[OF ok r(1,2), of i "s_name r"] by (auto elim: defs_of_D)
    have up: "upsert_decl_location i (decl_location (decl_of_row r)) db' = (Inr (), ?db1)"
      using mem by (simp add: upsert_decl_location_def sql_upsert_decl_location_def map_err_def)
    have ok1: "db_ok ?db1" using keeps_result[OF keeps_storage(21) ok' up] .
    have "s_id r \<in> sym_ids db'" using r inv by (auto simp: joined_upto_def)
    then have del: "run (sql_delete_symbol (s_id r)) ?db1 = (Inr (), purge_symbol (s_id r) ?db1)"
      using free inv True by (auto simp: sql_delete_symbol_def map_err_def list_ex_iff joined_upto_def)
    have run: "join_decl w (decl_of_row r) report db' = (Inr (report\<lparr>cj_joined := cj_joined report + 1\<rparr>), purge_symbol (s_id r) ?db1)"
      unfolding join_decl_def name using up del
      by (simp add: sbind_eq_Inr[of "find_defs_by_name w (s_name r)", OF defs] i sthen_eq_Inr sx_apply)
    have ok2: "db_ok (purge_symbol (s_id r) ?db1)"
      using keeps_result[OF keeps_map_err[OF keeps_delete_symbol] ok1 del] .
    have syms: "t_symbols (purge_symbol (s_id r) ?db1) = filter (\<lambda>q. \<not> (q \<in> set (D @ [r]) \<and> joinable db w q)) (t_symbols db)"
      using inv r True sym_id_inj[OF ok] by (auto simp: purge_symbol_def joined_upto_def joinable_def intro!: filter_cong)
    have look: "lookup_by dl_symbol_id j (t_decl_locations (purge_symbol (s_id r) ?db1)) =
        (if j = i then Some ?row else lookup_by dl_symbol_id j (t_decl_locations db'))" if "j \<noteq> s_id r" for j
      using that decl_tab.lookup_upsert_same[of ?row "t_decl_locations db'"]
        decl_tab.lookup_upsert_other[of j ?row "t_decl_locations db'"]
      by (auto simp: purge_symbol_def delete_by_def[symmetric] take_new_def split: option.splits)
    have locs: "\<exists>q\<in>set (D @ [r]). s_name q = s_name p \<and> lookup_by dl_symbol_id j (t_decl_locations (purge_symbol (s_id r) ?db1))
        = Some \<lparr> dl_symbol_id = j, dl_location = decl_location (decl_of_row q) \<rparr>"
      if p: "p \<in> set (D @ [r])" "defs_of db w (s_name p) = [j]" for p j
    proof (cases "j = i")
      case True
      then have "s_name p = s_name r" using def_id_name[OF ok, of i w] p(2) i by auto
      then show ?thesis using look[of i] mem True by auto
    next
      case False
      then have "p \<in> set D" using p i by auto
      then obtain q where "q \<in> set D" "s_name q = s_name p"
          "lookup_by dl_symbol_id j (t_decl_locations db') = Some \<lparr> dl_symbol_id = j, dl_location = decl_location (decl_of_row q) \<rparr>"
        using inv p(2) unfolding joined_upto_def by blast
      moreover have "j \<noteq> s_id r" using def_id_not_decl[OF ok r(1,2), of j "s_name p"] p(2) by simp
      ultimately show ?thesis using look[of j] False by auto
    qed
    have "joined_upto w db (D @ [r]) (report\<lparr>cj_joined := cj_joined report + 1\<rparr>) (purge_symbol (s_id r) ?db1)"
      using inv i ok2 syms locs unfolding joined_upto_def by (auto simp: purge_symbol_def)
    then show ?thesis using run by blast
  qed
qed

definition join_start :: CJoinReport where
  "join_start = \<lparr> cj_joined = 0, cj_orphans_kept = 0, cj_ambiguous_skipped = 0 \<rparr>"

lemma c_join_joins:
  assumes ok: "db_ok db"
    and free: "\<And>e r. e \<in> set (t_edges db) \<Longrightarrow> r \<in> set (t_symbols db) \<Longrightarrow> joinable db w r \<Longrightarrow> e_to_symbol_id e \<noteq> Some (s_id r)"
  obtains report db' where "c_join_run_pass w db = (Inr report, db')"
    "joined_upto w db (filter (is_decl w) (t_symbols db)) report db'"
proof -
  have dist: "distinct (t_symbols db)"
    using db_ok_subD(3)[OF ok] by (simp add: ok_symbols_def ok_ids_def distinct_map)
  have "returns (joined_upto w db [] join_start) (sfold (\<lambda>r. join_decl w (decl_of_row r)) (filter (is_decl w) (t_symbols db)) join_start)
      (joined_upto w db ([] @ filter (is_decl w) (t_symbols db)))"
  proof (rule returns_sfold_split)
    fix pre r post report assume split: "filter (is_decl w) (t_symbols db) = pre @ r # post"
    have "r \<in> set (filter (is_decl w) (t_symbols db))" unfolding split by simp
    then have r: "r \<in> set (t_symbols db)" "is_decl w r" by simp_all
    have "distinct (pre @ r # post)" using distinct_filter[OF dist, of "is_decl w"] split by simp
    then have "r \<notin> set ([] @ pre)" by simp
    from join_decl_step[OF ok r this, of report] free r
    show "returns (joined_upto w db ([] @ pre) report) (join_decl w (decl_of_row r) report) (joined_upto w db ([] @ pre @ [r]))"
      by (simp add: joinable_def)
  qed
  moreover have "joined_upto w db [] join_start db" using ok by (simp add: joined_upto_def join_start_def)
  ultimately obtain report db' where "sfold (\<lambda>r. join_decl w (decl_of_row r)) (filter (is_decl w) (t_symbols db)) join_start db = (Inr report, db')"
      "joined_upto w db (filter (is_decl w) (t_symbols db)) report db'"
    by (auto elim: returnsE)
  then show ?thesis by (intro that) (simp_all add: c_join_run_pass_def collect_decls_def sfold_map join_start_def)
qed

lemma join_idle:
  assumes "\<And>r. r \<in> set rs \<Longrightarrow> length (defs_of db w (s_name r)) \<noteq> 1"
  shows "\<exists>report'. sfold (\<lambda>r. join_decl w (decl_of_row r)) rs report db = (Inr report', db) \<and> cj_joined report' = cj_joined report"
  using assms
proof (induction rs arbitrary: report)
  case (Cons r rs)
  have "\<exists>report'. join_decl w (decl_of_row r) report db = (Inr report', db) \<and> cj_joined report' = cj_joined report"
    using Cons.prems[of r]
    by (auto simp: join_decl_def find_defs_by_name_def decl_of_row_def defs_of_def sx_apply split: list.splits)
  then show ?case using Cons by (fastforce simp: sbind_eq_Inr)
qed (simp add: sx_apply)

section \<open>Properties\<close>

text \<open>
  Joining prototypes.  When no edge points to a prototype with exactly one definition, the pass
  succeeds: exactly those prototypes are gone and no other symbol is, each definition concerned has
  the location of a prototype of its name, the report counts the prototypes with one, no and several
  definitions, and a second run joins nothing and changes nothing.
\<close>

theorem c_join_exact:
  assumes ok: "db_ok db"
    and free: "\<And>e r. e \<in> set (t_edges db) \<Longrightarrow> r \<in> set (t_symbols db) \<Longrightarrow> joinable db w r \<Longrightarrow> e_to_symbol_id e \<noteq> Some (s_id r)"
  shows "\<exists>report db' again. c_join_run_pass w db = (Inr report, db') \<and> db_ok db' \<and>
    t_symbols db' = filter (\<lambda>r. \<not> joinable db w r) (t_symbols db) \<and>
    (\<forall>r\<in>set (t_symbols db). \<forall>i. is_decl w r \<and> defs_of db w (s_name r) = [i] \<longrightarrow>
       (\<exists>q\<in>set (t_symbols db). is_decl w q \<and> s_name q = s_name r \<and>
          read_decl_location i db' = (Inr (Some (decl_location (decl_of_row q))), db'))) \<and>
    cj_joined report = length (filter (joinable db w) (t_symbols db)) \<and>
    cj_joined report + cj_orphans_kept report + cj_ambiguous_skipped report = length (filter (is_decl w) (t_symbols db)) \<and>
    c_join_run_pass w db' = (Inr again, db') \<and> cj_joined again = 0"
proof -
  obtain report db' where run: "c_join_run_pass w db = (Inr report, db')"
    and j: "joined_upto w db (filter (is_decl w) (t_symbols db)) report db'"
    by (rule c_join_joins[OF ok free])
  have syms: "t_symbols db' = filter (\<lambda>r. \<not> joinable db w r) (t_symbols db)"
    using j by (auto simp: joined_upto_def joinable_def intro!: filter_cong)
  have "length (defs_of db' w (s_name r)) \<noteq> 1" if "r \<in> set (filter (is_decl w) (t_symbols db'))" for r
    using that syms joined_upto_defs[OF j, of "s_name r"] by (auto simp: joinable_def)
  from join_idle[OF this, where rs = "filter (is_decl w) (t_symbols db')" and report = join_start] obtain again where "c_join_run_pass w db' = (Inr again, db')" "cj_joined again = 0"
    by (auto simp: c_join_run_pass_def collect_decls_def sfold_map join_start_def)
  moreover have "\<exists>q\<in>set (t_symbols db). is_decl w q \<and> s_name q = s_name r \<and>
      read_decl_location i db' = (Inr (Some (decl_location (decl_of_row q))), db')"
    if "r \<in> set (t_symbols db)" "is_decl w r" "defs_of db w (s_name r) = [i]" for r i
    using j that by (fastforce simp: joined_upto_def read_decl_location_def)
  moreover have "cj_joined report = length (filter (joinable db w) (t_symbols db))"
    using j by (simp add: joined_upto_def joinable_def[abs_def])
  moreover have "cj_joined report + cj_orphans_kept report + cj_ambiguous_skipped report = length (filter (is_decl w) (t_symbols db))"
  proof -
    have "length (filter (\<lambda>r. length (h r) = 1) xs) + length (filter (\<lambda>r. h r = []) xs) + length (filter (\<lambda>r. 1 < length (h r)) xs)
        = length xs" for h :: "sym_row \<Rightarrow> int list" and xs
    proof (induction xs)
      case (Cons x xs)
      have "length (h x) = 1 \<or> h x = [] \<or> 1 < length (h x)" by (cases "h x") auto
      then show ?case using Cons by auto
    qed simp
    from this[of "\<lambda>r. defs_of db w (s_name r)" "filter (is_decl w) (t_symbols db)"] show ?thesis
      using j unfolding joined_upto_def by simp
  qed
  moreover have "db_ok db'" using j by (simp add: joined_upto_def)
  ultimately show ?thesis using run syms by blast
qed

text \<open>A prototype and a definition of \<^verbatim>\<open>h\<close>.\<close>

definition demo_c_db :: "edge_row list \<Rightarrow> db" where
  "demo_c_db es = demo_db\<lparr>t_edges := es,
     t_symbols := [(demo_row 1 ''f'')\<lparr>s_language := ''c'', s_language_kind := ''fn_decl'', s_name := ''h''\<rparr>,
                   (demo_row 2 ''g'')\<lparr>s_language := ''c'', s_language_kind := ''fn'', s_name := ''h''\<rparr>],
     t_fts := [(1, ''h'', ''f''), (2, ''h'', ''g'')]\<rparr>"

lemma demo_c_rows:
  "sym_key ((demo_row i f)\<lparr>s_language := l, s_language_kind := k, s_name := n\<rparr>) = (''primary'', f)"
  "sym_checks ((demo_row i f)\<lparr>s_language := l, s_language_kind := k, s_name := n\<rparr>)"
  using demo_row_simps[of i f] by (simp_all add: sym_key_def sym_checks_def)

lemma demo_c_db_ok: "db_ok (demo_c_db [])" "db_ok (demo_c_db [demo_edge])"
  by (simp_all add: demo_c_db_def demo_db_def init_db_def db_ok_def ok_projects_def ok_ids_def ok_files_def ok_symbols_def
      ok_edges_def ok_satellite_def ok_calls_def ok_catalog_def ok_fts_def fts_doc_def demo_file_def demo_c_rows
      demo_edge_def edge_checks_def edge_target_check_def)

lemma demo_c_db_simps:
  "filter (is_decl ''primary'') (t_symbols (demo_c_db es)) =
     [(demo_row 1 ''f'')\<lparr>s_language := ''c'', s_language_kind := ''fn_decl'', s_name := ''h''\<rparr>]"
  "defs_of (demo_c_db es) ''primary'' ''h'' = [2]" "t_edges (demo_c_db es) = es"
  by (simp_all add: demo_c_db_def is_decl_def is_def_def defs_of_def)

theorem c_join_exact_witness:
  "\<exists>report db'. c_join_run_pass ''primary'' (demo_c_db []) = (Inr report, db') \<and> cj_joined report = 1 \<and>
     map s_id (t_symbols db') = [2]"
proof -
  let ?db = "demo_c_db []"
  have syms: "t_symbols ?db = [(demo_row 1 ''f'')\<lparr>s_language := ''c'', s_language_kind := ''fn_decl'', s_name := ''h''\<rparr>,
      (demo_row 2 ''g'')\<lparr>s_language := ''c'', s_language_kind := ''fn'', s_name := ''h''\<rparr>]"
    by (simp add: demo_c_db_def)
  have j: "joinable ?db ''primary'' ((demo_row 1 ''f'')\<lparr>s_language := ''c'', s_language_kind := ''fn_decl'', s_name := ''h''\<rparr>)"
    "\<not> joinable ?db ''primary'' ((demo_row 2 ''g'')\<lparr>s_language := ''c'', s_language_kind := ''fn'', s_name := ''h''\<rparr>)"
    using demo_c_db_simps(2)[of "[]"] by (simp_all add: joinable_def is_decl_def)
  show ?thesis
    using c_join_exact[OF demo_c_db_ok(1), of "''primary''"] j unfolding demo_c_db_simps(3) syms by auto
qed

text \<open>
  A prototype that is the target of an edge stops the pass: the bare \<^verbatim>\<open>DELETE\<close> would leave the
  edge without a target and fails its check.  The declaration location is already written, so the
  definition and the prototype are both left, and no later prototype is joined.
\<close>

theorem c_join_blocked_by_incoming_edge:
  assumes "filter (is_decl w) (t_symbols db) = r # rest" "defs_of db w (s_name r) = [i]"
    and "e \<in> set (t_edges db)" "e_to_symbol_id e = Some (s_id r)"
  shows "c_join_run_pass w db = (Inl (Sqlite ConstraintCheck),
    db\<lparr>t_decl_locations := upsert_by dl_symbol_id take_new
         \<lparr> dl_symbol_id = i, dl_location = decl_location (decl_of_row r) \<rparr> (t_decl_locations db)\<rparr>)"
proof -
  let ?row = "\<lparr> dl_symbol_id = i, dl_location = decl_location (decl_of_row r) \<rparr>"
  let ?db1 = "db\<lparr>t_decl_locations := upsert_by dl_symbol_id take_new ?row (t_decl_locations db)\<rparr>"
  have "r \<in> set (filter (is_decl w) (t_symbols db))" unfolding assms(1) by simp
  then have r: "s_id r \<in> sym_ids db" by simp
  have "i \<in> set (defs_of db w (s_name r))" using assms(2) by simp
  then have i: "i \<in> sym_ids db" by (auto elim: defs_of_D)
  have "upsert_decl_location i (decl_location (decl_of_row r)) db = (Inr (), ?db1)"
    using i by (simp add: upsert_decl_location_def sql_upsert_decl_location_def map_err_def)
  moreover have "run (sql_delete_symbol (s_id r)) ?db1 = (Inl (Sqlite ConstraintCheck), ?db1)"
    using r assms(3,4) by (auto simp: sql_delete_symbol_def map_err_def list_ex_iff)
  ultimately have "join_decl w (decl_of_row r) join_start db = (Inl (Sqlite ConstraintCheck), ?db1)"
    using assms(2) by (simp add: join_decl_def find_defs_by_name_def defs_of_def decl_of_row_def sthen_eq_Inr sthen_eq_Inl)
  then show ?thesis
    using assms(1) by (simp add: c_join_run_pass_def collect_decls_def join_start_def sbind_eq_Inl)
qed

theorem c_join_blocked_by_incoming_edge_witness:
  "\<exists>db'. c_join_run_pass ''primary'' (demo_c_db [demo_edge]) = (Inl (Sqlite ConstraintCheck), db') \<and>
    t_symbols db' = t_symbols (demo_c_db [demo_edge]) \<and> t_decl_locations db' \<noteq> []"
  using c_join_blocked_by_incoming_edge[OF demo_c_db_simps(1), of "[demo_edge]" 2 demo_edge] demo_c_db_simps(2,3)[of "[demo_edge]"]
  by (auto simp: demo_edge_def upsert_by_def)

end
