(* ===== verification/Peer_Import.thy ===== *)
theory Peer_Import
  imports Storage_Meta Grouping
begin

text \<open>
  Copying the lookup tables of a linked peer (\<^verbatim>\<open>pipeline/peer_import.rs\<close>): the rows of the peer's own
  primary workspace are read from its database and written into ours under the peer's id, in one
  transaction.  What opening the peer's index file gives and the clock reading are arguments.
\<close>

datatype PeerImportStatus = Imported | SkippedMissing | SkippedInactive | ImportFailed StorageError

record PeerImportStats =
  pis_workspace_id :: string
  pis_root_path :: string
  pis_status :: PeerImportStatus
  pis_module_lookups_imported :: nat
  pis_workspace_imports_imported :: nat

text \<open>The index file of the peer: absent, not to be opened, or a database.\<close>

datatype peer_index = PeerMissing | PeerOpenFailed StorageError | PeerOpened db

definition read_peer_module_lookups :: "db \<Rightarrow> lookup_row list" where
  "read_peer_module_lookups peer = filter (\<lambda>r. lk_workspace_id r = ''primary'') (t_module_lookups peer)"

definition read_peer_workspace_imports :: "db \<Rightarrow> import_row list" where
  "read_peer_workspace_imports peer = filter (\<lambda>r. wi_workspace_id r = ''primary'') (t_workspace_imports peer)"

text \<open>\<^verbatim>\<open>INSERT INTO module_lookups\<close>: the primary key is the workspace with the module.\<close>

definition sql_insert_lookup :: "lookup_row \<Rightarrow> unit stmt" where
  "sql_insert_lookup r = (\<lambda>db.
     if list_ex (\<lambda>x. lookup_key x = lookup_key r) (t_module_lookups db)
     then (Inl ConstraintPrimaryKey, db)
     else (Inr (), db\<lparr>t_module_lookups := t_module_lookups db @ [r]\<rparr>))"

definition do_import :: "int \<Rightarrow> db \<Rightarrow> string \<Rightarrow> (nat \<times> nat) sql" where
  "do_import now peer peer_workspace_id =
    (let lookup_rows = read_peer_module_lookups peer;
         import_rows = read_peer_workspace_imports peer
     in transaction
       (sthen (run (sql_delete_imports_where (\<lambda>r. wi_workspace_id r = peer_workspace_id)))
       (sthen (run (sql_delete_lookups_where (\<lambda>r. lk_workspace_id r = peer_workspace_id)))
       (sthen (sfor lookup_rows (\<lambda>r. run (sql_insert_lookup (r\<lparr>lk_workspace_id := peer_workspace_id\<rparr>))))
       (sthen (sfor import_rows (\<lambda>r. run (sql_insert_import (r\<lparr>wi_workspace_id := peer_workspace_id\<rparr>))))
       (sthen (run (update_catalog peer_workspace_id (\<lambda>r. r\<lparr>wc_last_indexed_at := Some now\<rparr>)))
       (sreturn (length lookup_rows, length import_rows))))))))"

definition import_peer_workspace :: "int \<Rightarrow> (string \<Rightarrow> peer_index) \<Rightarrow> LinkedWorkspace \<Rightarrow> PeerImportStats sql" where
  "import_peer_workspace now open_index peer =
    (let base = \<lparr> pis_workspace_id = lw_workspace_id peer, pis_root_path = lw_root_path peer, pis_status = Imported,
                  pis_module_lookups_imported = 0, pis_workspace_imports_imported = 0 \<rparr>
     in if lw_status peer \<noteq> Active then sreturn (base\<lparr>pis_status := SkippedInactive\<rparr>)
        else (case open_index (lw_root_path peer) of
          PeerMissing \<Rightarrow> sreturn (base\<lparr>pis_status := SkippedMissing\<rparr>)
        | PeerOpenFailed e \<Rightarrow> sreturn (base\<lparr>pis_status := ImportFailed e\<rparr>)
        | PeerOpened peer_db \<Rightarrow> (\<lambda>db.
            case do_import now peer_db (lw_workspace_id peer) db of
              (Inr (m_count, i_count), db') \<Rightarrow>
                (Inr (base\<lparr>pis_module_lookups_imported := m_count, pis_workspace_imports_imported := i_count\<rparr>), db')
            | (Inl e, db') \<Rightarrow> (Inr (base\<lparr>pis_status := ImportFailed e\<rparr>), db'))))"

section \<open>The import\<close>

lemma insert_lookups_run:
  assumes "distinct (map lookup_key (t_module_lookups db @ rows))"
  shows "sfor rows (\<lambda>r. run (sql_insert_lookup r)) db = (Inr (), db\<lparr>t_module_lookups := t_module_lookups db @ rows\<rparr>)"
  using assms
proof (induction rows arbitrary: db)
  case (Cons r rows)
  let ?db = "db\<lparr>t_module_lookups := t_module_lookups db @ [r]\<rparr>"
  have "\<not> list_ex (\<lambda>x. lookup_key x = lookup_key r) (t_module_lookups db)" using Cons.prems by (simp add: list_ex_iff) (metis imageI)
  then have "run (sql_insert_lookup r) db = (Inr (), ?db)" by (simp add: sql_insert_lookup_def map_err_def)
  then show ?case using Cons.IH[of ?db] Cons.prems by (auto simp: sthen_eq_Inr)
qed (simp add: sx_apply)

lemma insert_imports_run:
  assumes "distinct (map import_key (t_workspace_imports db @ rows))"
  shows "sfor rows (\<lambda>r. run (sql_insert_import r)) db = (Inr (), db\<lparr>t_workspace_imports := t_workspace_imports db @ rows\<rparr>)"
  using assms
proof (induction rows arbitrary: db)
  case (Cons r rows)
  let ?db = "db\<lparr>t_workspace_imports := t_workspace_imports db @ [r]\<rparr>"
  have "\<not> list_ex (\<lambda>x. import_key x = import_key r) (t_workspace_imports db)" using Cons.prems by (simp add: list_ex_iff) (metis imageI)
  then have "run (sql_insert_import r) db = (Inr (), ?db)" by (simp add: sql_insert_import_def map_err_def)
  then show ?case using Cons.IH[of ?db] Cons.prems by (auto simp: sthen_eq_Inr)
qed (simp add: sx_apply)

lemma keeps_insert_lookup: "keeps db_ok (sql_insert_lookup r)"
  by (rule keepsI) (auto simp: sql_insert_lookup_def db_ok_def list_ex_iff)

lemma find_append: "find P (xs @ ys) = (case find P xs of None \<Rightarrow> find P ys | Some x \<Rightarrow> Some x)"
  by (induction xs) auto

lemma sfor_map: "sfor (map h xs) f = sfor xs (\<lambda>x. f (h x))"
  by (induction xs) simp_all

definition retag_lookup :: "string \<Rightarrow> lookup_row \<Rightarrow> lookup_row" where
  "retag_lookup w r = r\<lparr>lk_workspace_id := w\<rparr>"

definition retag_import :: "string \<Rightarrow> import_row \<Rightarrow> import_row" where
  "retag_import w r = r\<lparr>wi_workspace_id := w\<rparr>"

lemma retag_lookups_distinct:
  assumes "distinct (map lookup_key rows)" "\<forall>r\<in>set rows. lk_workspace_id r = u"
  shows "distinct (map lookup_key (map (retag_lookup w) rows))"
  using assms by (auto simp: distinct_map inj_on_def lookup_key_def retag_lookup_def)

lemma retag_imports_distinct:
  assumes "distinct (map import_key rows)" "\<forall>r\<in>set rows. wi_workspace_id r = u"
  shows "distinct (map import_key (map (retag_import w) rows))"
  using assms by (auto simp: distinct_map inj_on_def import_key_def retag_import_def)

lemma disjoint_keys:
  assumes "distinct (map key xs)" "distinct (map key ys)" "\<And>x y. x \<in> set xs \<Longrightarrow> y \<in> set ys \<Longrightarrow> key x \<noteq> key y"
  shows "distinct (map key (xs @ ys))"
  using assms by auto

lemma do_import_run:
  assumes ok: "db_ok db" and peer: "db_ok peer"
  shows "do_import now peer w db = (Inr (length (read_peer_module_lookups peer), length (read_peer_workspace_imports peer)),
    db\<lparr>t_module_lookups := filter (\<lambda>r. lk_workspace_id r \<noteq> w) (t_module_lookups db) @ map (retag_lookup w) (read_peer_module_lookups peer),
       t_workspace_imports := filter (\<lambda>r. wi_workspace_id r \<noteq> w) (t_workspace_imports db) @ map (retag_import w) (read_peer_workspace_imports peer),
       t_catalog := map (\<lambda>r. if wc_workspace_id r = w then r\<lparr>wc_last_indexed_at := Some now\<rparr> else r) (t_catalog db)\<rparr>)"
proof -
  let ?ls = "map (retag_lookup w) (read_peer_module_lookups peer)" and ?is = "map (retag_import w) (read_peer_workspace_imports peer)"
  let ?old_l = "filter (\<lambda>r. lk_workspace_id r \<noteq> w) (t_module_lookups db)"
  let ?old_i = "filter (\<lambda>r. wi_workspace_id r \<noteq> w) (t_workspace_imports db)"
  have "distinct (map lookup_key ?ls)" "distinct (map import_key ?is)"
    using peer by (auto intro!: retag_lookups_distinct[of _ "''primary''"] retag_imports_distinct[of _ "''primary''"] distinct_map_filter
        simp: read_peer_module_lookups_def read_peer_workspace_imports_def db_ok_def simp del: map_map)
  then have dl: "distinct (map lookup_key (?old_l @ ?ls))" and di: "distinct (map import_key (?old_i @ ?is))"
    using ok by (auto intro!: disjoint_keys distinct_map_filter simp: db_ok_def simp del: map_map map_append)
      (auto simp: lookup_key_def import_key_def retag_lookup_def retag_import_def)
  have cat: "list_all catalog_checks (map (\<lambda>r. if wc_workspace_id r = w then r\<lparr>wc_last_indexed_at := Some now\<rparr> else r) (t_catalog db))"
  proof -
    have "catalog_checks r" if "r \<in> set (t_catalog db)" for r using ok that by (simp add: db_ok_def ok_catalog_def)
    moreover have "catalog_checks (r\<lparr>wc_last_indexed_at := Some now\<rparr>) = catalog_checks r" for r
      by (simp add: catalog_checks_def)
    ultimately show ?thesis by (auto simp: list_all_iff)
  qed
  let ?d1 = "db\<lparr>t_workspace_imports := ?old_i\<rparr>" and ?d2 = "db\<lparr>t_workspace_imports := ?old_i, t_module_lookups := ?old_l\<rparr>"
  have steps: "run (sql_delete_imports_where (\<lambda>r. wi_workspace_id r = w)) db = (Inr (), ?d1)"
    "run (sql_delete_lookups_where (\<lambda>r. lk_workspace_id r = w)) ?d1 = (Inr (), ?d2)"
    by (simp_all add: sql_delete_imports_where_def sql_delete_lookups_where_def map_err_def)
  have ins: "sfor (read_peer_module_lookups peer) (\<lambda>r. run (sql_insert_lookup (r\<lparr>lk_workspace_id := w\<rparr>))) ?d2
      = (Inr (), ?d2\<lparr>t_module_lookups := ?old_l @ ?ls\<rparr>)"
    "sfor (read_peer_workspace_imports peer) (\<lambda>r. run (sql_insert_import (r\<lparr>wi_workspace_id := w\<rparr>))) (?d2\<lparr>t_module_lookups := ?old_l @ ?ls\<rparr>)
      = (Inr (), ?d2\<lparr>t_module_lookups := ?old_l @ ?ls, t_workspace_imports := ?old_i @ ?is\<rparr>)"
    using insert_lookups_run[of ?d2 ?ls] dl insert_imports_run[of "?d2\<lparr>t_module_lookups := ?old_l @ ?ls\<rparr>" ?is] di
    by (simp_all add: sfor_map retag_lookup_def retag_import_def)
  show ?thesis
    unfolding do_import_def Let_def transaction_def using steps ins cat
    by (simp add: sthen_eq_Inr update_catalog_def map_err_def Let_def sx_apply)
qed

section \<open>Properties\<close>

text \<open>
  Importing a peer.  On consistent databases the import succeeds and is an exact copy: under the
  peer's id our database answers every module lookup as the peer answers it for its own primary
  workspace, lookups of other workspaces answer as before, the imports of the peer are the peer's
  primary imports retagged, and nothing but the two tables and the catalog's time stamp changes.
\<close>

theorem peer_import_exact:
  assumes ok: "db_ok db" and peer: "db_ok peer" and active: "lw_status p = Active"
    and idx: "open_index (lw_root_path p) = PeerOpened peer"
  shows "\<exists>stats db'. import_peer_workspace now open_index p db = (Inr stats, db') \<and> db_ok db' \<and>
    pis_status stats = Imported \<and> pis_module_lookups_imported stats = length (read_peer_module_lookups peer) \<and>
    (\<forall>m. fst (get_module_lookup K (lw_workspace_id p) m db') = fst (get_module_lookup K ''primary'' m peer)) \<and>
    (\<forall>w m. w \<noteq> lw_workspace_id p \<longrightarrow> fst (get_module_lookup K w m db') = fst (get_module_lookup K w m db)) \<and>
    filter (\<lambda>r. wi_workspace_id r = lw_workspace_id p) (t_workspace_imports db') =
      map (retag_import (lw_workspace_id p)) (read_peer_workspace_imports peer) \<and>
    filter (\<lambda>r. wi_workspace_id r \<noteq> lw_workspace_id p) (t_workspace_imports db') =
      filter (\<lambda>r. wi_workspace_id r \<noteq> lw_workspace_id p) (t_workspace_imports db) \<and>
    db' = db\<lparr>t_module_lookups := t_module_lookups db', t_workspace_imports := t_workspace_imports db', t_catalog := t_catalog db'\<rparr>"
proof -
  let ?w = "lw_workspace_id p"
  let ?old = "filter (\<lambda>r. lk_workspace_id r \<noteq> ?w) (t_module_lookups db)"
  let ?ls = "map (retag_lookup ?w) (read_peer_module_lookups peer)"
  note run = do_import_run[OF ok peer, of now ?w]
  let ?db' = "snd (do_import now peer ?w db)"
  have "keeps db_ok (do_import now peer ?w)"
    unfolding do_import_def Let_def by (intro keeps_intros keeps_insert_lookup keeps_update_catalog) simp_all
  then have ok': "db_ok ?db'" using ok by (rule keepsD)
  have t: "t_module_lookups ?db' = ?old @ ?ls" by (simp add: run)
  have mine: "lookup_by lookup_key (?w, m) (?old @ ?ls) = map_option (retag_lookup ?w) (lookup_by lookup_key (''primary'', m) (t_module_lookups peer))" for m
  proof -
    have "lookup_by lookup_key (?w, m) ?old = None" by (auto simp: lookup_by_None lookup_key_def)
    moreover have "find (\<lambda>r. lookup_key r = (?w, m)) (map (retag_lookup ?w) (filter (\<lambda>r. lk_workspace_id r = ''primary'') xs))
        = map_option (retag_lookup ?w) (find (\<lambda>r. lookup_key r = (''primary'', m)) xs)" for xs
      by (induction xs) (auto simp: lookup_key_def retag_lookup_def)
    ultimately show ?thesis by (simp add: lookup_by_def find_append read_peer_module_lookups_def split: option.splits)
  qed
  have theirs: "lookup_by lookup_key (w, m) (?old @ ?ls) = lookup_by lookup_key (w, m) (t_module_lookups db)" if "w \<noteq> ?w" for w m
  proof -
    have "lookup_by lookup_key (w, m) ?ls = None" using that by (auto simp: lookup_by_None lookup_key_def retag_lookup_def)
    moreover have "find (\<lambda>r. lookup_key r = (w, m)) (filter (\<lambda>r. lk_workspace_id r \<noteq> ?w) xs) = find (\<lambda>r. lookup_key r = (w, m)) xs" for xs
      using that by (induction xs) (auto simp: lookup_key_def)
    ultimately show ?thesis by (simp add: lookup_by_def find_append split: option.splits)
  qed
  have get: "fst (get_module_lookup K w m d) = (case lookup_by lookup_key (w, m) (t_module_lookups d) of None \<Rightarrow> Inr None
      | Some r \<Rightarrow> (case decode_lookup K (lk_payload r) of None \<Rightarrow> Inl InvalidStoredData | Some ml \<Rightarrow> Inr (Some ml)))" for w m d
    by (simp add: get_module_lookup_def sx_apply split: option.split)
  have "fst (get_module_lookup K ?w m ?db') = fst (get_module_lookup K ''primary'' m peer)" for m
    unfolding get t mine by (simp add: retag_lookup_def split: option.split)
  moreover have "w \<noteq> ?w \<Longrightarrow> fst (get_module_lookup K w m ?db') = fst (get_module_lookup K w m db)" for w m
    unfolding get t by (simp add: theirs)
  moreover obtain stats where "import_peer_workspace now open_index p db = (Inr stats, ?db')" "pis_status stats = Imported"
      "pis_module_lookups_imported stats = length (read_peer_module_lookups peer)"
    using active idx by (simp add: import_peer_workspace_def run Let_def)
  moreover have "filter (\<lambda>r. wi_workspace_id r = ?w) (t_workspace_imports ?db') = map (retag_import ?w) (read_peer_workspace_imports peer)"
    "filter (\<lambda>r. wi_workspace_id r \<noteq> ?w) (t_workspace_imports ?db') = filter (\<lambda>r. wi_workspace_id r \<noteq> ?w) (t_workspace_imports db)"
    by (simp_all add: run filter_map o_def retag_import_def filter_empty_conv)
  moreover have "?db' = db\<lparr>t_module_lookups := t_module_lookups ?db', t_workspace_imports := t_workspace_imports ?db', t_catalog := t_catalog ?db'\<rparr>"
    by (simp add: run)
  ultimately show ?thesis using ok' by blast
qed

text \<open>A peer with one module, opened at its root.\<close>

definition demo_peer :: LinkedWorkspace where
  "demo_peer = \<lparr> lw_workspace_id = ''u1'', lw_root_path = ''/peer'', lw_link_direction = LinkDirection.Bidirectional,
     lw_linked_at_epoch_ms = 0, lw_last_indexed_at_epoch_ms = None, lw_status = Active, lw_indexing_mode = BlobImport \<rparr>"

definition demo_peer_db :: db where
  "demo_peer_db = init_db\<lparr>t_module_lookups := [\<lparr> lk_module_fqdn = ''m'', lk_workspace_id = ''primary'', lk_language = ''rust'',
     lk_built_at = 0, lk_payload = [] \<rparr>]\<rparr>"

theorem peer_import_exact_witness:
  "\<exists>stats db'. import_peer_workspace 5 (\<lambda>_. PeerOpened demo_peer_db) demo_peer demo_db = (Inr stats, db') \<and>
    pis_module_lookups_imported stats = 1 \<and>
    fst (get_module_lookup demo_codec ''u1'' ''m'' db') = fst (get_module_lookup demo_codec ''primary'' ''m'' demo_peer_db)"
proof -
  have "db_ok demo_peer_db"
    using init_db_ok by (simp add: demo_peer_db_def db_ok_def init_db_def)
  moreover have "length (read_peer_module_lookups demo_peer_db) = 1"
    by (simp add: read_peer_module_lookups_def demo_peer_db_def)
  ultimately show ?thesis
    using peer_import_exact[OF demo_db_ok, of demo_peer_db demo_peer "\<lambda>_. PeerOpened demo_peer_db" 5 demo_codec]
    by (auto simp: demo_peer_def)
qed

end
