(* ===== verification/Invalidation.thy ===== *)
theory Invalidation
  imports Batch_Total
begin

text \<open>
  Invalidation of cached externals by lockfile digests (\<^verbatim>\<open>pipeline/external_invalidation.rs\<close>) and the
  test for manifest names (\<^verbatim>\<open>pipeline/manifest_invalidation.rs\<close>).  The files of the workspace root are a
  parameter: which names are regular files and what reading a name gives.  The digest of a file, the
  hex text of \<^verbatim>\<open>blake3::hash\<close>, is a parameter as well.  Paths are lists of components, as
  \<^verbatim>\<open>std::path\<close> compares them.
\<close>

datatype file_read = FileBytes "8 word list" | FileNotFound | FileError

record root_files =
  rf_is_file :: "string \<Rightarrow> bool"
  rf_read :: "string \<Rightarrow> file_read"

datatype NpmLockfileKind = PackageLockJson | PnpmLockYaml | YarnLock | YarnPnpCjs | Bun

fun npm_kind_as_str :: "NpmLockfileKind \<Rightarrow> string" where
  "npm_kind_as_str PackageLockJson = ''package-lock.json''"
| "npm_kind_as_str PnpmLockYaml = ''pnpm-lock.yaml''"
| "npm_kind_as_str YarnLock = ''yarn.lock''"
| "npm_kind_as_str YarnPnpCjs = ''.pnp.cjs''"
| "npm_kind_as_str Bun = ''bun.lock''"

definition npm_kind_parse :: "string \<Rightarrow> NpmLockfileKind option" where
  "npm_kind_parse s =
    (if s = ''package-lock.json'' then Some PackageLockJson
     else if s = ''pnpm-lock.yaml'' then Some PnpmLockYaml
     else if s = ''yarn.lock'' then Some YarnLock
     else if s = ''.pnp.cjs'' then Some YarnPnpCjs
     else if s = ''bun.lock'' then Some Bun
     else None)"

record LockfileHashes =
  lh_cargo :: "string option"
  lh_npm :: "(NpmLockfileKind \<times> string) option"
  lh_luarocks :: "string option"

type_synonym digest = "8 word list \<Rightarrow> string"

definition hash_file_if_exists :: "digest \<Rightarrow> root_files \<Rightarrow> string \<Rightarrow> StorageError + string option" where
  "hash_file_if_exists hash F name =
    (case rf_read F name of
       FileBytes bytes \<Rightarrow> Inr (Some (hash bytes))
     | FileNotFound \<Rightarrow> Inr None
     | FileError \<Rightarrow> Inl Io)"

text \<open>The npm lockfiles in order of priority.\<close>

definition npm_candidates :: "(string \<times> NpmLockfileKind) list" where
  "npm_candidates =
    [(''pnpm-lock.yaml'', PnpmLockYaml), (''yarn.lock'', YarnLock), (''.pnp.cjs'', YarnPnpCjs), (''bun.lock'', Bun),
     (''bun.lockb'', Bun), (''package-lock.json'', PackageLockJson)]"

fun npm_lockfile :: "digest \<Rightarrow> root_files \<Rightarrow> (string \<times> NpmLockfileKind) list \<Rightarrow> StorageError + (NpmLockfileKind \<times> string) option" where
  "npm_lockfile hash F [] = Inr None"
| "npm_lockfile hash F ((name, kind) # rest) =
    (if rf_is_file F name then
       (case hash_file_if_exists hash F name of
          Inl e \<Rightarrow> Inl e | Inr h \<Rightarrow> Inr (map_option (\<lambda>h. (kind, h)) h))
     else npm_lockfile hash F rest)"

definition compute_lockfile_hashes :: "digest \<Rightarrow> root_files \<Rightarrow> StorageError + LockfileHashes" where
  "compute_lockfile_hashes hash F =
    (case hash_file_if_exists hash F ''Cargo.lock'' of
       Inl e \<Rightarrow> Inl e
     | Inr cargo \<Rightarrow> (case npm_lockfile hash F npm_candidates of
         Inl e \<Rightarrow> Inl e
       | Inr npm \<Rightarrow> Inr \<lparr> lh_cargo = cargo, lh_npm = npm, lh_luarocks = None \<rparr>))"

definition CARGO_HASH_KEY :: string where "CARGO_HASH_KEY = ''external_cargo_lockfile_hash''"
definition NPM_HASH_KEY :: string where "NPM_HASH_KEY = ''external_npm_lockfile_hash''"
definition NPM_KIND_KEY :: string where "NPM_KIND_KEY = ''external_npm_lockfile_kind''"
definition LUAROCKS_HASH_KEY :: string where "LUAROCKS_HASH_KEY = ''external_luarocks_hash''"

text \<open>A stored value; the loop over the rows skips blank ones.\<close>

definition stored_value :: "string \<Rightarrow> db \<Rightarrow> string option" where
  "stored_value key db = (case t_schema_meta db key of Some v \<Rightarrow> if v = [] then None else Some v | None \<Rightarrow> None)"

definition read_stored_hashes :: "LockfileHashes sql" where
  "read_stored_hashes = squery (\<lambda>db.
     \<lparr> lh_cargo = stored_value CARGO_HASH_KEY db,
       lh_npm = (case (stored_value NPM_HASH_KEY db, Option.bind (stored_value NPM_KIND_KEY db) npm_kind_parse) of
                   (Some h, Some kind) \<Rightarrow> Some (kind, h) | _ \<Rightarrow> None),
       lh_luarocks = stored_value LUAROCKS_HASH_KEY db \<rparr>)"

definition unwrap_or_blank :: "string option \<Rightarrow> string" where
  "unwrap_or_blank v = (case v of None \<Rightarrow> [] | Some s \<Rightarrow> s)"

definition write_stored_hashes :: "LockfileHashes \<Rightarrow> unit sql" where
  "write_stored_hashes hashes = transaction
    (let (npm_hash, npm_kind) = (case lh_npm hashes of None \<Rightarrow> ([], []) | Some (k, h) \<Rightarrow> (h, npm_kind_as_str k)) in
     sthen (update_meta CARGO_HASH_KEY (\<lambda>_. unwrap_or_blank (lh_cargo hashes)))
    (sthen (update_meta NPM_HASH_KEY (\<lambda>_. npm_hash))
    (sthen (update_meta NPM_KIND_KEY (\<lambda>_. npm_kind))
           (update_meta LUAROCKS_HASH_KEY (\<lambda>_. unwrap_or_blank (lh_luarocks hashes))))))"

definition is_origin_external :: "SourceOrigin \<Rightarrow> sym_row \<Rightarrow> bool" where
  "is_origin_external origin r \<longleftrightarrow> s_is_external r \<and> s_source_origin r = source_origin_to_sql_text origin"

definition purge_externals_by_origin :: "SourceOrigin \<Rightarrow> nat sql" where
  "purge_externals_by_origin origin =
    sbind (transaction (run (sql_delete_symbols_where (is_origin_external origin)))) (\<lambda>purged.
    sthen (swhen (0 < purged) handle_bump_revision) (sreturn purged))"

definition purge_if :: "bool \<Rightarrow> SourceOrigin \<Rightarrow> (SourceOrigin \<times> nat) list \<Rightarrow> (SourceOrigin \<times> nat) list sql" where
  "purge_if changed origin purged =
    (if changed then sbind (purge_externals_by_origin origin) (\<lambda>count. sreturn (purged @ [(origin, count)]))
     else sreturn purged)"

definition invalidate_changed_lockfiles :: "digest \<Rightarrow> root_files \<Rightarrow> (SourceOrigin \<times> nat) list sql" where
  "invalidate_changed_lockfiles hash F =
    sbind read_stored_hashes (\<lambda>stored.
    sbind (slift (compute_lockfile_hashes hash F)) (\<lambda>live.
    sbind (purge_if (lh_cargo stored \<noteq> lh_cargo live) SourceOrigin.CargoRegistry []) (\<lambda>purged.
    sbind (purge_if (lh_npm stored \<noteq> lh_npm live) SourceOrigin.NodeModulesDts purged) (\<lambda>purged.
    sbind (purge_if (lh_luarocks stored \<noteq> lh_luarocks live) SourceOrigin.ManualExternal purged) (\<lambda>purged.
    sthen (write_stored_hashes live) (sreturn purged))))))"

text \<open>\<^verbatim>\<open>Path::strip_prefix\<close>, \<^verbatim>\<open>Path::file_name\<close> and \<^verbatim>\<open>Path::extension\<close> on components.\<close>

fun path_strip_prefix :: "string list \<Rightarrow> string list \<Rightarrow> string list option" where
  "path_strip_prefix [] path = Some path"
| "path_strip_prefix (c # base) (d # path) = (if c = d then path_strip_prefix base path else None)"
| "path_strip_prefix (c # base) [] = None"

definition path_file_name :: "string list \<Rightarrow> string option" where
  "path_file_name path =
    (if path = [] \<or> last path = ''/'' \<or> last path = ''..'' \<or> last path = ''.'' then None else Some (last path))"

definition classify_lockfile_path :: "string list \<Rightarrow> string list \<Rightarrow> SourceOrigin option" where
  "classify_lockfile_path workspace_root changed_path =
    (case Option.bind (path_strip_prefix workspace_root changed_path) path_file_name of
       None \<Rightarrow> None
     | Some rel_name \<Rightarrow>
         if rel_name = ''Cargo.lock'' then Some SourceOrigin.CargoRegistry
         else if rel_name \<in> {''package-lock.json'', ''pnpm-lock.yaml'', ''yarn.lock'', ''.pnp.cjs'', ''bun.lock'', ''bun.lockb''}
         then Some SourceOrigin.NodeModulesDts
         else None)"

definition handle_lockfile_change ::
  "digest \<Rightarrow> root_files \<Rightarrow> string list \<Rightarrow> string list \<Rightarrow> (SourceOrigin \<times> nat) option sql" where
  "handle_lockfile_change hash F workspace_root changed_path =
    (case classify_lockfile_path workspace_root changed_path of
       None \<Rightarrow> sreturn None
     | Some origin \<Rightarrow>
         sbind (purge_externals_by_origin origin) (\<lambda>count.
         sbind (slift (compute_lockfile_hashes hash F)) (\<lambda>live.
         sthen (write_stored_hashes live) (sreturn (Some (origin, count))))))"

definition tracked_lockfile_paths :: "string list \<Rightarrow> string list list" where
  "tracked_lockfile_paths workspace_root =
    map (\<lambda>name. workspace_root @ [name])
      [''Cargo.lock'', ''package-lock.json'', ''pnpm-lock.yaml'', ''yarn.lock'', ''.pnp.cjs'', ''bun.lock'', ''bun.lockb'']"

definition MANIFEST_FILENAMES :: "string list" where
  "MANIFEST_FILENAMES =
    [''Cargo.toml'', ''package.json'', ''pnpm-workspace.yaml'', ''bun.lock'', ''bun.lockb'', ''bunfig.toml'',
     ''deno.json'', ''deno.jsonc'', ''go.work'', ''lerna.json'', ''nx.json'', ''turbo.json'', ''pyproject.toml'',
     ''requirements.txt'', ''setup.py'', ''setup.cfg'', ''.luarc.json'']"

definition MANIFEST_EXTENSIONS :: "string list" where
  "MANIFEST_EXTENSIONS = [''sxb'']"

text \<open>The part of a file name after its last dot, unless the dot is the first character.\<close>

definition rsplit_dot :: "string \<Rightarrow> (string \<times> string) option" where
  "rsplit_dot s = map_option (\<lambda>(a, b). (rev b, rev a)) (split_once (CHR ''.'') (rev s))"

definition path_extension :: "string list \<Rightarrow> string option" where
  "path_extension path =
    (case Option.bind (path_file_name path) rsplit_dot of
       Some (stem, ext) \<Rightarrow> if stem = [] then None else Some ext
     | None \<Rightarrow> None)"

definition is_manifest_file :: "string list \<Rightarrow> bool" where
  "is_manifest_file path \<longleftrightarrow>
     (case path_file_name path of Some name \<Rightarrow> name \<in> set MANIFEST_FILENAMES | None \<Rightarrow> False) \<or>
     (case path_extension path of Some ext \<Rightarrow> ext \<in> set MANIFEST_EXTENSIONS | None \<Rightarrow> False)"

section \<open>Stored digests\<close>

lemma npm_kind_roundtrip [simp]: "npm_kind_parse (npm_kind_as_str k) = Some k"
  by (cases k) (simp_all add: npm_kind_parse_def)

lemma npm_kind_nonempty [simp]: "npm_kind_as_str k \<noteq> []"
  by (cases k) simp_all

text \<open>The four rows exist, as \<^verbatim>\<open>init_v0.sql\<close> creates them; no operation removes them.\<close>

definition hash_rows :: "db \<Rightarrow> bool" where
  "hash_rows db \<longleftrightarrow> {CARGO_HASH_KEY, NPM_HASH_KEY, NPM_KIND_KEY, LUAROCKS_HASH_KEY} \<subseteq> dom (t_schema_meta db)"

text \<open>Digests are never blank.\<close>

definition digests :: "LockfileHashes \<Rightarrow> bool" where
  "digests h \<longleftrightarrow> lh_cargo h \<noteq> Some [] \<and> lh_luarocks h \<noteq> Some [] \<and> (\<forall>k v. lh_npm h = Some (k, v) \<longrightarrow> v \<noteq> [])"

definition stored_meta :: "LockfileHashes \<Rightarrow> (string \<rightharpoonup> string) \<Rightarrow> (string \<rightharpoonup> string)" where
  "stored_meta h m = m(CARGO_HASH_KEY \<mapsto> unwrap_or_blank (lh_cargo h),
     NPM_HASH_KEY \<mapsto> (case lh_npm h of None \<Rightarrow> [] | Some (k, v) \<Rightarrow> v),
     NPM_KIND_KEY \<mapsto> (case lh_npm h of None \<Rightarrow> [] | Some (k, v) \<Rightarrow> npm_kind_as_str k),
     LUAROCKS_HASH_KEY \<mapsto> unwrap_or_blank (lh_luarocks h))"

lemmas hash_keys = CARGO_HASH_KEY_def NPM_HASH_KEY_def NPM_KIND_KEY_def LUAROCKS_HASH_KEY_def

lemma hash_keys_distinct:
  "distinct [CARGO_HASH_KEY, NPM_HASH_KEY, NPM_KIND_KEY, LUAROCKS_HASH_KEY, REVISION_KEY]"
  by (simp add: hash_keys REVISION_KEY_def)

lemma update_meta_present:
  "k \<in> dom (t_schema_meta db) \<Longrightarrow> update_meta k (\<lambda>_. v) db = (Inr (), db\<lparr>t_schema_meta := (t_schema_meta db)(k \<mapsto> v)\<rparr>)"
  by (auto simp: update_meta_def set_meta_def)

lemma write_stored_hashes_run:
  assumes "hash_rows db"
  shows "write_stored_hashes h db = (Inr (), db\<lparr>t_schema_meta := stored_meta h (t_schema_meta db)\<rparr>)"
  using assms
  by (simp add: write_stored_hashes_def hash_rows_def stored_meta_def transaction_def sthen_eq_Inr update_meta_present
      split: option.split prod.split)

lemma read_written:
  assumes "digests h"
  shows "read_stored_hashes (db\<lparr>t_schema_meta := stored_meta h m\<rparr>) = (Inr h, db\<lparr>t_schema_meta := stored_meta h m\<rparr>)"
  using assms hash_keys_distinct
  by (cases h) (auto simp: read_stored_hashes_def stored_value_def stored_meta_def digests_def unwrap_or_blank_def
      split: option.splits)

lemma stored_meta_again: "stored_meta h (stored_meta h m) = stored_meta h m"
  by (rule ext) (auto simp: stored_meta_def)

lemma compute_digests:
  assumes "\<And>b. hash b \<noteq> []" "compute_lockfile_hashes hash F = Inr h"
  shows "digests h"
proof -
  have "npm_lockfile hash F c \<noteq> Inr (Some (k, []))" for c k
    using assms(1) by (induction hash F c rule: npm_lockfile.induct)
      (auto simp: hash_file_if_exists_def split: if_splits sum.splits file_read.splits)
  then show ?thesis using assms
    by (auto simp: compute_lockfile_hashes_def digests_def hash_file_if_exists_def split: sum.splits file_read.splits)
qed

section \<open>Purging\<close>

lemma handle_bump_frame:
  "handle_bump_revision db = (Inr (), db') \<Longrightarrow>
     db' = db\<lparr>t_schema_meta := t_schema_meta db'\<rparr> \<and> (\<forall>k. k \<noteq> REVISION_KEY \<longrightarrow> t_schema_meta db' k = t_schema_meta db k)"
  by (auto simp: handle_bump_revision_def bump_revision_def update_meta_def set_meta_def split: option.splits)

lemma purge_meta: "t_schema_meta (purge_symbol i db) = t_schema_meta db"
  by (simp add: purge_symbol_def)

lemma delete_symbols_where_meta:
  assumes "sql_delete_symbols_where P db = (r, db')"
  shows "t_schema_meta db' = t_schema_meta db"
proof -
  have "keeps (\<lambda>d. t_schema_meta d = t_schema_meta db) (sql_delete_symbols_where P)"
    unfolding sql_delete_symbols_where_def
    by (intro keeps_intros keepsI) (simp add: sql_delete_symbol_def purge_meta)
  from keeps_result[OF this _ assms] show ?thesis by simp
qed

lemma purge_externals_run:
  assumes ok: "db_ok db" and run: "purge_externals_by_origin origin db = (Inr n, db')"
  shows "t_symbols db' = filter (\<lambda>r. \<not> is_origin_external origin r) (t_symbols db) \<and>
    (\<forall>k. k \<noteq> REVISION_KEY \<longrightarrow> t_schema_meta db' k = t_schema_meta db k)"
proof -
  obtain db1 where d: "sql_delete_symbols_where (is_origin_external origin) db = (Inr n, db1)"
      and b: "swhen (0 < n) handle_bump_revision db1 = (Inr (), db')"
    using run unfolding purge_externals_by_origin_def
    by (auto simp: transaction_Inr sx_apply elim!: sbind_InrE sthen_InrE)
  have "t_symbols db' = t_symbols db1 \<and> (\<forall>k. k \<noteq> REVISION_KEY \<longrightarrow> t_schema_meta db' k = t_schema_meta db1 k)"
  proof (cases "0 < n")
    case True
    then have "handle_bump_revision db1 = (Inr (), db')" using b by (simp add: swhen_def)
    from handle_bump_frame[OF this] show ?thesis by (metis db.ext_inject db.surjective db.update_convs(1))
  qed (use b in \<open>simp add: swhen_def sx_apply\<close>)
  moreover have "t_symbols db1 = filter (\<lambda>r. \<not> is_origin_external origin r) (t_symbols db)"
    unfolding delete_symbols_where_gone(1)[OF d] using sym_id_inj[OF ok] by (auto intro!: filter_cong)
  ultimately show ?thesis using delete_symbols_where_meta[OF d] by simp
qed

lemma delete_symbols_free:
  assumes "\<And>e. e \<in> set (t_edges db) \<Longrightarrow> e_to_symbol_id e \<notin> Some ` set ids"
  shows "\<exists>db'. sfor ids sql_delete_symbol db = (Inr (), db') \<and> set (t_edges db') \<subseteq> set (t_edges db)"
  using assms
proof (induction ids arbitrary: db)
  case (Cons i ids)
  have "\<not> list_ex (\<lambda>e. e_to_symbol_id e = Some i) (t_edges db)" using Cons.prems by (auto simp: list_ex_iff)
  then obtain db1 where d: "sql_delete_symbol i db = (Inr (), db1)" "set (t_edges db1) \<subseteq> set (t_edges db)"
    by (cases "i \<in> sym_ids db") (auto simp: sql_delete_symbol_def purge_symbol_def)
  then obtain db2 where "sfor ids sql_delete_symbol db1 = (Inr (), db2)" "set (t_edges db2) \<subseteq> set (t_edges db1)"
    using Cons.IH[of db1] Cons.prems by (metis (no_types, lifting) image_insert insertCI list.simps(15) subsetD)
  then show ?case using d by (auto simp: sthen_eq_Inr)
qed (simp add: sx_apply)

definition no_edge_into :: "(sym_row \<Rightarrow> bool) \<Rightarrow> db \<Rightarrow> bool" where
  "no_edge_into P db \<longleftrightarrow> (\<forall>e\<in>set (t_edges db). \<forall>r\<in>set (t_symbols db). P r \<longrightarrow> e_to_symbol_id e \<noteq> Some (s_id r))"

lemma purge_externals_returns:
  assumes ok: "db_ok db" and free: "no_edge_into (is_origin_external origin) db"
  shows "\<exists>n db'. purge_externals_by_origin origin db = (Inr n, db') \<and> db_ok db' \<and> set (t_edges db') \<subseteq> set (t_edges db) \<and>
    t_symbols db' = filter (\<lambda>r. \<not> is_origin_external origin r) (t_symbols db) \<and>
    (\<forall>k. k \<noteq> REVISION_KEY \<longrightarrow> t_schema_meta db' k = t_schema_meta db k)"
proof -
  let ?ids = "map s_id (filter (is_origin_external origin) (t_symbols db))"
  have "e_to_symbol_id e \<notin> Some ` set ?ids" if "e \<in> set (t_edges db)" for e
    using free that by (auto simp: no_edge_into_def)
  then obtain db1 where d: "sfor ?ids sql_delete_symbol db = (Inr (), db1)" "set (t_edges db1) \<subseteq> set (t_edges db)"
    using delete_symbols_free[of db ?ids] by blast
  then have "run (sql_delete_symbols_where (is_origin_external origin)) db = (Inr (length ?ids), db1)"
    by (simp add: sql_delete_symbols_where_def transaction_def sthen_eq_Inr sx_apply map_err_def)
  moreover obtain db2 where b: "swhen (0 < length ?ids) handle_bump_revision db1 = (Inr (), db2)"
      "set (t_edges db2) = set (t_edges db1)"
    by (cases "0 < length ?ids") (auto simp: swhen_def sx_apply handle_bump_revision_def bump_revision_def
        update_meta_def set_meta_def split: option.splits)
  ultimately have run: "purge_externals_by_origin origin db = (Inr (length ?ids), db2)"
    by (simp add: purge_externals_by_origin_def sbind_def sthen_def transaction_def map_err_def sx_apply)
  have "keeps db_ok (purge_externals_by_origin origin)"
    unfolding purge_externals_by_origin_def by (intro keeps_intros)
  from keeps_result[OF this ok run] show ?thesis using run purge_externals_run[OF ok run] b(2) d(2) by auto
qed

section \<open>Properties\<close>

text \<open>The origins whose lockfile changed, in the order the code purges them.\<close>

definition changed_origins :: "LockfileHashes \<Rightarrow> LockfileHashes \<Rightarrow> SourceOrigin list" where
  "changed_origins stored live =
     (if lh_cargo stored \<noteq> lh_cargo live then [SourceOrigin.CargoRegistry] else []) @
     (if lh_npm stored \<noteq> lh_npm live then [SourceOrigin.NodeModulesDts] else []) @
     (if lh_luarocks stored \<noteq> lh_luarocks live then [SourceOrigin.ManualExternal] else [])"

text \<open>The database after the origins \<^verbatim>\<open>os\<close> have been purged.\<close>

definition purged_upto :: "db \<Rightarrow> SourceOrigin list \<Rightarrow> db \<Rightarrow> bool" where
  "purged_upto db os db' \<longleftrightarrow> db_ok db' \<and> set (t_edges db') \<subseteq> set (t_edges db) \<and>
     t_symbols db' = filter (\<lambda>r. \<not> (\<exists>og\<in>set os. is_origin_external og r)) (t_symbols db) \<and>
     (\<forall>k. k \<noteq> REVISION_KEY \<longrightarrow> t_schema_meta db' k = t_schema_meta db k)"

lemma purge_if_returns:
  assumes "purged_upto db os db'" and free: "changed \<Longrightarrow> no_edge_into (is_origin_external origin) db"
  shows "\<exists>purged' db''. purge_if changed origin purged db' = (Inr purged', db'') \<and>
    map fst purged' = map fst purged @ (if changed then [origin] else []) \<and>
    purged_upto db (os @ (if changed then [origin] else [])) db''"
proof (cases changed)
  case True
  have "no_edge_into (is_origin_external origin) db'"
    using free[OF True] assms(1) by (auto simp: no_edge_into_def purged_upto_def)
  then obtain n db'' where "purge_externals_by_origin origin db' = (Inr n, db'')" "db_ok db''"
      "set (t_edges db'') \<subseteq> set (t_edges db')" "t_symbols db'' = filter (\<lambda>r. \<not> is_origin_external origin r) (t_symbols db')"
      "\<forall>k. k \<noteq> REVISION_KEY \<longrightarrow> t_schema_meta db'' k = t_schema_meta db' k"
    using purge_externals_returns[of db' origin] assms(1) unfolding purged_upto_def by blast
  then show ?thesis using assms(1) True
    by (auto simp: purge_if_def sbind_eq_Inr sx_apply purged_upto_def intro!: filter_cong)
qed (use assms in \<open>simp add: purge_if_def sx_apply\<close>)

text \<open>
  Lockfile invalidation.  When the lockfiles can be read and no edge points into the externals
  to be purged, the cold-start check succeeds: it purges exactly the external symbols of the origins
  whose stored fingerprint differs from the live one, stores the live fingerprints, and a second check
  on the same files purges nothing and changes nothing.
\<close>

theorem invalidate_changed_lockfiles_exact:
  assumes ok: "db_ok db" and rows: "hash_rows db" and hash: "\<And>b. hash b \<noteq> []"
    and live: "compute_lockfile_hashes hash F = Inr live" and stored: "read_stored_hashes db = (Inr stored, db)"
    and free: "\<And>og. og \<in> set (changed_origins stored live) \<Longrightarrow> no_edge_into (is_origin_external og) db"
  shows "\<exists>purged db'. invalidate_changed_lockfiles hash F db = (Inr purged, db') \<and>
    map fst purged = changed_origins stored live \<and>
    t_symbols db' = filter (\<lambda>r. \<not> (\<exists>og\<in>set (changed_origins stored live). is_origin_external og r)) (t_symbols db) \<and>
    read_stored_hashes db' = (Inr live, db') \<and>
    invalidate_changed_lockfiles hash F db' = (Inr [], db')"
proof -
  have "purged_upto db [] db" using ok by (simp add: purged_upto_def)
  from purge_if_returns[OF this, of "lh_cargo stored \<noteq> lh_cargo live" SourceOrigin.CargoRegistry "[]"] free
  obtain p1 d1 where s1: "purge_if (lh_cargo stored \<noteq> lh_cargo live) SourceOrigin.CargoRegistry [] db = (Inr p1, d1)"
      "map fst p1 = (if lh_cargo stored \<noteq> lh_cargo live then [SourceOrigin.CargoRegistry] else [])" "purged_upto db (map fst p1) d1"
    by (auto simp: changed_origins_def)
  from purge_if_returns[OF s1(3), of "lh_npm stored \<noteq> lh_npm live" SourceOrigin.NodeModulesDts p1] free
  obtain p2 d2 where s2: "purge_if (lh_npm stored \<noteq> lh_npm live) SourceOrigin.NodeModulesDts p1 d1 = (Inr p2, d2)"
      "map fst p2 = map fst p1 @ (if lh_npm stored \<noteq> lh_npm live then [SourceOrigin.NodeModulesDts] else [])"
      "purged_upto db (map fst p2) d2"
    by (auto simp: changed_origins_def)
  from purge_if_returns[OF s2(3), of "lh_luarocks stored \<noteq> lh_luarocks live" SourceOrigin.ManualExternal p2] free
  obtain p3 d3 where s3: "purge_if (lh_luarocks stored \<noteq> lh_luarocks live) SourceOrigin.ManualExternal p2 d2 = (Inr p3, d3)"
      "map fst p3 = map fst p2 @ (if lh_luarocks stored \<noteq> lh_luarocks live then [SourceOrigin.ManualExternal] else [])"
      "purged_upto db (map fst p3) d3"
    by (auto simp: changed_origins_def)
  have fsts: "map fst p3 = changed_origins stored live"
    using s1(2) s2(2) s3(2) by (simp add: changed_origins_def)
  have "hash_rows d3"
    using rows s3(3) hash_keys_distinct by (auto simp: hash_rows_def purged_upto_def dom_def)
  note w = write_stored_hashes_run[OF this, of live]
  let ?db' = "d3\<lparr>t_schema_meta := stored_meta live (t_schema_meta d3)\<rparr>"
  have run: "invalidate_changed_lockfiles hash F db = (Inr p3, ?db')"
    using stored s1(1) s2(1) s3(1) w
    by (simp add: invalidate_changed_lockfiles_def live sbind_eq_Inr sthen_eq_Inr sx_apply)
  have read: "read_stored_hashes ?db' = (Inr live, ?db')"
    by (rule read_written[OF compute_digests[OF hash live]])
  have "hash_rows ?db'" by (simp add: hash_rows_def stored_meta_def)
  note w' = write_stored_hashes_run[OF this, of live]
  have "invalidate_changed_lockfiles hash F ?db' = (Inr [], ?db')"
    using read w'
    by (simp add: invalidate_changed_lockfiles_def live purge_if_def sbind_eq_Inr sthen_eq_Inr sx_apply stored_meta_again)
  then show ?thesis using run fsts read s3(3) by (auto simp: purged_upto_def)
qed

definition demo_external_db :: db where
  "demo_external_db = demo_db\<lparr>t_edges := [],
     t_symbols := [(demo_row 1 ''f'')\<lparr>s_is_external := True, s_source_origin := ''cargo_registry''\<rparr>, demo_row 2 ''g'']\<rparr>"

definition demo_root :: root_files where
  "demo_root = \<lparr> rf_is_file = (\<lambda>name. name = ''Cargo.lock''),
     rf_read = (\<lambda>name. if name = ''Cargo.lock'' then FileBytes [1] else FileNotFound) \<rparr>"

lemma demo_external_row:
  "sym_key ((demo_row i f)\<lparr>s_is_external := True, s_source_origin := ''cargo_registry''\<rparr>) = (''primary'', f)"
  "sym_checks ((demo_row i f)\<lparr>s_is_external := True, s_source_origin := ''cargo_registry''\<rparr>)"
  using demo_row_simps[of i f] by (simp_all add: sym_key_def sym_checks_def)

lemma demo_external_db_ok: "db_ok demo_external_db"
  by (simp add: demo_external_db_def demo_db_def init_db_def db_ok_def ok_projects_def ok_ids_def ok_files_def ok_symbols_def
      ok_edges_def ok_satellite_def ok_calls_def ok_catalog_def ok_fts_def fts_doc_def demo_file_def demo_external_row)

theorem invalidate_changed_lockfiles_exact_witness:
  "\<exists>purged db'. invalidate_changed_lockfiles (\<lambda>_. ''d'') demo_root demo_external_db = (Inr purged, db') \<and>
    map s_id (t_symbols db') = [2] \<and> invalidate_changed_lockfiles (\<lambda>_. ''d'') demo_root db' = (Inr [], db')"
proof -
  let ?none = "\<lparr> lh_cargo = None, lh_npm = None, lh_luarocks = None \<rparr>"
  let ?live = "\<lparr> lh_cargo = Some ''d'', lh_npm = None, lh_luarocks = None \<rparr>"
  have meta: "t_schema_meta demo_external_db = init_meta" by (simp add: demo_external_db_def)
  have rows: "hash_rows demo_external_db" by (simp add: hash_rows_def meta init_meta_def hash_keys)
  have stored: "read_stored_hashes demo_external_db = (Inr ?none, demo_external_db)"
    by (simp add: read_stored_hashes_def stored_value_def meta init_meta_def hash_keys)
  have live: "compute_lockfile_hashes (\<lambda>_. ''d'') demo_root = Inr ?live"
    by (simp add: compute_lockfile_hashes_def hash_file_if_exists_def npm_candidates_def demo_root_def)
  have changed: "changed_origins ?none ?live = [SourceOrigin.CargoRegistry]" by (simp add: changed_origins_def)
  have "s_is_external (demo_row 2 ''g'') = False" by (simp add: demo_row_def symbol_row_def demo_ctx_def)
  then have "map s_id (filter (\<lambda>r. \<not> is_origin_external SourceOrigin.CargoRegistry r) (t_symbols demo_external_db)) = [2]"
    by (simp add: demo_external_db_def is_origin_external_def)
  moreover have "no_edge_into P demo_external_db" for P by (simp add: no_edge_into_def demo_external_db_def)
  ultimately show ?thesis
    using invalidate_changed_lockfiles_exact[OF demo_external_db_ok rows _ live stored] unfolding changed by auto
qed

text \<open>
  The purge is a bare \<^verbatim>\<open>DELETE\<close>: an edge from a symbol that is kept into one that is to be purged makes
  it fail and leaves the database unchanged, at cold start as well as on a lockfile event.
\<close>

theorem purge_externals_blocked_by_incoming_edge:
  assumes ok: "db_ok db" and r: "r \<in> set (t_symbols db)" "is_origin_external origin r"
    and e: "e \<in> set (t_edges db)" "e_to_symbol_id e = Some (s_id r)"
    and f: "f \<in> set (t_symbols db)" "s_id f = e_from_symbol_id e" "\<not> is_origin_external origin f"
  shows "purge_externals_by_origin origin db = (Inl (Sqlite ConstraintCheck), db)"
proof -
  let ?ids = "map s_id (filter (is_origin_external origin) (t_symbols db))"
  have "s_id r \<in> set ?ids" using r by simp
  moreover have "e_from_symbol_id e \<notin> set ?ids" 
  proof
    assume "e_from_symbol_id e \<in> set ?ids"
    then obtain g where "g \<in> set (t_symbols db)" "is_origin_external origin g" "s_id g = s_id f" using f(2) by auto
    then show False using sym_id_inj[OF ok _ f(1), of g] f(3) by simp
  qed
  ultimately obtain db1 where "sfor ?ids sql_delete_symbol db = (Inl ConstraintCheck, db1)"
    using sfor_sql_delete_blocked[of "s_id r" ?ids db e] r(1) e by auto
  then show ?thesis
    by (simp add: purge_externals_by_origin_def sql_delete_symbols_where_def transaction_def sthen_def sbind_def map_err_def)
qed

end
