(* ===== verification/Config_Sxd.thy ===== *)
theory Config_Sxd
  imports Prelude
begin

text \<open>
  The workspace configuration \<^verbatim>\<open>standardoc.sxd\<close> (\<^verbatim>\<open>config/sxd.rs\<close>): lowering of the syntax tree of the
  DSL crate into the typed configuration, and the seeding of the file.  The tree is the interface of
  the third-party parser: the variants the code matches on, and one more constructor for the
  variants it rejects.  The messages of schema errors are left out.
\<close>

datatype StringPart = LitPart string | InterpPart | OtherPart

datatype Expr = StringExpr "StringPart list" | IntExpr int | ListExpr "Expr list" | OtherExpr

datatype Stmt = AssignStmt string Expr | BlockStmt string "string option" "Stmt list" | OtherStmt

datatype SxdConfigError = SxdIo | SxdParse | SxdSchema

record IgnoreBlock =
  ib_patterns :: string

record ProjectBlock =
  pb_slug :: string
  pb_label :: "string option"
  pb_paths :: "string list"

record GroupBlock =
  gb_slug :: string
  gb_label :: "string option"
  gb_members :: "string list"

record McpBlock =
  mcp_port :: "16 word option"

record VizBlock =
  viz_port :: "16 word option"

record SxdConfig =
  sxd_version :: "string option"
  sxd_ignore :: "IgnoreBlock option"
  sxd_projects :: "ProjectBlock list"
  sxd_groups :: "GroupBlock list"
  sxd_mcp :: "McpBlock option"
  sxd_viz :: "VizBlock option"

section \<open>Values\<close>

fun string_lit_to_plain :: "StringPart list \<Rightarrow> SxdConfigError + string" where
  "string_lit_to_plain [] = Inr []"
| "string_lit_to_plain (LitPart s # parts) =
    (case string_lit_to_plain parts of Inl e \<Rightarrow> Inl e | Inr rest \<Rightarrow> Inr (s @ rest))"
| "string_lit_to_plain (InterpPart # parts) = Inl SxdSchema"
| "string_lit_to_plain (OtherPart # parts) = Inl SxdSchema"

fun expect_string :: "Expr \<Rightarrow> SxdConfigError + string" where
  "expect_string (StringExpr lit) = string_lit_to_plain lit"
| "expect_string _ = Inl SxdSchema"

definition U16_MAX :: int where "U16_MAX = 65535"

fun expect_port :: "Expr \<Rightarrow> SxdConfigError + 16 word" where
  "expect_port (IntExpr n) = (if n < 1 \<or> n > U16_MAX then Inl SxdSchema else Inr (word_of_int n))"
| "expect_port _ = Inl SxdSchema"

fun string_items :: "Expr list \<Rightarrow> SxdConfigError + string list" where
  "string_items [] = Inr []"
| "string_items (item # items) =
    (case expect_string item of Inl e \<Rightarrow> Inl e | Inr s \<Rightarrow>
       (case string_items items of Inl e \<Rightarrow> Inl e | Inr ss \<Rightarrow> Inr (s # ss)))"

fun expect_string_list :: "Expr \<Rightarrow> SxdConfigError + string list" where
  "expect_string_list (ListExpr items) = string_items items"
| "expect_string_list _ = Inl SxdSchema"

section \<open>Blocks\<close>

fun lower_ignore_stmts :: "Stmt list \<Rightarrow> string \<Rightarrow> SxdConfigError + string" where
  "lower_ignore_stmts [] patterns = Inr patterns"
| "lower_ignore_stmts (AssignStmt key v # stmts) patterns =
    (if key \<noteq> ''patterns'' then Inl SxdSchema
     else case expect_string v of Inl e \<Rightarrow> Inl e | Inr p \<Rightarrow> lower_ignore_stmts stmts p)"
| "lower_ignore_stmts (_ # stmts) patterns = Inl SxdSchema"

definition lower_ignore :: "Stmt list \<Rightarrow> SxdConfigError + IgnoreBlock" where
  "lower_ignore stmts =
    (case lower_ignore_stmts stmts [] of Inl e \<Rightarrow> Inl e | Inr p \<Rightarrow> Inr \<lparr> ib_patterns = p \<rparr>)"

text \<open>The fields of a \<^verbatim>\<open>project\<close> block: label, path, paths.\<close>

fun lower_project_stmts ::
  "Stmt list \<Rightarrow> string option \<times> string option \<times> string list option \<Rightarrow>
     SxdConfigError + (string option \<times> string option \<times> string list option)" where
  "lower_project_stmts [] acc = Inr acc"
| "lower_project_stmts (AssignStmt key v # stmts) (label, path, paths) =
    (if key = ''label'' then
       (case expect_string v of Inl e \<Rightarrow> Inl e | Inr s \<Rightarrow> lower_project_stmts stmts (Some s, path, paths))
     else if key = ''path'' then
       (case expect_string v of Inl e \<Rightarrow> Inl e | Inr s \<Rightarrow> lower_project_stmts stmts (label, Some s, paths))
     else if key = ''paths'' then
       (case expect_string_list v of Inl e \<Rightarrow> Inl e | Inr ss \<Rightarrow> lower_project_stmts stmts (label, path, Some ss))
     else Inl SxdSchema)"
| "lower_project_stmts (_ # stmts) acc = Inl SxdSchema"

definition project_paths :: "string option \<Rightarrow> string list option \<Rightarrow> SxdConfigError + string list" where
  "project_paths path_single paths_multi =
    (case (path_single, paths_multi) of
       (Some _, Some _) \<Rightarrow> Inl SxdSchema
     | (Some p, None) \<Rightarrow> Inr [p]
     | (None, Some ps) \<Rightarrow> if ps = [] then Inl SxdSchema else Inr ps
     | (None, None) \<Rightarrow> Inl SxdSchema)"

definition lower_project :: "string option \<Rightarrow> Stmt list \<Rightarrow> SxdConfigError + ProjectBlock" where
  "lower_project block_label stmts =
    (case block_label of
       None \<Rightarrow> Inl SxdSchema
     | Some slug \<Rightarrow>
         (case lower_project_stmts stmts (None, None, None) of
            Inl e \<Rightarrow> Inl e
          | Inr (label, path_single, paths_multi) \<Rightarrow>
              (case project_paths path_single paths_multi of
                 Inl e \<Rightarrow> Inl e
               | Inr paths \<Rightarrow> Inr \<lparr> pb_slug = slug, pb_label = label, pb_paths = paths \<rparr>)))"

text \<open>The loop that \<^verbatim>\<open>lower_mcp\<close> and \<^verbatim>\<open>lower_viz\<close> both have.\<close>

fun lower_port_stmts :: "Stmt list \<Rightarrow> 16 word option \<Rightarrow> SxdConfigError + 16 word option" where
  "lower_port_stmts [] port = Inr port"
| "lower_port_stmts (AssignStmt key v # stmts) port =
    (if key = ''port'' then
       (case expect_port v of Inl e \<Rightarrow> Inl e | Inr p \<Rightarrow> lower_port_stmts stmts (Some p))
     else Inl SxdSchema)"
| "lower_port_stmts (_ # stmts) port = Inl SxdSchema"

definition lower_mcp :: "Stmt list \<Rightarrow> SxdConfigError + McpBlock" where
  "lower_mcp stmts = (case lower_port_stmts stmts None of Inl e \<Rightarrow> Inl e | Inr port \<Rightarrow> Inr \<lparr> mcp_port = port \<rparr>)"

definition lower_viz :: "Stmt list \<Rightarrow> SxdConfigError + VizBlock" where
  "lower_viz stmts = (case lower_port_stmts stmts None of Inl e \<Rightarrow> Inl e | Inr port \<Rightarrow> Inr \<lparr> viz_port = port \<rparr>)"

fun lower_group_stmts :: "Stmt list \<Rightarrow> string option \<times> string list \<Rightarrow> SxdConfigError + (string option \<times> string list)" where
  "lower_group_stmts [] acc = Inr acc"
| "lower_group_stmts (AssignStmt key v # stmts) (label, members) =
    (if key = ''label'' then
       (case expect_string v of Inl e \<Rightarrow> Inl e | Inr s \<Rightarrow> lower_group_stmts stmts (Some s, members))
     else if key = ''members'' then
       (case expect_string_list v of Inl e \<Rightarrow> Inl e | Inr ss \<Rightarrow> lower_group_stmts stmts (label, ss))
     else Inl SxdSchema)"
| "lower_group_stmts (_ # stmts) acc = Inl SxdSchema"

definition lower_group :: "string option \<Rightarrow> Stmt list \<Rightarrow> SxdConfigError + GroupBlock" where
  "lower_group block_label stmts =
    (case block_label of
       None \<Rightarrow> Inl SxdSchema
     | Some slug \<Rightarrow>
         (case lower_group_stmts stmts (None, []) of
            Inl e \<Rightarrow> Inl e
          | Inr (label, members) \<Rightarrow> Inr \<lparr> gb_slug = slug, gb_label = label, gb_members = members \<rparr>))"

section \<open>The file\<close>

definition lower_block :: "string \<Rightarrow> string option \<Rightarrow> Stmt list \<Rightarrow> SxdConfig \<Rightarrow> SxdConfigError + SxdConfig" where
  "lower_block kind label stmts out =
    (if kind = ''ignore'' then
       (case lower_ignore stmts of Inl e \<Rightarrow> Inl e | Inr b \<Rightarrow> Inr (out\<lparr>sxd_ignore := Some b\<rparr>))
     else if kind = ''project'' then
       (case lower_project label stmts of Inl e \<Rightarrow> Inl e | Inr b \<Rightarrow> Inr (out\<lparr>sxd_projects := sxd_projects out @ [b]\<rparr>))
     else if kind = ''group'' then
       (case lower_group label stmts of Inl e \<Rightarrow> Inl e | Inr b \<Rightarrow> Inr (out\<lparr>sxd_groups := sxd_groups out @ [b]\<rparr>))
     else if kind = ''mcp'' then
       (if sxd_mcp out \<noteq> None then Inl SxdSchema
        else case lower_mcp stmts of Inl e \<Rightarrow> Inl e | Inr b \<Rightarrow> Inr (out\<lparr>sxd_mcp := Some b\<rparr>))
     else if kind = ''viz'' then
       (if sxd_viz out \<noteq> None then Inl SxdSchema
        else case lower_viz stmts of Inl e \<Rightarrow> Inl e | Inr b \<Rightarrow> Inr (out\<lparr>sxd_viz := Some b\<rparr>))
     else Inl SxdSchema)"

fun lower_stmt :: "Stmt \<Rightarrow> SxdConfig \<Rightarrow> SxdConfigError + SxdConfig" where
  "lower_stmt (AssignStmt key v) out =
    (if key = ''version'' then
       (case expect_string v of Inl e \<Rightarrow> Inl e | Inr s \<Rightarrow> Inr (out\<lparr>sxd_version := Some s\<rparr>))
     else Inl SxdSchema)"
| "lower_stmt (BlockStmt kind label stmts) out = lower_block kind label stmts out"
| "lower_stmt OtherStmt out = Inl SxdSchema"

fun lower_stmts :: "Stmt list \<Rightarrow> SxdConfig \<Rightarrow> SxdConfigError + SxdConfig" where
  "lower_stmts [] out = Inr out"
| "lower_stmts (stmt # stmts) out =
    (case lower_stmt stmt out of Inl e \<Rightarrow> Inl e | Inr out \<Rightarrow> lower_stmts stmts out)"

definition sxd_default :: SxdConfig where
  "sxd_default = \<lparr> sxd_version = None, sxd_ignore = None, sxd_projects = [], sxd_groups = [],
     sxd_mcp = None, sxd_viz = None \<rparr>"

definition lower_file :: "Stmt list \<Rightarrow> SxdConfigError + SxdConfig" where
  "lower_file stmts = lower_stmts stmts sxd_default"

text \<open>\<^verbatim>\<open>parse\<close> is the parser of the DSL crate.\<close>

definition parse_sxd_source :: "(string \<Rightarrow> Stmt list option) \<Rightarrow> string \<Rightarrow> SxdConfigError + SxdConfig" where
  "parse_sxd_source parse source = (case parse source of None \<Rightarrow> Inl SxdParse | Some file \<Rightarrow> lower_file file)"

section \<open>Seeding\<close>

text \<open>The entries of the workspace root: a text file, a directory, or a file that cannot be read as text.\<close>

datatype root_entry = TextFile string | Directory | Unreadable

definition SXD_CONFIG_FILENAME :: string where "SXD_CONFIG_FILENAME = ''standardoc.sxd''"
definition LEGACY_STDIGNORE_FILENAME :: string where "LEGACY_STDIGNORE_FILENAME = ''.stdignore''"

definition newline :: string where "newline = [CHR 0x0A]"

definition join_lines :: "string list \<Rightarrow> string" where
  "join_lines ls = concat (map (\<lambda>l. l @ newline) ls)"

definition trim_end_newlines :: "string \<Rightarrow> string" where
  "trim_end_newlines s = rev (dropWhile (\<lambda>c. c = CHR 0x0A) (rev s))"

definition load_workspace_config ::
  "(string \<Rightarrow> Stmt list option) \<Rightarrow> (string \<rightharpoonup> root_entry) \<Rightarrow> SxdConfigError + SxdConfig option" where
  "load_workspace_config parse root =
    (case root SXD_CONFIG_FILENAME of
       None \<Rightarrow> Inr None
     | Some (TextFile source) \<Rightarrow>
         (case parse_sxd_source parse source of Inl e \<Rightarrow> Inl e | Inr cfg \<Rightarrow> Inr (Some cfg))
     | Some _ \<Rightarrow> Inl SxdIo)"

text \<open>The two texts; the dash is the UTF-8 encoding of U+2014.\<close>

definition em_dash :: string where "em_dash = [CHR 0xE2, CHR 0x80, CHR 0x94]"

definition SXD_SEED_TEMPLATE :: string where
  "SXD_SEED_TEMPLATE = join_lines
    [''# Standardoc workspace config.'',
     ''# Edit freely '' @ em_dash @ '' re-running standardoc won'' @ [CHR 0x27] @ ''t overwrite without --force.'',
     ''# See https://standardoc.miralabs.tech/docs/sxd for the full schema.'',
     '''',
     ''version \"0.1.0\"'',
     '''',
     ''ignore {'',
     ''  patterns ```'',
     ''.git/'', ''node_modules/'', ''target/'', ''dist/'', ''build/'', ''.old/'', ''*-old/'', ''test-export/'',
     ''```'',
     ''}'']"

definition render_sxd_from_stdignore :: "string \<Rightarrow> string" where
  "render_sxd_from_stdignore legacy = join_lines
    [''# Standardoc workspace config.'',
     ''# Auto-migrated from .stdignore on first cold-start (backup at .stdignore.bak).'',
     ''# Edit freely '' @ em_dash @ '' re-running standardoc won'' @ [CHR 0x27] @ ''t overwrite without --force.'',
     '''',
     ''version \"0.1.0\"'',
     '''',
     ''ignore {'',
     ''  patterns ```'',
     trim_end_newlines legacy,
     ''```'',
     ''}'']"

text \<open>\<^verbatim>\<open>False\<close> is the I/O error; a directory in the place of the backup makes the rename fail.\<close>

definition ensure_sxd_seed_at :: "(string \<rightharpoonup> root_entry) \<Rightarrow> bool \<times> (string \<rightharpoonup> root_entry)" where
  "ensure_sxd_seed_at root =
    (if root SXD_CONFIG_FILENAME \<noteq> None then (True, root)
     else case root LEGACY_STDIGNORE_FILENAME of
       Some (TextFile legacy) \<Rightarrow>
         let root = root(SXD_CONFIG_FILENAME \<mapsto> TextFile (render_sxd_from_stdignore legacy)) in
         if root ''.stdignore.bak'' = Some Directory then (False, root)
         else (True, root(''.stdignore.bak'' \<mapsto> TextFile legacy, LEGACY_STDIGNORE_FILENAME := None))
     | Some Unreadable \<Rightarrow> (False, root)
     | _ \<Rightarrow> (True, root(SXD_CONFIG_FILENAME \<mapsto> TextFile SXD_SEED_TEMPLATE)))"

section \<open>Properties\<close>

lemma expect_port_range: "expect_port v = Inr p \<Longrightarrow> v = IntExpr (uint p) \<and> 1 \<le> uint p \<and> uint p \<le> 65535"
  by (cases v) (auto simp: U16_MAX_def uint_word_of_int split: if_splits)

lemma lower_port_literal:
  "lower_port_stmts stmts port = Inr (Some p) \<Longrightarrow> port = Some p \<or> AssignStmt ''port'' (IntExpr (uint p)) \<in> set stmts"
  by (induction stmts port rule: lower_port_stmts.induct) (auto split: if_splits sum.splits dest!: expect_port_range)

lemma lower_port_range:
  "lower_port_stmts stmts port = Inr (Some p) \<Longrightarrow> (\<And>q. port = Some q \<Longrightarrow> 1 \<le> uint q \<and> uint q \<le> 65535) \<Longrightarrow>
     1 \<le> uint p \<and> uint p \<le> 65535"
  by (induction stmts port rule: lower_port_stmts.induct) (auto split: if_splits sum.splits dest!: expect_port_range)

text \<open>What a lowered configuration satisfies.\<close>

definition blocks_of :: "string \<Rightarrow> Stmt list \<Rightarrow> (string option \<times> Stmt list) list" where
  "blocks_of kind file = List.map_filter (\<lambda>s. case s of BlockStmt k l ss \<Rightarrow> if k = kind then Some (l, ss) else None | _ \<Rightarrow> None) file"

definition port_from :: "16 word option \<Rightarrow> (string option \<times> Stmt list) list \<Rightarrow> bool" where
  "port_from port blocks \<longleftrightarrow> (case port of None \<Rightarrow> True | Some p \<Rightarrow> 1 \<le> uint p \<and> uint p \<le> 65535 \<and>
     (\<exists>b\<in>set blocks. AssignStmt ''port'' (IntExpr (uint p)) \<in> set (snd b)))"

definition sxd_valid :: "Stmt list \<Rightarrow> SxdConfig \<Rightarrow> bool" where
  "sxd_valid file cfg \<longleftrightarrow>
     (\<forall>b\<in>set (sxd_projects cfg). pb_paths b \<noteq> []) \<and>
     map (Some \<circ> pb_slug) (sxd_projects cfg) = map fst (blocks_of ''project'' file) \<and>
     map (Some \<circ> gb_slug) (sxd_groups cfg) = map fst (blocks_of ''group'' file) \<and>
     length (blocks_of ''mcp'' file) = (if sxd_mcp cfg = None then 0 else 1) \<and>
     length (blocks_of ''viz'' file) = (if sxd_viz cfg = None then 0 else 1) \<and>
     port_from (Option.bind (sxd_mcp cfg) mcp_port) (blocks_of ''mcp'' file) \<and>
     port_from (Option.bind (sxd_viz cfg) viz_port) (blocks_of ''viz'' file)"

lemma lower_project_paths: "lower_project l stmts = Inr b \<Longrightarrow> pb_paths b \<noteq> [] \<and> l = Some (pb_slug b)"
  by (auto simp: lower_project_def project_paths_def split: option.splits sum.splits prod.splits if_splits)

lemma lower_group_slug: "lower_group l stmts = Inr b \<Longrightarrow> l = Some (gb_slug b)"
  by (auto simp: lower_group_def split: option.splits sum.splits prod.splits)

lemma blocks_of_snoc:
  "blocks_of kind (file @ [AssignStmt k v]) = blocks_of kind file"
  "blocks_of kind (file @ [BlockStmt k l ss]) = (if k = kind then blocks_of kind file @ [(l, ss)] else blocks_of kind file)"
  by (simp_all add: blocks_of_def List.map_filter_def)

lemma lower_port_from: "lower_port_stmts ss None = Inr port \<Longrightarrow> port_from port [(l, ss)]"
  using lower_port_literal[of ss None] lower_port_range[of ss None] by (auto simp: port_from_def split: option.splits)

lemma lower_stmt_valid:
  assumes "sxd_valid past out" "lower_stmt stmt out = Inr out'"
  shows "sxd_valid (past @ [stmt]) out'"
proof (cases stmt)
  case (AssignStmt k v)
  then show ?thesis using assms by (auto simp: sxd_valid_def blocks_of_snoc split: if_splits sum.splits)
next
  case (BlockStmt k l ss)
  have "lower_block k l ss out = Inr out'" using assms(2) BlockStmt by simp
  then consider b where "k = ''ignore''" "out' = out\<lparr>sxd_ignore := Some b\<rparr>"
    | b where "k = ''project''" "lower_project l ss = Inr b" "out' = out\<lparr>sxd_projects := sxd_projects out @ [b]\<rparr>"
    | b where "k = ''group''" "lower_group l ss = Inr b" "out' = out\<lparr>sxd_groups := sxd_groups out @ [b]\<rparr>"
    | port where "k = ''mcp''" "sxd_mcp out = None" "lower_port_stmts ss None = Inr port" "out' = out\<lparr>sxd_mcp := Some \<lparr> mcp_port = port \<rparr>\<rparr>"
    | port where "k = ''viz''" "sxd_viz out = None" "lower_port_stmts ss None = Inr port" "out' = out\<lparr>sxd_viz := Some \<lparr> viz_port = port \<rparr>\<rparr>"
    by (auto simp: lower_block_def lower_mcp_def lower_viz_def split: if_splits sum.splits)
  then show ?thesis
    using assms(1) BlockStmt
    by cases (auto simp: sxd_valid_def blocks_of_snoc lower_port_from dest!: lower_project_paths lower_group_slug)
qed (use assms in simp)

lemma lower_stmts_valid: "sxd_valid past out \<Longrightarrow> lower_stmts stmts out = Inr cfg \<Longrightarrow> sxd_valid (past @ stmts) cfg"
proof (induction stmts arbitrary: past out)
  case (Cons stmt stmts)
  then obtain out' where "lower_stmt stmt out = Inr out'" "lower_stmts stmts out' = Inr cfg" by (auto split: sum.splits)
  then show ?case using Cons.IH[OF lower_stmt_valid[OF Cons.prems(1)]] by auto
qed simp

text \<open>
  C36. Every configuration that lowers without an error is well formed: each project lists at least one
  path, projects and groups are the declared blocks in order, at most one \<^verbatim>\<open>mcp\<close> and one \<^verbatim>\<open>viz\<close> block is
  declared, and a port lies between 1 and 65535 and is the integer written in its block, unchanged by
  the narrowing to 16 bits.
\<close>

theorem lowered_config_valid:
  assumes "lower_file file = Inr cfg"
  shows "sxd_valid file cfg"
proof -
  have "sxd_valid [] sxd_default" by (simp add: sxd_valid_def sxd_default_def blocks_of_def List.map_filter_def port_from_def)
  then show ?thesis using lower_stmts_valid[where past = "[]"] assms by (simp add: lower_file_def)
qed

theorem lowered_config_valid_witness:
  "sxd_valid [BlockStmt ''mcp'' None [AssignStmt ''port'' (IntExpr 7700)],
     BlockStmt ''project'' (Some ''core'') [AssignStmt ''path'' (StringExpr [LitPart ''crates/core''])]]
   (sxd_default\<lparr>sxd_mcp := Some \<lparr> mcp_port = Some 7700 \<rparr>,
     sxd_projects := [\<lparr> pb_slug = ''core'', pb_label = None, pb_paths = [''crates/core''] \<rparr>]\<rparr>)"
  by (rule lowered_config_valid)
    (simp add: lower_file_def lower_block_def lower_mcp_def lower_project_def project_paths_def U16_MAX_def sxd_default_def)

text \<open>A file without a \<^verbatim>\<open>version\<close> is accepted.\<close>

lemma version_not_required: "lower_file [] = Inr sxd_default \<and> sxd_version sxd_default = None"
  by (simp add: lower_file_def sxd_default_def)

text \<open>
  Seeding leaves a file that the next run accepts as it is, never touches an existing configuration,
  and a migrated \<^verbatim>\<open>.stdignore\<close> survives both as the backup and verbatim inside the new file.
\<close>

lemma seed_idempotent: "ensure_sxd_seed_at root = (True, root') \<Longrightarrow> ensure_sxd_seed_at root' = (True, root')"
  by (auto simp: ensure_sxd_seed_at_def Let_def SXD_CONFIG_FILENAME_def LEGACY_STDIGNORE_FILENAME_def
      split: if_splits option.splits root_entry.splits)

lemma seed_keeps_config: "root SXD_CONFIG_FILENAME = Some e \<Longrightarrow> ensure_sxd_seed_at root = (True, root)"
  by (simp add: ensure_sxd_seed_at_def)

lemma render_keeps_patterns: "\<exists>a b. render_sxd_from_stdignore legacy = a @ trim_end_newlines legacy @ b"
proof -
  have "\<exists>a b. join_lines (xs @ y # zs) = a @ y @ b" for xs y zs by (simp add: join_lines_def) blast
  from this[of "[''# Standardoc workspace config.'',
     ''# Auto-migrated from .stdignore on first cold-start (backup at .stdignore.bak).'',
     ''# Edit freely '' @ em_dash @ '' re-running standardoc won'' @ [CHR 0x27] @ ''t overwrite without --force.'',
     '''', ''version \"0.1.0\"'', '''', ''ignore {'', ''  patterns ```'']" "trim_end_newlines legacy" "[''```'', ''}'']"]
  show ?thesis by (simp add: render_sxd_from_stdignore_def)
qed

lemma seed_migrates:
  assumes "root SXD_CONFIG_FILENAME = None" "root LEGACY_STDIGNORE_FILENAME = Some (TextFile legacy)" "root ''.stdignore.bak'' \<noteq> Some Directory"
  shows "\<exists>root'. ensure_sxd_seed_at root = (True, root') \<and> root' ''.stdignore.bak'' = Some (TextFile legacy) \<and>
    root' SXD_CONFIG_FILENAME = Some (TextFile (render_sxd_from_stdignore legacy)) \<and> root' LEGACY_STDIGNORE_FILENAME = None"
  using assms by (simp add: ensure_sxd_seed_at_def SXD_CONFIG_FILENAME_def LEGACY_STDIGNORE_FILENAME_def)

end
