(* ===== verification/Projects.thy ===== *)
theory Projects
  imports Invalidation Config_Sxd
begin

text \<open>
  Project discovery (\<^verbatim>\<open>pipeline/projects.rs\<close>) and the reaction to a changed manifest.  The scan of the
  detector crate is an argument, as are the loaded configuration and the directory tree that the
  locally registered CMake detector looks at.
\<close>

section \<open>The CMake detector\<close>

text \<open>A directory whose entries cannot be listed has \<^const>\<open>None\<close>.\<close>

datatype dir_entry = FileEntry string | DirEntry string "dir_entry list option"

definition CMAKE_CONVENTIONAL_SUBDIRS :: "string list" where
  "CMAKE_CONVENTIONAL_SUBDIRS = [''src'', ''source'', ''sources'', ''include'', ''lib'', ''tests'', ''test'']"

definition CPP_EXTS :: "string list" where
  "CPP_EXTS = [''cpp'', ''cc'', ''cxx'', ''C'', ''c++'', ''hpp'', ''hxx'', ''h++'']"

definition C_EXTS :: "string list" where
  "C_EXTS = [''c'', ''h'']"

definition has_ext :: "string list \<Rightarrow> string \<Rightarrow> bool" where
  "has_ext exts name \<longleftrightarrow> (case path_extension [name] of Some ext \<Rightarrow> ext \<in> set exts | None \<Rightarrow> False)"

text \<open>The walk below a directory, with the depth that is left.\<close>

fun subtree_walk :: "string list \<Rightarrow> nat \<Rightarrow> dir_entry list option \<Rightarrow> bool" where
  "subtree_walk exts 0 entries = False"
| "subtree_walk exts (Suc depth) None = False"
| "subtree_walk exts (Suc depth) (Some entries) =
    list_ex (\<lambda>e. case e of DirEntry name sub \<Rightarrow> subtree_walk exts depth sub | FileEntry name \<Rightarrow> has_ext exts name) entries"

definition subtree_has_any_ext :: "dir_entry list option \<Rightarrow> string list \<Rightarrow> bool" where
  "subtree_has_any_ext dir exts = subtree_walk exts 4 dir"

definition sub_dir :: "dir_entry list \<Rightarrow> string \<Rightarrow> dir_entry list option option" where
  "sub_dir entries sub = List.find (\<lambda>_. True) (List.map_filter (\<lambda>e. case e of
     DirEntry name inner \<Rightarrow> if name = sub then Some inner else None | FileEntry name \<Rightarrow> None) entries)"

definition detect_sub :: "dir_entry list \<Rightarrow> string \<Rightarrow> string list \<times> bool \<times> bool \<Rightarrow> string list \<times> bool \<times> bool" where
  "detect_sub entries sub acc =
    (case acc of (signals, has_cpp, has_c) \<Rightarrow>
     case sub_dir entries sub of
       None \<Rightarrow> (signals, has_cpp, has_c)
     | Some p \<Rightarrow>
         let (signals, has_cpp) = (if subtree_has_any_ext p CPP_EXTS
               then (signals @ [sub @ ''/<*.cpp|cc|cxx|hpp>''], True) else (signals, has_cpp))
         in if subtree_has_any_ext p C_EXTS
            then (if list_ex (\<lambda>s. prefix (sub @ ''/<*.c'') s) signals then signals else signals @ [sub @ ''/<*.c|h>''], has_cpp, True)
            else (signals, has_cpp, has_c))"

text \<open>The kind slug of the hit and its signals.\<close>

definition cmake_detect :: "dir_entry list \<Rightarrow> (string \<times> string list) option" where
  "cmake_detect entries =
    (if FileEntry ''CMakeLists.txt'' \<notin> set entries then None
     else case fold (detect_sub entries) CMAKE_CONVENTIONAL_SUBDIRS ([''CMakeLists.txt''], False, False) of
       (signals, has_cpp, has_c) \<Rightarrow>
         if \<not> (has_cpp \<or> has_c) then None
         else Some (if has_cpp then ''cpp'' else ''c'', signals))"

section \<open>Kinds and paths\<close>

definition from_kind_id :: "string \<Rightarrow> ProjectKind" where
  "from_kind_id s =
    (if s = ''rust'' then ProjectKind.Rust else if s = ''node'' then ProjectKind.Node
     else if s = ''bun'' then ProjectKind.Bun else if s = ''deno'' then ProjectKind.Deno
     else if s = ''python'' then ProjectKind.Python else if s = ''lua'' then ProjectKind.Lua
     else if s = ''c'' then ProjectKind.C else if s = ''cpp'' then ProjectKind.Cpp
     else if s = ''unknown'' then ProjectKind.Unknown else ProjectKind.Custom s)"

datatype WorkspaceKindId =
  WkCargo | WkNpm | WkPnpm | WkYarn | WkBun | WkDeno | WkGo | WkLerna | WkNx | WkTurborepo | WkMira | WkCustom string

fun from_workspace_kind_id :: "WorkspaceKindId \<Rightarrow> WorkspaceKind" where
  "from_workspace_kind_id WkCargo = WorkspaceKind.Cargo"
| "from_workspace_kind_id WkNpm = WorkspaceKind.Npm"
| "from_workspace_kind_id WkPnpm = WorkspaceKind.Pnpm"
| "from_workspace_kind_id WkYarn = WorkspaceKind.Yarn"
| "from_workspace_kind_id WkBun = WorkspaceKind.Bun"
| "from_workspace_kind_id WkDeno = WorkspaceKind.Deno"
| "from_workspace_kind_id WkGo = WorkspaceKind.Go"
| "from_workspace_kind_id WkLerna = WorkspaceKind.Lerna"
| "from_workspace_kind_id WkNx = WorkspaceKind.Nx"
| "from_workspace_kind_id WkTurborepo = WorkspaceKind.Turborepo"
| "from_workspace_kind_id WkMira = WorkspaceKind.Mira"
| "from_workspace_kind_id (WkCustom s) = WorkspaceKind.Custom s"

record DetectedProject =
  dp_kind :: string
  dp_label :: string
  dp_absolute_path :: string
  dp_rel_path :: string

record DetectionResult =
  dt_projects :: "DetectedProject list"
  dt_workspaces :: "(string \<times> WorkspaceKindId) list"

definition primary_workspace_kind :: "DetectionResult \<Rightarrow> string \<Rightarrow> WorkspaceKind option" where
  "primary_workspace_kind detected workspace_root =
    map_option (\<lambda>w. from_workspace_kind_id (snd w)) (find (\<lambda>w. fst w = workspace_root) (dt_workspaces detected))"

definition normalise_rel_path :: "string \<Rightarrow> string" where
  "normalise_rel_path rel =
    (if rel = ''.'' then [] else case strip_prefix ''./'' rel of Some r \<Rightarrow> r | None \<Rightarrow> rel)"

text \<open>\<^verbatim>\<open>Path::join\<close> on Unix: an absolute second path replaces the first.\<close>

definition path_join :: "string \<Rightarrow> string \<Rightarrow> string" where
  "path_join base rel =
    (if prefix ''/'' rel then rel else if base = [] \<or> suffix ''/'' base then base @ rel else base @ ''/'' @ rel)"

section \<open>Persisting\<close>

definition push_project :: "string \<Rightarrow> ProjectKind \<Rightarrow> string \<Rightarrow> string \<Rightarrow> ProjectInfo list \<Rightarrow> ProjectInfo list sql" where
  "push_project label kind root_path rel_path out =
    sbind (upsert_project label kind root_path rel_path) (\<lambda>project_id.
    sreturn (out @ [\<lparr> pi_project_id = project_id, pi_label = label, pi_kind = kind,
                      pi_root_path = root_path, pi_rel_path = rel_path \<rparr>]))"

definition persist_project :: "DetectedProject \<Rightarrow> ProjectInfo list \<Rightarrow> ProjectInfo list sql" where
  "persist_project d out =
    (if dp_kind d = ''unknown'' then sreturn out
     else push_project (dp_label d) (from_kind_id (dp_kind d)) (dp_absolute_path d) (normalise_rel_path (dp_rel_path d)) out)"

definition persist_projects :: "DetectedProject list \<Rightarrow> ProjectInfo list sql" where
  "persist_projects projects_in = sfold persist_project projects_in []"

definition persist_sxd_block :: "string \<Rightarrow> ProjectBlock \<Rightarrow> ProjectInfo list \<Rightarrow> ProjectInfo list sql" where
  "persist_sxd_block workspace_root block out =
    (let label = (case pb_label block of Some l \<Rightarrow> l | None \<Rightarrow> pb_slug block);
         kind = ProjectKind.Custom (pb_slug block)
     in sfold (\<lambda>path out. let rel_path = normalise_rel_path path in
                push_project label kind (path_join workspace_root rel_path) rel_path out) (pb_paths block) out)"

definition persist_sxd_projects :: "string \<Rightarrow> ProjectBlock list \<Rightarrow> ProjectInfo list sql" where
  "persist_sxd_projects workspace_root blocks = sfold (persist_sxd_block workspace_root) blocks []"

definition discover_and_persist_projects ::
  "SxdConfigError + SxdConfig option \<Rightarrow> DetectionResult \<Rightarrow> string \<Rightarrow> ProjectInfo list sql" where
  "discover_and_persist_projects config detected workspace_root =
    (case config of
       Inr (Some cfg) \<Rightarrow>
         if sxd_projects cfg \<noteq> []
         then sthen (write_workspace_kind (WorkspaceKind.Custom ''sxd'')) (persist_sxd_projects workspace_root (sxd_projects cfg))
         else sthen (case primary_workspace_kind detected workspace_root of
                Some kind \<Rightarrow> write_workspace_kind kind | None \<Rightarrow> delete_workspace_kind) (persist_projects (dt_projects detected))
     | _ \<Rightarrow> sthen (case primary_workspace_kind detected workspace_root of
                Some kind \<Rightarrow> write_workspace_kind kind | None \<Rightarrow> delete_workspace_kind) (persist_projects (dt_projects detected)))"

section \<open>Files and projects\<close>

definition project_matches :: "string \<Rightarrow> project_row \<Rightarrow> bool" where
  "project_matches path p \<longleftrightarrow> pj_rel_path p = [] \<or> path = pj_rel_path p \<or>
     take (length (pj_rel_path p) + 1) path = pj_rel_path p @ ''/''"

text \<open>\<^verbatim>\<open>ORDER BY length(p.rel_path) DESC LIMIT 1\<close>, rows of equal length in storage order.\<close>

definition deepest_project :: "project_row list \<Rightarrow> string \<Rightarrow> int option" where
  "deepest_project projects path =
    (case rev (sort_key (\<lambda>p. utf8_length (pj_rel_path p)) (rev (filter (project_matches path) projects))) of
       [] \<Rightarrow> None | p # _ \<Rightarrow> Some (pj_id p))"

definition reconcile_files_project_id :: "nat sql" where
  "reconcile_files_project_id =
    sthen (run (smodify (\<lambda>db. db\<lparr>t_files := map (\<lambda>f. f\<lparr>f_project_id := None\<rparr>) (t_files db)\<rparr>)))
    (sthen (run (smodify (\<lambda>db. db\<lparr>t_files :=
        map (\<lambda>f. f\<lparr>f_project_id := deepest_project (t_projects db) (f_path f)\<rparr>) (t_files db)\<rparr>)))
      (squery (\<lambda>db. length (t_files db))))"

definition handle_manifest_change ::
  "SxdConfigError + SxdConfig option \<Rightarrow> DetectionResult \<Rightarrow> string \<Rightarrow> string list \<Rightarrow> unit option sql" where
  "handle_manifest_change config detected workspace_root abs_path =
    (if \<not> is_manifest_file abs_path then sreturn None
     else sthen (discover_and_persist_projects config detected workspace_root)
         (sthen reconcile_files_project_id (sreturn (Some ()))))"

section \<open>Invariant\<close>

lemma keeps_update_project:
  assumes "\<And>r. pj_id (g r) = pj_id r" "\<And>r. pj_root_path (g r) = pj_root_path r"
  shows "keeps db_ok (smodify (update_project i g))"
proof (rule keepsI)
  fix db assume ok: "db_ok db"
  let ?rows = "map (\<lambda>r. if pj_id r = i then g r else r) (t_projects db)"
  have ids: "map pj_id ?rows = map pj_id (t_projects db)" and roots: "map pj_root_path ?rows = map pj_root_path (t_projects db)"
    using assms by auto
  have "pj_id ` set ?rows = pj_id ` set (t_projects db)" using arg_cong[OF ids, of set] by (simp only: set_map)
  moreover from this have "\<forall>r\<in>set ?rows. pj_id r \<le> project_seq db"
    using db_ok_subD(1)[OF ok] by (metis (no_types, lifting) image_iff ok_ids_def ok_projects_def)
  then have "ok_projects ?rows (project_seq db)"
    using db_ok_subD(1)[OF ok] unfolding ok_projects_def ok_ids_def ids roots by simp
  ultimately show "db_ok (snd (smodify (update_project i g) db))"
    using ok by (simp add: db_ok_def update_project_def)
qed

lemma keeps_upsert_project [keeps_intros]: "keeps db_ok (upsert_project l k r p)"
  unfolding upsert_project_def project_find_by_root_path_def opt_project_def insert_project_def
  by (intro keeps_intros keeps_update_project) simp_all

lemma keeps_discover [keeps_intros]: "keeps db_ok (discover_and_persist_projects config detected root)"
proof -
  have "keeps db_ok (write_workspace_kind k)" "keeps db_ok delete_workspace_kind" for k
    unfolding write_workspace_kind_def delete_workspace_kind_def by (auto intro!: keepsI simp: set_meta_def db_ok_def)
  moreover have "keeps db_ok (persist_projects ps)" "keeps db_ok (persist_sxd_projects root bs)" for ps bs
    unfolding persist_projects_def persist_project_def persist_sxd_projects_def persist_sxd_block_def push_project_def Let_def
    by (intro keeps_intros)+
  ultimately show ?thesis unfolding discover_and_persist_projects_def by (intro keeps_intros)
qed

section \<open>Properties\<close>

lemma deepest_project_spec:
  "case deepest_project projects path of
     None \<Rightarrow> \<forall>p\<in>set projects. \<not> project_matches path p
   | Some i \<Rightarrow> \<exists>p\<in>set projects. pj_id p = i \<and> project_matches path p \<and>
       (\<forall>q\<in>set projects. project_matches path q \<longrightarrow> utf8_length (pj_rel_path q) \<le> utf8_length (pj_rel_path p))"
proof -
  let ?len = "\<lambda>p. utf8_length (pj_rel_path p)"
  let ?s = "sort_key ?len (rev (filter (project_matches path) projects))"
  have set: "set (rev ?s) = {p \<in> set projects. project_matches path p}" by auto
  have sorted: "sorted (map ?len ?s)" by simp
  show ?thesis
  proof (cases "rev ?s")
    case Nil
    then show ?thesis using set by (auto simp: deepest_project_def)
  next
    case (Cons p ps)
    then have s: "?s = rev ps @ [p]" by (metis rev.simps(2) rev_rev_ident)
    have "?len q \<le> ?len p" if "q \<in> set (rev ?s)" for q
      using sorted that unfolding Cons s by (auto simp: sorted_append)
    moreover have "p \<in> set (rev ?s)" unfolding Cons by simp
    ultimately show ?thesis using Cons set by (auto simp: deepest_project_def)
  qed
qed

lemma reconcile_run:
  "reconcile_files_project_id db = (Inr (length (t_files db)),
     db\<lparr>t_files := map (\<lambda>f. f\<lparr>f_project_id := deepest_project (t_projects db) (f_path f)\<rparr>) (t_files db)\<rparr>)"
  by (simp add: reconcile_files_project_id_def sthen_def sbind_def map_err_def)

lemma keeps_reconcile [keeps_intros]: "keeps db_ok reconcile_files_project_id"
proof (rule keepsI)
  fix db assume ok: "db_ok db"
  let ?fs = "map (\<lambda>f. f\<lparr>f_project_id := deepest_project (t_projects db) (f_path f)\<rparr>) (t_files db)"
  have paths: "map f_path ?fs = map f_path (t_files db)" by simp
  have "case deepest_project (t_projects db) p of None \<Rightarrow> True | Some i \<Rightarrow> i \<in> pj_id ` set (t_projects db)" for p
    using deepest_project_spec[of "t_projects db" p] by (auto split: option.splits)
  then have "ok_files ?fs (pj_id ` set (t_projects db))"
    using db_ok_subD(2)[OF ok] unfolding ok_files_def paths by auto
  moreover have "f_path ` set ?fs = file_paths db" by (simp add: image_image)
  ultimately show "db_ok (snd (reconcile_files_project_id db))"
    using ok unfolding reconcile_run by (simp add: db_ok_def)
qed

text \<open>
  After the reconciliation every file belongs to its deepest project: a file has no project exactly
  when no project root contains its path, and otherwise the one with the longest root among those that
  do.  The pass cannot fail, and apart from the project column nothing changes.
\<close>

theorem reconcile_assigns_deepest_project:
  "\<exists>db'. reconcile_files_project_id db = (Inr (length (t_files db)), db') \<and>
    db'\<lparr>t_files := t_files db\<rparr> = db \<and>
    list_all2 (\<lambda>f f'. f'\<lparr>f_project_id := f_project_id f\<rparr> = f \<and>
      (case f_project_id f' of
         None \<Rightarrow> \<forall>p\<in>set (t_projects db). \<not> project_matches (f_path f) p
       | Some i \<Rightarrow> \<exists>p\<in>set (t_projects db). pj_id p = i \<and> project_matches (f_path f) p \<and>
           (\<forall>q\<in>set (t_projects db). project_matches (f_path f) q \<longrightarrow>
              utf8_length (pj_rel_path q) \<le> utf8_length (pj_rel_path p)))) (t_files db) (t_files db')"
  unfolding reconcile_run using deepest_project_spec[of "t_projects db"]
  by (auto simp: list_all2_conv_all_nth)

text \<open>Two projects: the root and \<^verbatim>\<open>ext/vscode\<close>.\<close>

definition demo_projects_db :: db where
  "demo_projects_db = init_db\<lparr>t_files := [demo_file\<lparr>f_path := ''ext/vscode/src/main.ts''\<rparr>, demo_file\<lparr>f_path := ''ext/vscode_old.ts''\<rparr>],
     t_projects := [\<lparr> pj_id = 1, pj_label = ''root'', pj_kind = ''rust'', pj_root_path = ''/w'', pj_rel_path = [] \<rparr>,
                    \<lparr> pj_id = 2, pj_label = ''vscode'', pj_kind = ''bun'', pj_root_path = ''/w/ext/vscode'', pj_rel_path = ''ext/vscode'' \<rparr>],
     project_seq := 2\<rparr>"

theorem reconcile_assigns_deepest_project_witness:
  "\<exists>db'. reconcile_files_project_id demo_projects_db = (Inr 2, db') \<and> map f_project_id (t_files db') = [Some 2, Some 1]"
proof -
  obtain db' where r: "reconcile_files_project_id demo_projects_db = (Inr 2, db')"
    and l: "list_all2 (\<lambda>f f'. f'\<lparr>f_project_id := f_project_id f\<rparr> = f \<and>
      (case f_project_id f' of
         None \<Rightarrow> \<forall>p\<in>set (t_projects demo_projects_db). \<not> project_matches (f_path f) p
       | Some i \<Rightarrow> \<exists>p\<in>set (t_projects demo_projects_db). pj_id p = i \<and> project_matches (f_path f) p \<and>
           (\<forall>q\<in>set (t_projects demo_projects_db). project_matches (f_path f) q \<longrightarrow>
              utf8_length (pj_rel_path q) \<le> utf8_length (pj_rel_path p)))) (t_files demo_projects_db) (t_files db')"
    using reconcile_assigns_deepest_project[of demo_projects_db] by (auto simp: demo_projects_db_def)
  have len: "utf8_length ''ext/vscode'' = 10" "utf8_length [] = 0" by code_simp+
  show ?thesis
    using r l by (auto simp: demo_projects_db_def list_all2_Cons1 project_matches_def len split: option.splits)
qed

end
