(* ===== verification/Cold_Start.thy ===== *)
theory Cold_Start
  imports Writer Resolver Seed Ffi_Resolve C_Join Peer_Import Projects
begin

text \<open>
  The cold start as a whole: path helpers (\<^verbatim>\<open>pipeline/paths.rs\<close>), the processing of one file and the
  re-index of a list of paths (\<^verbatim>\<open>pipeline/reindex.rs\<close>), the walk, the chunks and the passes
  (\<^verbatim>\<open>pipeline/cold_start.rs\<close>) and the extraction of a peer (\<^verbatim>\<open>pipeline/peer_extract.rs\<close>).

  Arguments of the model: the language provider (its result may depend on the paths handed to
  \<^verbatim>\<open>workspace_prepare\<close> and on the answers of the resolver), the source tree (what the directory walk
  yields under the directory filter, what reading a path gives, which relative paths the filters
  skip), the digest function, the clock readings and the pause flag at each chunk.  A chunk is
  processed in parallel by reads only, so the model processes it in order.
\<close>

section \<open>paths.rs\<close>

definition SUPPORTED_EXTENSIONS :: "string list" where
  "SUPPORTED_EXTENSIONS = [''rs'', ''ts'', ''tsx'', ''js'', ''jsx'', ''lua'', ''vue'', ''svelte'', ''c'', ''h'']"

definition has_supported_extension :: "string list \<Rightarrow> bool" where
  "has_supported_extension path \<longleftrightarrow>
     (case path_extension path of Some e \<Rightarrow> e \<in> set SUPPORTED_EXTENSIONS | None \<Rightarrow> False)"

definition backslash_to_slash :: "string \<Rightarrow> string" where
  "backslash_to_slash s = map (\<lambda>c. if c = CHR 0x5C then CHR ''/'' else c) s"

fun join_components :: "string list \<Rightarrow> string" where
  "join_components [] = []"
| "join_components [c] = c"
| "join_components (c # d # cs) = c @ ''/'' @ join_components (d # cs)"

definition to_workspace_relative :: "string list \<Rightarrow> string list \<Rightarrow> string option" where
  "to_workspace_relative abs_path workspace_root =
    (case path_strip_prefix workspace_root abs_path of
       None \<Rightarrow> None
     | Some rel \<Rightarrow> (let s = backslash_to_slash (join_components rel) in if s = [] then None else Some s))"

definition guess_language :: "string \<Rightarrow> Language option" where
  "guess_language rel_path =
    (case rsplit_dot rel_path of
       None \<Rightarrow> None
     | Some (_, ext) \<Rightarrow>
         if ext = ''rs'' then Some Language.Rust
         else if ext = ''ts'' \<or> ext = ''tsx'' then Some Language.TypeScript
         else if ext = ''js'' \<or> ext = ''jsx'' then Some Language.JavaScript
         else if ext = ''lua'' then Some Language.Lua
         else if ext = ''vue'' then Some Language.Vue
         else if ext = ''svelte'' then Some Language.Svelte
         else if ext = ''c'' \<or> ext = ''h'' then Some Language.C
         else None)"

section \<open>UTF-8\<close>

definition in_range :: "nat \<Rightarrow> nat \<Rightarrow> 8 word \<Rightarrow> bool" where
  "in_range lo hi b \<longleftrightarrow> lo \<le> unat b \<and> unat b \<le> hi"

abbreviation cont :: "8 word \<Rightarrow> bool" where
  "cont \<equiv> in_range 0x80 0xBF"

text \<open>The byte sequences \<^verbatim>\<open>String::from_utf8\<close> accepts.\<close>

fun valid_utf8 :: "8 word list \<Rightarrow> bool" where
  "valid_utf8 [] = True"
| "valid_utf8 (a # bs) =
    (if in_range 0 0x7F a then valid_utf8 bs
     else case bs of
       [] \<Rightarrow> False
     | b # cs \<Rightarrow>
         if in_range 0xC2 0xDF a \<and> cont b then valid_utf8 cs
         else (case cs of
           [] \<Rightarrow> False
         | c # ds \<Rightarrow>
             if (unat a = 0xE0 \<and> in_range 0xA0 0xBF b \<or> in_range 0xE1 0xEC a \<and> cont b \<or>
                 unat a = 0xED \<and> in_range 0x80 0x9F b \<or> in_range 0xEE 0xEF a \<and> cont b) \<and> cont c then valid_utf8 ds
             else (case ds of
               [] \<Rightarrow> False
             | d # es \<Rightarrow>
                 (unat a = 0xF0 \<and> in_range 0x90 0xBF b \<or> in_range 0xF1 0xF3 a \<and> cont b \<or>
                  unat a = 0xF4 \<and> in_range 0x80 0x8F b) \<and> cont c \<and> cont d \<and> valid_utf8 es)))"

definition from_utf8 :: "8 word list \<Rightarrow> string option" where
  "from_utf8 bytes = (if valid_utf8 bytes then Some (map (\<lambda>b. char_of (unat b)) bytes) else None)"

section \<open>The arguments\<close>

datatype ExtractError = ExtractParse string | ExtractIo | UnsupportedLanguage

type_synonym answers = "string \<Rightarrow> string \<Rightarrow> CrossWorkspaceLookup"

record provider =
  pv_extract :: "string list \<Rightarrow> string list \<Rightarrow> answers option \<Rightarrow> string \<Rightarrow> string \<Rightarrow> ExtractError + ExtractedFile"
  pv_edge_builtins :: "BuiltinEntry list"
  pv_edge_builtin_methods :: "BuiltinMethodEntry list"

datatype walk_entry = WalkError | WalkEntry "string list" bool

record source_tree =
  st_root :: "string list"
  st_walk :: "walk_entry list"
  st_read :: "string list \<Rightarrow> 8 word list option"
  st_skipped :: "string \<Rightarrow> bool"

record run_env =
  re_penv :: "string \<Rightarrow> penv"
  re_hash :: "8 word list \<Rightarrow> Blake3Hash"
  re_builtin_order :: "(Language \<times> BuiltinEntry list) list \<Rightarrow> (Language \<times> BuiltinEntry list) list"
  re_method_order :: "(Language \<times> BuiltinMethodEntry list) list \<Rightarrow> (Language \<times> BuiltinMethodEntry list) list"
  re_ffi_order :: "ffi_groups \<Rightarrow> ffi_groups"
  re_codec :: codec
  re_config :: "SxdConfigError + SxdConfig option"
  re_detected :: DetectionResult
  re_root_text :: string
  re_now :: int
  re_open_index :: "string \<Rightarrow> peer_index"
  re_peer_tree :: "string \<Rightarrow> source_tree option"

datatype ColdStartError = CsStorage StorageError | CsIo | CsWalk

type_synonym 'a cold = "(db, ColdStartError, 'a) sx"

abbreviation storage :: "'a sql \<Rightarrow> 'a cold" where
  "storage \<equiv> map_err CsStorage"

text \<open>\<^verbatim>\<open>let _ = \<close> before a call, or \<^verbatim>\<open>if let Err(e) = \<close> with a log line: the result is dropped.\<close>

definition quietly :: "(db, 'e, 'a) sx \<Rightarrow> (db, 'f, unit) sx" where
  "quietly m = (\<lambda>db. (Inr (), snd (m db)))"

section \<open>reindex.rs\<close>

definition process_one :: "run_env \<Rightarrow> provider \<Rightarrow> string list \<Rightarrow> source_tree \<Rightarrow> string list \<Rightarrow> Outcome option sql" where
  "process_one R P prepared T abs_path =
    (case to_workspace_relative abs_path (st_root T) of
       None \<Rightarrow> sreturn None
     | Some rel \<Rightarrow>
         (case st_read T abs_path of
            None \<Rightarrow> sreturn None
          | Some bytes \<Rightarrow>
              sbind (hash_matches_db rel (re_hash R bytes)) (\<lambda>same.
              if same then sreturn (Some (Skip rel))
              else case from_utf8 bytes of
                None \<Rightarrow> sreturn None
              | Some content \<Rightarrow>
                  sbind (squery (\<lambda>db. db)) (\<lambda>db.
                  case pv_extract P prepared (st_root T) (Some (compute (re_codec R) db)) content rel of
                    Inr extracted \<Rightarrow>
                      sreturn (Some (Upsert rel (fst (rewrite_cross_workspace_edges (db_resolve (re_codec R) db)
                        (extracted\<lparr>ef_content_hash := re_hash R bytes\<rparr>) Map.empty))))
                  | Inl (ExtractParse detail) \<Rightarrow>
                      (case guess_language rel of
                         None \<Rightarrow> sreturn None
                       | Some language \<Rightarrow> sreturn (Some (ParseError rel language detail)))
                  | Inl ExtractIo \<Rightarrow> sreturn None
                  | Inl UnsupportedLanguage \<Rightarrow> sreturn None))))"

definition push_outcome :: "Outcome option \<Rightarrow> Outcome list \<Rightarrow> Outcome list" where
  "push_outcome o' outcomes = (case o' of None \<Rightarrow> outcomes | Some x \<Rightarrow> outcomes @ [x])"

definition with_env :: "run_env \<Rightarrow> Outcome \<Rightarrow> penv \<times> Outcome" where
  "with_env R o' = (re_penv R (o_rel o'), o')"

text \<open>\<^verbatim>\<open>e.eq_ignore_ascii_case("rs")\<close> on the extension of a relative path\<close>

definition is_rust_path :: "string \<Rightarrow> bool" where
  "is_rust_path rel \<longleftrightarrow> (case path_extension [rel] of
     Some e \<Rightarrow> map ascii_lower e = ''rs'' | None \<Rightarrow> False)"

definition collect_candidate :: "source_tree \<Rightarrow> walk_entry \<Rightarrow> string list list \<Rightarrow> ColdStartError + string list list" where
  "collect_candidate T entry out =
    (case entry of
       WalkError \<Rightarrow> Inl CsWalk
     | WalkEntry path is_file \<Rightarrow>
         if \<not> is_file then Inr out
         else if \<not> has_supported_extension path then Inr out
         else (case to_workspace_relative path (st_root T) of
            None \<Rightarrow> Inr out
          | Some rel \<Rightarrow> if st_skipped T rel then Inr out else Inr (out @ [path])))"

fun collect_loop :: "source_tree \<Rightarrow> walk_entry list \<Rightarrow> string list list \<Rightarrow> ColdStartError + string list list" where
  "collect_loop T [] out = Inr out"
| "collect_loop T (entry # entries) out =
    (case collect_candidate T entry out of Inl e \<Rightarrow> Inl e | Inr out \<Rightarrow> collect_loop T entries out)"

definition collect_candidates :: "source_tree \<Rightarrow> ColdStartError + string list list" where
  "collect_candidates T = collect_loop T (st_walk T) []"

definition rel_candidates :: "source_tree \<Rightarrow> string list list \<Rightarrow> string list" where
  "rel_candidates T candidates = List.map_filter (\<lambda>p. to_workspace_relative p (st_root T)) candidates"

text \<open>\<^verbatim>\<open>last_prepared\<close> is the list of the previous \<^verbatim>\<open>workspace_prepare\<close>; \<^verbatim>\<open>join\<close> gives the absolute path of a relative one.\<close>

definition reindex_prepare :: "source_tree \<Rightarrow> string list \<Rightarrow> string list \<Rightarrow> ColdStartError + string list" where
  "reindex_prepare T last_prepared paths =
    (if list_ex is_rust_path paths
     then (case collect_candidates T of Inl e \<Rightarrow> Inl e | Inr candidates \<Rightarrow> Inr (rel_candidates T candidates))
     else Inr last_prepared)"

definition reindex_paths ::
  "run_env \<Rightarrow> provider \<Rightarrow> bool \<Rightarrow> string list \<Rightarrow> source_tree \<Rightarrow> (string \<Rightarrow> string list) \<Rightarrow> string list \<Rightarrow> unit cold" where
  "reindex_paths R P paused last_prepared T join paths =
    (if paths = [] \<or> paused then sreturn ()
     else sbind (slift (reindex_prepare T last_prepared paths)) (\<lambda>prepared.
          sbind (storage (sfold (\<lambda>rel outcomes.
                   if st_skipped T rel then sreturn outcomes
                   else sbind (process_one R P prepared T (join rel)) (\<lambda>o'. sreturn (push_outcome o' outcomes))) paths [])) (\<lambda>outcomes.
          storage (commit_outcomes (map (with_env R) outcomes)))))"

section \<open>cold\_start.rs: chunks\<close>

definition SUB_BATCH_SIZE :: nat where
  "SUB_BATCH_SIZE = 100"

definition u64_of :: "nat \<Rightarrow> 64 word" where
  "u64_of n = (if n < 2 ^ 64 then of_nat n else - 1)"

definition u64_saturating_add :: "64 word \<Rightarrow> 64 word \<Rightarrow> 64 word" where
  "u64_saturating_add a b = (if unat a + unat b < 2 ^ 64 then a + b else - 1)"

text \<open>\<^verbatim>\<open>slice::chunks\<close>\<close>

function chunks :: "nat \<Rightarrow> 'a list \<Rightarrow> 'a list list" where
  "chunks n xs = (if xs = [] \<or> n = 0 then [] else take n xs # chunks n (drop n xs))"
  by pat_completeness auto
termination by (relation "measure (\<lambda>(n, xs). length xs)") auto

declare chunks.simps [simp del]

definition process_chunk :: "run_env \<Rightarrow> provider \<Rightarrow> string list \<Rightarrow> source_tree \<Rightarrow> string list list \<Rightarrow> Outcome list sql" where
  "process_chunk R P prepared T chunk =
    sfold (\<lambda>abs_path outcomes.
      sbind (process_one R P prepared T abs_path) (\<lambda>o'. sreturn (push_outcome o' outcomes))) chunk []"

text \<open>
  The loop over the chunks; \<^verbatim>\<open>paused i\<close> is the pause flag before chunk \<^verbatim>\<open>i\<close>.  The result is the
  list of the paths seen, or \<^term>\<open>None\<close> when the run returned at a pause.
\<close>

fun chunk_loop ::
  "run_env \<Rightarrow> provider \<Rightarrow> string list \<Rightarrow> source_tree \<Rightarrow> 64 word \<Rightarrow> (nat \<Rightarrow> bool) \<Rightarrow> nat \<Rightarrow> string list list list
     \<Rightarrow> string list \<Rightarrow> 64 word \<Rightarrow> string list option cold" where
  "chunk_loop R P prepared T ttl paused i [] seen dn = sreturn (Some seen)"
| "chunk_loop R P prepared T ttl paused i (chunk # rest) seen dn =
    (if paused i then sreturn None
     else sbind (storage (process_chunk R P prepared T chunk)) (\<lambda>outcomes.
          sthen (storage (commit_outcomes (map (with_env R) outcomes)))
          (let dn = u64_saturating_add dn (u64_of (length chunk)) in
           sthen (storage (set_progress dn ttl))
             (chunk_loop R P prepared T ttl paused (Suc i) rest (seen @ map o_rel outcomes) dn))))"

section \<open>peer\_extract.rs\<close>

datatype PeerExtractStatus = PeerOk | PeerSkippedInactive | PeerSkippedMissing | PeerFailed string

record PeerExtractStats =
  pes_workspace_id :: string
  pes_root_path :: string
  pes_status :: PeerExtractStatus
  pes_files_extracted :: nat
  pes_files_skipped_unchanged :: nat
  pes_files_parse_errors :: nat

definition peer_hash_matches_db :: "string \<Rightarrow> Blake3Hash \<Rightarrow> bool sql" where
  "peer_hash_matches_db scoped_path new_hash =
    squery (\<lambda>db. case lookup_by f_path scoped_path (t_files db) of
      None \<Rightarrow> False | Some r \<Rightarrow> f_content_hash r = to_hex new_hash)"

text \<open>The loop body: the counters are extracted, unchanged, parse errors.\<close>

definition extract_peer_file ::
  "run_env \<Rightarrow> provider \<Rightarrow> string list \<Rightarrow> source_tree \<Rightarrow> string \<Rightarrow> 64 word \<Rightarrow> string list \<Rightarrow> nat \<times> nat \<times> nat
     \<Rightarrow> (nat \<times> nat \<times> nat) sql" where
  "extract_peer_file R P prepared T workspace_id next_revision abs_path counts =
    (case counts of (extracted_count, skipped_count, parse_error_count) \<Rightarrow>
     case to_workspace_relative abs_path (st_root T) of
       None \<Rightarrow> sreturn counts
     | Some rel \<Rightarrow>
         let scoped = peer_path workspace_id rel in
         (case st_read T abs_path of
            None \<Rightarrow> sreturn counts
          | Some bytes \<Rightarrow>
              sbind (peer_hash_matches_db scoped (re_hash R bytes)) (\<lambda>same.
              if same then sreturn (extracted_count, skipped_count + 1, parse_error_count)
              else (case from_utf8 bytes of
                None \<Rightarrow> sreturn counts
              | Some content \<Rightarrow>
                  (case pv_extract P prepared (st_root T) None content rel of
                     Inr extracted \<Rightarrow>
                       sthen (apply_upsert_file (re_penv R scoped)
                           (scope_extracted_paths (extracted\<lparr>ef_content_hash := re_hash R bytes\<rparr>) workspace_id)
                           next_revision workspace_id)
                         (sreturn (extracted_count + 1, skipped_count, parse_error_count))
                   | Inl e \<Rightarrow>
                       (case e of
                          ExtractParse detail \<Rightarrow>
                            sthen (case guess_language rel of
                                None \<Rightarrow> sreturn ()
                              | Some lang \<Rightarrow> record_parse_error (re_penv R scoped) scoped lang detail)
                              (sreturn (extracted_count, skipped_count, parse_error_count + 1))
                        | ExtractIo \<Rightarrow> sreturn counts
                        | UnsupportedLanguage \<Rightarrow> sreturn counts))))))"

definition extract_peer_workspace ::
  "run_env \<Rightarrow> provider \<Rightarrow> string list \<Rightarrow> LinkedWorkspace \<Rightarrow> PeerExtractStats cold" where
  "extract_peer_workspace R P prepared peer =
    (let base = \<lparr> pes_workspace_id = lw_workspace_id peer, pes_root_path = lw_root_path peer, pes_status = PeerOk,
                  pes_files_extracted = 0, pes_files_skipped_unchanged = 0, pes_files_parse_errors = 0 \<rparr>
     in if lw_status peer \<noteq> Active then sreturn (base\<lparr>pes_status := PeerSkippedInactive\<rparr>)
        else (case re_peer_tree R (lw_root_path peer) of
          None \<Rightarrow> sreturn (base\<lparr>pes_status := PeerSkippedMissing\<rparr>)
        | Some T \<Rightarrow>
            sbind (slift (collect_candidates T)) (\<lambda>candidates.
            sbind (squery handle_revision) (\<lambda>revision.
            sbind (storage (transaction (sfold
                (extract_peer_file R P prepared T (lw_workspace_id peer) (saturating_succ revision))
                candidates (0, 0, 0)))) (\<lambda>(extracted_count, skipped_count, parse_error_count).
            sthen (storage (swhen (0 < extracted_count \<or> 0 < parse_error_count) handle_bump_revision))
              (sreturn (base\<lparr>pes_files_extracted := extracted_count, pes_files_skipped_unchanged := skipped_count,
                             pes_files_parse_errors := parse_error_count\<rparr>)))))))"

section \<open>cold\_start.rs: the run\<close>

definition process_peer :: "run_env \<Rightarrow> provider \<Rightarrow> string list \<Rightarrow> LinkedWorkspace \<Rightarrow> unit cold" where
  "process_peer R P prepared peer =
    (case lw_indexing_mode peer of
       BlobImport \<Rightarrow> quietly (import_peer_workspace (re_now R) (re_open_index R) peer)
     | Extract \<Rightarrow> quietly (extract_peer_workspace R P prepared peer))"

definition process_peers_quietly :: "run_env \<Rightarrow> provider \<Rightarrow> string list \<Rightarrow> unit cold" where
  "process_peers_quietly R P prepared =
    (\<lambda>db. case list_linked_workspaces db of
       (Inl e, db') \<Rightarrow> (Inr (), db')
     | (Inr peers, db') \<Rightarrow> sfor peers (process_peer R P prepared) db')"

definition discover_projects_quietly :: "run_env \<Rightarrow> unit cold" where
  "discover_projects_quietly R =
    quietly (discover_and_persist_projects (re_config R) (re_detected R) (re_root_text R))"

definition reconcile_projects_quietly :: "unit cold" where
  "reconcile_projects_quietly = quietly reconcile_files_project_id"

definition apply_resolve_unresolved_quietly :: "codec \<Rightarrow> unit cold" where
  "apply_resolve_unresolved_quietly K = quietly (apply_resolve_unresolved K)"

text \<open>What runs once every chunk is committed.\<close>

definition finish_run :: "run_env \<Rightarrow> provider \<Rightarrow> string list \<Rightarrow> string list \<Rightarrow> unit cold" where
  "finish_run R P prepared seen =
    sthen (storage (cleanup_unseen seen))
    (sthen reconcile_projects_quietly
    (sthen (process_peers_quietly R P prepared)
    (sthen (storage apply_c_join_quietly)
    (sthen (storage (apply_ffi_resolve_quietly (re_codec R) (re_ffi_order R)))
    (sthen (apply_resolve_unresolved_quietly (re_codec R))
    (storage clear_progress))))))"

definition cold_start_run :: "run_env \<Rightarrow> provider \<Rightarrow> source_tree \<Rightarrow> (nat \<Rightarrow> bool) \<Rightarrow> unit cold" where
  "cold_start_run R P T paused =
    sthen (discover_projects_quietly R)
    (sthen (storage (seed_quietly (re_codec R) (re_builtin_order R) (pv_edge_builtins P)))
    (sthen (storage (seed_methods_quietly (re_codec R) (re_method_order R) (pv_edge_builtin_methods P)))
    (sbind (slift (collect_candidates T)) (\<lambda>candidates.
     let ttl = u64_of (length candidates); prepared = rel_candidates T candidates in
     sthen (storage (set_progress 0 ttl))
    (sbind (chunk_loop R P prepared T ttl paused 0 (chunks SUB_BATCH_SIZE candidates) [] 0) (\<lambda>r.
     case r of None \<Rightarrow> sreturn () | Some seen \<Rightarrow> finish_run R P prepared seen))))))"

section \<open>The invariant\<close>

lemma keeps_quietly [keeps_intros]: "keeps I m \<Longrightarrow> keeps I (quietly m)"
  by (simp add: keeps_def quietly_def)

lemma keeps_let [keeps_intros]: "(\<And>x. keeps I (f x)) \<Longrightarrow> keeps I (HOL.Let z f)"
  by simp

lemma keeps_extract_error [keeps_intros]:
  "(\<And>d. keeps I (f d)) \<Longrightarrow> keeps I m \<Longrightarrow> keeps I n \<Longrightarrow>
     keeps I (case z of ExtractParse d \<Rightarrow> f d | ExtractIo \<Rightarrow> m | UnsupportedLanguage \<Rightarrow> n)"
  by (cases z) auto

lemma keeps_seed_lang [keeps_intros]: "keeps db_ok (seed_lang K mk entry n)"
  unfolding seed_lang_def seed_symbol_def by (intro keeps_intros)

lemma keeps_seed [keeps_intros]:
  "keeps db_ok (seed_quietly K ord1 entries)" "keeps db_ok (seed_methods_quietly K ord2 methods)"
proof -
  have "keeps db_ok (seed_into K ord1 entries)" "keeps db_ok (seed_methods_into K ord2 methods)"
    unfolding seed_into_def seed_methods_into_def by (intro keeps_intros)+
  then show "keeps db_ok (seed_quietly K ord1 entries)" "keeps db_ok (seed_methods_quietly K ord2 methods)"
    by (simp_all add: keeps_def seed_quietly_def seed_methods_quietly_def)
qed

lemma keeps_join_decl [keeps_intros]: "keeps db_ok (join_decl w d report)"
  unfolding join_decl_def find_defs_by_name_def
  by (intro keeps_intros) (auto split: list.split intro!: keeps_intros)

lemma keeps_c_join [keeps_intros]: "keeps db_ok apply_c_join_quietly"
proof -
  have "keeps db_ok apply_c_join_primary"
    unfolding apply_c_join_primary_def c_join_run_pass_def collect_decls_def by (intro keeps_intros)
  then show ?thesis by (simp add: keeps_def apply_c_join_quietly_def)
qed

lemma keeps_ffi_resolve [keeps_intros]: "keeps db_ok (apply_ffi_resolve_quietly K ord)"
proof -
  have "keeps db_ok (ffi_run_pass K ord)"
    unfolding ffi_run_pass_def ffi_group_def ffi_match_def ffi_edge_exists_def by (intro keeps_intros)
  then show ?thesis by (simp add: keeps_def apply_ffi_resolve_quietly_def)
qed

lemma keeps_resolve_unresolved [keeps_intros]: "keeps db_ok (apply_resolve_unresolved K)"
  unfolding apply_resolve_unresolved_def apply_update_def by (intro keeps_intros or_ignore_id)

lemma keeps_import_peer [keeps_intros]: "keeps db_ok (import_peer_workspace now open_index peer)"
proof -
  have "keeps db_ok (do_import now peer_db w)" for peer_db w
    unfolding do_import_def by (intro keeps_intros keeps_insert_lookup) auto
  then have "db_ok (snd (do_import now peer_db w s))" if "db_ok s" for peer_db w s
    using that by (rule keepsD)
  moreover have "snd (import_peer_workspace now open_index peer s) =
      (case open_index (lw_root_path peer) of PeerOpened peer_db \<Rightarrow>
         if lw_status peer = Active then snd (do_import now peer_db (lw_workspace_id peer) s) else s | _ \<Rightarrow> s)" for s
    by (auto simp: import_peer_workspace_def Let_def sx_apply split: peer_index.split prod.split sum.split)
  ultimately show ?thesis by (auto simp: keeps_def split: peer_index.split)
qed

lemma keeps_extract_peer_file [keeps_intros]: "keeps db_ok (extract_peer_file R P prepared T w rv p counts)"
  unfolding extract_peer_file_def peer_hash_matches_db_def by (intro keeps_intros)

lemma keeps_extract_peer [keeps_intros]: "keeps db_ok (extract_peer_workspace R P prepared peer)"
  unfolding extract_peer_workspace_def by (intro keeps_intros)
lemma keeps_process_one [keeps_intros]: "keeps I (process_one R P prepared T p)"
  unfolding process_one_def hash_matches_db_def
  by (intro keeps_intros)

lemma keeps_process_chunk [keeps_intros]: "keeps I (process_chunk R P prepared T ps)"
  unfolding process_chunk_def by (intro keeps_intros)

lemma keeps_chunk_loop [keeps_intros]: "keeps db_ok (chunk_loop R P prepared T ttl paused i cs seen dn)"
  by (induction R P prepared T ttl paused i cs seen dn rule: chunk_loop.induct)
    (auto simp: set_progress_def Let_def intro!: keeps_intros)

lemma keeps_process_peers [keeps_intros]: "keeps db_ok (process_peers_quietly R P prepared)"
proof -
  have peer: "keeps db_ok (process_peer R P prepared peer)" for peer
    unfolding process_peer_def by (cases "lw_indexing_mode peer") (auto intro!: keeps_intros)
  have "keeps db_ok list_linked_workspaces"
    unfolding list_linked_workspaces_def linked_push_def by (intro keeps_intros)
  note list_ok = keeps_result[OF this]
  have "db_ok (snd (sfor peers (process_peer R P prepared) db))" if "db_ok db" for db peers
    using keepsD[OF keeps_sfor[OF peer] that] .
  then show ?thesis
    unfolding process_peers_quietly_def keeps_def using list_ok by (auto split: prod.split sum.split)
qed

lemma keeps_finish_run [keeps_intros]: "keeps db_ok (finish_run R P prepared seen)"
  unfolding finish_run_def reconcile_projects_quietly_def apply_resolve_unresolved_quietly_def clear_progress_def
  by (intro keeps_intros)


section \<open>Files and languages\<close>

section \<open>One file\<close>

text \<open>The extractor reports the path it was given.\<close>

definition honest_provider :: "provider \<Rightarrow> bool" where
  "honest_provider P \<longleftrightarrow>
     (\<forall>prepared root answers content rel x. pv_extract P prepared root answers content rel = Inr x \<longrightarrow> ef_file x = rel)"

definition outcome_at :: "run_env \<Rightarrow> provider \<Rightarrow> string list \<Rightarrow> source_tree \<Rightarrow> db \<Rightarrow> string list \<Rightarrow> Outcome option" where
  "outcome_at R P prepared T db p = (case fst (process_one R P prepared T p db) of Inl _ \<Rightarrow> None | Inr o' \<Rightarrow> o')"

lemma process_one_run: "process_one R P prepared T p db = (Inr (outcome_at R P prepared T db p), db)"
proof -
  have "snd (process_one R P prepared T p db) = db"
    using keepsD[OF keeps_process_one[where I = "\<lambda>s. s = db"], of db R P prepared T p] by simp
  moreover have "\<exists>o'. fst (process_one R P prepared T p db) = Inr o'"
    by (auto simp: process_one_def hash_matches_db_def sx_apply split: option.split sum.split ExtractError.split)
  ultimately show ?thesis by (cases "process_one R P prepared T p db") (auto simp: outcome_at_def)
qed

lemma process_chunk_run:
  "process_chunk R P prepared T ps db = (Inr (List.map_filter (outcome_at R P prepared T db) ps), db)"
proof -
  let ?g = "outcome_at R P prepared T db"
  have "sfold (\<lambda>p outcomes. sbind (process_one R P prepared T p) (\<lambda>o'. sreturn (push_outcome o' outcomes))) ps
      acc db = (Inr (acc @ List.map_filter ?g ps), db)" for acc
    by (induction ps arbitrary: acc)
      (auto simp: sbind_def process_one_run sx_apply List.map_filter_def push_outcome_def split: option.split)
  from this[of "[]"] show ?thesis by (simp add: process_chunk_def)
qed

text \<open>What an outcome says about the file it was made from.\<close>

definition outcome_of_file :: "run_env \<Rightarrow> source_tree \<Rightarrow> db \<Rightarrow> string list \<Rightarrow> Outcome \<Rightarrow> bool" where
  "outcome_of_file R T db p o' \<longleftrightarrow> (\<exists>bytes. to_workspace_relative p (st_root T) = Some (o_rel o') \<and> st_read T p = Some bytes \<and>
     (case o' of
        Skip rel \<Rightarrow> \<exists>r. lookup_by f_path rel (t_files db) = Some r \<and> f_content_hash r = to_hex (re_hash R bytes)
      | Upsert rel x \<Rightarrow> ef_file x = rel \<and> ef_content_hash x = re_hash R bytes
      | ParseError rel l detail \<Rightarrow> True))"

lemma rewrite_keeps_file [simp]:
  "ef_file (fst (rewrite_cross_workspace_edges resolver x st)) = ef_file x"
  "ef_content_hash (fst (rewrite_cross_workspace_edges resolver x st)) = ef_content_hash x"
  by (auto simp: rewrite_cross_workspace_edges_def split: option.split prod.split)

lemma outcome_at_sound:
  assumes "honest_provider P" and "outcome_at R P prepared T db p = Some o'"
  shows "outcome_of_file R T db p o'"
proof -
  have law: "pv_extract P prepared root answers content rel = Inr x \<Longrightarrow> ef_file x = rel" for root answers content rel x
    using assms(1) by (auto simp: honest_provider_def)
  show ?thesis
    using assms(2) unfolding outcome_at_def process_one_def hash_matches_db_def outcome_of_file_def
    by (auto simp: sx_apply dest: law split: option.splits sum.splits ExtractError.splits if_splits)
qed

section \<open>Committing the outcomes\<close>

abbreviation file_at :: "string \<Rightarrow> db \<Rightarrow> file_row option" where
  "file_at rel db \<equiv> lookup_by f_path rel (t_files db)"

text \<open>The row left behind by an outcome.\<close>

fun outcome_row :: "db \<Rightarrow> db \<Rightarrow> Outcome \<Rightarrow> bool" where
  "outcome_row db db' (Skip rel) \<longleftrightarrow> file_at rel db' = file_at rel db"
| "outcome_row db db' (Upsert rel x) \<longleftrightarrow>
     (\<exists>r. file_at rel db' = Some r \<and> f_content_hash r = to_hex (ef_content_hash x) \<and> f_last_scan_error r = None)"
| "outcome_row db db' (ParseError rel l detail) \<longleftrightarrow>
     (\<exists>r. file_at rel db' = Some r \<and> f_last_scan_error r = Some detail)"

fun own_file :: "Outcome \<Rightarrow> bool" where
  "own_file (Upsert rel x) \<longleftrightarrow> ef_file x = rel"
| "own_file _ \<longleftrightarrow> True"

lemma upserted_rows:
  assumes "t_files db' = upsert_by f_path merge_file row (t_files db)"
  shows "q \<noteq> f_path row \<Longrightarrow> file_at q db' = file_at q db"
    and "\<exists>r. file_at (f_path row) db' = Some r \<and> f_content_hash r = f_content_hash row \<and>
           f_last_scan_error r = f_last_scan_error row"
  using assms files_tab.lookup_upsert_same[of row "t_files db"] files_tab.lookup_upsert_other[of q row "t_files db"]
  by (auto simp: merge_file_def split: option.splits)

lemma parse_error_table:
  assumes "record_parse_error E p l detail db = (Inr (), db')"
  obtains row where "t_files db' = upsert_by f_path merge_file row (t_files db)"
    "f_path row = p" "f_last_scan_error row = Some detail"
proof -
  have path: "fi_path f = p" if "get_file p s = (Inr (Some f), t)" for s t f
    using that by (auto simp: get_file_def sbind_def sx_apply build_file_input_def
        dest!: lookup_by_Some split: option.splits sum.splits if_splits)
  have same: "t = s" if "get_file p s = (r, t)" for s t r
    using that by (auto simp: get_file_def sbind_def sx_apply split: option.splits sum.splits)
  show ?thesis
    using assms that path same unfolding record_parse_error_def upsert_file_def sql_upsert_file_def
    by (fastforce elim!: sbind_InrE simp: sx_apply split: if_splits option.splits)
qed

lemma commit_outcome_rows:
  assumes "commit_outcome rv (E, o') db = (Inr (), db')" "own_file o'"
  shows "q \<noteq> o_rel o' \<Longrightarrow> file_at q db' = file_at q db" and "outcome_row db db' o'"
proof -
  have "(q \<noteq> o_rel o' \<longrightarrow> file_at q db' = file_at q db) \<and> outcome_row db db' o'"
  proof (cases o')
    case (Upsert rel x)
    obtain row where "t_files db' = upsert_by f_path merge_file row (t_files db)"
        "f_path row = ef_file x" "f_content_hash row = to_hex (ef_content_hash x)" "f_last_scan_error row = None"
      using upsert_file_table[of E x rv PRIMARY_WORKSPACE_ID db db'] assms(1) Upsert by auto
    then show ?thesis using upserted_rows[of db' row db] assms(2) Upsert by auto
  next
    case (ParseError rel l detail)
    obtain row where "t_files db' = upsert_by f_path merge_file row (t_files db)"
        "f_path row = rel" "f_last_scan_error row = Some detail"
      using parse_error_table[of E rel l detail db db'] assms(1) ParseError by auto
    then show ?thesis using upserted_rows[of db' row db] ParseError by auto
  next
    case (Skip rel)
    then show ?thesis using assms(1) by (simp add: sx_apply)
  qed
  then show "q \<noteq> o_rel o' \<Longrightarrow> file_at q db' = file_at q db" "outcome_row db db' o'" by auto
qed

lemma outcome_row_frame:
  "outcome_row db db' o' \<Longrightarrow> file_at (o_rel o') db0 = file_at (o_rel o') db \<Longrightarrow>
     file_at (o_rel o') db1 = file_at (o_rel o') db' \<Longrightarrow> outcome_row db0 db1 o'"
  by (cases o') auto

lemma commit_loop_rows:
  assumes "sfor (map (with_env R) os) (commit_outcome rv) db = (Inr (), db')"
    and "distinct (map o_rel os)" and "\<forall>o'\<in>set os. own_file o'"
  shows "(\<forall>q. q \<notin> o_rel ` set os \<longrightarrow> file_at q db' = file_at q db) \<and> (\<forall>o'\<in>set os. outcome_row db db' o')"
  using assms
proof (induction os arbitrary: db)
  case Nil
  then show ?case by (simp add: sx_apply)
next
  case (Cons o' os)
  obtain db1 where run: "commit_outcome rv (with_env R o') db = (Inr (), db1)"
      "sfor (map (with_env R) os) (commit_outcome rv) db1 = (Inr (), db')"
    using Cons.prems(1) by (auto elim: sthen_InrE)
  note head = commit_outcome_rows[OF run(1)[unfolded with_env_def]]
  have tail: "(\<forall>q. q \<notin> o_rel ` set os \<longrightarrow> file_at q db' = file_at q db1) \<and> (\<forall>o'\<in>set os. outcome_row db1 db' o')"
    using Cons.IH[OF run(2)] Cons.prems by simp
  have "outcome_row db db' o'"
    using head(2) tail Cons.prems(2,3) outcome_row_frame[of db db1 o' db db'] by simp
  moreover have "outcome_row db db' o2" if "o2 \<in> set os" for o2
  proof -
    have "o_rel o2 \<noteq> o_rel o'" using that Cons.prems(2) by (auto simp: image_iff)
    then have "file_at (o_rel o2) db1 = file_at (o_rel o2) db" using head(1) Cons.prems(3) by simp
    then show ?thesis using tail that outcome_row_frame[of db1 db' o2 db db'] by simp
  qed
  moreover have "file_at q db' = file_at q db" if "q \<notin> o_rel ` set (o' # os)" for q
    using tail head(1)[of q] that Cons.prems(3) by simp
  ultimately show ?case by (simp only: set_simps ball_simps) blast
qed

lemma commit_outcomes_rows:
  assumes "commit_outcomes (map (with_env R) os) db = (Inr (), db')"
    and "distinct (map o_rel os)" and "\<forall>o'\<in>set os. own_file o'"
  shows "(\<forall>q. q \<notin> o_rel ` set os \<longrightarrow> file_at q db' = file_at q db) \<and> (\<forall>o'\<in>set os. outcome_row db db' o')"
proof (cases "list_all (\<lambda>(E, o'). is_skip o') (map (with_env R) os)")
  case True
  then have "db' = db" "\<forall>o'\<in>set os. is_skip o'"
    using assms(1) by (auto simp: commit_outcomes_def sx_apply list_all_iff with_env_def)
  moreover have "outcome_row db db o'" if "is_skip o'" for o'
    using that by (cases o') (auto simp: is_skip_def)
  ultimately show ?thesis by simp
next
  case False
  then obtain db1 where run: "sfor (map (with_env R) os) (commit_outcome (saturating_succ (handle_revision db))) db = (Inr (), db1)"
      "handle_bump_revision db1 = (Inr (), db')"
    using assms(1) unfolding commit_outcomes_def if_not_P[OF False]
    by (auto elim!: sthen_InrE simp: transaction_Inr)
  have "t_files db' = t_files db1"
    using run(2) by (auto simp: handle_bump_revision_def bump_revision_def update_meta_def split: option.splits)
  moreover have "outcome_row db db' o' \<longleftrightarrow> outcome_row db db1 o'" for o'
    using calculation by (cases o') auto
  ultimately show ?thesis using commit_loop_rows[OF run(1) assms(2,3)] by simp
qed

section \<open>The walk\<close>

text \<open>
  The row of a path holds the digest of what is on disk, or the error of a version that did not parse;
  \<^verbatim>\<open>ps\<close> are the walked files.
\<close>

definition recorded :: "run_env \<Rightarrow> source_tree \<Rightarrow> string list set \<Rightarrow> db \<Rightarrow> string \<Rightarrow> bool" where
  "recorded R T ps db rel \<longleftrightarrow>
     (\<exists>p\<in>ps. \<exists>bytes r. to_workspace_relative p (st_root T) = Some rel \<and> st_read T p = Some bytes \<and>
        file_at rel db = Some r \<and> (f_content_hash r = to_hex (re_hash R bytes) \<or> f_last_scan_error r \<noteq> None))"

lemma recorded_frame: "recorded R T ps db rel \<Longrightarrow> file_at rel db' = file_at rel db \<Longrightarrow> recorded R T ps db' rel"
  by (simp add: recorded_def)

lemma outcome_rels:
  assumes "honest_provider P"
  shows "map o_rel (List.map_filter (outcome_at R P prepared T db) ps) =
    List.map_filter (\<lambda>p. map_option o_rel (outcome_at R P prepared T db p)) ps"
    and "subseq (map o_rel (List.map_filter (outcome_at R P prepared T db) ps)) (rel_candidates T ps)"
proof -
  show eq: "map o_rel (List.map_filter (outcome_at R P prepared T db) ps) =
    List.map_filter (\<lambda>p. map_option o_rel (outcome_at R P prepared T db p)) ps"
    by (induction ps) (auto simp: List.map_filter_simps split: option.split)
  have "to_workspace_relative p (st_root T) = Some (o_rel o')" if "outcome_at R P prepared T db p = Some o'" for p o'
    using outcome_at_sound[OF assms that] by (auto simp: outcome_of_file_def)
  then show "subseq (map o_rel (List.map_filter (outcome_at R P prepared T db) ps)) (rel_candidates T ps)"
    by (induction ps) (auto simp: rel_candidates_def List.map_filter_simps split: option.split)
qed

lemma outcome_recorded:
  assumes "outcome_of_file R T db p o'" "outcome_row db db' o'" "p \<in> ps"
  shows "recorded R T ps db' (o_rel o')"
  using assms by (cases o') (fastforce simp: outcome_of_file_def recorded_def)+

lemma chunk_recorded:
  assumes honest: "honest_provider P" and dist: "distinct (rel_candidates T chunk)" and sub: "set chunk \<subseteq> ps"
    and run: "commit_outcomes (map (with_env R) os) db = (Inr (), db')"
    and os: "os = List.map_filter (outcome_at R P prepared T db) chunk"
  shows "rel \<in> o_rel ` set os \<Longrightarrow> recorded R T ps db' rel"
    and "q \<notin> o_rel ` set os \<Longrightarrow> file_at q db' = file_at q db"
    and "o_rel ` set os \<subseteq> set (rel_candidates T chunk)"
proof -
  have sq: "subseq (map o_rel os) (rel_candidates T chunk)" unfolding os by (rule outcome_rels(2)[OF honest])
  have src: "\<exists>p\<in>ps. outcome_of_file R T db p o'" if o: "o' \<in> set os" for o'
  proof -
    obtain p where "p \<in> set chunk" "outcome_at R P prepared T db p = Some o'"
      using o unfolding os set_map_filter by auto
    then show ?thesis using sub outcome_at_sound[OF honest] by blast
  qed
  have "own_file o'" if "outcome_of_file R T db p o'" for p o'
    using that by (cases o') (auto simp: outcome_of_file_def)
  then have own: "\<forall>o'\<in>set os. own_file o'" using src by blast
  note rows = commit_outcomes_rows[OF run subseq_distinct_key[OF sq dist] own]
  show "rel \<in> o_rel ` set os \<Longrightarrow> recorded R T ps db' rel" using rows src outcome_recorded by blast
  show "q \<notin> o_rel ` set os \<Longrightarrow> file_at q db' = file_at q db" using rows by blast
  show "o_rel ` set os \<subseteq> set (rel_candidates T chunk)" using subseq_set[OF sq] by simp
qed

lemma chunk_loop_recorded:
  assumes "chunk_loop R P prepared T ttl paused i cs seen dn db = (Inr (Some seen'), db')"
    and "honest_provider P" and "distinct (rel_candidates T (concat cs))" and "set (concat cs) \<subseteq> ps"
    and "set seen \<inter> set (rel_candidates T (concat cs)) = {}" and "\<forall>rel\<in>set seen. recorded R T ps db rel"
  shows "\<forall>rel\<in>set seen'. recorded R T ps db' rel"
  using assms
proof (induction R P prepared T ttl paused i cs seen dn arbitrary: db rule: chunk_loop.induct)
  case (1 R P prepared T ttl paused i seen dn)
  then show ?case by (simp add: sx_apply)
next
  case (2 R P prepared T ttl paused i chunk rest seen dn)
  let ?os = "List.map_filter (outcome_at R P prepared T db) chunk"
  have np: "\<not> paused i" using "2.prems"(1) by (auto simp: sx_apply)
  obtain db1 db2 where run: "commit_outcomes (map (with_env R) ?os) db = (Inr (), db1)"
      "set_progress (u64_saturating_add dn (u64_of (length chunk))) ttl db1 = (Inr (), db2)"
      "chunk_loop R P prepared T ttl paused (Suc i) rest (seen @ map o_rel ?os)
         (u64_saturating_add dn (u64_of (length chunk))) db2 = (Inr (Some seen'), db')"
    using "2.prems"(1) np by (auto simp: Let_def process_chunk_run elim!: sthen_InrE sbind_InrE)
  have f: "t_files db2 = t_files db1"
    using run(2) by (auto simp: set_progress_def write_progress_value_def update_meta_def split: option.splits)
  have rels: "rel_candidates T (concat (chunk # rest)) = rel_candidates T chunk @ rel_candidates T (concat rest)"
    by (simp add: rel_candidates_def List.map_filter_def)
  have d: "distinct (rel_candidates T chunk)" "set chunk \<subseteq> ps" using "2.prems"(3,4) unfolding rels by auto
  note chunk = chunk_recorded[OF "2.prems"(2) d run(1) refl]
  have "recorded R T ps db2 rel" if "rel \<in> set (seen @ map o_rel ?os)" for rel
  proof (cases "rel \<in> o_rel ` set ?os")
    case True
    show ?thesis by (rule recorded_frame[OF chunk(1)[OF True]]) (simp add: f)
  next
    case False
    then show ?thesis using chunk(2)[OF False] that "2.prems"(6) f by (auto intro: recorded_frame)
  qed
  moreover have "set (seen @ map o_rel ?os) \<inter> set (rel_candidates T (concat rest)) = {}"
    using "2.prems"(3,5) chunk(3) unfolding rels by auto
  ultimately show ?case
    using "2.IH"[OF np refl run(3)] "2.prems"(2-4) rels by simp
qed

lemma concat_chunks [simp]: "0 < n \<Longrightarrow> concat (chunks n xs) = xs"
  by (induction n xs rule: chunks.induct) (subst chunks.simps, auto)

lemma lookup_filter:
  "(\<And>r. key r = k \<Longrightarrow> Q r) \<Longrightarrow> lookup_by key k (filter Q rows) = lookup_by key k rows"
  by (induction rows) (auto simp: lookup_by_def)

text \<open>
  C4. When the chunks of a cold start are all committed and the clean-up has run, the table of files
  mirrors the tree: every row that is not of an external file belongs to a walked file that could be
  read, and holds the digest of its bytes or the error of a version that does not parse; and every
  file an outcome was made for has its row.  The provider is assumed to report the path it was given
  and the walk not to yield two files with one relative path.
\<close>

theorem index_mirrors_tree:
  assumes honest: "honest_provider P" and dist: "distinct (rel_candidates T candidates)" and ok: "db_ok db"
    and loop: "chunk_loop R P prepared T ttl paused 0 (chunks SUB_BATCH_SIZE candidates) [] 0 db = (Inr (Some seen), db1)"
    and clean: "cleanup_unseen seen db1 = (Inr (), db2)"
  shows "(\<forall>r\<in>set (t_files db2). f_is_external r \<or> recorded R T (set candidates) db2 (f_path r)) \<and>
    set seen \<subseteq> f_path ` set (t_files db2)"
proof -
  have rec: "\<forall>rel\<in>set seen. recorded R T (set candidates) db1 rel"
    using chunk_loop_recorded[OF loop honest, of "set candidates"] dist by (simp add: SUB_BATCH_SIZE_def)
  have ok1: "db_ok db1" using keeps_result[OF keeps_chunk_loop ok loop] .
  have files: "t_files db2 = filter (\<lambda>r. f_is_external r \<or> f_path r \<in> set seen) (t_files db1)"
    using cleanup_unseen_run[OF ok1, of seen] clean by auto
  have at: "file_at rel db2 = file_at rel db1" if "rel \<in> set seen" for rel
    unfolding files using that by (intro lookup_filter) simp
  have rec2: "recorded R T (set candidates) db2 rel" if "rel \<in> set seen" for rel
    using recorded_frame[of R T "set candidates" db1 rel db2] rec at that by simp
  then have "\<forall>r\<in>set (t_files db2). f_is_external r \<or> recorded R T (set candidates) db2 (f_path r)"
    unfolding files by auto
  moreover have "set seen \<subseteq> f_path ` set (t_files db2)"
    using rec2 by (force simp: recorded_def dest: lookup_by_Some)
  ultimately show ?thesis ..
qed

section \<open>Resuming\<close>

lemma outcome_at_skip:
  assumes "to_workspace_relative p (st_root T) = Some rel" "st_read T p = Some bytes"
    "file_at rel db = Some r" "f_content_hash r = to_hex (re_hash R bytes)"
  shows "outcome_at R P prepared T db p = Some (Skip rel)"
  using assms by (simp add: outcome_at_def process_one_def hash_matches_db_def sx_apply)

text \<open>The row of every walked file holds the digest of its bytes.\<close>

definition up_to_date :: "run_env \<Rightarrow> source_tree \<Rightarrow> string list list \<Rightarrow> db \<Rightarrow> bool" where
  "up_to_date R T ps db \<longleftrightarrow>
     list_all (\<lambda>p. case (to_workspace_relative p (st_root T), st_read T p) of
        (Some rel, Some bytes) \<Rightarrow>
          (case file_at rel db of Some r \<Rightarrow> f_content_hash r = to_hex (re_hash R bytes) | None \<Rightarrow> False)
      | _ \<Rightarrow> False) ps"

lemma up_to_date_frame: "t_files db' = t_files db \<Longrightarrow> up_to_date R T ps db' = up_to_date R T ps db"
  unfolding up_to_date_def by (rule arg_cong[where f = "\<lambda>Q. list_all Q ps"]) (auto split: option.split)

lemma up_to_date_outcomes:
  "up_to_date R T ps db \<Longrightarrow>
     List.map_filter (outcome_at R P prepared T db) ps = map Skip (rel_candidates T ps)"
proof (induction ps)
  case (Cons p ps)
  then obtain rel bytes r where "to_workspace_relative p (st_root T) = Some rel" "st_read T p = Some bytes"
      "file_at rel db = Some r" "f_content_hash r = to_hex (re_hash R bytes)"
    by (auto simp: up_to_date_def split: option.splits)
  then show ?case
    using Cons outcome_at_skip[of p T rel bytes db r R]
    by (simp add: up_to_date_def rel_candidates_def List.map_filter_simps)
qed (simp add: rel_candidates_def List.map_filter_simps)

lemma set_progress_run: "\<exists>M. set_progress dn ttl db = (Inr (), db\<lparr>t_schema_meta := M\<rparr>)"
proof (cases "t_schema_meta db ''cold_start_progress''")
  case None
  then have "set_progress dn ttl db = (Inr (), db)"
    by (simp add: set_progress_def write_progress_value_def update_meta_def)
  then show ?thesis by (intro exI[of _ "t_schema_meta db"]) simp
qed (auto simp: set_progress_def write_progress_value_def update_meta_def set_meta_def)


section \<open>Candidates\<close>

lemma collect_loop_run:
  "collect_loop T es out =
    (if WalkError \<in> set es then Inl CsWalk
     else Inr (out @ List.map_filter (\<lambda>e. case e of WalkError \<Rightarrow> None | WalkEntry p f \<Rightarrow>
        (case to_workspace_relative p (st_root T) of None \<Rightarrow> None
         | Some rel \<Rightarrow> if f \<and> has_supported_extension p \<and> \<not> st_skipped T rel then Some p else None)) es))"
  by (induction es arbitrary: out)
    (auto simp: collect_candidate_def List.map_filter_simps split: walk_entry.split option.split)

lemma path_strip_prefix_Some: "path_strip_prefix base path = Some rel \<Longrightarrow> path = base @ rel"
  by (induction base path rule: path_strip_prefix.induct) (auto split: if_splits)

lemma join_components_last: "cs \<noteq> [] \<Longrightarrow> \<exists>pre. join_components cs = pre @ last cs"
proof (induction cs rule: join_components.induct)
  case (3 c d cs)
  then obtain pre where "join_components (d # cs) = pre @ last (d # cs)" by auto
  then show ?case by (intro exI[of _ "c @ ''/'' @ pre"]) simp
qed auto

lemma rsplit_dot_append: "CHR ''.'' \<notin> set e \<Longrightarrow> rsplit_dot (x @ CHR ''.'' # e) = Some (x, e)"
  by (simp add: rsplit_dot_def split_once_append)

lemma rsplit_dot_Some: "rsplit_dot s = Some (x, e) \<Longrightarrow> s = x @ CHR ''.'' # e"
  by (auto simp: rsplit_dot_def dest!: split_once_Some) (metis append.assoc append_Cons append_Nil rev.simps(2) rev_append rev_rev_ident)

text \<open>A file the walk accepts has a language, so its parse error is always recorded.\<close>

lemma guess_language_supported:
  assumes "has_supported_extension p" "to_workspace_relative p root = Some rel"
  shows "guess_language rel \<noteq> None"
proof -
  obtain cs where cs: "p = root @ cs" "join_components cs \<noteq> []" "rel = backslash_to_slash (join_components cs)"
    using assms(2) by (cases "path_strip_prefix root p")
      (auto simp: to_workspace_relative_def backslash_to_slash_def Let_def
        dest!: path_strip_prefix_Some split: if_splits)
  then have ne: "cs \<noteq> []" by auto
  then obtain pre where pre: "join_components cs = pre @ last cs" using join_components_last by blast
  obtain stem e where e: "last cs = stem @ CHR ''.'' # e" "e \<in> set SUPPORTED_EXTENSIONS"
    using assms(1) cs(1) ne
    by (auto simp: has_supported_extension_def path_extension_def path_file_name_def bind_eq_Some_conv
        dest: rsplit_dot_Some split: option.splits if_splits prod.splits)
  have e': "backslash_to_slash e = e" "CHR ''.'' \<notin> set e"
    using e(2) by (auto simp: SUPPORTED_EXTENSIONS_def backslash_to_slash_def)
  have "rel = backslash_to_slash (pre @ stem) @ CHR ''.'' # backslash_to_slash e"
    by (simp add: cs(3) pre e(1) backslash_to_slash_def)
  then have "rsplit_dot rel = Some (backslash_to_slash (pre @ stem), e)" using e' rsplit_dot_append by simp
  then show ?thesis using e(2) by (auto simp: guess_language_def SUPPORTED_EXTENSIONS_def)
qed

section \<open>Peers\<close>

lemma peer_file_frame:
  assumes "extract_peer_file R P prepared T w rv p counts db = (Inr counts', db')" "honest_provider P"
    and "\<forall>rel. q \<noteq> peer_path w rel"
  shows "file_at q db' = file_at q db"
proof -
  have law: "pv_extract P prepared root answers content rel = Inr x \<Longrightarrow> ef_file x = rel" for root answers content rel x
    using assms(2) by (auto simp: honest_provider_def)
  have scoped: "ef_file (scope_extracted_paths x w) = peer_path w (ef_file x)" for x
    by (simp add: scope_extracted_paths_def peer_path_def Let_def)
  have ups: "file_at q t = file_at q s"
    if run: "apply_upsert_file E (scope_extracted_paths (x\<lparr>ef_content_hash := h\<rparr>) w) rv w s = (Inr (), t)" for E x h s t
    using run
  proof (rule upsert_file_table)
    fix row
    assume "t_files t = upsert_by f_path merge_file row (t_files s)"
      "f_path row = ef_file (scope_extracted_paths (x\<lparr>ef_content_hash := h\<rparr>) w)"
    then show ?thesis using upserted_rows(1)[of t row s q] assms(3) scoped by simp
  qed
  have err: "file_at q t = file_at q s" if run: "record_parse_error E (peer_path w rel) l detail s = (Inr (), t)" for E rel l detail s t
    using run
  proof (rule parse_error_table)
    fix row
    assume "t_files t = upsert_by f_path merge_file row (t_files s)" "f_path row = peer_path w rel"
    then show ?thesis using upserted_rows(1)[of t row s q] assms(3) by simp
  qed
  show ?thesis
    using assms(1) unfolding extract_peer_file_def peer_hash_matches_db_def
    by (auto simp: sx_apply Let_def ups err split: prod.splits option.splits sum.splits ExtractError.splits if_splits
        elim!: sthen_InrE)
qed

lemma peer_loop_frame:
  assumes "sfold (extract_peer_file R P prepared T w rv) ps counts db = (Inr counts', db')" "honest_provider P"
    and "\<forall>rel. q \<noteq> peer_path w rel"
  shows "file_at q db' = file_at q db"
  using assms(1)
proof (induction ps arbitrary: counts db)
  case (Cons p ps)
  then obtain c db1 where run: "extract_peer_file R P prepared T w rv p counts db = (Inr c, db1)"
      "sfold (extract_peer_file R P prepared T w rv) ps c db1 = (Inr counts', db')"
    by (auto elim: sbind_InrE)
  then show ?case using Cons.IH peer_file_frame[OF run(1) assms(2,3)] by simp
qed (simp add: sx_apply)

lemma handle_bump_run: "\<exists>M. handle_bump_revision s = (Inr (), s\<lparr>t_schema_meta := M\<rparr>)"
proof (cases "t_schema_meta s REVISION_KEY")
  case None
  then have "handle_bump_revision s = (Inr (), s)" by (simp add: handle_bump_revision_def bump_revision_def update_meta_def)
  then show ?thesis by (intro exI[of _ "t_schema_meta s"]) simp
qed (auto simp: handle_bump_revision_def bump_revision_def update_meta_def set_meta_def)

lemma extract_peer_cases:
  assumes "extract_peer_workspace R P prepared peer db = (r, db')"
  shows "db' = db \<or> (\<exists>T rv ps counts db1 M st.
    sfold (extract_peer_file R P prepared T (lw_workspace_id peer) rv) ps (0, 0, 0) db = (Inr counts, db1) \<and>
    (db' = db1 \<or> db' = db1\<lparr>t_schema_meta := M\<rparr>) \<and> r = Inr st)"
proof (cases "lw_status peer = Active")
  case True
  show ?thesis
  proof (cases "re_peer_tree R (lw_root_path peer)")
    case None
    then show ?thesis using assms True by (simp add: extract_peer_workspace_def sx_apply)
  next
    case (Some T)
    show ?thesis
    proof (cases "collect_candidates T")
      case (Inl e)
      then show ?thesis using assms True Some by (simp add: extract_peer_workspace_def sx_apply sbind_def)
    next
      case (Inr ps)
      let ?m = "sfold (extract_peer_file R P prepared T (lw_workspace_id peer) (saturating_succ (handle_revision db))) ps (0, 0, 0)"
      obtain x db1 where m: "?m db = (x, db1)" by fastforce
      obtain M where "handle_bump_revision db1 = (Inr (), db1\<lparr>t_schema_meta := M\<rparr>)" using handle_bump_run by blast
      then have "db' = db \<or> (\<exists>counts st. x = Inr counts \<and> (db' = db1 \<or> db' = db1\<lparr>t_schema_meta := M\<rparr>) \<and> r = Inr st)"
        using assms True Some Inr m
        by (cases x) (auto simp: extract_peer_workspace_def sx_apply sbind_def sthen_def swhen_def map_err_def
            transaction_def split: if_splits)
      then show ?thesis using m by blast
    qed
  qed
qed (use assms in \<open>simp add: extract_peer_workspace_def sx_apply\<close>)

text \<open>
  C9. The extraction of a peer is atomic and stays in its scope: when it fails the index is as it was
  before, and when it succeeds every row of \<^verbatim>\<open>files\<close> outside the peer's \<^verbatim>\<open>ws:<workspace_id>:\<close> paths is
  the row of before.
\<close>

theorem peer_extract_atomic_scoped:
  assumes "extract_peer_workspace R P prepared peer db = (r, db')" and "honest_provider P"
  shows "((\<exists>e. r = Inl e) \<longrightarrow> db' = db) \<and>
    (\<forall>q. (\<forall>rel. q \<noteq> peer_path (lw_workspace_id peer) rel) \<longrightarrow> file_at q db' = file_at q db)"
proof -
  consider "db' = db" | T rv ps counts db1 M st where
    "sfold (extract_peer_file R P prepared T (lw_workspace_id peer) rv) ps (0, 0, 0) db = (Inr counts, db1)"
    "db' = db1 \<or> db' = db1\<lparr>t_schema_meta := M\<rparr>" "r = Inr st"
    using extract_peer_cases[OF assms(1)] by blast
  note cases = this
  have "(\<exists>e. r = Inl e) \<longrightarrow> db' = db" by (rule cases) auto
  moreover have "file_at q db' = file_at q db" if "\<forall>rel. q \<noteq> peer_path (lw_workspace_id peer) rel" for q
    by (rule cases) (use peer_loop_frame[OF _ assms(2) that] in auto)
  ultimately show ?thesis by blast
qed

section \<open>A concrete run\<close>

definition demo_provider :: provider where
  "demo_provider = \<lparr> pv_extract = (\<lambda>prepared root answers content rel.
       if rel = ''a.rs'' then Inr demo_extracted else Inl UnsupportedLanguage),
     pv_edge_builtins = [], pv_edge_builtin_methods = [] \<rparr>"

definition demo_tree :: source_tree where
  "demo_tree = \<lparr> st_root = [''w''], st_walk = [WalkEntry [''w''] False, WalkEntry [''w'', ''a.rs''] True],
     st_read = (\<lambda>p. if p = [''w'', ''a.rs''] then Some [0x66, 0x6E] else None), st_skipped = (\<lambda>rel. False) \<rparr>"

definition demo_run :: "penv \<Rightarrow> 8 word \<Rightarrow> run_env" where
  "demo_run E h = \<lparr> re_penv = (\<lambda>rel. E), re_hash = (\<lambda>bytes. replicate 32 h), re_builtin_order = (\<lambda>g. g),
     re_method_order = (\<lambda>g. g), re_ffi_order = (\<lambda>g. g), re_codec = demo_codec, re_config = Inr None,
     re_detected = \<lparr> dt_projects = [], dt_workspaces = [] \<rparr>, re_root_text = ''/w'', re_now = 1,
     re_open_index = (\<lambda>p. PeerMissing), re_peer_tree = (\<lambda>p. Some demo_tree) \<rparr>"

lemma demo_run_simps [simp]:
  "re_penv (demo_run E h) rel = E" "re_hash (demo_run E h) bytes = replicate 32 h" "re_codec (demo_run E h) = demo_codec"
  "re_peer_tree (demo_run E h) root = Some demo_tree"
  by (simp_all add: demo_run_def)

lemma demo_tree_simps [simp]:
  "to_workspace_relative [''w'', ''a.rs''] (st_root demo_tree) = Some ''a.rs''"
  "st_read demo_tree [''w'', ''a.rs''] = Some [0x66, 0x6E]" "from_utf8 [0x66, 0x6E] = Some ''fn''"
  by code_simp+

lemma demo_provider_simps [simp]:
  "pv_extract demo_provider prepared root answers content ''a.rs'' = Inr demo_extracted"
  by (simp add: demo_provider_def)

lemma demo_honest [simp]: "honest_provider demo_provider"
  by (simp add: honest_provider_def demo_provider_def demo_extracted_def)

lemma demo_candidates [simp]:
  "collect_candidates demo_tree = Inr [[''w'', ''a.rs'']]"
  "rel_candidates demo_tree [[''w'', ''a.rs'']] = [''a.rs'']"
  "chunks SUB_BATCH_SIZE [[''w'', ''a.rs'']] = [[[''w'', ''a.rs'']]]"
  by (code_simp, simp_all add: rel_candidates_def List.map_filter_simps SUB_BATCH_SIZE_def chunks.simps)

lemma demo_up_to_date: "up_to_date (demo_run E 0) demo_tree [[''w'', ''a.rs'']] demo_db"
  by (simp add: up_to_date_def lookup_by_def demo_file_def)


lemma demo_outcome:
  "outcome_at (demo_run demo_env 1) demo_provider prepared demo_tree demo_db [''w'', ''a.rs''] = Some (Upsert ''a.rs'' demo_extracted)"
proof -
  have "to_hex (replicate 32 0) \<noteq> to_hex (replicate 32 1)"
    using from_hex_to_hex[of "replicate 32 0"] from_hex_to_hex[of "replicate 32 1"] by (auto simp: wf_hash_def)
  moreover have "demo_extracted\<lparr>ef_content_hash := replicate 32 1\<rparr> = demo_extracted" by (simp add: demo_extracted_def)
  moreover have "fst (rewrite_cross_workspace_edges rs demo_extracted Map.empty) = demo_extracted" for rs :: "resolver_cache resolver"
    by (simp add: rewrite_cross_workspace_edges_def demo_extracted_def split: option.split)
  ultimately show ?thesis
    by (simp add: outcome_at_def process_one_def hash_matches_db_def lookup_by_def demo_file_def sx_apply)
qed

lemma demo_loop:
  "\<exists>db1. chunk_loop (demo_run demo_env 1) demo_provider [''a.rs''] demo_tree 1 (\<lambda>i. False) 0 [[[''w'', ''a.rs'']]] [] 0 demo_db =
    (Inr (Some [''a.rs'']), db1)"
proof -
  have room: "has_room demo_extracted demo_db" by (simp add: has_room_def demo_extracted_def I64_MAX_def)
  obtain db1 where "apply_upsert_file demo_env demo_extracted (saturating_succ (handle_revision demo_db)) ''primary'' demo_db = (Inr (), db1)"
    by (rule apply_upsert_file_run[OF demo_db_ok demo_storable room,
        of "saturating_succ (handle_revision demo_db)" "''primary''"]) blast
  moreover obtain M where "handle_bump_revision db1 = (Inr (), db1\<lparr>t_schema_meta := M\<rparr>)" using handle_bump_run by blast
  ultimately have commit: "commit_outcomes [(demo_env, Upsert ''a.rs'' demo_extracted)] demo_db = (Inr (), db1\<lparr>t_schema_meta := M\<rparr>)"
    by (simp add: commit_outcomes_def is_skip_def sbind_def sthen_def transaction_def PRIMARY_WORKSPACE_ID_def sx_apply)
  have chunk: "process_chunk (demo_run demo_env 1) demo_provider [''a.rs''] demo_tree [[''w'', ''a.rs'']] demo_db =
      (Inr [Upsert ''a.rs'' demo_extracted], demo_db)"
    by (simp add: process_chunk_run List.map_filter_simps demo_outcome)
  obtain M' where "set_progress (u64_saturating_add 0 (u64_of 1)) 1 (db1\<lparr>t_schema_meta := M\<rparr>) = (Inr (), db1\<lparr>t_schema_meta := M'\<rparr>)"
    using set_progress_run[of "u64_saturating_add 0 (u64_of 1)" 1 "db1\<lparr>t_schema_meta := M\<rparr>"] by auto
  then show ?thesis
    using commit chunk by (simp add: sbind_def sthen_def map_err_def Let_def sx_apply with_env_def)
qed

theorem index_mirrors_tree_witness:
  "\<exists>db2 r. r \<in> set (t_files db2) \<and> f_path r = ''a.rs'' \<and>
    (f_is_external r \<or> recorded (demo_run demo_env 1) demo_tree {[''w'', ''a.rs'']} db2 ''a.rs'')"
proof -
  obtain db1 where loop: "chunk_loop (demo_run demo_env 1) demo_provider [''a.rs''] demo_tree 1 (\<lambda>i. False) 0
      (chunks SUB_BATCH_SIZE [[''w'', ''a.rs'']]) [] 0 demo_db = (Inr (Some [''a.rs'']), db1)"
    using demo_loop by auto
  obtain db2 where clean: "cleanup_unseen [''a.rs''] db1 = (Inr (), db2)"
    using cleanup_unseen_run[OF keeps_result[OF keeps_chunk_loop demo_db_ok loop], of "[''a.rs'']"] by blast
  have "distinct (rel_candidates demo_tree [[''w'', ''a.rs'']])" by simp
  note w = index_mirrors_tree[OF demo_honest this demo_db_ok loop clean]
  obtain r where "r \<in> set (t_files db2)" "f_path r = ''a.rs''" using conjunct2[OF w] by auto
  then show ?thesis using conjunct1[OF w] by fastforce
qed

definition demo_extract_peer :: LinkedWorkspace where
  "demo_extract_peer = demo_peer\<lparr>lw_indexing_mode := Extract\<rparr>"

theorem peer_extract_atomic_scoped_witness:
  "extract_peer_workspace (demo_run (demo_env\<lparr>pe_now_file := Inl RescanInProgress\<rparr>) 1) demo_provider [] demo_extract_peer demo_db =
     (Inl (CsStorage RescanInProgress), demo_db)"
proof -
  let ?R = "demo_run (demo_env\<lparr>pe_now_file := Inl RescanInProgress\<rparr>) 1"
  obtain r db' where run: "extract_peer_workspace ?R demo_provider [] demo_extract_peer demo_db = (r, db')" by fastforce
  have one: "fst (extract_peer_file ?R demo_provider [] demo_tree ''u1'' rv [''w'', ''a.rs''] (0, 0, 0) demo_db) = Inl RescanInProgress" for rv
    by (simp add: extract_peer_file_def peer_hash_matches_db_def apply_upsert_file_def upsert_file_row_def sbind_def sthen_def
        sx_apply Let_def lookup_by_def demo_file_def peer_path_def PRIMARY_WORKSPACE_ID_def demo_env_def)
  have peer: "lw_status demo_extract_peer = Active" "lw_workspace_id demo_extract_peer = ''u1''"
    "re_peer_tree ?R (lw_root_path demo_extract_peer) = Some demo_tree"
    by (simp_all add: demo_extract_peer_def demo_peer_def)
  obtain s where "extract_peer_file ?R demo_provider [] demo_tree ''u1'' (saturating_succ (handle_revision demo_db))
      [''w'', ''a.rs''] (0, 0, 0) demo_db = (Inl RescanInProgress, s)"
    using one by (metis prod.collapse)
  then have "r = Inl (CsStorage RescanInProgress)"
    using run peer by (simp add: extract_peer_workspace_def sbind_def transaction_def map_err_def sx_apply)
  then show ?thesis using peer_extract_atomic_scoped[OF run demo_honest] run by simp
qed

end
