(* ===== verification/Query_Workspace.thy ===== *)
theory Query_Workspace
  imports Cold_Start
begin

text \<open>
  Linked workspaces as the tools see them (\<^verbatim>\<open>query/workspace.rs\<close>): suggestions for a mistyped path, linking,
  the direction of a link, refreshing a peer, module lookups.

  The file system (directory tests, directory listings, canonical paths) and the string similarity
  (a floating-point number of a third-party crate, any linear order here) are arguments; the fresh
  identifier and the clock are arguments of the catalog as before.
\<close>

section \<open>Suggestions\<close>

text \<open>A path is its root flag and its components; \<^verbatim>\<open>file_name\<close> is absent for the root and after \<^verbatim>\<open>..\<close>.\<close>

record fs_path =
  fp_absolute :: bool
  fp_components :: "string list"

definition fp_parent :: "fs_path \<Rightarrow> fs_path option" where
  "fp_parent p = (if fp_components p = [] then None else Some (p\<lparr>fp_components := butlast (fp_components p)\<rparr>))"

definition fp_file_name :: "fs_path \<Rightarrow> string option" where
  "fp_file_name p = (if fp_components p = [] \<or> last (fp_components p) = ''..'' then None else Some (last (fp_components p)))"

definition fp_push :: "string \<Rightarrow> fs_path \<Rightarrow> fs_path" where
  "fp_push c p = p\<lparr>fp_components := fp_components p @ [c]\<rparr>"

definition fp_display :: "fs_path \<Rightarrow> string" where
  "fp_display p = (if fp_absolute p then ''/'' else []) @ join_str ''/'' (fp_components p)"

record 's dir_env =
  de_is_dir :: "fs_path \<Rightarrow> bool"
  de_read_dir :: "fs_path \<Rightarrow> (string \<times> bool) list option"
  de_lower :: "string \<Rightarrow> string"
  de_jaro_winkler :: "string \<Rightarrow> string \<Rightarrow> 's"
  de_threshold :: 's

definition PATH_DID_YOU_MEAN_LIMIT :: nat where "PATH_DID_YOU_MEAN_LIMIT = 5"

function existing_loop :: "(fs_path \<Rightarrow> bool) \<Rightarrow> fs_path \<Rightarrow> string list \<Rightarrow> (fs_path \<times> string list) option" where
  "existing_loop is_dir cursor missing =
    (if is_dir cursor then Some (cursor, missing)
     else case (fp_parent cursor, fp_file_name cursor) of
       (Some parent, Some name) \<Rightarrow> existing_loop is_dir parent (missing @ [name])
     | _ \<Rightarrow> None)"
  by pat_completeness auto
termination
  by (relation "measure (\<lambda>(_, cursor, _). length (fp_components cursor))") (auto simp: fp_parent_def split: if_splits)

declare existing_loop.simps [simp del]

text \<open>A stable sort by descending score.\<close>

definition sort_desc :: "('a \<Rightarrow> 's :: linorder) \<Rightarrow> 'a list \<Rightarrow> 'a list" where
  "sort_desc key xs = rev (sort_key key (rev xs))"

definition path_did_you_mean :: "('s :: linorder) dir_env \<Rightarrow> fs_path \<Rightarrow> string list" where
  "path_did_you_mean E input =
    (case existing_loop (de_is_dir E) input [] of
       None \<Rightarrow> []
     | Some (existing, missing) \<Rightarrow>
         if missing = [] then []
         else let needle = de_lower E (last missing) in
           (case de_read_dir E existing of
              None \<Rightarrow> []
            | Some entries \<Rightarrow>
                let scored = filter (\<lambda>(_, s). de_threshold E \<le> s)
                      (map (\<lambda>(name, _). (name, de_jaro_winkler E needle (de_lower E name))) (filter snd entries));
                    top = take PATH_DID_YOU_MEAN_LIMIT (sort_desc snd scored)
                in map (\<lambda>(name, _). fp_display (fold fp_push (drop 1 (rev missing)) (fp_push name existing))) top))"

section \<open>Links\<close>

datatype LinkWorkspaceError = PathNotFound string "string list" | LinkStorage StorageError

definition link_workspace ::
  "('s :: linorder) dir_env \<Rightarrow> (string \<Rightarrow> string option) \<Rightarrow> (string \<Rightarrow> fs_path) \<Rightarrow> string \<Rightarrow> int \<Rightarrow> string \<Rightarrow> LinkDirection \<Rightarrow> IndexingMode \<Rightarrow>
   (db, LinkWorkspaceError, string) sx" where
  "link_workspace E canonicalize parse uuid now root_path direction mode =
    (case canonicalize root_path of
       None \<Rightarrow> sthrow (PathNotFound root_path (path_did_you_mean E (parse root_path)))
     | Some canonical \<Rightarrow> map_err LinkStorage (register_linked_workspace uuid now canonical direction mode))"

definition unlink_workspace :: "string \<Rightarrow> unit sql" where
  "unlink_workspace workspace_id = unregister_linked_workspace workspace_id"

datatype RefreshPeerError = RefreshNotFound string | RefreshStorage StorageError | RefreshExtract ColdStartError

definition refresh_peer ::
  "run_env \<Rightarrow> provider \<Rightarrow> string list \<Rightarrow> string \<Rightarrow> (db, RefreshPeerError, PeerExtractStats) sx" where
  "refresh_peer R P prepared workspace_id =
    sbind (map_err RefreshStorage (get_linked_workspace workspace_id)) (\<lambda>found.
    case found of
      None \<Rightarrow> sthrow (RefreshNotFound workspace_id)
    | Some peer \<Rightarrow> map_err RefreshExtract (extract_peer_workspace R P prepared peer))"

record SetLinkDirectionOutcome =
  sld_workspace_id :: string
  sld_root_path :: string
  sld_previous_direction :: LinkDirection
  sld_new_direction :: LinkDirection

datatype SetLinkDirectionError = DirectionNotFound string | DirectionStorage StorageError

definition change_link_direction ::
  "string \<Rightarrow> LinkDirection \<Rightarrow> (db, SetLinkDirectionError, SetLinkDirectionOutcome) sx" where
  "change_link_direction workspace_id new_direction =
    sbind (map_err DirectionStorage (get_linked_workspace workspace_id)) (\<lambda>found.
    case found of
      None \<Rightarrow> sthrow (DirectionNotFound workspace_id)
    | Some peer \<Rightarrow>
        sthen (map_err DirectionStorage (set_link_direction workspace_id new_direction))
          (sreturn \<lparr> sld_workspace_id = workspace_id, sld_root_path = lw_root_path peer,
             sld_previous_direction = lw_link_direction peer, sld_new_direction = new_direction \<rparr>))"

section \<open>Lookups\<close>

definition workspace_or_primary :: "string option \<Rightarrow> string" where
  "workspace_or_primary w = (case w of None \<Rightarrow> PRIMARY_WORKSPACE_ID | Some w \<Rightarrow> w)"

definition query_module_lookup :: "codec \<Rightarrow> string option \<Rightarrow> string \<Rightarrow> ModuleLookup option sql" where
  "query_module_lookup K workspace_id module_fqdn = get_module_lookup K (workspace_or_primary workspace_id) module_fqdn"

definition store_module_lookup :: "codec \<Rightarrow> string option \<Rightarrow> ModuleLookup \<Rightarrow> unit sql" where
  "store_module_lookup K workspace_id lookup = put_module_lookup K (workspace_or_primary workspace_id) lookup"

section \<open>Suggestions are existing siblings\<close>

lemma existing_loop_spec:
  assumes "existing_loop is_dir cursor missing = Some (existing, missing')"
  shows "is_dir existing \<and> fp_absolute existing = fp_absolute cursor \<and>
    (\<exists>tail. missing' = missing @ rev tail \<and> fp_components cursor = fp_components existing @ tail \<and>
       (tail \<noteq> [] \<longrightarrow> \<not> is_dir (fp_push (hd tail) existing)))"
  using assms
proof (induction is_dir cursor missing rule: existing_loop.induct)
  case (1 is_dir cursor missing)
  show ?case
  proof (cases "is_dir cursor")
    case True
    then show ?thesis using "1.prems" by (subst (asm) existing_loop.simps) simp
  next
    case False
    then obtain parent name where p: "fp_parent cursor = Some parent" "fp_file_name cursor = Some name"
        "existing_loop is_dir parent (missing @ [name]) = Some (existing, missing')"
      using "1.prems" by (subst (asm) existing_loop.simps) (auto split: option.splits)
    then obtain tail where t: "is_dir existing" "fp_absolute existing = fp_absolute parent" "missing' = (missing @ [name]) @ rev tail"
        "fp_components parent = fp_components existing @ tail" "tail \<noteq> [] \<longrightarrow> \<not> is_dir (fp_push (hd tail) existing)"
      using "1.IH"[OF False refl p(1,2,3)] by auto
    have c: "fp_components cursor = fp_components existing @ tail @ [name]" "fp_absolute cursor = fp_absolute parent"
      using p(1,2) t(4) by (auto simp: fp_parent_def fp_file_name_def split: if_splits) (metis append_butlast_last_id append_assoc)
    have "\<not> is_dir (fp_push (hd (tail @ [name])) existing)"
    proof (cases "tail = []")
      case True
      then have "fp_push name existing = cursor" using c t(2) by (simp add: fp_push_def fs_path.equality)
      then show ?thesis using True False by simp
    qed (use t(5) in simp)
    then show ?thesis using t c by (intro conjI exI[of _ "tail @ [name]"]) auto
  qed
qed

lemma fold_push: "fold fp_push cs p = p\<lparr>fp_components := fp_components p @ cs\<rparr>"
  by (induction cs arbitrary: p) (simp_all add: fp_push_def)

text \<open>
  A suggestion keeps the deepest existing directory above the given path and the components after
  the first missing one; that one is replaced by a directory listed there whose similarity reaches the
  threshold. There are at most five.
\<close>

theorem suggestions_are_siblings:
  "length (path_did_you_mean E input) \<le> 5 \<and>
   (\<forall>s\<in>set (path_did_you_mean E input). \<exists>existing needle rest entries name.
      fp_components input = fp_components existing @ needle # rest \<and> fp_absolute existing = fp_absolute input \<and>
      de_is_dir E existing \<and> \<not> de_is_dir E (fp_push needle existing) \<and>
      de_read_dir E existing = Some entries \<and> (name, True) \<in> set entries \<and>
      de_threshold E \<le> de_jaro_winkler E (de_lower E needle) (de_lower E name) \<and>
      s = fp_display (existing\<lparr>fp_components := fp_components existing @ name # rest\<rparr>))"
proof (cases "existing_loop (de_is_dir E) input []")
  case (Some em)
  obtain existing missing where em: "em = (existing, missing)" by (cases em)
  obtain tail where t: "de_is_dir E existing" "fp_absolute existing = fp_absolute input" "missing = rev tail"
      "fp_components input = fp_components existing @ tail" "tail \<noteq> [] \<longrightarrow> \<not> de_is_dir E (fp_push (hd tail) existing)"
    using existing_loop_spec[of "de_is_dir E" input "[]" existing missing] Some em by auto
  show ?thesis
  proof (cases "tail = [] \<or> de_read_dir E existing = None")
    case True
    then show ?thesis using Some em t(3) by (auto simp: path_did_you_mean_def Let_def)
  next
    case False
    then obtain needle rest entries where n: "tail = needle # rest" "de_read_dir E existing = Some entries" by (cases tail) auto
    define scored where "scored = filter (\<lambda>(_, s). de_threshold E \<le> s)
        (map (\<lambda>(name, _). (name, de_jaro_winkler E (de_lower E needle) (de_lower E name))) (filter snd entries))"
    have eq: "path_did_you_mean E input =
        map (\<lambda>(name, _). fp_display (existing\<lparr>fp_components := fp_components existing @ name # rest\<rparr>)) (take 5 (sort_desc snd scored))"
      using Some em t(3) n by (simp add: path_did_you_mean_def Let_def scored_def fold_push fp_push_def PATH_DID_YOU_MEAN_LIMIT_def)
    have "\<exists>name. (name, True) \<in> set entries \<and> de_threshold E \<le> de_jaro_winkler E (de_lower E needle) (de_lower E name) \<and>
        s = fp_display (existing\<lparr>fp_components := fp_components existing @ name # rest\<rparr>)" if "s \<in> set (path_did_you_mean E input)" for s
      using that unfolding eq by (auto simp: sort_desc_def scored_def dest!: in_set_takeD) blast
    then show ?thesis using t n unfolding eq by fastforce
  qed
qed (simp add: path_did_you_mean_def)

section \<open>Life cycle of a link\<close>

definition fresh_link :: "string \<Rightarrow> int \<Rightarrow> string \<Rightarrow> LinkDirection \<Rightarrow> IndexingMode \<Rightarrow> LinkedWorkspace" where
  "fresh_link uuid now canonical direction mode =
    \<lparr> lw_workspace_id = uuid, lw_root_path = canonical, lw_link_direction = direction, lw_linked_at_epoch_ms = now,
      lw_last_indexed_at_epoch_ms = None, lw_status = Active, lw_indexing_mode = mode \<rparr>"

definition link_row :: "string \<Rightarrow> int \<Rightarrow> string \<Rightarrow> LinkDirection \<Rightarrow> IndexingMode \<Rightarrow> catalog_row" where
  "link_row uuid now canonical direction mode =
    \<lparr> wc_workspace_id = uuid, wc_root_path = canonical, wc_link_direction = link_direction_as_i64 direction,
      wc_linked_at = now, wc_last_indexed_at = None, wc_status = ''active'', wc_indexing_mode = indexing_mode_as_str mode \<rparr>"

lemma link_row_checks: "catalog_checks (link_row uuid now c d m)"
  by (cases d; cases m) (simp_all add: catalog_checks_def link_row_def)

lemma row_to_link: "row_to_linked_workspace (link_row uuid now c d m) = Inr (fresh_link uuid now c d m)"
  by (simp add: row_to_linked_workspace_def link_row_def fresh_link_def link_status_from_str_def)

lemma link_workspace_Inr:
  assumes "link_workspace E canonicalize parse uuid now root_path direction mode db = (Inr w, db')"
  obtains canonical where "canonicalize root_path = Some canonical" "w = uuid" "uuid \<notin> wc_workspace_id ` set (t_catalog db)"
    "db' = db\<lparr>t_catalog := t_catalog db @ [link_row uuid now canonical direction mode]\<rparr>"
proof (cases "canonicalize root_path")
  case (Some canonical)
  then have "sql_insert_catalog (link_row uuid now canonical direction mode) db = (Inr (), db')" "w = uuid"
    using assms by (auto simp: link_workspace_def register_linked_workspace_def link_row_def sx_apply elim!: sthen_InrE)
  then show thesis using that Some link_row_checks[of uuid now canonical direction mode]
    by (auto simp: sql_insert_catalog_def list_ex_iff link_row_def split: if_splits)
qed (use assms in \<open>simp add: link_workspace_def sx_apply\<close>)

lemma get_link_last:
  assumes "uuid \<notin> wc_workspace_id ` set rows" "t_catalog db = rows @ [link_row uuid now c d m]"
  shows "get_linked_workspace uuid db = (Inr (Some (fresh_link uuid now c d m)), db)"
proof -
  have "lookup_by wc_workspace_id uuid (t_catalog db) = Some (link_row uuid now c d m)"
    using assms by (induction rows arbitrary: db) (auto simp: lookup_by_def link_row_def find_append split: option.split dest: find_Some_set)
  then show ?thesis by (simp add: get_linked_workspace_def row_to_link sbind_def sx_apply)
qed

text \<open>
  A workspace that was linked is found under its identifier with the canonical path and the
  direction asked for; changing the direction reports the old one and is seen by the next lookup;
  unlinking restores the catalog.
\<close>

theorem link_life_cycle:
  assumes ok: "db_ok db" and run: "link_workspace E canonicalize parse uuid now root_path direction mode db = (Inr w, db1)"
  shows "\<exists>canonical db2 db3. canonicalize root_path = Some canonical \<and>
     get_linked_workspace w db1 = (Inr (Some (fresh_link uuid now canonical direction mode)), db1) \<and>
     change_link_direction w d db1 = (Inr \<lparr> sld_workspace_id = w, sld_root_path = canonical,
        sld_previous_direction = direction, sld_new_direction = d \<rparr>, db2) \<and>
     get_linked_workspace w db2 = (Inr (Some (fresh_link uuid now canonical d mode)), db2) \<and>
     unlink_workspace w db2 = (Inr (), db3) \<and> t_catalog db3 = t_catalog db \<and> get_linked_workspace w db3 = (Inr None, db3)"
proof -
  from run obtain canonical where l: "canonicalize root_path = Some canonical" "w = uuid" "uuid \<notin> wc_workspace_id ` set (t_catalog db)"
      "db1 = db\<lparr>t_catalog := t_catalog db @ [link_row uuid now canonical direction mode]\<rparr>" by (rule link_workspace_Inr)
  have g1: "get_linked_workspace w db1 = (Inr (Some (fresh_link uuid now canonical direction mode)), db1)"
    unfolding l(2) using get_link_last[OF l(3)] l(4) by simp
  define db2 where "db2 = db\<lparr>t_catalog := t_catalog db @ [link_row uuid now canonical d mode]\<rparr>"
  have same: "map (\<lambda>r. if wc_workspace_id r = uuid then g r else r) (t_catalog db) = t_catalog db" for g
    using l(3) by (intro map_idI) auto
  have "list_all catalog_checks (t_catalog db)" using ok by (simp add: db_ok_def ok_catalog_def list_all_iff)
  then have "set_link_direction w d db1 = (Inr (), db2)"
    unfolding l(2,4) db2_def using link_row_checks[of uuid now canonical d mode]
    by (simp add: set_link_direction_def update_catalog_def same Let_def) (simp add: link_row_def)
  then have c: "change_link_direction w d db1 = (Inr \<lparr> sld_workspace_id = w, sld_root_path = canonical,
        sld_previous_direction = direction, sld_new_direction = d \<rparr>, db2)"
    using g1 by (simp add: change_link_direction_def sbind_def sthen_def map_err_def sx_apply fresh_link_def)
  have g2: "get_linked_workspace w db2 = (Inr (Some (fresh_link uuid now canonical d mode)), db2)"
    unfolding l(2) using get_link_last[OF l(3), of db2] by (simp add: db2_def)
  obtain db3 where u: "unlink_workspace w db2 = (Inr (), db3)" "t_catalog db3 = delete_by wc_workspace_id w (t_catalog db2)"
    by (simp add: unlink_workspace_def unregister_linked_workspace_def sthen_def sbind_def map_err_def
        sql_delete_imports_where_def sql_delete_lookups_where_def)
  have cat: "t_catalog db3 = t_catalog db"
    unfolding u(2) using l(2,3) by (auto simp: db2_def delete_by_def link_row_def filter_id_conv)
  have "get_linked_workspace w db3 = (Inr None, db3)"
    using l(2,3) lookup_by_None[of wc_workspace_id uuid "t_catalog db"] by (simp add: get_linked_workspace_def cat sbind_def sx_apply)
  then show ?thesis using l(1) g1 c g2 u(1) cat by blast
qed

definition demo_dirs :: "nat dir_env" where
  "demo_dirs = \<lparr> de_is_dir = (\<lambda>p. fp_components p = []), de_read_dir = (\<lambda>_. Some []), de_lower = id,
     de_jaro_winkler = (\<lambda>_ _. 0), de_threshold = 7 \<rparr>"

theorem link_life_cycle_witness:
  "\<exists>w db1 db2. link_workspace demo_dirs Some (\<lambda>_. \<lparr> fp_absolute = True, fp_components = [] \<rparr>) ''u'' 5 ''/p'' LinkDirection.In BlobImport demo_db = (Inr w, db1) \<and>
     snd (change_link_direction w LinkDirection.Out db1) = db2 \<and>
     get_linked_workspace w db2 = (Inr (Some (fresh_link ''u'' 5 ''/p'' LinkDirection.Out BlobImport)), db2)"
proof -
  have "t_catalog demo_db = []" by (simp add: demo_db_def init_db_def)
  then obtain w db1 where run: "link_workspace demo_dirs Some (\<lambda>_. \<lparr> fp_absolute = True, fp_components = [] \<rparr>) ''u'' 5 ''/p'' LinkDirection.In BlobImport demo_db = (Inr w, db1)"
    by (simp add: link_workspace_def register_linked_workspace_def sql_insert_catalog_def catalog_checks_def sthen_def sbind_def map_err_def sx_apply)
  show ?thesis using link_life_cycle[OF demo_db_ok run, of LinkDirection.Out] run by auto
qed

text \<open>Refreshing an unknown peer fails and changes nothing; a known one is extracted as in the cold start.\<close>

lemma refresh_unknown_peer:
  "workspace_id \<notin> wc_workspace_id ` set (t_catalog db) \<Longrightarrow> refresh_peer R P prepared workspace_id db = (Inl (RefreshNotFound workspace_id), db)"
  using lookup_by_None[of wc_workspace_id workspace_id "t_catalog db"]
  by (simp add: refresh_peer_def get_linked_workspace_def sbind_def map_err_def sx_apply)

end
