(* ===== verification/Query_Body.thy ===== *)
theory Query_Body
  imports Query_List
begin

text \<open>
  Source text of a symbol (\<^verbatim>\<open>query/body.rs\<close>): the slice of the file, its leading noise, the compaction of
  its indentation, the removal of inline comments and of runs of blank lines.

  Reading a file below the workspace root is an argument: \<^const>\<open>None\<close> is an I/O error.
\<close>

section \<open>Data\<close>

record BodySlice =
  bsl_fqdn :: string
  bsl_file :: string
  bsl_start_line :: "32 word"
  bsl_end_line :: "32 word"
  bsl_body :: string
  bsl_truncated :: bool
  bsl_total_body_lines :: "32 word"
  bsl_stripped_lines :: "32 word"
  bsl_signature_only :: bool
  bsl_dedented_prefix_len :: "32 word"
  bsl_indent_unit :: string

record BodyOptions =
  bo_max_lines :: "32 word option"
  bo_strip_attrs :: bool
  bo_signature_only :: bool
  bo_strip_inline_comments :: bool
  bo_collapse_blank_lines :: bool

definition body_options_default :: BodyOptions where
  "body_options_default = \<lparr> bo_max_lines = None, bo_strip_attrs = False, bo_signature_only = False,
     bo_strip_inline_comments = False, bo_collapse_blank_lines = False \<rparr>"

record CompactedBody =
  cb_body :: string
  cb_dedented_prefix_len :: "32 word"
  cb_indent_unit :: string

section \<open>Text\<close>

definition NL :: char where "NL = CHR 0x0A"
definition TAB :: char where "TAB = CHR 0x09"
definition SP :: char where "SP = CHR 0x20"

text \<open>\<^verbatim>\<open>str::split\<close> at a character, \<^verbatim>\<open>str::lines\<close> and \<^verbatim>\<open>str::trim_start\<close>.\<close>

fun split_char :: "char \<Rightarrow> string \<Rightarrow> string list" where
  "split_char c [] = [[]]"
| "split_char c (x # xs) =
    (if x = c then [] # split_char c xs
     else case split_char c xs of [] \<Rightarrow> [[x]] | l # ls \<Rightarrow> (x # l) # ls)"

definition chomp_cr :: "string \<Rightarrow> string" where
  "chomp_cr l = (if l \<noteq> [] \<and> last l = CHR 0x0D then butlast l else l)"

definition str_lines :: "string \<Rightarrow> string list" where
  "str_lines s =
    (let parts = split_char NL s in map chomp_cr (butlast parts) @ (if last parts = [] then [] else [last parts]))"

function trim_start :: "string \<Rightarrow> string" where
  "trim_start s = (if ws_len s = 0 then s else trim_start (drop (ws_len s) s))"
  by pat_completeness auto
termination
proof (relation "measure length")
  fix s assume "ws_len s \<noteq> 0"
  moreover have "s \<noteq> []" using calculation by (auto simp: ws_len_def WHITE_SPACE_def)
  ultimately show "(drop (ws_len s) s, s) \<in> measure length" by simp
qed simp

declare trim_start.simps [simp del]

definition is_blank :: "string \<Rightarrow> bool" where
  "is_blank l \<longleftrightarrow> trim_start l = []"

definition try_u32 :: "nat \<Rightarrow> 32 word" where
  "try_u32 n = (if n < 2 ^ 32 then of_nat n else - 1)"

definition substr :: "string \<Rightarrow> nat \<Rightarrow> nat \<Rightarrow> string" where
  "substr s a b = take (b - a) (drop a s)"

section \<open>Blank lines\<close>

text \<open>The loop over \<^verbatim>\<open>body.split('\n')\<close> with \<^verbatim>\<open>prev_blank\<close>, \<^verbatim>\<open>first\<close> and \<^verbatim>\<open>out\<close>.\<close>

fun collapse_loop :: "string list \<Rightarrow> bool \<Rightarrow> bool \<Rightarrow> string \<Rightarrow> string" where
  "collapse_loop [] prev_blank first out = out"
| "collapse_loop (line # lines) prev_blank first out =
    (if is_blank line \<and> prev_blank then collapse_loop lines prev_blank first out
     else collapse_loop lines (is_blank line) False ((if first then out else out @ [NL]) @ line))"

definition collapse_blank_lines_in_body :: "string \<Rightarrow> string" where
  "collapse_blank_lines_in_body body = collapse_loop (split_char NL body) False True []"

section \<open>Inline comments\<close>

datatype St = Code | LineComment | BlockComment nat | DqString | Template | RawString nat

text \<open>
  The loop over the bytes; it returns the values of \<^verbatim>\<open>state\<close>, \<^verbatim>\<open>copy_from\<close> and \<^verbatim>\<open>out\<close> after it.  The depth
  of nested comments is a natural number: a depth of \<open>2 ^ 32\<close> needs eight gigabytes of openers.
\<close>

definition hashes_after :: "string \<Rightarrow> nat \<Rightarrow> nat" where
  "hashes_after body i = length (takeWhile (\<lambda>c. c = CHR ''#'') (drop (i + 1) body))"

definition at_pair :: "string \<Rightarrow> nat \<Rightarrow> char \<Rightarrow> char \<Rightarrow> bool" where
  "at_pair body i a b \<longleftrightarrow> body ! i = a \<and> i + 1 < length body \<and> body ! (i + 1) = b"

definition opens_raw :: "string \<Rightarrow> nat \<Rightarrow> bool" where
  "opens_raw body i \<longleftrightarrow> body ! i = CHR ''r'' \<and>
     (let j = i + 1 + hashes_after body i in j < length body \<and> body ! j = CHR 0x22)"

definition closes_raw :: "string \<Rightarrow> nat \<Rightarrow> nat \<Rightarrow> bool" where
  "closes_raw body i hashes \<longleftrightarrow> body ! i = CHR 0x22 \<and> i + 1 + hashes \<le> length body \<and>
     list_all (\<lambda>c. c = CHR ''#'') (substr body (i + 1) (i + 1 + hashes))"

function strip_loop :: "string \<Rightarrow> St \<Rightarrow> nat \<Rightarrow> nat \<Rightarrow> string \<Rightarrow> St \<times> nat \<times> string" where
  "strip_loop body st copy_from i out =
    (if length body \<le> i then (st, copy_from, out)
     else case st of
       Code \<Rightarrow>
         if opens_raw body i
         then strip_loop body (RawString (hashes_after body i)) copy_from (i + 1 + hashes_after body i + 1) out
         else if at_pair body i (CHR ''/'') (CHR ''/'')
         then strip_loop body LineComment copy_from (i + 2) (out @ substr body copy_from i)
         else if at_pair body i (CHR ''/'') (CHR ''*'')
         then strip_loop body (BlockComment 1) copy_from (i + 2) (out @ substr body copy_from i)
         else strip_loop body (if body ! i = CHR 0x22 then DqString else if body ! i = CHR 0x60 then Template else Code)
                copy_from (i + 1) out
     | LineComment \<Rightarrow>
         if body ! i = NL then strip_loop body Code i (i + 1) out else strip_loop body LineComment copy_from (i + 1) out
     | BlockComment depth \<Rightarrow>
         if at_pair body i (CHR ''/'') (CHR ''*'') then strip_loop body (BlockComment (depth + 1)) copy_from (i + 2) out
         else if at_pair body i (CHR ''*'') (CHR ''/'')
         then (if depth = 1 then strip_loop body Code (i + 2) (i + 2) out
               else strip_loop body (BlockComment (depth - 1)) copy_from (i + 2) out)
         else strip_loop body (BlockComment depth) copy_from (i + 1) (if body ! i = NL then out @ [NL] else out)
     | DqString \<Rightarrow>
         if body ! i = CHR 0x5C \<and> i + 1 < length body then strip_loop body DqString copy_from (i + 2) out
         else strip_loop body (if body ! i = CHR 0x22 then Code else DqString) copy_from (i + 1) out
     | Template \<Rightarrow>
         if body ! i = CHR 0x5C \<and> i + 1 < length body then strip_loop body Template copy_from (i + 2) out
         else strip_loop body (if body ! i = CHR 0x60 then Code else Template) copy_from (i + 1) out
     | RawString hashes \<Rightarrow>
         if closes_raw body i hashes then strip_loop body Code copy_from (i + 1 + hashes) out
         else strip_loop body (RawString hashes) copy_from (i + 1) out)"
  by pat_completeness auto
termination by (relation "measure (\<lambda>(body, st, copy_from, i, out). length body - i)") auto

declare strip_loop.simps [simp del]

definition strip_inline_comments_in_body :: "string \<Rightarrow> string" where
  "strip_inline_comments_in_body body =
    (case strip_loop body Code 0 0 [] of
       (st, copy_from, out) \<Rightarrow> if copy_from < length body then out @ drop copy_from body else out)"

section \<open>Leading noise\<close>

definition paren_depth_delta :: "string \<Rightarrow> int" where
  "paren_depth_delta line =
    fold (\<lambda>c d. if c \<in> {CHR ''('', CHR ''[''} then d + 1 else if c \<in> {CHR '')'', CHR '']''} then d - 1 else d) line 0"

text \<open>The loop over the lines with \<^verbatim>\<open>paren_depth\<close> and \<^verbatim>\<open>in_block_comment\<close>.\<close>

fun noise_loop :: "string list \<Rightarrow> int \<Rightarrow> bool \<Rightarrow> nat" where
  "noise_loop [] paren_depth in_block_comment = 0"
| "noise_loop (raw # lines) paren_depth in_block_comment =
    (let line = trim_start raw in
     if in_block_comment then 1 + noise_loop lines paren_depth (\<not> str_contains ''*/'' line)
     else if 0 < paren_depth then 1 + noise_loop lines (paren_depth + paren_depth_delta raw) False
     else if line = [] then 1 + noise_loop lines paren_depth False
     else if prefix ''//'' line then 1 + noise_loop lines paren_depth False
     else if prefix ''/*'' line then 1 + noise_loop lines paren_depth (\<not> str_contains ''*/'' line)
     else if prefix ''#['' line \<or> prefix ''#!['' line then 1 + noise_loop lines (paren_depth + paren_depth_delta raw) False
     else if prefix ''*'' line \<and> \<not> prefix ''*/'' line then 1 + noise_loop lines paren_depth False
     else 0)"

definition count_leading_noise_lines :: "string list \<Rightarrow> nat" where
  "count_leading_noise_lines lines = noise_loop lines 0 False"

section \<open>Indentation\<close>

definition is_indent :: "char \<Rightarrow> bool" where
  "is_indent c \<longleftrightarrow> c = SP \<or> c = TAB"

definition leading_ws :: "string \<Rightarrow> string" where
  "leading_ws s = takeWhile is_indent s"

fun common_prefix :: "string \<Rightarrow> string \<Rightarrow> string" where
  "common_prefix (a # as) (b # bs) = (if a = b then a # common_prefix as bs else [])"
| "common_prefix _ _ = []"

definition longest_common_leading_ws :: "string list \<Rightarrow> string" where
  "longest_common_leading_ws lines =
    (case filter (\<lambda>l. \<not> is_blank l) lines of
       [] \<Rightarrow> []
     | first # rest \<Rightarrow> fold (\<lambda>line prefix. common_prefix prefix (leading_ws line)) rest (leading_ws first))"

text \<open>The loop of \<^verbatim>\<open>detect_indent_unit\<close>: \<^const>\<open>None\<close> is the early return on a mixed line.\<close>

fun indent_widths :: "string list \<Rightarrow> bool \<Rightarrow> nat list \<Rightarrow> (bool \<times> nat list) option" where
  "indent_widths [] has_tab_only space_widths = Some (has_tab_only, space_widths)"
| "indent_widths (line # lines) has_tab_only space_widths =
    (let lw = leading_ws line in
     if is_blank line \<or> lw = [] then indent_widths lines has_tab_only space_widths
     else if TAB \<in> set lw \<and> SP \<in> set lw then None
     else if TAB \<in> set lw then indent_widths lines True space_widths
     else indent_widths lines has_tab_only (space_widths @ [length lw]))"

definition detect_indent_unit :: "string list \<Rightarrow> nat option" where
  "detect_indent_unit lines =
    (case indent_widths lines False [] of
       None \<Rightarrow> Some 0
     | Some (has_tab_only, space_widths) \<Rightarrow>
         if has_tab_only \<and> space_widths = [] then None
         else if has_tab_only then Some 0
         else if space_widths = [] then Some 0
         else if list_all (\<lambda>n. n mod 4 = 0) space_widths then Some 4
         else if list_all (\<lambda>n. n mod 2 = 0) space_widths then Some 2
         else Some 0)"

function count_tabs :: "string \<Rightarrow> nat \<Rightarrow> nat \<Rightarrow> nat" where
  "count_tabs line width i =
    (if 0 < width \<and> i + width \<le> length line \<and> list_all (\<lambda>b. b = SP) (substr line i (i + width))
     then 1 + count_tabs line width (i + width) else 0)"
  by pat_completeness auto
termination by (relation "measure (\<lambda>(line, width, i). length line - i)") auto

declare count_tabs.simps [simp del]

text \<open>The loop advances by \<^verbatim>\<open>width\<close>, which the caller guarantees to be positive.\<close>

definition convert_leading_spaces_to_tabs :: "nat \<Rightarrow> string \<Rightarrow> string" where
  "convert_leading_spaces_to_tabs width line =
    (let tabs = count_tabs line width 0 in replicate tabs TAB @ drop (tabs * width) line)"

definition compact_body_indent :: "string list \<Rightarrow> CompactedBody" where
  "compact_body_indent lines =
    (if lines = [] then \<lparr> cb_body = [], cb_dedented_prefix_len = 0, cb_indent_unit = [] \<rparr>
     else let common = longest_common_leading_ws lines;
              stripped = map (\<lambda>l. if prefix common l then drop (length common) l else []) lines;
              (final_lines, indent_unit) =
                (case detect_indent_unit stripped of
                   Some width \<Rightarrow> if 0 < width then (map (convert_leading_spaces_to_tabs width) stripped, [TAB]) else (stripped, [])
                 | None \<Rightarrow> (stripped, [TAB]))
          in \<lparr> cb_body = join_str [NL] final_lines, cb_dedented_prefix_len = try_u32 (length common),
               cb_indent_unit = indent_unit \<rparr>)"

section \<open>The slice of a symbol\<close>

text \<open>The part up to the first line with an opening brace.\<close>

definition to_signature :: "BodyOptions \<Rightarrow> string list \<Rightarrow> string list \<times> bool" where
  "to_signature opts after_strip =
    (if bo_signature_only opts \<and> list_ex (\<lambda>l. CHR ''{'' \<in> set l) after_strip
     then (let a = takeWhile (\<lambda>l. CHR ''{'' \<notin> set l) after_strip in (take (length a + 1) after_strip, True))
     else (after_strip, False))"

definition cap_lines :: "BodyOptions \<Rightarrow> string list \<Rightarrow> string list \<times> bool" where
  "cap_lines opts after_signature =
    (case bo_max_lines opts of
       Some cap \<Rightarrow> if unat cap < length after_signature then (take (unat cap) after_signature, True) else (after_signature, False)
     | None \<Rightarrow> (after_signature, False))"

definition slice_body :: "RawSymbol \<Rightarrow> BodyOptions \<Rightarrow> string \<Rightarrow> BodySlice" where
  "slice_body symbol opts content =
    (let loc = rs_location symbol;
         all_lines = str_lines content;
         start_zero = unat (loc_start_line loc) - 1;
         end_inclusive = min (unat (loc_end_line loc)) (length all_lines)
     in if end_inclusive \<le> start_zero
        then \<lparr> bsl_fqdn = rs_fqdn symbol, bsl_file = loc_file loc, bsl_start_line = loc_start_line loc,
               bsl_end_line = loc_end_line loc, bsl_body = [], bsl_truncated = False, bsl_total_body_lines = 0,
               bsl_stripped_lines = 0, bsl_signature_only = False, bsl_dedented_prefix_len = 0, bsl_indent_unit = [] \<rparr>
        else let raw_slice = take (end_inclusive - start_zero) (drop start_zero all_lines);
                 stripped_count = (if bo_strip_attrs opts then count_leading_noise_lines raw_slice else 0);
                 after_strip = drop stripped_count raw_slice;
                 (after_signature, signature_truncated) = to_signature opts after_strip;
                 (taken, truncated) = cap_lines opts after_signature;
                 compact = compact_body_indent taken;
                 stripped = (if bo_strip_inline_comments opts then strip_inline_comments_in_body (cb_body compact) else cb_body compact);
                 final_body = (if bo_collapse_blank_lines opts then collapse_blank_lines_in_body stripped else stripped)
             in \<lparr> bsl_fqdn = rs_fqdn symbol, bsl_file = loc_file loc, bsl_start_line = loc_start_line loc,
                  bsl_end_line = loc_end_line loc, bsl_body = final_body, bsl_truncated = truncated,
                  bsl_total_body_lines = try_u32 (length raw_slice), bsl_stripped_lines = try_u32 stripped_count,
                  bsl_signature_only = signature_truncated,
                  bsl_dedented_prefix_len = cb_dedented_prefix_len compact, bsl_indent_unit = cb_indent_unit compact \<rparr>)"

definition body_for_fqdn ::
  "codec \<Rightarrow> (string \<Rightarrow> string option) \<Rightarrow> db \<Rightarrow> string \<Rightarrow> BodyOptions \<Rightarrow> BodySlice option result" where
  "body_for_fqdn K read_file db fqdn opts =
    ebind (symbol_by_fqdn K db fqdn) (\<lambda>found.
    case found of
      None \<Rightarrow> Inr None
    | Some symbol \<Rightarrow>
        (case read_file (loc_file (rs_location symbol)) of
           None \<Rightarrow> Inl Io
         | Some content \<Rightarrow> Inr (Some (slice_body symbol opts content))))"

section \<open>Splitting and joining\<close>

lemma split_char_not_Nil [simp]: "split_char c s \<noteq> []"
  by (induction s) (auto split: list.split)

lemma join_split_char: "join_str [c] (split_char c s) = s"
proof (induction s)
  case (Cons x s)
  then show ?case by (cases "split_char c s") (auto simp: neq_Nil_conv split: list.splits, (metis join_str.simps(2,3) neq_Nil_conv append_Cons)+)
qed simp

lemma split_char_append: "c \<notin> set l \<Longrightarrow> split_char c (l @ c # s) = l # split_char c s"
  by (induction l) auto

lemma split_char_single: "c \<notin> set l \<Longrightarrow> split_char c l = [l]"
  by (induction l) auto

lemma split_char_free: "l \<in> set (split_char c s) \<Longrightarrow> c \<notin> set l"
  by (induction s arbitrary: l) (auto split: list.splits if_splits)

lemma split_join: "ls \<noteq> [] \<Longrightarrow> \<forall>l\<in>set ls. c \<notin> set l \<Longrightarrow> split_char c (join_str [c] ls) = ls"
proof (induction ls)
  case (Cons l ls)
  then show ?case by (cases ls) (simp_all add: split_char_single split_char_append)
qed simp

section \<open>Collapsed blank lines\<close>

text \<open>Reference: a blank line is dropped when the line before it is blank.\<close>

fun squeeze :: "bool \<Rightarrow> string list \<Rightarrow> string list" where
  "squeeze prev [] = []"
| "squeeze prev (l # ls) = (if is_blank l \<and> prev then squeeze prev ls else l # squeeze (is_blank l) ls)"

lemma collapse_loop_eq:
  "collapse_loop ls prev first out = (if squeeze prev ls = [] then out
     else if first then out @ join_str [NL] (squeeze prev ls) else join_str [NL] (out # squeeze prev ls))"
proof (induction ls arbitrary: prev first out)
  case (Cons l ls)
  then show ?case by (cases "squeeze (is_blank l) ls") auto
qed simp

lemma squeeze_filter: "filter (\<lambda>l. \<not> is_blank l) (squeeze prev ls) = filter (\<lambda>l. \<not> is_blank l) ls"
  by (induction ls arbitrary: prev) auto

lemma squeeze_no_run:
  "Suc i < length (squeeze prev ls) \<Longrightarrow> \<not> (is_blank (squeeze prev ls ! i) \<and> is_blank (squeeze prev ls ! Suc i))"
  "squeeze True ls \<noteq> [] \<Longrightarrow> \<not> is_blank (squeeze True ls ! 0)"
proof -
  show first: "squeeze True ls \<noteq> [] \<Longrightarrow> \<not> is_blank (squeeze True ls ! 0)" for ls by (induction ls) auto
  show "Suc i < length (squeeze prev ls) \<Longrightarrow> \<not> (is_blank (squeeze prev ls ! i) \<and> is_blank (squeeze prev ls ! Suc i))" for i prev ls
  proof (induction ls arbitrary: prev i)
    case (Cons l ls)
    show ?case
    proof (cases "is_blank l \<and> prev")
      case False
      then show ?thesis using Cons first[of ls] by (cases i; cases "is_blank l") auto
    qed (use Cons in auto)
  qed simp
qed

lemma collapse_split:
  "split_char NL (collapse_blank_lines_in_body body) = squeeze False (split_char NL body)"
proof -
  have ne: "squeeze False (split_char NL body) \<noteq> []" by (cases "split_char NL body") auto
  have "set (squeeze prev ls) \<subseteq> set ls" for prev ls by (induction ls arbitrary: prev) auto
  then have "\<forall>l\<in>set (squeeze False (split_char NL body)). NL \<notin> set l" using split_char_free by fast
  then show ?thesis using ne by (simp add: collapse_blank_lines_in_body_def collapse_loop_eq split_join)
qed

text \<open>
  Collapsing keeps every line that is not blank, in order, and leaves no two blank lines in a row.
\<close>

theorem collapse_keeps_code:
  "filter (\<lambda>l. \<not> is_blank l) (split_char NL (collapse_blank_lines_in_body body)) = filter (\<lambda>l. \<not> is_blank l) (split_char NL body) \<and>
   \<not> (\<exists>a l m b. split_char NL (collapse_blank_lines_in_body body) = a @ l # m # b \<and> is_blank l \<and> is_blank m)"
proof -
  let ?ls = "squeeze False (split_char NL body)"
  have "\<not> (is_blank l \<and> is_blank m)" if "?ls = a @ l # m # b" for a l m b
  proof -
    have "Suc (length a) < length ?ls" "?ls ! length a = l" "?ls ! Suc (length a) = m" unfolding that by (simp_all add: nth_append)
    then show ?thesis using squeeze_no_run(1)[of "length a" False "split_char NL body"] by simp
  qed
  then show ?thesis unfolding collapse_split squeeze_filter by blast
qed

section \<open>Comments\<close>

text \<open>
  Reference: a lexer over the characters.  It gives the text without the comments (their line breaks
  stay) and the state in which the text ends.
\<close>

definition emit :: "string \<Rightarrow> string \<times> St \<Rightarrow> string \<times> St" where
  "emit cs r = (cs @ fst r, snd r)"

lemma emit_simps [simp]: "fst (emit cs r) = cs @ fst r" "snd (emit cs r) = snd r"
  by (simp_all add: emit_def)

function scan_text :: "St \<Rightarrow> string \<Rightarrow> string \<times> St" where
  "scan_text st [] = ([], st)"
| "scan_text Code (b # bs) =
    (let h = takeWhile (\<lambda>c. c = CHR ''#'') bs; rest = drop (length h) bs in
     if b = CHR ''r'' \<and> rest \<noteq> [] \<and> hd rest = CHR 0x22 then emit (b # h @ [CHR 0x22]) (scan_text (RawString (length h)) (tl rest))
     else if b = CHR ''/'' \<and> bs \<noteq> [] \<and> hd bs = CHR ''/'' then scan_text LineComment (tl bs)
     else if b = CHR ''/'' \<and> bs \<noteq> [] \<and> hd bs = CHR ''*'' then scan_text (BlockComment 1) (tl bs)
     else emit [b] (scan_text (if b = CHR 0x22 then DqString else if b = CHR 0x60 then Template else Code) bs))"
| "scan_text LineComment (b # bs) = (if b = NL then emit [b] (scan_text Code bs) else scan_text LineComment bs)"
| "scan_text (BlockComment d) (b # bs) =
    (if b = CHR ''/'' \<and> bs \<noteq> [] \<and> hd bs = CHR ''*'' then scan_text (BlockComment (d + 1)) (tl bs)
     else if b = CHR ''*'' \<and> bs \<noteq> [] \<and> hd bs = CHR ''/'' then scan_text (if d = 1 then Code else BlockComment (d - 1)) (tl bs)
     else emit (if b = NL then [NL] else []) (scan_text (BlockComment d) bs))"
| "scan_text DqString (b # bs) =
    (if b = CHR 0x5C \<and> bs \<noteq> [] then emit [b, hd bs] (scan_text DqString (tl bs))
     else emit [b] (scan_text (if b = CHR 0x22 then Code else DqString) bs))"
| "scan_text Template (b # bs) =
    (if b = CHR 0x5C \<and> bs \<noteq> [] then emit [b, hd bs] (scan_text Template (tl bs))
     else emit [b] (scan_text (if b = CHR 0x60 then Code else Template) bs))"
| "scan_text (RawString n) (b # bs) =
    (if b = CHR 0x22 \<and> n \<le> length bs \<and> list_all (\<lambda>c. c = CHR ''#'') (take n bs) then emit (b # take n bs) (scan_text Code (drop n bs))
     else emit [b] (scan_text (RawString n) bs))"
  by pat_completeness auto
termination by (relation "measure (\<lambda>(_, s). length s)") auto

declare scan_text.simps(2-) [simp del]

fun in_comment :: "St \<Rightarrow> bool" where
  "in_comment LineComment = True"
| "in_comment (BlockComment d) = True"
| "in_comment _ = False"

lemma takeWhile_const_count: "b \<noteq> c \<Longrightarrow> count_list (takeWhile (\<lambda>x. x = c) xs) b = 0"
  by (induction xs) auto

lemma count_all_const: "list_all (\<lambda>x. x = c) xs \<Longrightarrow> b \<noteq> c \<Longrightarrow> count_list xs b = 0"
  by (induction xs) auto

text \<open>The lexer keeps every line break.\<close>

lemma scan_text_newlines: "count_list (fst (scan_text st s)) NL = count_list s NL"
proof (induction st s rule: scan_text.induct)
  case (2 b bs)
  let ?h = "takeWhile (\<lambda>c. c = CHR ''#'') bs"
  have "bs = ?h @ drop (length ?h) bs" by (metis append_take_drop_id takeWhile_eq_take)
  then have "count_list bs NL = count_list ?h NL + count_list (drop (length ?h) bs) NL" by (metis count_list_append)
  then have drop: "count_list bs NL = count_list (drop (length ?h) bs) NL" using takeWhile_const_count[of NL "CHR ''#''" bs] by (simp add: NL_def)
  show ?case
  proof (cases "b = CHR ''r'' \<and> drop (length ?h) bs \<noteq> [] \<and> hd (drop (length ?h) bs) = CHR 0x22")
    case True
    then have "count_list (drop (length ?h) bs) NL = count_list (tl (drop (length ?h) bs)) NL"
      by (cases "drop (length ?h) bs") (auto simp: NL_def)
    then show ?thesis using True 2(1)[OF refl refl True] drop takeWhile_const_count[of NL "CHR ''#''" bs]
      by (auto simp: NL_def Let_def scan_text.simps(2))
  next
    case False
    have e: "scan_text Code (b # bs) =
        (if b = CHR ''/'' \<and> bs \<noteq> [] \<and> hd bs = CHR ''/'' then scan_text LineComment (tl bs)
         else if b = CHR ''/'' \<and> bs \<noteq> [] \<and> hd bs = CHR ''*'' then scan_text (BlockComment 1) (tl bs)
         else emit [b] (scan_text (if b = CHR 0x22 then DqString else if b = CHR 0x60 then Template else Code) bs))"
      by (simp only: scan_text.simps(2) Let_def False if_False)
    note ih = 2(2,3,4)[OF refl refl False]
    consider (line) "b = CHR ''/'' \<and> bs \<noteq> [] \<and> hd bs = CHR ''/''"
      | (block) "\<not> (b = CHR ''/'' \<and> bs \<noteq> [] \<and> hd bs = CHR ''/'')" "b = CHR ''/'' \<and> bs \<noteq> [] \<and> hd bs = CHR ''*''"
      | (other) "\<not> (b = CHR ''/'' \<and> bs \<noteq> [] \<and> hd bs = CHR ''/'')" "\<not> (b = CHR ''/'' \<and> bs \<noteq> [] \<and> hd bs = CHR ''*'')"
      by blast
    then show ?thesis
    proof cases
      case line
      then show ?thesis using e ih(1) by (auto simp: NL_def neq_Nil_conv)
    next
      case block
      then show ?thesis using e ih(2) by (auto simp: NL_def neq_Nil_conv)
    next
      case other
      then show ?thesis unfolding e using ih(3)[OF other] by (simp only: if_False emit_simps append_Cons append_Nil count_list.simps)
    qed
  qed
next
  case (7 n b bs)
  have "count_list bs NL = count_list (take n bs) NL + count_list (drop n bs) NL" by (metis append_take_drop_id count_list_append)
  then show ?case using 7 count_all_const[of "CHR ''#''" "take n bs" NL] by (auto simp: NL_def scan_text.simps(7))
qed (auto simp: NL_def neq_Nil_conv scan_text.simps(3-6))

text \<open>The loop and the lexer, from a position on: what is copied already plus what is still to be copied.\<close>

definition settled :: "string \<Rightarrow> St \<times> nat \<times> string \<Rightarrow> St \<times> bool \<times> string" where
  "settled body = (\<lambda>(st, cf, out). (st, cf \<le> length body, out @ (if in_comment st then [] else drop cf body)))"

definition pending :: "string \<Rightarrow> St \<Rightarrow> nat \<Rightarrow> nat \<Rightarrow> string" where
  "pending body st cf i = (if in_comment st then [] else substr body cf i)"

definition scans :: "string \<Rightarrow> St \<Rightarrow> nat \<Rightarrow> bool" where
  "scans body st i \<longleftrightarrow> (\<forall>cf out. cf \<le> i \<longrightarrow>
     settled body (strip_loop body st cf i out) =
       (snd (scan_text st (drop i body)), True, out @ pending body st cf i @ fst (scan_text st (drop i body))))"

lemma substr_step:
  assumes "cf \<le> i"
  shows "substr body cf (i + k) = substr body cf i @ take k (drop i body)"
  using assms take_add[of "i - cf" k "drop cf body"] by (simp add: substr_def)

lemma drop_step: "i < length body \<Longrightarrow> drop i body = body ! i # drop (Suc i) body"
  by (simp add: Cons_nth_drop_Suc)

lemma at_pair_drop:
  "i < length body \<Longrightarrow> at_pair body i a b \<longleftrightarrow> body ! i = a \<and> drop (Suc i) body \<noteq> [] \<and> hd (drop (Suc i) body) = b"
  by (auto simp: at_pair_def hd_drop_conv_nth)

lemma tl_drop_Suc: "tl (drop (Suc i) body) = drop (Suc (Suc i)) body"
  by (simp add: drop_Suc tl_drop)

lemma scans_end: "scans body st (length body)"
  by (auto simp: scans_def strip_loop.simps[of body st _ "length body"] substr_def settled_def pending_def)

text \<open>One step of the loop that consumes \<open>k\<close> characters.\<close>

lemma scans_step:
  assumes "scans body st' (i + k)" "cf' \<le> i + k"
    and "strip_loop body st cf i out = strip_loop body st' cf' (i + k) out'"
    and "scan_text st (drop i body) = emit cs (scan_text st' (drop (i + k) body))"
    and "out @ pending body st cf i @ cs = out' @ pending body st' cf' (i + k)"
  shows "settled body (strip_loop body st cf i out) =
       (snd (scan_text st (drop i body)), True, out @ pending body st cf i @ fst (scan_text st (drop i body)))"
  using assms(1)[unfolded scans_def, rule_format, OF assms(2), of out'] assms(3-5) by (simp flip: append_assoc)

lemma emit_Nil [simp]: "emit [] r = r"
  by (simp add: emit_def)

lemma scans_line:
  assumes later: "\<And>st j. i < j \<Longrightarrow> j \<le> length body \<Longrightarrow> scans body st j" and i: "i < length body"
  shows "scans body LineComment i"
  unfolding scans_def
proof (intro allI impI)
  fix cf out assume "cf \<le> i"
  note u = strip_loop.simps[of body LineComment cf i out] drop_step[OF i] scan_text.simps(3) later
  show "settled body (strip_loop body LineComment cf i out) =
       (snd (scan_text LineComment (drop i body)), True, out @ pending body LineComment cf i @ fst (scan_text LineComment (drop i body)))"
  proof (cases "body ! i = NL")
    case True
    then show ?thesis using i
      by (intro scans_step[where k = 1 and cs = "[NL]" and st' = Code and cf' = i and out' = out])
         (simp_all add: u pending_def substr_step[where k = "Suc 0" and i = i, simplified] substr_def)
  next
    case False
    then show ?thesis using i \<open>cf \<le> i\<close>
      by (intro scans_step[where k = 1 and cs = "[]" and st' = LineComment and cf' = cf and out' = out])
         (simp_all add: u pending_def)
  qed
qed

lemma scans_block:
  assumes later: "\<And>st j. i < j \<Longrightarrow> j \<le> length body \<Longrightarrow> scans body st j" and i: "i < length body"
  shows "scans body (BlockComment d) i"
  unfolding scans_def
proof (intro allI impI)
  fix cf out assume "cf \<le> i"
  have scan: "scan_text (BlockComment d) (drop i body) =
      (if at_pair body i (CHR ''/'') (CHR ''*'') then scan_text (BlockComment (d + 1)) (drop (i + 2) body)
       else if at_pair body i (CHR ''*'') (CHR ''/'') then scan_text (if d = 1 then Code else BlockComment (d - 1)) (drop (i + 2) body)
       else emit (if body ! i = NL then [NL] else []) (scan_text (BlockComment d) (drop (i + 1) body)))"
    by (simp only: drop_step[OF i] scan_text.simps(4) at_pair_drop[OF i] tl_drop_Suc) (simp split: if_split)
  note u = strip_loop.simps[of body "BlockComment d" cf i out] scan later pending_def
  consider (opens) "at_pair body i (CHR ''/'') (CHR ''*'')" | (closes) "\<not> at_pair body i (CHR ''/'') (CHR ''*'')" "at_pair body i (CHR ''*'') (CHR ''/'')"
    | (other) "\<not> at_pair body i (CHR ''/'') (CHR ''*'')" "\<not> at_pair body i (CHR ''*'') (CHR ''/'')" by blast
  then show "settled body (strip_loop body (BlockComment d) cf i out) = (snd (scan_text (BlockComment d) (drop i body)), True,
      out @ pending body (BlockComment d) cf i @ fst (scan_text (BlockComment d) (drop i body)))"
  proof cases
    case opens
    moreover have "i + 2 \<le> length body" using calculation by (simp add: at_pair_def)
    ultimately show ?thesis using \<open>cf \<le> i\<close>
      by (intro scans_step[where k = 2 and cs = "[]" and st' = "BlockComment (d + 1)" and cf' = cf and out' = out]) (simp_all add: u)
  next
    case closes
    moreover have "i + 2 \<le> length body" using calculation by (simp add: at_pair_def)
    ultimately show ?thesis using \<open>cf \<le> i\<close>
      by (intro scans_step[where k = 2 and cs = "[]" and st' = "if d = 1 then Code else BlockComment (d - 1)"
            and cf' = "if d = 1 then i + 2 else cf" and out' = out]) (simp_all add: u substr_def)
  next
    case other
    then show ?thesis using i \<open>cf \<le> i\<close>
      by (intro scans_step[where k = 1 and cs = "if body ! i = NL then [NL] else []" and st' = "BlockComment d" and cf' = cf
            and out' = "if body ! i = NL then out @ [NL] else out"]) (simp_all add: u)
  qed
qed

text \<open>A step that stays outside comments copies nothing yet.\<close>

lemma scans_live:
  assumes "\<And>st j. i < j \<Longrightarrow> j \<le> length body \<Longrightarrow> scans body st j" "cf \<le> i" "0 < k" "i + k \<le> length body"
    and "\<not> in_comment st" "\<not> in_comment st'"
    and "strip_loop body st cf i out = strip_loop body st' cf (i + k) out"
    and "scan_text st (drop i body) = emit (take k (drop i body)) (scan_text st' (drop (i + k) body))"
  shows "settled body (strip_loop body st cf i out) =
       (snd (scan_text st (drop i body)), True, out @ pending body st cf i @ fst (scan_text st (drop i body)))"
  using assms by (intro scans_step[where k = k and cs = "take k (drop i body)" and st' = st' and cf' = cf and out' = out])
    (simp_all add: pending_def substr_step)

lemma take1_drop: "j < length body \<Longrightarrow> take (Suc 0) (drop j body) = [body ! j]"
  by (simp add: drop_step)

lemma scans_quoted:
  assumes later: "\<And>st j. i < j \<Longrightarrow> j \<le> length body \<Longrightarrow> scans body st j" and i: "i < length body"
  shows "scans body DqString i" "scans body Template i"
proof -
  note u = drop_step[OF i] scan_text.simps(5,6) tl_drop_Suc take1_drop hd_drop_conv_nth
  show "scans body DqString i" unfolding scans_def
  proof (intro allI impI)
    fix cf out assume cf: "cf \<le> i"
    note w = strip_loop.simps[of body DqString cf i out]
    show "settled body (strip_loop body DqString cf i out) = (snd (scan_text DqString (drop i body)), True,
        out @ pending body DqString cf i @ fst (scan_text DqString (drop i body)))"
    proof (cases "body ! i = CHR 0x5C \<and> i + 1 < length body")
      case True
      then show ?thesis using later cf i by (intro scans_live[where k = 2 and st' = DqString]) (simp_all add: u w)
    next
      case False
      then show ?thesis using later cf i
        by (intro scans_live[where k = 1 and st' = "if body ! i = CHR 0x22 then Code else DqString"]) (auto simp: u w)
    qed
  qed
  show "scans body Template i" unfolding scans_def
  proof (intro allI impI)
    fix cf out assume cf: "cf \<le> i"
    note w = strip_loop.simps[of body Template cf i out]
    show "settled body (strip_loop body Template cf i out) = (snd (scan_text Template (drop i body)), True,
        out @ pending body Template cf i @ fst (scan_text Template (drop i body)))"
    proof (cases "body ! i = CHR 0x5C \<and> i + 1 < length body")
      case True
      then show ?thesis using later cf i by (intro scans_live[where k = 2 and st' = Template]) (simp_all add: u w)
    next
      case False
      then show ?thesis using later cf i
        by (intro scans_live[where k = 1 and st' = "if body ! i = CHR 0x60 then Code else Template"]) (auto simp: u w)
    qed
  qed
qed

lemma scans_raw:
  assumes later: "\<And>st j. i < j \<Longrightarrow> j \<le> length body \<Longrightarrow> scans body st j" and i: "i < length body"
  shows "scans body (RawString n) i"
  unfolding scans_def
proof (intro allI impI)
  fix cf out assume cf: "cf \<le> i"
  note u = strip_loop.simps[of body "RawString n" cf i out] drop_step[OF i] scan_text.simps(7) closes_raw_def substr_def
  show "settled body (strip_loop body (RawString n) cf i out) = (snd (scan_text (RawString n) (drop i body)), True,
      out @ pending body (RawString n) cf i @ fst (scan_text (RawString n) (drop i body)))"
  proof (cases "closes_raw body i n")
    case True
    then show ?thesis using later cf i by (intro scans_live[where k = "Suc n" and st' = Code]) (auto simp: u add.commute)
  next
    case False
    then show ?thesis using later cf i by (intro scans_live[where k = 1 and st' = "RawString n"]) (auto simp: u)
  qed
qed

lemma opens_raw_drop:
  assumes i: "i < length body"
  shows "opens_raw body i \<longleftrightarrow> body ! i = CHR ''r'' \<and> drop (hashes_after body i) (drop (Suc i) body) \<noteq> [] \<and>
    hd (drop (hashes_after body i) (drop (Suc i) body)) = CHR 0x22"
  by (auto simp: opens_raw_def Let_def hd_drop_conv_nth add.commute)

lemma scan_code:
  assumes i: "i < length body"
  shows "scan_text Code (drop i body) =
     (if opens_raw body i then emit (take (hashes_after body i + 2) (drop i body))
        (scan_text (RawString (hashes_after body i)) (drop (i + (hashes_after body i + 2)) body))
      else if at_pair body i (CHR ''/'') (CHR ''/'') then scan_text LineComment (drop (i + 2) body)
      else if at_pair body i (CHR ''/'') (CHR ''*'') then scan_text (BlockComment 1) (drop (i + 2) body)
      else emit [body ! i] (scan_text (if body ! i = CHR 0x22 then DqString else if body ! i = CHR 0x60 then Template else Code) (drop (i + 1) body)))"
proof -
  let ?h = "hashes_after body i" and ?bs = "drop (Suc i) body"
  have len: "length (takeWhile (\<lambda>c. c = CHR ''#'') ?bs) = ?h" by (simp add: hashes_after_def)
  have h: "takeWhile (\<lambda>c. c = CHR ''#'') ?bs = take ?h ?bs"
    using takeWhile_eq_take[of "\<lambda>c. c = CHR ''#''" ?bs] unfolding len .
  have tl: "tl (drop ?h ?bs) = drop (i + (?h + 2)) body" 
  proof -
    have "tl ys = drop 1 ys" for ys :: string by (simp add: drop_Suc)
    then show ?thesis by (simp add: add.commute)
  qed
  have "take (?h + 2) (drop i body) = body ! i # take ?h ?bs @ [CHR 0x22]" if "opens_raw body i"
  proof -
    have "?h < length ?bs" "?bs ! ?h = CHR 0x22" using that i by (auto simp: opens_raw_def Let_def add.commute)
    then have "take (Suc ?h) ?bs = take ?h ?bs @ [CHR 0x22]" by (simp only: take_Suc_conv_app_nth)
    then show ?thesis by (simp only: drop_step[OF i] add_2_eq_Suc' take_Suc_Cons)
  qed
  moreover have "scan_text Code (drop i body) =
     (if opens_raw body i then emit (body ! i # take ?h ?bs @ [CHR 0x22]) (scan_text (RawString ?h) (drop (i + (?h + 2)) body))
      else if at_pair body i (CHR ''/'') (CHR ''/'') then scan_text LineComment (drop (Suc (Suc i)) body)
      else if at_pair body i (CHR ''/'') (CHR ''*'') then scan_text (BlockComment 1) (drop (Suc (Suc i)) body)
      else emit [body ! i] (scan_text (if body ! i = CHR 0x22 then DqString else if body ! i = CHR 0x60 then Template else Code) (drop (Suc i) body)))"
    unfolding drop_step[OF i] scan_text.simps(2) Let_def len opens_raw_drop[OF i] at_pair_drop[OF i] tl tl_drop_Suc unfolding h ..
  ultimately show ?thesis by simp
qed

lemma scans_code:
  assumes later: "\<And>st j. i < j \<Longrightarrow> j \<le> length body \<Longrightarrow> scans body st j" and i: "i < length body"
  shows "scans body Code i"
  unfolding scans_def
proof (intro allI impI)
  fix cf out assume cf: "cf \<le> i"
  note u = strip_loop.simps[of body Code cf i out] scan_code[OF i] later pending_def
  consider (raw) "opens_raw body i" | (line) "\<not> opens_raw body i" "at_pair body i (CHR ''/'') (CHR ''/'')"
    | (block) "\<not> opens_raw body i" "\<not> at_pair body i (CHR ''/'') (CHR ''/'')" "at_pair body i (CHR ''/'') (CHR ''*'')"
    | (other) "\<not> opens_raw body i" "\<not> at_pair body i (CHR ''/'') (CHR ''/'')" "\<not> at_pair body i (CHR ''/'') (CHR ''*'')" by blast
  then show "settled body (strip_loop body Code cf i out) = (snd (scan_text Code (drop i body)), True,
      out @ pending body Code cf i @ fst (scan_text Code (drop i body)))"
  proof cases
    case raw
    moreover have "i + (hashes_after body i + 2) \<le> length body" using raw by (simp add: opens_raw_def Let_def)
    ultimately show ?thesis using cf
      by (intro scans_live[where k = "hashes_after body i + 2" and st' = "RawString (hashes_after body i)", OF later]) (simp_all add: u)
  next
    case line
    moreover have "i + 2 \<le> length body" using calculation by (simp add: at_pair_def)
    ultimately show ?thesis using cf
      by (intro scans_step[where k = 2 and cs = "[]" and st' = LineComment and cf' = cf and out' = "out @ substr body cf i"]) (simp_all add: u)
  next
    case block
    moreover have "i + 2 \<le> length body" using calculation by (simp add: at_pair_def)
    ultimately show ?thesis using cf
      by (intro scans_step[where k = 2 and cs = "[]" and st' = "BlockComment 1" and cf' = cf and out' = "out @ substr body cf i"]) (simp_all add: u)
  next
    case other
    then show ?thesis using cf i
      by (intro scans_live[where k = 1 and st' = "if body ! i = CHR 0x22 then DqString else if body ! i = CHR 0x60 then Template else Code", OF later])
         (simp_all add: u take1_drop)
  qed
qed

lemma scans_all: "i \<le> length body \<Longrightarrow> scans body st i"
proof (induction "length body - i" arbitrary: i st rule: less_induct)
  case less
  show ?case
  proof (cases "i = length body")
    case False
    then have i: "i < length body" using less.prems by simp
    have later: "scans body st j" if "i < j" "j \<le> length body" for st j using less.hyps[of j] that i by simp
    show ?thesis
      using scans_code[OF later i] scans_line[OF later i] scans_block[OF later i] scans_quoted[OF later i] scans_raw[OF later i]
      by (cases st) auto
  qed (simp add: scans_end)
qed

text \<open>
  C29. When the text does not end inside a comment, stripping gives what the lexer gives: the comments
  are gone, strings of all three kinds are untouched, and every line break is kept.
\<close>

theorem strip_inline_comments_exact:
  assumes "\<not> in_comment (snd (scan_text Code body))"
  shows "strip_inline_comments_in_body body = fst (scan_text Code body) \<and>
    count_list (strip_inline_comments_in_body body) NL = count_list body NL"
proof -
  obtain st cf out where run: "strip_loop body Code 0 0 [] = (st, cf, out)" by (cases "strip_loop body Code 0 0 []") auto
  have "settled body (strip_loop body Code 0 0 []) = (snd (scan_text Code body), True, fst (scan_text Code body))"
    using scans_all[of 0 body Code] by (simp add: scans_def pending_def substr_def)
  then have "strip_inline_comments_in_body body = fst (scan_text Code body)"
    using assms run by (auto simp: settled_def strip_inline_comments_in_body_def)
  then show ?thesis by (simp add: scan_text_newlines)
qed

theorem strip_inline_comments_exact_witness:
  "strip_inline_comments_in_body (''a /* b'' @ [NL] @ ''*/ '' @ [CHR 0x22] @ ''//'' @ [CHR 0x22] @ ''// c'' @ [NL]) =
     ''a '' @ [NL] @ '' '' @ [CHR 0x22] @ ''//'' @ [CHR 0x22] @ [NL]"
proof -
  let ?body = "''a /* b'' @ [NL] @ ''*/ '' @ [CHR 0x22] @ ''//'' @ [CHR 0x22] @ ''// c'' @ [NL]"
  have scan: "scan_text Code ?body = (''a '' @ [NL] @ '' '' @ [CHR 0x22] @ ''//'' @ [CHR 0x22] @ [NL], Code)" by code_simp
  show ?thesis using strip_inline_comments_exact[of ?body] unfolding scan by simp
qed

section \<open>A comment at the end of the body\<close>

lemma strip_loop_plain:
  assumes "n \<le> length body" "i \<le> n"
    and "\<forall>j. i \<le> j \<longrightarrow> j < n \<longrightarrow> body ! j \<notin> {CHR ''r'', CHR ''/'', CHR 0x22, CHR 0x60}"
  shows "strip_loop body Code cf i out = strip_loop body Code cf n out"
  using assms(2-)
proof (induction "n - i" arbitrary: i)
  case (Suc k)
  have "strip_loop body Code cf i out = strip_loop body Code cf (Suc i) out"
    using Suc.prems assms(1) Suc.hyps(2) by (subst strip_loop.simps) (auto simp: opens_raw_def at_pair_def)
  then show ?case using Suc.hyps(1)[of "Suc i"] Suc.hyps(2) Suc.prems by simp
qed simp

lemma strip_loop_line_end:
  assumes "i \<le> length body" "\<forall>j. i \<le> j \<longrightarrow> j < length body \<longrightarrow> body ! j \<noteq> NL"
  shows "strip_loop body LineComment cf i out = (LineComment, cf, out)"
  using assms
proof (induction "length body - i" arbitrary: i)
  case 0
  then show ?case by (subst strip_loop.simps) simp
next
  case (Suc k)
  have "strip_loop body LineComment cf i out = strip_loop body LineComment cf (Suc i) out"
    using Suc.prems Suc.hyps(2) by (subst strip_loop.simps) auto
  then show ?case using Suc.hyps(1)[of "Suc i"] Suc.hyps(2) Suc.prems by simp
qed

text \<open>
  A line comment that reaches the end of the body is not removed: \<^verbatim>\<open>copy_from\<close> still points before it,
  so the code is copied a second time together with the comment.
\<close>

theorem final_comment_repeats_code:
  assumes "\<forall>c\<in>set code. c \<notin> {CHR ''r'', CHR ''/'', CHR 0x22, CHR 0x60}" "NL \<notin> set comment"
  shows "strip_inline_comments_in_body (code @ ''//'' @ comment) = code @ code @ ''//'' @ comment"
proof -
  let ?body = "code @ ''//'' @ comment"
  have "strip_loop ?body Code 0 0 [] = strip_loop ?body Code 0 (length code) []"
    using assms(1) by (intro strip_loop_plain) (auto simp: nth_append)
  also have "\<dots> = strip_loop ?body LineComment 0 (length code + 2) code"
    by (subst strip_loop.simps) (simp add: opens_raw_def at_pair_def nth_append substr_def)
  also have "\<dots> = (LineComment, 0, code)"
  proof (rule strip_loop_line_end)
    show "\<forall>j. length code + 2 \<le> j \<longrightarrow> j < length ?body \<longrightarrow> ?body ! j \<noteq> NL"
    proof (intro allI impI)
      fix j assume j: "length code + 2 \<le> j" "j < length ?body"
      then have "?body ! j = comment ! (j - (length code + 2))" using nth_append[of "code @ ''//''" comment j] by simp
      moreover have "comment ! (j - (length code + 2)) \<in> set comment" using j by (intro nth_mem) simp
      ultimately show "?body ! j \<noteq> NL" using assms(2) by metis
    qed
  qed simp
  finally show ?thesis by (simp add: strip_inline_comments_in_body_def)
qed

theorem final_comment_repeats_code_witness:
  "strip_inline_comments_in_body ''x // c'' = ''x x // c''"
proof -
  have "\<forall>c\<in>set ''x ''. c \<notin> {CHR ''r'', CHR ''/'', CHR 0x22, CHR 0x60}" "NL \<notin> set '' c''" by (simp_all add: NL_def)
  from final_comment_repeats_code[OF this] show ?thesis by simp
qed

section \<open>Compaction of the indentation\<close>

lemma indent_ws_len: "is_indent c \<Longrightarrow> ws_len (c # l) = 1"
proof -
  have "ws_len (CHR 0x20 # l) = 1" "ws_len (CHR 0x09 # l) = 1" unfolding ws_len_def WHITE_SPACE_def by simp_all
  then show "is_indent c \<Longrightarrow> ws_len (c # l) = 1" by (auto simp: is_indent_def SP_def TAB_def)
qed

lemma is_blank_indent: "is_indent c \<Longrightarrow> is_blank (c # l) \<longleftrightarrow> is_blank l"
  unfolding is_blank_def by (subst trim_start.simps) (simp add: indent_ws_len)

lemma is_blank_indents: "\<forall>c\<in>set cs. is_indent c \<Longrightarrow> is_blank (cs @ l) \<longleftrightarrow> is_blank l"
  by (induction cs) (auto simp: is_blank_indent)

lemma is_blank_Nil [simp]: "is_blank []"
  unfolding is_blank_def by (subst trim_start.simps) (simp add: ws_len_def WHITE_SPACE_def)

lemma common_prefix_prefix: "prefix (common_prefix a b) a" "prefix (common_prefix a b) b"
  by (induction a b rule: common_prefix.induct) auto

lemma fold_common_prefix:
  "prefix (fold (\<lambda>line p. common_prefix p (leading_ws line)) ls p) p \<and>
   (\<forall>l\<in>set ls. prefix (fold (\<lambda>line p. common_prefix p (leading_ws line)) ls p) (leading_ws l))"
proof (induction ls arbitrary: p)
  case (Cons l ls)
  then show ?case using Cons[of "common_prefix p (leading_ws l)"] common_prefix_prefix[of p "leading_ws l"] by (auto intro: prefix_order.trans)
qed simp

lemma leading_ws_prefix: "prefix (leading_ws l) l"
  unfolding leading_ws_def by (rule takeWhile_is_prefix)

lemma common_leading:
  assumes "l \<in> set ls" "\<not> is_blank l"
  shows "prefix (longest_common_leading_ws ls) (leading_ws l)"
proof -
  have l: "l \<in> set (filter (\<lambda>l. \<not> is_blank l) ls)" using assms by simp
  then obtain f r where fr: "filter (\<lambda>l. \<not> is_blank l) ls = f # r" by (cases "filter (\<lambda>l. \<not> is_blank l) ls") auto
  then show ?thesis using l fold_common_prefix[of r "leading_ws f"] unfolding longest_common_leading_ws_def by auto
qed

lemma common_indent: "\<forall>c\<in>set (longest_common_leading_ws ls). is_indent c"
proof (cases "filter (\<lambda>l. \<not> is_blank l) ls")
  case (Cons f r)
  have "f \<in> set (filter (\<lambda>l. \<not> is_blank l) ls)" unfolding Cons by simp
  then have "f \<in> set ls \<and> \<not> is_blank f" by simp
  then have "prefix (longest_common_leading_ws ls) (leading_ws f)" using common_leading by blast
  then show ?thesis by (auto simp: leading_ws_def dest!: set_mono_prefix set_takeWhileD)
qed (simp add: longest_common_leading_ws_def)

text \<open>What a successful detection says of every line.\<close>

lemma indent_widths_spec:
  assumes "indent_widths ls tab ws = Some (tab', ws')"
  shows "(\<exists>more. ws' = ws @ more) \<and> (tab \<longrightarrow> tab') \<and>
    (\<forall>l\<in>set ls. is_blank l \<or> leading_ws l = [] \<or> tab' \<or> (TAB \<notin> set (leading_ws l) \<and> length (leading_ws l) \<in> set ws'))"
  using assms
proof (induction ls arbitrary: tab ws)
  case (Cons l ls)
  then show ?case by (fastforce simp: Let_def split: if_splits)
qed simp

lemma detect_spaces:
  assumes "detect_indent_unit ls = Some w" "0 < w" "l \<in> set ls" "\<not> is_blank l"
  shows "TAB \<notin> set (leading_ws l) \<and> w dvd length (leading_ws l)"
proof -
  obtain ws where ws: "indent_widths ls False [] = Some (False, ws)" "w = 4 \<and> (\<forall>n\<in>set ws. n mod 4 = 0) \<or> w = 2 \<and> (\<forall>n\<in>set ws. n mod 2 = 0)"
    using assms(1,2) by (auto simp: detect_indent_unit_def list_all_iff split: option.splits if_splits prod.splits)
  then show ?thesis using indent_widths_spec[OF ws(1)] assms(3,4) by (cases "leading_ws l = []") (auto simp: mod_eq_0_iff_dvd)
qed

lemma count_tabs_spaces:
  assumes "0 < w" "r = [] \<or> hd r \<noteq> SP" "j \<le> t"
  shows "count_tabs (replicate (w * t) SP @ r) w (w * j) = t - j"
  using assms(3)
proof (induction "t - j" arbitrary: j)
  case 0
  let ?l = "replicate (w * t) SP @ r"
  have "\<not> (w * t + w \<le> length ?l \<and> list_all (\<lambda>b. b = SP) (substr ?l (w * t) (w * t + w)))"
    using assms(1,2) by (cases r; cases w) (auto simp: substr_def)
  then show ?case using 0 by (subst count_tabs.simps) (auto simp: le_antisym)
next
  case (Suc k)
  let ?l = "replicate (w * t) SP @ r"
  have "w * j + w \<le> w * t" using Suc.hyps(2) by (metis Suc.prems Suc_leI add.commute diff_is_0_eq mult_Suc_right mult_le_mono2 nat.simps(3) not_less)
  then have "w * j + w \<le> length ?l" "substr ?l (w * j) (w * j + w) = replicate w SP"
    by (simp_all add: substr_def)
  then show ?case using Suc.hyps(1)[of "Suc j"] Suc.hyps(2) assms(1)
    by (subst count_tabs.simps) (simp add: list_all_iff add.commute)
qed

definition untab :: "nat \<Rightarrow> string \<Rightarrow> string" where
  "untab w l = replicate (w * length (takeWhile (\<lambda>c. c = TAB) l)) SP @ dropWhile (\<lambda>c. c = TAB) l"

lemma untab_convert:
  assumes "0 < w" "TAB \<notin> set (leading_ws l)" "w dvd length (leading_ws l)"
  shows "untab w (convert_leading_spaces_to_tabs w l) = l"
proof -
  obtain t where t: "length (leading_ws l) = w * t" using assms(3) by (auto elim: dvdE)
  have "\<forall>c\<in>set (leading_ws l). c = SP" using assms(2) by (metis leading_ws_def is_indent_def set_takeWhileD)
  then have lw: "leading_ws l = replicate (w * t) SP" using t by (metis replicate_eqI)
  define r where "r = dropWhile is_indent l"
  have l: "l = replicate (w * t) SP @ r" using lw unfolding leading_ws_def r_def by (metis takeWhile_dropWhile_id)
  have r: "r = [] \<or> \<not> is_indent (hd r)" using hd_dropWhile[of is_indent l] unfolding r_def by blast
  have "count_tabs l w 0 = t" using count_tabs_spaces[of w r 0 t] assms(1) r unfolding l by (auto simp: is_indent_def)
  then have c: "convert_leading_spaces_to_tabs w l = replicate t TAB @ r" unfolding convert_leading_spaces_to_tabs_def Let_def by (simp add: l mult.commute)
  have "takeWhile (\<lambda>c. c = TAB) r = []" "dropWhile (\<lambda>c. c = TAB) r = r" using r by (cases r; auto simp: is_indent_def)+
  then show ?thesis unfolding c untab_def by (simp add: l takeWhile_append dropWhile_append)
qed

definition dedented :: "string list \<Rightarrow> string list" where
  "dedented ls = (let common = longest_common_leading_ws ls in map (\<lambda>l. if prefix common l then drop (length common) l else []) ls)"

definition compacted :: "string list \<Rightarrow> string list" where
  "compacted ls = (case detect_indent_unit (dedented ls) of
     Some w \<Rightarrow> if 0 < w then map (convert_leading_spaces_to_tabs w) (dedented ls) else dedented ls | None \<Rightarrow> dedented ls)"

lemma compact_eq:
  "ls \<noteq> [] \<Longrightarrow> compact_body_indent ls =
     \<lparr> cb_body = join_str [NL] (compacted ls), cb_dedented_prefix_len = try_u32 (length (longest_common_leading_ws ls)),
       cb_indent_unit = (case detect_indent_unit (dedented ls) of Some w \<Rightarrow> if 0 < w then [TAB] else [] | None \<Rightarrow> [TAB]) \<rparr>"
  by (simp add: compact_body_indent_def compacted_def dedented_def Let_def split: option.split)

lemma dedented_line:
  assumes "l \<in> set ls"
  shows "prefix (longest_common_leading_ws ls) l \<longrightarrow> (is_blank (drop (length (longest_common_leading_ws ls)) l) \<longleftrightarrow> is_blank l)"
    and "\<not> is_blank l \<Longrightarrow> prefix (longest_common_leading_ws ls) l"
  using common_indent[of ls] common_leading[OF assms] leading_ws_prefix[of l]
  by (auto simp: prefix_def is_blank_indents)

lemma count_tabs_prefix: "\<exists>r. drop i l = replicate (count_tabs l w i * w) SP @ r"
proof (induction l w i rule: count_tabs.induct)
  case (1 l w i)
  show ?case
  proof (cases "0 < w \<and> i + w \<le> length l \<and> list_all (\<lambda>b. b = SP) (substr l i (i + w))")
    case True
    then obtain r where r: "drop (i + w) l = replicate (count_tabs l w (i + w) * w) SP @ r" using 1 by blast
    have "take w (drop i l) = replicate w SP" using True by (intro replicate_eqI) (auto simp: substr_def list_all_iff)
    then have "drop i l = replicate w SP @ drop (i + w) l" using append_take_drop_id[of w "drop i l"] by (simp add: add.commute)
    moreover have "count_tabs l w i = 1 + count_tabs l w (i + w)" using True by (subst count_tabs.simps) simp
    ultimately show ?thesis using r by (simp add: replicate_add)
  next
    case False
    then have "count_tabs l w i = 0" by (subst count_tabs.simps) simp
    then show ?thesis by simp
  qed
qed

lemma convert_shape:
  obtains t r where "l = replicate (t * w) SP @ r" "convert_leading_spaces_to_tabs w l = replicate t TAB @ r"
  using count_tabs_prefix[of 0 l w] that[of "count_tabs l w 0"]
  by (auto simp: convert_leading_spaces_to_tabs_def Let_def)

lemma convert_blank: "is_blank (convert_leading_spaces_to_tabs w l) \<longleftrightarrow> is_blank l"
  by (rule convert_shape[of l w]) (auto simp: is_blank_indents is_indent_def)

lemma length_compacted: "length (compacted ls) = length ls"
  by (simp add: compacted_def dedented_def Let_def split: option.split)

lemma compacted_no_newline:
  assumes "\<forall>l\<in>set ls. NL \<notin> set l"
  shows "\<forall>l\<in>set (compacted ls). NL \<notin> set l"
proof -
  have d: "\<forall>l\<in>set (dedented ls). NL \<notin> set l" using assms by (auto simp: dedented_def Let_def dest!: in_set_dropD)
  have "NL \<notin> set (convert_leading_spaces_to_tabs w l)" if "NL \<notin> set l" for w l
    by (rule convert_shape[of l w]) (use that in \<open>auto simp: NL_def TAB_def\<close>)
  then show ?thesis using d by (auto simp: compacted_def split: option.split)
qed

lemma compacted_restores:
  obtains restore where
    "restore = id \<or> restore = untab 4 \<or> restore = untab 2"
    "detect_indent_unit (dedented ls) = Some 0 \<longrightarrow> restore = id"
    "\<forall>i<length ls. \<not> is_blank (ls ! i) \<longrightarrow> ls ! i = longest_common_leading_ws ls @ restore (compacted ls ! i)"
    "\<forall>i<length ls. is_blank (ls ! i) \<longrightarrow> is_blank (compacted ls ! i)"
proof -
  let ?common = "longest_common_leading_ws ls"
  have ded: "\<not> is_blank (ls ! i) \<longrightarrow> ls ! i = ?common @ dedented ls ! i \<and> \<not> is_blank (dedented ls ! i)" if "i < length ls" for i
    using that dedented_line[of "ls ! i" ls] by (auto simp: dedented_def Let_def prefix_def)
  have blank: "is_blank (ls ! i) \<longrightarrow> is_blank (dedented ls ! i)" if "i < length ls" for i
    using that dedented_line(1)[of "ls ! i" ls] by (auto simp: dedented_def Let_def)
  show thesis
  proof (cases "\<exists>w. detect_indent_unit (dedented ls) = Some w \<and> 0 < w")
    case True
    then obtain w where w: "detect_indent_unit (dedented ls) = Some w" "0 < w" by blast
    then have "w = 4 \<or> w = 2" by (auto simp: detect_indent_unit_def split: option.splits if_splits prod.splits)
    moreover have c: "compacted ls ! i = convert_leading_spaces_to_tabs w (dedented ls ! i)" if "i < length ls" for i
      using that w by (simp add: compacted_def dedented_def Let_def)
    moreover have "untab w (convert_leading_spaces_to_tabs w (dedented ls ! i)) = dedented ls ! i" if "i < length ls" "\<not> is_blank (ls ! i)" for i
    proof -
      have "dedented ls ! i \<in> set (dedented ls)" using that(1) by (intro nth_mem) (simp add: dedented_def Let_def)
      then show ?thesis using detect_spaces[OF w] ded that untab_convert[OF w(2)] by blast
    qed
    ultimately show thesis using that[of "untab w"] ded blank w by (auto simp: convert_blank)
  next
    case False
    then have "compacted ls = dedented ls" by (auto simp: compacted_def split: option.split)
    then show thesis using that[of id] ded blank by simp
  qed
qed

section \<open>The slice\<close>

lemma str_lines_no_newline: "l \<in> set (str_lines s) \<Longrightarrow> NL \<notin> set l"
proof -
  have "NL \<notin> set (chomp_cr l)" if "l \<in> set (split_char NL s)" for l
    using split_char_free[OF that] by (auto simp: chomp_cr_def dest: in_set_butlastD)
  then show "l \<in> set (str_lines s) \<Longrightarrow> NL \<notin> set l"
    using split_char_free[of "last (split_char NL s)" NL s] by (auto simp: str_lines_def Let_def dest: in_set_butlastD split: if_splits)
qed

text \<open>
  Without comment stripping the slice loses nothing but indentation: putting the common prefix back
  and expanding the leading tabs by one uniform width gives, line by line, the source lines of the
  symbol; the cap on the lines is reported.
\<close>

theorem body_slice_restores_source:
  assumes found: "symbol_by_fqdn K db fqdn = Inr (Some s)" "read_file (loc_file (rs_location s)) = Some content"
    and span: "loc_start_line (rs_location s) \<noteq> 0" "loc_start_line (rs_location s) \<le> loc_end_line (rs_location s)"
      "unat (loc_end_line (rs_location s)) \<le> length (str_lines content)"
    and cap: "cap \<noteq> Some 0"
  shows "let first = unat (loc_start_line (rs_location s));
             source = take (unat (loc_end_line (rs_location s)) + 1 - first) (drop (first - 1) (str_lines content));
             kept = (case cap of None \<Rightarrow> source | Some n \<Rightarrow> take (unat n) source)
         in \<exists>sl common restore. body_for_fqdn K read_file db fqdn (body_options_default\<lparr>bo_max_lines := cap\<rparr>) = Inr (Some sl) \<and>
              bsl_total_body_lines sl = of_nat (length source) \<and> (bsl_truncated sl \<longleftrightarrow> length kept < length source) \<and>
              bsl_dedented_prefix_len sl = try_u32 (length common) \<and> restore \<in> {id, untab 4, untab 2} \<and>
              (bsl_indent_unit sl = [] \<longrightarrow> restore = id) \<and>
              length (split_char NL (bsl_body sl)) = length kept \<and>
              (\<forall>i<length kept. if is_blank (kept ! i) then is_blank (split_char NL (bsl_body sl) ! i)
                 else kept ! i = common @ restore (split_char NL (bsl_body sl) ! i))"
proof -
  let ?loc = "rs_location s" and ?ls = "str_lines content"
  let ?first = "unat (loc_start_line ?loc)" and ?last = "unat (loc_end_line ?loc)"
  define source where "source = take (?last + 1 - ?first) (drop (?first - 1) ?ls)"
  define kept where "kept = (case cap of None \<Rightarrow> source | Some n \<Rightarrow> take (unat n) source)"
  have order: "1 \<le> ?first" "?first \<le> ?last" using span(1,2) by (simp_all add: word_le_nat_alt Suc_leI unat_gt_0)
  have len: "length source = ?last + 1 - ?first" using span(3) order by (simp add: source_def)
  then have source: "source \<noteq> []" "length source < 2 ^ 32" using order unsigned_less[where ?'a = nat, of "loc_end_line ?loc"] by auto
  have source_alt: "take (min ?last (length ?ls) - (?first - 1)) (drop (?first - 1) ?ls) = source"
    using span(3) order by (simp add: source_def)
  have kept: "kept \<noteq> []" using source cap by (auto simp: kept_def unat_eq_zero split: option.split)
  have capped: "cap_lines (body_options_default\<lparr>bo_max_lines := cap\<rparr>) source = (kept, length kept < length source)"
    by (auto simp: cap_lines_def body_options_default_def kept_def split: option.split)
  have nl: "\<forall>l\<in>set kept. NL \<notin> set l"
    using str_lines_no_newline by (auto simp: kept_def source_def dest!: in_set_takeD in_set_dropD split: option.splits)
  obtain restore where r: "restore = id \<or> restore = untab 4 \<or> restore = untab 2" "detect_indent_unit (dedented kept) = Some 0 \<longrightarrow> restore = id"
      "\<forall>i<length kept. \<not> is_blank (kept ! i) \<longrightarrow> kept ! i = longest_common_leading_ws kept @ restore (compacted kept ! i)"
      "\<forall>i<length kept. is_blank (kept ! i) \<longrightarrow> is_blank (compacted kept ! i)"
    by (rule compacted_restores[of kept]) blast
  let ?opts = "body_options_default\<lparr>bo_max_lines := cap\<rparr>"
  define sl where "sl = slice_body s ?opts content"
  have opts: "bo_strip_attrs ?opts = False" "bo_strip_inline_comments ?opts = False" "bo_collapse_blank_lines ?opts = False"
      "to_signature ?opts source = (source, False)"
    by (simp_all add: body_options_default_def to_signature_def)
  have "\<not> min ?last (length ?ls) \<le> ?first - 1" using order span(3) by simp
  then have sl_eq: "sl = \<lparr> bsl_fqdn = rs_fqdn s, bsl_file = loc_file ?loc, bsl_start_line = loc_start_line ?loc,
      bsl_end_line = loc_end_line ?loc, bsl_body = join_str [NL] (compacted kept), bsl_truncated = (length kept < length source),
      bsl_total_body_lines = of_nat (length source), bsl_stripped_lines = try_u32 0, bsl_signature_only = False,
      bsl_dedented_prefix_len = try_u32 (length (longest_common_leading_ws kept)),
      bsl_indent_unit = (case detect_indent_unit (dedented kept) of Some w \<Rightarrow> if 0 < w then [TAB] else [] | None \<Rightarrow> [TAB]) \<rparr>"
    unfolding sl_def slice_body_def Let_def by (simp only: source_alt opts if_False drop_0 prod.case capped compact_eq[OF kept]
      CompactedBody.simps try_u32_def source(2) if_True)
  have sl: "bsl_body sl = join_str [NL] (compacted kept)" "bsl_truncated sl \<longleftrightarrow> length kept < length source"
      "bsl_total_body_lines sl = of_nat (length source)" "bsl_dedented_prefix_len sl = try_u32 (length (longest_common_leading_ws kept))"
      "bsl_indent_unit sl = (case detect_indent_unit (dedented kept) of Some w \<Rightarrow> if 0 < w then [TAB] else [] | None \<Rightarrow> [TAB])"
    by (simp_all add: sl_eq)
  have "compacted kept \<noteq> []" using kept length_compacted[of kept] by force
  then have out: "split_char NL (bsl_body sl) = compacted kept"
    unfolding sl(1) using compacted_no_newline[OF nl] by (rule split_join)
  have "body_for_fqdn K read_file db fqdn ?opts = Inr (Some sl)" using found by (simp add: body_for_fqdn_def sl_def ebind_def)
  moreover have "bsl_indent_unit sl = [] \<longrightarrow> restore = id" using r(2) unfolding sl(5) by (auto split: option.splits)
  ultimately show ?thesis
    unfolding Let_def source_def[symmetric] kept_def[symmetric]
    by (intro exI[of _ sl] exI[of _ "longest_common_leading_ws kept"] exI[of _ restore]) (use sl(2-4) r(1,3,4) out length_compacted[of kept] in auto)
qed

definition demo_source :: string where
  "demo_source = ''  fn f() {'' @ [NL] @ ''      x }'' @ [NL] @ ''y''"

theorem body_slice_restores_source_witness:
  "\<exists>sl. body_for_fqdn demo_codec (\<lambda>_. Some demo_source) demo_db ''f'' (body_options_default\<lparr>bo_max_lines := Some 1\<rparr>) = Inr (Some sl) \<and>
     bsl_total_body_lines sl = 2 \<and> bsl_truncated sl \<and> length (split_char NL (bsl_body sl)) = 1"
proof -
  have found: "symbol_by_fqdn demo_codec demo_db ''f'' = Inr (Some (demo_symbol ''f''))" by code_simp
  have ls: "str_lines demo_source = [''  fn f() {'', ''      x }'', ''y'']" by code_simp
  have loc: "loc_start_line (rs_location (demo_symbol ''f'')) = 1" "loc_end_line (rs_location (demo_symbol ''f'')) = 2"
    by (simp_all add: demo_symbol_def)
  show ?thesis
    using body_slice_restores_source[OF found, of "\<lambda>_. Some demo_source" demo_source "Some 1"]
    by (auto simp: loc ls Let_def)
qed

text \<open>The noise that is dropped never exceeds the slice, so the index of the remaining lines is in range.\<close>

lemma noise_loop_le: "noise_loop ls d b \<le> length ls"
  by (induction ls d b rule: noise_loop.induct) (auto simp: Let_def)

end
