(* ===== verification/Query_Context.thy ===== *)
theory Query_Context
  imports Query_Body "HOL-Library.Multiset"
begin

text \<open>
  Call sites (\<^verbatim>\<open>query/call_sites.rs\<close>) and the context of a symbol with its neighbours (\<^verbatim>\<open>query.rs\<close>).

  The JSON decoder of call arguments is an argument of the definitions.  The statement of
  \<^verbatim>\<open>context_for_symbol\<close> takes the first matching row of a query without \<^verbatim>\<open>ORDER BY\<close>: the order in which
  the engine visits the rows is an argument as well.
\<close>

section \<open>Call sites\<close>

record CallSiteFilters =
  cf_from_fqdn :: "string option"
  cf_callee_text :: "string option"
  cf_callee_pattern :: "string option"

definition call_filters_default :: CallSiteFilters where
  "call_filters_default = \<lparr> cf_from_fqdn = None, cf_callee_text = None, cf_callee_pattern = None \<rparr>"

definition call_filters_is_empty :: "CallSiteFilters \<Rightarrow> bool" where
  "call_filters_is_empty f \<longleftrightarrow> cf_from_fqdn f = None \<and> cf_callee_text f = None \<and> cf_callee_pattern f = None"

definition FIND_CALL_SITES_MAX_LIMIT :: "32 word" where "FIND_CALL_SITES_MAX_LIMIT = 200"
definition FIND_CALL_SITES_DEFAULT_LIMIT :: "32 word" where "FIND_CALL_SITES_DEFAULT_LIMIT = 50"
definition TEXTUAL_CALLERS_CAP :: "32 word" where "TEXTUAL_CALLERS_CAP = 25"

type_synonym args_decoder = "string \<Rightarrow> RawCallArg list option"

definition hydrate :: "codec \<Rightarrow> args_decoder \<Rightarrow> call_row \<Rightarrow> RawCallSite result" where
  "hydrate K decode_args r =
    (case decode_args (c_args_json r) of
       None \<Rightarrow> Inl Json
     | Some args \<Rightarrow> (case strs_from_json K (c_receiver_chain_json r) of
         None \<Rightarrow> Inl Json
       | Some chain \<Rightarrow> Inr \<lparr> cs_from_fqdn = c_from_fqdn r, cs_callee_text = c_callee_text r, cs_args = args,
           cs_receiver_chain = chain,
           cs_site = \<lparr> site_file = c_file_path r, site_line = c_line r, site_col = c_col r \<rparr> \<rparr>))"

definition call_matches :: "CallSiteFilters \<Rightarrow> call_row \<Rightarrow> bool" where
  "call_matches f r \<longleftrightarrow>
     (case cf_from_fqdn f of None \<Rightarrow> True | Some x \<Rightarrow> c_from_fqdn r = x) \<and>
     (case cf_callee_text f of None \<Rightarrow> True | Some x \<Rightarrow> c_callee_text r = x) \<and>
     (case cf_callee_pattern f of None \<Rightarrow> True | Some p \<Rightarrow> sql_glob p (c_callee_text r))"

definition find_call_sites_conn ::
  "codec \<Rightarrow> args_decoder \<Rightarrow> db \<Rightarrow> CallSiteFilters \<Rightarrow> 32 word \<Rightarrow> RawCallSite list result" where
  "find_call_sites_conn K decode_args db f limit =
    collect_ok (hydrate K decode_args) (take (unat limit) (sort_key c_id (filter (call_matches f) (t_call_sites db))))"

definition find_call_sites ::
  "codec \<Rightarrow> args_decoder \<Rightarrow> db \<Rightarrow> CallSiteFilters \<Rightarrow> 32 word \<Rightarrow> RawCallSite list result" where
  "find_call_sites K decode_args db f limit =
    (if limit = 0 then Inr []
     else find_call_sites_conn K decode_args db f (min limit FIND_CALL_SITES_MAX_LIMIT))"

text \<open>\<^verbatim>\<open>str::trim\<close>\<close>

function trim_end :: "string \<Rightarrow> string" where
  "trim_end s =
    (case find (\<lambda>p. suffix p s) WHITE_SPACE of None \<Rightarrow> s | Some p \<Rightarrow> trim_end (take (length s - length p) s))"
  by pat_completeness auto
termination
proof (relation "measure length")
  fix s p assume "find (\<lambda>p. suffix p s) WHITE_SPACE = Some p"
  then have "p \<in> set WHITE_SPACE" "suffix p s" using find_Some_set by fast+
  moreover have "p \<noteq> []" using calculation(1) by (auto simp: WHITE_SPACE_def)
  ultimately show "(take (length s - length p) s, s) \<in> measure length" by (auto simp: suffix_def)
qed simp

declare trim_end.simps [simp del]

definition str_trim :: "string \<Rightarrow> string" where
  "str_trim s = trim_end (trim_start s)"

text \<open>The loop over the fetched rows with \<^verbatim>\<open>seen\<close> and \<^verbatim>\<open>out\<close>.\<close>

fun textual_loop :: "string set \<Rightarrow> nat \<Rightarrow> RawCallSite list \<Rightarrow> string set \<Rightarrow> RawCallSite list \<Rightarrow> RawCallSite list" where
  "textual_loop exclude limit [] seen out = out"
| "textual_loop exclude limit (row # rows) seen out =
    (if cs_from_fqdn row \<in> exclude \<or> cs_from_fqdn row \<in> seen then textual_loop exclude limit rows seen out
     else let out = out @ [row] in
       if limit \<le> length out then out
       else textual_loop exclude limit rows (insert (cs_from_fqdn row) seen) out)"

definition callers_textual_for_name ::
  "codec \<Rightarrow> args_decoder \<Rightarrow> db \<Rightarrow> string \<Rightarrow> string set \<Rightarrow> 32 word \<Rightarrow> RawCallSite list result" where
  "callers_textual_for_name K decode_args db name exclude limit =
    (let name = str_trim name in
     if name = [] \<or> limit = 0 then Inr []
     else ebind (find_call_sites K decode_args db
            (call_filters_default\<lparr>cf_callee_pattern := Some (''*'' @ name @ ''*'')\<rparr>) FIND_CALL_SITES_MAX_LIMIT) (\<lambda>raw.
          Inr (textual_loop exclude (unat limit) raw {} [])))"

section \<open>Context of a symbol\<close>

record SymbolContext =
  sc_symbol :: RawSymbol
  sc_language :: string
  sc_enrichment_description :: "string option"
  sc_document_description :: "string option"

record NeighborSymbol =
  nb_edge_kind :: EdgeKind
  nb_target :: ResolvedOrUnresolved
  nb_resolved_symbol :: "RawSymbol option"

record SymbolContextWithNeighbors =
  cx_context :: SymbolContext
  cx_callers :: "NeighborSymbol list"
  cx_callees :: "NeighborSymbol list"
  cx_imports :: "NeighborSymbol list"
  cx_imported_by :: "NeighborSymbol list"
  cx_dependents :: "NeighborSymbol list"
  cx_depends_on :: "NeighborSymbol list"
  cx_tests :: "NeighborSymbol list"
  cx_textual_callers :: "RawCallSite list"

type_synonym row_order = "sym_row list \<Rightarrow> sym_row list"

definition context_for_symbol :: "codec \<Rightarrow> row_order \<Rightarrow> db \<Rightarrow> string \<Rightarrow> SymbolContext option result" where
  "context_for_symbol K visit db fqdn =
    (case visit (filter (\<lambda>r. s_fqdn r = fqdn) (t_symbols db)) of
       [] \<Rightarrow> Inr None
     | r # _ \<Rightarrow> ebind (build_symbol K r) (\<lambda>symbol.
         Inr (Some \<lparr> sc_symbol = symbol, sc_language = s_language r,
           sc_enrichment_description = Option.bind (lookup_by en_symbol_id (s_id r) (t_enrichments db)) en_description,
           sc_document_description = Option.bind (lookup_by d_symbol_id (s_id r) (t_documents db)) d_description \<rparr>)))"

fun target_text :: "ResolvedOrUnresolved \<Rightarrow> string" where
  "target_text (ResolvedOrUnresolved.Resolved fqdn) = fqdn"
| "target_text (ResolvedOrUnresolved.Unresolved name) = name"
| "target_text (ResolvedOrUnresolved.UnresolvedBridge _ name) = name"

definition neighbor_looks_like_test :: "NeighborSymbol \<Rightarrow> bool" where
  "neighbor_looks_like_test n \<longleftrightarrow>
     (let t = target_text (nb_target n) in
      str_contains ''::tests::'' t \<or> str_contains ''::test::'' t \<or> suffix ''_test'' t \<or> suffix ''_tests'' t \<or>
      suffix ''.test'' t \<or> suffix ''.spec'' t)"

definition neighbor_outbound :: "codec \<Rightarrow> db \<Rightarrow> 8 word \<Rightarrow> RawEdge \<Rightarrow> NeighborSymbol result" where
  "neighbor_outbound K db depth e =
    ebind (if 2 \<le> depth then (case re_to e of ResolvedOrUnresolved.Resolved fqdn \<Rightarrow> symbol_by_fqdn K db fqdn | _ \<Rightarrow> Inr None)
           else Inr None) (\<lambda>resolved.
    Inr \<lparr> nb_edge_kind = re_kind e, nb_target = re_to e, nb_resolved_symbol = resolved \<rparr>)"

definition neighbor_inbound :: "codec \<Rightarrow> db \<Rightarrow> 8 word \<Rightarrow> RawEdge \<Rightarrow> NeighborSymbol result" where
  "neighbor_inbound K db depth e =
    ebind (if 2 \<le> depth then symbol_by_fqdn K db (re_from_fqdn e) else Inr None) (\<lambda>resolved.
    Inr \<lparr> nb_edge_kind = re_kind e, nb_target = ResolvedOrUnresolved.Resolved (re_from_fqdn e), nb_resolved_symbol = resolved \<rparr>)"

text \<open>
  One loop over the edges of a direction; the three vectors receive the calls, the imports and the
  other kinds.
\<close>

fun group_neighbors ::
  "(RawEdge \<Rightarrow> NeighborSymbol result) \<Rightarrow> RawEdge list \<Rightarrow>
   NeighborSymbol list \<times> NeighborSymbol list \<times> NeighborSymbol list \<Rightarrow>
   (NeighborSymbol list \<times> NeighborSymbol list \<times> NeighborSymbol list) result" where
  "group_neighbors neighbor [] acc = Inr acc"
| "group_neighbors neighbor (e # es) (calls, imports, others) =
    ebind (neighbor e) (\<lambda>n.
    group_neighbors neighbor es
      (case re_kind e of
         EdgeKind.Calls \<Rightarrow> (calls @ [n], imports, others)
       | EdgeKind.Imports \<Rightarrow> (calls, imports @ [n], others)
       | _ \<Rightarrow> (calls, imports, others @ [n])))"

definition resolved_callers :: "NeighborSymbol list \<Rightarrow> string list" where
  "resolved_callers callers =
    concat (map (\<lambda>n. case nb_target n of ResolvedOrUnresolved.Resolved fqdn \<Rightarrow> [fqdn] | _ \<Rightarrow> []) callers)"

definition context_for_symbol_with_neighbors ::
  "codec \<Rightarrow> args_decoder \<Rightarrow> row_order \<Rightarrow> db \<Rightarrow> string \<Rightarrow> 8 word \<Rightarrow> SymbolContextWithNeighbors option result" where
  "context_for_symbol_with_neighbors K decode_args visit db fqdn depth =
    (let depth = max 1 (min 2 depth) in
     ebind (context_for_symbol K visit db fqdn) (\<lambda>found.
     case found of
       None \<Rightarrow> Inr None
     | Some context \<Rightarrow>
         ebind (edges_from K db fqdn) (\<lambda>outs.
         ebind (group_neighbors (neighbor_outbound K db depth) outs ([], [], [])) (\<lambda>(callees, imports, depends_on).
         ebind (edges_to K db fqdn) (\<lambda>ins.
         ebind (group_neighbors (neighbor_inbound K db depth) ins ([], [], [])) (\<lambda>(callers, imported_by, dependents).
         let tests = filter neighbor_looks_like_test (callers @ dependents) in
         ebind (if 2 \<le> depth \<and> rs_kind (sc_symbol context) = Kind.Callable
                then callers_textual_for_name K decode_args db (rs_name (sc_symbol context))
                       (insert (rs_fqdn (sc_symbol context)) (set (resolved_callers callers))) TEXTUAL_CALLERS_CAP
                else Inr []) (\<lambda>textual.
         Inr (Some \<lparr> cx_context = context, cx_callers = callers, cx_callees = callees, cx_imports = imports,
           cx_imported_by = imported_by, cx_dependents = dependents, cx_depends_on = depends_on, cx_tests = tests,
           cx_textual_callers = textual \<rparr>))))))))"

section \<open>Neighbours\<close>

definition other_kind :: "EdgeKind \<Rightarrow> bool" where
  "other_kind k \<longleftrightarrow> k \<noteq> EdgeKind.Calls \<and> k \<noteq> EdgeKind.Imports"

lemma neighbor_kind:
  "neighbor_outbound K db d e = Inr n \<Longrightarrow> nb_edge_kind n = re_kind e"
  "neighbor_inbound K db d e = Inr n \<Longrightarrow> nb_edge_kind n = re_kind e"
  by (auto simp: neighbor_outbound_def neighbor_inbound_def ebind_Inr)

lemma group_neighbors_eq:
  assumes kind: "\<And>e n. nb e = Inr n \<Longrightarrow> nb_edge_kind n = re_kind e"
  shows "group_neighbors nb es (cs, is, os) = ebind (collect_ok nb es) (\<lambda>ns.
    Inr (cs @ filter (\<lambda>n. nb_edge_kind n = EdgeKind.Calls) ns, is @ filter (\<lambda>n. nb_edge_kind n = EdgeKind.Imports) ns,
         os @ filter (\<lambda>n. other_kind (nb_edge_kind n)) ns))"
proof (induction es arbitrary: cs "is" os)
  case (Cons e es)
  show ?case
  proof (cases "nb e")
    case (Inr n)
    then have k: "nb_edge_kind n = re_kind e" by (rule kind)
    show ?thesis
      by (cases "collect_ok nb es"; cases "re_kind e") (simp_all add: Inr k Cons other_kind_def)
  qed simp
qed simp

text \<open>What a neighbour says of its edge.\<close>

definition neighbor_of_out :: "codec \<Rightarrow> db \<Rightarrow> bool \<Rightarrow> RawEdge \<Rightarrow> NeighborSymbol \<Rightarrow> bool" where
  "neighbor_of_out K db rich e n \<longleftrightarrow> nb_edge_kind n = re_kind e \<and> nb_target n = re_to e \<and>
     (case re_to e of ResolvedOrUnresolved.Resolved fqdn \<Rightarrow>
        if rich then symbol_by_fqdn K db fqdn = Inr (nb_resolved_symbol n) else nb_resolved_symbol n = None
      | _ \<Rightarrow> nb_resolved_symbol n = None)"

definition neighbor_of_in :: "codec \<Rightarrow> db \<Rightarrow> bool \<Rightarrow> RawEdge \<Rightarrow> NeighborSymbol \<Rightarrow> bool" where
  "neighbor_of_in K db rich e n \<longleftrightarrow> nb_edge_kind n = re_kind e \<and> nb_target n = ResolvedOrUnresolved.Resolved (re_from_fqdn e) \<and>
     (if rich then symbol_by_fqdn K db (re_from_fqdn e) = Inr (nb_resolved_symbol n) else nb_resolved_symbol n = None)"

lemma neighbor_outbound_Inr: "neighbor_outbound K db d e = Inr n \<Longrightarrow> neighbor_of_out K db (2 \<le> d) e n"
  by (auto simp: neighbor_outbound_def neighbor_of_out_def ebind_Inr split: ResolvedOrUnresolved.splits if_splits)

lemma neighbor_inbound_Inr: "neighbor_inbound K db d e = Inr n \<Longrightarrow> neighbor_of_in K db (2 \<le> d) e n"
  by (auto simp: neighbor_inbound_def neighbor_of_in_def ebind_Inr split: if_splits)

lemma clamp_rich: "2 \<le> max 1 (min 2 d) \<longleftrightarrow> 2 \<le> (d :: 8 word)"
  by (auto simp: max_def min_def word_le_nat_alt)

definition grouped :: "NeighborSymbol list \<Rightarrow> NeighborSymbol list \<Rightarrow> NeighborSymbol list \<Rightarrow> NeighborSymbol list \<Rightarrow> bool" where
  "grouped ns calls imports others \<longleftrightarrow>
     calls = filter (\<lambda>n. nb_edge_kind n = EdgeKind.Calls) ns \<and> imports = filter (\<lambda>n. nb_edge_kind n = EdgeKind.Imports) ns \<and>
     others = filter (\<lambda>n. other_kind (nb_edge_kind n)) ns \<and> mset (calls @ imports @ others) = mset ns"

lemma grouped_filters:
  "grouped ns (filter (\<lambda>n. nb_edge_kind n = EdgeKind.Calls) ns) (filter (\<lambda>n. nb_edge_kind n = EdgeKind.Imports) ns)
     (filter (\<lambda>n. other_kind (nb_edge_kind n)) ns)"
  by (induction ns) (auto simp: grouped_def other_kind_def)


definition demo_args :: args_decoder where
  "demo_args = (\<lambda>_. Some [])"


section \<open>Textual callers\<close>

lemma textual_loop_sound:
  assumes "distinct (map cs_from_fqdn out)" "seen = cs_from_fqdn ` set out" "length out < limit" "cs_from_fqdn ` set out \<inter> exclude = {}"
  shows "let res = textual_loop exclude limit rows seen out in
    distinct (map cs_from_fqdn res) \<and> length res \<le> limit \<and> cs_from_fqdn ` set res \<inter> exclude = {} \<and>
    set res \<subseteq> set out \<union> set rows \<and> set out \<subseteq> set res \<and>
    (length res < limit \<longrightarrow> cs_from_fqdn ` set rows \<subseteq> exclude \<union> cs_from_fqdn ` set res)"
  using assms
proof (induction rows arbitrary: seen out)
  case (Cons row rows)
  show ?case
  proof (cases "cs_from_fqdn row \<in> exclude \<or> cs_from_fqdn row \<in> seen")
    case True
    then show ?thesis using Cons.IH[OF Cons.prems] Cons.prems(2) by (auto simp: Let_def)
  next
    case new: False
    show ?thesis
    proof (cases "limit \<le> length out + 1")
      case True
      then show ?thesis using new Cons.prems by (auto simp: Let_def)
    next
      case False
      then show ?thesis using new Cons.prems Cons.IH[of "out @ [row]" "insert (cs_from_fqdn row) seen"] by (auto simp: Let_def)
    qed
  qed
qed (auto simp: Let_def)

lemma list_all2_right: "list_all2 R xs ys \<Longrightarrow> y \<in> set ys \<Longrightarrow> \<exists>x\<in>set xs. R x y"
  by (induction rule: list_all2_induct) auto

lemma list_all2_left: "list_all2 R xs ys \<Longrightarrow> x \<in> set xs \<Longrightarrow> \<exists>y\<in>set ys. R x y"
  by (induction rule: list_all2_induct) auto

text \<open>The rows a name search matches.\<close>

definition mentions :: "string \<Rightarrow> call_row \<Rightarrow> bool" where
  "mentions name r \<longleftrightarrow> sql_glob (''*'' @ str_trim name @ ''*'') (c_callee_text r)"

lemma hydrate_Inr: "hydrate K dec r = Inr x \<Longrightarrow> cs_from_fqdn x = c_from_fqdn r \<and> cs_callee_text x = c_callee_text r"
  by (auto simp: hydrate_def split: option.splits)

text \<open>
  The textual callers of a name have different callers, none excluded, at most as many as asked
  for, and all mention the name; when no more than two hundred call sites mention it and the list is
  not full, every other caller that mentions the name is listed, so a symbol with a textual caller
  does not look dead.
\<close>

theorem textual_callers_complete:
  assumes run: "callers_textual_for_name K decode_args db name exclude limit = Inr rows"
    and "str_trim name \<noteq> []" "limit \<noteq> 0"
  shows "distinct (map cs_from_fqdn rows) \<and> length rows \<le> unat limit \<and> cs_from_fqdn ` set rows \<inter> exclude = {} \<and>
    (\<forall>x\<in>set rows. \<exists>r\<in>set (t_call_sites db). mentions name r \<and> cs_from_fqdn x = c_from_fqdn r \<and> cs_callee_text x = c_callee_text r) \<and>
    (length (filter (mentions name) (t_call_sites db)) \<le> 200 \<and> length rows < unat limit \<longrightarrow>
       (\<forall>r\<in>set (t_call_sites db). mentions name r \<longrightarrow> c_from_fqdn r \<in> exclude \<union> cs_from_fqdn ` set rows))"
proof -
  let ?f = "call_filters_default\<lparr>cf_callee_pattern := Some (''*'' @ str_trim name @ ''*'')\<rparr>"
  let ?hits = "sort_key c_id (filter (mentions name) (t_call_sites db))"
  have m: "call_matches ?f = mentions name" by (auto simp: call_matches_def call_filters_default_def mentions_def)
  obtain raw where raw: "collect_ok (hydrate K decode_args) (take 200 ?hits) = Inr raw" "rows = textual_loop exclude (unat limit) raw {} []"
    using run assms(2,3)
    by (auto simp: callers_textual_for_name_def Let_def ebind_Inr find_call_sites_def find_call_sites_conn_def m[simplified] FIND_CALL_SITES_MAX_LIMIT_def)
  have l2: "list_all2 (\<lambda>r x. hydrate K decode_args r = Inr x) (take 200 ?hits) raw" using raw(1) by (simp add: collect_ok_Inr)
  have "0 < unat limit" using assms(3) by (simp add: unat_gt_0)
  then have t: "distinct (map cs_from_fqdn rows)" "length rows \<le> unat limit" "cs_from_fqdn ` set rows \<inter> exclude = {}"
      "set rows \<subseteq> set raw" "length rows < unat limit \<Longrightarrow> cs_from_fqdn ` set raw \<subseteq> exclude \<union> cs_from_fqdn ` set rows"
    using textual_loop_sound[of "[]" "{}" "unat limit" exclude raw] by (auto simp: Let_def raw(2))
  have "\<exists>r\<in>set (t_call_sites db). mentions name r \<and> cs_from_fqdn x = c_from_fqdn r \<and> cs_callee_text x = c_callee_text r" if x: "x \<in> set rows" for x
  proof -
    obtain r where "r \<in> set (take 200 ?hits)" "hydrate K decode_args r = Inr x"
      using list_all2_right[OF l2] t(4) x by blast
    then show ?thesis using hydrate_Inr[of K decode_args r x] by (auto dest!: in_set_takeD)
  qed
  moreover have "c_from_fqdn r \<in> exclude \<union> cs_from_fqdn ` set rows"
    if few: "length (filter (mentions name) (t_call_sites db)) \<le> 200" "length rows < unat limit" and r: "r \<in> set (t_call_sites db)" "mentions name r" for r
  proof -
    have "r \<in> set (take 200 ?hits)" using few(1) r by simp
    then obtain x where "x \<in> set raw" "hydrate K decode_args r = Inr x" using list_all2_left[OF l2] by blast
    then show ?thesis using t(5)[OF few(2)] hydrate_Inr[of K decode_args r x] by (metis image_eqI subsetD)
  qed
  ultimately show ?thesis using t(1-3) by blast
qed

definition demo_calls_db :: db where
  "demo_calls_db = demo_db\<lparr>t_call_sites := [\<lparr> c_id = 1, c_from_fqdn = ''m::a'', c_callee_text = ''x.f'', c_args_json = ''[]'',
     c_receiver_chain_json = ''[]'', c_file_path = ''a.rs'', c_line = 1, c_col = 0 \<rparr>]\<rparr>"

theorem textual_callers_complete_witness:
  "\<exists>rows. callers_textual_for_name demo_codec demo_args demo_calls_db ''f'' {''g''} 25 = Inr rows \<and> ''m::a'' \<in> cs_from_fqdn ` set rows"
proof -
  have "map_sum id (map cs_from_fqdn) (callers_textual_for_name demo_codec demo_args demo_calls_db ''f'' {''g''} 25) = Inr [''m::a'']"
    by code_simp
  then obtain rows where rows: "callers_textual_for_name demo_codec demo_args demo_calls_db ''f'' {''g''} 25 = Inr rows" "length rows = 1"
    by (cases "callers_textual_for_name demo_codec demo_args demo_calls_db ''f'' {''g''} 25") auto
  have name: "str_trim ''f'' \<noteq> []" "mentions ''f'' (hd (t_call_sites demo_calls_db))" by code_simp+
  have "length (filter (mentions ''f'') (t_call_sites demo_calls_db)) \<le> length (t_call_sites demo_calls_db)" by (rule length_filter_le)
  then have "length (filter (mentions ''f'') (t_call_sites demo_calls_db)) \<le> 200 \<and> length rows < unat (25 :: 32 word)"
    using rows(2) by (simp add: demo_calls_db_def)
  moreover have "hd (t_call_sites demo_calls_db) \<in> set (t_call_sites demo_calls_db)" by (simp add: demo_calls_db_def)
  ultimately have "c_from_fqdn (hd (t_call_sites demo_calls_db)) \<in> {''g''} \<union> cs_from_fqdn ` set rows"
    using textual_callers_complete[OF rows(1) name(1)] name(2) by simp
  then show ?thesis using rows by (simp add: demo_calls_db_def)
qed

section \<open>The context of a name that a peer workspace also has\<close>

definition foreign_row :: sym_row where
  "foreign_row = (demo_row 3 ''f'')\<lparr>s_file_path := ''ws:w/b.rs'', s_workspace_id := ''w'', s_language_kind := ''struct''\<rparr>"

definition shared_name_db :: db where
  "shared_name_db = demo_db\<lparr>t_files := [demo_file, demo_file\<lparr>f_path := ''ws:w/b.rs''\<rparr>],
     t_symbols := [demo_row 1 ''f'', demo_row 2 ''g'', foreign_row], t_fts := [(1, ''f'', ''f''), (2, ''g'', ''g''), (3, ''f'', ''f'')], sym_seq := 3\<rparr>"

lemma foreign_row_simps [simp]:
  "s_id foreign_row = 3" "s_fqdn foreign_row = ''f''" "s_name foreign_row = ''f''" "s_file_path foreign_row = ''ws:w/b.rs''"
  "s_workspace_id foreign_row = ''w''" "sym_key foreign_row = (''w'', ''f'')" "sym_checks foreign_row"
  using symbol_row_checks[of demo_codec "demo_symbol ''f''" demo_ctx None]
  by (simp_all add: foreign_row_def demo_row_def symbol_row_def demo_symbol_def demo_ctx_def sym_key_def sym_checks_def)

lemma shared_name_db_ok: "db_ok shared_name_db"
  by (simp add: shared_name_db_def demo_db_def init_db_def db_ok_def ok_projects_def ok_ids_def ok_files_def ok_symbols_def
      ok_edges_def ok_satellite_def ok_calls_def ok_catalog_def ok_fts_def fts_doc_def demo_edge_def
      demo_file_def edge_checks_def edge_target_check_def)

text \<open>
  \<^verbatim>\<open>context_for_symbol\<close> does not restrict the workspace: on a consistent index where a peer has the
  same name, one order of visiting the rows gives the symbol of the primary workspace and another the
  one of the peer, while the other queries answer for the primary one.
\<close>

theorem context_ignores_workspace:
  "\<exists>visit db s. (\<forall>rows. mset (visit rows) = mset rows) \<and> db_ok db \<and> symbol_by_fqdn demo_codec db ''f'' = Inr (Some s) \<and>
     map_sum id (map_option sc_symbol) (context_for_symbol demo_codec id db ''f'') = Inr (Some s) \<and>
     (\<exists>s'. map_sum id (map_option sc_symbol) (context_for_symbol demo_codec visit db ''f'') = Inr (Some s') \<and> s' \<noteq> s)"
proof -
  have "symbol_by_fqdn demo_codec shared_name_db ''f'' = Inr (Some (demo_symbol ''f''))" by code_simp
  moreover have "map_sum id (map_option sc_symbol) (context_for_symbol demo_codec id shared_name_db ''f'') = Inr (Some (demo_symbol ''f''))"
    by code_simp
  moreover have "map_sum id (map_option (rs_language_kind \<circ> sc_symbol)) (context_for_symbol demo_codec rev shared_name_db ''f'') = Inr (Some ''struct'')"
    by code_simp
  moreover have "rs_language_kind (demo_symbol ''f'') = ''fn''" by (simp add: demo_symbol_def)
  moreover obtain s' where "map_sum id (map_option sc_symbol) (context_for_symbol demo_codec rev shared_name_db ''f'') = Inr (Some s')"
      "rs_language_kind s' = ''struct''"
    using calculation(3) by (cases "context_for_symbol demo_codec rev shared_name_db ''f''") auto
  ultimately show ?thesis
    using shared_name_db_ok by (intro exI[of _ rev] exI[of _ shared_name_db] exI[of _ "demo_symbol ''f''"]) auto
qed

end
