(* ===== verification/Filters.thy ===== *)
theory Filters
  imports Query_Context Cold_Start
begin

text \<open>
  Ignore rules (\<^verbatim>\<open>pipeline/filters.rs\<close>): the stack of \<^verbatim>\<open>.stdignore\<close> layers, its construction from the
  configuration and the tree, and the preview of a pattern.

  The matcher of one file (a third-party crate), what its builder accepts, and the entries of a
  directory walk are arguments.  Paths are lists of components.
\<close>

section \<open>Matchers and layers\<close>

datatype MatchResult = NoMatch | Ignored | Whitelisted

type_synonym matcher = "string list \<Rightarrow> bool \<Rightarrow> MatchResult"

record Layer =
  ly_matcher :: matcher
  ly_rooted_at :: "string list"

record GitignoreStack =
  gk_layers :: "Layer list"
  gk_workspace_root :: "string list"

record tree_entry =
  te_path :: "string list"
  te_is_file :: bool
  te_is_dir :: bool

text \<open>
  \<^verbatim>\<open>ie_walk\<close> lists the entries strictly below the root, parents before children; \<^verbatim>\<open>ie_add_file\<close> and
  \<^verbatim>\<open>ie_add_line\<close> say whether the builder accepts a file or a line, \<^verbatim>\<open>ie_build_file\<close> and \<^verbatim>\<open>ie_build_lines\<close>
  what it builds.
\<close>

record ignore_env =
  ie_is_file :: "string list \<Rightarrow> bool"
  ie_walk :: "tree_entry list"
  ie_add_file :: "string list \<Rightarrow> string list \<Rightarrow> bool"
  ie_add_line :: "string list \<Rightarrow> string \<Rightarrow> bool"
  ie_build_file :: "string list \<Rightarrow> string list \<Rightarrow> matcher option"
  ie_build_lines :: "string list \<Rightarrow> string list \<Rightarrow> matcher option"

definition STDIGNORE_FILENAME :: string where "STDIGNORE_FILENAME = ''.stdignore''"

definition rel_components :: "string \<Rightarrow> string list" where
  "rel_components rel = filter (\<lambda>c. c \<noteq> [] \<and> c \<noteq> ''.'') (split_char (CHR ''/'') rel)"

fun decide :: "Layer list \<Rightarrow> string list \<Rightarrow> bool" where
  "decide [] abs_path = False"
| "decide (layer # layers) abs_path =
    (if \<not> prefix (ly_rooted_at layer) abs_path then decide layers abs_path
     else case ly_matcher layer abs_path False of
       Ignored \<Rightarrow> True
     | Whitelisted \<Rightarrow> False
     | NoMatch \<Rightarrow> decide layers abs_path)"

definition is_ignored :: "GitignoreStack \<Rightarrow> string \<Rightarrow> bool" where
  "is_ignored S rel_path =
    (if rel_path = [] then False
     else decide (rev (gk_layers S)) (gk_workspace_root S @ rel_components rel_path))"

definition is_skipped :: "GitignoreStack \<Rightarrow> string \<Rightarrow> bool" where
  "is_skipped filters rel_path = is_ignored filters rel_path"

section \<open>Construction\<close>

definition build_layer :: "ignore_env \<Rightarrow> string list \<Rightarrow> string list \<Rightarrow> Layer option" where
  "build_layer E rooted_at stdignore_file =
    (if \<not> ie_add_file E rooted_at stdignore_file then None
     else map_option (\<lambda>m. \<lparr> ly_matcher = m, ly_rooted_at = rooted_at \<rparr>) (ie_build_file E rooted_at stdignore_file))"

definition is_pattern_line :: "string \<Rightarrow> bool" where
  "is_pattern_line l \<longleftrightarrow> l \<noteq> [] \<and> \<not> prefix ''#'' l"

definition pattern_lines :: "string \<Rightarrow> string list" where
  "pattern_lines patterns = filter is_pattern_line (map str_trim (str_lines patterns))"

definition build_layer_from_patterns :: "ignore_env \<Rightarrow> string list \<Rightarrow> string \<Rightarrow> Layer option" where
  "build_layer_from_patterns E rooted_at patterns =
    (if \<not> list_all (ie_add_line E rooted_at) (pattern_lines patterns) then None
     else map_option (\<lambda>m. \<lparr> ly_matcher = m, ly_rooted_at = rooted_at \<rparr>) (ie_build_lines E rooted_at (pattern_lines patterns)))"

definition empty_matcher :: matcher where
  "empty_matcher = (\<lambda>_ _. NoMatch)"

text \<open>\<^verbatim>\<open>clone_matcher\<close> reads the root's file again; the root of the matcher is the argument.\<close>

definition clone_matcher :: "ignore_env \<Rightarrow> string list \<Rightarrow> matcher" where
  "clone_matcher E root =
    (case (if ie_is_file E (root @ [STDIGNORE_FILENAME]) then ie_build_file E root (root @ [STDIGNORE_FILENAME])
           else ie_build_lines E root []) of
       Some m \<Rightarrow> m | None \<Rightarrow> empty_matcher)"

text \<open>\<^verbatim>\<open>filter_entry\<close>: a rejected entry is skipped with everything below it.\<close>

definition filter_entry :: "(tree_entry \<Rightarrow> bool) \<Rightarrow> tree_entry list \<Rightarrow> tree_entry list" where
  "filter_entry keep es = filter (\<lambda>e. list_all (\<lambda>a. prefix (te_path a) (te_path e) \<longrightarrow> keep a) es) es"

definition descends :: "matcher option \<Rightarrow> tree_entry \<Rightarrow> bool" where
  "descends descent_filter entry =
    (case descent_filter of None \<Rightarrow> True | Some m \<Rightarrow> m (te_path entry) (te_is_dir entry) \<noteq> Ignored)"

definition nested_layer :: "ignore_env \<Rightarrow> string list \<Rightarrow> tree_entry \<Rightarrow> Layer option" where
  "nested_layer E root_file entry =
    (if \<not> te_is_file entry then None
     else if path_file_name (te_path entry) \<noteq> Some STDIGNORE_FILENAME then None
     else if te_path entry = root_file then None
     else build_layer E (butlast (te_path entry)) (te_path entry))"

definition add_nested_layers ::
  "ignore_env \<Rightarrow> string list \<Rightarrow> matcher option \<Rightarrow> Layer list \<Rightarrow> Layer list" where
  "add_nested_layers E root_file descent_filter layers =
    layers @ List.map_filter (nested_layer E root_file) (filter_entry (descends descent_filter) (ie_walk E))"

definition collect_layers :: "ignore_env \<Rightarrow> string list \<Rightarrow> string option \<Rightarrow> Layer list" where
  "collect_layers E root override =
    (let root_file = root @ [STDIGNORE_FILENAME];
         root_layer = (case override of
            Some patterns \<Rightarrow> build_layer_from_patterns E root patterns
          | None \<Rightarrow> if ie_is_file E root_file then build_layer E root root_file else None);
         layers = (case root_layer of None \<Rightarrow> [] | Some l \<Rightarrow> [l]);
         descent_filter = (case override of
            Some patterns \<Rightarrow> map_option ly_matcher (build_layer_from_patterns E root patterns)
          | None \<Rightarrow> map_option (\<lambda>l. clone_matcher E (ly_rooted_at l)) root_layer)
     in sort_key (\<lambda>l. length (ly_rooted_at l)) (add_nested_layers E root_file descent_filter layers))"

definition gitignore_build :: "ignore_env \<Rightarrow> string list \<Rightarrow> GitignoreStack" where
  "gitignore_build E root = \<lparr> gk_layers = collect_layers E root None, gk_workspace_root = root \<rparr>"

definition build_with_root_patterns :: "ignore_env \<Rightarrow> string list \<Rightarrow> string \<Rightarrow> GitignoreStack" where
  "build_with_root_patterns E root patterns =
    \<lparr> gk_layers = collect_layers E root (Some patterns), gk_workspace_root = root \<rparr>"

definition load_filters :: "ignore_env \<Rightarrow> (SxdConfigError + SxdConfig option) \<Rightarrow> string list \<Rightarrow> GitignoreStack" where
  "load_filters E config root =
    (case config of
       Inr (Some cfg) \<Rightarrow> (case sxd_ignore cfg of
          Some ignore \<Rightarrow> build_with_root_patterns E root (ib_patterns ignore)
        | None \<Rightarrow> gitignore_build E root)
     | _ \<Rightarrow> gitignore_build E root)"

definition is_dir_excluded :: "GitignoreStack \<Rightarrow> string list \<Rightarrow> tree_entry \<Rightarrow> bool" where
  "is_dir_excluded filters workspace_root entry =
    (if te_path entry = workspace_root \<or> \<not> te_is_dir entry then False
     else case to_workspace_relative (te_path entry) workspace_root of
       None \<Rightarrow> False
     | Some rel \<Rightarrow> is_skipped filters rel)"

section \<open>Preview of a pattern\<close>

definition PATTERN_PREVIEW_WALK_CAP :: nat where "PATTERN_PREVIEW_WALK_CAP = 50000"

record PatternPreview =
  pp_pattern :: string
  pp_matches :: "string list"
  pp_total_count :: nat
  pp_truncated :: bool
  pp_walk_truncated :: bool

text \<open>The loop over the entries with \<^verbatim>\<open>hits\<close> and \<^verbatim>\<open>total\<close>.\<close>

fun preview_loop :: "matcher \<Rightarrow> string list \<Rightarrow> nat \<Rightarrow> nat \<Rightarrow> tree_entry list \<Rightarrow> string list \<Rightarrow> nat \<Rightarrow> string list \<times> nat \<times> bool" where
  "preview_loop m root limit scanned [] hits n = (hits, n, False)"
| "preview_loop m root limit scanned (entry # entries) hits n =
    (if PATTERN_PREVIEW_WALK_CAP \<le> scanned then (hits, n, True)
     else case path_strip_prefix root (te_path entry) of
       None \<Rightarrow> preview_loop m root limit (scanned + 1) entries hits n
     | Some rel \<Rightarrow>
         if rel = [] \<or> m rel (te_is_dir entry) \<noteq> Ignored then preview_loop m root limit (scanned + 1) entries hits n
         else preview_loop m root limit (scanned + 1) entries
                (if length hits < limit then hits @ [backslash_to_slash (join_components rel)] else hits) (n + 1))"

definition preview_pattern_matches ::
  "ignore_env \<Rightarrow> tree_entry list \<Rightarrow> string list \<Rightarrow> string \<Rightarrow> nat \<Rightarrow> PatternPreview option" where
  "preview_pattern_matches E walk root pattern limit =
    (let trimmed = str_trim pattern in
     if \<not> is_pattern_line trimmed
     then Some \<lparr> pp_pattern = pattern, pp_matches = [], pp_total_count = 0, pp_truncated = False, pp_walk_truncated = False \<rparr>
     else if \<not> ie_add_line E root trimmed then None
     else case ie_build_lines E root [trimmed] of
       None \<Rightarrow> None
     | Some m \<Rightarrow> (case preview_loop m root limit 0 walk [] 0 of
         (hits, n, walk_truncated) \<Rightarrow> Some \<lparr> pp_pattern = pattern, pp_matches = hits, pp_total_count = n,
            pp_truncated = (limit < n), pp_walk_truncated = walk_truncated \<rparr>))"

section \<open>The closest layer decides\<close>

definition opinion :: "string list \<Rightarrow> Layer \<Rightarrow> MatchResult" where
  "opinion p l = (if prefix (ly_rooted_at l) p then ly_matcher l p False else NoMatch)"

lemma decide_first:
  "decide ls p \<longleftrightarrow> (\<exists>a l b. ls = a @ l # b \<and> opinion p l = Ignored \<and> (\<forall>x\<in>set a. opinion p x = NoMatch))"
proof (induction ls)
  case (Cons l ls)
  show ?case
  proof (cases "opinion p l = NoMatch")
    case True
    then have "decide (l # ls) p = decide ls p" by (auto simp: opinion_def split: if_splits)
    moreover have "(\<exists>a x b. l # ls = a @ x # b \<and> opinion p x = Ignored \<and> (\<forall>y\<in>set a. opinion p y = NoMatch)) \<longleftrightarrow>
        (\<exists>a x b. ls = a @ x # b \<and> opinion p x = Ignored \<and> (\<forall>y\<in>set a. opinion p y = NoMatch))" (is "?L \<longleftrightarrow> ?R")
    proof
      assume ?L
      then obtain a x b where e: "l # ls = a @ x # b" "opinion p x = Ignored" "\<forall>y\<in>set a. opinion p y = NoMatch" by blast
      then show ?R using True by (cases a) auto
    next
      assume ?R
      then obtain a x b where "ls = a @ x # b" "opinion p x = Ignored" "\<forall>y\<in>set a. opinion p y = NoMatch" by blast
      then show ?L using True by (intro exI[of _ "l # a"] exI[of _ x] exI[of _ b]) simp
    qed
    ultimately show ?thesis using Cons by blast
  next
    case False
    then have "decide (l # ls) p \<longleftrightarrow> opinion p l = Ignored" by (auto simp: opinion_def split: if_splits MatchResult.splits)
    moreover have "a = []" if "l # ls = a @ x # b" "\<forall>y\<in>set a. opinion p y = NoMatch" for a x b
      using that False by (cases a) auto
    ultimately show ?thesis by (metis append_Nil empty_iff list.inject list.set(1))
  qed
qed simp

lemma prefix_same_length: "prefix a p \<Longrightarrow> prefix b p \<Longrightarrow> length a = length b \<Longrightarrow> a = b"
  by (auto simp: prefix_def append_eq_append_conv)

text \<open>
  With layers sorted by depth and rooted at different directories, a path is ignored exactly when the
  deepest layer that has an opinion on it says so.
\<close>

lemma sorted_layers_decide:
  assumes "sorted (map (\<lambda>l. length (ly_rooted_at l)) ls)" "distinct (map ly_rooted_at ls)"
  shows "decide (rev ls) p \<longleftrightarrow> (\<exists>l\<in>set ls. opinion p l = Ignored \<and>
    (\<forall>x\<in>set ls. opinion p x \<noteq> NoMatch \<longrightarrow> x = l \<or> length (ly_rooted_at x) < length (ly_rooted_at l)))"
    (is "_ \<longleftrightarrow> ?R")
proof
  assume "decide (rev ls) p"
  then obtain a l b where s: "rev ls = a @ l # b" "opinion p l = Ignored" "\<forall>x\<in>set a. opinion p x = NoMatch"
    by (auto simp: decide_first)
  then have ls: "ls = rev b @ l # rev a" by (metis append.assoc append_Cons append_Nil rev.simps(2) rev_append rev_rev_ident)
  have "x = l \<or> length (ly_rooted_at x) < length (ly_rooted_at l)" if x: "x \<in> set ls" "opinion p x \<noteq> NoMatch" for x
  proof (cases "x \<in> set b")
    case True
    have le: "length (ly_rooted_at x) \<le> length (ly_rooted_at l)" using True assms(1) unfolding ls by (auto simp: sorted_append)
    have ne: "ly_rooted_at x \<noteq> ly_rooted_at l" using True assms(2) unfolding ls by (force simp: image_iff)
    have "prefix (ly_rooted_at x) p" "prefix (ly_rooted_at l) p" using x(2) s(2) by (auto simp: opinion_def split: if_splits)
    then show ?thesis using le ne prefix_same_length by (metis le_neq_implies_less)
  qed (use x s(3) ls in auto)
  then show ?R using s(2) ls by auto
next
  assume ?R
  then obtain l where l: "l \<in> set ls" "opinion p l = Ignored"
      "\<And>x. x \<in> set ls \<Longrightarrow> opinion p x \<noteq> NoMatch \<Longrightarrow> x = l \<or> length (ly_rooted_at x) < length (ly_rooted_at l)" by blast
  then obtain b a where ls: "ls = b @ l # a" by (meson split_list)
  have "opinion p x = NoMatch" if x: "x \<in> set a" for x
  proof (rule ccontr)
    assume "opinion p x \<noteq> NoMatch"
    then have "x = l \<or> length (ly_rooted_at x) < length (ly_rooted_at l)" using l(3) x ls by simp
    moreover have "length (ly_rooted_at l) \<le> length (ly_rooted_at x)" using assms(1) x unfolding ls by (auto simp: sorted_append)
    moreover have "ly_rooted_at x \<noteq> ly_rooted_at l" using assms(2) x unfolding ls by (force simp: image_iff)
    ultimately show False by auto
  qed
  then show "decide (rev ls) p" using l(2) unfolding decide_first ls by (intro exI[of _ "rev a"] exI[of _ l] exI[of _ "rev b"]) simp
qed

text \<open>A walk lists different paths strictly below the root.\<close>

definition proper_walk :: "string list \<Rightarrow> tree_entry list \<Rightarrow> bool" where
  "proper_walk root es \<longleftrightarrow> distinct (map te_path es) \<and> list_all (\<lambda>e. prefix root (te_path e) \<and> te_path e \<noteq> root) es"

lemma nested_layer_root:
  assumes "nested_layer E f e = Some l"
  shows "te_path e = ly_rooted_at l @ [STDIGNORE_FILENAME] \<and> te_path e \<noteq> f"
proof -
  have "path_file_name (te_path e) = Some STDIGNORE_FILENAME" "te_path e \<noteq> f" "ly_rooted_at l = butlast (te_path e)"
    using assms by (auto simp: nested_layer_def build_layer_def split: if_splits)
  moreover then have "te_path e \<noteq> []" "last (te_path e) = STDIGNORE_FILENAME" by (auto simp: path_file_name_def split: if_splits)
  ultimately show ?thesis by (metis append_butlast_last_id)
qed

lemma nested_layers_distinct:
  assumes "distinct (map te_path es)"
  shows "distinct (map ly_rooted_at (List.map_filter (nested_layer E (root @ [STDIGNORE_FILENAME])) es)) \<and>
    root \<notin> ly_rooted_at ` set (List.map_filter (nested_layer E (root @ [STDIGNORE_FILENAME])) es) \<and>
    (\<forall>l\<in>set (List.map_filter (nested_layer E (root @ [STDIGNORE_FILENAME])) es). ly_rooted_at l @ [STDIGNORE_FILENAME] \<in> te_path ` set es)"
  using assms
proof (induction es)
  case (Cons e es)
  show ?case
  proof (cases "nested_layer E (root @ [STDIGNORE_FILENAME]) e")
    case (Some l)
    note r = nested_layer_root[OF Some]
    have d: "distinct (map te_path es)" "te_path e \<notin> te_path ` set es" using Cons.prems by auto
    note ih = Cons.IH[OF d(1)]
    have "ly_rooted_at l \<notin> ly_rooted_at ` set (List.map_filter (nested_layer E (root @ [STDIGNORE_FILENAME])) es)"
    proof
      assume "ly_rooted_at l \<in> ly_rooted_at ` set (List.map_filter (nested_layer E (root @ [STDIGNORE_FILENAME])) es)"
      then have "ly_rooted_at l @ [STDIGNORE_FILENAME] \<in> te_path ` set es" using ih by auto
      then show False using r d(2) by simp
    qed
    moreover have "root \<noteq> ly_rooted_at l" using r by auto
    moreover have "ly_rooted_at l @ [STDIGNORE_FILENAME] \<in> te_path ` set (e # es)" using r by (metis image_eqI list.set_intros(1))
    ultimately show ?thesis using ih by (auto simp: List.map_filter_simps Some)
  qed (use Cons in \<open>auto simp: List.map_filter_simps\<close>)
qed (simp add: List.map_filter_simps)

lemma distinct_map_sort_key: "distinct (map f (sort_key k xs)) = distinct (map f xs)"
  by (simp add: distinct_map)

lemma collect_layers_ok:
  assumes "proper_walk root (ie_walk E)"
  shows "sorted (map (\<lambda>l. length (ly_rooted_at l)) (collect_layers E root override)) \<and>
    distinct (map ly_rooted_at (collect_layers E root override))"
proof -
  have d: "distinct (map te_path (filter_entry k (ie_walk E)))" for k
    using assms by (simp add: proper_walk_def filter_entry_def distinct_map_filter)
  let ?root_layer = "case override of Some patterns \<Rightarrow> build_layer_from_patterns E root patterns
      | None \<Rightarrow> if ie_is_file E (root @ [STDIGNORE_FILENAME]) then build_layer E root (root @ [STDIGNORE_FILENAME]) else None"
  have "ly_rooted_at l = root" if "?root_layer = Some l" for l
    using that by (auto simp: build_layer_def build_layer_from_patterns_def split: option.splits if_splits)
  then have "distinct (map ly_rooted_at ((case ?root_layer of None \<Rightarrow> [] | Some l \<Rightarrow> [l]) @
      List.map_filter (nested_layer E (root @ [STDIGNORE_FILENAME])) (filter_entry (descends m) (ie_walk E))))" for m
    using nested_layers_distinct[OF d, of E root "descends m"] by (auto split: option.split)
  then show ?thesis unfolding collect_layers_def add_nested_layers_def Let_def by (simp only: distinct_map_sort_key sorted_sort_key simp_thms)
qed

text \<open>
  C27. Whatever the configuration and the \<^verbatim>\<open>.stdignore\<close> files below the root, a path is skipped exactly when
  the layer of the closest directory that has an opinion on it ignores it.
\<close>

theorem closest_layer_decides:
  assumes "proper_walk root (ie_walk E)" "rel \<noteq> []"
  shows "is_skipped (load_filters E config root) rel \<longleftrightarrow>
    (\<exists>l\<in>set (gk_layers (load_filters E config root)). opinion (root @ rel_components rel) l = Ignored \<and>
       (\<forall>x\<in>set (gk_layers (load_filters E config root)). opinion (root @ rel_components rel) x \<noteq> NoMatch \<longrightarrow>
          x = l \<or> length (ly_rooted_at x) < length (ly_rooted_at l)))"
proof -
  have "\<exists>ov. load_filters E config root = \<lparr> gk_layers = collect_layers E root ov, gk_workspace_root = root \<rparr>"
    by (auto simp: load_filters_def gitignore_build_def build_with_root_patterns_def split: sum.split option.split)
  then obtain ov where l: "load_filters E config root = \<lparr> gk_layers = collect_layers E root ov, gk_workspace_root = root \<rparr>" by blast
  show ?thesis
    unfolding l using assms sorted_layers_decide[of "collect_layers E root ov" "root @ rel_components rel"] collect_layers_ok[OF assms(1), of ov]
    by (simp add: is_skipped_def is_ignored_def)
qed

text \<open>A root that ignores Rust files and a nested file that takes one of them back.\<close>

definition demo_ignore :: ignore_env where
  "demo_ignore = \<lparr> ie_is_file = (\<lambda>p. p = [''w'', ''.stdignore'']),
     ie_walk = [\<lparr> te_path = [''w'', ''src''], te_is_file = False, te_is_dir = True \<rparr>,
       \<lparr> te_path = [''w'', ''src'', ''.stdignore''], te_is_file = True, te_is_dir = False \<rparr>],
     ie_add_file = (\<lambda>_ _. True), ie_add_line = (\<lambda>_ _. True),
     ie_build_file = (\<lambda>root _. Some (\<lambda>p _. if root = [''w''] then (if suffix ''.rs'' (last p) then Ignored else NoMatch)
        else if last p = ''b.rs'' then Whitelisted else NoMatch)),
     ie_build_lines = (\<lambda>_ _. None) \<rparr>"

theorem closest_layer_decides_witness:
  "is_skipped (load_filters demo_ignore (Inr None) [''w'']) ''src/a.rs'' \<and> \<not> is_skipped (load_filters demo_ignore (Inr None) [''w'']) ''src/b.rs'' \<and>
   (\<exists>l\<in>set (gk_layers (load_filters demo_ignore (Inr None) [''w''])). opinion [''w'', ''src'', ''a.rs''] l = Ignored)"
proof -
  have run: "is_skipped (load_filters demo_ignore (Inr None) [''w'']) ''src/a.rs''" "\<not> is_skipped (load_filters demo_ignore (Inr None) [''w'']) ''src/b.rs''"
    by code_simp+
  have "proper_walk [''w''] (ie_walk demo_ignore)" by (simp add: proper_walk_def demo_ignore_def)
  moreover have "[''w''] @ rel_components ''src/a.rs'' = [''w'', ''src'', ''a.rs'']" by code_simp
  ultimately show ?thesis using closest_layer_decides[of "[''w'']" demo_ignore "''src/a.rs''" "Inr None"] run by auto
qed

section \<open>The preview\<close>

definition previewed :: "matcher \<Rightarrow> string list \<Rightarrow> tree_entry list \<Rightarrow> string list" where
  "previewed m root es = concat (map (\<lambda>e. case path_strip_prefix root (te_path e) of
     Some rel \<Rightarrow> if rel = [] \<or> m rel (te_is_dir e) \<noteq> Ignored then [] else [backslash_to_slash (join_components rel)]
   | None \<Rightarrow> []) es)"

text \<open>The preview counts every matching entry below the cap of the walk and returns the first ones.\<close>

lemma preview_loop_eq:
  assumes "length hits \<le> limit" "length hits = min limit n" "scanned \<le> PATTERN_PREVIEW_WALK_CAP"
  shows "preview_loop m root limit scanned es hits n =
    (let seen = previewed m root (take (PATTERN_PREVIEW_WALK_CAP - scanned) es)
     in (hits @ take (limit - length hits) seen, n + length seen, PATTERN_PREVIEW_WALK_CAP - scanned < length es))"
  using assms
proof (induction es arbitrary: scanned hits n)
  case (Cons e es)
  show ?case
  proof (cases "PATTERN_PREVIEW_WALK_CAP \<le> scanned")
    case True
    then show ?thesis by (simp add: previewed_def)
  next
    case False
    then obtain k where k: "PATTERN_PREVIEW_WALK_CAP - scanned = Suc k" "PATTERN_PREVIEW_WALK_CAP - Suc scanned = k"
      by (metis Suc_diff_Suc not_le)
    show ?thesis
      using False Cons.prems Cons.IH[of hits n "Suc scanned"]
        Cons.IH[of "hits @ [backslash_to_slash (join_components rel)]" "n + 1" "Suc scanned" for rel]
        Cons.IH[of hits "n + 1" "Suc scanned"]
      by (auto simp: k previewed_def Let_def split: option.split)
  qed
qed (simp add: previewed_def)

end
