(* ===== verification/Notify.thy ===== *)
theory Notify
  imports Prelude
begin

text \<open>
  The events of the file watcher crate as the watchers of the index and of the proxy see them: the
  kind of an event and its paths.
\<close>

datatype EventKind = AnyEvent | AccessEvent | CreateEvent | ModifyEvent | RemoveEvent | OtherEvent

record event =
  ev_kind :: EventKind
  ev_paths :: "string list list"

datatype DebounceEventResult = Events "event list" | NotifyErrors

end
