(* ===== verification/Watcher.thy ===== *)
theory Watcher
  imports Filters Notify
begin

text \<open>
  The watcher (\<^verbatim>\<open>pipeline/watcher.rs\<close>): routing of file events to the primary workspace or to a peer, the
  reactions to configuration, lockfile and manifest changes, and the commands put into the queue of
  the writer.

  Events, the file system at the time of an event and the outcome of third-party calls (canonical
  path, registration of a watch) are arguments.  Log lines are left out.
\<close>

section \<open>State\<close>

datatype WatcherError = WatchStorage StorageError | WatchNotify | WatchIo

record PeerRoot =
  pr_workspace_id :: string
  pr_root :: "string list"

text \<open>
  The handle and what its thread shares with the rest: the database, the queue of the writer (a
  channel of bounded capacity), the filters behind their lock, the peers behind theirs.
\<close>

record watch_state =
  w_db :: db
  w_queue :: "IngestCommand list"
  w_filters :: GitignoreStack
  w_peers :: "PeerRoot list"
  w_debouncer :: bool

record watch_env =
  we_run :: run_env
  we_provider :: provider
  we_prepared :: "string list"
  we_root :: "string list"
  we_join :: "string \<Rightarrow> string list"
  we_lock_hash :: digest
  we_root_files :: root_files
  we_ignore :: ignore_env
  we_is_file :: "string list \<Rightarrow> bool"
  we_exists :: "string list \<Rightarrow> bool"
  we_read :: "string list \<Rightarrow> 8 word list option"
  we_tree :: "tree_entry list"
  we_reindex_paused :: bool

section \<open>The queue\<close>

definition WRITER_CHANNEL_CAPACITY :: nat where "WRITER_CHANNEL_CAPACITY = 64"

definition try_send_command :: "IngestCommand \<Rightarrow> watch_state \<Rightarrow> watch_state" where
  "try_send_command cmd w =
    (if length (w_queue w) < WRITER_CHANNEL_CAPACITY then w\<lparr>w_queue := w_queue w @ [cmd]\<rparr> else w)"

section \<open>Peers\<close>

definition add_peer :: "string \<Rightarrow> string list option \<Rightarrow> bool \<Rightarrow> watch_state \<Rightarrow> (WatcherError + unit) \<times> watch_state" where
  "add_peer workspace_id canonical watch_ok w =
    (if \<not> w_debouncer w then (Inl (WatchStorage InvalidStoredData), w)
     else case canonical of
       None \<Rightarrow> (Inl WatchIo, w)
     | Some root \<Rightarrow>
         if list_ex (\<lambda>p. pr_workspace_id p = workspace_id) (w_peers w) then (Inr (), w)
         else if \<not> watch_ok then (Inl WatchNotify, w)
         else (Inr (), w\<lparr>w_peers := w_peers w @ [\<lparr> pr_workspace_id = workspace_id, pr_root = root \<rparr>]\<rparr>))"

fun remove_first :: "('a \<Rightarrow> bool) \<Rightarrow> 'a list \<Rightarrow> 'a option \<times> 'a list" where
  "remove_first P [] = (None, [])"
| "remove_first P (x # xs) = (if P x then (Some x, xs) else case remove_first P xs of (r, ys) \<Rightarrow> (r, x # ys))"

definition remove_peer :: "string \<Rightarrow> bool \<Rightarrow> watch_state \<Rightarrow> (WatcherError + unit) \<times> watch_state" where
  "remove_peer workspace_id unwatch_ok w =
    (if \<not> w_debouncer w then (Inl (WatchStorage InvalidStoredData), w)
     else case remove_first (\<lambda>p. pr_workspace_id p = workspace_id) (w_peers w) of
       (removed, peers) \<Rightarrow>
         (if removed \<noteq> None \<and> \<not> unwatch_ok then Inl WatchNotify else Inr (), w\<lparr>w_peers := peers\<rparr>))"

definition peers_snapshot :: "watch_state \<Rightarrow> PeerRoot list" where
  "peers_snapshot w = w_peers w"

definition watcher_drop :: "watch_state \<Rightarrow> watch_state" where
  "watcher_drop w = w\<lparr>w_debouncer := False\<rparr>"

section \<open>Start\<close>

definition read_debounce_ms :: "db \<Rightarrow> WatcherError + 64 word" where
  "read_debounce_ms db =
    (case t_schema_meta db ''watcher_debounce_ms'' of
       None \<Rightarrow> Inl (WatchStorage (Sqlite QueryReturnedNoRows))
     | Some v \<Rightarrow> (case parse_u64 v of None \<Rightarrow> Inl (WatchStorage InvalidStoredData) | Some ms \<Rightarrow> Inr ms))"

definition spawn_watcher :: "bool \<Rightarrow> db \<Rightarrow> GitignoreStack \<Rightarrow> WatcherError + watch_state" where
  "spawn_watcher watch_ok db filters =
    (case read_debounce_ms db of
       Inl e \<Rightarrow> Inl e
     | Inr _ \<Rightarrow> if watch_ok
         then Inr \<lparr> w_db = db, w_queue = [], w_filters = filters, w_peers = [], w_debouncer = True \<rparr>
         else Inl WatchNotify)"

section \<open>Events of a peer\<close>

definition upsert_peer_path :: "watch_env \<Rightarrow> string list \<Rightarrow> string \<Rightarrow> string list \<Rightarrow> string \<Rightarrow> watch_state \<Rightarrow> watch_state" where
  "upsert_peer_path E abs_path rel peer_root workspace_id w =
    (case Option.bind (we_read E abs_path) from_utf8 of
       None \<Rightarrow> w
     | Some content \<Rightarrow>
         (case pv_extract (we_provider E) (we_prepared E) peer_root None content rel of
            Inr extracted \<Rightarrow> try_send_command (UpsertPeerFile workspace_id rel extracted) w
          | Inl (ExtractParse detail) \<Rightarrow>
              (case guess_language rel of
                 Some language \<Rightarrow> try_send_command (RecordPeerParseError workspace_id rel language detail) w
               | None \<Rightarrow> w)
          | Inl ExtractIo \<Rightarrow> w
          | Inl UnsupportedLanguage \<Rightarrow> w))"

definition delete_peer_path :: "string \<Rightarrow> string \<Rightarrow> watch_state \<Rightarrow> watch_state" where
  "delete_peer_path rel workspace_id w = try_send_command (DeletePeerFile workspace_id rel) w"

definition process_peer_path :: "watch_env \<Rightarrow> string list \<Rightarrow> string \<Rightarrow> string list \<Rightarrow> watch_state \<Rightarrow> watch_state" where
  "process_peer_path E abs_path workspace_id peer_root w =
    (case to_workspace_relative abs_path peer_root of
       None \<Rightarrow> w
     | Some rel \<Rightarrow>
         if \<not> has_supported_extension abs_path then w
         else if we_is_file E abs_path then upsert_peer_path E abs_path rel peer_root workspace_id w
         else if \<not> we_exists E abs_path then delete_peer_path rel workspace_id w
         else w)"

section \<open>Events of the primary workspace\<close>

definition upsert_path :: "watch_env \<Rightarrow> string list \<Rightarrow> string \<Rightarrow> watch_state \<Rightarrow> watch_state" where
  "upsert_path E abs_path rel w =
    (case Option.bind (we_read E abs_path) from_utf8 of
       None \<Rightarrow> w
     | Some content \<Rightarrow>
         let K = re_codec (we_run E); db = w_db w in
         (case pv_extract (we_provider E) (we_prepared E) (we_root E) (Some (compute K db)) content rel of
            Inr extracted \<Rightarrow>
              try_send_command (UpsertFile rel (fst (rewrite_cross_workspace_edges (db_resolve K db) extracted Map.empty))) w
          | Inl (ExtractParse detail) \<Rightarrow>
              (case guess_language rel of
                 Some language \<Rightarrow> try_send_command (RecordParseError rel language detail) w
               | None \<Rightarrow> w)
          | Inl ExtractIo \<Rightarrow> w
          | Inl UnsupportedLanguage \<Rightarrow> w))"

definition delete_path :: "string \<Rightarrow> watch_state \<Rightarrow> watch_state" where
  "delete_path rel w = try_send_command (DeleteFile rel) w"

definition filters_skipped :: "watch_state \<Rightarrow> string \<Rightarrow> bool" where
  "filters_skipped w rel = is_skipped (w_filters w) rel"

definition collect_newly_excluded_db_paths :: "db \<Rightarrow> GitignoreStack \<Rightarrow> GitignoreStack \<Rightarrow> string list" where
  "collect_newly_excluded_db_paths db old_filters new_filters =
    filter (\<lambda>path. is_skipped new_filters path \<and> \<not> is_skipped old_filters path) (map f_path (t_files db))"

definition newly_allowed :: "string list \<Rightarrow> GitignoreStack \<Rightarrow> GitignoreStack \<Rightarrow> tree_entry \<Rightarrow> string option" where
  "newly_allowed root old_filters new_filters entry =
    (if \<not> te_is_file entry then None
     else if \<not> has_supported_extension (te_path entry) then None
     else case to_workspace_relative (te_path entry) root of
       None \<Rightarrow> None
     | Some rel \<Rightarrow> if is_skipped old_filters rel \<and> \<not> is_skipped new_filters rel then Some rel else None)"

definition collect_newly_allowed_workspace_paths ::
  "string list \<Rightarrow> tree_entry list \<Rightarrow> GitignoreStack \<Rightarrow> GitignoreStack \<Rightarrow> string list" where
  "collect_newly_allowed_workspace_paths root tree old_filters new_filters =
    List.map_filter (newly_allowed root old_filters new_filters)
      (filter_entry (\<lambda>entry. \<not> is_dir_excluded new_filters root entry) tree)"

text \<open>The tree a re-index walks, under the new filters.\<close>

definition filtered_tree :: "watch_env \<Rightarrow> GitignoreStack \<Rightarrow> source_tree" where
  "filtered_tree E filters =
    \<lparr> st_root = we_root E,
      st_walk = map (\<lambda>e. WalkEntry (te_path e) (te_is_file e))
        (filter_entry (\<lambda>entry. \<not> is_dir_excluded filters (we_root E) entry) (we_tree E)),
      st_read = we_read E, st_skipped = is_skipped filters \<rparr>"

text \<open>It returns the excluded paths it reports, next to the new state.\<close>

definition handle_sxd_change :: "watch_env \<Rightarrow> watch_state \<Rightarrow> string list \<times> watch_state" where
  "handle_sxd_change E w =
    (let new_filters = load_filters (we_ignore E) (re_config (we_run E)) (we_root E);
         excluded = collect_newly_excluded_db_paths (w_db w) (w_filters w) new_filters;
         allowed = collect_newly_allowed_workspace_paths (we_root E) (we_tree E) (w_filters w) new_filters;
         w = w\<lparr>w_filters := new_filters\<rparr>
     in (excluded,
         if allowed = [] then w
         else w\<lparr>w_db := snd (reindex_paths (we_run E) (we_provider E) (we_reindex_paused E) (we_prepared E)
                  (filtered_tree E new_filters) (we_join E) allowed (w_db w))\<rparr>))"

definition process_source_path :: "watch_env \<Rightarrow> string list \<Rightarrow> string \<Rightarrow> watch_state \<Rightarrow> watch_state" where
  "process_source_path E abs_path rel w =
    (if filters_skipped w rel then w
     else if \<not> has_supported_extension abs_path then w
     else if we_is_file E abs_path then upsert_path E abs_path rel w
     else if \<not> we_exists E abs_path then delete_path rel w
     else w)"

definition process_primary_path :: "watch_env \<Rightarrow> string list \<Rightarrow> watch_state \<Rightarrow> watch_state" where
  "process_primary_path E abs_path w =
    (case to_workspace_relative abs_path (we_root E) of
       None \<Rightarrow> w
     | Some rel \<Rightarrow>
         if path_file_name abs_path = Some SXD_CONFIG_FILENAME then snd (handle_sxd_change E w)
         else (case handle_lockfile_change (we_lock_hash E) (we_root_files E) (we_root E) abs_path (w_db w) of
            (Inr (Some _), db) \<Rightarrow> w\<lparr>w_db := db\<rparr>
          | (Inl _, db) \<Rightarrow> w\<lparr>w_db := db\<rparr>
          | (Inr None, db) \<Rightarrow>
              (case handle_manifest_change (re_config (we_run E)) (re_detected (we_run E)) (re_root_text (we_run E)) abs_path db of
                 (Inr (Some _), db) \<Rightarrow> w\<lparr>w_db := db\<rparr>
               | (Inl _, db) \<Rightarrow> w\<lparr>w_db := db\<rparr>
               | (Inr None, db) \<Rightarrow> process_source_path E abs_path rel (w\<lparr>w_db := db\<rparr>))))"

section \<open>Dispatch\<close>

datatype Owner = PrimaryOwner | PeerOwner string "string list"

definition resolve_owner :: "string list \<Rightarrow> string list \<Rightarrow> PeerRoot list \<Rightarrow> Owner option" where
  "resolve_owner abs_path primary_root peers =
    (if prefix primary_root abs_path then Some PrimaryOwner
     else map_option (\<lambda>p. PeerOwner (pr_workspace_id p) (pr_root p)) (find (\<lambda>p. prefix (pr_root p) abs_path) peers))"

fun is_dispatchable :: "EventKind \<Rightarrow> bool" where
  "is_dispatchable CreateEvent = True"
| "is_dispatchable ModifyEvent = True"
| "is_dispatchable RemoveEvent = True"
| "is_dispatchable _ = False"

definition process_path :: "watch_env \<Rightarrow> string list \<Rightarrow> watch_state \<Rightarrow> watch_state" where
  "process_path E path w =
    (case resolve_owner path (we_root E) (w_peers w) of
       Some PrimaryOwner \<Rightarrow> process_primary_path E path w
     | Some (PeerOwner workspace_id peer_root) \<Rightarrow> process_peer_path E path workspace_id peer_root w
     | None \<Rightarrow> w)"

definition process_event :: "watch_env \<Rightarrow> event \<Rightarrow> watch_state \<Rightarrow> watch_state" where
  "process_event E ev w = (if is_dispatchable (ev_kind ev) then fold (process_path E) (ev_paths ev) w else w)"

text \<open>One turn of the loop: the message received and the pause flag read.\<close>

definition dispatch_result :: "watch_env \<Rightarrow> bool \<Rightarrow> DebounceEventResult \<Rightarrow> watch_state \<Rightarrow> watch_state" where
  "dispatch_result E paused result w =
    (if paused then w
     else case result of Events events \<Rightarrow> fold (process_event E) events w | NotifyErrors \<Rightarrow> w)"

fun dispatch_loop :: "(watch_env \<times> bool \<times> DebounceEventResult) list \<Rightarrow> watch_state \<Rightarrow> watch_state" where
  "dispatch_loop [] w = w"
| "dispatch_loop ((E, paused, result) # rx) w = dispatch_loop rx (dispatch_result E paused result w)"

section \<open>Frames\<close>

text \<open>The commands an event may put into the queue, by the workspace they are for.\<close>

fun cmd_workspace :: "IngestCommand \<Rightarrow> string option" where
  "cmd_workspace (UpsertFile _ _) = Some PRIMARY_WORKSPACE_ID"
| "cmd_workspace (DeleteFile _) = Some PRIMARY_WORKSPACE_ID"
| "cmd_workspace (RecordParseError _ _ _) = Some PRIMARY_WORKSPACE_ID"
| "cmd_workspace (UpsertPeerFile w _ _) = Some w"
| "cmd_workspace (DeletePeerFile w _) = Some w"
| "cmd_workspace (RecordPeerParseError w _ _ _) = Some w"
| "cmd_workspace RescanFromScratch = None"

fun cmd_path :: "IngestCommand \<Rightarrow> string option" where
  "cmd_path (UpsertFile p _) = Some p"
| "cmd_path (DeleteFile p) = Some p"
| "cmd_path (RecordParseError p _ _) = Some p"
| "cmd_path (UpsertPeerFile _ p _) = Some p"
| "cmd_path (DeletePeerFile _ p) = Some p"
| "cmd_path (RecordPeerParseError _ p _ _) = Some p"
| "cmd_path RescanFromScratch = None"

text \<open>At most one command for the path and the workspace is appended, and nothing else changes.\<close>

definition sends_for :: "string \<Rightarrow> string \<Rightarrow> watch_state \<Rightarrow> watch_state \<Rightarrow> bool" where
  "sends_for workspace rel w w' \<longleftrightarrow> w' = w \<or>
     (\<exists>cmd. w' = w\<lparr>w_queue := w_queue w @ [cmd]\<rparr> \<and> length (w_queue w) < WRITER_CHANNEL_CAPACITY \<and>
        cmd_workspace cmd = Some workspace \<and> cmd_path cmd = Some rel)"

lemma sends_refl [simp]: "sends_for ws rel w w"
  by (simp add: sends_for_def)

lemma try_send_sends: "cmd_workspace cmd = Some ws \<Longrightarrow> cmd_path cmd = Some rel \<Longrightarrow> sends_for ws rel w (try_send_command cmd w)"
  by (auto simp: sends_for_def try_send_command_def)

lemma upsert_path_sends: "sends_for PRIMARY_WORKSPACE_ID rel w (upsert_path E p rel w)"
  by (auto simp: upsert_path_def Let_def intro!: try_send_sends split: option.split sum.split ExtractError.split)

lemma upsert_peer_path_sends: "sends_for ws rel w (upsert_peer_path E p rel root ws w)"
  by (auto simp: upsert_peer_path_def intro!: try_send_sends split: option.split sum.split ExtractError.split)

lemma process_source_sends: "sends_for PRIMARY_WORKSPACE_ID rel w (process_source_path E p rel w)"
  by (auto simp: process_source_path_def delete_path_def intro!: upsert_path_sends try_send_sends)

lemma process_peer_sends:
  "case to_workspace_relative p root of None \<Rightarrow> process_peer_path E p ws root w = w
   | Some rel \<Rightarrow> sends_for ws rel w (process_peer_path E p ws root w)"
  by (auto simp: process_peer_path_def delete_peer_path_def intro!: upsert_peer_path_sends try_send_sends split: option.split)

section \<open>The invariant\<close>

definition watch_ok :: "watch_state \<Rightarrow> bool" where
  "watch_ok w \<longleftrightarrow> db_ok (w_db w) \<and> length (w_queue w) \<le> WRITER_CHANNEL_CAPACITY \<and> distinct (map pr_workspace_id (w_peers w))"

lemma sends_ok: "sends_for ws rel w w' \<Longrightarrow> watch_ok w \<Longrightarrow> watch_ok w'"
  by (auto simp: sends_for_def watch_ok_def)

lemma watch_ok_db: "watch_ok w \<Longrightarrow> db_ok db \<Longrightarrow> watch_ok (w\<lparr>w_db := db\<rparr>)"
  by (simp add: watch_ok_def)

lemma keeps_lockfile_change: "keeps db_ok (handle_lockfile_change h F root p)"
  unfolding handle_lockfile_change_def purge_externals_by_origin_def write_stored_hashes_def by (intro keeps_intros)

lemma keeps_manifest_change: "keeps db_ok (handle_manifest_change cfg det root p)"
  unfolding handle_manifest_change_def by (intro keeps_intros)

lemma keeps_reindex: "keeps db_ok (reindex_paths R P paused prepared T join paths)"
  unfolding reindex_paths_def by (intro keeps_intros)

lemma sxd_change_ok: "watch_ok w \<Longrightarrow> watch_ok (snd (handle_sxd_change E w))"
  using keepsD[OF keeps_reindex] by (auto simp: handle_sxd_change_def Let_def watch_ok_def)

lemma primary_ok:
  assumes ok: "watch_ok w"
  shows "watch_ok (process_primary_path E p w)"
proof (cases "to_workspace_relative p (we_root E)")
  case (Some rel)
  obtain r1 db1 where l: "handle_lockfile_change (we_lock_hash E) (we_root_files E) (we_root E) p (w_db w) = (r1, db1)" by fastforce
  obtain r2 db2 where m: "handle_manifest_change (re_config (we_run E)) (re_detected (we_run E)) (re_root_text (we_run E)) p db1 = (r2, db2)"
    by fastforce
  have d1: "db_ok db1" using keeps_result[OF keeps_lockfile_change _ l] ok by (simp add: watch_ok_def)
  have d2: "db_ok db2" using keeps_result[OF keeps_manifest_change d1 m] .
  have src: "watch_ok (process_source_path E p rel (w\<lparr>w_db := db2\<rparr>))"
    by (rule sends_ok[OF process_source_sends watch_ok_db[OF ok d2]])
  show ?thesis
    using ok Some l m src sxd_change_ok[OF ok, of E] watch_ok_db[OF ok d1] watch_ok_db[OF ok d2]
    by (auto simp: process_primary_path_def split: sum.split option.split)
qed (use ok in \<open>simp add: process_primary_path_def\<close>)

lemma peer_ok: "watch_ok w \<Longrightarrow> watch_ok (process_peer_path E p ws root w)"
  using process_peer_sends[where p = p and root = root and E = E and ws = ws and w = w] by (auto split: option.splits intro: sends_ok)

lemma process_path_ok: "watch_ok w \<Longrightarrow> watch_ok (process_path E p w)"
  by (auto simp: process_path_def primary_ok peer_ok split: option.split Owner.split)

lemma fold_ok: "(\<And>x w. watch_ok w \<Longrightarrow> watch_ok (f x w)) \<Longrightarrow> watch_ok w \<Longrightarrow> watch_ok (fold f xs w)"
  by (induction xs arbitrary: w) auto

lemma dispatch_ok: "watch_ok w \<Longrightarrow> watch_ok (dispatch_result E paused result w)"
  by (auto simp: dispatch_result_def process_event_def intro!: fold_ok process_path_ok split: DebounceEventResult.split)

lemma remove_first_distinct:
  "remove_first P xs = (r, ys) \<Longrightarrow> set ys \<subseteq> set xs \<and> (distinct (map f xs) \<longrightarrow> distinct (map f ys))"
  by (induction xs arbitrary: r ys) (fastforce split: if_splits prod.splits)+

lemma peers_ok:
  "watch_ok w \<Longrightarrow> watch_ok (snd (add_peer ws c b w))"
  "watch_ok w \<Longrightarrow> watch_ok (snd (remove_peer ws b w))"
proof -
  show "watch_ok w \<Longrightarrow> watch_ok (snd (add_peer ws c b w))"
    by (auto simp: add_peer_def watch_ok_def list_ex_iff split: option.split)
  obtain r ys where rf: "remove_first (\<lambda>p. pr_workspace_id p = ws) (w_peers w) = (r, ys)" by fastforce
  show "watch_ok w \<Longrightarrow> watch_ok (snd (remove_peer ws b w))"
    using remove_first_distinct[OF rf, of pr_workspace_id] by (auto simp: remove_peer_def rf watch_ok_def)
qed

text \<open>The watcher thread, the writer thread and the owner of the handle take turns in any order.\<close>

inductive watch_step :: "watch_state \<Rightarrow> watch_state \<Rightarrow> bool" where
  received: "watch_step w (dispatch_result E paused result w)"
| wrote: "w_queue w = cmd # rest \<Longrightarrow> process_command pool PE cmd (w_db w) = (res, db) \<Longrightarrow>
     watch_step w (w\<lparr>w_queue := rest, w_db := db\<rparr>)"
| added: "add_peer ws canonical ok w = (res, w') \<Longrightarrow> watch_step w w'"
| removed: "remove_peer ws ok w = (res, w') \<Longrightarrow> watch_step w w'"
| dropped: "watch_step w (watcher_drop w)"

inductive_cases watch_stepE: "watch_step w w'"

interpretation watching: step_invariant watch_step watch_ok
proof unfold_locales
  fix w w' assume "watch_step w w'" and ok: "watch_ok w"
  then show "watch_ok w'"
  proof (cases rule: watch_step.cases)
    case (wrote cmd rest pool PE res db)
    then have "db_ok db" using keeps_result[OF keeps_process_command _ wrote(3)] ok by (simp add: watch_ok_def)
    then show ?thesis using ok wrote by (simp add: watch_ok_def)
  next
    case (added ws canonical b res)
    then show ?thesis using peers_ok(1)[OF ok, of ws canonical b] by simp
  next
    case (removed ws b res)
    then show ?thesis using peers_ok(2)[OF ok, of ws b] by simp
  qed (use ok dispatch_ok in \<open>auto simp: watcher_drop_def watch_ok_def\<close>)
qed

text \<open>
  C7. Whatever events arrive, however the writer and the changes of peers interleave with them, and
  whatever fails on the way, the database stays consistent, the queue stays within its capacity and no
  peer is watched twice.
\<close>

theorem watcher_reachable_consistent:
  assumes start: "spawn_watcher True db filters = Inr w0" and ok: "db_ok db" and run: "watch_step\<^sup>*\<^sup>* w0 w"
  shows "db_ok (w_db w) \<and> length (w_queue w) \<le> 64 \<and> distinct (map pr_workspace_id (w_peers w))"
proof -
  have "watch_ok w0" using start ok by (auto simp: spawn_watcher_def watch_ok_def split: sum.splits)
  from watching.reachable[OF run this] show ?thesis by (simp add: watch_ok_def WRITER_CHANNEL_CAPACITY_def)
qed

definition demo_watch_env :: watch_env where
  "demo_watch_env = \<lparr> we_run = demo_run demo_env 0, we_provider = demo_provider, we_prepared = [], we_root = [''w''],
     we_join = (\<lambda>rel. [''w'', rel]), we_lock_hash = (\<lambda>_. []), we_root_files = demo_root, we_ignore = demo_ignore,
     we_is_file = (\<lambda>_. False), we_exists = (\<lambda>_. False), we_read = (\<lambda>_. None), we_tree = [], we_reindex_paused = False \<rparr>"

definition no_filters :: GitignoreStack where
  "no_filters = \<lparr> gk_layers = [], gk_workspace_root = [''w''] \<rparr>"

definition demo_watch_db :: db where
  "demo_watch_db = set_meta ''watcher_debounce_ms'' (u64_to_string 500) demo_db"

theorem watcher_reachable_consistent_witness:
  "\<exists>w0. spawn_watcher True demo_watch_db no_filters = Inr w0 \<and>
     db_ok (w_db (dispatch_result demo_watch_env False (Events [\<lparr> ev_kind = RemoveEvent, ev_paths = [[''w'', ''a.rs'']] \<rparr>]) w0))"
proof -
  obtain w0 where w0: "spawn_watcher True demo_watch_db no_filters = Inr w0"
    by (simp add: spawn_watcher_def read_debounce_ms_def demo_watch_db_def set_meta_def)
  have ok: "db_ok demo_watch_db" using keepsD[OF keeps_set_meta, of demo_db] by (simp add: demo_watch_db_def)
  have "watch_step\<^sup>*\<^sup>* w0 (dispatch_result demo_watch_env False (Events [\<lparr> ev_kind = RemoveEvent, ev_paths = [[''w'', ''a.rs'']] \<rparr>]) w0)"
    by (intro r_into_rtranclp watch_step.received)
  from watcher_reachable_consistent[OF w0 ok this] show ?thesis using w0 by blast
qed

section \<open>Routing\<close>

definition routed :: "string list \<Rightarrow> PeerRoot list \<Rightarrow> string list \<Rightarrow> IngestCommand \<Rightarrow> bool" where
  "routed root peers p cmd \<longleftrightarrow>
     (if prefix root p then cmd_workspace cmd = Some PRIMARY_WORKSPACE_ID \<and> cmd_path cmd = to_workspace_relative p root
      else \<exists>q\<in>set peers. prefix (pr_root q) p \<and> cmd_workspace cmd = Some (pr_workspace_id q) \<and>
             cmd_path cmd = to_workspace_relative p (pr_root q))"

lemma sends_queue:
  "sends_for ws rel w w' \<Longrightarrow> w_peers w' = w_peers w \<and> (\<exists>cmds. w_queue w' = w_queue w @ cmds \<and>
     (\<forall>cmd\<in>set cmds. cmd_workspace cmd = Some ws \<and> cmd_path cmd = Some rel))"
  by (auto simp: sends_for_def)

lemma primary_queue:
  "w_peers (process_primary_path E p w) = w_peers w \<and> (\<exists>cmds. w_queue (process_primary_path E p w) = w_queue w @ cmds \<and>
     (\<forall>cmd\<in>set cmds. cmd_workspace cmd = Some PRIMARY_WORKSPACE_ID \<and> cmd_path cmd = to_workspace_relative p (we_root E)))"
proof (cases "to_workspace_relative p (we_root E)")
  case (Some rel)
  have "\<exists>db. process_primary_path E p w = w\<lparr>w_db := db\<rparr> \<or> process_primary_path E p w = process_source_path E p rel (w\<lparr>w_db := db\<rparr>) \<or>
      process_primary_path E p w = snd (handle_sxd_change E w)"
    using Some by (auto simp: process_primary_path_def split: prod.split sum.split option.split)
  moreover have "w_queue (snd (handle_sxd_change E w)) = w_queue w" "w_peers (snd (handle_sxd_change E w)) = w_peers w"
    by (simp_all add: handle_sxd_change_def Let_def)
  moreover have "w_peers (process_source_path E p rel (w\<lparr>w_db := db\<rparr>)) = w_peers w \<and>
      (\<exists>cmds. w_queue (process_source_path E p rel (w\<lparr>w_db := db\<rparr>)) = w_queue w @ cmds \<and>
        (\<forall>cmd\<in>set cmds. cmd_workspace cmd = Some PRIMARY_WORKSPACE_ID \<and> cmd_path cmd = Some rel))" for db
    using sends_queue[OF process_source_sends[of rel "w\<lparr>w_db := db\<rparr>" E p]] by simp
  ultimately show ?thesis using Some by (elim exE disjE) auto
qed (simp add: process_primary_path_def)

lemma process_path_routed:
  "w_peers (process_path E p w) = w_peers w \<and>
   (\<exists>cmds. w_queue (process_path E p w) = w_queue w @ cmds \<and> (\<forall>cmd\<in>set cmds. routed (we_root E) (w_peers w) p cmd))"
proof (cases "resolve_owner p (we_root E) (w_peers w)")
  case None
  then show ?thesis by (simp add: process_path_def)
next
  case (Some owner)
  show ?thesis
  proof (cases owner)
    case PrimaryOwner
    then have "prefix (we_root E) p" using Some by (auto simp: resolve_owner_def split: if_splits)
    then show ?thesis using primary_queue[of E p w] PrimaryOwner Some by (auto simp: process_path_def routed_def)
  next
    case (PeerOwner ws root)
    then obtain q where q: "q \<in> set (w_peers w)" "prefix (pr_root q) p" "ws = pr_workspace_id q" "root = pr_root q" "\<not> prefix (we_root E) p"
      using Some by (auto simp: resolve_owner_def dest!: find_Some_set split: if_splits)
    have "w_peers (process_peer_path E p ws root w) = w_peers w \<and> (\<exists>cmds. w_queue (process_peer_path E p ws root w) = w_queue w @ cmds \<and>
        (\<forall>cmd\<in>set cmds. cmd_workspace cmd = Some ws \<and> cmd_path cmd = to_workspace_relative p root))"
      using process_peer_sends[where p = p and root = root and E = E and ws = ws and w = w]
      by (cases "to_workspace_relative p root") (auto dest: sends_queue)
    then show ?thesis using PeerOwner Some q by (auto simp: process_path_def routed_def)
  qed
qed

text \<open>
  C26. An event only appends commands, each for a path of the event and for the workspace that owns it:
  the primary one for every path below its root, otherwise a watched peer whose root is above it, with
  the path relative to that root.
\<close>

theorem events_are_routed:
  "w_peers (process_event E ev w) = w_peers w \<and>
   (\<exists>cmds. w_queue (process_event E ev w) = w_queue w @ cmds \<and>
      (\<forall>cmd\<in>set cmds. \<exists>p\<in>set (ev_paths ev). routed (we_root E) (w_peers w) p cmd))"
proof -
  have "w_peers (fold (process_path E) ps w) = w_peers w \<and> (\<exists>cmds. w_queue (fold (process_path E) ps w) = w_queue w @ cmds \<and>
      (\<forall>cmd\<in>set cmds. \<exists>p\<in>set ps. routed (we_root E) (w_peers w) p cmd))" for ps
  proof (induction ps arbitrary: w)
    case (Cons p ps)
    obtain cmds where c: "w_peers (process_path E p w) = w_peers w" "w_queue (process_path E p w) = w_queue w @ cmds"
        "\<forall>cmd\<in>set cmds. routed (we_root E) (w_peers w) p cmd" using process_path_routed[of E p w] by blast
    obtain cmds' where "w_queue (fold (process_path E) ps (process_path E p w)) = w_queue (process_path E p w) @ cmds'"
        "\<forall>cmd\<in>set cmds'. \<exists>p'\<in>set ps. routed (we_root E) (w_peers w) p' cmd"
        "w_peers (fold (process_path E) ps (process_path E p w)) = w_peers w" using Cons[of "process_path E p w"] c(1) by auto
    then show ?case using c by (intro conjI exI[of _ "cmds @ cmds'"]) auto
  qed simp
  then show ?thesis by (simp add: process_event_def)
qed

section \<open>From an event to the index\<close>

lemma manifest_change_no: "\<not> is_manifest_file p \<Longrightarrow> handle_manifest_change cfg det root p db = (Inr None, db)"
  by (simp add: handle_manifest_change_def sx_apply)

lemma lockfile_change_no: "classify_lockfile_path root p = None \<Longrightarrow> handle_lockfile_change h F root p db = (Inr None, db)"
  by (simp add: handle_lockfile_change_def sx_apply)

lemma relative_below: "to_workspace_relative p root = Some rel \<Longrightarrow> prefix root p"
  by (auto simp: to_workspace_relative_def prefix_def dest!: path_strip_prefix_Some split: option.splits)

definition is_source_path :: "watch_env \<Rightarrow> watch_state \<Rightarrow> string list \<Rightarrow> string \<Rightarrow> bool" where
  "is_source_path E w p rel \<longleftrightarrow> to_workspace_relative p (we_root E) = Some rel \<and> path_file_name p \<noteq> Some SXD_CONFIG_FILENAME \<and>
     classify_lockfile_path (we_root E) p = None \<and> \<not> is_manifest_file p \<and> \<not> is_skipped (w_filters w) rel \<and>
     has_supported_extension p"

lemma source_path_processed:
  "is_source_path E w p rel \<Longrightarrow> process_path E p w = (if we_is_file E p then upsert_path E p rel w
     else if \<not> we_exists E p then delete_path rel w else w)"
  by (simp add: is_source_path_def process_path_def resolve_owner_def relative_below process_primary_path_def
      lockfile_change_no manifest_change_no process_source_path_def filters_skipped_def)

lemma delete_command_commits:
  assumes ok: "db_ok db" and rev: "read_revision db = (Inr v, db)"
  obtains db' where "process_command (Some (Inr ())) PE (DeleteFile rel) db = (Inr (), db')" "db_ok db'"
    "t_files db' = delete_by f_path rel (t_files db)" "t_symbols db' = filter (\<lambda>r. s_file_path r \<noteq> rel) (t_symbols db)"
proof (rule apply_delete_file_run[OF ok, of rel])
  fix db1 :: db
  let ?db2 = "db1\<lparr>t_edge_sites := filter (\<lambda>r. es_file_path r \<noteq> rel) (t_edge_sites db1),
       t_files := delete_by f_path rel (t_files db), t_call_sites := filter (\<lambda>r. c_file_path r \<noteq> rel) (t_call_sites db)\<rparr>"
  assume syms: "t_symbols db1 = filter (\<lambda>r. s_file_path r \<noteq> rel) (t_symbols db)" and run: "apply_delete_file rel db = (Inr (), ?db2)"
  have c: "process_command (Some (Inr ())) PE (DeleteFile rel) db =
      (Inr (), set_meta REVISION_KEY (u64_to_string (saturating_succ v)) ?db2)"
    using run by (intro process_command_dispatched[OF rev]) simp
  moreover have "db_ok (set_meta REVISION_KEY (u64_to_string (saturating_succ v)) ?db2)"
    by (rule keeps_result[OF keeps_process_command ok c])
  ultimately show thesis using syms that by (simp add: set_meta_def)
qed



section \<open>A manifest that is also a lockfile\<close>

lemma keeps_projects_delete_where: "keeps (\<lambda>db. t_projects db = X) (sql_delete_symbols_where P)"
  unfolding sql_delete_symbols_where_def sql_delete_symbol_def
  by (intro keeps_intros) (simp_all add: keeps_def purge_symbol_def)

lemma keeps_projects_meta:
  "keeps (\<lambda>db. t_projects db = X) (update_meta k g)" "keeps (\<lambda>db. t_projects db = X) handle_bump_revision"
  by (simp_all add: keeps_def update_meta_def handle_bump_revision_def bump_revision_def sx_apply set_meta_def split: option.split)

lemma keeps_projects_lockfile: "keeps (\<lambda>db. t_projects db = X) (handle_lockfile_change h F root p)"
  unfolding handle_lockfile_change_def purge_externals_by_origin_def write_stored_hashes_def
  by (intro keeps_intros keeps_projects_delete_where keeps_projects_meta) simp_all?

lemma path_strip_append [simp]: "path_strip_prefix base (base @ rel) = Some rel"
  by (induction base) simp_all

text \<open>
  A change of \<^verbatim>\<open>bun.lock\<close>, which the list of manifests names, never re-detects the projects: the
  lockfile handler that runs before takes it.
\<close>

lemma bun_lock_skips_redetection:
  fixes E w dirs
  defines "p \<equiv> we_root E @ dirs @ [''bun.lock'']"
  shows "is_manifest_file p \<and> t_projects (w_db (process_primary_path E p w)) = t_projects (w_db w)"
proof -
  have c: "classify_lockfile_path (we_root E) p = Some SourceOrigin.NodeModulesDts" and m: "is_manifest_file p"
    by (simp_all add: p_def classify_lockfile_path_def path_file_name_def is_manifest_file_def MANIFEST_FILENAMES_def)
  obtain r db where run: "handle_lockfile_change (we_lock_hash E) (we_root_files E) (we_root E) p (w_db w) = (r, db)" by fastforce
  have "t_projects db = t_projects (w_db w)" using keepsD[OF keeps_projects_lockfile refl, of _ _ _ _ "w_db w"] run by (metis snd_conv)
  moreover have "r \<noteq> Inr None"
    using c run by (auto simp: handle_lockfile_change_def sbind_def sthen_def sx_apply split: prod.splits sum.splits)
  moreover have "path_file_name p \<noteq> Some SXD_CONFIG_FILENAME" by (simp add: p_def path_file_name_def SXD_CONFIG_FILENAME_def)
  ultimately show ?thesis
    using m run by (cases r) (auto simp: process_primary_path_def split: option.split)
qed

theorem events_are_routed_witness:
  "\<exists>w0. spawn_watcher True demo_watch_db no_filters = Inr w0 \<and>
     (\<exists>cmd. w_queue (process_event demo_watch_env \<lparr> ev_kind = RemoveEvent, ev_paths = [[''w'', ''a.rs'']] \<rparr> w0) = [cmd] \<and>
        routed [''w''] [] [''w'', ''a.rs''] cmd)"
proof -
  obtain w0 where w0: "spawn_watcher True demo_watch_db no_filters = Inr w0"
    by (simp add: spawn_watcher_def read_debounce_ms_def demo_watch_db_def set_meta_def)
  then have f: "w_db w0 = demo_watch_db" "w_queue w0 = []" "w_filters w0 = no_filters" "w_peers w0 = []"
    by (auto simp: spawn_watcher_def split: sum.splits)
  let ?p = "[''w'', ''a.rs'']" let ?ev = "\<lparr> ev_kind = RemoveEvent, ev_paths = [?p] \<rparr>"
  have "is_source_path demo_watch_env w0 ?p ''a.rs''"
    by (simp add: is_source_path_def f no_filters_def demo_watch_env_def) code_simp
  from source_path_processed[OF this] have "w_queue (process_event demo_watch_env ?ev w0) = [DeleteFile ''a.rs'']"
    by (simp add: f demo_watch_env_def WRITER_CHANNEL_CAPACITY_def process_event_def delete_path_def try_send_command_def)
  with events_are_routed[of demo_watch_env ?ev w0] have "routed (we_root demo_watch_env) (w_peers w0) ?p (DeleteFile ''a.rs'')"
    by (auto simp: f)
  then have "routed [''w''] [] ?p (DeleteFile ''a.rs'')" by (simp add: f demo_watch_env_def)
  with \<open>w_queue (process_event demo_watch_env ?ev w0) = [DeleteFile ''a.rs'']\<close> show ?thesis using w0 by blast
qed

end
