(* ===== verification/Text.thy ===== *)
theory Text
  imports Query_Context
begin

text \<open>
  Operations of Rust strings the later theories share: replacement, search, trimming, with the lemmas on
  what trimming removes.
\<close>

text \<open>\<^verbatim>\<open>str::replace\<close>: non-overlapping occurrences from left to right.\<close>

function str_replace :: "string \<Rightarrow> string \<Rightarrow> string \<Rightarrow> string" where
  "str_replace pat to [] = []"
| "str_replace pat to (c # s) =
    (if pat \<noteq> [] \<and> prefix pat (c # s) then to @ str_replace pat to (drop (length pat) (c # s))
     else c # str_replace pat to s)"
  by pat_completeness auto
termination by (relation "measure (\<lambda>(_, _, s). length s)") (auto simp: prefix_def)

definition trim_matches :: "char \<Rightarrow> string \<Rightarrow> string" where
  "trim_matches c s = rev (dropWhile ((=) c) (rev (dropWhile ((=) c) s)))"

fun find_str :: "string \<Rightarrow> string \<Rightarrow> nat option" where
  "find_str pat [] = (if pat = [] then Some 0 else None)"
| "find_str pat (c # s) = (if prefix pat (c # s) then Some 0 else map_option Suc (find_str pat s))"

section \<open>Trimming\<close>

lemma ws_len_cases: "ws_len s = 0 \<or> (\<exists>p\<in>set WHITE_SPACE. prefix p s \<and> ws_len s = length p)"
  by (auto simp: ws_len_def dest!: find_Some_set split: option.split)

lemma trim_start_split: "\<exists>w. s = w @ trim_start s \<and> (w = [] \<or> last w \<in> last ` set WHITE_SPACE)"
proof (induction s rule: trim_start.induct)
  case (1 s)
  show ?case
  proof (cases "ws_len s = 0")
    case True
    then show ?thesis by (simp add: trim_start.simps)
  next
    case False
    then obtain p t where p: "p \<in> set WHITE_SPACE" "s = p @ t" "ws_len s = length p"
      using ws_len_cases[of s] by (auto simp: prefix_def)
    obtain w where w: "t = w @ trim_start t" "w = [] \<or> last w \<in> last ` set WHITE_SPACE" using 1[OF False] p by auto
    have e: "trim_start s = trim_start t" using False p by (subst trim_start.simps) simp
    have "p \<noteq> []" using False p(3) by auto
    then have "last (p @ w) \<in> last ` set WHITE_SPACE" using w(2) p(1) by (cases "w = []") auto
    moreover have "s = (p @ w) @ trim_start s" using p(2) w(1) e by simp
    ultimately show ?thesis by blast
  qed
qed

lemma white_nonempty: "p \<in> set WHITE_SPACE \<Longrightarrow> p \<noteq> []"
  by (auto simp: WHITE_SPACE_def)

lemma no_white_prefix:
  assumes "\<forall>p\<in>set WHITE_SPACE. hd p \<noteq> c"
  shows "trim_start (c # s) = c # s"
proof -
  have "ws_len (c # s) = 0" using ws_len_cases[of "c # s"] assms white_nonempty by (auto simp: prefix_Cons)
  then show ?thesis by (simp add: trim_start.simps)
qed

lemma no_white_suffix:
  assumes "\<forall>p\<in>set WHITE_SPACE. last p \<noteq> c"
  shows "trim_end (s @ [c]) = s @ [c]"
proof -
  have "\<not> suffix p (s @ [c])" if "p \<in> set WHITE_SPACE" for p
    using that assms white_nonempty[OF that] by (metis last_appendR last_snoc suffix_def)
  then have "find (\<lambda>p. suffix p (s @ [c])) WHITE_SPACE = None" by (auto simp: find_None_set)
  then show ?thesis by (simp add: trim_end.simps)
qed

lemma str_trim_id: "\<forall>p\<in>set WHITE_SPACE. hd p \<noteq> c \<Longrightarrow> \<forall>p\<in>set WHITE_SPACE. last p \<noteq> d \<Longrightarrow> str_trim (c # s @ [d]) = c # s @ [d]"
  using no_white_suffix[of d "c # s"] by (simp add: str_trim_def no_white_prefix)

lemma find_str_append: "c \<notin> set a \<Longrightarrow> find_str [c] (a @ c # b) = Some (length a)"
  by (induction a) (auto simp: prefix_Cons)

lemma find_str_None: "c \<notin> set a \<Longrightarrow> find_str [c] a = None"
  by (induction a) auto

lemma find_str_Some: "find_str pat s = Some k \<Longrightarrow> k \<le> length s \<and> prefix pat (drop k s)"
  by (induction s arbitrary: k) (auto split: if_splits)

lemma find_str_sublist: "\<exists>k. find_str pat (a @ pat @ b) = Some k"
  by (induction a) (cases pat; cases b; auto)+

lemma trim_end_split: "\<exists>w. s = trim_end s @ w"
proof (induction s rule: trim_end.induct)
  case (1 s)
  show ?case
  proof (cases "find (\<lambda>p. suffix p s) WHITE_SPACE")
    case None
    then show ?thesis by (simp add: trim_end.simps)
  next
    case (Some p)
    obtain w where "take (length s - length p) s = trim_end (take (length s - length p) s) @ w" using 1[OF Some] by blast
    moreover have "trim_end s = trim_end (take (length s - length p) s)" using Some by (subst trim_end.simps) simp
    ultimately have "s = trim_end s @ w @ drop (length s - length p) s" by (metis append_assoc append_take_drop_id)
    then show ?thesis by blast
  qed
qed

lemma str_trim_split: "\<exists>v w. s = v @ str_trim s @ w"
  unfolding str_trim_def using trim_start_split[of s] trim_end_split[of "trim_start s"] by metis

end
