(* ===== verification/Proxy.thy ===== *)
theory Proxy
  imports Text Notify "HOL-Library.AList"
begin

text \<open>
  The HTTP proxy between a client and the daemons of one or more workspaces
  (\<^verbatim>\<open>standardoc-mcp-proxy/src/proxy.rs\<close>): registration of workspaces, the cells that hold their upstream
  addresses and the watchers that update them, forwarding with retries, the administrative calls.

  Paths are the strings of the source.  Canonical paths, file contents, the digest, the outcome of
  system calls, the HTTP client and the clock (in milliseconds) are arguments; log lines are left out.
\<close>

section \<open>Text\<close>

abbreviation BACKSLASH :: char where "BACKSLASH \<equiv> CHR 0x5C"

abbreviation QUOTE :: char where "QUOTE \<equiv> CHR 0x22"

definition escape_json :: "string \<Rightarrow> string" where
  "escape_json s = str_replace [QUOTE] [BACKSLASH, QUOTE] (str_replace [BACKSLASH] [BACKSLASH, BACKSLASH] s)"

definition strip_quotes :: "string \<Rightarrow> string option" where
  "strip_quotes s = Option.bind (strip_prefix [QUOTE] s) (strip_suffix [QUOTE])"

definition path_join :: "string \<Rightarrow> string \<Rightarrow> string" where
  "path_join root rel = (if root = [] \<or> last root = CHR ''/'' then root @ rel else root @ ''/'' @ rel)"

definition json_bool :: "bool \<Rightarrow> string" where
  "json_bool b = (if b then ''true'' else ''false'')"

definition json_field :: "string \<Rightarrow> string \<Rightarrow> string" where
  "json_field key val = [QUOTE] @ key @ [QUOTE] @ '':'' @ val"

definition json_text :: "string \<Rightarrow> string" where
  "json_text s = [QUOTE] @ s @ [QUOTE]"

section \<open>State\<close>

record ProxyConfig =
  pc_bind_addr :: string
  pc_workspaces :: "string list"
  pc_upstream_retry_window :: nat

datatype ProxyError = Bind string string | Serve string | WatcherFailed string | NoWorkspaces

text \<open>
  An entry shares its upstream address with a watcher task: the address is a cell, which outlives the
  entry when the workspace is removed.
\<close>

record WorkspaceEntry =
  wse_id :: string
  wse_root :: string
  wse_upstream :: nat

record memory =
  pm_cells :: "string list"
  pm_watchers :: "(string \<times> nat) list"

record ProxyState = memory +
  ps_workspaces :: "(string \<times> WorkspaceEntry) list"
  ps_default_id :: string
  ps_retry_window :: nat
  ps_total_requests :: "64 word"
  ps_successful_requests :: "64 word"
  ps_upstream_503_responses :: "64 word"
  ps_last_request_at :: "nat option"
  ps_started_at :: nat

record proxy_env =
  px_canonicalize :: "string \<Rightarrow> string option"
  px_hash :: "string \<Rightarrow> Blake3Hash"
  px_read :: "string \<Rightarrow> string option"
  px_dir_exists :: "string \<Rightarrow> bool"
  px_create_dir :: "string \<Rightarrow> string + unit"
  px_new_debouncer :: "string + unit"
  px_watch :: "string \<Rightarrow> string + unit"

record http_response =
  hr_status :: nat
  hr_headers :: "(string \<times> string) list"
  hr_body :: string

definition error_response :: "nat \<Rightarrow> string \<Rightarrow> http_response" where
  "error_response status body = \<lparr> hr_status = status, hr_headers = [(''content-type'', ''text/plain; charset=utf-8'')], hr_body = body \<rparr>"

definition json_response :: "nat \<Rightarrow> string \<Rightarrow> http_response" where
  "json_response status body = \<lparr> hr_status = status, hr_headers = [(''content-type'', ''application/json'')], hr_body = body \<rparr>"

section \<open>Workspaces\<close>

definition workspace_id_for :: "proxy_env \<Rightarrow> string \<Rightarrow> string" where
  "workspace_id_for E path =
    take 8 (to_hex (px_hash E (case px_canonicalize E path of Some canonical \<Rightarrow> canonical | None \<Rightarrow> path)))"

definition read_endpoint_file :: "proxy_env \<Rightarrow> string \<Rightarrow> string option" where
  "read_endpoint_file E path =
    (case px_read E path of
       None \<Rightarrow> None
     | Some raw \<Rightarrow> let trimmed = str_trim raw in if trimmed = [] then None else Some trimmed)"

text \<open>Registration of the watcher task for a cell; its events are \<^verbatim>\<open>endpoint_events\<close> below.\<close>

definition spawn_endpoint_watcher :: "proxy_env \<Rightarrow> string \<Rightarrow> string \<Rightarrow> nat \<Rightarrow> ('m memory_scheme, ProxyError, unit) sx" where
  "spawn_endpoint_watcher E parent endpoint_path cell =
    sthen (if px_dir_exists E parent then sreturn ()
           else case px_create_dir E parent of
             Inl e \<Rightarrow> sthrow (WatcherFailed (''create '' @ parent @ '': '' @ e)) | Inr _ \<Rightarrow> sreturn ())
    (case px_new_debouncer E of
       Inl e \<Rightarrow> sthrow (WatcherFailed (''init debouncer: '' @ e))
     | Inr _ \<Rightarrow>
         (case px_watch E parent of
            Inl e \<Rightarrow> sthrow (WatcherFailed (''watch '' @ parent @ '': '' @ e))
          | Inr _ \<Rightarrow> smodify (\<lambda>s. s\<lparr>pm_watchers := pm_watchers s @ [(endpoint_path, cell)]\<rparr>)))"

definition init_workspace :: "proxy_env \<Rightarrow> string \<Rightarrow> ('m memory_scheme, ProxyError, WorkspaceEntry) sx" where
  "init_workspace E root =
    (let parent = path_join root ''.standardoc''; endpoint_path = path_join parent ''mcp.endpoint'';
         initial = (case read_endpoint_file E endpoint_path of Some url \<Rightarrow> url | None \<Rightarrow> [])
     in sbind (squery (\<lambda>s. length (pm_cells s))) (\<lambda>cell.
        sthen (smodify (\<lambda>s. s\<lparr>pm_cells := pm_cells s @ [initial]\<rparr>))
        (sthen (spawn_endpoint_watcher E parent endpoint_path cell)
          (sreturn \<lparr> wse_id = workspace_id_for E root, wse_root = root, wse_upstream = cell \<rparr>))))"

text \<open>A message of the watcher of a cell, and the contents of the file read after it.\<close>

definition path_components :: "string \<Rightarrow> string list" where
  "path_components p =
    (let cs = split_char (CHR ''/'') p in
     (if prefix ''/'' p then [''/''] else if hd cs = ''.'' then [''.''] else []) @ filter (\<lambda>c. c \<noteq> [] \<and> c \<noteq> ''.'') cs)"

definition is_endpoint_event :: "string \<Rightarrow> event \<Rightarrow> bool" where
  "is_endpoint_event endpoint ev \<longleftrightarrow>
     ev_kind ev \<in> {CreateEvent, ModifyEvent, RemoveEvent} \<and> path_components endpoint \<in> set (ev_paths ev)"

definition endpoint_events ::
  "string \<Rightarrow> string option \<Rightarrow> nat \<Rightarrow> DebounceEventResult \<Rightarrow> 'm memory_scheme \<Rightarrow> 'm memory_scheme" where
  "endpoint_events endpoint contents cell res s =
    (case res of
       NotifyErrors \<Rightarrow> s
     | Events events \<Rightarrow>
         if \<not> list_ex (is_endpoint_event endpoint) events then s
         else (case contents of
            Some new_url \<Rightarrow> s\<lparr>pm_cells := (pm_cells s)[cell := new_url]\<rparr>
          | None \<Rightarrow> s\<lparr>pm_cells := (pm_cells s)[cell := []]\<rparr>))"

definition upstream_of :: "'m memory_scheme \<Rightarrow> WorkspaceEntry \<Rightarrow> string" where
  "upstream_of s ws = pm_cells s ! wse_upstream ws"

section \<open>Start\<close>

text \<open>The answer of \<^verbatim>\<open>GET /health\<close>: a status and the body when it could be read.\<close>

definition probe_existing_proxy :: "string \<Rightarrow> (nat \<times> string option) option \<Rightarrow> string option" where
  "probe_existing_proxy bind_addr answer =
    (case answer of
       None \<Rightarrow> None
     | Some (status, body) \<Rightarrow>
         if \<not> (200 \<le> status \<and> status < 300) then None
         else (case body of
            None \<Rightarrow> None
          | Some text \<Rightarrow> if str_contains ''default_workspace_id'' text then Some (''http://'' @ bind_addr) else None))"

definition register_body :: "string \<Rightarrow> string" where
  "register_body canonical = ''{'' @ json_field ''path'' (json_text (escape_json canonical)) @ ''}''"

datatype post_result = PostAnswer nat string string | PostFailed string

text \<open>\<^verbatim>\<open>post\<close> is the answer to the body sent for a root: status, its text, the body, or an error.\<close>

fun register_loop :: "proxy_env \<Rightarrow> (string \<Rightarrow> post_result) \<Rightarrow> string list \<Rightarrow> string option \<Rightarrow> string option" where
  "register_loop E post [] any_error = any_error"
| "register_loop E post (root # roots) any_error =
    (let canonical = (case px_canonicalize E root of Some c \<Rightarrow> c | None \<Rightarrow> root)
     in register_loop E post roots
       (case post (register_body canonical) of
          PostAnswer status status_text txt \<Rightarrow>
            if 200 \<le> status \<and> status < 300 then any_error
            else Some (case any_error of Some e \<Rightarrow> e
                       | None \<Rightarrow> ''register '' @ root @ '' failed: HTTP '' @ status_text @ '': '' @ txt)
        | PostFailed e \<Rightarrow>
            Some (case any_error of Some m \<Rightarrow> m | None \<Rightarrow> ''register '' @ root @ '' failed: '' @ e)))"

definition register_with_existing :: "proxy_env \<Rightarrow> (string \<Rightarrow> post_result) \<Rightarrow> string list \<Rightarrow> ProxyError + unit" where
  "register_with_existing E post workspaces =
    (case register_loop E post workspaces None of Some msg \<Rightarrow> Inl (WatcherFailed msg) | None \<Rightarrow> Inr ())"

fun init_loop ::
  "proxy_env \<Rightarrow> string list \<Rightarrow> (string \<times> WorkspaceEntry) list \<Rightarrow> string option \<Rightarrow>
   (memory, ProxyError, (string \<times> WorkspaceEntry) list \<times> string option) sx" where
  "init_loop E [] workspaces default_id = sreturn (workspaces, default_id)"
| "init_loop E (root # roots) workspaces default_id =
    sbind (init_workspace E root) (\<lambda>entry.
      init_loop E roots (AList.update (wse_id entry) entry workspaces)
        (case default_id of None \<Rightarrow> Some (wse_id entry) | Some d \<Rightarrow> Some d))"

text \<open>\<^verbatim>\<open>None\<close>: the workspaces were registered with a proxy that is already running.\<close>

definition run_proxy ::
  "proxy_env \<Rightarrow> (nat \<times> string option) option \<Rightarrow> (string \<Rightarrow> post_result) \<Rightarrow> nat \<Rightarrow> string + unit \<Rightarrow> ProxyConfig \<Rightarrow>
   ProxyError + ProxyState option" where
  "run_proxy E answer post started_at bound cfg =
    (if pc_workspaces cfg = [] then Inl NoWorkspaces
     else case probe_existing_proxy (pc_bind_addr cfg) answer of
       Some _ \<Rightarrow> (case register_with_existing E post (pc_workspaces cfg) of Inl e \<Rightarrow> Inl e | Inr _ \<Rightarrow> Inr None)
     | None \<Rightarrow>
         (case init_loop E (pc_workspaces cfg) [] None \<lparr> pm_cells = [], pm_watchers = [] \<rparr> of
            (Inl e, _) \<Rightarrow> Inl e
          | (Inr (workspaces, default_id), m) \<Rightarrow>
              (case bound of Inl e \<Rightarrow> Inl (Bind (pc_bind_addr cfg) e)
               | Inr _ \<Rightarrow> Inr (Some \<lparr> pm_cells = pm_cells m, pm_watchers = pm_watchers m, ps_workspaces = workspaces,
                ps_default_id = the default_id, ps_retry_window = pc_upstream_retry_window cfg, ps_total_requests = 0,
                ps_successful_requests = 0, ps_upstream_503_responses = 0, ps_last_request_at = None, ps_started_at = started_at \<rparr>))))"

section \<open>Administrative calls\<close>

definition register_entry :: "string \<Rightarrow> string option \<Rightarrow> string + string option" where
  "register_entry raw path =
    (let entry = str_trim raw in
     if entry = [] then Inr path
     else case split_once (CHR '':'') entry of
       None \<Rightarrow> Inl (''malformed entry `'' @ entry @ ''` (expected `key:value`)'')
     | Some (k, v) \<Rightarrow>
         let key = trim_matches QUOTE (str_trim k) in
         (case strip_quotes (str_trim v) of
            None \<Rightarrow> Inl (''value for `'' @ key @ ''` must be a quoted string'')
          | Some val \<Rightarrow>
              if key = ''path''
              then Inr (Some (str_replace [BACKSLASH, QUOTE] [QUOTE] (str_replace [BACKSLASH, BACKSLASH] [BACKSLASH] val)))
              else Inr path))"

fun register_entries :: "string list \<Rightarrow> string option \<Rightarrow> string + string option" where
  "register_entries [] path = Inr path"
| "register_entries (entry # entries) path =
    (case register_entry entry path of Inl e \<Rightarrow> Inl e | Inr path \<Rightarrow> register_entries entries path)"

definition parse_register_body :: "string \<Rightarrow> string + string" where
  "parse_register_body body =
    (case Option.bind (strip_prefix ''{'' (str_trim body)) (strip_suffix ''}'') of
       None \<Rightarrow> Inl ''body must be a JSON object''
     | Some stripped \<Rightarrow>
         (case register_entries (split_char (CHR '','') stripped) None of
            Inl e \<Rightarrow> Inl e
          | Inr None \<Rightarrow> Inl ''missing `path` field''
          | Inr (Some path) \<Rightarrow> if path = [] then Inl ''`path` must not be empty'' else Inr path))"

definition entry_fields :: "WorkspaceEntry \<Rightarrow> string \<Rightarrow> string list" where
  "entry_fields ws upstream =
    [json_field ''id'' (json_text (wse_id ws)), json_field ''root'' (json_text (escape_json (wse_root ws))),
     json_field ''upstream'' (json_text (escape_json upstream)), json_field ''upstream_known'' (json_bool (upstream \<noteq> []))]"

definition workspaces_to_json :: "((string \<times> WorkspaceEntry) list \<Rightarrow> (string \<times> WorkspaceEntry) list) \<Rightarrow> ProxyState \<Rightarrow> string" where
  "workspaces_to_json visit s =
    ''['' @ join_str '','' (map (\<lambda>(_, ws). ''{'' @ join_str '','' (entry_fields ws (upstream_of s ws)) @ ''}'') (visit (ps_workspaces s))) @ '']''"

definition admin_list_workspaces :: "((string \<times> WorkspaceEntry) list \<Rightarrow> (string \<times> WorkspaceEntry) list) \<Rightarrow> ProxyState \<Rightarrow> http_response" where
  "admin_list_workspaces visit s = json_response 200
    (''{'' @ join_str '','' [json_field ''default_workspace_id'' (json_text (ps_default_id s)),
       json_field ''workspaces'' (workspaces_to_json visit s)] @ ''}'')"

definition health ::
  "((string \<times> WorkspaceEntry) list \<Rightarrow> (string \<times> WorkspaceEntry) list) \<Rightarrow> nat \<Rightarrow> ProxyState \<Rightarrow> http_response" where
  "health visit now s =
    (let age = (case ps_last_request_at s of Some ts \<Rightarrow> if ts \<le> now then Some (now - ts) else None | None \<Rightarrow> None);
         uptime_ms = (if ps_started_at s \<le> now then now - ps_started_at s else 0)
     in json_response 200 (''{'' @ join_str '',''
       [json_field ''default_workspace_id'' (json_text (ps_default_id s)),
        json_field ''workspaces'' (workspaces_to_json visit s),
        json_field ''uptime_ms'' (nat_to_dec uptime_ms),
        json_field ''total_requests'' (u64_to_string (ps_total_requests s)),
        json_field ''successful_requests'' (u64_to_string (ps_successful_requests s)),
        json_field ''upstream_503_responses'' (u64_to_string (ps_upstream_503_responses s)),
        json_field ''last_request_age_ms'' (case age of Some ms \<Rightarrow> nat_to_dec ms | None \<Rightarrow> ''null'')] @ ''}''))"

definition admin_entry_response :: "nat \<Rightarrow> WorkspaceEntry \<Rightarrow> string \<Rightarrow> string \<Rightarrow> http_response" where
  "admin_entry_response status ws upstream default_id = json_response status
    (''{'' @ join_str '','' (entry_fields ws upstream @ [json_field ''default'' (json_bool (wse_id ws = default_id))]) @ ''}'')"

fun proxy_error_text :: "ProxyError \<Rightarrow> string" where
  "proxy_error_text (Bind addr e) = ''bind '' @ addr @ '': '' @ e"
| "proxy_error_text (Serve e) = ''axum serve: '' @ e"
| "proxy_error_text (WatcherFailed msg) = ''watch `.standardoc/mcp.endpoint`: '' @ msg"
| "proxy_error_text NoWorkspaces = ''no workspaces configured '' @ [CHR 0xE2, CHR 0x80, CHR 0x94] @ '' pass --workspace at least once''"

definition admin_register_workspace :: "proxy_env \<Rightarrow> string \<Rightarrow> ProxyState \<Rightarrow> http_response \<times> ProxyState" where
  "admin_register_workspace E body s =
    (case parse_register_body body of
       Inl msg \<Rightarrow> (error_response 400 (''standardoc-mcp-proxy: admin register: '' @ msg), s)
     | Inr path \<Rightarrow>
         (case map_of (ps_workspaces s) (workspace_id_for E path) of
            Some ws \<Rightarrow> (admin_entry_response 200 ws (upstream_of s ws) (ps_default_id s), s)
          | None \<Rightarrow>
              (case init_workspace E path s of
                 (Inl e, s) \<Rightarrow> (error_response 500 (''standardoc-mcp-proxy: admin register: '' @ proxy_error_text e), s)
               | (Inr entry, s) \<Rightarrow>
                   (admin_entry_response 201 entry (upstream_of s entry) (ps_default_id s),
                    s\<lparr>ps_workspaces := AList.update (wse_id entry) entry (ps_workspaces s)\<rparr>))))"

definition admin_unregister_workspace :: "string \<Rightarrow> ProxyState \<Rightarrow> http_response \<times> ProxyState" where
  "admin_unregister_workspace ws_id s =
    (if ws_id = ps_default_id s
     then (error_response 409 (''standardoc-mcp-proxy: admin unregister: ws `'' @ ws_id @
             ''` is the default workspace and cannot be removed (would orphan /mcp back-compat route)''), s)
     else case map_of (ps_workspaces s) ws_id of
       None \<Rightarrow> (error_response 404 (''standardoc-mcp-proxy: admin unregister: unknown workspace id `'' @ ws_id @ ''`''), s)
     | Some _ \<Rightarrow> (\<lparr> hr_status = 204, hr_headers = [], hr_body = [] \<rparr>, s\<lparr>ps_workspaces := AList.delete ws_id (ps_workspaces s)\<rparr>))"

section \<open>Forwarding\<close>

definition build_target_url :: "string \<Rightarrow> string option \<Rightarrow> string option \<Rightarrow> string" where
  "build_target_url upstream incoming strip_ws_id =
    (let authority = (case find_str ''://'' upstream of
           None \<Rightarrow> upstream
         | Some idx \<Rightarrow> (case find_str ''/'' (drop (idx + 3) upstream) of None \<Rightarrow> upstream | Some p \<Rightarrow> take (idx + 3 + p) upstream));
         path_and_query = (case incoming of None \<Rightarrow> ''/'' | Some p \<Rightarrow> p);
         trimmed = (case strip_ws_id of
           None \<Rightarrow> path_and_query
         | Some ws_id \<Rightarrow> (case strip_prefix (''/ws/'' @ ws_id) path_and_query of
             None \<Rightarrow> path_and_query
           | Some s \<Rightarrow> if s = [] then ''/'' else s))
     in authority @ trimmed)"

record http_request =
  rq_method :: string
  rq_path_and_query :: "string option"
  rq_headers :: "(string \<times> string) list"
  rq_body :: string

datatype send_result = SendFailed (connect_or_timeout: bool) string | Sent nat "(string \<times> string) list" "string + string"

record http_client =
  hc_invalid_method :: "string \<Rightarrow> string option"
  hc_send :: "string \<Rightarrow> http_request \<Rightarrow> send_result"

datatype ForwardErrorKind = Connect | Transport | Build

record ForwardError =
  fe_kind :: ForwardErrorKind
  fe_message :: string

definition is_retryable :: "ForwardError \<Rightarrow> bool" where
  "is_retryable e \<longleftrightarrow> fe_kind e = Connect"

definition forwarded_headers :: "(string \<times> string) list \<Rightarrow> (string \<times> string) list" where
  "forwarded_headers headers =
    filter (\<lambda>(name, _). map ascii_lower name \<noteq> ''host'' \<and> map ascii_lower name \<noteq> ''content-length'') headers"

definition forward_once :: "http_client \<Rightarrow> string \<Rightarrow> http_request \<Rightarrow> ForwardError + http_response" where
  "forward_once client target_url req =
    (case hc_invalid_method client (rq_method req) of
       Some e \<Rightarrow> Inl \<lparr> fe_kind = Build, fe_message = ''invalid method `'' @ rq_method req @ ''`: '' @ e \<rparr>
     | None \<Rightarrow>
         (case hc_send client target_url (req\<lparr>rq_headers := forwarded_headers (rq_headers req)\<rparr>) of
            SendFailed connect msg \<Rightarrow> Inl \<lparr> fe_kind = (if connect then Connect else Transport), fe_message = msg \<rparr>
          | Sent status headers body \<Rightarrow>
              (case body of
                 Inl e \<Rightarrow> Inl \<lparr> fe_kind = Transport, fe_message = ''read upstream body: '' @ e \<rparr>
               | Inr bytes \<Rightarrow> Inr \<lparr> hr_status = status,
                   hr_headers = fold (\<lambda>(name, val). AList.update name val) headers [], hr_body = bytes \<rparr>)))"

text \<open>What one turn of the loop meets: the address in the cell, the client, the clock after the attempt.\<close>

record attempt =
  at_upstream :: string
  at_client :: http_client
  at_now :: nat

datatype verdict = Respond http_response | Fatal http_response | Retry string

definition try_upstream :: "string \<Rightarrow> http_request \<Rightarrow> string option \<Rightarrow> attempt \<Rightarrow> verdict" where
  "try_upstream ws_id req strip_ws_prefix a =
    (if at_upstream a = []
     then Retry (''upstream endpoint not yet known for ws '' @ ws_id @ '' (waiting for daemon)'')
     else case forward_once (at_client a) (build_target_url (at_upstream a) (rq_path_and_query req) strip_ws_prefix) req of
       Inr resp \<Rightarrow> Respond resp
     | Inl e \<Rightarrow> if is_retryable e then Retry (fe_message e)
         else Fatal (error_response 502 (''standardoc-mcp-proxy: upstream fatal: '' @ fe_message e)))"

definition count_success :: "http_response \<Rightarrow> ProxyState \<Rightarrow> ProxyState" where
  "count_success resp s = (if hr_status resp < 400 then s\<lparr>ps_successful_requests := ps_successful_requests s + 1\<rparr> else s)"

definition give_up :: "string \<Rightarrow> ProxyState \<Rightarrow> http_response \<times> ProxyState" where
  "give_up detail s =
    (error_response 503 (''standardoc-mcp-proxy: upstream still unreachable after '' @
       nat_to_dec (ps_retry_window s div 1000) @ ''s: '' @ detail),
     s\<lparr>ps_upstream_503_responses := ps_upstream_503_responses s + 1\<rparr>)"

definition FIRST_BACKOFF :: nat where "FIRST_BACKOFF = 100"

definition next_backoff :: "nat \<Rightarrow> nat" where
  "next_backoff backoff = min (backoff * 2) 2000"

text \<open>The body of the loop: the response when it returns, the backoff of the next turn otherwise.\<close>

definition forward_turn ::
  "string \<Rightarrow> http_request \<Rightarrow> string option \<Rightarrow> nat \<Rightarrow> attempt \<Rightarrow> ProxyState \<Rightarrow> http_response option \<times> ProxyState" where
  "forward_turn ws_id req strip_ws_prefix deadline a s =
    (case try_upstream ws_id req strip_ws_prefix a of
       Respond resp \<Rightarrow> (Some resp, count_success resp s)
     | Fatal resp \<Rightarrow> (Some resp, s)
     | Retry detail \<Rightarrow>
         if deadline \<le> at_now a then (case give_up detail s of (resp, s) \<Rightarrow> (Some resp, s)) else (None, s))"

text \<open>The loop on the turns it meets; \<^verbatim>\<open>None\<close> when it is still running after them.\<close>

fun forward_loop ::
  "string \<Rightarrow> http_request \<Rightarrow> string option \<Rightarrow> nat \<Rightarrow> attempt list \<Rightarrow> ProxyState \<Rightarrow> http_response option \<times> ProxyState" where
  "forward_loop ws_id req strip deadline [] s = (None, s)"
| "forward_loop ws_id req strip deadline (a # as) s =
    (case forward_turn ws_id req strip deadline a s of
       (Some resp, s) \<Rightarrow> (Some resp, s)
     | (None, s) \<Rightarrow> forward_loop ws_id req strip deadline as s)"

definition accept_request :: "nat \<Rightarrow> ProxyState \<Rightarrow> ProxyState" where
  "accept_request now s = s\<lparr>ps_total_requests := ps_total_requests s + 1, ps_last_request_at := Some now\<rparr>"

definition body_failed :: "string \<Rightarrow> http_response" where
  "body_failed e = error_response 400 (''standardoc-mcp-proxy: failed to buffer request body: '' @ e)"

definition forward_to ::
  "WorkspaceEntry \<Rightarrow> string + http_request \<Rightarrow> string option \<Rightarrow> nat \<Rightarrow> attempt list \<Rightarrow> ProxyState \<Rightarrow> http_response option \<times> ProxyState" where
  "forward_to ws req strip_ws_prefix now attempts s =
    (let s = accept_request now s in
     case req of
       Inl e \<Rightarrow> (Some (body_failed e), s)
     | Inr req \<Rightarrow> forward_loop (wse_id ws) req strip_ws_prefix (now + ps_retry_window s) attempts s)"

definition default_missing :: http_response where
  "default_missing = error_response 500 ''standardoc-mcp-proxy: default workspace missing (bug)''"

definition forward_default ::
  "string + http_request \<Rightarrow> nat \<Rightarrow> attempt list \<Rightarrow> ProxyState \<Rightarrow> http_response option \<times> ProxyState" where
  "forward_default req now attempts s =
    (case map_of (ps_workspaces s) (ps_default_id s) of
       None \<Rightarrow> (Some default_missing, s)
     | Some ws \<Rightarrow> forward_to ws req None now attempts s)"

definition forward_ws ::
  "string \<Rightarrow> string + http_request \<Rightarrow> nat \<Rightarrow> attempt list \<Rightarrow> ProxyState \<Rightarrow> http_response option \<times> ProxyState" where
  "forward_ws ws_id req now attempts s =
    (case map_of (ps_workspaces s) ws_id of
       None \<Rightarrow> (Some (error_response 404 (''standardoc-mcp-proxy: unknown workspace id `'' @ ws_id @ ''`'')), s)
     | Some ws \<Rightarrow> forward_to ws req (Some ws_id) now attempts s)"

section \<open>Trimming and escaping\<close>

lemma not_white [simp]:
  "\<forall>p\<in>set WHITE_SPACE. hd p \<noteq> QUOTE" "\<forall>p\<in>set WHITE_SPACE. last p \<noteq> QUOTE"
  "\<forall>p\<in>set WHITE_SPACE. hd p \<noteq> CHR ''{''" "\<forall>p\<in>set WHITE_SPACE. last p \<noteq> CHR ''}''"
  "BACKSLASH \<notin> last ` set WHITE_SPACE" "QUOTE \<notin> last ` set WHITE_SPACE"
  by (simp_all add: WHITE_SPACE_def)

lemma str_replace_char: "str_replace [c] t s = concat (map (\<lambda>x. if x = c then t else [x]) s)"
  by (induction s) auto

definition esc :: "char \<Rightarrow> string" where
  "esc c = (if c = BACKSLASH then [BACKSLASH, BACKSLASH] else if c = QUOTE then [BACKSLASH, QUOTE] else [c])"

lemma escape_json_concat: "escape_json s = concat (map esc s)"
  by (induction s) (auto simp: escape_json_def str_replace_char esc_def)

definition half_esc :: "char \<Rightarrow> string" where
  "half_esc c = (if c = QUOTE then [BACKSLASH, QUOTE] else [c])"

lemma unescape_pairs: "str_replace [BACKSLASH, BACKSLASH] [BACKSLASH] (concat (map esc s)) = concat (map half_esc s)"
  by (induction s) (auto simp: esc_def half_esc_def)

lemma unescape_quotes: "str_replace [BACKSLASH, QUOTE] [QUOTE] (concat (map half_esc s)) = s"
proof (induction s)
  case (Cons c s)
  have "\<not> prefix [QUOTE] (concat (map half_esc s))" by (cases s) (auto simp: half_esc_def)
  then show ?case using Cons by (cases "c = QUOTE") (auto simp: half_esc_def[of c] half_esc_def[of QUOTE])
qed simp

lemma unescape: "str_replace [BACKSLASH, QUOTE] [QUOTE] (str_replace [BACKSLASH, BACKSLASH] [BACKSLASH] (escape_json s)) = s"
  by (simp add: escape_json_concat unescape_pairs unescape_quotes)

lemma escape_json_set: "c \<notin> {BACKSLASH, QUOTE} \<Longrightarrow> c \<in> set (escape_json s) \<longleftrightarrow> c \<in> set s"
  by (induction s) (auto simp: escape_json_concat esc_def)

lemma escaped_quote: "escape_json s = x @ QUOTE # y \<Longrightarrow> x \<noteq> [] \<and> last x = BACKSLASH"
proof (induction s arbitrary: x)
  case (Cons c s)
  have e: "esc c @ escape_json s = x @ QUOTE # y" using Cons.prems by (simp add: escape_json_concat)
  show ?case
  proof (cases "length (esc c) \<le> length x")
    case True
    then obtain z where z: "x = esc c @ z" using e by (metis append_eq_append_conv_if append_take_drop_id)
    then have "escape_json s = z @ QUOTE # y" using e by simp
    then show ?thesis using Cons.IH[of z] z by auto
  next
    case False
    then have "x = [] \<or> x = [hd (esc c)]" by (cases x; cases "esc c") (use e in \<open>auto simp: esc_def not_less_eq_eq split: if_splits\<close>)
    then show ?thesis using e False by (auto simp: esc_def split: if_splits)
  qed
qed (simp add: escape_json_concat)

section \<open>Registering with a running proxy\<close>

lemma register_body_stripped:
  "Option.bind (strip_prefix ''{'' (str_trim (register_body path))) (strip_suffix ''}'') =
     Some ([QUOTE] @ ''path'' @ [QUOTE] @ '':'' @ [QUOTE] @ escape_json path @ [QUOTE])"
proof -
  let ?in = "[QUOTE] @ ''path'' @ [QUOTE] @ '':'' @ [QUOTE] @ escape_json path @ [QUOTE]"
  have b: "register_body path = CHR ''{'' # ?in @ [CHR ''}'']"
    by (simp add: register_body_def json_field_def json_text_def)
  have "str_trim (register_body path) = CHR ''{'' # ?in @ [CHR ''}'']"
    unfolding b by (rule str_trim_id) simp_all
  then have "strip_prefix ''{'' (str_trim (register_body path)) = Some (?in @ ''}'')"
    using strip_prefix_append[of "''{''" "?in @ ''}''"] by simp
  then show ?thesis using strip_suffix_append[of "''}''" ?in] by simp
qed

lemma strip_quotes_quoted: "strip_quotes (QUOTE # s @ [QUOTE]) = Some s"
  using strip_prefix_append[of "[QUOTE]" "s @ [QUOTE]"] strip_suffix_append[of "[QUOTE]" s] by (simp add: strip_quotes_def)

lemma path_entry:
  "register_entry ([QUOTE] @ ''path'' @ [QUOTE] @ '':'' @ [QUOTE] @ escape_json path @ [QUOTE]) acc = Inr (Some path)"
proof -
  let ?k = "[QUOTE] @ ''path'' @ [QUOTE]" let ?v = "[QUOTE] @ escape_json path @ [QUOTE]"
  have t: "str_trim (?k @ '':'' @ ?v) = ?k @ '':'' @ ?v"
    using str_trim_id[of QUOTE QUOTE "''path'' @ [QUOTE] @ '':'' @ [QUOTE] @ escape_json path"] by simp
  have k: "trim_matches QUOTE (str_trim ?k) = ''path''"
    using str_trim_id[of QUOTE QUOTE "''path''"] by (simp add: trim_matches_def)
  have v: "strip_quotes (str_trim ?v) = Some (escape_json path)"
    using str_trim_id[of QUOTE QUOTE "escape_json path"] strip_quotes_quoted by simp
  have "split_once (CHR '':'') (?k @ '':'' @ ?v) = Some (?k, ?v)"
    using split_once_append[of "CHR '':''" ?k ?v] by simp
  then show ?thesis
    unfolding register_entry_def using t k v unescape[of path] by (simp add: Let_def)
qed

text \<open>
  A path without a comma survives the trip from one proxy process to another: the hand-written
  parser of the running proxy reads back exactly the path the new process put into the request,
  whatever quotes and backslashes it has.
\<close>

theorem register_body_roundtrip:
  assumes "path \<noteq> []" "CHR '','' \<notin> set path"
  shows "parse_register_body (register_body path) = Inr path"
proof -
  let ?in = "[QUOTE] @ ''path'' @ [QUOTE] @ '':'' @ [QUOTE] @ escape_json path @ [QUOTE]"
  have "split_char (CHR '','') ?in = [?in]" using assms(2) by (intro split_char_single) (simp add: escape_json_set)
  then show ?thesis
    unfolding parse_register_body_def register_body_stripped using path_entry[of path] assms(1) by simp
qed

theorem register_body_roundtrip_witness:
  "parse_register_body (register_body [CHR ''C'', CHR '':'', BACKSLASH, QUOTE, BACKSLASH]) = Inr [CHR ''C'', CHR '':'', BACKSLASH, QUOTE, BACKSLASH]"
  by (rule register_body_roundtrip) simp_all

lemma register_entries_last:
  assumes "es \<noteq> []" "\<And>p. \<exists>e. register_entry (last es) p = Inl e"
  shows "\<exists>e. register_entries es p = Inl e"
  using assms
proof (induction es arbitrary: p)
  case (Cons x es)
  show ?case
  proof (cases "es = []")
    case True
    then obtain e where "register_entry x p = Inl e" using Cons.prems(2)[of p] by auto
    then show ?thesis by simp
  next
    case False
    then show ?thesis using Cons.IH Cons.prems(2) by (auto split: sum.split)
  qed
qed simp

lemma trim_start_ends: "s \<noteq> [] \<Longrightarrow> last s = QUOTE \<Longrightarrow> trim_start s \<noteq> [] \<and> last (trim_start s) = QUOTE"
  using trim_start_split[of s] not_white(6) by (metis append_Nil2 last_appendR)

lemma str_trim_quote: "s \<noteq> [] \<Longrightarrow> last s = QUOTE \<Longrightarrow> str_trim s = trim_start s"
  using trim_start_ends[of s] no_white_suffix[of QUOTE "butlast (trim_start s)"]
  by (simp add: str_trim_def) (metis append_butlast_last_id)

text \<open>Behind the last comma a value cannot open with a quote: every inner quote has a backslash before it.\<close>

lemma tail_entry_fails: "\<exists>e. register_entry (escape_json b @ [QUOTE]) p = Inl e"
proof -
  let ?s = "escape_json b @ [QUOTE]"
  obtain w where w: "?s = w @ trim_start ?s" using trim_start_split by blast
  have t: "str_trim ?s = trim_start ?s" "trim_start ?s \<noteq> []" "last (trim_start ?s) = QUOTE"
    using str_trim_quote[of ?s] trim_start_ends[of ?s] by simp_all
  show ?thesis
  proof (cases "split_once (CHR '':'') (trim_start ?s)")
    case None
    then show ?thesis using t by (simp add: register_entry_def Let_def)
  next
    case (Some kv)
    then obtain k v where kv: "kv = (k, v)" "trim_start ?s = k @ CHR '':'' # v" using split_once_Some by (cases kv) blast
    have v: "v \<noteq> []" "last v = QUOTE" using t(3) kv(2) by (auto split: if_splits)
    obtain u where u: "v = u @ trim_start v" "u = [] \<or> last u \<in> last ` set WHITE_SPACE" using trim_start_split by blast
    have "strip_quotes (str_trim v) = None"
    proof (rule ccontr)
      assume "strip_quotes (str_trim v) \<noteq> None"
      then obtain val where "trim_start v = QUOTE # val @ [QUOTE]"
        unfolding str_trim_quote[OF v] strip_quotes_def by (auto simp: strip_prefix_Some strip_suffix_Some bind_eq_Some_conv)
      then have "?s = (w @ k @ CHR '':'' # u) @ QUOTE # val @ [QUOTE]" using w kv(2) u(1) by simp
      then have "escape_json b = (w @ k @ CHR '':'' # u) @ QUOTE # val" by simp
      from escaped_quote[OF this] have "last (CHR '':'' # u) = BACKSLASH" by simp
      then show False using u(2) not_white(5) by (auto split: if_splits)
    qed
    then show ?thesis using t Some kv by (simp add: register_entry_def Let_def)
  qed
qed

text \<open>
  A path with a comma is always refused, because the parser splits the body at commas without
  looking at the quotes.
\<close>

theorem comma_path_refused:
  assumes "CHR '','' \<in> set path"
  shows "\<exists>msg. parse_register_body (register_body path) = Inl msg"
proof -
  let ?in = "[QUOTE] @ ''path'' @ [QUOTE] @ '':'' @ [QUOTE] @ escape_json path @ [QUOTE]"
  obtain a b where path: "path = a @ CHR '','' # b" "CHR '','' \<notin> set b" using assms split_list_last by fastforce
  have e: "escape_json path = escape_json a @ CHR '','' # escape_json b"
    using path(1) by (simp add: escape_json_concat esc_def[of "CHR '',''"])
  have "\<exists>l ls. split_char (CHR '','') (xs @ CHR '','' # ys) = l # ls @ split_char (CHR '','') ys" for xs ys
  proof (induction xs)
    case (Cons x xs)
    then obtain l ls where "split_char (CHR '','') (xs @ CHR '','' # ys) = l # ls @ split_char (CHR '','') ys" by blast
    then have "split_char (CHR '','') ((x # xs) @ CHR '','' # ys) =
        (if x = CHR '','' then [] # (l # ls) @ split_char (CHR '','') ys else (x # l) # ls @ split_char (CHR '','') ys)" by simp
    then show ?case by metis
  qed simp
  then have "last (split_char (CHR '','') (xs @ CHR '','' # ys)) = last (split_char (CHR '','') ys)" for xs ys
    by (metis append_Cons last_appendR split_char_not_Nil)
  note tails = this
  have "?in = ([QUOTE] @ ''path'' @ [QUOTE] @ '':'' @ [QUOTE] @ escape_json a) @ CHR '','' # escape_json b @ [QUOTE]" using e by simp
  then have "last (split_char (CHR '','') ?in) = last (split_char (CHR '','') (escape_json b @ [QUOTE]))" by (simp only: tails)
  also have "\<dots> = escape_json b @ [QUOTE]" using path(2) by (subst split_char_single) (simp_all add: escape_json_set)
  finally have "\<And>p. \<exists>e. register_entry (last (split_char (CHR '','') ?in)) p = Inl e" by (simp only: tail_entry_fails)
  from register_entries_last[OF split_char_not_Nil this] have "\<exists>msg. register_entries (split_char (CHR '','') ?in) None = Inl msg" .
  then show ?thesis unfolding parse_register_body_def register_body_stripped by auto
qed

theorem comma_path_refused_witness: "\<exists>msg. parse_register_body (register_body ''/a,b'') = Inl msg"
  by (rule comma_path_refused) simp

section \<open>The loop returns\<close>

text \<open>
  The sleep between two turns: the clock after a turn is at least the one after the turn before plus
  the backoff, which doubles up to two seconds.
\<close>

fun paced :: "nat \<Rightarrow> nat \<Rightarrow> attempt list \<Rightarrow> bool" where
  "paced t backoff [] = True"
| "paced t backoff (a # as) \<longleftrightarrow> t \<le> at_now a \<and> paced (at_now a + backoff) (next_backoff backoff) as"

fun slept :: "nat \<Rightarrow> nat \<Rightarrow> nat" where
  "slept backoff 0 = 0"
| "slept backoff (Suc n) = backoff + slept (next_backoff backoff) n"

lemma paced_last: "paced t backoff as \<Longrightarrow> as \<noteq> [] \<Longrightarrow> t + slept backoff (length as - 1) \<le> at_now (last as)"
proof (induction as arbitrary: t backoff)
  case (Cons a as)
  show ?case
  proof (cases as)
    case Nil
    then show ?thesis using Cons.prems by simp
  next
    case (Cons b bs)
    have "at_now a + backoff + slept (next_backoff backoff) (length as - 1) \<le> at_now (last as)"
      using Cons.prems(1) Cons by (intro Cons.IH) auto
    then show ?thesis using Cons.prems(1) Cons by simp
  qed
qed simp

definition answers :: "string \<Rightarrow> http_request \<Rightarrow> string option \<Rightarrow> nat \<Rightarrow> attempt list \<Rightarrow> nat \<Rightarrow> (http_response \<Rightarrow> bool) \<Rightarrow> bool" where
  "answers ws_id req strip deadline as i P \<longleftrightarrow> i < length as \<and>
     (\<forall>j<i. \<exists>d. try_upstream ws_id req strip (as ! j) = Retry d \<and> at_now (as ! j) < deadline) \<and>
     (case try_upstream ws_id req strip (as ! i) of
        Respond r \<Rightarrow> P r | Fatal r \<Rightarrow> P r | Retry d \<Rightarrow> deadline \<le> at_now (as ! i) \<and> (\<exists>r. P r \<and> hr_status r = 503))"

lemma answers_Suc:
  assumes "answers ws_id req strip deadline as i P" "try_upstream ws_id req strip a = Retry d" "at_now a < deadline"
  shows "answers ws_id req strip deadline (a # as) (Suc i) P"
  using assms by (auto simp: answers_def nth_Cons split: nat.split verdict.splits)

lemma forward_loop_returns:
  assumes "as \<noteq> []" "deadline \<le> at_now (last as)"
  shows "\<exists>i resp s'. forward_loop ws_id req strip deadline as s = (Some resp, s') \<and> answers ws_id req strip deadline as i ((=) resp)"
  using assms
proof (induction as)
  case (Cons a as)
  have now: "answers ws_id req strip deadline (a # as) 0 P \<longleftrightarrow> (case try_upstream ws_id req strip a of
        Respond r \<Rightarrow> P r | Fatal r \<Rightarrow> P r | Retry d \<Rightarrow> deadline \<le> at_now a \<and> (\<exists>r. P r \<and> hr_status r = 503))" for P
    by (simp add: answers_def split: verdict.split)
  show ?case
  proof (cases "try_upstream ws_id req strip a")
    case (Retry d)
    show ?thesis
    proof (cases "deadline \<le> at_now a")
      case True
      then show ?thesis using Retry
        by (intro exI[of _ 0]) (simp add: now forward_turn_def give_up_def error_response_def)
    next
      case False
      then have as: "as \<noteq> []" "deadline \<le> at_now (last as)" using Cons.prems by (auto split: if_splits)
      obtain i resp s' where i: "forward_loop ws_id req strip deadline as s = (Some resp, s')"
          "answers ws_id req strip deadline as i ((=) resp)" using Cons.IH[OF as] by blast
      have "answers ws_id req strip deadline (a # as) (Suc i) ((=) resp)"
        using False by (intro answers_Suc[OF i(2) Retry]) simp
      then show ?thesis using i(1) False Retry by (auto simp: forward_turn_def)
    qed
  qed (rule exI[of _ 0], simp add: now forward_turn_def)+
qed simp



section \<open>Interleaving\<close>

text \<open>A request in flight, and the log of the answers that were given.\<close>

record pending =
  pd_ws :: WorkspaceEntry
  pd_request :: http_request
  pd_strip :: "string option"
  pd_deadline :: nat

datatype answer = Answered http_response | AnsweredFatal | GaveUp | BodyFailed

record world =
  wd_state :: ProxyState
  wd_pending :: "pending list"
  wd_log :: "answer list"

definition answer_of :: "verdict \<Rightarrow> answer" where
  "answer_of v = (case v of Respond r \<Rightarrow> Answered r | Fatal _ \<Rightarrow> AnsweredFatal | Retry _ \<Rightarrow> GaveUp)"

definition request_target :: "string option \<Rightarrow> ProxyState \<Rightarrow> WorkspaceEntry option" where
  "request_target strip s = map_of (ps_workspaces s) (case strip of None \<Rightarrow> ps_default_id s | Some ws_id \<Rightarrow> ws_id)"

inductive proxy_step :: "world \<Rightarrow> world \<Rightarrow> bool" where
  register: "admin_register_workspace E body (wd_state w) = (resp, s) \<Longrightarrow> proxy_step w (w\<lparr>wd_state := s\<rparr>)"
| unregister: "admin_unregister_workspace ws_id (wd_state w) = (resp, s) \<Longrightarrow> proxy_step w (w\<lparr>wd_state := s\<rparr>)"
| endpoint: "(endpoint, cell) \<in> set (pm_watchers (wd_state w)) \<Longrightarrow>
    proxy_step w (w\<lparr>wd_state := endpoint_events endpoint contents cell res (wd_state w)\<rparr>)"
| arrive: "request_target strip (wd_state w) = Some ws \<Longrightarrow>
    proxy_step w (w\<lparr>wd_state := accept_request now (wd_state w), wd_pending := wd_pending w @
      [\<lparr> pd_ws = ws, pd_request = req, pd_strip = strip, pd_deadline = now + ps_retry_window (wd_state w) \<rparr>]\<rparr>)"
| broken: "request_target strip (wd_state w) = Some ws \<Longrightarrow>
    proxy_step w (w\<lparr>wd_state := accept_request now (wd_state w), wd_log := wd_log w @ [BodyFailed]\<rparr>)"
| turn: "wd_pending w = before @ p # after \<Longrightarrow> at_upstream a = upstream_of (wd_state w) (pd_ws p) \<Longrightarrow>
    forward_turn (wse_id (pd_ws p)) (pd_request p) (pd_strip p) (pd_deadline p) a (wd_state w) = (r, s) \<Longrightarrow>
    proxy_step w (if r = None then w\<lparr>wd_state := s\<rparr>
      else w\<lparr>wd_state := s, wd_pending := before @ after,
        wd_log := wd_log w @ [answer_of (try_upstream (wse_id (pd_ws p)) (pd_request p) (pd_strip p) a)]\<rparr>)"

fun is_success :: "answer \<Rightarrow> bool" where
  "is_success (Answered r) \<longleftrightarrow> hr_status r < 400"
| "is_success _ \<longleftrightarrow> False"

definition entries_ok :: "ProxyState \<Rightarrow> bool" where
  "entries_ok s \<longleftrightarrow> map_of (ps_workspaces s) (ps_default_id s) \<noteq> None \<and> distinct (map fst (ps_workspaces s)) \<and>
     (\<forall>(k, e)\<in>set (ps_workspaces s). wse_id e = k \<and> wse_upstream e < length (pm_cells s))"

definition counted :: "world \<Rightarrow> bool" where
  "counted w \<longleftrightarrow>
     ps_total_requests (wd_state w) = of_nat (length (wd_log w) + length (wd_pending w)) \<and>
     ps_successful_requests (wd_state w) = of_nat (length (filter is_success (wd_log w))) \<and>
     ps_upstream_503_responses (wd_state w) = of_nat (count_list (wd_log w) GaveUp)"

definition world_ok :: "world \<Rightarrow> bool" where
  "world_ok w \<longleftrightarrow> entries_ok (wd_state w) \<and> counted w"

lemma init_workspace_cases:
  fixes s :: "'m memory_scheme"
  obtains (failed) e url where "init_workspace E root s = (Inl e, s\<lparr>pm_cells := pm_cells s @ [url]\<rparr>)"
  | (created) url path where "init_workspace E root s =
      (Inr \<lparr> wse_id = workspace_id_for E root, wse_root = root, wse_upstream = length (pm_cells s) \<rparr>,
       s\<lparr>pm_cells := pm_cells s @ [url], pm_watchers := pm_watchers s @ [(path, length (pm_cells s))]\<rparr>)"
  using that unfolding init_workspace_def spawn_endpoint_watcher_def Let_def
  by (cases "px_dir_exists E (path_join root ''.standardoc'')"; cases "px_create_dir E (path_join root ''.standardoc'')";
      cases "px_new_debouncer E"; cases "px_watch E (path_join root ''.standardoc'')")
    (auto simp: sbind_def sthen_def sx_apply split: option.split)

lemma entries_ok_memory:
  "entries_ok s \<Longrightarrow> length (pm_cells s) \<le> length (pm_cells s') \<Longrightarrow> ps_workspaces s' = ps_workspaces s \<Longrightarrow>
   ps_default_id s' = ps_default_id s \<Longrightarrow> entries_ok s'"
  by (fastforce simp: entries_ok_def)

lemma entries_ok_update:
  assumes "entries_ok s" "length (pm_cells s) \<le> length (pm_cells s')" "ps_default_id s' = ps_default_id s"
    "ps_workspaces s' = AList.update (wse_id e) e (ps_workspaces s)" "wse_upstream e < length (pm_cells s')"
  shows "entries_ok s'"
proof -
  have "distinct (map fst (ps_workspaces s'))" using assms(1,4) by (simp add: entries_ok_def distinct_update)
  moreover have "(k, x) \<in> set (ps_workspaces s') \<Longrightarrow> wse_id x = k \<and> wse_upstream x < length (pm_cells s')" for k x
  proof -
    assume "(k, x) \<in> set (ps_workspaces s')"
    then have "map_of (ps_workspaces s') k = Some x" using calculation by simp
    then have "(k = wse_id e \<and> x = e) \<or> (k, x) \<in> set (ps_workspaces s)"
      unfolding assms(4) by (auto simp: update_conv' split: if_splits dest: map_of_SomeD)
    then show ?thesis using assms(1,2,5) unfolding entries_ok_def by fastforce
  qed
  ultimately show ?thesis using assms(1,3,4) by (auto simp: entries_ok_def update_conv')
qed

lemma entries_ok_delete:
  assumes "entries_ok s" "k \<noteq> ps_default_id s"
  shows "entries_ok (s\<lparr>ps_workspaces := AList.delete k (ps_workspaces s)\<rparr>)"
  using assms by (auto simp: entries_ok_def AList.delete_eq delete_conv' distinct_map_filter)

lemma register_frame:
  assumes "admin_register_workspace E body s = (resp, s')" "entries_ok s"
  shows "entries_ok s' \<and> ps_total_requests s' = ps_total_requests s \<and> ps_successful_requests s' = ps_successful_requests s \<and>
    ps_upstream_503_responses s' = ps_upstream_503_responses s"
proof (cases "\<exists>path. parse_register_body body = Inr path \<and> map_of (ps_workspaces s) (workspace_id_for E path) = None")
  case False
  then have "s' = s" using assms(1) by (auto simp: admin_register_workspace_def split: sum.splits option.splits)
  then show ?thesis using assms(2) by simp
next
  case True
  then obtain path where path: "parse_register_body body = Inr path" "map_of (ps_workspaces s) (workspace_id_for E path) = None" by blast
  show ?thesis
  proof (cases rule: init_workspace_cases[of E path s])
    case (failed e url)
    then have "s' = s\<lparr>pm_cells := pm_cells s @ [url]\<rparr>" using assms(1) path by (simp add: admin_register_workspace_def)
    then show ?thesis using entries_ok_memory[OF assms(2), of s'] by simp
  next
    case (created url p)
    let ?e = "\<lparr> wse_id = workspace_id_for E path, wse_root = path, wse_upstream = length (pm_cells s) \<rparr>"
    have s': "s' = s\<lparr>pm_cells := pm_cells s @ [url], pm_watchers := pm_watchers s @ [(p, length (pm_cells s))],
        ps_workspaces := AList.update (workspace_id_for E path) ?e (ps_workspaces s)\<rparr>"
      using assms(1) path created by (simp add: admin_register_workspace_def)
    then show ?thesis using entries_ok_update[OF assms(2), of s' ?e] by simp
  qed
qed

lemma unregister_frame:
  assumes "admin_unregister_workspace ws_id s = (resp, s')" "entries_ok s"
  shows "entries_ok s' \<and> ps_total_requests s' = ps_total_requests s \<and> ps_successful_requests s' = ps_successful_requests s \<and>
    ps_upstream_503_responses s' = ps_upstream_503_responses s"
  using assms entries_ok_delete[of s ws_id] by (auto simp: admin_unregister_workspace_def split: if_splits option.splits)

lemma turn_frame:
  assumes "forward_turn i q strip deadline a s = (r, s')"
  shows "entries_ok s' = entries_ok s \<and> ps_total_requests s' = ps_total_requests s \<and> (r = None \<longrightarrow> s' = s) \<and>
    (r \<noteq> None \<longrightarrow> ps_successful_requests s' = ps_successful_requests s + (if is_success (answer_of (try_upstream i q strip a)) then 1 else 0) \<and>
      ps_upstream_503_responses s' = ps_upstream_503_responses s + (if answer_of (try_upstream i q strip a) = GaveUp then 1 else 0))"
  using assms by (auto simp: forward_turn_def answer_of_def count_success_def give_up_def entries_ok_def split: verdict.splits if_splits)

interpretation proxying: step_invariant proxy_step world_ok
proof unfold_locales
  fix w w' assume "proxy_step w w'" and ok: "world_ok w"
  then show "world_ok w'"
  proof (cases rule: proxy_step.cases)
    case (register E body resp s)
    then show ?thesis using register_frame[OF register(2)] ok by (simp add: world_ok_def counted_def)
  next
    case (unregister ws_id resp s)
    then show ?thesis using unregister_frame[OF unregister(2)] ok by (simp add: world_ok_def counted_def)
  next
    case (endpoint e cell contents res)
    then show ?thesis using ok
      by (auto simp: world_ok_def counted_def endpoint_events_def split: DebounceEventResult.split option.split
          intro: entries_ok_memory[of "wd_state w"])
  next
    case (arrive strip ws req now)
    then show ?thesis using ok entries_ok_memory[of "wd_state w" "accept_request now (wd_state w)"]
      by (simp add: world_ok_def counted_def accept_request_def)
  next
    case (broken strip ws now)
    then show ?thesis using ok entries_ok_memory[of "wd_state w" "accept_request now (wd_state w)"]
      by (simp add: world_ok_def counted_def accept_request_def)
  next
    case (turn before p "after" a r s)
    then show ?thesis using turn_frame[OF turn(4)] ok by (auto simp: world_ok_def counted_def)
  qed
qed

lemma init_loop_ok:
  assumes "init_loop E roots ws d m = (Inr (ws', d'), m')" "distinct (map fst ws)"
    "\<forall>(k, e)\<in>set ws. wse_id e = k \<and> wse_upstream e < length (pm_cells m)" "d = None \<longrightarrow> roots \<noteq> []"
    "\<forall>k. d = Some k \<longrightarrow> map_of ws k \<noteq> None"
  shows "distinct (map fst ws') \<and> (\<forall>(k, e)\<in>set ws'. wse_id e = k \<and> wse_upstream e < length (pm_cells m')) \<and>
    (\<exists>k. d' = Some k \<and> map_of ws' k \<noteq> None)"
  using assms
proof (induction roots arbitrary: ws d m)
  case Nil
  then show ?case by (auto simp: sx_apply)
next
  case (Cons root roots)
  show ?case
  proof (cases rule: init_workspace_cases[of E root m])
    case (failed e url)
    then show ?thesis using Cons.prems(1) by (simp add: sbind_def)
  next
    case (created url p)
    let ?e = "\<lparr> wse_id = workspace_id_for E root, wse_root = root, wse_upstream = length (pm_cells m) \<rparr>"
    let ?m = "m\<lparr>pm_cells := pm_cells m @ [url], pm_watchers := pm_watchers m @ [(p, length (pm_cells m))]\<rparr>"
    let ?ws = "AList.update (wse_id ?e) ?e ws" let ?d = "case d of None \<Rightarrow> Some (wse_id ?e) | Some d \<Rightarrow> Some d"
    have "init_loop E roots ?ws ?d ?m = (Inr (ws', d'), m')" using Cons.prems(1) created by (simp add: sbind_def)
    moreover have "distinct (map fst ?ws)" using Cons.prems(2) by (rule distinct_update)
    moreover have "\<forall>(k, x)\<in>set ?ws. wse_id x = k \<and> wse_upstream x < length (pm_cells ?m)"
    proof (intro ballI, clarify)
      fix k x assume "(k, x) \<in> set ?ws"
      then have "map_of ?ws k = Some x" using distinct_update[OF Cons.prems(2)] by simp
      then have "(k = wse_id ?e \<and> x = ?e) \<or> (k, x) \<in> set ws" by (auto simp: update_conv' split: if_splits dest: map_of_SomeD)
      then show "wse_id x = k \<and> wse_upstream x < length (pm_cells ?m)" using Cons.prems(3) by fastforce
    qed
    moreover have "?d \<noteq> None" "\<forall>k. ?d = Some k \<longrightarrow> map_of ?ws k \<noteq> None"
      using Cons.prems(5) by (auto simp: update_conv' split: option.splits)
    ultimately show ?thesis by (intro Cons.IH) auto
  qed
qed

text \<open>
  C19. However registrations, removals, daemon restarts, requests and retries interleave, the default
  workspace stays registered, so the handler for plain paths never answers that it is missing, every entry
  is stored under its own identifier, and the three counters of the health report are exact modulo
  two to the power 64.
\<close>

theorem proxy_reachable_consistent:
  assumes "run_proxy E answer post started bound cfg = Inr (Some s0)"
    and run: "proxy_step\<^sup>*\<^sup>* \<lparr> wd_state = s0, wd_pending = [], wd_log = [] \<rparr> w"
  shows "(\<exists>ws. map_of (ps_workspaces (wd_state w)) (ps_default_id (wd_state w)) = Some ws \<and>
      forward_default req now as (wd_state w) = forward_to ws req None now as (wd_state w)) \<and>
    (\<forall>(k, e)\<in>set (ps_workspaces (wd_state w)). wse_id e = k) \<and> counted w"
proof -
  obtain ws d m where i: "init_loop E (pc_workspaces cfg) [] None \<lparr> pm_cells = [], pm_watchers = [] \<rparr> = (Inr (ws, d), m)"
      and s0: "ps_workspaces s0 = ws" "ps_default_id s0 = the d" "pm_cells s0 = pm_cells m" "ps_total_requests s0 = 0"
        "ps_successful_requests s0 = 0" "ps_upstream_503_responses s0 = 0" and ne: "pc_workspaces cfg \<noteq> []"
    using assms(1) by (auto simp: run_proxy_def split: if_splits option.splits sum.splits prod.splits)
  have "world_ok \<lparr> wd_state = s0, wd_pending = [], wd_log = [] \<rparr>"
    using init_loop_ok[OF i] ne s0 by (auto simp: world_ok_def entries_ok_def counted_def)
  from proxying.reachable[OF run this] show ?thesis
    by (fastforce simp: world_ok_def entries_ok_def forward_default_def)
qed

definition demo_proxy_env :: proxy_env where
  "demo_proxy_env = \<lparr> px_canonicalize = (\<lambda>_. None), px_hash = (\<lambda>_. replicate 32 0), px_read = (\<lambda>_. None),
     px_dir_exists = (\<lambda>_. True), px_create_dir = (\<lambda>_. Inr ()), px_new_debouncer = Inr (), px_watch = (\<lambda>_. Inr ()) \<rparr>"

definition demo_proxy_config :: ProxyConfig where
  "demo_proxy_config = \<lparr> pc_bind_addr = ''127.0.0.1:7700'', pc_workspaces = [''/w''], pc_upstream_retry_window = 30000 \<rparr>"

theorem proxy_reachable_consistent_witness:
  "\<exists>s0 ws. run_proxy demo_proxy_env None (\<lambda>_. PostFailed []) 0 (Inr ()) demo_proxy_config = Inr (Some s0) \<and>
     map_of (ps_workspaces (snd (admin_unregister_workspace ''00000000'' s0))) ''00000000'' = Some ws"
proof -
  let ?run = "run_proxy demo_proxy_env None (\<lambda>_. PostFailed []) 0 (Inr ()) demo_proxy_config"
  have wid: "workspace_id_for demo_proxy_env ''/w'' = ''00000000''"
    by (simp add: workspace_id_for_def demo_proxy_env_def eval_nat_numeral) code_simp
  obtain s0 where s0: "?run = Inr (Some s0)" "ps_default_id s0 = ''00000000''"
    using wid by (cases rule: init_workspace_cases[of demo_proxy_env "''/w''" "\<lparr> pm_cells = [], pm_watchers = [] \<rparr>"])
      (auto simp: run_proxy_def demo_proxy_config_def probe_existing_proxy_def sbind_def sx_apply init_workspace_def
        spawn_endpoint_watcher_def demo_proxy_env_def sthen_def Let_def)
  let ?w0 = "\<lparr> wd_state = s0, wd_pending = [], wd_log = [] \<rparr>"
  obtain resp s where u: "admin_unregister_workspace ''00000000'' s0 = (resp, s)" by fastforce
  have "proxy_step\<^sup>*\<^sup>* ?w0 (?w0\<lparr>wd_state := s\<rparr>)"
    using u by (intro r_into_rtranclp proxy_step.unregister[of "''00000000''"]) simp
  from proxy_reachable_consistent[OF s0(1) this, of undefined 0 "[]"]
  obtain ws where "map_of (ps_workspaces s) (ps_default_id s) = Some ws" by auto
  moreover have "ps_default_id s = ''00000000''" using u s0(2) by (auto simp: admin_unregister_workspace_def)
  ultimately show ?thesis using s0(1) u by auto
qed

section \<open>The target address\<close>

lemma find_scheme: "CHR '':'' \<notin> set a \<Longrightarrow> find_str ''://'' (a @ ''://'' @ b) = Some (length a)"
  by (induction a) auto

text \<open>
  The path the daemon announced is replaced by the one of the request, less the routing prefix of the
  workspace.
\<close>

lemma target_url_strips_prefix:
  assumes "CHR '':'' \<notin> set scheme" "CHR ''/'' \<notin> set host" "path = [] \<or> hd path = CHR ''/''"
  shows "build_target_url (scheme @ ''://'' @ host @ path) (Some (''/ws/'' @ ws_id @ rest)) (Some ws_id) =
    scheme @ ''://'' @ host @ (if rest = [] then ''/'' else rest)"
proof -
  have s: "find_str ''://'' (scheme @ ''://'' @ host @ path) = Some (length scheme)" by (rule find_scheme[OF assms(1)])
  have d: "drop (length scheme + 3) (scheme @ ''://'' @ host @ path) = host @ path" by simp
  have "(case find_str ''/'' (host @ path) of None \<Rightarrow> scheme @ ''://'' @ host @ path
      | Some p \<Rightarrow> take (length scheme + 3 + p) (scheme @ ''://'' @ host @ path)) = scheme @ ''://'' @ host"
  proof (cases path)
    case Nil
    then show ?thesis using find_str_None[OF assms(2)] by simp
  next
    case (Cons c ps)
    then show ?thesis using find_str_append[OF assms(2), of ps] assms(3) by (simp add: eval_nat_numeral)
  qed
  moreover have "strip_prefix (''/ws/'' @ ws_id) (''/ws/'' @ ws_id @ rest) = Some rest"
    using strip_prefix_append[of "''/ws/'' @ ws_id" rest] by simp
  ultimately show ?thesis unfolding build_target_url_def Let_def s option.case d by simp
qed

section \<open>Repeated response headers\<close>

text \<open>
  The response headers are rebuilt with \<^verbatim>\<open>HeaderMap::insert\<close>, which replaces: of two \<^verbatim>\<open>set-cookie\<close> headers of
  the upstream only the last reaches the client.
\<close>

lemma repeated_header_lost:
  assumes "hc_invalid_method client (rq_method req) = None"
    and "hc_send client url (req\<lparr>rq_headers := forwarded_headers (rq_headers req)\<rparr>) =
      Sent 200 [(''set-cookie'', a), (''set-cookie'', b)] (Inr body)"
  shows "forward_once client url req = Inr \<lparr> hr_status = 200, hr_headers = [(''set-cookie'', b)], hr_body = body \<rparr>"
  using assms by (simp add: forward_once_def)

end
