(* ===== verification/Sfc.thy ===== *)
theory Sfc
  imports Query_Body
begin

text \<open>
  The splitter of single-file components (\<^verbatim>\<open>standardoc-lang-provider/src/sfc.rs\<close>): top-level \<^verbatim>\<open>script\<close>,
  \<^verbatim>\<open>template\<close> and \<^verbatim>\<open>style\<close> blocks of a \<^verbatim>\<open>.vue\<close> or \<^verbatim>\<open>.svelte\<close> file with their byte ranges.  A text is its
  bytes; every slice the source takes ends at ASCII bytes, so \<^verbatim>\<open>from_utf8\<close> on it never fails.
\<close>

section \<open>Bytes\<close>

definition byte_in :: "nat \<Rightarrow> nat \<Rightarrow> char \<Rightarrow> bool" where
  "byte_in lo hi c \<longleftrightarrow> lo \<le> of_char c \<and> of_char c \<le> hi"

definition byte_upper :: "char \<Rightarrow> bool" where "byte_upper c = byte_in 65 90 c"

definition byte_lower :: "char \<Rightarrow> bool" where "byte_lower c = byte_in 97 122 c"

definition byte_alpha :: "char \<Rightarrow> bool" where "byte_alpha c \<longleftrightarrow> byte_upper c \<or> byte_lower c"

definition byte_alnum :: "char \<Rightarrow> bool" where "byte_alnum c \<longleftrightarrow> byte_alpha c \<or> byte_in 48 57 c"

text \<open>\<^verbatim>\<open>u8::is_ascii_whitespace\<close>: space, tab, line feed, form feed, carriage return.\<close>

definition byte_ws :: "char \<Rightarrow> bool" where
  "byte_ws c \<longleftrightarrow> c \<in> {CHR 0x20, CHR 0x09, CHR 0x0A, CHR 0x0C, CHR 0x0D}"

text \<open>The loops \<^verbatim>\<open>while i < bytes.len() && p(bytes[i]) { i += 1 }\<close>.\<close>

function scan_while :: "(char \<Rightarrow> bool) \<Rightarrow> string \<Rightarrow> nat \<Rightarrow> nat" where
  "scan_while P bytes i = (if i < length bytes \<and> P (bytes ! i) then scan_while P bytes (i + 1) else i)"
  by pat_completeness auto
termination by (relation "measure (\<lambda>(_, bytes, i). length bytes - i)") auto

declare scan_while.simps [simp del]

lemma scan_while_spec:
  "i \<le> scan_while P bytes i \<and> (i \<le> length bytes \<longrightarrow> scan_while P bytes i \<le> length bytes) \<and>
   (\<forall>j. i \<le> j \<longrightarrow> j < scan_while P bytes i \<longrightarrow> j < length bytes \<and> P (bytes ! j)) \<and>
   (scan_while P bytes i < length bytes \<longrightarrow> \<not> P (bytes ! scan_while P bytes i))"
proof (induction P bytes i rule: scan_while.induct)
  case (1 P bytes i)
  show ?case
  proof (cases "i < length bytes \<and> P (bytes ! i)")
    case True
    then have e: "scan_while P bytes i = scan_while P bytes (i + 1)" by (subst scan_while.simps) simp
    have "j < length bytes \<and> P (bytes ! j)" if "i \<le> j" "j < scan_while P bytes (i + 1)" for j
      using True 1[OF True] that by (cases "j = i") auto
    then show ?thesis unfolding e using True 1[OF True] by auto
  next
    case False
    then have "scan_while P bytes i = i" by (subst scan_while.simps) auto
    then show ?thesis using False by auto
  qed
qed

lemmas scan_while_ge = scan_while_spec[THEN conjunct1]

lemma scan_while_Suc: "i < length bytes \<Longrightarrow> P (bytes ! i) \<Longrightarrow> i < scan_while P bytes i"
  using scan_while_ge[of "i + 1" P bytes] by (subst scan_while.simps) simp

section \<open>Blocks\<close>

record SfcBlock =
  sb_tag :: string
  sb_lang :: "string option"
  sb_content_start :: nat
  sb_content_end :: nat
  sb_attributes :: "(string \<times> string option) list"

record SfcDocument =
  sd_scripts :: "SfcBlock list"
  sd_template :: "SfcBlock option"
  sd_styles :: "SfcBlock list"

definition is_script_setup :: "SfcBlock \<Rightarrow> bool" where
  "is_script_setup b \<longleftrightarrow> sb_tag b = ''script'' \<and> list_ex (\<lambda>(k, _). k = ''setup'') (sb_attributes b)"

definition is_recognised_block_tag :: "string \<Rightarrow> bool" where
  "is_recognised_block_tag tag \<longleftrightarrow> tag \<in> {''script'', ''template'', ''style''}"

definition starts_with :: "string \<Rightarrow> nat \<Rightarrow> string \<Rightarrow> bool" where
  "starts_with bytes i needle \<longleftrightarrow> i + length needle \<le> length bytes \<and> substr bytes i (i + length needle) = needle"

function skip_comment :: "string \<Rightarrow> nat \<Rightarrow> nat" where
  "skip_comment bytes i =
    (if i + 2 < length bytes
     then if bytes ! i = CHR ''-'' \<and> bytes ! (i + 1) = CHR ''-'' \<and> bytes ! (i + 2) = CHR ''>'' then i + 3
          else skip_comment bytes (i + 1)
     else length bytes)"
  by pat_completeness auto
termination by (relation "measure (\<lambda>(bytes, i). length bytes - i)") auto

declare skip_comment.simps [simp del]

definition name_byte :: "char \<Rightarrow> bool" where
  "name_byte c \<longleftrightarrow> byte_alnum c \<or> c = CHR ''-'' \<or> c = CHR ''_''"

definition read_tag_name :: "string \<Rightarrow> nat \<Rightarrow> nat" where
  "read_tag_name bytes from = scan_while name_byte bytes from"

definition attr_byte :: "char \<Rightarrow> bool" where
  "attr_byte c \<longleftrightarrow> name_byte c \<or> c = CHR '':'' \<or> c = CHR ''@''"

definition bare_value_byte :: "char \<Rightarrow> bool" where
  "bare_value_byte c \<longleftrightarrow> \<not> (byte_ws c \<or> c = CHR ''>'' \<or> c = CHR ''/'')"

definition is_quote :: "char \<Rightarrow> bool" where
  "is_quote c \<longleftrightarrow> c = CHR 0x22 \<or> c = CHR 0x27"

text \<open>It returns the value and the position \<^verbatim>\<open>*i\<close> is left at.\<close>

definition read_attribute_value :: "string \<Rightarrow> nat \<Rightarrow> string option \<times> nat" where
  "read_attribute_value bytes saved =
    (let i = scan_while byte_ws bytes saved in
     if length bytes \<le> i \<or> bytes ! i \<noteq> CHR ''='' then (None, saved)
     else let i = scan_while byte_ws bytes (i + 1) in
       if length bytes \<le> i then (None, i)
       else if is_quote (bytes ! i)
       then let start = i + 1; e = scan_while (\<lambda>c. c \<noteq> bytes ! i) bytes start
            in (Some (substr bytes start e), if e < length bytes then e + 1 else e)
       else let e = scan_while bare_value_byte bytes i in (Some (substr bytes i e), e))"

lemma read_attribute_value_ge: "i \<le> snd (read_attribute_value bytes i)"
  using scan_while_ge[of i byte_ws bytes] scan_while_ge[of "scan_while byte_ws bytes i + 1" byte_ws bytes]
    scan_while_ge[of "scan_while byte_ws bytes (scan_while byte_ws bytes i + 1)" bare_value_byte bytes]
    scan_while_ge[of "scan_while byte_ws bytes (scan_while byte_ws bytes i + 1) + 1"
      "\<lambda>c. c \<noteq> bytes ! scan_while byte_ws bytes (scan_while byte_ws bytes i + 1)" bytes]
  by (auto simp: read_attribute_value_def Let_def)

function parse_attributes ::
  "string \<Rightarrow> nat \<Rightarrow> (string \<times> string option) list \<Rightarrow> (string \<times> string option) list \<times> nat \<times> bool" where
  "parse_attributes bytes i attrs =
    (if length bytes \<le> i then (attrs, length bytes, False)
     else if byte_ws (bytes ! i) then parse_attributes bytes (i + 1) attrs
     else if bytes ! i = CHR ''>'' then (attrs, i, False)
     else if bytes ! i = CHR ''/'' \<and> i + 1 < length bytes \<and> bytes ! (i + 1) = CHR ''>'' then (attrs, i, True)
     else let e = scan_while attr_byte bytes i in
       if e = i then parse_attributes bytes (i + 1) attrs
       else parse_attributes bytes (snd (read_attribute_value bytes e))
              (attrs @ [(substr bytes i e, fst (read_attribute_value bytes e))]))"
  by pat_completeness auto
termination
proof (relation "measure (\<lambda>(bytes, i, _). length bytes - i)", goal_cases)
  case (4 bytes i attrs e)
  then have "i < e" using scan_while_ge[of i attr_byte bytes] by simp
  then show ?case using 4(1) read_attribute_value_ge[of e bytes] by simp
qed auto

declare parse_attributes.simps [simp del]

definition eq_ignore_ascii_case :: "string \<Rightarrow> string \<Rightarrow> bool" where
  "eq_ignore_ascii_case a b \<longleftrightarrow> length a = length b \<and> list_all2 (\<lambda>x y. ascii_lower x = ascii_lower y) a b"

definition is_close_tag :: "string \<Rightarrow> string \<Rightarrow> nat \<Rightarrow> bool" where
  "is_close_tag bytes needle i \<longleftrightarrow> i + length needle \<le> length bytes \<and>
     eq_ignore_ascii_case (substr bytes i (i + length needle)) needle \<and>
     \<not> name_byte (if i + length needle < length bytes then bytes ! (i + length needle) else CHR '' '')"

function find_close_tag :: "string \<Rightarrow> nat \<Rightarrow> string \<Rightarrow> nat option" where
  "find_close_tag bytes i needle =
    (if length bytes < i + length needle then None
     else if is_close_tag bytes needle i then Some i
     else if length bytes \<le> i then None
     else find_close_tag bytes (i + 1) needle)"
  by pat_completeness auto
termination by (relation "measure (\<lambda>(bytes, i, _). length bytes - i)") auto

declare find_close_tag.simps [simp del]

definition find_after :: "string \<Rightarrow> nat \<Rightarrow> char \<Rightarrow> nat option" where
  "find_after bytes from target =
    (let i = scan_while (\<lambda>c. c \<noteq> target) bytes from in if i < length bytes then Some (i + 1) else None)"

definition push_block :: "SfcBlock \<Rightarrow> SfcDocument \<Rightarrow> SfcDocument" where
  "push_block b doc =
    (if sb_tag b = ''script'' then doc\<lparr>sd_scripts := sd_scripts doc @ [b]\<rparr>
     else if sb_tag b = ''template'' \<and> sd_template doc = None then doc\<lparr>sd_template := Some b\<rparr>
     else if sb_tag b = ''style'' then doc\<lparr>sd_styles := sd_styles doc @ [b]\<rparr>
     else doc)"

section \<open>Bounds\<close>

lemma scan_while_le: "i \<le> length bytes \<Longrightarrow> scan_while P bytes i \<le> length bytes"
  using scan_while_spec[of i P bytes] by simp

lemma read_attribute_value_le:
  assumes "i \<le> length bytes"
  shows "snd (read_attribute_value bytes i) \<le> length bytes"
proof -
  let ?j = "scan_while byte_ws bytes i" let ?k = "scan_while byte_ws bytes (?j + 1)"
  have j: "?j \<le> length bytes" by (rule scan_while_le[OF assms])
  have k: "?j < length bytes \<Longrightarrow> ?k \<le> length bytes" by (rule scan_while_le) simp
  have e: "?k < length bytes \<Longrightarrow> scan_while P bytes (?k + 1) \<le> length bytes" for P by (rule scan_while_le) simp
  have f: "?k < length bytes \<Longrightarrow> scan_while P bytes ?k \<le> length bytes" for P by (rule scan_while_le) simp
  show ?thesis unfolding read_attribute_value_def Let_def
    using assms k e[of "\<lambda>c. c \<noteq> bytes ! ?k"] f[of bare_value_byte] by (auto simp: not_le)
qed

lemma skip_comment_bounds: "i \<le> length bytes \<Longrightarrow> i \<le> skip_comment bytes i \<and> skip_comment bytes i \<le> length bytes"
proof (induction bytes i rule: skip_comment.induct)
  case (1 bytes i)
  then show ?case by (subst (1 2) skip_comment.simps) (auto dest!: "1.IH")
qed

definition attrs_end :: "string \<Rightarrow> nat \<Rightarrow> nat \<times> bool \<Rightarrow> bool" where
  "attrs_end bytes i = (\<lambda>(pos, closed). i \<le> pos \<and> pos \<le> length bytes \<and> (closed \<longrightarrow> pos + 1 < length bytes) \<and>
     (pos < length bytes \<longrightarrow> bytes ! (if closed then pos + 1 else pos) = CHR ''>''))"

lemma parse_attributes_end: "i \<le> length bytes \<Longrightarrow> attrs_end bytes i (snd (parse_attributes bytes i attrs))"
proof (induction bytes i attrs rule: parse_attributes.induct)
  case (1 bytes i attrs)
  let ?e = "scan_while attr_byte bytes i"
  have mono: "attrs_end bytes j r \<Longrightarrow> i \<le> j \<Longrightarrow> attrs_end bytes i r" for j r by (auto simp: attrs_end_def)
  have e: "i \<le> ?e" "?e \<le> length bytes" using scan_while_ge scan_while_le 1(4) by auto
  have j: "i \<le> snd (read_attribute_value bytes ?e)" "snd (read_attribute_value bytes ?e) \<le> length bytes"
    using e read_attribute_value_ge[of ?e bytes] read_attribute_value_le[of ?e bytes] by auto
  consider "length bytes \<le> i" | "i < length bytes" "byte_ws (bytes ! i)"
    | "i < length bytes" "\<not> byte_ws (bytes ! i)" "bytes ! i = CHR ''>'' \<or> bytes ! i = CHR ''/'' \<and> i + 1 < length bytes \<and> bytes ! (i + 1) = CHR ''>''"
    | "i < length bytes" "\<not> byte_ws (bytes ! i)" "bytes ! i \<noteq> CHR ''>''" "\<not> (bytes ! i = CHR ''/'' \<and> i + 1 < length bytes \<and> bytes ! (i + 1) = CHR ''>'')"
    by (cases "i < length bytes") auto
  then show ?case
  proof cases
    case 1
    then show ?thesis using \<open>i \<le> length bytes\<close> by (simp add: parse_attributes.simps attrs_end_def)
  next
    case 2
    then have "attrs_end bytes (i + 1) (snd (parse_attributes bytes (i + 1) attrs))" by (intro 1(1)) auto
    then show ?thesis using mono[of "i + 1"] 2 by (subst parse_attributes.simps) simp
  next
    case 3
    then show ?thesis by (subst parse_attributes.simps) (auto simp: attrs_end_def)
  next
    case 4
    then show ?thesis
    proof (cases "?e = i")
      case True
      then have "attrs_end bytes (i + 1) (snd (parse_attributes bytes (i + 1) attrs))" using 4 by (intro 1(2)) auto
      then show ?thesis using mono[of "i + 1"] 4 True by (subst parse_attributes.simps) (auto simp: Let_def)
    next
      case False
      have "attrs_end bytes (snd (read_attribute_value bytes ?e)) (snd (parse_attributes bytes (snd (read_attribute_value bytes ?e))
          (attrs @ [(substr bytes i ?e, fst (read_attribute_value bytes ?e))])))"
        using 4 False j by (intro 1(3)) auto
      then show ?thesis using mono j(1) 4 False by (subst parse_attributes.simps) (auto simp: Let_def)
    qed
  qed
qed

lemma find_close_tag_spec:
  "find_close_tag bytes i needle = Some e \<Longrightarrow> i \<le> e \<and> is_close_tag bytes needle e \<and> (\<forall>j. i \<le> j \<longrightarrow> j < e \<longrightarrow> \<not> is_close_tag bytes needle j)"
proof (induction bytes i needle rule: find_close_tag.induct)
  case (1 bytes i needle)
  show ?case
  proof (cases "is_close_tag bytes needle i")
    case True
    then show ?thesis using 1(2) by (auto simp: find_close_tag.simps split: if_splits)
  next
    case False
    then have "find_close_tag bytes (i + 1) needle = Some e" "\<not> length bytes < i + length needle" "\<not> length bytes \<le> i"
      using 1(2) by (subst (asm) find_close_tag.simps, auto split: if_splits)+
    then have f: "i + 1 \<le> e" "is_close_tag bytes needle e" "\<forall>j. i + 1 \<le> j \<longrightarrow> j < e \<longrightarrow> \<not> is_close_tag bytes needle j"
      using 1(1) False by blast+
    have "\<not> is_close_tag bytes needle j" if "i \<le> j" "j < e" for j using f(3) False that by (cases "j = i") auto
    then show ?thesis using f by auto
  qed
qed

lemma find_after_spec: "find_after bytes i c = Some j \<Longrightarrow> i < j \<and> j \<le> length bytes"
  using scan_while_ge[of i "\<lambda>x. x \<noteq> c" bytes] by (auto simp: find_after_def Let_def split: if_splits)

section \<open>The loop over the file\<close>

definition tag_at :: "string \<Rightarrow> nat \<Rightarrow> string" where
  "tag_at bytes after_lt = map ascii_lower (substr bytes after_lt (read_tag_name bytes after_lt))"

text \<open>One turn at an opening tag: the position to go on from and the block, if there is one.\<close>

definition open_tag :: "string \<Rightarrow> nat \<Rightarrow> nat \<times> SfcBlock option" where
  "open_tag bytes after_lt =
    (let tag_name = tag_at bytes after_lt in
     case parse_attributes bytes (read_tag_name bytes after_lt) [] of
       (attrs, close_pos, self_closing) \<Rightarrow>
         if self_closing then (close_pos + 2, None)
         else let content_start = close_pos + 1 in
           (case find_close_tag bytes content_start (''</'' @ tag_name) of
              None \<Rightarrow> (content_start, None)
            | Some content_end \<Rightarrow>
                ((case find_after bytes content_end (CHR ''>'') of Some a \<Rightarrow> a | None \<Rightarrow> length bytes),
                 Some \<lparr> sb_tag = tag_name, sb_lang = Option.bind (find (\<lambda>(k, _). k = ''lang'') attrs) snd,
                   sb_content_start = content_start, sb_content_end = content_end, sb_attributes = attrs \<rparr>)))"

definition opens_block :: "string \<Rightarrow> nat \<Rightarrow> bool" where
  "opens_block bytes i \<longleftrightarrow> bytes ! i = CHR ''<'' \<and> i + 1 < length bytes \<and> byte_alpha (bytes ! (i + 1)) \<and>
     is_recognised_block_tag (tag_at bytes (i + 1))"

text \<open>The position behind the closing tag of a block.\<close>

definition block_end :: "string \<Rightarrow> SfcBlock \<Rightarrow> nat" where
  "block_end bytes x = (case find_after bytes (sb_content_end x) (CHR ''>'') of Some a \<Rightarrow> a | None \<Rightarrow> length bytes)"

lemma open_tag_bounds:
  assumes "opens_block bytes i" "open_tag bytes (i + 1) = (j, b)"
  shows "i < j \<and> (\<forall>x. b = Some x \<longrightarrow> j = block_end bytes x \<and> i < sb_content_start x \<and> sb_content_start x \<le> sb_content_end x \<and> sb_content_end x < j \<and>
    j \<le> length bytes \<and> bytes ! (sb_content_start x - 1) = CHR ''>'' \<and> is_close_tag bytes (''</'' @ sb_tag x) (sb_content_end x) \<and>
    (\<forall>k. sb_content_start x \<le> k \<longrightarrow> k < sb_content_end x \<longrightarrow> \<not> is_close_tag bytes (''</'' @ sb_tag x) k) \<and>
    is_recognised_block_tag (sb_tag x))"
proof -
  let ?n = "read_tag_name bytes (i + 1)"
  have n: "i < ?n" "?n \<le> length bytes"
    using assms(1) scan_while_ge[of "i + 1" name_byte bytes] scan_while_le[of "i + 1" bytes name_byte]
    by (auto simp: read_tag_name_def opens_block_def)
  obtain attrs p closed where pa: "parse_attributes bytes ?n [] = (attrs, p, closed)" by (cases "parse_attributes bytes ?n []") auto
  have p: "?n \<le> p" "p < length bytes \<and> \<not> closed \<longrightarrow> bytes ! p = CHR ''>''" using parse_attributes_end[OF n(2), of "[]"] pa by (auto simp: attrs_end_def)
  show ?thesis
  proof (cases b)
    case None
    then show ?thesis using assms(2) n p pa by (auto simp: open_tag_def Let_def split: if_splits option.splits)
  next
    case (Some x)
    then obtain e where e: "\<not> closed" "find_close_tag bytes (p + 1) (''</'' @ tag_at bytes (i + 1)) = Some e"
        "j = (case find_after bytes e (CHR ''>'') of Some a \<Rightarrow> a | None \<Rightarrow> length bytes)"
        "sb_tag x = tag_at bytes (i + 1)" "sb_content_start x = p + 1" "sb_content_end x = e"
      using assms(2) pa by (auto simp: open_tag_def Let_def split: if_splits option.splits)
    note f = find_close_tag_spec[OF e(2)]
    then have "e < length bytes" by (auto simp: is_close_tag_def)
    moreover from this have "e < j" "j \<le> length bytes" using e(3) find_after_spec[of bytes e] by (auto split: option.splits)
    ultimately show ?thesis using Some e f n p assms(1) by (auto simp: opens_block_def block_end_def)
  qed
qed

function blocks_loop :: "string \<Rightarrow> nat \<Rightarrow> SfcDocument \<Rightarrow> SfcDocument" where
  "blocks_loop bytes i doc =
    (if length bytes \<le> i then doc
     else if starts_with bytes i ''<!--'' then blocks_loop bytes (skip_comment bytes (i + 4)) doc
     else if \<not> opens_block bytes i then blocks_loop bytes (i + 1) doc
     else case open_tag bytes (i + 1) of
       (j, None) \<Rightarrow> blocks_loop bytes j doc
     | (j, Some b) \<Rightarrow> blocks_loop bytes j (push_block b doc))"
  by pat_completeness auto
termination
proof (relation "measure (\<lambda>(bytes, i, _). length bytes - i)", goal_cases)
  case (2 bytes i doc)
  then have "i + 4 \<le> length bytes" by (simp add: starts_with_def)
  then show ?case using skip_comment_bounds[of "i + 4" bytes] by (auto simp: less_diff_iff intro!: diff_less_mono2)
next
  case (4 bytes i doc j y)
  then show ?case using open_tag_bounds[of bytes i j None] by auto
next
  case (5 bytes i doc j y b)
  then show ?case using open_tag_bounds[of bytes i j "Some b"] by auto
qed auto

declare blocks_loop.simps [simp del]

definition extract_blocks :: "string \<Rightarrow> SfcDocument" where
  "extract_blocks source = blocks_loop source 0 \<lparr> sd_scripts = [], sd_template = None, sd_styles = [] \<rparr>"

definition pad_until_byte_offset :: "string \<Rightarrow> nat \<Rightarrow> string \<Rightarrow> string" where
  "pad_until_byte_offset out target source =
    (if target \<le> length out then out
     else out @ map (\<lambda>b. if b = NL then NL else CHR '' '') (substr source (length out) (min target (length source))))"

section \<open>The blocks\<close>

definition all_blocks :: "SfcDocument \<Rightarrow> SfcBlock list" where
  "all_blocks doc = sd_scripts doc @ (case sd_template doc of None \<Rightarrow> [] | Some t \<Rightarrow> [t]) @ sd_styles doc"

definition good_block :: "string \<Rightarrow> SfcBlock \<Rightarrow> bool" where
  "good_block bytes x \<longleftrightarrow> is_recognised_block_tag (sb_tag x) \<and> 0 < sb_content_start x \<and> sb_content_start x \<le> sb_content_end x \<and>
     sb_content_end x < length bytes \<and> bytes ! (sb_content_start x - 1) = CHR ''>'' \<and>
     is_close_tag bytes (''</'' @ sb_tag x) (sb_content_end x) \<and>
     (\<forall>k. sb_content_start x \<le> k \<longrightarrow> k < sb_content_end x \<longrightarrow> \<not> is_close_tag bytes (''</'' @ sb_tag x) k)"

text \<open>One block ends before the opening tag of another.\<close>

definition before :: "string \<Rightarrow> SfcBlock \<Rightarrow> SfcBlock \<Rightarrow> bool" where
  "before bytes a b \<longleftrightarrow> sb_content_end a < sb_content_start b \<and>
     (\<exists>i. block_end bytes a \<le> i \<and> i < sb_content_start b \<and> bytes ! i = CHR ''<'')"

definition doc_ok :: "string \<Rightarrow> nat \<Rightarrow> SfcDocument \<Rightarrow> bool" where
  "doc_ok bytes i doc \<longleftrightarrow> (\<forall>b\<in>set (all_blocks doc). good_block bytes b \<and> sb_content_end b < i \<and> block_end bytes b \<le> i) \<and>
     (\<forall>b\<in>set (sd_scripts doc). sb_tag b = ''script'') \<and> (\<forall>b\<in>set (sd_styles doc). sb_tag b = ''style'') \<and>
     sorted_wrt (before bytes) (sd_scripts doc) \<and> sorted_wrt (before bytes) (sd_styles doc) \<and>
     (\<forall>a\<in>set (all_blocks doc). \<forall>b\<in>set (all_blocks doc). a = b \<or> before bytes a b \<or> before bytes b a)"

lemma push_block_blocks: "set (all_blocks (push_block b doc)) \<subseteq> insert b (set (all_blocks doc))"
  by (auto simp: push_block_def all_blocks_def split: option.splits if_splits)

lemma doc_ok_mono: "doc_ok bytes i doc \<Longrightarrow> i \<le> j \<Longrightarrow> doc_ok bytes j doc"
  by (fastforce simp: doc_ok_def)

lemma doc_ok_push:
  assumes ok: "doc_ok bytes i doc" and b: "good_block bytes b" "i < sb_content_start b" "sb_content_end b < j" "i \<le> j" "bytes ! i = CHR ''<''" "block_end bytes b \<le> j"
  shows "doc_ok bytes j (push_block b doc)"
proof -
  have ends: "sb_content_end x < i" "block_end bytes x \<le> i" if "x \<in> set (all_blocks doc)" for x using ok that by (auto simp: doc_ok_def)
  have bef: "before bytes x b" if "x \<in> set (all_blocks doc)" for x using ends[OF that] b(2,5) by (auto simp: before_def)
  have "\<forall>x\<in>set (sd_scripts doc). before bytes x b" "\<forall>x\<in>set (sd_styles doc). before bytes x b" using bef by (auto simp: all_blocks_def)
  then have "sorted_wrt (before bytes) (sd_scripts (push_block b doc)) \<and> sorted_wrt (before bytes) (sd_styles (push_block b doc)) \<and>
      (\<forall>b\<in>set (sd_scripts (push_block b doc)). sb_tag b = ''script'') \<and> (\<forall>b\<in>set (sd_styles (push_block b doc)). sb_tag b = ''style'')"
    using ok by (auto simp: push_block_def doc_ok_def sorted_wrt_append)
  moreover have "good_block bytes x \<and> sb_content_end x < j \<and> block_end bytes x \<le> j" if "x \<in> set (all_blocks (push_block b doc))" for x
  proof (cases "x = b")
    case False
    then have "x \<in> set (all_blocks doc)" using that push_block_blocks[of b doc] by blast
    then show ?thesis using ends[of x] ok b(4) by (auto simp: doc_ok_def)
  qed (use b in simp)
  moreover have "x = y \<or> before bytes x y \<or> before bytes y x" if "x \<in> set (all_blocks (push_block b doc))" "y \<in> set (all_blocks (push_block b doc))" for x y
  proof (cases "x = b \<or> y = b")
    case True
    then show ?thesis using that push_block_blocks[of b doc] bef by blast
  next
    case False
    then have "x \<in> set (all_blocks doc)" "y \<in> set (all_blocks doc)" using that push_block_blocks[of b doc] by blast+
    then show ?thesis using ok by (simp add: doc_ok_def)
  qed
  ultimately show ?thesis by (simp add: doc_ok_def)
qed

lemma blocks_loop_ok: "doc_ok bytes i doc \<Longrightarrow> \<exists>j. doc_ok bytes j (blocks_loop bytes i doc)"
proof (induction bytes i doc rule: blocks_loop.induct)
  case (1 bytes i doc)
  consider "length bytes \<le> i" | "i < length bytes" "starts_with bytes i ''<!--''"
    | "i < length bytes" "\<not> starts_with bytes i ''<!--''" "\<not> opens_block bytes i"
    | "i < length bytes" "\<not> starts_with bytes i ''<!--''" "opens_block bytes i"
    by (cases "i < length bytes") auto
  then show ?case
  proof cases
    case 1
    then show ?thesis using \<open>doc_ok bytes i doc\<close> by (auto simp: blocks_loop.simps)
  next
    case 2
    then have "i \<le> skip_comment bytes (i + 4)" using skip_comment_bounds[of "i + 4" bytes] by (simp add: starts_with_def)
    then have "\<exists>j. doc_ok bytes j (blocks_loop bytes (skip_comment bytes (i + 4)) doc)"
      using 2 doc_ok_mono[OF 1(5)] by (intro 1(1)) auto
    then show ?thesis using 2 by (subst blocks_loop.simps) simp
  next
    case 3
    then have "\<exists>j. doc_ok bytes j (blocks_loop bytes (i + 1) doc)" using doc_ok_mono[OF 1(5)] by (intro 1(2)) auto
    then show ?thesis using 3 by (subst blocks_loop.simps) simp
  next
    case 4
    obtain j b where t: "open_tag bytes (i + 1) = (j, b)" by fastforce
    note bounds = open_tag_bounds[OF 4(3) t]
    show ?thesis
    proof (cases b)
      case None
      then have "\<exists>j'. doc_ok bytes j' (blocks_loop bytes j doc)"
        using 4 t bounds doc_ok_mono[OF 1(5), of j] 1(3)[OF _ _ _ t[symmetric]] by auto
      then show ?thesis using 4 t None by (subst blocks_loop.simps) simp
    next
      case (Some x)
      then have "good_block bytes x" "i < sb_content_start x" "sb_content_end x < j" "i \<le> j" "bytes ! i = CHR ''<''" "block_end bytes x \<le> j"
        using bounds 4(3) by (auto simp: good_block_def opens_block_def)
      from doc_ok_push[OF 1(5) this] have "\<exists>j'. doc_ok bytes j' (blocks_loop bytes j (push_block x doc))"
        using 4 t Some 1(4)[OF _ _ _ t[symmetric]] by auto
      then show ?thesis using 4 t Some by (subst blocks_loop.simps) simp
    qed
  qed
qed

lemma extract_blocks_ok: "\<exists>j. doc_ok source j (extract_blocks source)"
  unfolding extract_blocks_def by (rule blocks_loop_ok[of _ 0]) (simp add: doc_ok_def all_blocks_def)



text \<open>
  Closing tags are not matched with the opening ones: with a \<^verbatim>\<open>template\<close> element inside the template of a
  component, the block ends at the inner closing tag and the rest of the template is lost.
\<close>

lemma nested_template_truncated:
  "map_option (\<lambda>t. substr ''<template><template></template><Late/></template>'' (sb_content_start t) (sb_content_end t))
     (sd_template (extract_blocks ''<template><template></template><Late/></template>'')) = Some ''<template>''"
  by code_simp

end
