(* ===== verification/Template.thy ===== *)
theory Template
  imports Sfc Text
begin

text \<open>
  The parts the template parsers share (\<^verbatim>\<open>template/mod.rs\<close>, \<^verbatim>\<open>utils/template_text.rs\<close>).  The expression parser is
  third-party: an argument that gives the identifiers of an expression with their byte offsets, in the
  order they are visited, or nothing when the expression does not parse.
\<close>

datatype TemplateAttribute = Event | Bind | Interpolation | Directive | ComponentRef

fun template_attribute_as_str :: "TemplateAttribute \<Rightarrow> string" where
  "template_attribute_as_str Event = ''template-event''"
| "template_attribute_as_str Bind = ''template-bind''"
| "template_attribute_as_str Interpolation = ''template-interpolation''"
| "template_attribute_as_str Directive = ''template-directive''"
| "template_attribute_as_str ComponentRef = ''template-component-ref''"

record TemplateRef =
  tr_name :: string
  tr_attribute :: TemplateAttribute
  tr_byte_offset :: nat

type_synonym expr_parser = "string \<Rightarrow> (string \<times> nat) list option"

definition JS_GLOBALS :: "string list" where
  "JS_GLOBALS = [''console'', ''window'', ''document'', ''globalThis'', ''self'', ''undefined'', ''NaN'', ''Infinity'',
     ''Math'', ''Date'', ''Object'', ''Array'', ''Number'', ''String'', ''Boolean'', ''JSON'', ''RegExp'', ''Symbol'',
     ''Error'', ''TypeError'', ''RangeError'', ''Map'', ''Set'', ''WeakMap'', ''WeakSet'', ''Promise'', ''Proxy'', ''Reflect'',
     ''parseInt'', ''parseFloat'', ''isNaN'', ''isFinite'', ''encodeURI'', ''encodeURIComponent'', ''decodeURI'',
     ''decodeURIComponent'']"

definition extract_identifiers_from_expression :: "expr_parser \<Rightarrow> string \<Rightarrow> nat \<Rightarrow> TemplateAttribute \<Rightarrow> TemplateRef list" where
  "extract_identifiers_from_expression idents expr_src base_offset attribute =
    (if str_trim expr_src = [] then []
     else case idents expr_src of
       None \<Rightarrow> []
     | Some xs \<Rightarrow> map (\<lambda>(name, local). \<lparr> tr_name = name, tr_attribute = attribute, tr_byte_offset = base_offset + local \<rparr>)
         (filter (\<lambda>(name, _). name \<notin> set JS_GLOBALS) xs))"

definition is_component_ref_tag :: "string \<Rightarrow> bool" where
  "is_component_ref_tag name \<longleftrightarrow> name \<noteq> [] \<and> byte_upper (hd name)"

record depths =
  dp_paren :: int
  dp_bracket :: int
  dp_brace :: int

definition update_depths :: "char \<Rightarrow> depths \<Rightarrow> depths" where
  "update_depths b d =
    (if b = CHR ''('' then d\<lparr>dp_paren := dp_paren d + 1\<rparr>
     else if b = CHR '')'' then d\<lparr>dp_paren := dp_paren d - 1\<rparr>
     else if b = CHR ''['' then d\<lparr>dp_bracket := dp_bracket d + 1\<rparr>
     else if b = CHR '']'' then d\<lparr>dp_bracket := dp_bracket d - 1\<rparr>
     else if b = CHR ''{'' then d\<lparr>dp_brace := dp_brace d + 1\<rparr>
     else if b = CHR ''}'' then d\<lparr>dp_brace := dp_brace d - 1\<rparr>
     else d)"

definition is_string_quote :: "char \<Rightarrow> bool" where
  "is_string_quote b \<longleftrightarrow> b \<in> {CHR 0x27, CHR 0x22, CHR 0x60}"

text \<open>The loop of \<^verbatim>\<open>find_top_level_keyword\<close> on the rest of the text, with the position of its head.\<close>

fun keyword_loop :: "string \<Rightarrow> nat \<Rightarrow> depths \<Rightarrow> char option \<Rightarrow> string \<Rightarrow> nat option" where
  "keyword_loop kw i d q [] = None"
| "keyword_loop kw i d (Some q) (b # s) = keyword_loop kw (i + 1) d (if b = q then None else Some q) s"
| "keyword_loop kw i d None (b # s) =
    (if is_string_quote b then keyword_loop kw (i + 1) d (Some b) s
     else let d = update_depths b d in
       if dp_paren d = 0 \<and> dp_bracket d = 0 \<and> dp_brace d = 0 \<and> prefix kw (b # s) then Some i
       else keyword_loop kw (i + 1) d None s)"

definition find_top_level_keyword :: "string \<Rightarrow> string \<Rightarrow> (nat \<times> nat) option" where
  "find_top_level_keyword s kw =
    map_option (\<lambda>i. (i, length kw)) (keyword_loop kw 0 \<lparr> dp_paren = 0, dp_bracket = 0, dp_brace = 0 \<rparr> None s)"

definition loop_names :: "string \<Rightarrow> string list" where
  "loop_names lhs =
    filter (\<lambda>n. n \<noteq> []) (map str_trim (split_char (CHR '','')
      (rev (dropWhile ((=) (CHR '')'')) (rev (dropWhile ((=) (CHR ''('')) lhs))))))"

section \<open>References point at their names\<close>

definition names_at :: "string \<Rightarrow> nat \<Rightarrow> string \<Rightarrow> bool" where
  "names_at src i name \<longleftrightarrow> prefix name (drop i src)"

text \<open>What is assumed of the expression parser: an identifier stands in the text where it says.\<close>

definition spans_ok :: "expr_parser \<Rightarrow> bool" where
  "spans_ok idents \<longleftrightarrow> (\<forall>e xs. idents e = Some xs \<longrightarrow> (\<forall>(name, i)\<in>set xs. names_at e i name))"

definition refs_ok :: "string \<Rightarrow> nat \<Rightarrow> TemplateRef list \<Rightarrow> bool" where
  "refs_ok src base rs \<longleftrightarrow> (\<forall>r\<in>set rs. base \<le> tr_byte_offset r \<and> names_at src (tr_byte_offset r - base) (tr_name r))"

lemma refs_ok_simps [simp]:
  "refs_ok src base []" "refs_ok src base (xs @ ys) \<longleftrightarrow> refs_ok src base xs \<and> refs_ok src base ys"
  "refs_ok src base (r # rs) \<longleftrightarrow> base \<le> tr_byte_offset r \<and> names_at src (tr_byte_offset r - base) (tr_name r) \<and> refs_ok src base rs"
  by (auto simp: refs_ok_def)

lemma names_at_part: "names_at e i name \<Longrightarrow> prefix e (drop a src) \<Longrightarrow> names_at src (a + i) name"
proof -
  assume n: "names_at e i name" "prefix e (drop a src)"
  then obtain r where r: "drop a src = e @ r" by (auto simp: prefix_def)
  have "drop (a + i) src = drop i (drop a src)" by (simp add: add.commute)
  also have "\<dots> = drop i e @ drop (i - length e) r" by (simp add: r)
  finally show ?thesis using n(1) by (auto simp: names_at_def prefix_def)
qed

lemma extract_refs_ok:
  assumes "spans_ok idents" "prefix e (drop a src)"
  shows "refs_ok src base (extract_identifiers_from_expression idents e (base + a) attr)"
proof (cases "idents e")
  case (Some xs)
  have "names_at src (a + i) name" if "(name, i) \<in> set xs" for name i
    using assms(1) Some that by (intro names_at_part[OF _ assms(2)]) (fastforce simp: spans_ok_def)
  then show ?thesis using Some by (auto simp: extract_identifiers_from_expression_def refs_ok_def)
qed (simp add: extract_identifiers_from_expression_def)

lemma prefix_substr [simp]: "prefix (substr s a b) (drop a s)"
  by (simp add: substr_def take_is_prefix)

lemma extract_substr_refs:
  assumes "spans_ok idents"
  shows "refs_ok bytes base (extract_identifiers_from_expression idents (substr bytes k e) (base + k) attr)"
    and "refs_ok bytes base (extract_identifiers_from_expression idents (substr bytes (Suc k) e) (Suc (base + k)) attr)"
  using extract_refs_ok[OF assms prefix_substr[of bytes k e], of base] extract_refs_ok[OF assms prefix_substr[of bytes "Suc k" e], of base]
  by simp_all

lemma prefix_drop_trans: "prefix (e :: string) (drop b f) \<Longrightarrow> prefix f (drop a src) \<Longrightarrow> prefix e (drop (a + b) src)"
  using names_at_part[of f b e a src] by (simp add: names_at_def)

text \<open>An expression parser that knows single words: enough to evaluate the parser.\<close>

definition word_parser :: expr_parser where
  "word_parser e =
    (let n = length (takeWhile byte_ws e); w = takeWhile byte_alnum (drop n e)
     in if w = [] then None else Some [(w, n)])"

lemma word_parser_spans: "spans_ok word_parser"
  by (auto simp: spans_ok_def word_parser_def Let_def names_at_def takeWhile_is_prefix split: if_splits)

section \<open>Walking attributes\<close>

definition name_end_byte :: "char \<Rightarrow> bool" where
  "name_end_byte c \<longleftrightarrow> byte_ws c \<or> c = CHR ''='' \<or> c = CHR ''>'' \<or> c = CHR ''/''"

text \<open>
  Both parsers walk the attributes of a tag in the same way; they differ in how a value is read and what is
  emitted for it.  The interface: a reader that never goes back and stays within the text.
\<close>

locale attribute_walker =
  fixes bytes :: string
    and read :: "nat \<Rightarrow> 'v option \<times> nat"
    and emit :: "string \<Rightarrow> 'v option \<Rightarrow> TemplateRef list"
    and walk :: "nat \<Rightarrow> TemplateRef list \<Rightarrow> nat \<times> TemplateRef list"
  assumes read_ge: "i \<le> snd (read i)"
    and read_le: "i \<le> length bytes \<Longrightarrow> snd (read i) \<le> length bytes"
    and walk_eq: "walk i out =
      (if length bytes \<le> i then (length bytes, out)
       else if byte_ws (bytes ! i) then walk (i + 1) out
       else if bytes ! i = CHR ''>'' then (i + 1, out)
       else if bytes ! i = CHR ''/'' \<and> i + 1 < length bytes \<and> bytes ! (i + 1) = CHR ''>'' then (i + 2, out)
       else let e = scan_while (\<lambda>c. \<not> name_end_byte c) bytes i in
         if e = i then walk (i + 1) out
         else walk (snd (read e)) (out @ emit (substr bytes i e) (fst (read e))))"
begin

lemma walk_induct [consumes 1, case_names step]:
  assumes "i \<le> length bytes"
    and "\<And>i out. i \<le> length bytes \<Longrightarrow> (\<And>j out'. i < j \<Longrightarrow> j \<le> length bytes \<Longrightarrow> P j out') \<Longrightarrow> P i out"
  shows "P i out"
  using assms(1)
proof (induction "length bytes - i" arbitrary: i out rule: less_induct)
  case less
  show ?case
  proof (rule assms(2)[OF less.prems])
    fix j out' assume "i < j" "j \<le> length bytes"
    then show "P j out'" by (intro less.hyps) auto
  qed
qed

lemma walk_cases:
  assumes "i \<le> length bytes"
  obtains (stop) j where "walk i out = (j, out)" "i \<le> j" "j \<le> length bytes"
  | (skip) "i < length bytes" "walk i out = walk (i + 1) out"
  | (attr) e where "i < e" "e \<le> length bytes" "walk i out = walk (snd (read e)) (out @ emit (substr bytes i e) (fst (read e)))"
proof -
  let ?e = "scan_while (\<lambda>c. \<not> name_end_byte c) bytes i"
  have e: "i \<le> ?e" "?e \<le> length bytes" using scan_while_ge scan_while_le assms by auto
  consider "length bytes \<le> i" | "i < length bytes" "byte_ws (bytes ! i)"
    | "i < length bytes" "\<not> byte_ws (bytes ! i)" "bytes ! i = CHR ''>''"
    | "i < length bytes" "\<not> byte_ws (bytes ! i)" "bytes ! i \<noteq> CHR ''>''" "bytes ! i = CHR ''/'' \<and> i + 1 < length bytes \<and> bytes ! (i + 1) = CHR ''>''"
    | "i < length bytes" "\<not> byte_ws (bytes ! i)" "bytes ! i \<noteq> CHR ''>''" "\<not> (bytes ! i = CHR ''/'' \<and> i + 1 < length bytes \<and> bytes ! (i + 1) = CHR ''>'')"
    by (metis not_le)
  then show thesis
  proof cases
    case 1
    then show thesis using assms by (intro stop[of "length bytes"]) (simp_all add: walk_eq)
  next
    case 2
    then show thesis by (intro skip) (auto simp: walk_eq[of i])
  next
    case 3
    then show thesis by (intro stop[of "i + 1"]) (simp_all add: walk_eq)
  next
    case 4
    then show thesis by (intro stop[of "i + 2"]) (auto simp: walk_eq[of i])
  next
    case 5
    then have w: "walk i out = (if ?e = i then walk (i + 1) out else walk (snd (read ?e)) (out @ emit (substr bytes i ?e) (fst (read ?e))))"
      by (subst walk_eq) (auto simp: Let_def)
    show thesis
    proof (cases "?e = i")
      case True
      then show thesis using w 5 skip by simp
    next
      case False
      then show thesis using w e by (intro attr) auto
    qed
  qed
qed

lemma walk_bounds: "i \<le> length bytes \<Longrightarrow> i \<le> fst (walk i out) \<and> fst (walk i out) \<le> length bytes"
proof (induction i out rule: walk_induct)
  case (step i out)
  show ?case
  using step(1)
  proof (cases rule: walk_cases[where out = out])
    case skip
    then show ?thesis using step(2)[of "i + 1" out] by simp
  next
    case (attr e)
    then have "i < snd (read e)" "snd (read e) \<le> length bytes" using read_ge[of e] read_le[of e] by auto
    then show ?thesis using step(2) attr by (simp add: less_imp_le order_trans[of i "snd (read e)"])
  qed simp
qed

lemma walk_refs:
  assumes emit: "\<And>e name. e \<le> length bytes \<Longrightarrow> refs_ok bytes base (emit name (fst (read e)))"
  shows "i \<le> length bytes \<Longrightarrow> refs_ok bytes base out \<Longrightarrow> refs_ok bytes base (snd (walk i out))"
proof (induction i out rule: walk_induct)
  case (step i out)
  show ?case
  using step(1)
  proof (cases rule: walk_cases[where out = out])
    case (stop j)
    then show ?thesis using step(3) by simp
  next
    case skip
    then show ?thesis using step(2)[of "i + 1" out] step(3) by simp
  next
    case (attr e)
    then have "i < snd (read e)" "snd (read e) \<le> length bytes" using read_ge[of e] read_le[of e] by auto
    then show ?thesis using step(2,3) attr emit by simp
  qed
qed

end

end
