(* ===== verification/Template_Vue.thy ===== *)
theory Template_Vue
  imports Template
begin

text \<open>
  The parser of Vue templates (\<^verbatim>\<open>template/vue.rs\<close>): component tags, bound attributes, directives and
  interpolations.  The sink is the list of references in the order they are pushed.
\<close>

section \<open>Attributes\<close>

definition split_v_for :: "string \<Rightarrow> string \<times> string list" where
  "split_v_for v =
    (let trimmed = str_trim v in
     case (case find_top_level_keyword trimmed '' in '' of Some r \<Rightarrow> Some r | None \<Rightarrow> find_top_level_keyword trimmed '' of '') of
       None \<Rightarrow> (trimmed, [])
     | Some (kw_pos, kw_len) \<Rightarrow>
         (str_trim (drop (kw_pos + kw_len) trimmed), loop_names (str_trim (take kw_pos trimmed))))"

text \<open>The value with the position of its first byte, and the position \<^verbatim>\<open>*i\<close> is left at.\<close>

definition vue_read_attr_value :: "string \<Rightarrow> nat \<Rightarrow> (string \<times> nat) option \<times> nat" where
  "vue_read_attr_value bytes saved =
    (let i = scan_while byte_ws bytes saved in
     if length bytes \<le> i \<or> bytes ! i \<noteq> CHR ''='' then (None, saved)
     else let i = scan_while byte_ws bytes (i + 1) in
       if length bytes \<le> i then (None, i)
       else if \<not> is_quote (bytes ! i) then (None, scan_while bare_value_byte bytes i)
       else let start = i + 1; e = scan_while (\<lambda>c. c \<noteq> bytes ! i) bytes start
            in (Some (substr bytes start e, start), if e < length bytes then e + 1 else e))"

definition vue_classify_attribute :: "string \<Rightarrow> TemplateAttribute option" where
  "vue_classify_attribute name =
    (if prefix ''@'' name \<or> prefix ''v-on:'' name \<or> prefix ''v-on'' name then Some Event
     else if prefix '':'' name \<or> prefix ''v-bind:'' name \<or> name = ''v-bind'' then Some Bind
     else if name \<in> {''v-if'', ''v-else-if'', ''v-show'', ''v-model'', ''v-for''} \<or> prefix ''v-model:'' name then Some Directive
     else None)"

definition emit_attribute_refs ::
  "expr_parser \<Rightarrow> string \<Rightarrow> string \<Rightarrow> nat \<Rightarrow> nat \<Rightarrow> TemplateAttribute \<Rightarrow> TemplateRef list" where
  "emit_attribute_refs idents name val value_start base_offset attribute =
    (if name = ''v-for''
     then let iterable = fst (split_v_for val);
              inner_offset = (case find_str iterable val of Some pos \<Rightarrow> pos | None \<Rightarrow> 0)
          in extract_identifiers_from_expression idents iterable (base_offset + value_start + inner_offset) attribute
     else extract_identifiers_from_expression idents val (base_offset + value_start) attribute)"

lemma vue_read_attr_value_ge: "i \<le> snd (vue_read_attr_value bytes i)"
  using scan_while_ge[of i byte_ws bytes] scan_while_ge[of "scan_while byte_ws bytes i + 1" byte_ws bytes]
    scan_while_ge[of "scan_while byte_ws bytes (scan_while byte_ws bytes i + 1)" bare_value_byte bytes]
    scan_while_ge[of "scan_while byte_ws bytes (scan_while byte_ws bytes i + 1) + 1"
      "\<lambda>c. c \<noteq> bytes ! scan_while byte_ws bytes (scan_while byte_ws bytes i + 1)" bytes]
  by (auto simp: vue_read_attr_value_def Let_def)

definition vue_attr_refs :: "expr_parser \<Rightarrow> string \<Rightarrow> nat \<Rightarrow> string \<Rightarrow> (string \<times> nat) option \<Rightarrow> TemplateRef list" where
  "vue_attr_refs idents bytes base_offset attr_name value_span =
    (case value_span of
       Some (val, value_start) \<Rightarrow>
         (case vue_classify_attribute attr_name of
            Some attribute \<Rightarrow> emit_attribute_refs idents attr_name val value_start base_offset attribute
          | None \<Rightarrow> [])
     | None \<Rightarrow> [])"

function vue_walk_attributes :: "expr_parser \<Rightarrow> string \<Rightarrow> nat \<Rightarrow> nat \<Rightarrow> TemplateRef list \<Rightarrow> nat \<times> TemplateRef list" where
  "vue_walk_attributes idents bytes base_offset i out =
    (if length bytes \<le> i then (length bytes, out)
     else if byte_ws (bytes ! i) then vue_walk_attributes idents bytes base_offset (i + 1) out
     else if bytes ! i = CHR ''>'' then (i + 1, out)
     else if bytes ! i = CHR ''/'' \<and> i + 1 < length bytes \<and> bytes ! (i + 1) = CHR ''>'' then (i + 2, out)
     else let e = scan_while (\<lambda>c. \<not> name_end_byte c) bytes i in
       if e = i then vue_walk_attributes idents bytes base_offset (i + 1) out
       else vue_walk_attributes idents bytes base_offset (snd (vue_read_attr_value bytes e))
              (out @ vue_attr_refs idents bytes base_offset (substr bytes i e) (fst (vue_read_attr_value bytes e))))"
  by pat_completeness auto
termination
proof (relation "measure (\<lambda>(_, bytes, _, i, _). length bytes - i)", goal_cases)
  case (4 idents bytes base i out e)
  then have "i < e" using scan_while_ge[of i "\<lambda>c. \<not> name_end_byte c" bytes] by simp
  then show ?case using 4(1) vue_read_attr_value_ge[of e bytes] by simp
qed auto

declare vue_walk_attributes.simps [simp del]

section \<open>The walk\<close>

function find_double_brace_close :: "string \<Rightarrow> nat \<Rightarrow> nat option" where
  "find_double_brace_close bytes i =
    (if i + 1 < length bytes
     then if bytes ! i = CHR ''}'' \<and> bytes ! (i + 1) = CHR ''}'' then Some i else find_double_brace_close bytes (i + 1)
     else None)"
  by pat_completeness auto
termination by (relation "measure (\<lambda>(bytes, i). length bytes - i)") auto

declare find_double_brace_close.simps [simp del]

lemma find_double_brace_close_ge: "find_double_brace_close bytes i = Some e \<Longrightarrow> i \<le> e"
proof (induction bytes i rule: find_double_brace_close.induct)
  case (1 bytes i)
  then show ?case by (subst (asm) (2) find_double_brace_close.simps) (auto split: if_splits)
qed

lemma vue_read_attr_value_le:
  assumes "i \<le> length bytes"
  shows "snd (vue_read_attr_value bytes i) \<le> length bytes"
proof -
  let ?j = "scan_while byte_ws bytes i" let ?k = "scan_while byte_ws bytes (?j + 1)"
  have k: "?j < length bytes \<Longrightarrow> ?k \<le> length bytes" by (rule scan_while_le) simp
  have e: "?k < length bytes \<Longrightarrow> scan_while P bytes (?k + 1) \<le> length bytes" for P by (rule scan_while_le) simp
  have f: "?k < length bytes \<Longrightarrow> scan_while P bytes ?k \<le> length bytes" for P by (rule scan_while_le) simp
  show ?thesis unfolding vue_read_attr_value_def Let_def
    using assms k e[of "\<lambda>c. c \<noteq> bytes ! ?k"] f[of bare_value_byte] by (auto simp: not_le)
qed

interpretation vue: attribute_walker bytes "vue_read_attr_value bytes" "vue_attr_refs idents bytes base" "vue_walk_attributes idents bytes base"
  for idents bytes base
  by unfold_locales (rule vue_read_attr_value_ge, erule vue_read_attr_value_le, rule vue_walk_attributes.simps)

text \<open>One turn of \<^verbatim>\<open>parse\<close>: the next position and the references pushed.\<close>

definition vue_tag :: "expr_parser \<Rightarrow> string \<Rightarrow> nat \<Rightarrow> nat \<Rightarrow> nat \<times> TemplateRef list" where
  "vue_tag idents bytes base_offset i =
    (let after = i + 1 in
     if after < length bytes \<and> bytes ! after = CHR ''/''
     then ((case find_after bytes after (CHR ''>'') of Some j \<Rightarrow> j | None \<Rightarrow> length bytes), [])
     else if after < length bytes \<and> byte_alpha (bytes ! after)
     then let name_end = read_tag_name bytes after; tag_name = substr bytes after name_end;
              out = (if is_component_ref_tag tag_name
                then [\<lparr> tr_name = tag_name, tr_attribute = ComponentRef, tr_byte_offset = base_offset + after \<rparr>] else [])
          in vue_walk_attributes idents bytes base_offset name_end out
     else (i + 1, []))"

definition vue_interpolation :: "expr_parser \<Rightarrow> string \<Rightarrow> nat \<Rightarrow> nat \<Rightarrow> nat \<times> TemplateRef list" where
  "vue_interpolation idents bytes base_offset i =
    (if i + 1 < length bytes \<and> bytes ! i = CHR ''{'' \<and> bytes ! (i + 1) = CHR ''{''
     then case find_double_brace_close bytes (i + 2) of
       Some e \<Rightarrow> (e + 2, extract_identifiers_from_expression idents (substr bytes (i + 2) e) (base_offset + (i + 2)) Interpolation)
     | None \<Rightarrow> (i + 1, [])
     else (i + 1, []))"

definition vue_turn :: "expr_parser \<Rightarrow> string \<Rightarrow> nat \<Rightarrow> nat \<Rightarrow> nat \<times> TemplateRef list" where
  "vue_turn idents bytes base_offset i =
    (if starts_with bytes i ''<!--'' then (skip_comment bytes (i + 4), [])
     else if bytes ! i = CHR ''<'' then vue_tag idents bytes base_offset i
     else vue_interpolation idents bytes base_offset i)"

lemma vue_turn_ge: "i < length bytes \<Longrightarrow> i < fst (vue_turn idents bytes base i)"
proof -
  assume i: "i < length bytes"
  have n: "i + 1 \<le> read_tag_name bytes (i + 1)" "read_tag_name bytes (i + 1) \<le> length bytes"
    using scan_while_ge[of "i + 1" name_byte bytes] scan_while_le[of "i + 1" bytes name_byte] i by (auto simp: read_tag_name_def)
  have w: "i < fst (vue_walk_attributes idents bytes base (read_tag_name bytes (i + 1)) out)" for out
    using vue.walk_bounds[OF n(2), of idents base out] n(1) by simp
  show ?thesis
    using i w skip_comment_bounds[of "i + 4" bytes] find_double_brace_close_ge[of bytes "i + 2"]
    by (auto simp: vue_turn_def vue_tag_def vue_interpolation_def Let_def starts_with_def dest!: find_after_spec
        split: option.split)
qed

function vue_loop :: "expr_parser \<Rightarrow> string \<Rightarrow> nat \<Rightarrow> nat \<Rightarrow> TemplateRef list" where
  "vue_loop idents bytes base_offset i =
    (if length bytes \<le> i then []
     else snd (vue_turn idents bytes base_offset i) @ vue_loop idents bytes base_offset (fst (vue_turn idents bytes base_offset i)))"
  by pat_completeness auto
termination
proof (relation "measure (\<lambda>(_, bytes, _, i). length bytes - i)", goal_cases)
  case (2 idents bytes base i)
  then show ?case using vue_turn_ge[of i bytes idents base] by auto
qed simp

declare vue_loop.simps [simp del]

definition vue_parse :: "expr_parser \<Rightarrow> string \<Rightarrow> nat \<Rightarrow> TemplateRef list" where
  "vue_parse idents template_src base_offset = vue_loop idents template_src base_offset 0"

section \<open>Positions\<close>

lemma split_v_for_part: "\<exists>a b. v = a @ fst (split_v_for v) @ b"
proof -
  obtain x y where t: "v = x @ str_trim v @ y" using str_trim_split by blast
  show ?thesis
  proof (cases "fst (split_v_for v) = str_trim v")
    case False
    then obtain n where n: "fst (split_v_for v) = str_trim (drop n (str_trim v))"
      by (auto simp: split_v_for_def Let_def split: option.splits)
    obtain c d where "drop n (str_trim v) = c @ str_trim (drop n (str_trim v)) @ d" using str_trim_split by blast
    then have "str_trim v = (take n (str_trim v) @ c) @ fst (split_v_for v) @ d" using n append_take_drop_id[of n "str_trim v"] by simp
    then have "v = (x @ take n (str_trim v) @ c) @ fst (split_v_for v) @ (d @ y)" using t by (metis append_assoc)
    then show ?thesis by blast
  qed (use t in metis)
qed

lemma emit_refs_ok:
  assumes "spans_ok idents" "prefix v (drop a src)"
  shows "refs_ok src base (emit_attribute_refs idents name v a base attr)"
proof (cases "name = ''v-for''")
  case True
  obtain x y where "v = x @ fst (split_v_for v) @ y" using split_v_for_part by blast
  then obtain k where k: "find_str (fst (split_v_for v)) v = Some k" using find_str_sublist by metis
  then have "prefix (fst (split_v_for v)) (drop (a + k) src)" using find_str_Some[OF k] assms(2) prefix_drop_trans by blast
  from extract_refs_ok[OF assms(1) this, of base attr] show ?thesis using True k by (simp add: emit_attribute_refs_def Let_def add.assoc)
qed (simp add: emit_attribute_refs_def extract_refs_ok[OF assms])

lemma vue_attr_refs_ok: "spans_ok idents \<Longrightarrow> refs_ok bytes base (vue_attr_refs idents bytes base name (fst (vue_read_attr_value bytes e)))"
  by (auto simp: vue_attr_refs_def vue_read_attr_value_def Let_def intro!: emit_refs_ok split: option.split)

lemma vue_turn_refs: "spans_ok idents \<Longrightarrow> i < length bytes \<Longrightarrow> refs_ok bytes base (snd (vue_turn idents bytes base i))"
proof -
  assume s: "spans_ok idents" and i: "i < length bytes"
  have n: "read_tag_name bytes (i + 1) \<le> length bytes" using scan_while_le[of "i + 1" bytes name_byte] i by (simp add: read_tag_name_def)
  have "refs_ok bytes base (snd (vue_walk_attributes idents bytes base (read_tag_name bytes (i + 1)) out))" if "refs_ok bytes base out" for out
    using vue.walk_refs[OF vue_attr_refs_ok[OF s] n that] .
  moreover have "refs_ok bytes base (extract_identifiers_from_expression idents (substr bytes (Suc (Suc i)) e) (Suc (Suc (base + i))) Interpolation)" for e
    using extract_refs_ok[OF s prefix_substr[of bytes "Suc (Suc i)" e], of base] by simp
  ultimately show ?thesis
    by (auto simp: vue_turn_def vue_tag_def vue_interpolation_def Let_def names_at_def
        split: option.split)
qed

text \<open>
  Every reference the parser finds in a Vue template points at an occurrence of its name in the
  file, provided the spans of the expression parser are right: the offset is absolute and the text there
  is the name.
\<close>

theorem vue_refs_point_at_names:
  assumes "spans_ok idents" "t = substr content start e" "r \<in> set (vue_parse idents t start)"
  shows "start \<le> tr_byte_offset r \<and> prefix (tr_name r) (drop (tr_byte_offset r) content)"
proof -
  have "refs_ok bytes base (vue_loop idents bytes base i)" for bytes base i
    using assms(1)
  proof (induction idents bytes base i rule: vue_loop.induct)
    case (1 idents bytes base i)
    then show ?case using vue_turn_refs[of idents i bytes base] by (subst vue_loop.simps) simp
  qed
  then have r: "start \<le> tr_byte_offset r" "prefix (tr_name r) (drop (tr_byte_offset r - start) t)"
    using assms(3) by (auto simp: vue_parse_def refs_ok_def names_at_def)
  moreover have "prefix t (drop start content)" using assms(2) by simp
  ultimately have "prefix (tr_name r) (drop (start + (tr_byte_offset r - start)) content)" by (intro prefix_drop_trans)
  then show ?thesis using r(1) by simp
qed

theorem vue_refs_point_at_names_witness:
  "map (\<lambda>r. (tr_name r, tr_byte_offset r)) (vue_parse word_parser (substr ''--<A :p='q'/>'' 2 13) 2) = [(''A'', 3), (''q'', 9)] \<and>
   prefix ''q'' (drop 9 ''--<A :p='q'/>'')"
proof -
  let ?c = "''--<A :p='q'/>''" let ?rs = "vue_parse word_parser (substr ?c 2 13) 2"
  have m: "map (\<lambda>r. (tr_name r, tr_byte_offset r)) ?rs = [(''A'', 3), (''q'', 9)]" by code_simp
  then obtain a r where "?rs = [a, r]" "tr_name r = ''q''" "tr_byte_offset r = 9" by (auto simp: map_eq_Cons_conv)
  then show ?thesis using vue_refs_point_at_names[OF word_parser_spans refl, of r ?c 2 13] m by simp
qed

text \<open>
  In a loop directive the iterable is located by its first occurrence in the value, which may be the loop
  variable: of the two names of \<^verbatim>\<open>a in a\<close> the reference points at the first, the local definition.
\<close>

lemma v_for_points_at_local:
  "map tr_byte_offset (vue_parse word_parser ''<li v-for='a in a'>'' 0) = [11]"
  by code_simp

end
