(* ===== verification/Template_Svelte.thy ===== *)
theory Template_Svelte
  imports Template
begin

text \<open>
  The parser of Svelte templates (\<^verbatim>\<open>template/svelte.rs\<close>): component tags, attributes with brace values, block
  markers, \<^verbatim>\<open>@\<close> blocks and interpolations.
\<close>

section \<open>Clauses\<close>

text \<open>The walk back to the matching parenthesis, from position \<open>i\<close> down.\<close>

fun paren_back :: "string \<Rightarrow> nat \<Rightarrow> int \<Rightarrow> nat option" where
  "paren_back s 0 depth = None"
| "paren_back s (Suc i) depth =
    (if s ! i = CHR '')'' then paren_back s i (depth + 1)
     else if s ! i = CHR ''('' then (if depth - 1 = 0 then Some i else paren_back s i (depth - 1))
     else paren_back s i depth)"

definition strip_trailing_paren :: "string \<Rightarrow> string \<times> string option" where
  "strip_trailing_paren s =
    (case strip_suffix '')'' (trim_end s) of
       None \<Rightarrow> (s, None)
     | Some stripped \<Rightarrow>
         (case paren_back stripped (length stripped) 1 of
            Some i \<Rightarrow> (take i stripped, Some (drop (i + 1) stripped))
          | None \<Rightarrow> (s, None)))"

definition split_each_clause :: "string \<Rightarrow> string \<times> string list" where
  "split_each_clause each_clause =
    (let head = str_trim (fst (strip_trailing_paren (str_trim each_clause))) in
     case find_top_level_keyword head '' as '' of
       None \<Rightarrow> (head, [])
     | Some (kw_pos, kw_len) \<Rightarrow> (str_trim (take kw_pos head), loop_names (str_trim (drop (kw_pos + kw_len) head))))"

definition strip_then_or_catch :: "string \<Rightarrow> string" where
  "strip_then_or_catch s =
    (let s = str_trim s in
     case find_top_level_keyword s '' then '' of
       Some (pos, _) \<Rightarrow> str_trim (take pos s)
     | None \<Rightarrow> (case find_top_level_keyword s '' catch '' of Some (pos, _) \<Rightarrow> str_trim (take pos s) | None \<Rightarrow> s))"

definition count_leading_ws :: "string \<Rightarrow> nat" where
  "count_leading_ws s = length (takeWhile byte_ws s)"

section \<open>Braces\<close>

function brace_loop :: "string \<Rightarrow> int \<Rightarrow> char option \<Rightarrow> nat \<Rightarrow> nat option" where
  "brace_loop bytes depth in_quote i =
    (if length bytes \<le> i then None
     else case in_quote of
       Some q \<Rightarrow> brace_loop bytes depth (if bytes ! i = q then None else Some q) (i + 1)
     | None \<Rightarrow>
         if is_string_quote (bytes ! i) then brace_loop bytes depth (Some (bytes ! i)) (i + 1)
         else if bytes ! i = CHR ''{'' then brace_loop bytes (depth + 1) None (i + 1)
         else if bytes ! i = CHR ''}''
         then (if depth - 1 = 0 then Some i else brace_loop bytes (depth - 1) None (i + 1))
         else brace_loop bytes depth None (i + 1))"
  by pat_completeness auto
termination by (relation "measure (\<lambda>(bytes, _, _, i). length bytes - i)") auto

declare brace_loop.simps [simp del]

definition find_brace_close :: "string \<Rightarrow> nat \<Rightarrow> nat option" where
  "find_brace_close bytes from = brace_loop bytes 1 None from"

lemma brace_loop_bounds: "brace_loop bytes depth q i = Some e \<Longrightarrow> i \<le> e \<and> e < length bytes"
proof (induction "length bytes - i" arbitrary: depth q i rule: less_induct)
  case less
  have i: "i < length bytes" using less.prems by (subst (asm) brace_loop.simps) (auto split: if_splits)
  have "e = i \<or> (\<exists>d q'. brace_loop bytes d q' (i + 1) = Some e)"
    using less.prems by (subst (asm) brace_loop.simps) (auto split: if_splits option.splits)
  then show ?case
  proof
    assume "\<exists>d q'. brace_loop bytes d q' (i + 1) = Some e"
    then show ?thesis using less.hyps[of "i + 1"] i by fastforce
  qed (use i in simp)
qed

lemma find_brace_close_bounds: "find_brace_close bytes i = Some e \<Longrightarrow> i \<le> e \<and> e < length bytes"
  by (simp add: find_brace_close_def brace_loop_bounds)

section \<open>Attributes\<close>

text \<open>The value, the position of its first byte, whether it stands in braces; and where \<^verbatim>\<open>*i\<close> is left.\<close>

definition svelte_read_attr_value :: "string \<Rightarrow> nat \<Rightarrow> (string \<times> nat \<times> bool) option \<times> nat" where
  "svelte_read_attr_value bytes saved =
    (let i = scan_while byte_ws bytes saved in
     if length bytes \<le> i \<or> bytes ! i \<noteq> CHR ''='' then (None, saved)
     else let i = scan_while byte_ws bytes (i + 1) in
       if length bytes \<le> i then (None, i)
       else if bytes ! i = CHR ''{''
       then (case find_brace_close bytes (i + 1) of
           Some e \<Rightarrow> (Some (substr bytes (i + 1) e, i + 1, True), e + 1)
         | None \<Rightarrow> (None, i + 1))
       else if is_quote (bytes ! i)
       then let start = i + 1; e = scan_while (\<lambda>c. c \<noteq> bytes ! i) bytes start
            in (Some (substr bytes start e, start, False), if e < length bytes then e + 1 else e)
       else let e = scan_while bare_value_byte bytes i in (Some (substr bytes i e, i, False), e))"

definition svelte_classify_attribute :: "string \<Rightarrow> bool \<Rightarrow> TemplateAttribute option" where
  "svelte_classify_attribute name was_brace_value =
    (if prefix ''on:'' name then Some Event
     else if prefix ''bind:'' name then Some Bind
     else if was_brace_value \<and> 2 < length name \<and> prefix ''on'' name \<and> byte_lower (name ! 2) then Some Event
     else if was_brace_value then Some Bind
     else None)"

definition svelte_attr_refs :: "expr_parser \<Rightarrow> nat \<Rightarrow> string \<Rightarrow> (string \<times> nat \<times> bool) option \<Rightarrow> TemplateRef list" where
  "svelte_attr_refs idents base_offset attr_name value_span =
    (case value_span of
       Some (val, value_start, was_brace) \<Rightarrow>
         (case svelte_classify_attribute attr_name was_brace of
            Some attr \<Rightarrow> if was_brace then extract_identifiers_from_expression idents val (base_offset + value_start) attr else []
          | None \<Rightarrow> [])
     | None \<Rightarrow> [])"

lemma svelte_read_attr_value_ge: "i \<le> snd (svelte_read_attr_value bytes i)"
  using scan_while_ge[of i byte_ws bytes] scan_while_ge[of "scan_while byte_ws bytes i + 1" byte_ws bytes]
    scan_while_ge[of "scan_while byte_ws bytes (scan_while byte_ws bytes i + 1)" bare_value_byte bytes]
    scan_while_ge[of "scan_while byte_ws bytes (scan_while byte_ws bytes i + 1) + 1"
      "\<lambda>c. c \<noteq> bytes ! scan_while byte_ws bytes (scan_while byte_ws bytes i + 1)" bytes]
  by (auto simp: svelte_read_attr_value_def Let_def dest!: find_brace_close_bounds split: option.split)

lemma svelte_read_attr_value_le:
  assumes "i \<le> length bytes"
  shows "snd (svelte_read_attr_value bytes i) \<le> length bytes"
proof -
  let ?j = "scan_while byte_ws bytes i" let ?k = "scan_while byte_ws bytes (?j + 1)"
  have k: "?j < length bytes \<Longrightarrow> ?k \<le> length bytes" by (rule scan_while_le) simp
  have e: "?k < length bytes \<Longrightarrow> scan_while P bytes (?k + 1) \<le> length bytes" for P by (rule scan_while_le) simp
  have f: "?k < length bytes \<Longrightarrow> scan_while P bytes ?k \<le> length bytes" for P by (rule scan_while_le) simp
  show ?thesis unfolding svelte_read_attr_value_def Let_def
    using assms k e[of "\<lambda>c. c \<noteq> bytes ! ?k"] f[of bare_value_byte]
    by (auto simp: not_le dest!: find_brace_close_bounds split: option.split)
qed

function svelte_walk_attributes :: "expr_parser \<Rightarrow> string \<Rightarrow> nat \<Rightarrow> nat \<Rightarrow> TemplateRef list \<Rightarrow> nat \<times> TemplateRef list" where
  "svelte_walk_attributes idents bytes base_offset i out =
    (if length bytes \<le> i then (length bytes, out)
     else if byte_ws (bytes ! i) then svelte_walk_attributes idents bytes base_offset (i + 1) out
     else if bytes ! i = CHR ''>'' then (i + 1, out)
     else if bytes ! i = CHR ''/'' \<and> i + 1 < length bytes \<and> bytes ! (i + 1) = CHR ''>'' then (i + 2, out)
     else let e = scan_while (\<lambda>c. \<not> name_end_byte c) bytes i in
       if e = i then svelte_walk_attributes idents bytes base_offset (i + 1) out
       else svelte_walk_attributes idents bytes base_offset (snd (svelte_read_attr_value bytes e))
              (out @ svelte_attr_refs idents base_offset (substr bytes i e) (fst (svelte_read_attr_value bytes e))))"
  by pat_completeness auto
termination
proof (relation "measure (\<lambda>(_, bytes, _, i, _). length bytes - i)", goal_cases)
  case (4 idents bytes base i out e)
  then have "i < e" using scan_while_ge[of i "\<lambda>c. \<not> name_end_byte c" bytes] by simp
  then show ?case using 4(1) svelte_read_attr_value_ge[of e bytes] by simp
qed auto

declare svelte_walk_attributes.simps [simp del]

interpretation svelte: attribute_walker bytes "svelte_read_attr_value bytes" "svelte_attr_refs idents base" "svelte_walk_attributes idents bytes base"
  for idents bytes base
  by unfold_locales (rule svelte_read_attr_value_ge, erule svelte_read_attr_value_le, rule svelte_walk_attributes.simps)

section \<open>Blocks\<close>

text \<open>The text of a block marker: the keyword behind its first byte, the rest, and the position of the rest.\<close>

definition marker_parts :: "string \<Rightarrow> nat \<Rightarrow> nat \<Rightarrow> string \<times> string \<times> nat" where
  "marker_parts bytes after_brace e =
    (let after_marker = drop 1 (substr bytes after_brace e);
         kw_end = length (takeWhile (\<lambda>c. \<not> byte_ws c) after_marker)
     in (take kw_end after_marker, trim_start (drop kw_end after_marker),
         after_brace + 1 + kw_end + count_leading_ws (drop kw_end after_marker)))"

definition consume_block_marker :: "expr_parser \<Rightarrow> string \<Rightarrow> nat \<Rightarrow> nat \<Rightarrow> nat \<times> TemplateRef list" where
  "consume_block_marker idents bytes after_brace base_offset =
    (case find_brace_close bytes after_brace of
       None \<Rightarrow> (length bytes, [])
     | Some e \<Rightarrow>
         (case marker_parts bytes after_brace e of
            (keyword, rest, rest_offset) \<Rightarrow>
              (e + 1,
               if keyword = ''if'' \<and> rest \<noteq> []
               then extract_identifiers_from_expression idents rest (base_offset + rest_offset) Directive
               else if keyword = ''else''
               then (case strip_prefix ''if '' rest of
                   None \<Rightarrow> []
                 | Some s \<Rightarrow> let after_if = trim_start s; inner_offset = length rest - length after_if
                     in extract_identifiers_from_expression idents after_if (base_offset + rest_offset + inner_offset) Directive)
               else if keyword = ''await''
               then extract_identifiers_from_expression idents (strip_then_or_catch rest) (base_offset + rest_offset) Directive
               else if keyword = ''each''
               then let iterable = fst (split_each_clause rest);
                        inner_offset = (case find_str iterable rest of Some p \<Rightarrow> p | None \<Rightarrow> 0)
                    in extract_identifiers_from_expression idents iterable (base_offset + rest_offset + inner_offset) Directive
               else if keyword = ''key''
               then extract_identifiers_from_expression idents rest (base_offset + rest_offset) Directive
               else [])))"

definition consume_at_block :: "expr_parser \<Rightarrow> string \<Rightarrow> nat \<Rightarrow> nat \<Rightarrow> nat \<times> TemplateRef list" where
  "consume_at_block idents bytes after_brace base_offset =
    (case find_brace_close bytes after_brace of
       None \<Rightarrow> (length bytes, [])
     | Some e \<Rightarrow>
         (case marker_parts bytes after_brace e of
            (keyword, rest, rest_offset) \<Rightarrow>
              (e + 1,
               if keyword = ''html'' \<or> keyword = ''render''
               then extract_identifiers_from_expression idents rest (base_offset + rest_offset) Interpolation
               else if keyword = ''const''
               then (case find_str ''='' rest of
                   None \<Rightarrow> []
                 | Some eq_pos \<Rightarrow>
                     let expr = trim_start (drop (eq_pos + 1) rest);
                         expr_offset = rest_offset + eq_pos + 1 + count_leading_ws (drop (eq_pos + 1) rest)
                     in extract_identifiers_from_expression idents expr (base_offset + expr_offset) Interpolation)
               else [])))"

section \<open>The walk\<close>

definition svelte_tag :: "expr_parser \<Rightarrow> string \<Rightarrow> nat \<Rightarrow> nat \<Rightarrow> nat \<times> TemplateRef list" where
  "svelte_tag idents bytes base_offset i =
    (let after = i + 1 in
     if after < length bytes \<and> bytes ! after = CHR ''/''
     then ((case find_after bytes after (CHR ''>'') of Some j \<Rightarrow> j | None \<Rightarrow> length bytes), [])
     else if after < length bytes \<and> byte_alpha (bytes ! after)
     then let name_end = read_tag_name bytes after; tag_name = substr bytes after name_end;
              out = (if is_component_ref_tag tag_name
                then [\<lparr> tr_name = tag_name, tr_attribute = ComponentRef, tr_byte_offset = base_offset + after \<rparr>] else [])
          in svelte_walk_attributes idents bytes base_offset name_end out
     else (i + 1, []))"

definition svelte_brace :: "expr_parser \<Rightarrow> string \<Rightarrow> nat \<Rightarrow> nat \<Rightarrow> nat \<times> TemplateRef list" where
  "svelte_brace idents bytes base_offset i =
    (let after = i + 1 in
     if after < length bytes \<and> bytes ! after = CHR ''/''
     then ((case find_brace_close bytes after of Some e \<Rightarrow> e + 1 | None \<Rightarrow> length bytes), [])
     else if after < length bytes \<and> (bytes ! after = CHR ''#'' \<or> bytes ! after = CHR '':'')
     then consume_block_marker idents bytes after base_offset
     else if after < length bytes \<and> bytes ! after = CHR ''@'' then consume_at_block idents bytes after base_offset
     else (case find_brace_close bytes after of
         Some e \<Rightarrow> (e + 1, extract_identifiers_from_expression idents (substr bytes after e) (base_offset + after) Interpolation)
       | None \<Rightarrow> (i + 1, [])))"

definition svelte_turn :: "expr_parser \<Rightarrow> string \<Rightarrow> nat \<Rightarrow> nat \<Rightarrow> nat \<times> TemplateRef list" where
  "svelte_turn idents bytes base_offset i =
    (if starts_with bytes i ''<!--'' then (skip_comment bytes (i + 4), [])
     else if bytes ! i = CHR ''<'' then svelte_tag idents bytes base_offset i
     else if bytes ! i = CHR ''{'' then svelte_brace idents bytes base_offset i
     else (i + 1, []))"

lemma svelte_turn_ge: "i < length bytes \<Longrightarrow> i < fst (svelte_turn idents bytes base i)"
proof -
  assume i: "i < length bytes"
  have n: "i + 1 \<le> read_tag_name bytes (i + 1)" "read_tag_name bytes (i + 1) \<le> length bytes"
    using scan_while_ge[of "i + 1" name_byte bytes] scan_while_le[of "i + 1" bytes name_byte] i by (auto simp: read_tag_name_def)
  have w: "i < fst (svelte_walk_attributes idents bytes base (read_tag_name bytes (i + 1)) out)" for out
    using svelte.walk_bounds[OF n(2), of idents base out] n(1) by simp
  show ?thesis
    using i w skip_comment_bounds[of "i + 4" bytes]
    by (auto simp: svelte_turn_def svelte_tag_def svelte_brace_def consume_block_marker_def consume_at_block_def Let_def starts_with_def
        dest!: find_after_spec find_brace_close_bounds split: option.split prod.split)
qed

function svelte_loop :: "expr_parser \<Rightarrow> string \<Rightarrow> nat \<Rightarrow> nat \<Rightarrow> TemplateRef list" where
  "svelte_loop idents bytes base_offset i =
    (if length bytes \<le> i then []
     else snd (svelte_turn idents bytes base_offset i) @
       svelte_loop idents bytes base_offset (fst (svelte_turn idents bytes base_offset i)))"
  by pat_completeness auto
termination
proof (relation "measure (\<lambda>(_, bytes, _, i). length bytes - i)", goal_cases)
  case (2 idents bytes base i)
  then show ?case using svelte_turn_ge[of i bytes idents base] by auto
qed simp

declare svelte_loop.simps [simp del]

definition svelte_parse :: "expr_parser \<Rightarrow> string \<Rightarrow> nat \<Rightarrow> TemplateRef list" where
  "svelte_parse idents template_src base_offset = svelte_loop idents template_src base_offset 0"

section \<open>Positions\<close>

text \<open>
  The parser trims with \<^verbatim>\<open>str::trim_start\<close> but counts what it trimmed with \<^verbatim>\<open>is_ascii_whitespace\<close>; the two
  agree on ASCII text without a vertical tab.
\<close>

definition ascii_text :: "string \<Rightarrow> bool" where
  "ascii_text s \<longleftrightarrow> (\<forall>c\<in>set s. of_char c < (128 :: nat) \<and> c \<noteq> CHR 0x0B)"

lemma ascii_text_parts [simp]:
  "ascii_text s \<Longrightarrow> ascii_text (drop n s)" "ascii_text s \<Longrightarrow> ascii_text (take n s)" "ascii_text s \<Longrightarrow> ascii_text (substr s a b)"
  by (auto simp: ascii_text_def substr_def dest: in_set_dropD in_set_takeD)

lemma ws_len_Nil: "ws_len [] = 0"
  by (simp add: ws_len_def WHITE_SPACE_def)

lemma ascii_ws_len:
  assumes "ascii_text (c # s)"
  shows "ws_len (c # s) = (if byte_ws c then 1 else 0)"
proof (cases "byte_ws c")
  case True
  then have "c \<in> {CHR 0x20, CHR 0x09, CHR 0x0A, CHR 0x0C, CHR 0x0D}" by (simp only: byte_ws_def)
  then have "ws_len (c # s) = 1" unfolding ws_len_def WHITE_SPACE_def by (elim insertE emptyE) simp_all
  then show ?thesis using True by simp
next
  case False
  have "\<not> prefix p (c # s)" if "p \<in> set WHITE_SPACE" for p
  proof
    assume "prefix p (c # s)"
    then have "hd p = c" using white_nonempty[OF that] by (auto simp: prefix_Cons)
    moreover have "byte_ws (hd p) \<or> hd p = CHR 0x0B \<or> 128 \<le> (of_char (hd p) :: nat)" using that by (auto simp: WHITE_SPACE_def byte_ws_def)
    ultimately show False using False assms by (auto simp: ascii_text_def)
  qed
  then show ?thesis using False ws_len_cases[of "c # s"] by auto
qed

lemma trim_start_ascii: "ascii_text s \<Longrightarrow> trim_start s = drop (count_leading_ws s) s"
proof (induction s)
  case Nil
  then show ?case using ws_len_Nil by (subst trim_start.simps) (simp add: count_leading_ws_def)
next
  case (Cons c s)
  then have s: "ascii_text s" by (simp add: ascii_text_def)
  show ?case
  proof (cases "byte_ws c")
    case True
    then have "trim_start (c # s) = trim_start s" using ascii_ws_len[OF Cons.prems] by (subst trim_start.simps) simp
    then show ?thesis using True Cons.IH[OF s] by (simp add: count_leading_ws_def)
  next
    case False
    then have "trim_start (c # s) = c # s" using ascii_ws_len[OF Cons.prems] by (subst trim_start.simps) simp
    then show ?thesis using False by (simp add: count_leading_ws_def)
  qed
qed

lemma trim_start_drop: "trim_start s = drop (length s - length (trim_start s)) s"
  using trim_start_split[of s] by (metis add_diff_cancel_right' append_eq_conv_conj length_append)

lemma ws_len_trim: "ws_len (trim_start s) = 0"
proof (induction s rule: trim_start.induct)
  case (1 s)
  then show ?case by (cases "ws_len s = 0") (simp_all add: trim_start.simps[of s])
qed

lemma ws_len_take: "ws_len s = 0 \<Longrightarrow> ws_len (take n s) = 0"
proof -
  assume z: "ws_len s = 0"
  have "\<not> prefix p (take n s)" if p_in: "p \<in> set WHITE_SPACE" for p
  proof
    assume "prefix p (take n s)"
    then have p: "prefix p s" using take_is_prefix[of n s] by (rule prefix_order.trans)
    then obtain q where q: "find (\<lambda>p. prefix p s) WHITE_SPACE = Some q" using p_in find_None_set[of "\<lambda>p. prefix p s" WHITE_SPACE] by (cases "find (\<lambda>p. prefix p s) WHITE_SPACE") auto
    then have "length q = 0" "q \<in> set WHITE_SPACE" using z find_Some_set[OF q] by (simp_all add: ws_len_def)
    then show False using white_nonempty by simp
  qed
  then show ?thesis by (auto simp: ws_len_def dest!: find_Some_set split: option.splits)
qed

lemma str_trim_prefix: "ws_len s = 0 \<Longrightarrow> prefix (str_trim s) s"
  using trim_end_split[of s] by (auto simp: str_trim_def trim_start.simps[of s] prefix_def)

lemma prefix_take_eq: "prefix t s \<Longrightarrow> \<exists>n. t = take n s"
  by (metis append_eq_conv_conj prefix_def)

lemma strip_then_prefix:
  assumes "ws_len s = 0"
  shows "prefix (strip_then_or_catch s) s"
proof -
  obtain n where n: "str_trim s = take n s" using prefix_take_eq[OF str_trim_prefix[OF assms]] by blast
  have "prefix (str_trim (take k (str_trim s))) s" for k
    unfolding n take_take using str_trim_prefix[OF ws_len_take[OF assms]] take_is_prefix by (rule prefix_order.trans)
  then show ?thesis using str_trim_prefix[OF assms] by (auto simp: strip_then_or_catch_def Let_def split: option.split)
qed

definition part_of :: "string \<Rightarrow> string \<Rightarrow> bool" where
  "part_of t s \<longleftrightarrow> (\<exists>a b. s = a @ t @ b)"

lemma part_of_trans: "part_of t u \<Longrightarrow> part_of u s \<Longrightarrow> part_of t s"
  unfolding part_of_def by (metis append_assoc)

lemma part_of_intros: "part_of s s" "part_of (str_trim s) s" "part_of (take n s) s" "part_of (trim_end s) s"
proof -
  show "part_of s s" by (simp add: part_of_def) (metis append_Nil append_Nil2)
  show "part_of (str_trim s) s" using str_trim_split[of s] by (auto simp: part_of_def)
  show "part_of (take n s) s" unfolding part_of_def by (rule exI[of _ "[]"], rule exI[of _ "drop n s"]) simp
  show "part_of (trim_end s) s" using trim_end_split[of s] unfolding part_of_def by (metis append_Nil)
qed

lemma strip_paren_part: "part_of (fst (strip_trailing_paren s)) s"
proof (cases "strip_suffix '')'' (trim_end s)")
  case (Some t)
  then have "part_of t (trim_end s)" by (auto simp: strip_suffix_Some part_of_def intro: exI[of _ "[]"])
  from part_of_trans[OF part_of_trans[OF part_of_intros(3) this] part_of_intros(4)] have "part_of (take i t) s" for i .
  then show ?thesis using Some part_of_intros(1) by (auto simp: strip_trailing_paren_def split: option.split)
qed (simp add: strip_trailing_paren_def part_of_intros)

lemma split_each_part: "part_of (fst (split_each_clause s)) s"
proof -
  let ?h = "str_trim (fst (strip_trailing_paren (str_trim s)))"
  have h: "part_of ?h s"
    by (rule part_of_trans[OF part_of_intros(2) part_of_trans[OF strip_paren_part part_of_intros(2)]])
  then have "part_of (str_trim (take k ?h)) s" for k
    by (rule part_of_trans[OF part_of_trans[OF part_of_intros(2) part_of_intros(3)]])
  then show ?thesis using h by (auto simp: split_each_clause_def Let_def split: option.split)
qed

lemma part_of_found: "part_of t s \<Longrightarrow> \<exists>k. find_str t s = Some k \<and> prefix t (drop k s)"
  using find_str_sublist find_str_Some by (metis part_of_def)

lemma marker_parts_ok:
  assumes "ascii_text bytes" "marker_parts bytes a e = (keyword, rest, off)"
  shows "prefix rest (drop off bytes) \<and> ws_len rest = 0 \<and> ascii_text rest"
proof -
  let ?m = "drop 1 (substr bytes a e)" let ?k = "length (takeWhile (\<lambda>c. \<not> byte_ws c) ?m)"
  have am: "ascii_text (drop ?k ?m)" using assms(1) by simp
  have r: "rest = trim_start (drop ?k ?m)" "off = a + 1 + ?k + count_leading_ws (drop ?k ?m)"
    using assms(2) by (auto simp: marker_parts_def Let_def)
  have "rest = drop (count_leading_ws (drop ?k ?m)) (drop ?k ?m)" using trim_start_ascii[OF am] r(1) by simp
  then have e: "rest = drop (count_leading_ws (drop ?k ?m) + (?k + 1)) (substr bytes a e)" by (simp only: drop_drop)
  have "prefix rest (drop (count_leading_ws (drop ?k ?m) + (?k + 1)) (substr bytes a e))" unfolding e by (rule prefix_order.refl)
  from prefix_drop_trans[OF this prefix_substr] have "prefix rest (drop off bytes)" unfolding r(2) by (simp only: ac_simps)
  moreover have "ascii_text rest" unfolding e using assms(1) by (intro ascii_text_parts)
  moreover have "ws_len rest = 0" unfolding r(1) by (rule ws_len_trim)
  ultimately show ?thesis by blast
qed

lemma block_marker_refs:
  assumes "ascii_text bytes" "spans_ok idents"
  shows "refs_ok bytes base (snd (consume_block_marker idents bytes a base))"
proof (cases "find_brace_close bytes a")
  case (Some e)
  obtain keyword rest off where m: "marker_parts bytes a e = (keyword, rest, off)" by (cases "marker_parts bytes a e") auto
  note ok = marker_parts_ok[OF assms(1) m]
  have whole: "refs_ok bytes base (extract_identifiers_from_expression idents rest (base + off) at)" for "at"
    by (rule extract_refs_ok[OF assms(2)]) (use ok in simp)
  have inner: "refs_ok bytes base (extract_identifiers_from_expression idents t (base + off + k) at)" if "prefix t (drop k rest)" for t k "at"
    using extract_refs_ok[OF assms(2) prefix_drop_trans[OF that ok[THEN conjunct1]], of base] by (simp add: add.assoc)
  obtain k where k: "find_str (fst (split_each_clause rest)) rest = Some k" "prefix (fst (split_each_clause rest)) (drop k rest)"
    using part_of_found[OF split_each_part] by blast
  have "prefix (trim_start s) (drop (length rest - length (trim_start s)) rest)" if "strip_prefix ''if '' rest = Some s" for s
  proof -
    have "rest = ''if '' @ s" using that by (simp only: strip_prefix_Some)
    then have "drop (length rest - length (trim_start s)) rest = trim_start s"
      using trim_start_split[of s] by (metis append_assoc append_eq_conv_conj add_diff_cancel_right' length_append)
    then show ?thesis by simp
  qed
  moreover have "prefix (strip_then_or_catch rest) (drop 0 rest)" using strip_then_prefix ok by simp
  ultimately show ?thesis
    using Some m whole inner[OF k(2)] k(1) inner[of "strip_then_or_catch rest" 0] inner
    by (simp add: consume_block_marker_def Let_def split: option.split)
qed (simp add: consume_block_marker_def)

lemma at_block_refs:
  assumes "ascii_text bytes" "spans_ok idents"
  shows "refs_ok bytes base (snd (consume_at_block idents bytes a base))"
proof (cases "find_brace_close bytes a")
  case (Some e)
  obtain keyword rest off where m: "marker_parts bytes a e = (keyword, rest, off)" by (cases "marker_parts bytes a e") auto
  note ok = marker_parts_ok[OF assms(1) m]
  have whole: "refs_ok bytes base (extract_identifiers_from_expression idents rest (base + off) at)" for "at"
    by (rule extract_refs_ok[OF assms(2)]) (use ok in simp)
  have "refs_ok bytes base (extract_identifiers_from_expression idents (trim_start (drop (k + 1) rest))
      (base + (off + k + 1 + count_leading_ws (drop (k + 1) rest))) at)" for k "at"
  proof -
    have "trim_start (drop (k + 1) rest) = drop (k + 1 + count_leading_ws (drop (k + 1) rest)) rest"
      using ok by (subst trim_start_ascii) (simp_all add: add.commute)
    then have "prefix (trim_start (drop (k + 1) rest)) (drop (k + 1 + count_leading_ws (drop (k + 1) rest)) rest)" by simp
    from extract_refs_ok[OF assms(2) prefix_drop_trans[OF this ok[THEN conjunct1]], of base] show ?thesis by (simp add: add.assoc)
  qed
  then show ?thesis using Some m whole by (auto simp: consume_at_block_def Let_def split: option.split)
qed (simp add: consume_at_block_def)

lemma svelte_attr_refs_ok: "spans_ok idents \<Longrightarrow> refs_ok bytes base (svelte_attr_refs idents base name (fst (svelte_read_attr_value bytes e)))"
  by (auto simp: svelte_attr_refs_def svelte_read_attr_value_def Let_def intro!: extract_substr_refs split: option.split)

lemma svelte_turn_refs:
  assumes s: "spans_ok idents" and i: "i < length bytes" and a: "ascii_text bytes"
  shows "refs_ok bytes base (snd (svelte_turn idents bytes base i))"
proof -
  have n: "read_tag_name bytes (i + 1) \<le> length bytes" using scan_while_le[of "i + 1" bytes name_byte] i by (simp add: read_tag_name_def)
  have "refs_ok bytes base (snd (svelte_walk_attributes idents bytes base (read_tag_name bytes (i + 1)) out))" if "refs_ok bytes base out" for out
    using svelte.walk_refs[OF svelte_attr_refs_ok[OF s] n that] .
  moreover have "refs_ok bytes base (extract_identifiers_from_expression idents (substr bytes (Suc i) e) (Suc (base + i)) Interpolation)" for e
    using extract_refs_ok[OF s prefix_substr[of bytes "Suc i" e], of base] by simp
  ultimately show ?thesis
    using block_marker_refs[OF a s, of base "Suc i"] at_block_refs[OF a s, of base "Suc i"]
    by (auto simp: svelte_turn_def svelte_tag_def svelte_brace_def Let_def names_at_def split: option.split)
qed

text \<open>
  In an ASCII file without vertical tabs every reference the parser finds in a Svelte region points at
  an occurrence of its name, provided the spans of the expression parser are right.
\<close>

theorem svelte_refs_point_at_names:
  assumes "spans_ok idents" "ascii_text content" "t = substr content start e" "r \<in> set (svelte_parse idents t start)"
  shows "start \<le> tr_byte_offset r \<and> prefix (tr_name r) (drop (tr_byte_offset r) content)"
proof -
  have "refs_ok bytes base (svelte_loop idents bytes base i)" if "ascii_text bytes" for bytes base i
    using assms(1) that
  proof (induction idents bytes base i rule: svelte_loop.induct)
    case (1 idents bytes base i)
    then show ?case using svelte_turn_refs[of idents i bytes base] by (subst svelte_loop.simps) simp
  qed
  then have "refs_ok t start (svelte_loop idents t start 0)" using assms(2,3) by simp
  then have r: "start \<le> tr_byte_offset r" "prefix (tr_name r) (drop (tr_byte_offset r - start) t)"
    using assms(4) by (auto simp: svelte_parse_def refs_ok_def names_at_def)
  moreover have "prefix t (drop start content)" using assms(3) by simp
  ultimately have "prefix (tr_name r) (drop (start + (tr_byte_offset r - start)) content)" by (intro prefix_drop_trans)
  then show ?thesis using r(1) by simp
qed

theorem svelte_refs_point_at_names_witness:
  "map (\<lambda>r. (tr_name r, tr_byte_offset r)) (svelte_parse word_parser (substr ''-{#if f}'' 1 8) 1) = [(''f'', 6)] \<and>
   prefix ''f'' (drop 6 ''-{#if f}'')"
proof -
  let ?c = "''-{#if f}''" let ?rs = "svelte_parse word_parser (substr ?c 1 8) 1"
  have m: "map (\<lambda>r. (tr_name r, tr_byte_offset r)) ?rs = [(''f'', 6)]" by code_simp
  then obtain r where "?rs = [r]" "tr_name r = ''f''" "tr_byte_offset r = 6" by (auto simp: map_eq_Cons_conv)
  moreover have "ascii_text ?c" by (simp add: ascii_text_def)
  ultimately show ?thesis using svelte_refs_point_at_names[OF word_parser_spans _ refl, of ?c r 1 8] m by simp
qed

end
