(* ===== verification/Workspace_Provider.thy ===== *)
theory Workspace_Provider
  imports Template_Vue Template_Svelte Filters
begin

text \<open>
  The provider the program runs with (\<^verbatim>\<open>standardoc-lang-provider/src/workspace.rs\<close>): dispatch by extension, the
  script payload and the template references of single-file components, the builtins to seed; and the
  position arithmetic of \<^verbatim>\<open>utils/location.rs\<close>.  The providers of the single languages and the expression
  parser are arguments.
\<close>

section \<open>Positions\<close>

text \<open>The UTF-16 length of a UTF-8 text: one unit for each character, two for those of four bytes.\<close>

definition utf16_units :: "string \<Rightarrow> nat" where
  "utf16_units s = length (filter (\<lambda>c. \<not> utf8_continuation c) s) + length (filter (\<lambda>c. 240 \<le> (of_char c :: nat)) s)"

definition utf16_len :: "string \<Rightarrow> 32 word" where
  "utf16_len s = try_u32 (utf16_units s)"

definition is_char_boundary :: "string \<Rightarrow> nat \<Rightarrow> bool" where
  "is_char_boundary s i \<longleftrightarrow> i = 0 \<or> i = length s \<or> (i < length s \<and> \<not> utf8_continuation (s ! i))"

fun snap_down :: "string \<Rightarrow> nat \<Rightarrow> nat" where
  "snap_down s 0 = 0"
| "snap_down s (Suc i) = (if is_char_boundary s (Suc i) then Suc i else snap_down s i)"

definition utf16_col :: "string \<Rightarrow> nat \<Rightarrow> 32 word" where
  "utf16_col line byte_offset = utf16_len (take (snap_down line (min byte_offset (length line))) line)"

definition line_start :: "string \<Rightarrow> nat" where
  "line_start s = length s - length (takeWhile (\<lambda>c. c \<noteq> NL) (rev s))"

definition line_and_utf16_col :: "string \<Rightarrow> nat \<Rightarrow> 32 word \<times> 32 word" where
  "line_and_utf16_col content byte_offset =
    (let e = snap_down content (min byte_offset (length content)); before = take e content
     in (try_u32 (count_list before NL + 1), utf16_len (substr content (line_start before) e)))"

definition content_extent :: "string \<Rightarrow> 32 word \<times> 32 word" where
  "content_extent content =
    (if content = [] then (1, 0)
     else (try_u32 (length (str_lines content)),
           if str_lines content = [] then 0 else utf16_len (last (str_lines content))))"

definition file_span :: "string \<Rightarrow> string \<Rightarrow> SymbolLocation" where
  "file_span path content =
    (case content_extent content of
       (end_line, end_col) \<Rightarrow> \<lparr> loc_file = path, loc_start_line = 1, loc_end_line = end_line, loc_start_col = 0, loc_end_col = end_col \<rparr>)"

section \<open>Dispatch\<close>

datatype Framework = FwVue | FwSvelte

fun ir_language :: "Framework \<Rightarrow> Language" where
  "ir_language FwVue = Language.Vue"
| "ir_language FwSvelte = Language.Svelte"

fun default_lang :: "Framework \<Rightarrow> string" where
  "default_lang FwVue = ''ts''"
| "default_lang FwSvelte = ''js''"

datatype Dispatch = ToRust | ToTypeScript | ToLua | ToC | ToVue | ToSvelte

definition dispatch_for :: "string \<Rightarrow> Dispatch option" where
  "dispatch_for path =
    (case path_extension (rel_components path) of
       None \<Rightarrow> None
     | Some ext \<Rightarrow>
         if ext = ''rs'' then Some ToRust
         else if ext \<in> {''ts'', ''tsx'', ''js'', ''jsx''} then Some ToTypeScript
         else if ext = ''lua'' then Some ToLua
         else if ext \<in> {''c'', ''h''} then Some ToC
         else if ext = ''vue'' then Some ToVue
         else if ext = ''svelte'' then Some ToSvelte
         else None)"

text \<open>The syntax of the script parser: TypeScript with or without JSX, JavaScript with or without.\<close>

datatype Syntax = Typescript bool | Es bool

definition lang_to_syntax :: "string \<Rightarrow> Syntax" where
  "lang_to_syntax lang =
    (if lang = ''ts'' \<or> lang = ''typescript'' then Typescript False
     else if lang = ''tsx'' then Typescript True
     else if lang = ''jsx'' then Es True
     else Es False)"

section \<open>The script payload\<close>

definition push_script :: "string \<Rightarrow> SfcBlock \<Rightarrow> string \<Rightarrow> string" where
  "push_script content script payload =
    pad_until_byte_offset payload (sb_content_start script) content @ substr content (sb_content_start script) (sb_content_end script)"

definition build_script_payload :: "string \<Rightarrow> SfcDocument \<Rightarrow> Framework \<Rightarrow> string \<times> Syntax" where
  "build_script_payload content doc framework =
    (let scripts = sort_key is_script_setup (sd_scripts doc);
         payload = fold (push_script content) scripts [];
         lang = (case List.map_filter sb_lang scripts of l # _ \<Rightarrow> l | [] \<Rightarrow> default_lang framework)
     in (payload, lang_to_syntax lang))"

section \<open>Template references\<close>

fun outer_start_loop :: "string \<Rightarrow> nat \<Rightarrow> nat" where
  "outer_start_loop bytes 0 = 0"
| "outer_start_loop bytes (Suc i) = (if bytes ! Suc i = CHR ''<'' then Suc i else outer_start_loop bytes i)"

definition block_outer_start :: "string \<Rightarrow> nat \<Rightarrow> nat" where
  "block_outer_start content content_start = outer_start_loop content (content_start - 1)"

definition block_outer_end :: "string \<Rightarrow> nat \<Rightarrow> nat" where
  "block_outer_end content content_end =
    (let i = scan_while (\<lambda>c. c \<noteq> CHR ''>'') content content_end in if i < length content then i + 1 else length content)"

fun carve :: "nat \<Rightarrow> (nat \<times> nat) list \<Rightarrow> nat \<Rightarrow> (nat \<times> nat) list" where
  "carve cursor [] len = (if cursor < len then [(cursor, len)] else [])"
| "carve cursor ((s, e) # blocked) len = (if cursor < s then [(cursor, s)] else []) @ carve e blocked len"

definition svelte_template_regions :: "string \<Rightarrow> SfcDocument \<Rightarrow> (nat \<times> nat) list" where
  "svelte_template_regions content doc =
    carve 0 (sort_key fst (map (\<lambda>b. (block_outer_start content (sb_content_start b), block_outer_end content (sb_content_end b)))
      (sd_scripts doc @ sd_styles doc))) (length content)"

definition collect_template_refs :: "expr_parser \<Rightarrow> string \<Rightarrow> SfcDocument \<Rightarrow> Framework \<Rightarrow> TemplateRef list" where
  "collect_template_refs idents content doc framework =
    (case framework of
       FwVue \<Rightarrow> (case sd_template doc of
           None \<Rightarrow> []
         | Some t \<Rightarrow> vue_parse idents (substr content (sb_content_start t) (sb_content_end t)) (sb_content_start t))
     | FwSvelte \<Rightarrow> concat (map (\<lambda>(s, e). svelte_parse idents (substr content s e) s) (svelte_template_regions content doc)))"

definition template_ref_to_edge :: "TemplateRef \<Rightarrow> string \<Rightarrow> string \<Rightarrow> string \<Rightarrow> RawEdge" where
  "template_ref_to_edge r content path module_fqdn =
    (case line_and_utf16_col content (tr_byte_offset r) of
       (line, col) \<Rightarrow>
         let to = ResolvedOrUnresolved.Unresolved (tr_name r) in
         \<lparr> re_from_fqdn = module_fqdn, re_kind = EdgeKind.References, re_to = to,
           re_sites = [\<lparr> site_file = path, site_line = line, site_col = col \<rparr>],
           re_attributes = [template_attribute_as_str (tr_attribute r)], re_confidence = default_confidence to, re_receiver_type = None \<rparr>)"

section \<open>The provider\<close>

text \<open>
  The providers of the languages.  That of Rust has state: the workspace its \<^verbatim>\<open>workspace_prepare\<close> was last
  called with, or \<^verbatim>\<open>None\<close> when it never was.
\<close>

record language_providers =
  lp_rust :: "string list option \<Rightarrow> string list \<Rightarrow> answers option \<Rightarrow> string \<Rightarrow> string \<Rightarrow> ExtractError + ExtractedFile"
  lp_ts :: "Syntax option \<Rightarrow> Language option \<Rightarrow> string list \<Rightarrow> answers option \<Rightarrow> string \<Rightarrow> string \<Rightarrow> ExtractError + ExtractedFile"
  lp_lua :: "string list \<Rightarrow> answers option \<Rightarrow> string \<Rightarrow> string \<Rightarrow> ExtractError + ExtractedFile"
  lp_c :: "string list \<Rightarrow> answers option \<Rightarrow> string \<Rightarrow> string \<Rightarrow> ExtractError + ExtractedFile"
  lp_idents :: expr_parser

definition add_template_refs :: "expr_parser \<Rightarrow> string \<Rightarrow> string \<Rightarrow> SfcDocument \<Rightarrow> Framework \<Rightarrow> ExtractedFile \<Rightarrow> ExtractedFile" where
  "add_template_refs idents content path doc framework extracted =
    (let module_fqdn = (case ef_symbols extracted of s # _ \<Rightarrow> rs_fqdn s | [] \<Rightarrow> [])
     in extracted\<lparr>ef_edges := ef_edges extracted @
          map (\<lambda>r. template_ref_to_edge r content path module_fqdn) (collect_template_refs idents content doc framework)\<rparr>)"

definition extract_sfc ::
  "language_providers \<Rightarrow> Framework \<Rightarrow> string list \<Rightarrow> answers option \<Rightarrow> string \<Rightarrow> string \<Rightarrow> ExtractError + ExtractedFile" where
  "extract_sfc L framework root cross content path =
    (let doc = extract_blocks content in
     case build_script_payload content doc framework of
       (script_payload, syntax) \<Rightarrow>
         (case lp_ts L (Some syntax) (Some (ir_language framework)) root cross script_payload path of
            Inl e \<Rightarrow> Inl e
          | Inr extracted \<Rightarrow> Inr (add_template_refs (lp_idents L) content path doc framework extracted)))"

text \<open>
  The trait method \<^verbatim>\<open>workspace_prepare\<close> is not overridden, so the call of the pipeline reaches the default,
  which does nothing: the Rust provider is never prepared.
\<close>

definition workspace_extract ::
  "language_providers \<Rightarrow> string list \<Rightarrow> string list \<Rightarrow> answers option \<Rightarrow> string \<Rightarrow> string \<Rightarrow> ExtractError + ExtractedFile" where
  "workspace_extract L prepared root cross content path =
    (case dispatch_for path of
       Some ToRust \<Rightarrow> lp_rust L None root cross content path
     | Some ToTypeScript \<Rightarrow> lp_ts L None None root cross content path
     | Some ToLua \<Rightarrow> lp_lua L root cross content path
     | Some ToC \<Rightarrow> lp_c L root cross content path
     | Some ToVue \<Rightarrow> extract_sfc L FwVue root cross content path
     | Some ToSvelte \<Rightarrow> extract_sfc L FwSvelte root cross content path
     | None \<Rightarrow> Inl UnsupportedLanguage)"

definition keep_builtin :: "BuiltinEntry \<Rightarrow> bool" where
  "keep_builtin e \<longleftrightarrow> be_tier e = Edge \<or> be_tier e = Drop \<and> be_tag e = Reflection"

text \<open>The registry is a hash map; the order of its languages is an argument.\<close>

definition edge_builtins :: "Language list \<Rightarrow> BuiltinRegistry \<Rightarrow> BuiltinEntry list" where
  "edge_builtins langs reg =
    concat (map (\<lambda>l. case br_by_language reg l of Some es \<Rightarrow> filter keep_builtin es | None \<Rightarrow> []) langs) @
    filter keep_builtin (br_user_extensions reg)"

definition edge_builtin_methods :: "Language list \<Rightarrow> BuiltinRegistry \<Rightarrow> BuiltinMethodEntry list" where
  "edge_builtin_methods langs reg =
    concat (map (\<lambda>l. case br_methods_by_language reg l of Some ms \<Rightarrow> ms | None \<Rightarrow> []) langs)"

definition workspace_provider :: "language_providers \<Rightarrow> Language list \<Rightarrow> BuiltinRegistry \<Rightarrow> provider" where
  "workspace_provider L langs reg =
    \<lparr> pv_extract = workspace_extract L, pv_edge_builtins = edge_builtins langs reg,
      pv_edge_builtin_methods = edge_builtin_methods langs reg \<rparr>"

section \<open>The payload is aligned with the file\<close>

definition fill :: "string \<Rightarrow> SfcBlock list \<Rightarrow> nat \<Rightarrow> char" where
  "fill content bs k =
    (if \<exists>b\<in>set bs. sb_content_start b \<le> k \<and> k < sb_content_end b then content ! k
     else if content ! k = NL then NL else CHR '' '')"

lemma substr_map: "b \<le> length s \<Longrightarrow> substr s a b = map ((!) s) [a..<b]"
  by (rule nth_equalityI) (auto simp: substr_def)

definition chained :: "string \<Rightarrow> SfcBlock list \<Rightarrow> bool" where
  "chained content bs \<longleftrightarrow> sorted_wrt (\<lambda>a b. sb_content_end a \<le> sb_content_start b) bs \<and>
     (\<forall>b\<in>set bs. sb_content_start b \<le> sb_content_end b \<and> sb_content_end b \<le> length content)"

lemma push_script_fill:
  assumes ch: "chained content (done' @ b # rest)" and n: "n \<le> sb_content_start b" "\<forall>x\<in>set done'. sb_content_end x \<le> n"
  shows "push_script content b (map (fill content (done' @ b # rest)) [0..<n]) = map (fill content (done' @ b # rest)) [0..<sb_content_end b]"
proof -
  let ?f = "fill content (done' @ b # rest)"
  have b: "sb_content_start b \<le> sb_content_end b" "sb_content_end b \<le> length content" and later: "\<forall>x\<in>set rest. sb_content_end b \<le> sb_content_start x"
    using ch by (auto simp: chained_def sorted_wrt_append)
  have gap: "(if content ! k = NL then NL else CHR '' '') = ?f k" if "n \<le> k" "k < sb_content_start b" for k
    using that n(2) b(1) later by (fastforce simp: fill_def)
  have body: "content ! k = ?f k" if "sb_content_start b \<le> k" "k < sb_content_end b" for k using that by (auto simp: fill_def)
  have "pad_until_byte_offset (map ?f [0..<n]) (sb_content_start b) content = map ?f [0..<sb_content_start b]"
  proof (cases "sb_content_start b \<le> n")
    case True
    then show ?thesis using n(1) by (simp add: pad_until_byte_offset_def)
  next
    case False
    then have "pad_until_byte_offset (map ?f [0..<n]) (sb_content_start b) content =
        map ?f [0..<n] @ map (\<lambda>b. if b = NL then NL else CHR '' '') (map ((!) content) [n..<sb_content_start b])"
      using b by (simp add: pad_until_byte_offset_def substr_map min_absorb1)
    also have "\<dots> = map ?f [0..<n] @ map ?f [n..<sb_content_start b]" using gap by simp
    also have "\<dots> = map ?f [0..<sb_content_start b]" using n(1) by (metis map_append upt_add_eq_append le0 le_add_diff_inverse add_0)
    finally show ?thesis .
  qed
  moreover have "substr content (sb_content_start b) (sb_content_end b) = map ?f [sb_content_start b..<sb_content_end b]"
    using b body by (simp add: substr_map)
  moreover have "[0..<sb_content_start b] @ [sb_content_start b..<sb_content_end b] = [0..<sb_content_end b]"
    using b(1) by (metis upt_add_eq_append le0 le_add_diff_inverse)
  ultimately show ?thesis by (simp add: push_script_def map_append[symmetric])
qed

lemma payload_fill:
  "chained content (done' @ bs) \<Longrightarrow> \<forall>x\<in>set done'. sb_content_end x \<le> n \<Longrightarrow> \<forall>x\<in>set bs. n \<le> sb_content_start x \<Longrightarrow>
   \<exists>m\<ge>n. (m \<le> length content \<or> m = n) \<and> fold (push_script content) bs (map (fill content (done' @ bs)) [0..<n]) = map (fill content (done' @ bs)) [0..<m]"
proof (induction bs arbitrary: done' n)
  case (Cons b bs)
  have step: "push_script content b (map (fill content (done' @ b # bs)) [0..<n]) = map (fill content ((done' @ [b]) @ bs)) [0..<sb_content_end b]"
    using push_script_fill[OF Cons.prems(1) _ Cons.prems(2)] Cons.prems(3) by simp
  have b: "n \<le> sb_content_end b" "sb_content_end b \<le> length content" "\<forall>x\<in>set (done' @ [b]). sb_content_end x \<le> sb_content_end b"
    "\<forall>x\<in>set bs. sb_content_end b \<le> sb_content_start x"
    using Cons.prems by (auto simp: chained_def sorted_wrt_append)
  obtain m where m: "sb_content_end b \<le> m" "m \<le> length content \<or> m = sb_content_end b"
      "fold (push_script content) bs (map (fill content ((done' @ [b]) @ bs)) [0..<sb_content_end b]) = map (fill content ((done' @ [b]) @ bs)) [0..<m]"
    using Cons.IH[of "done' @ [b]" "sb_content_end b"] Cons.prems(1) b(3,4) by auto
  then show ?case using step b by (intro exI[of _ m]) auto
qed auto

lemma scripts_chained: "chained content (sd_scripts (extract_blocks content))"
proof -
  obtain j where ok: "doc_ok content j (extract_blocks content)" using extract_blocks_ok by blast
  then have "sorted_wrt (\<lambda>a b. sb_content_end a \<le> sb_content_start b) (sd_scripts (extract_blocks content))"
    unfolding doc_ok_def by (elim conjE) (erule sorted_wrt_mono_rel[rotated], simp add: before_def)
  then show ?thesis using ok by (auto simp: chained_def doc_ok_def all_blocks_def good_block_def less_imp_le)
qed



section \<open>Template regions of a Svelte file\<close>

lemma outer_start_loop_le: "outer_start_loop bytes n \<le> n"
  by (induction n) auto

lemma outer_start_loop_ge: "0 < i \<Longrightarrow> i \<le> n \<Longrightarrow> bytes ! i = CHR ''<'' \<Longrightarrow> i \<le> outer_start_loop bytes n"
  by (induction n) (auto simp: le_Suc_eq)

lemma outer_end_eq: "block_outer_end content (sb_content_end b) = block_end content b"
  by (simp add: block_outer_end_def block_end_def find_after_def Let_def)

definition apart :: "nat \<times> nat \<Rightarrow> nat \<times> nat \<Rightarrow> bool" where
  "apart x y \<longleftrightarrow> snd x \<le> fst y \<or> x = y"

lemma carve_avoids:
  "sorted_wrt apart bl \<Longrightarrow> \<forall>x\<in>set bl. fst x < snd x \<and> snd x \<le> len \<and> (cursor \<le> fst x \<or> snd x = cursor) \<Longrightarrow> r \<in> set (carve cursor bl len) \<Longrightarrow>
   cursor \<le> fst r \<and> fst r < snd r \<and> snd r \<le> len \<and> (\<forall>x\<in>set bl. snd r \<le> fst x \<or> snd x \<le> fst r)"
proof (induction bl arbitrary: cursor)
  case (Cons y bl)
  obtain s e where y: "y = (s, e)" by fastforce
  have later: "e \<le> fst x \<or> x = (s, e)" if "x \<in> set bl" for x using Cons.prems(1) that by (auto simp: y apart_def)
  have c: "s < e" "e \<le> len" "cursor \<le> s \<or> cursor = e" using Cons.prems(2) by (auto simp: y)
  show ?case
  proof (cases "r \<in> set (carve e bl len)")
    case True
    have "fst x < snd x \<and> snd x \<le> len \<and> (e \<le> fst x \<or> snd x = e)" if x: "x \<in> set bl" for x
      using Cons.prems(2) later[OF x] x by auto
    then have "e \<le> fst r \<and> fst r < snd r \<and> snd r \<le> len \<and> (\<forall>x\<in>set bl. snd r \<le> fst x \<or> snd x \<le> fst r)"
      using Cons.IH[of e] Cons.prems(1) True by simp
    then show ?thesis using c by (auto simp: y)
  next
    case False
    then have "r = (cursor, s)" "cursor < s" using Cons.prems(3) by (auto simp: y split: if_splits)
    then show ?thesis using later c by (fastforce simp: y)
  qed
qed (auto split: if_splits)

lemma carve_covers:
  "cursor \<le> k \<Longrightarrow> k < len \<Longrightarrow> \<forall>x\<in>set bl. \<not> (fst x \<le> k \<and> k < snd x) \<Longrightarrow> \<exists>r\<in>set (carve cursor bl len). fst r \<le> k \<and> k < snd r"
proof (induction bl arbitrary: cursor)
  case (Cons y bl)
  obtain s e where y: "y = (s, e)" by fastforce
  show ?case
  proof (cases "k < s")
    case True
    then show ?thesis using Cons.prems(1) by (auto simp: y)
  next
    case False
    then have "\<exists>r\<in>set (carve e bl len). fst r \<le> k \<and> k < snd r" using Cons.prems by (intro Cons.IH) (auto simp: y)
    then show ?thesis by (auto simp: y)
  qed
qed auto

definition tag_span :: "string \<Rightarrow> SfcBlock \<Rightarrow> nat \<times> nat" where
  "tag_span content b = (block_outer_start content (sb_content_start b), block_outer_end content (sb_content_end b))"

lemma tag_span_bounds:
  assumes "good_block content b"
  shows "fst (tag_span content b) < sb_content_start b" "sb_content_end b < snd (tag_span content b)" "snd (tag_span content b) \<le> length content"
proof -
  show "fst (tag_span content b) < sb_content_start b"
    using outer_start_loop_le[of content "sb_content_start b - 1"] assms by (auto simp: tag_span_def block_outer_start_def good_block_def)
  have "sb_content_end b < length content" using assms by (simp add: good_block_def)
  then show "sb_content_end b < snd (tag_span content b)" "snd (tag_span content b) \<le> length content"
    using scan_while_ge[of "sb_content_end b" "\<lambda>c. c \<noteq> CHR ''>''" content] by (auto simp: tag_span_def block_outer_end_def Let_def)
qed

lemma tag_span_before:
  assumes "before content a b" "good_block content a"
  shows "snd (tag_span content a) \<le> fst (tag_span content b)"
proof -
  obtain i where i: "block_end content a \<le> i" "i < sb_content_start b" "content ! i = CHR ''<''" using assms(1) by (auto simp: before_def)
  moreover have "0 < block_end content a" using tag_span_bounds(2)[OF assms(2)] by (simp add: tag_span_def outer_end_eq)
  ultimately have "i \<le> outer_start_loop content (sb_content_start b - 1)" by (intro outer_start_loop_ge) auto
  then show ?thesis using i(1) by (simp add: tag_span_def outer_end_eq block_outer_start_def)
qed



section \<open>The preparation that is never run\<close>

text \<open>
  The pipeline prepares the provider with the paths of the workspace before it extracts; the provider of
  the program does not pass the call on, so what was prepared makes no difference.
\<close>

lemma preparation_ignored:
  "pv_extract (workspace_provider L langs reg) prepared = pv_extract (workspace_provider L langs reg) prepared'"
  by (simp add: workspace_provider_def workspace_extract_def fun_eq_iff)

text \<open>
  The search for the start of a script stops at the last opening bracket, which may stand in an attribute:
  the front of the tag of a generic component is then parsed as template.
\<close>

lemma generic_tag_read_as_template:
  "svelte_template_regions ''<script g='A<B>'>x</script>'' (extract_blocks ''<script g='A<B>'>x</script>'') = [(0, 12)]"
  by code_simp

end
