(* ===== verification/Mcp_Params.thy ===== *)
theory Mcp_Params
  imports Query_Graph Query_Workspace Text
begin

text \<open>
  The parameters of the MCP tools (\<^verbatim>\<open>mcp/handler/params.rs\<close>) and the stateless helpers of the handler
  (\<^verbatim>\<open>mcp/handler/helpers.rs\<close>): validation of arguments, names, and projections of symbols.
\<close>

section \<open>Errors and replies\<close>

text \<open>\<^verbatim>\<open>ErrorData\<close>: an invalid argument with its data, or an internal error with what caused it.\<close>

datatype error_detail = NoDetail | LinkDetail string "string list" | WorkspaceDetail string

datatype internal_cause = StorageCause StorageError | ColdCause ColdStartError | ConfigCause SxdConfigError

datatype error_data = InvalidParams string error_detail | InternalError internal_cause

text \<open>A result: the text that indexing is in progress, \<^verbatim>\<open>null\<close>, or the value that is printed as JSON.\<close>

datatype 'a reply = Busy string | NullReply | Reply 'a

type_synonym 'a tool_result = "error_data + 'a reply"

definition from_storage :: "'a result \<Rightarrow> error_data + 'a" where
  "from_storage r = map_sum (\<lambda>e. InternalError (StorageCause e)) id r"

definition reply_of :: "'a option \<Rightarrow> 'a reply" where
  "reply_of found = (case found of Some x \<Rightarrow> Reply x | None \<Rightarrow> NullReply)"

section \<open>Constants\<close>

definition FIND_SYMBOL_DEFAULT_LIMIT :: "8 word" where "FIND_SYMBOL_DEFAULT_LIMIT = 20"
definition FIND_SYMBOL_MAX_LIMIT :: "8 word" where "FIND_SYMBOL_MAX_LIMIT = 100"
definition SUMMARY_AUTO_THRESHOLD :: nat where "SUMMARY_AUTO_THRESHOLD = 15"
definition DID_YOU_MEAN_LIMIT :: nat where "DID_YOU_MEAN_LIMIT = 5"
definition GET_CONTEXT_DEFAULT_DEPTH :: "8 word" where "GET_CONTEXT_DEFAULT_DEPTH = 2"
definition NAKED_DEPTH_2_WINDOW_SECS :: int where "NAKED_DEPTH_2_WINDOW_SECS = 300"
definition RECENT_DEPTH1_RETENTION_SECS :: int where "RECENT_DEPTH1_RETENTION_SECS = 1800"

section \<open>Parameters\<close>

record GetContextParams =
  gc_fqdn :: string
  gc_depth :: "8 word option"

record FindSymbolParams =
  fs_query :: string
  fs_limit :: "8 word option"
  fs_kind :: "string option"
  fs_visibility :: "string option"
  fs_module :: "string option"
  fs_include_external :: "bool option"
  fs_exclude_tests :: "bool option"
  fs_workspace_id :: "string option"

record FindSymbolFqdnsParams = FindSymbolParams +
  fs_relative_to :: "string option"

record ListSymbolsParams =
  ls_kind :: "string option"
  ls_visibility :: "string option"
  ls_module :: "string option"
  ls_limit :: "8 word option"
  ls_include_external :: "bool option"
  ls_exclude_tests :: "bool option"
  ls_cursor :: "string option"
  ls_workspace_id :: "string option"

record ListSymbolFqdnsParams = ListSymbolsParams +
  ls_relative_to :: "string option"

record FindSymbolsByPatternParams =
  fp_pattern :: string
  fp_kind :: "string option"
  fp_visibility :: "string option"
  fp_module :: "string option"
  fp_limit :: "8 word option"
  fp_include_external :: "bool option"
  fp_exclude_tests :: "bool option"
  fp_workspace_id :: "string option"
  fp_summary :: "bool option"

record FindCallSitesParams =
  fc_from_fqdn :: "string option"
  fc_callee_text :: "string option"
  fc_callee_pattern :: "string option"
  fc_limit :: "8 word option"

record FetchGraphParams =
  fg_focal :: "string option"
  fg_depth :: "8 word option"
  fg_kinds :: "string list option"
  fg_max_nodes :: "32 word option"
  fg_include_external :: "bool option"

record 'sc FindSimilarSymbolsParams =
  fi_reference :: string
  fi_threshold :: "'sc option"
  fi_limit :: "8 word option"
  fi_kind :: "string option"
  fi_visibility :: "string option"
  fi_module :: "string option"
  fi_include_external :: "bool option"

text \<open>\<^verbatim>\<open>GetBodyParams\<close> and \<^verbatim>\<open>GetCodeParams\<close> have the same fields.\<close>

record GetBodyParams =
  gb_fqdn :: string
  gb_max_lines :: "32 word option"
  gb_strip_attrs :: "bool option"
  gb_signature_only :: "bool option"
  gb_strip_inline_comments :: "bool option"

record FetchedEntry =
  fe_fqdn :: string
  fe_fetched_at_revision :: "64 word"

record LinkWorkspaceParams =
  lk_path :: string
  lk_direction :: string
  lk_mode :: "string option"

record SetLinkDirectionParams =
  sd_workspace_id :: string
  sd_direction :: string

definition or_default :: "'a \<Rightarrow> 'a option \<Rightarrow> 'a" where
  "or_default d x = (case x of Some v \<Rightarrow> v | None \<Rightarrow> d)"

text \<open>\<^verbatim>\<open>Ord::clamp\<close>\<close>

definition clamp :: "'a :: linorder \<Rightarrow> 'a \<Rightarrow> 'a \<Rightarrow> 'a" where
  "clamp lo hi x = (if x < lo then lo else if hi < x then hi else x)"

definition ascii_upper :: "char \<Rightarrow> char" where
  "ascii_upper c = (let n = of_char c :: nat in if 97 \<le> n \<and> n \<le> 122 then char_of (n - 32) else c)"

definition parse_edge_kind :: "string \<Rightarrow> EdgeKind option" where
  "parse_edge_kind raw =
    (let s = map ascii_upper (str_trim raw) in
     if s = ''CALLS'' then Some EdgeKind.Calls
     else if s = ''IMPORTS'' then Some EdgeKind.Imports
     else if s = ''EXTENDS'' then Some EdgeKind.Extends
     else if s = ''IMPLEMENTS'' then Some EdgeKind.Implements
     else if s = ''REFERENCES'' then Some EdgeKind.References
     else if s = ''USES_TYPE'' \<or> s = ''USESTYPE'' then Some EdgeKind.UsesType
     else None)"

definition into_request :: "FetchGraphParams \<Rightarrow> GraphRequest" where
  "into_request p =
    \<lparr> gr_focal = fg_focal p,
      gr_depth = clamp 1 FETCH_GRAPH_MAX_DEPTH (or_default FETCH_GRAPH_DEFAULT_DEPTH (fg_depth p)),
      gr_kinds = Option.bind (fg_kinds p) (\<lambda>raw. case List.map_filter parse_edge_kind raw of [] \<Rightarrow> None | ks \<Rightarrow> Some ks),
      gr_max_nodes = clamp 1 FETCH_GRAPH_MAX_NODES_CAP (or_default FETCH_GRAPH_DEFAULT_MAX_NODES (fg_max_nodes p)),
      gr_include_external = or_default False (fg_include_external p) \<rparr>"

section \<open>Helpers\<close>

definition non_empty :: "string \<Rightarrow> string option" where
  "non_empty s = (if str_trim s = [] then None else Some (str_trim s))"

fun source_origin_label :: "SourceOrigin \<Rightarrow> string" where
  "source_origin_label SourceOrigin.Workspace = ''workspace''"
| "source_origin_label SourceOrigin.CargoRegistry = ''cargo_registry''"
| "source_origin_label SourceOrigin.NodeModulesDts = ''node_modules_dts''"
| "source_origin_label SourceOrigin.ManualExternal = ''manual_external''"

definition unknown_value :: "string \<Rightarrow> string \<Rightarrow> string \<Rightarrow> error_data" where
  "unknown_value what other expected =
    InvalidParams (''unknown '' @ what @ '' `'' @ other @ ''` '' @ em_dash @ '' expected one of: '' @ expected) NoDetail"

definition parse_kind :: "string \<Rightarrow> error_data + Kind" where
  "parse_kind s =
    (if s = ''callable'' then Inr Kind.Callable
     else if s = ''type'' then Inr Kind.Type
     else if s = ''value'' then Inr Kind.Value
     else if s = ''module'' then Inr Kind.Module
     else if s = ''macro'' then Inr Kind.Macro
     else Inl (unknown_value ''kind'' s ''callable, type, value, module, macro''))"

definition parse_visibility :: "string \<Rightarrow> error_data + Visibility" where
  "parse_visibility s =
    (if s = ''public'' then Inr Visibility.Public
     else if s = ''private'' then Inr Visibility.Private
     else if s = ''crate'' then Inr Visibility.Crate
     else if s = ''protected'' then Inr Visibility.Protected
     else Inl (unknown_value ''visibility'' s ''public, private, crate, protected''))"

definition parse_filter ::
  "string option \<Rightarrow> string option \<Rightarrow> string option \<Rightarrow> bool option \<Rightarrow> string option \<Rightarrow> error_data + SymbolFilter" where
  "parse_filter kind visibility module include_external workspace_id =
    ebind (transpose_opt parse_kind kind) (\<lambda>kind.
    ebind (transpose_opt parse_visibility visibility) (\<lambda>visibility.
    Inr \<lparr> sf_kind = kind, sf_visibility = visibility, sf_module = module,
      sf_include_external = or_default True include_external, sf_workspace_id = workspace_id \<rparr>))"

definition parse_link_direction :: "string \<Rightarrow> error_data + LinkDirection" where
  "parse_link_direction s =
    (if s = ''in'' then Inr LinkDirection.In
     else if s = ''out'' then Inr LinkDirection.Out
     else if s = ''bidirectional'' then Inr LinkDirection.Bidirectional
     else Inl (unknown_value ''direction'' s ''in, out, bidirectional''))"

definition parse_indexing_mode :: "string option \<Rightarrow> error_data + IndexingMode" where
  "parse_indexing_mode s =
    (case s of
       None \<Rightarrow> Inr BlobImport
     | Some m \<Rightarrow>
         if m = ''blob_import'' then Inr BlobImport
         else if m = ''extract'' then Inr Extract
         else Inl (unknown_value ''indexing_mode'' m ''blob_import, extract''))"

fun link_direction_label :: "LinkDirection \<Rightarrow> string" where
  "link_direction_label LinkDirection.In = ''in''"
| "link_direction_label LinkDirection.Out = ''out''"
| "link_direction_label LinkDirection.Bidirectional = ''bidirectional''"

definition watches_peer :: "LinkDirection \<Rightarrow> bool" where
  "watches_peer d \<longleftrightarrow> d = LinkDirection.In \<or> d = LinkDirection.Bidirectional"

text \<open>Thresholds are floating-point numbers; which of them lie in the unit interval, and how
  one is printed, are arguments.\<close>

definition parse_threshold :: "('sc \<Rightarrow> bool) \<Rightarrow> ('sc \<Rightarrow> string) \<Rightarrow> 'sc \<Rightarrow> 'sc option \<Rightarrow> error_data + 'sc" where
  "parse_threshold in_unit show_score deflt raw =
    (let v = or_default deflt raw in
     if in_unit v then Inr v
     else Inl (InvalidParams (''threshold must be a finite value in [0.0, 1.0], got `'' @ show_score v @ ''`'') NoDetail))"

definition glob_core_text :: "string \<Rightarrow> string" where
  "glob_core_text pattern = str_trim (filter (\<lambda>c. c \<notin> {CHR ''*'', CHR ''?'', CHR ''['', CHR '']''}) pattern)"

definition normalize_fqdn :: "string \<Rightarrow> string" where
  "normalize_fqdn raw = str_replace ''.'' ''::'' raw"

definition resolve_fqdn_fallback :: "(string \<Rightarrow> 'a option result) \<Rightarrow> string \<Rightarrow> 'a option result" where
  "resolve_fqdn_fallback lookup raw =
    ebind (lookup raw) (\<lambda>found.
    case found of
      Some x \<Rightarrow> Inr (Some x)
    | None \<Rightarrow> if CHR ''.'' \<in> set raw then lookup (normalize_fqdn raw) else Inr None)"

definition relative_fqdn :: "string \<Rightarrow> string \<Rightarrow> string" where
  "relative_fqdn fqdn relative_to =
    (if relative_to = [] then fqdn
     else if fqdn = relative_to then []
     else case Option.bind (strip_prefix relative_to fqdn) (strip_prefix ''::'') of
       Some rest \<Rightarrow> ''::'' @ rest
     | None \<Rightarrow> fqdn)"

definition apply_exclude_tests :: "bool \<Rightarrow> RawSymbol list \<Rightarrow> RawSymbol list" where
  "apply_exclude_tests exclude symbols = (if exclude then filter (\<lambda>s. \<not> symbol_looks_like_test s) symbols else symbols)"

definition clamp_limit :: "8 word option \<Rightarrow> 8 word" where
  "clamp_limit raw = clamp 1 FIND_SYMBOL_MAX_LIMIT (or_default FIND_SYMBOL_DEFAULT_LIMIT raw)"

definition indexing_in_progress_message :: "(64 word \<times> 64 word) option \<Rightarrow> string" where
  "indexing_in_progress_message progress =
    (case progress of
       Some (dn, ttl) \<Rightarrow>
         if 0 < ttl
         then ''Workspace indexing in progress ('' @ u64_to_string dn @ ''/'' @ u64_to_string ttl @ '' files). Please retry in a few seconds.''
         else ''Workspace indexing in progress. Please retry in a few seconds.''
     | None \<Rightarrow> ''Workspace indexing in progress. Please retry in a few seconds.'')"

section \<open>Envelopes\<close>

record 'sc Suggestion =
  sg_fqdn :: string
  sg_name :: string
  sg_kind :: Kind
  sg_score :: 'sc

record SummaryRow =
  sm_name :: string
  sm_fqdn :: string
  sm_kind :: Kind
  sm_visibility :: Visibility
  sm_file :: string
  sm_line :: "32 word"

record ('a, 'sc) search_reply =
  sr_results :: "'a list"
  sr_did_you_mean :: "'sc Suggestion list"

definition suggestion_of :: "RawSymbol \<times> 'sc \<Rightarrow> 'sc Suggestion" where
  "suggestion_of x = \<lparr> sg_fqdn = rs_fqdn (fst x), sg_name = rs_name (fst x), sg_kind = rs_kind (fst x), sg_score = snd x \<rparr>"

definition summary_row :: "RawSymbol \<Rightarrow> SummaryRow" where
  "summary_row s = \<lparr> sm_name = rs_name s, sm_fqdn = rs_fqdn s, sm_kind = rs_kind s, sm_visibility = rs_visibility s,
     sm_file = loc_file (rs_location s), sm_line = loc_start_line (rs_location s) \<rparr>"

end
