(* ===== verification/Externals.thy ===== *)
theory Externals
  imports Filters Text
begin

text \<open>
  The resolvers of external symbols (\<^verbatim>\<open>externals/mod.rs\<close>, \<^verbatim>\<open>externals/cargo.rs\<close>, \<^verbatim>\<open>externals/npm.rs\<close>,
  \<^verbatim>\<open>externals/luarocks.rs\<close>, \<^verbatim>\<open>externals/binary_detection.rs\<close>): which resolvers a workspace gets, how each finds
  the sources of a package, what it queues for the writer, and the wait for the symbol.

  The state is the queue of the writer.  Files, directory walks, environment variables, the programs
  run and the JSON reader are arguments, and so are the databases and clock readings the resolver meets
  while the writer works beside it.  Paths are lists of components.
\<close>

section \<open>binary\_detection.rs\<close>

datatype BinaryAvailability = Available (bin_path: string) (bin_version: "string option") | Missing string | NotApplicable

text \<open>What running a program gives: its exit status, and both outputs decoded.\<close>

datatype command_output = SpawnFailed string | Finished (out_success: bool) (out_code: "int option") (out_stdout: string) (out_stderr: string)

type_synonym runner = "string \<Rightarrow> string list \<Rightarrow> command_output"

definition SCAN_MAX_DEPTH :: nat where "SCAN_MAX_DEPTH = 8"

definition SCAN_SKIP_DIRS :: "string list" where
  "SCAN_SKIP_DIRS = [''.git'', ''target'', ''node_modules'', ''.standardoc'']"

definition first_line_version :: "string \<Rightarrow> string option" where
  "first_line_version out =
    (case str_lines out of
       [] \<Rightarrow> None
     | l # _ \<Rightarrow> if str_trim l = [] then None else Some (str_trim l))"

definition code_text :: "int option \<Rightarrow> string" where
  "code_text code = (case code of Some n \<Rightarrow> ''Some('' @ int_to_dec n @ '')'' | None \<Rightarrow> ''None'')"

definition probe_path :: "runner \<Rightarrow> string \<Rightarrow> BinaryAvailability" where
  "probe_path exec path =
    (case exec path [''--version''] of
       Finished True code out err \<Rightarrow> Available path (first_line_version out)
     | Finished False code out err \<Rightarrow> Missing (''`'' @ path @ '' --version` exited with status '' @ code_text code)
     | SpawnFailed e \<Rightarrow> Missing (''could not invoke `'' @ path @ ''`: '' @ e))"

definition probe_binary :: "runner \<Rightarrow> (string \<Rightarrow> string option) \<Rightarrow> string \<Rightarrow> string \<Rightarrow> BinaryAvailability" where
  "probe_binary exec env default_name env_override =
    probe_path exec (case env env_override of Some p \<Rightarrow> p | None \<Rightarrow> default_name)"

definition ENV_CARGO_PATH :: string where "ENV_CARGO_PATH = ''STANDARDOC_CARGO_PATH''"

definition ENV_NODE_PATH :: string where "ENV_NODE_PATH = ''STANDARDOC_NODE_PATH''"

definition ENV_LUAROCKS_PATH :: string where "ENV_LUAROCKS_PATH = ''STANDARDOC_LUAROCKS_PATH''"

text \<open>The bounded walk below a root: a skipped name prunes everything below it, the root included.\<close>

definition skip_name :: "string list \<Rightarrow> bool" where
  "skip_name path = (case path_file_name path of Some n \<Rightarrow> n \<in> set SCAN_SKIP_DIRS | None \<Rightarrow> False)"

definition bounded_walk :: "(string list \<Rightarrow> tree_entry list) \<Rightarrow> string list \<Rightarrow> tree_entry list" where
  "bounded_walk walk root =
    (if skip_name root then []
     else filter_entry (\<lambda>e. \<not> skip_name (te_path e)) (filter (\<lambda>e. length (te_path e) \<le> length root + SCAN_MAX_DEPTH) (walk root)))"

definition manifest_candidates :: "(string list \<Rightarrow> tree_entry list) \<Rightarrow> string list \<Rightarrow> string \<Rightarrow> (nat \<times> string list) list" where
  "manifest_candidates walk root filename =
    map (\<lambda>e. (length (te_path e) - length root, butlast (te_path e)))
      (filter (\<lambda>e. te_is_file e \<and> te_path e \<noteq> [] \<and> last (te_path e) = filename) (bounded_walk walk root))"

definition find_manifest_dir ::
  "(string list \<Rightarrow> bool) \<Rightarrow> (string list \<Rightarrow> tree_entry list) \<Rightarrow> string list \<Rightarrow> string \<Rightarrow> string list option" where
  "find_manifest_dir is_file walk root filename =
    (if is_file (root @ [filename]) then Some root
     else case sort_key fst (manifest_candidates walk root filename) of
       [] \<Rightarrow> None
     | (depth, p) # _ \<Rightarrow> Some p)"

definition workspace_has_pnp_cjs :: "(string list \<Rightarrow> bool) \<Rightarrow> string list \<Rightarrow> bool" where
  "workspace_has_pnp_cjs is_file root \<longleftrightarrow> is_file (root @ [''.pnp.cjs''])"

definition relative_text :: "string list \<Rightarrow> string list \<Rightarrow> string option" where
  "relative_text base path = map_option (\<lambda>rel. backslash_to_slash (join_components rel)) (path_strip_prefix base path)"

definition is_lua_source :: "GitignoreStack \<Rightarrow> string list \<Rightarrow> tree_entry \<Rightarrow> bool" where
  "is_lua_source filters root e \<longleftrightarrow> te_is_file e \<and> path_extension (te_path e) = Some ''lua'' \<and>
     (case relative_text root (te_path e) of None \<Rightarrow> False | Some rel \<Rightarrow> \<not> is_skipped filters rel)"

definition workspace_has_lua_files ::
  "(string list \<Rightarrow> tree_entry list) \<Rightarrow> GitignoreStack \<Rightarrow> string list \<Rightarrow> bool" where
  "workspace_has_lua_files walk filters root \<longleftrightarrow> list_ex (is_lua_source filters root) (bounded_walk walk root)"

section \<open>The arguments, outcomes and errors\<close>

datatype ResolveOutcome =
    ExtResolved (ro_symbol: RawSymbol) (ro_origin: SourceOrigin)
  | NotInThisRegistry
  | MissingBinary (ro_binary: string) (ro_env_override: string)
  | LockfileNotFound (ro_lockfile: string)

datatype ExternalsError = ExtIo string | ExtSubprocess string "int option" string | ExtParse string string | ExtStorage StorageError | ExtInternal string

record CargoPackage =
  cp_name :: string
  cp_version :: string
  cp_manifest_path :: "string list"

record ext_env =
  xe_is_file :: "string list \<Rightarrow> bool"
  xe_is_dir :: "string list \<Rightarrow> bool"
  xe_canonicalize :: "string list \<Rightarrow> string list option"
  xe_walk :: "string list \<Rightarrow> tree_entry list"
  xe_read :: "string list \<Rightarrow> 8 word list option"
  xe_env :: "string \<Rightarrow> string option"
  xe_run :: "string list option \<Rightarrow> runner"
  xe_parse_metadata :: "string \<Rightarrow> string + CargoPackage list"
  xe_ignore :: ignore_env
  xe_config :: "SxdConfigError + SxdConfig option"
  xe_accepts :: "nat \<Rightarrow> bool"
  xe_codec :: codec
  xe_provider :: provider
  xe_prepared :: "string list"

text \<open>The databases one resolver meets: at the check of the cache, then at each poll with the clock after it.\<close>

record ext_view =
  xv_cache :: db
  xv_start :: nat
  xv_poll_db :: "nat \<Rightarrow> db"
  xv_poll_now :: "nat \<Rightarrow> nat"

type_synonym 'a ext = "(IngestCommand list, ExternalsError, 'a) sx"

definition path_text :: "string list \<Rightarrow> string" where
  "path_text p = concat (map (\<lambda>c. ''/'' @ c) p)"

definition lookup_symbol :: "ext_env \<Rightarrow> db \<Rightarrow> string \<Rightarrow> RawSymbol option ext" where
  "lookup_symbol E db fqdn = slift (map_sum ExtStorage id (symbol_by_fqdn (xe_codec E) db fqdn))"

text \<open>\<^verbatim>\<open>submit_blocking\<close> fails when the writer has closed its queue.\<close>

definition submit_blocking :: "ext_env \<Rightarrow> IngestCommand \<Rightarrow> unit ext" where
  "submit_blocking E cmd = (\<lambda>q. if xe_accepts E (length q) then (Inr (), q @ [cmd])
     else (Inl (ExtInternal ''writer queue closed''), q))"

section \<open>Walking a package\<close>

definition rewrite_for_external :: "string \<Rightarrow> string \<Rightarrow> string \<Rightarrow> SourceOrigin \<Rightarrow> ExtractedFile \<Rightarrow> ExtractedFile" where
  "rewrite_for_external registry slug rel_path origin extracted =
    extracted\<lparr>ef_file := ''external://'' @ registry @ ''/'' @ slug @ ''/'' @ rel_path, ef_is_external := True, ef_source_origin := origin\<rparr>"

text \<open>One source file: \<^verbatim>\<open>skip\<close> looks at its text, \<^verbatim>\<open>label\<close> is what an I/O error names.\<close>

definition submit_source ::
  "ext_env \<Rightarrow> string list \<Rightarrow> (string \<Rightarrow> ExtractedFile \<Rightarrow> ExtractedFile) \<Rightarrow> (string list \<Rightarrow> string \<Rightarrow> bool) \<Rightarrow> (string list \<Rightarrow> string)
    \<Rightarrow> string list \<Rightarrow> nat \<Rightarrow> nat ext" where
  "submit_source E base rewrite skip label path submitted =
    (case xe_read E path of
       None \<Rightarrow> sthrow (ExtIo (label path))
     | Some bytes \<Rightarrow>
         (case from_utf8 bytes of
            None \<Rightarrow> sreturn submitted
          | Some content \<Rightarrow>
              if skip path content then sreturn submitted
              else (case relative_text base path of
                 None \<Rightarrow> sthrow (ExtInternal ''walkdir produced a path outside the package'')
               | Some rel \<Rightarrow>
                   (case pv_extract (xe_provider E) (xe_prepared E) base None content rel of
                      Inl _ \<Rightarrow> sreturn submitted
                    | Inr extracted \<Rightarrow>
                        let extracted = rewrite rel extracted
                        in sthen (submit_blocking E (UpsertFile (ef_file extracted) extracted)) (sreturn (submitted + 1))))))"

definition submit_all ::
  "ext_env \<Rightarrow> string list \<Rightarrow> (string \<Rightarrow> ExtractedFile \<Rightarrow> ExtractedFile) \<Rightarrow> (string list \<Rightarrow> string \<Rightarrow> bool) \<Rightarrow> (string list \<Rightarrow> string)
    \<Rightarrow> tree_entry list \<Rightarrow> nat ext" where
  "submit_all E base rewrite skip label entries =
    sfold (\<lambda>e. submit_source E base rewrite skip label (te_path e)) entries 0"

section \<open>cargo.rs\<close>

text \<open>The first segment of a name, when a second one follows.\<close>

definition package_of_fqdn :: "string \<Rightarrow> string option" where
  "package_of_fqdn fqdn =
    (case split_once_path fqdn of
       Some (head, rest) \<Rightarrow> if head = [] then None else Some head
     | None \<Rightarrow> None)"

definition hyphen_to_underscore :: "char \<Rightarrow> char" where
  "hyphen_to_underscore c = (if c = CHR ''-'' then CHR ''_'' else c)"

definition find_package :: "CargoPackage list \<Rightarrow> string \<Rightarrow> CargoPackage option" where
  "find_package packages crate_name =
    find (\<lambda>p. cp_name p = crate_name \<or> map hyphen_to_underscore (cp_name p) = crate_name) packages"

definition run_cargo_metadata :: "ext_env \<Rightarrow> string \<Rightarrow> string list \<Rightarrow> CargoPackage list ext" where
  "run_cargo_metadata E cargo_path manifest =
    (case xe_run E None cargo_path [''metadata'', ''--format-version=1'', ''--manifest-path'', path_text manifest] of
       SpawnFailed e \<Rightarrow> sthrow (ExtSubprocess cargo_path None (''spawn failed: '' @ e))
     | Finished False code out err \<Rightarrow> sthrow (ExtSubprocess cargo_path code err)
     | Finished True code out err \<Rightarrow>
         (case xe_parse_metadata E out of
            Inl e \<Rightarrow> sthrow (ExtParse ''cargo metadata'' e)
          | Inr packages \<Rightarrow> sreturn packages))"

definition text_of_relative :: "string list \<Rightarrow> string list \<Rightarrow> string" where
  "text_of_relative base path = (case relative_text base path of Some rel \<Rightarrow> rel | None \<Rightarrow> path_text path)"

definition walk_and_submit_crate :: "ext_env \<Rightarrow> string list \<Rightarrow> string \<Rightarrow> SourceOrigin \<Rightarrow> nat ext" where
  "walk_and_submit_crate E manifest_dir crate_slug origin =
    (if \<not> xe_is_dir E (manifest_dir @ [''src'']) then sreturn 0
     else submit_all E manifest_dir (\<lambda>rel. rewrite_for_external ''cargo'' crate_slug rel origin) (\<lambda>_ _. False)
       (text_of_relative manifest_dir)
       (filter (\<lambda>e. te_is_file e \<and> path_extension (te_path e) = Some ''rs'') (xe_walk E (manifest_dir @ [''src'']))))"

text \<open>
  The loop of \<^verbatim>\<open>poll_for_symbol\<close> from its \<^verbatim>\<open>i\<close>-th turn; the three resolvers have a copy of it each.  \<^verbatim>\<open>None\<close>
  is a loop that never ends.
\<close>

definition SUBMIT_DRAIN_TIMEOUT :: nat where "SUBMIT_DRAIN_TIMEOUT = 60000"

definition SUBMIT_DRAIN_POLL :: nat where "SUBMIT_DRAIN_POLL = 20"

partial_function (option) poll_loop :: "ext_env \<Rightarrow> ext_view \<Rightarrow> string \<Rightarrow> nat \<Rightarrow> (ExternalsError + RawSymbol option) option" where
  "poll_loop E V fqdn i =
    (case symbol_by_fqdn (xe_codec E) (xv_poll_db V i) fqdn of
       Inl e \<Rightarrow> Some (Inl (ExtStorage e))
     | Inr (Some hit) \<Rightarrow> Some (Inr (Some hit))
     | Inr None \<Rightarrow>
         if xv_start V + SUBMIT_DRAIN_TIMEOUT \<le> xv_poll_now V i then Some (Inr None)
         else poll_loop E V fqdn (i + 1))"

definition outcome_of_poll :: "SourceOrigin \<Rightarrow> RawSymbol option \<Rightarrow> ResolveOutcome" where
  "outcome_of_poll origin found = (case found of Some symbol \<Rightarrow> ExtResolved symbol origin | None \<Rightarrow> NotInThisRegistry)"

definition poll_for_symbol :: "ext_env \<Rightarrow> ext_view \<Rightarrow> SourceOrigin \<Rightarrow> string \<Rightarrow> ResolveOutcome option ext" where
  "poll_for_symbol E V origin fqdn =
    (case poll_loop E V fqdn 0 of
       None \<Rightarrow> sreturn None
     | Some r \<Rightarrow> slift (map_sum id (\<lambda>found. Some (outcome_of_poll origin found)) r))"

text \<open>After the walk: nothing submitted, or the wait for the symbol.\<close>

definition await_symbol :: "ext_env \<Rightarrow> ext_view \<Rightarrow> SourceOrigin \<Rightarrow> string \<Rightarrow> nat \<Rightarrow> ResolveOutcome option ext" where
  "await_symbol E V origin fqdn submitted =
    (if submitted = 0 then sreturn (Some NotInThisRegistry) else poll_for_symbol E V origin fqdn)"

definition cargo_extract ::
  "ext_env \<Rightarrow> string list \<Rightarrow> string \<Rightarrow> ext_view \<Rightarrow> string \<Rightarrow> string \<Rightarrow> ResolveOutcome option ext" where
  "cargo_extract E root cargo_path V fqdn crate_name =
    (if \<not> xe_is_file E (root @ [''Cargo.lock'']) then sreturn (Some (LockfileNotFound ''Cargo.lock''))
     else sbind (run_cargo_metadata E cargo_path (root @ [''Cargo.toml''])) (\<lambda>packages.
       case find_package packages crate_name of
         None \<Rightarrow> sreturn (Some NotInThisRegistry)
       | Some package \<Rightarrow>
           if cp_manifest_path package = [] then sthrow (ExtParse ''cargo metadata manifest_path'' ''no parent'')
           else sbind (walk_and_submit_crate E (butlast (cp_manifest_path package))
                  (cp_name package @ ''-'' @ cp_version package) SourceOrigin.CargoRegistry)
             (await_symbol E V SourceOrigin.CargoRegistry fqdn)))"

definition resolve_cargo ::
  "ext_env \<Rightarrow> string list \<Rightarrow> BinaryAvailability \<Rightarrow> ext_view \<Rightarrow> string \<Rightarrow> ResolveOutcome option ext" where
  "resolve_cargo E root binary V fqdn =
    (case package_of_fqdn fqdn of
       None \<Rightarrow> sreturn (Some NotInThisRegistry)
     | Some crate_name \<Rightarrow>
         sbind (lookup_symbol E (xv_cache V) fqdn) (\<lambda>cached.
         case cached of
           Some hit \<Rightarrow> sreturn (Some (ExtResolved hit SourceOrigin.CargoRegistry))
         | None \<Rightarrow>
             (case binary of
                Available cargo_path version \<Rightarrow> cargo_extract E root cargo_path V fqdn crate_name
              | _ \<Rightarrow> sreturn (Some (MissingBinary ''cargo'' ENV_CARGO_PATH)))))"

section \<open>npm.rs\<close>

definition MINIFIED_LINE_THRESHOLD :: nat where "MINIFIED_LINE_THRESHOLD = 1000"

definition NPM_EXTENSIONS :: "string list" where
  "NPM_EXTENSIONS = [''d.ts'', ''ts'', ''tsx'', ''mts'', ''cts'', ''js'', ''jsx'', ''mjs'', ''cjs'']"

datatype FindResult = PackageFound "string list" | PackageNotFound | NodeMissing

definition is_skip_npm_dir :: "string \<Rightarrow> bool" where
  "is_skip_npm_dir name \<longleftrightarrow> name \<in> {''node_modules'', ''.git'', ''test'', ''tests'', ''__tests__'', ''examples'', ''example''}"

definition entry_name :: "string list \<Rightarrow> string" where
  "entry_name path = (case path_file_name path of Some n \<Rightarrow> n | None \<Rightarrow> [])"

definition has_npm_extension :: "string list \<Rightarrow> bool" where
  "has_npm_extension path \<longleftrightarrow>
     (case path_file_name path of
        None \<Rightarrow> False
      | Some s \<Rightarrow> list_ex (\<lambda>ext. suffix (''.'' @ ext) s) NPM_EXTENSIONS)"

definition is_minified_js :: "string list \<Rightarrow> string \<Rightarrow> bool" where
  "is_minified_js path content \<longleftrightarrow>
     (case path_extension path of Some ext \<Rightarrow> ext \<in> {''js'', ''jsx'', ''mjs'', ''cjs''} | None \<Rightarrow> False) \<and>
     list_ex (\<lambda>line. MINIFIED_LINE_THRESHOLD < length line) (str_lines content)"

definition npm_walk :: "ext_env \<Rightarrow> string list \<Rightarrow> tree_entry list" where
  "npm_walk E package_dir =
    (if is_skip_npm_dir (entry_name package_dir) then []
     else filter_entry (\<lambda>e. \<not> is_skip_npm_dir (entry_name (te_path e))) (xe_walk E package_dir))"

definition walk_and_submit_package :: "ext_env \<Rightarrow> string list \<Rightarrow> string \<Rightarrow> SourceOrigin \<Rightarrow> nat ext" where
  "walk_and_submit_package E package_dir package_name origin =
    submit_all E package_dir (\<lambda>rel. rewrite_for_external ''npm'' package_name rel origin) is_minified_js path_text
      (filter (\<lambda>e. te_is_file e \<and> has_npm_extension (te_path e)) (npm_walk E package_dir))"

definition SINGLE_QUOTE :: char where "SINGLE_QUOTE = CHR 0x27"

definition pnp_script :: "string \<Rightarrow> string" where
  "pnp_script package_name =
    (let q = [SINGLE_QUOTE] in
     ''const r = require('' @ q @ ''./.pnp.cjs'' @ q @ '').resolveRequest('' @ q @ str_replace q [CHR 0x5C, SINGLE_QUOTE] package_name @
     ''/package.json'' @ q @ '', process.cwd()); if (r) process.stdout.write(require('' @ q @ ''path'' @ q @ '').dirname(r));'')"

text \<open>The printed path, absolute in practice.\<close>

definition printed_dir :: "string \<Rightarrow> string list option" where
  "printed_dir out = (if str_trim out = [] then None else Some (rel_components (str_trim out)))"

definition resolve_via_pnp :: "ext_env \<Rightarrow> string \<Rightarrow> string list \<Rightarrow> string \<Rightarrow> string list option ext" where
  "resolve_via_pnp E node_path root package_name =
    (case xe_run E (Some root) node_path [''-e'', pnp_script package_name] of
       SpawnFailed e \<Rightarrow> sthrow (ExtSubprocess node_path None (''spawn failed: '' @ e))
     | Finished ok code out err \<Rightarrow> sreturn (if ok then printed_dir out else None))"

definition find_package_dir :: "ext_env \<Rightarrow> string list \<Rightarrow> BinaryAvailability \<Rightarrow> string \<Rightarrow> FindResult ext" where
  "find_package_dir E root node_binary package_name =
    (let classic = root @ [''node_modules''] @ rel_components package_name in
     if xe_is_dir E classic
     then sreturn (PackageFound (case xe_canonicalize E classic of Some c \<Rightarrow> c | None \<Rightarrow> classic))
     else if \<not> xe_is_file E (root @ [''.pnp.cjs'']) then sreturn PackageNotFound
     else case node_binary of
       Missing _ \<Rightarrow> sreturn NodeMissing
     | NotApplicable \<Rightarrow> sreturn PackageNotFound
     | Available node_path _ \<Rightarrow>
         sbind (resolve_via_pnp E node_path root package_name) (\<lambda>found.
         sreturn (case found of
             Some dir \<Rightarrow> if xe_is_dir E dir then PackageFound dir else PackageNotFound
           | None \<Rightarrow> PackageNotFound)))"

definition resolve_npm ::
  "ext_env \<Rightarrow> string list \<Rightarrow> BinaryAvailability \<Rightarrow> ext_view \<Rightarrow> string \<Rightarrow> ResolveOutcome option ext" where
  "resolve_npm E root node_binary V fqdn =
    (case package_of_fqdn fqdn of
       None \<Rightarrow> sreturn (Some NotInThisRegistry)
     | Some package_name \<Rightarrow>
         sbind (lookup_symbol E (xv_cache V) fqdn) (\<lambda>cached.
         case cached of
           Some hit \<Rightarrow> sreturn (Some (ExtResolved hit SourceOrigin.NodeModulesDts))
         | None \<Rightarrow>
             sbind (find_package_dir E root node_binary package_name) (\<lambda>found.
             case found of
               PackageNotFound \<Rightarrow> sreturn (Some NotInThisRegistry)
             | NodeMissing \<Rightarrow> sreturn (Some (MissingBinary ''node'' ENV_NODE_PATH))
             | PackageFound dir \<Rightarrow>
                 sbind (walk_and_submit_package E dir package_name SourceOrigin.NodeModulesDts)
                   (await_symbol E V SourceOrigin.NodeModulesDts fqdn))))"

section \<open>luarocks.rs\<close>

definition run_luarocks_rock_dir :: "ext_env \<Rightarrow> string \<Rightarrow> string \<Rightarrow> string list option ext" where
  "run_luarocks_rock_dir E luarocks_path rock_name =
    (case xe_run E None luarocks_path [''show'', ''--rock-dir'', rock_name] of
       SpawnFailed e \<Rightarrow> sthrow (ExtSubprocess luarocks_path None (''spawn failed: '' @ e))
     | Finished ok code out err \<Rightarrow> sreturn (if ok then printed_dir out else None))"

definition walk_and_submit_rock :: "ext_env \<Rightarrow> string list \<Rightarrow> string \<Rightarrow> SourceOrigin \<Rightarrow> nat ext" where
  "walk_and_submit_rock E rock_dir rock_name origin =
    submit_all E rock_dir (\<lambda>rel. rewrite_for_external ''luarocks'' rock_name rel origin) (\<lambda>_ _. False) path_text
      (filter (\<lambda>e. te_is_file e \<and> path_extension (te_path e) = Some ''lua'') (xe_walk E rock_dir))"

definition resolve_luarocks ::
  "ext_env \<Rightarrow> BinaryAvailability \<Rightarrow> ext_view \<Rightarrow> string \<Rightarrow> ResolveOutcome option ext" where
  "resolve_luarocks E binary V fqdn =
    (case package_of_fqdn fqdn of
       None \<Rightarrow> sreturn (Some NotInThisRegistry)
     | Some rock_name \<Rightarrow>
         sbind (lookup_symbol E (xv_cache V) fqdn) (\<lambda>cached.
         case cached of
           Some hit \<Rightarrow> sreturn (Some (ExtResolved hit SourceOrigin.ManualExternal))
         | None \<Rightarrow>
             (case binary of
                Available luarocks_path version \<Rightarrow>
                  sbind (run_luarocks_rock_dir E luarocks_path rock_name) (\<lambda>found.
                  case found of
                    None \<Rightarrow> sreturn (Some NotInThisRegistry)
                  | Some dir \<Rightarrow>
                      if \<not> xe_is_dir E dir then sreturn (Some NotInThisRegistry)
                      else sbind (walk_and_submit_rock E dir rock_name SourceOrigin.ManualExternal)
                        (await_symbol E V SourceOrigin.ManualExternal fqdn))
              | _ \<Rightarrow> sreturn (Some (MissingBinary ''luarocks'' ENV_LUAROCKS_PATH)))))"

section \<open>The registry\<close>

datatype resolver =
    CargoResolver (rv_root: "string list") (rv_binary: BinaryAvailability)
  | NpmResolver (rv_root: "string list") (rv_binary: BinaryAvailability)
  | LuarocksResolver (rv_root: "string list") (rv_binary: BinaryAvailability)

fun resolver_name :: "resolver \<Rightarrow> string" where
  "resolver_name (CargoResolver _ _) = ''cargo''"
| "resolver_name (NpmResolver _ _) = ''npm''"
| "resolver_name (LuarocksResolver _ _) = ''luarocks''"

fun resolver_origin :: "resolver \<Rightarrow> SourceOrigin" where
  "resolver_origin (CargoResolver _ _) = SourceOrigin.CargoRegistry"
| "resolver_origin (NpmResolver _ _) = SourceOrigin.NodeModulesDts"
| "resolver_origin (LuarocksResolver _ _) = SourceOrigin.ManualExternal"

fun resolve_with :: "ext_env \<Rightarrow> resolver \<Rightarrow> ext_view \<Rightarrow> string \<Rightarrow> ResolveOutcome option ext" where
  "resolve_with E (CargoResolver root binary) V fqdn = resolve_cargo E root binary V fqdn"
| "resolve_with E (NpmResolver root node_binary) V fqdn = resolve_npm E root node_binary V fqdn"
| "resolve_with E (LuarocksResolver root binary) V fqdn = resolve_luarocks E binary V fqdn"

definition new_npm_resolver :: "ext_env \<Rightarrow> string list \<Rightarrow> resolver" where
  "new_npm_resolver E root =
    NpmResolver root (if workspace_has_pnp_cjs (xe_is_file E) root then probe_binary (xe_run E None) (xe_env E) ''node'' ENV_NODE_PATH
      else NotApplicable)"

definition for_workspace :: "ext_env \<Rightarrow> string list \<Rightarrow> resolver list" where
  "for_workspace E root =
    (case find_manifest_dir (xe_is_file E) (xe_walk E) root ''Cargo.lock'' of
       Some r \<Rightarrow> [CargoResolver r (probe_binary (xe_run E None) (xe_env E) ''cargo'' ENV_CARGO_PATH)] | None \<Rightarrow> []) @
    (case find_manifest_dir (xe_is_file E) (xe_walk E) root ''package.json'' of
       Some r \<Rightarrow> [new_npm_resolver E r] | None \<Rightarrow> []) @
    (if workspace_has_lua_files (xe_walk E) (load_filters (xe_ignore E) (xe_config E) root) root
     then [LuarocksResolver root (probe_binary (xe_run E None) (xe_env E) ''luarocks'' ENV_LUAROCKS_PATH)] else [])"

definition probe_all :: "resolver list \<Rightarrow> (string \<times> BinaryAvailability) list" where
  "probe_all resolvers = map (\<lambda>r. (resolver_name r, rv_binary r)) resolvers"

text \<open>Each resolver with what it meets when its turn comes.\<close>

fun registry_resolve :: "ext_env \<Rightarrow> (resolver \<times> ext_view) list \<Rightarrow> string \<Rightarrow> ResolveOutcome option ext" where
  "registry_resolve E [] fqdn = sreturn (Some NotInThisRegistry)"
| "registry_resolve E ((r, V) # rest) fqdn =
    sbind (resolve_with E r V fqdn) (\<lambda>outcome.
    if outcome \<noteq> Some NotInThisRegistry then sreturn outcome else registry_resolve E rest fqdn)"

section \<open>What a resolver queues\<close>

fun external_cmd :: "SourceOrigin \<Rightarrow> IngestCommand \<Rightarrow> bool" where
  "external_cmd origin (UpsertFile path x) \<longleftrightarrow>
     path = ef_file x \<and> ef_is_external x \<and> ef_source_origin x = origin \<and> prefix ''external://'' (ef_file x)"
| "external_cmd origin _ \<longleftrightarrow> False"

definition extends :: "(IngestCommand \<Rightarrow> bool) \<Rightarrow> IngestCommand list \<Rightarrow> IngestCommand list \<Rightarrow> bool" where
  "extends P q0 q \<longleftrightarrow> (\<exists>cs. q = q0 @ cs \<and> list_all P cs)"

lemma extends_refl: "extends P q q"
  by (simp add: extends_def)

lemma extends_trans: "extends P a b \<Longrightarrow> extends Q b c \<Longrightarrow> (\<And>x. P x \<Longrightarrow> R x) \<Longrightarrow> (\<And>x. Q x \<Longrightarrow> R x) \<Longrightarrow> extends R a c"
  by (fastforce simp: extends_def list_all_iff)

lemma rewritten_external: "external_cmd origin (UpsertFile (ef_file (rewrite_for_external g slug rel origin x)) (rewrite_for_external g slug rel origin x))"
  by (simp add: rewrite_for_external_def)

lemma keeps_submit: "P c \<Longrightarrow> keeps (extends P q0) (submit_blocking E c)"
  by (auto simp: keeps_def submit_blocking_def extends_def)

lemma keeps_submit_all:
  assumes "\<And>rel x. P (UpsertFile (ef_file (rewrite rel x)) (rewrite rel x))"
  shows "keeps (extends P q0) (submit_all E base rewrite skip label entries)"
  unfolding submit_all_def submit_source_def Let_def
  by (intro keeps_intros keeps_submit assms)

lemma keeps_resolvers:
  shows keeps_lookup: "keeps I (lookup_symbol E db fqdn)"
    and keeps_await: "keeps I (await_symbol E V origin fqdn n)"
    and keeps_metadata: "keeps I (run_cargo_metadata E p m)"
    and keeps_find_dir: "keeps I (find_package_dir E root nb name)"
    and keeps_rock_dir: "keeps I (run_luarocks_rock_dir E p rock)"
  unfolding lookup_symbol_def await_symbol_def poll_for_symbol_def run_cargo_metadata_def find_package_dir_def
    resolve_via_pnp_def run_luarocks_rock_dir_def Let_def
  by (auto intro!: keeps_intros split: command_output.split BinaryAvailability.split bool.split option.split sum.split)

lemma keeps_walks:
  "keeps (extends (external_cmd origin) q0) (walk_and_submit_crate E d slug origin)"
  "keeps (extends (external_cmd origin) q0) (walk_and_submit_package E d slug origin)"
  "keeps (extends (external_cmd origin) q0) (walk_and_submit_rock E d slug origin)"
  unfolding walk_and_submit_crate_def walk_and_submit_package_def walk_and_submit_rock_def
  by (intro keeps_intros keeps_submit_all rewritten_external)+

lemma keeps_resolve_with: "keeps (extends (external_cmd (resolver_origin r)) q0) (resolve_with E r V fqdn)"
  by (cases r)
    (auto simp: resolve_cargo_def cargo_extract_def resolve_npm_def resolve_luarocks_def
      intro!: keeps_intros keeps_resolvers keeps_walks split: BinaryAvailability.split option.split FindResult.split)

section \<open>What a resolver answers\<close>

text \<open>The clock moves on by at least the sleep between two polls.\<close>

definition paced_view :: "ext_view \<Rightarrow> bool" where
  "paced_view V \<longleftrightarrow> (\<forall>i. xv_start V + SUBMIT_DRAIN_POLL * i \<le> xv_poll_now V i)"

definition seen_in :: "ext_env \<Rightarrow> ext_view \<Rightarrow> string \<Rightarrow> RawSymbol \<Rightarrow> bool" where
  "seen_in E V fqdn s \<longleftrightarrow> (\<exists>db\<in>insert (xv_cache V) (range (xv_poll_db V)). symbol_by_fqdn (xe_codec E) db fqdn = Inr (Some s))"

lemma poll_loop_returns:
  assumes "paced_view V"
  shows "\<exists>r. poll_loop E V fqdn i = Some r"
proof (induction "SUBMIT_DRAIN_TIMEOUT - i" arbitrary: i rule: less_induct)
  case less
  show ?case
  proof (cases "xv_start V + SUBMIT_DRAIN_TIMEOUT \<le> xv_poll_now V i")
    case True
    then show ?thesis by (subst poll_loop.simps) (auto split: sum.split option.split)
  next
    case False
    then have "i < SUBMIT_DRAIN_TIMEOUT" using assms by (force simp: paced_view_def SUBMIT_DRAIN_POLL_def dest: spec[of _ i])
    then show ?thesis using less[of "i + 1"] by (subst poll_loop.simps) (auto split: sum.split option.split)
  qed
qed

lemma poll_loop_seen:
  assumes "poll_loop E V fqdn i = Some r"
  shows "r = Inr (Some s) \<longrightarrow> seen_in E V fqdn s"
proof (rule poll_loop.raw_induct[OF _ assms], goal_cases)
  case (1 loop E V fqdn i r)
  from 1(2) 1(1)[of E V fqdn "i + 1" r] show ?case by (auto simp: seen_in_def split: sum.splits option.splits if_splits)
qed

text \<open>The result of a computation, in every state.\<close>

definition yields :: "('a \<Rightarrow> bool) \<Rightarrow> ('s, 'e, 'a) sx \<Rightarrow> bool" where
  "yields Q m \<longleftrightarrow> (\<forall>s x t. m s = (Inr x, t) \<longrightarrow> Q x)"

lemma yields_simps [simp]: "yields Q (sreturn x) \<longleftrightarrow> Q x" "yields Q (sthrow e)" "yields Q (slift r) \<longleftrightarrow> (\<forall>x. r = Inr x \<longrightarrow> Q x)"
  by (auto simp: yields_def sx_apply)

lemma yields_sbind: "yields P m \<Longrightarrow> (\<And>x. P x \<Longrightarrow> yields Q (f x)) \<Longrightarrow> yields Q (sbind m f)"
  unfolding yields_def by (blast elim: sbind_InrE)

lemma yields_any: "yields (\<lambda>_. True) m"
  by (simp add: yields_def)

definition sound_outcome :: "ext_env \<Rightarrow> SourceOrigin \<Rightarrow> ext_view \<Rightarrow> string \<Rightarrow> ResolveOutcome option \<Rightarrow> bool" where
  "sound_outcome E origin V fqdn res \<longleftrightarrow>
     (case res of
        None \<Rightarrow> \<not> paced_view V
      | Some (ExtResolved s o') \<Rightarrow> o' = origin \<and> seen_in E V fqdn s
      | Some _ \<Rightarrow> True)"

lemma lookup_sound: "yields (\<lambda>cached. \<forall>s. cached = Some s \<longrightarrow> seen_in E V fqdn s) (lookup_symbol E (xv_cache V) fqdn)"
  by (cases "symbol_by_fqdn (xe_codec E) (xv_cache V) fqdn") (auto simp: lookup_symbol_def seen_in_def)

lemma await_sound: "yields (sound_outcome E origin V fqdn) (await_symbol E V origin fqdn n)"
proof (cases "poll_loop E V fqdn 0")
  case None
  then have "\<not> paced_view V" using poll_loop_returns[of V E fqdn 0] by auto
  then show ?thesis using None by (simp add: await_symbol_def poll_for_symbol_def sound_outcome_def)
next
  case (Some r)
  then show ?thesis using poll_loop_seen[OF Some]
    by (cases r) (auto simp: await_symbol_def poll_for_symbol_def sound_outcome_def outcome_of_poll_def split: option.split)
qed

lemma sound_simple [simp]:
  "sound_outcome E origin V fqdn (Some NotInThisRegistry)" "sound_outcome E origin V fqdn (Some (MissingBinary b e))"
  "sound_outcome E origin V fqdn (Some (LockfileNotFound l))"
  "sound_outcome E origin V fqdn (Some (ExtResolved s o')) \<longleftrightarrow> o' = origin \<and> seen_in E V fqdn s"
  by (simp_all add: sound_outcome_def)

lemma yields_run:
  assumes "\<And>x. yields Q (f x)"
  shows "yields Q (sbind (run_cargo_metadata E a b) f)"
  using assms by (rule yields_sbind[OF yields_any])

lemma yields_find:
  assumes "\<And>x. yields Q (f x)"
  shows "yields Q (sbind (find_package_dir E root nb name) f)"
  using assms by (rule yields_sbind[OF yields_any])

lemma yields_rock:
  assumes "\<And>x. yields Q (f x)"
  shows "yields Q (sbind (run_luarocks_rock_dir E p rock) f)"
  using assms by (rule yields_sbind[OF yields_any])

lemma yields_walks:
  "yields (sound_outcome E origin V fqdn) (sbind (walk_and_submit_crate E d slug o') (await_symbol E V origin fqdn))"
  "yields (sound_outcome E origin V fqdn) (sbind (walk_and_submit_package E d slug o') (await_symbol E V origin fqdn))"
  "yields (sound_outcome E origin V fqdn) (sbind (walk_and_submit_rock E d slug o') (await_symbol E V origin fqdn))"
  by (rule yields_sbind[OF yields_any await_sound])+

lemma resolve_with_sound: "yields (sound_outcome E (resolver_origin r) V fqdn) (resolve_with E r V fqdn)"
  by (cases r)
    (auto simp: resolve_cargo_def cargo_extract_def resolve_npm_def resolve_luarocks_def
      intro!: yields_sbind[OF lookup_sound] yields_run yields_find yields_rock yields_walks
      split: BinaryAvailability.split option.split FindResult.split)

section \<open>The interface of a resolver\<close>

locale external_resolver =
  fixes resolve :: "ext_view \<Rightarrow> string \<Rightarrow> ResolveOutcome option ext" and E :: ext_env and origin :: SourceOrigin
  assumes queues: "keeps (extends (external_cmd origin) q0) (resolve V fqdn)"
    and answers: "yields (sound_outcome E origin V fqdn) (resolve V fqdn)"
begin

lemma resolved_seen:
  assumes "resolve V fqdn q = (Inr (Some (ExtResolved s o')), q')"
  shows "o' = origin \<and> seen_in E V fqdn s"
  using answers[of V fqdn] assms by (fastforce simp: yields_def)

lemma no_endless_wait:
  assumes "resolve V fqdn q = (Inr res, q')" "paced_view V"
  shows "res \<noteq> None"
  using answers[of V fqdn] assms by (force simp: yields_def sound_outcome_def)

lemma queued:
  assumes "resolve V fqdn q = (r, q')"
  shows "extends (external_cmd origin) q q'"
  by (rule keeps_result[OF queues extends_refl assms])

end

interpretation resolving: external_resolver "resolve_with E r" E "resolver_origin r" for E r
  by unfold_locales (rule keeps_resolve_with, rule resolve_with_sound)

section \<open>The registry and the writer\<close>

lemma registry_queues:
  assumes "registry_resolve E rvs fqdn q = (r, q')"
  shows "extends (\<lambda>c. \<exists>rv\<in>set rvs. external_cmd (resolver_origin (fst rv)) c) q q'"
  using assms
proof (induction rvs arbitrary: q)
  case (Cons x rvs)
  obtain rv V where x: "x = (rv, V)" by fastforce
  obtain r1 q1 where one: "resolve_with E rv V fqdn q = (r1, q1)" by fastforce
  note first = resolving.queued[OF one]
  consider "q' = q1" | "registry_resolve E rvs fqdn q1 = (r, q')"
    using Cons.prems one by (auto simp: x sbind_def sx_apply split: sum.splits if_splits)
  then show ?case
  proof cases
    case 1
    then show ?thesis using extends_trans[OF first extends_refl] by (auto simp: x)
  next
    case 2
    show ?thesis by (rule extends_trans[OF first Cons.IH[OF 2]]) (auto simp: x)
  qed
qed (simp add: sx_apply extends_refl)

lemma external_frame:
  assumes "external_cmd origin c" "\<not> prefix ''external://'' p" "process_command pool E c db = (r, db')"
  shows "file_at p db' = file_at p db"
  using assms(3)
proof (cases rule: process_command_cases)
  case (committed v db1)
  obtain x where x: "c = UpsertFile (ef_file x) x" "p \<noteq> ef_file x" using assms(1,2) by (cases c) auto
  then obtain row where "t_files db1 = upsert_by f_path merge_file row (t_files db)" "f_path row = ef_file x"
    using upsert_file_table[of E x "saturating_succ v" PRIMARY_WORKSPACE_ID db db1] committed(3) by auto
  then show ?thesis using upserted_rows(1)[of db1 row db p] x(2) committed(4) by simp
qed simp

lemma writer_external_frame:
  "\<forall>(pool, E, c)\<in>set rx. external_cmd (origin c) c \<Longrightarrow> \<not> prefix ''external://'' p \<Longrightarrow> file_at p (writer_loop rx db) = file_at p db"
proof (induction rx db rule: writer_loop.induct)
  case (2 pool E c rx db)
  then have "external_cmd (origin c) c" by simp
  then show ?case using 2 external_frame[of "origin c" c p pool E db] by (cases "process_command pool E c db") simp
qed simp

text \<open>
  C21. A search for an external symbol cannot touch the files of the workspace: however it ends, it only queues
  upserts of external files with the origin of one of the resolvers, and after the writer ran them every
  record of a file that is not external is the one of before.
\<close>

theorem external_resolution_contained:
  assumes "registry_resolve E rvs fqdn q = (r, q')"
  shows "\<exists>cs. q' = q @ cs \<and> (\<forall>c\<in>set cs. \<exists>rv\<in>set rvs. external_cmd (resolver_origin (fst rv)) c) \<and>
    (\<forall>rx db p. map (\<lambda>(_, _, c). c) rx = cs \<longrightarrow> \<not> prefix ''external://'' p \<longrightarrow> file_at p (writer_loop rx db) = file_at p db)"
proof -
  obtain cs where cs: "q' = q @ cs" "\<forall>c\<in>set cs. \<exists>rv\<in>set rvs. external_cmd (resolver_origin (fst rv)) c"
    using registry_queues[OF assms] by (auto simp: extends_def list_all_iff)
  have "file_at p (writer_loop rx db) = file_at p db" if "map (\<lambda>(_, _, c). c) rx = cs" "\<not> prefix ''external://'' p" for rx db p
  proof -
    have "\<forall>c\<in>set cs. external_cmd (ef_source_origin (uf_extracted c)) c"
    proof
      fix c assume "c \<in> set cs"
      then obtain origin where "external_cmd origin c" using cs(2) by blast
      then show "external_cmd (ef_source_origin (uf_extracted c)) c" by (cases c) auto
    qed
    then have "\<forall>(pool, E, c)\<in>set rx. external_cmd (ef_source_origin (uf_extracted c)) c" using that(1) by force
    then show ?thesis using that(2) by (rule writer_external_frame[of rx "\<lambda>c. ef_source_origin (uf_extracted c)"])
  qed
  then show ?thesis using cs by blast
qed

definition demo_ext :: ext_env where
  "demo_ext = \<lparr> xe_is_file = (\<lambda>p. p = [''w'', ''Cargo.lock'']), xe_is_dir = (\<lambda>p. p = [''r'', ''src'']), xe_canonicalize = Some,
     xe_walk = (\<lambda>p. [\<lparr> te_path = [''r'', ''src'', ''a.rs''], te_is_file = True, te_is_dir = False \<rparr>]),
     xe_read = (\<lambda>p. Some []), xe_env = (\<lambda>n. None), xe_run = (\<lambda>cwd p args. Finished True (Some 0) [] []),
     xe_parse_metadata = (\<lambda>out. Inr [\<lparr> cp_name = ''d-x'', cp_version = ''1'', cp_manifest_path = [''r'', ''Cargo.toml''] \<rparr>]),
     xe_ignore = \<lparr> ie_is_file = (\<lambda>p. False), ie_walk = [], ie_add_file = (\<lambda>a b. True), ie_add_line = (\<lambda>a b. True),
       ie_build_file = (\<lambda>a b. None), ie_build_lines = (\<lambda>a b. None) \<rparr>,
     xe_config = Inr None, xe_accepts = (\<lambda>n. True), xe_codec = demo_codec,
     xe_provider = \<lparr> pv_extract = (\<lambda>prepared root answers content rel. Inr demo_extracted), pv_edge_builtins = [],
       pv_edge_builtin_methods = [] \<rparr>, xe_prepared = [] \<rparr>"

definition demo_view :: ext_view where
  "demo_view = \<lparr> xv_cache = init_db, xv_start = 0, xv_poll_db = (\<lambda>i. init_db), xv_poll_now = (\<lambda>i. 60000 + 20 * i) \<rparr>"

definition demo_external :: ExtractedFile where
  "demo_external = rewrite_for_external ''cargo'' ''d-x-1'' ''src/a.rs'' SourceOrigin.CargoRegistry demo_extracted"

lemma symbol_by_fqdn_init [simp]: "symbol_by_fqdn K init_db f = Inr None"
  by (simp add: symbol_by_fqdn_def symbol_by_fqdn_in_workspace_def init_db_def)

lemma demo_search:
  "registry_resolve demo_ext [(CargoResolver [''w''] (Available ''cargo'' None), demo_view)] ''d_x::f'' [] =
    (Inr (Some NotInThisRegistry), [UpsertFile (ef_file demo_external) demo_external])"
proof -
  have p: "package_of_fqdn ''d_x::f'' = Some ''d_x''" "map hyphen_to_underscore ''d-x'' = ''d_x''" by code_simp+
  have rel: "relative_text [''r''] [''r'', ''src'', ''a.rs''] = Some ''src/a.rs''" "path_extension [''r'', ''src'', ''a.rs''] = Some ''rs''"
    "from_utf8 [] = Some []" by code_simp+
  have poll: "poll_loop demo_ext demo_view ''d_x::f'' 0 = Some (Inr None)"
    by (subst poll_loop.simps) (simp add: demo_view_def SUBMIT_DRAIN_TIMEOUT_def)
  show ?thesis
    using p rel poll
    by (simp add: resolve_cargo_def cargo_extract_def lookup_symbol_def run_cargo_metadata_def find_package_def await_symbol_def
        poll_for_symbol_def walk_and_submit_crate_def submit_all_def submit_source_def submit_blocking_def outcome_of_poll_def
        demo_ext_def demo_view_def demo_external_def sbind_def sthen_def sx_apply Let_def)
qed

theorem external_resolution_contained_witness:
  "snd (registry_resolve demo_ext [(CargoResolver [''w''] (Available ''cargo'' None), demo_view)] ''d_x::f'' []) =
     [UpsertFile (ef_file demo_external) demo_external] \<and>
   file_at ''a.rs'' (writer_loop [(Some (Inr ()), demo_env, UpsertFile (ef_file demo_external) demo_external)] demo_db) = file_at ''a.rs'' demo_db"
proof -
  let ?c = "UpsertFile (ef_file demo_external) demo_external" let ?rx = "[(Some (Inr ()) :: pool, demo_env, ?c)]"
  obtain cs where cs: "[?c] = [] @ cs"
      "\<forall>rx db p. map (\<lambda>(_, _, c). c) rx = cs \<longrightarrow> \<not> prefix ''external://'' p \<longrightarrow> file_at p (writer_loop rx db) = file_at p db"
    using external_resolution_contained[OF demo_search] by blast
  have "map (\<lambda>(_, _, c). c) ?rx = cs" "\<not> prefix ''external://'' ''a.rs''" using cs(1) by simp_all
  then have "file_at ''a.rs'' (writer_loop ?rx demo_db) = file_at ''a.rs'' demo_db" using cs(2) by blast
  then show ?thesis unfolding demo_search snd_conv by blast
qed

text \<open>
  The search always ends: while the clock runs, every resolver returns within its minute, and an answer
  that a symbol was resolved names the origin of the resolver that gave it and a symbol that the index
  held under the requested name.
\<close>

theorem external_resolution_returns:
  assumes "\<forall>(rv, V)\<in>set rvs. paced_view V" "registry_resolve E rvs fqdn q = (Inr res, q')"
  shows "\<exists>out. res = Some out \<and> (\<forall>s o'. out = ExtResolved s o' \<longrightarrow>
    (\<exists>(rv, V)\<in>set rvs. o' = resolver_origin rv \<and> seen_in E V fqdn s))"
  using assms
proof (induction rvs arbitrary: q)
  case (Cons x rvs)
  obtain rv V where x: "x = (rv, V)" by fastforce
  obtain r1 q1 where one: "resolve_with E rv V fqdn q = (r1, q1)" by fastforce
  consider out where "r1 = Inr (Some out)" "res = Some out" | "r1 = Inr None" | "registry_resolve E rvs fqdn q1 = (Inr res, q')"
    using Cons.prems(2) one by (cases r1) (auto simp: x sbind_def sx_apply split: if_splits option.splits)
  then show ?case
  proof cases
    case 1
    then show ?thesis using resolving.resolved_seen[of E rv V fqdn q] one by (auto simp: x)
  next
    case 2
    then show ?thesis using resolving.no_endless_wait[of E rv V fqdn q None q1] one Cons.prems(1) by (simp add: x)
  next
    case 3
    then show ?thesis using Cons.IH[OF _ 3] Cons.prems(1) by (auto simp: x)
  qed
qed (auto simp: sx_apply)

theorem external_resolution_returns_witness:
  "\<exists>out. fst (registry_resolve demo_ext [(CargoResolver [''w''] (Available ''cargo'' None), demo_view)] ''d_x::f'' []) = Inr (Some out)"
proof -
  have "\<forall>(rv, V)\<in>set [(CargoResolver [''w''] (Available ''cargo'' None), demo_view)]. paced_view V"
    by (simp add: paced_view_def demo_view_def SUBMIT_DRAIN_POLL_def)
  from external_resolution_returns[OF this demo_search] show ?thesis unfolding demo_search by auto
qed

section \<open>What external files do to the index\<close>

lemma symbol_by_fqdn_known:
  assumes "r \<in> set (t_symbols db)" "s_workspace_id r = PRIMARY_WORKSPACE_ID" "s_fqdn r = f"
  shows "symbol_by_fqdn K db f \<noteq> Inr None"
proof -
  have "find (\<lambda>r. s_workspace_id r = PRIMARY_WORKSPACE_ID \<and> s_fqdn r = f) (t_symbols db) \<noteq> None"
    using assms by (auto simp: find_None_iff)
  then show ?thesis
    by (auto simp: symbol_by_fqdn_def symbol_by_fqdn_in_workspace_def ebind_def split: sum.splits)
qed



text \<open>
  The metadata lists the members of the workspace too, so a misspelled name of a member makes its sources
  external: the first resolver takes the member for the package.
\<close>

lemma workspace_member_taken: "find_package [\<lparr> cp_name = ''my-app'', cp_version = ''1'', cp_manifest_path = [''w'', ''Cargo.toml''] \<rparr>] ''my_app'' \<noteq> None"
  by code_simp

text \<open>
  The resolver of crates asks for its program before it knows whether the package is a crate: without
  \<^verbatim>\<open>cargo\<close> the resolvers behind it are never asked.
\<close>

lemma missing_cargo_hides_npm:
  assumes "package_of_fqdn fqdn = Some name" "symbol_by_fqdn (xe_codec E) (xv_cache V) fqdn = Inr None"
  shows "registry_resolve E ((CargoResolver root (Missing d), V) # rest) fqdn q = (Inr (Some (MissingBinary ''cargo'' ENV_CARGO_PATH)), q)"
  using assms by (simp add: resolve_cargo_def lookup_symbol_def sbind_def sx_apply)

text \<open>
  Unlike the scoping of peers, the rewriting changes the path of the file only: the sites of its edges keep
  the path relative to the package, which may be that of a file of the workspace.
\<close>

lemma external_sites_unscoped: "ef_edges (rewrite_for_external g slug rel origin x) = ef_edges x"
  by (simp add: rewrite_for_external_def)

text \<open>A package in a directory with the name of a skipped one is never read.\<close>

lemma npm_walk_skips_package: "npm_walk E (dir @ [''test'']) = []"
  by (simp add: npm_walk_def is_skip_npm_dir_def entry_name_def path_file_name_def)

end
