(* ===== verification/Mcp.thy ===== *)
theory Mcp
  imports Mcp_Params Watcher Externals
begin

text \<open>
  The MCP server (\<^verbatim>\<open>mcp/handler.rs\<close>): its tools, from the validation of the arguments over the queries to the
  value that is printed, the tracker of cheap context calls, and the tools that link workspaces and
  keep the live watcher in step.

  The index, the queue and the watched peers are those of the watcher's state; \<^verbatim>\<open>ms_slot\<close> says whether
  the watcher has been started.  The clock, fresh identifiers, the file system and the parameters of
  the queries are arguments.
\<close>

section \<open>State and arguments\<close>

record mcp_state =
  ms_world :: watch_state
  ms_slot :: bool
  ms_ready :: bool
  ms_recent :: "string \<rightharpoonup> int"

record 'sc mcp_env =
  me_codec :: codec
  me_args :: args_decoder
  me_visit :: row_order
  me_fts :: "string \<Rightarrow> (int \<times> string \<times> string) list \<Rightarrow> int list"
  me_alnum :: "string \<Rightarrow> bool"
  me_score :: "string \<Rightarrow> string \<Rightarrow> 'sc"
  me_lower :: "string \<Rightarrow> string"
  me_in_unit :: "'sc \<Rightarrow> bool"
  me_show_score :: "'sc \<Rightarrow> string"
  me_similar_threshold :: 'sc
  me_did_you_mean_threshold :: 'sc
  me_read_file :: "string \<Rightarrow> string option"

abbreviation ms_db :: "mcp_state \<Rightarrow> db" where
  "ms_db st \<equiv> w_db (ms_world st)"

text \<open>Every tool but those on links, projects and lookups answers at once while the index is built.\<close>

definition progress_of :: "db \<Rightarrow> (64 word \<times> 64 word) option" where
  "progress_of db = (case fst (cold_start_progress db) of Inr p \<Rightarrow> p | Inl _ \<Rightarrow> None)"

definition when_ready :: "mcp_state \<Rightarrow> 'a tool_result \<Rightarrow> 'a tool_result" where
  "when_ready st r = (if ms_ready st then r else Inr (Busy (indexing_in_progress_message (progress_of (ms_db st)))))"

section \<open>Context\<close>

record GetContextResponse =
  gcr_ctx :: SymbolContextWithNeighbors
  gcr_routing_hint :: bool

text \<open>The hint is a fixed text; the flag says whether it is there.\<close>

definition compute_routing_hint :: "mcp_state \<Rightarrow> string \<Rightarrow> 8 word \<Rightarrow> int \<Rightarrow> bool" where
  "compute_routing_hint st fqdn depth now =
    (if depth < 2 then False
     else case ms_recent st fqdn of
       Some ts \<Rightarrow> \<not> now - ts \<le> NAKED_DEPTH_2_WINDOW_SECS
     | None \<Rightarrow> True)"

definition record_recent_depth1 :: "string \<Rightarrow> int \<Rightarrow> mcp_state \<Rightarrow> mcp_state" where
  "record_recent_depth1 fqdn now st =
    st\<lparr>ms_recent := (\<lambda>k. case ms_recent st k of
         Some ts \<Rightarrow> if now - ts \<le> RECENT_DEPTH1_RETENTION_SECS then Some ts else None
       | None \<Rightarrow> None)(fqdn \<mapsto> now)\<rparr>"

definition tool_get_context ::
  "'sc mcp_env \<Rightarrow> int \<Rightarrow> GetContextParams \<Rightarrow> mcp_state \<Rightarrow> GetContextResponse tool_result \<times> mcp_state" where
  "tool_get_context E now p st =
    (if \<not> ms_ready st then (when_ready st (Inr NullReply), st)
     else
       let cache_key = normalize_fqdn (gc_fqdn p);
           depth = or_default GET_CONTEXT_DEFAULT_DEPTH (gc_depth p);
           routing_hint = (if gc_depth p \<noteq> None then compute_routing_hint st cache_key depth now else False);
           st = (if depth \<le> 1 then record_recent_depth1 cache_key now st else st)
       in (map_sum id (\<lambda>found. reply_of (map_option (\<lambda>ctx. \<lparr> gcr_ctx = ctx, gcr_routing_hint = routing_hint \<rparr>) found))
             (from_storage (resolve_fqdn_fallback
               (\<lambda>fqdn. context_for_symbol_with_neighbors (me_codec E) (me_args E) (me_visit E) (ms_db st) fqdn depth) (gc_fqdn p))),
           st))"

record SymbolHeader =
  sh_fqdn :: string
  sh_name :: string
  sh_kind :: Kind
  sh_language_kind :: string
  sh_visibility :: Visibility
  sh_module :: "string option"
  sh_decl_kind :: "DeclKind option"
  sh_implements_trait :: "string option"
  sh_receiver_type :: "string option"
  sh_entry_point :: "EntryPointKind option"

record ContextSummary =
  cm_symbol :: SymbolHeader
  cm_callers :: nat
  cm_callees :: nat
  cm_imports :: nat
  cm_imported_by :: nat
  cm_dependents :: nat
  cm_tests :: nat

definition symbol_header :: "RawSymbol \<Rightarrow> SymbolHeader" where
  "symbol_header s = \<lparr> sh_fqdn = rs_fqdn s, sh_name = rs_name s, sh_kind = rs_kind s,
     sh_language_kind = rs_language_kind s, sh_visibility = rs_visibility s, sh_module = rs_module s,
     sh_decl_kind = rs_decl_kind s, sh_implements_trait = rs_implements_trait s,
     sh_receiver_type = map_option type_display (rs_receiver_type s), sh_entry_point = rs_entry_point s \<rparr>"

definition context_summary :: "SymbolContextWithNeighbors \<Rightarrow> ContextSummary" where
  "context_summary ctx = \<lparr> cm_symbol = symbol_header (sc_symbol (cx_context ctx)), cm_callers = length (cx_callers ctx),
     cm_callees = length (cx_callees ctx), cm_imports = length (cx_imports ctx), cm_imported_by = length (cx_imported_by ctx),
     cm_dependents = length (cx_dependents ctx), cm_tests = length (cx_tests ctx) \<rparr>"

definition tool_get_context_summary :: "'sc mcp_env \<Rightarrow> mcp_state \<Rightarrow> string \<Rightarrow> ContextSummary tool_result" where
  "tool_get_context_summary E st fqdn = when_ready st
    (map_sum id (reply_of \<circ> map_option context_summary)
      (from_storage (resolve_fqdn_fallback
        (\<lambda>f. context_for_symbol_with_neighbors (me_codec E) (me_args E) (me_visit E) (ms_db st) f 1) fqdn)))"

section \<open>Search\<close>

definition compute_did_you_mean :: "('sc :: linorder) mcp_env \<Rightarrow> db \<Rightarrow> string \<Rightarrow> SymbolFilter \<Rightarrow> error_data + 'sc Suggestion list" where
  "compute_did_you_mean E db reference f =
    map_sum id (map suggestion_of)
      (from_storage (find_similar (me_codec E) (me_score E) (me_lower E) db reference (me_did_you_mean_threshold E) f DID_YOU_MEAN_LIMIT))"

text \<open>
  The shared part of \<^verbatim>\<open>find_symbol\<close> and \<^verbatim>\<open>find_symbol_fqdns\<close>: \<^verbatim>\<open>project\<close> is what is kept of a symbol.
\<close>

definition search_symbols ::
  "('sc :: linorder) mcp_env \<Rightarrow> db \<Rightarrow> ('x FindSymbolParams_scheme) \<Rightarrow> (RawSymbol \<Rightarrow> 'a) \<Rightarrow> ('a, 'sc) search_reply tool_result" where
  "search_symbols E db p project =
    (let trimmed = str_trim (fs_query p) in
     if trimmed = [] then Inr (Reply \<lparr> sr_results = [], sr_did_you_mean = [] \<rparr>)
     else
       ebind (parse_filter (fs_kind p) (fs_visibility p) (fs_module p) (fs_include_external p) (fs_workspace_id p)) (\<lambda>f.
       ebind (from_storage (search_text (me_codec E) (me_fts E) (me_alnum E) db trimmed (unat (clamp_limit (fs_limit p))) f)) (\<lambda>found.
       let found = apply_exclude_tests (or_default False (fs_exclude_tests p)) found in
       ebind (if found = [] then compute_did_you_mean E db trimmed f else Inr []) (\<lambda>suggestions.
       Inr (Reply \<lparr> sr_results = map project found, sr_did_you_mean = suggestions \<rparr>)))))"

definition fqdn_row :: "string option \<Rightarrow> RawSymbol \<Rightarrow> string \<times> Kind" where
  "fqdn_row relative_to s = (relative_fqdn (rs_fqdn s) (or_default [] relative_to), rs_kind s)"

definition tool_find_symbol ::
  "('sc :: linorder) mcp_env \<Rightarrow> mcp_state \<Rightarrow> FindSymbolParams \<Rightarrow> (RawSymbol, 'sc) search_reply tool_result" where
  "tool_find_symbol E st p = when_ready st (search_symbols E (ms_db st) p (\<lambda>s. s))"

definition tool_find_symbol_fqdns ::
  "('sc :: linorder) mcp_env \<Rightarrow> mcp_state \<Rightarrow> FindSymbolFqdnsParams \<Rightarrow> (string \<times> Kind, 'sc) search_reply tool_result" where
  "tool_find_symbol_fqdns E st p = when_ready st (search_symbols E (ms_db st) p (fqdn_row (fs_relative_to p)))"

text \<open>The reply of the pattern search: full records, or lean rows when there are many.\<close>

datatype 'sc pattern_reply = Full "(RawSymbol, 'sc) search_reply" | Lean "SummaryRow list"

definition tool_find_symbols_by_pattern ::
  "('sc :: linorder) mcp_env \<Rightarrow> mcp_state \<Rightarrow> FindSymbolsByPatternParams \<Rightarrow> 'sc pattern_reply tool_result" where
  "tool_find_symbols_by_pattern E st p = when_ready st
    (let trimmed = str_trim (fp_pattern p) in
     if trimmed = [] then Inr (Reply (Full \<lparr> sr_results = [], sr_did_you_mean = [] \<rparr>))
     else
       ebind (parse_filter (fp_kind p) (fp_visibility p) (fp_module p) (fp_include_external p) (fp_workspace_id p)) (\<lambda>f.
       ebind (from_storage (find_by_pattern (me_codec E) (ms_db st) trimmed f (unat (clamp_limit (fp_limit p))))) (\<lambda>found.
       let found = apply_exclude_tests (or_default False (fp_exclude_tests p)) found;
           use_summary = or_default (SUMMARY_AUTO_THRESHOLD < length found) (fp_summary p)
       in if use_summary \<and> found \<noteq> [] then Inr (Reply (Lean (map summary_row found)))
          else
            ebind (if found = []
                   then if glob_core_text trimmed = [] then Inr [] else compute_did_you_mean E (ms_db st) (glob_core_text trimmed) f
                   else Inr []) (\<lambda>suggestions.
            Inr (Reply (Full \<lparr> sr_results = found, sr_did_you_mean = suggestions \<rparr>))))))"

definition tool_find_similar_symbols ::
  "('sc :: linorder) mcp_env \<Rightarrow> mcp_state \<Rightarrow> 'sc FindSimilarSymbolsParams \<Rightarrow> (RawSymbol \<times> 'sc, 'sc) search_reply tool_result" where
  "tool_find_similar_symbols E st p = when_ready st
    (let trimmed = str_trim (fi_reference p) in
     if trimmed = [] then Inr (Reply \<lparr> sr_results = [], sr_did_you_mean = [] \<rparr>)
     else
       ebind (parse_threshold (me_in_unit E) (me_show_score E) (me_similar_threshold E) (fi_threshold p)) (\<lambda>threshold.
       ebind (parse_filter (fi_kind p) (fi_visibility p) (fi_module p) (fi_include_external p) None) (\<lambda>f.
       ebind (from_storage (find_similar (me_codec E) (me_score E) (me_lower E) (ms_db st) trimmed threshold f
                (unat (clamp_limit (fi_limit p))))) (\<lambda>found.
       Inr (Reply \<lparr> sr_results = found, sr_did_you_mean = [] \<rparr>)))))"

section \<open>Listings\<close>

definition tool_list_symbols ::
  "'sc mcp_env \<Rightarrow> mcp_state \<Rightarrow> ListSymbolsParams \<Rightarrow> (ListSymbol list \<times> string option) tool_result" where
  "tool_list_symbols E st p = when_ready st
    (ebind (parse_filter (ls_kind p) (ls_visibility p) (ls_module p) (ls_include_external p) (ls_workspace_id p)) (\<lambda>f.
     ebind (from_storage (list_symbols_projected (me_codec E) (ms_db st) f (unat (clamp_limit (ls_limit p))) (ls_cursor p)))
       (\<lambda>(items, next_cursor).
     Inr (Reply (if or_default False (ls_exclude_tests p) then filter (\<lambda>s. \<not> ls_is_test s) items else items, next_cursor)))))"

definition tool_list_symbol_fqdns ::
  "'sc mcp_env \<Rightarrow> mcp_state \<Rightarrow> ListSymbolFqdnsParams \<Rightarrow> ((string \<times> Kind) list \<times> string option) tool_result" where
  "tool_list_symbol_fqdns E st p = when_ready st
    (ebind (parse_filter (ls_kind p) (ls_visibility p) (ls_module p) (ls_include_external p) (ls_workspace_id p)) (\<lambda>f.
     ebind (from_storage (list_symbols (me_codec E) (ms_db st) f (unat (clamp_limit (ls_limit p))) (ls_cursor p))) (\<lambda>page.
     Inr (Reply (map (fqdn_row (ls_relative_to p)) (apply_exclude_tests (or_default False (ls_exclude_tests p)) (lsp_items page)),
       lsp_next_cursor page)))))"

section \<open>Bodies\<close>

definition body_tool :: "'sc mcp_env \<Rightarrow> mcp_state \<Rightarrow> string \<Rightarrow> BodyOptions \<Rightarrow> BodySlice tool_result" where
  "body_tool E st fqdn opts = when_ready st
    (map_sum id reply_of (from_storage
      (resolve_fqdn_fallback (\<lambda>f. body_for_fqdn (me_codec E) (me_read_file E) (ms_db st) f opts) fqdn)))"

definition get_body_options :: "GetBodyParams \<Rightarrow> BodyOptions" where
  "get_body_options p = \<lparr> bo_max_lines = gb_max_lines p, bo_strip_attrs = or_default False (gb_strip_attrs p),
     bo_signature_only = or_default False (gb_signature_only p),
     bo_strip_inline_comments = or_default False (gb_strip_inline_comments p), bo_collapse_blank_lines = False \<rparr>"

definition get_code_options :: "GetBodyParams \<Rightarrow> BodyOptions" where
  "get_code_options p = \<lparr> bo_max_lines = gb_max_lines p, bo_strip_attrs = or_default True (gb_strip_attrs p),
     bo_signature_only = or_default False (gb_signature_only p),
     bo_strip_inline_comments = or_default True (gb_strip_inline_comments p), bo_collapse_blank_lines = True \<rparr>"

definition tool_get_body :: "'sc mcp_env \<Rightarrow> mcp_state \<Rightarrow> GetBodyParams \<Rightarrow> BodySlice tool_result" where
  "tool_get_body E st p = body_tool E st (gb_fqdn p) (get_body_options p)"

definition tool_get_code :: "'sc mcp_env \<Rightarrow> mcp_state \<Rightarrow> GetBodyParams \<Rightarrow> BodySlice tool_result" where
  "tool_get_code E st p = body_tool E st (gb_fqdn p) (get_code_options p)"

section \<open>Revisions\<close>

record CurrentRevisionJson =
  cr_revision :: "64 word"
  cr_watcher_active :: bool
  cr_indexing_ready :: bool
  cr_workspace_kind :: "string option"

text \<open>\<^verbatim>\<open>watched\<close>: another process holds the lock of the workspace.\<close>

definition tool_current_revision :: "bool \<Rightarrow> mcp_state \<Rightarrow> CurrentRevisionJson tool_result" where
  "tool_current_revision watched st =
    Inr (Reply \<lparr> cr_revision = handle_revision (ms_db st), cr_watcher_active = (ms_slot st \<or> watched),
      cr_indexing_ready = ms_ready st,
      cr_workspace_kind = (case fst (read_workspace_kind (ms_db st)) of
         Inr k \<Rightarrow> map_option workspace_kind_as_str k | Inl _ \<Rightarrow> None) \<rparr>)"

datatype StaleStatus = Stale | Fresh | MissingSymbol

record StaleEntryJson =
  se_fqdn :: string
  se_fetched_at_revision :: "64 word"
  se_last_modified_revision :: "64 word option"
  se_status :: StaleStatus

definition stale_entry :: "(string \<rightharpoonup> 64 word) \<Rightarrow> FetchedEntry \<Rightarrow> StaleEntryJson" where
  "stale_entry revisions e =
    (case revisions (fe_fqdn e) of
       Some last_modified_revision \<Rightarrow>
         \<lparr> se_fqdn = fe_fqdn e, se_fetched_at_revision = fe_fetched_at_revision e,
           se_last_modified_revision = Some last_modified_revision,
           se_status = (if fe_fetched_at_revision e < last_modified_revision then Stale else Fresh) \<rparr>
     | None \<Rightarrow> \<lparr> se_fqdn = fe_fqdn e, se_fetched_at_revision = fe_fetched_at_revision e, se_last_modified_revision = None,
           se_status = MissingSymbol \<rparr>)"

definition tool_check_stale :: "mcp_state \<Rightarrow> FetchedEntry list \<Rightarrow> StaleEntryJson list tool_result" where
  "tool_check_stale st fetched = when_ready st
    (Inr (Reply (map (stale_entry (last_modified_revisions_for_fqdns (ms_db st) (map fe_fqdn fetched))) fetched)))"

section \<open>External symbols\<close>

datatype ExternalStatus = StResolved | StNotFound | StMissingBinary | StLockfileNotFound | StError

text \<open>The detail is a text, or the error whose description is printed.\<close>

datatype external_detail = DetailText string | DetailError ExternalsError

record ResolveExternalJson =
  rx_status :: ExternalStatus
  rx_fqdn :: string
  rx_source_origin :: "string option"
  rx_symbol :: "RawSymbol option"
  rx_missing_binary :: "string option"
  rx_detail :: "external_detail option"

fun external_envelope :: "string \<Rightarrow> ExternalsError + ResolveOutcome \<Rightarrow> ResolveExternalJson" where
  "external_envelope fqdn (Inr (ExtResolved s origin)) =
     \<lparr> rx_status = StResolved, rx_fqdn = fqdn, rx_source_origin = Some (source_origin_label origin), rx_symbol = Some s, rx_missing_binary = None,
       rx_detail = None \<rparr>"
| "external_envelope fqdn (Inr NotInThisRegistry) =
     \<lparr> rx_status = StNotFound, rx_fqdn = fqdn, rx_source_origin = None, rx_symbol = None, rx_missing_binary = None,
       rx_detail = Some (DetailText (''no resolver claimed this FQDN '' @ em_dash @ '' the crate / package may not be a workspace dependency'')) \<rparr>"
| "external_envelope fqdn (Inr (MissingBinary binary env_override)) =
     \<lparr> rx_status = StMissingBinary, rx_fqdn = fqdn, rx_source_origin = None, rx_symbol = None, rx_missing_binary = Some binary,
       rx_detail = Some (DetailText (''binary `'' @ binary @ ''` not found in PATH '' @ em_dash @ '' set the env var `'' @ env_override @ ''` to override the lookup'')) \<rparr>"
| "external_envelope fqdn (Inr (LockfileNotFound lockfile)) =
     \<lparr> rx_status = StLockfileNotFound, rx_fqdn = fqdn, rx_source_origin = None, rx_symbol = None, rx_missing_binary = None,
       rx_detail = Some (DetailText (''workspace has no `'' @ lockfile @ ''` at its root'')) \<rparr>"
| "external_envelope fqdn (Inl e) =
     \<lparr> rx_status = StError, rx_fqdn = fqdn, rx_source_origin = None, rx_symbol = None, rx_missing_binary = None,
       rx_detail = Some (DetailError e) \<rparr>"

text \<open>The reply and the commands submitted to the writer; \<^verbatim>\<open>None\<close> when the wait never ends.\<close>

definition tool_resolve_external ::
  "ext_env \<Rightarrow> (resolver \<times> ext_view) list \<Rightarrow> mcp_state \<Rightarrow> string \<Rightarrow> ResolveExternalJson tool_result option \<times> IngestCommand list" where
  "tool_resolve_external X rvs st fqdn =
    (if \<not> ms_ready st then (Some (when_ready st (Inr NullReply)), [])
     else case registry_resolve X rvs fqdn [] of
       (Inl e, q) \<Rightarrow> (Some (Inr (Reply (external_envelope fqdn (Inl e)))), q)
     | (Inr None, q) \<Rightarrow> (None, q)
     | (Inr (Some outcome), q) \<Rightarrow> (Some (Inr (Reply (external_envelope fqdn (Inr outcome)))), q))"

section \<open>Linked workspaces\<close>

record 's link_env =
  le_dirs :: "'s dir_env"
  le_canonicalize :: "string \<Rightarrow> string option"
  le_parse :: "string \<Rightarrow> fs_path"
  le_root :: "string \<Rightarrow> string list option"
  le_uuid :: string
  le_now :: int
  le_watch_ok :: bool
  le_unwatch_ok :: bool

definition with_db :: "db \<Rightarrow> mcp_state \<Rightarrow> mcp_state" where
  "with_db db st = st\<lparr>ms_world := (ms_world st)\<lparr>w_db := db\<rparr>\<rparr>"

definition register_peer_with_watcher :: "'s link_env \<Rightarrow> string \<Rightarrow> string \<Rightarrow> mcp_state \<Rightarrow> mcp_state" where
  "register_peer_with_watcher L workspace_id root st =
    (if ms_slot st then st\<lparr>ms_world := snd (add_peer workspace_id (le_root L root) (le_watch_ok L) (ms_world st))\<rparr> else st)"

definition unregister_peer_from_watcher :: "'s link_env \<Rightarrow> string \<Rightarrow> mcp_state \<Rightarrow> mcp_state" where
  "unregister_peer_from_watcher L workspace_id st =
    (if ms_slot st then st\<lparr>ms_world := snd (remove_peer workspace_id (le_unwatch_ok L) (ms_world st))\<rparr> else st)"

record LinkWorkspaceJson =
  lj_workspace_id :: string
  lj_root_path :: string
  lj_direction :: string

fun link_error :: "LinkWorkspaceError \<Rightarrow> error_data" where
  "link_error (PathNotFound input suggestions) = InvalidParams (''path not found: '' @ input) (LinkDetail input suggestions)"
| "link_error (LinkStorage e) = InternalError (StorageCause e)"

definition tool_link_workspace ::
  "('s :: linorder) link_env \<Rightarrow> LinkWorkspaceParams \<Rightarrow> mcp_state \<Rightarrow> LinkWorkspaceJson tool_result \<times> mcp_state" where
  "tool_link_workspace L p st =
    (case ebind (parse_link_direction (lk_direction p)) (\<lambda>d. ebind (parse_indexing_mode (lk_mode p)) (\<lambda>m. Inr (d, m))) of
       Inl e \<Rightarrow> (Inl e, st)
     | Inr (direction, mode) \<Rightarrow>
         (case link_workspace (le_dirs L) (le_canonicalize L) (le_parse L) (le_uuid L) (le_now L) (lk_path p) direction mode (ms_db st) of
            (Inl e, db) \<Rightarrow> (Inl (link_error e), with_db db st)
          | (Inr workspace_id, db) \<Rightarrow>
              let st = with_db db st
              in (Inr (Reply \<lparr> lj_workspace_id = workspace_id, lj_root_path = lk_path p, lj_direction = link_direction_label direction \<rparr>),
                  if direction \<noteq> LinkDirection.Out then register_peer_with_watcher L workspace_id (lk_path p) st else st)))"

definition tool_unlink_workspace :: "'s link_env \<Rightarrow> string \<Rightarrow> mcp_state \<Rightarrow> unit tool_result \<times> mcp_state" where
  "tool_unlink_workspace L workspace_id st =
    (case unlink_workspace workspace_id (ms_db st) of
       (Inl e, db) \<Rightarrow> (Inl (InternalError (StorageCause e)), with_db db st)
     | (Inr _, db) \<Rightarrow> (Inr (Reply ()), unregister_peer_from_watcher L workspace_id (with_db db st)))"

fun refresh_error :: "RefreshPeerError \<Rightarrow> error_data" where
  "refresh_error (RefreshNotFound w) = InvalidParams (''workspace_id not found: '' @ w) (WorkspaceDetail w)"
| "refresh_error (RefreshStorage e) = InternalError (StorageCause e)"
| "refresh_error (RefreshExtract e) = InternalError (ColdCause e)"

definition tool_refresh_peer ::
  "run_env \<Rightarrow> provider \<Rightarrow> string list \<Rightarrow> string \<Rightarrow> mcp_state \<Rightarrow> PeerExtractStats tool_result \<times> mcp_state" where
  "tool_refresh_peer R P prepared workspace_id st =
    (case refresh_peer R P prepared workspace_id (ms_db st) of
       (Inl e, db) \<Rightarrow> (Inl (refresh_error e), with_db db st)
     | (Inr stats, db) \<Rightarrow> (Inr (Reply stats), with_db db st))"

record SetLinkDirectionJson =
  sj_workspace_id :: string
  sj_root_path :: string
  sj_previous_direction :: string
  sj_new_direction :: string

fun direction_error :: "SetLinkDirectionError \<Rightarrow> error_data" where
  "direction_error (DirectionNotFound w) = InvalidParams (''workspace_id not found: '' @ w) (WorkspaceDetail w)"
| "direction_error (DirectionStorage e) = InternalError (StorageCause e)"

definition cross_watch_boundary :: "'s link_env \<Rightarrow> SetLinkDirectionOutcome \<Rightarrow> mcp_state \<Rightarrow> mcp_state" where
  "cross_watch_boundary L outcome st =
    (case (watches_peer (sld_previous_direction outcome), watches_peer (sld_new_direction outcome)) of
       (False, True) \<Rightarrow> register_peer_with_watcher L (sld_workspace_id outcome) (sld_root_path outcome) st
     | (True, False) \<Rightarrow> unregister_peer_from_watcher L (sld_workspace_id outcome) st
     | _ \<Rightarrow> st)"

definition tool_set_link_direction ::
  "'s link_env \<Rightarrow> SetLinkDirectionParams \<Rightarrow> mcp_state \<Rightarrow> SetLinkDirectionJson tool_result \<times> mcp_state" where
  "tool_set_link_direction L p st =
    (case parse_link_direction (sd_direction p) of
       Inl e \<Rightarrow> (Inl e, st)
     | Inr new_direction \<Rightarrow>
         (case change_link_direction (sd_workspace_id p) new_direction (ms_db st) of
            (Inl e, db) \<Rightarrow> (Inl (direction_error e), with_db db st)
          | (Inr outcome, db) \<Rightarrow>
              (Inr (Reply \<lparr> sj_workspace_id = sld_workspace_id outcome, sj_root_path = sld_root_path outcome,
                  sj_previous_direction = link_direction_label (sld_previous_direction outcome),
                  sj_new_direction = link_direction_label (sld_new_direction outcome) \<rparr>),
               cross_watch_boundary L outcome (with_db db st))))"

section \<open>Read-only tools without a gate\<close>

definition read_tool :: "'a sql \<Rightarrow> mcp_state \<Rightarrow> 'a tool_result" where
  "read_tool m st = map_sum id Reply (from_storage (fst (m (ms_db st))))"

definition tool_list_linked_workspaces :: "mcp_state \<Rightarrow> LinkedWorkspace list tool_result" where
  "tool_list_linked_workspaces st = read_tool list_linked_workspaces st"

definition tool_module_lookup :: "codec \<Rightarrow> string option \<Rightarrow> string \<Rightarrow> mcp_state \<Rightarrow> ModuleLookup tool_result" where
  "tool_module_lookup K workspace_id module_fqdn st =
    map_sum id reply_of (from_storage (fst (query_module_lookup K workspace_id module_fqdn (ms_db st))))"

definition tool_resolve_cross_workspace :: "codec \<Rightarrow> string \<Rightarrow> string \<Rightarrow> mcp_state \<Rightarrow> CrossWorkspaceResolution list tool_result" where
  "tool_resolve_cross_workspace K origin_module origin_symbol st = read_tool (list_cross_workspace_providers K origin_module origin_symbol) st"

definition tool_list_projects :: "mcp_state \<Rightarrow> ProjectInfo list tool_result" where
  "tool_list_projects st = read_tool list_projects st"

definition tool_list_groups :: "(string \<Rightarrow> Stmt list option) \<Rightarrow> (string \<rightharpoonup> root_entry) \<Rightarrow> GroupBlock list tool_result" where
  "tool_list_groups parse root =
    (case load_workspace_config parse root of
       Inl e \<Rightarrow> Inl (InternalError (ConfigCause e))
     | Inr cfg \<Rightarrow> Inr (Reply (case cfg of Some c \<Rightarrow> sxd_groups c | None \<Rightarrow> [])))"

definition tool_project_for_file :: "string \<Rightarrow> mcp_state \<Rightarrow> ProjectInfo tool_result" where
  "tool_project_for_file path st = map_sum id reply_of (from_storage (fst (find_for_file_path path (ms_db st))))"

section \<open>Call sites and graph\<close>

definition tool_find_call_sites :: "'sc mcp_env \<Rightarrow> mcp_state \<Rightarrow> FindCallSitesParams \<Rightarrow> RawCallSite list tool_result" where
  "tool_find_call_sites E st p = when_ready st
    (map_sum id Reply (from_storage (find_call_sites (me_codec E) (me_args E) (ms_db st)
      \<lparr> cf_from_fqdn = Option.bind (fc_from_fqdn p) non_empty, cf_callee_text = Option.bind (fc_callee_text p) non_empty,
        cf_callee_pattern = Option.bind (fc_callee_pattern p) non_empty \<rparr>
      (case fc_limit p of None \<Rightarrow> FIND_CALL_SITES_DEFAULT_LIMIT | Some n \<Rightarrow> ucast n))))"

definition tool_fetch_graph :: "'sc mcp_env \<Rightarrow> mcp_state \<Rightarrow> FetchGraphParams \<Rightarrow> GraphResponse tool_result" where
  "tool_fetch_graph E st p = when_ready st (map_sum id Reply (from_storage (fetch_graph (me_codec E) (ms_db st) (into_request p))))"

text \<open>The version announced at \<^verbatim>\<open>initialize\<close>; the versions the library knows are arguments.\<close>

definition negotiated_protocol_version :: "string list \<Rightarrow> string \<Rightarrow> string \<Rightarrow> string" where
  "negotiated_protocol_version known latest requested = (if requested \<in> set known then requested else latest)"

definition new_mcp :: "watch_state \<Rightarrow> mcp_state" where
  "new_mcp w = \<lparr> ms_world = w, ms_slot = False, ms_ready = False, ms_recent = Map.empty \<rparr>"

text \<open>
  \<^verbatim>\<open>kick_off_indexing\<close>: a secondary process is ready at once and never starts a watcher; otherwise the
  cold start runs, then the tools are ready and the watcher is started.
\<close>

definition kick_off_indexing ::
  "run_env \<Rightarrow> provider \<Rightarrow> source_tree \<Rightarrow> (nat \<Rightarrow> bool) \<Rightarrow> bool \<Rightarrow> bool \<Rightarrow> GitignoreStack \<Rightarrow> mcp_state \<Rightarrow> mcp_state" where
  "kick_off_indexing R P T paused readonly starts filters st =
    (if readonly then st\<lparr>ms_ready := True\<rparr>
     else case cold_start_run R P T paused (ms_db st) of
       (Inl _, db) \<Rightarrow> with_db db st
     | (Inr _, db) \<Rightarrow>
         (case spawn_watcher starts db filters of
            Inl _ \<Rightarrow> (with_db db st)\<lparr>ms_ready := True\<rparr>
          | Inr w \<Rightarrow> st\<lparr>ms_world := w, ms_ready := True, ms_slot := True\<rparr>))"

section \<open>The hint of a context call\<close>

text \<open>A call as the client sees it: its time and its parameters; \<^verbatim>\<open>mapped\<close> calls are those of depth one.\<close>

fun context_calls :: "'sc mcp_env \<Rightarrow> (int \<times> GetContextParams) list \<Rightarrow> mcp_state \<Rightarrow> mcp_state" where
  "context_calls E [] st = st"
| "context_calls E ((now, p) # calls) st = context_calls E calls (snd (tool_get_context E now p st))"

definition maps_symbol :: "string \<Rightarrow> GetContextParams \<Rightarrow> bool" where
  "maps_symbol key q \<longleftrightarrow> or_default GET_CONTEXT_DEFAULT_DEPTH (gc_depth q) \<le> 1 \<and> normalize_fqdn (gc_fqdn q) = key"

text \<open>The tracker holds only times of such calls, and a time at least as late as every call not older than the retention.\<close>

definition tracks :: "(int \<times> GetContextParams) list \<Rightarrow> int \<Rightarrow> (string \<rightharpoonup> int) \<Rightarrow> bool" where
  "tracks calls latest recent \<longleftrightarrow>
     (\<forall>k ts. recent k = Some ts \<longrightarrow> (\<exists>q. (ts, q) \<in> set calls \<and> maps_symbol k q)) \<and>
     (\<forall>t q. (t, q) \<in> set calls \<longrightarrow> maps_symbol (normalize_fqdn (gc_fqdn q)) q \<longrightarrow> latest - t \<le> RECENT_DEPTH1_RETENTION_SECS \<longrightarrow>
        (\<exists>ts\<ge>t. recent (normalize_fqdn (gc_fqdn q)) = Some ts))"

lemma reply_of_found:
  "map_sum id (\<lambda>found. reply_of (map_option g found)) (from_storage r) = Inr (Reply y) \<Longrightarrow> \<exists>x. r = Inr (Some x) \<and> y = g x"
  by (cases r) (auto simp: from_storage_def reply_of_def split: option.splits)

lemma tool_get_context_recent:
  "ms_ready st \<Longrightarrow> ms_ready (snd (tool_get_context E now p st)) \<and>
   ms_recent (snd (tool_get_context E now p st)) =
     (if or_default GET_CONTEXT_DEFAULT_DEPTH (gc_depth p) \<le> 1
      then ms_recent (record_recent_depth1 (normalize_fqdn (gc_fqdn p)) now st) else ms_recent st)"
  by (simp add: tool_get_context_def Let_def record_recent_depth1_def)

lemma tracks_step:
  assumes tr: "tracks calls latest (ms_recent st)" and r: "ms_ready st" and le: "latest \<le> now"
    and past: "\<forall>x\<in>set calls. fst x \<le> now"
  shows "tracks (calls @ [(now, p)]) now (ms_recent (snd (tool_get_context E now p st)))"
proof (cases "or_default GET_CONTEXT_DEFAULT_DEPTH (gc_depth p) \<le> 1")
  case True
  let ?key = "normalize_fqdn (gc_fqdn p)"
  have rec: "ms_recent (snd (tool_get_context E now p st)) = ms_recent (record_recent_depth1 ?key now st)"
    using tool_get_context_recent[OF r, of E now p] True by simp
  have "maps_symbol ?key p" using True by (simp add: maps_symbol_def)
  show ?thesis unfolding rec tracks_def
  proof (intro conjI allI impI)
    fix k ts assume "ms_recent (record_recent_depth1 ?key now st) k = Some ts"
    then show "\<exists>q. (ts, q) \<in> set (calls @ [(now, p)]) \<and> maps_symbol k q"
      using tr \<open>maps_symbol ?key p\<close> by (fastforce simp: record_recent_depth1_def tracks_def split: if_splits option.splits)
  next
    fix t q assume q: "(t, q) \<in> set (calls @ [(now, p)])" "maps_symbol (normalize_fqdn (gc_fqdn q)) q"
      and near: "now - t \<le> RECENT_DEPTH1_RETENTION_SECS"
    show "\<exists>ts\<ge>t. ms_recent (record_recent_depth1 ?key now st) (normalize_fqdn (gc_fqdn q)) = Some ts"
    proof (cases "normalize_fqdn (gc_fqdn q) = ?key")
      case same: True
      have "t \<le> now" using q(1) past by auto
      then show ?thesis using same by (simp add: record_recent_depth1_def)
    next
      case False
      then have "(t, q) \<in> set calls" using q(1) by auto
      then obtain ts where "t \<le> ts" "ms_recent st (normalize_fqdn (gc_fqdn q)) = Some ts"
        using tr q(2) near le unfolding tracks_def by force
      then show ?thesis using False near by (auto simp: record_recent_depth1_def)
    qed
  qed
next
  case False
  then have "ms_recent (snd (tool_get_context E now p st)) = ms_recent st"
    using tool_get_context_recent[OF r, of E now p] by simp
  moreover have "\<not> maps_symbol k p" for k using False by (simp add: maps_symbol_def)
  ultimately show ?thesis using tr le unfolding tracks_def by fastforce
qed

lemma tracks_calls:
  assumes "tracks past latest (ms_recent st)" "ms_ready st" "\<forall>x\<in>set past. fst x \<le> latest"
    "sorted (latest # map fst calls)"
  shows "ms_ready (context_calls E calls st) \<and>
    tracks (past @ calls) (last (latest # map fst calls)) (ms_recent (context_calls E calls st))"
  using assms
proof (induction E calls st arbitrary: past latest rule: context_calls.induct)
  case (2 E now p calls st)
  have le: "latest \<le> now" "sorted (now # map fst calls)" using "2.prems"(4) by auto
  have past: "\<forall>x\<in>set past. fst x \<le> now" using "2.prems"(3) le(1) by force
  have "tracks (past @ [(now, p)]) now (ms_recent (snd (tool_get_context E now p st)))"
    by (rule tracks_step[OF "2.prems"(1,2) le(1) past])
  moreover have "ms_ready (snd (tool_get_context E now p st))" using tool_get_context_recent[OF "2.prems"(2), of E now p] by simp
  ultimately show ?case using "2.IH"[of "past @ [(now, p)]" now] past le(2) by simp
qed simp

text \<open>
  C37. The nudge of \<^verbatim>\<open>get_context\<close> is exact. After any calls in the order of time, a call carries the
  routing hint exactly when it asks for a depth of two or more explicitly and no earlier call of depth
  one named the same symbol, in either spelling, within the last five minutes.
\<close>

theorem routing_hint_exact:
  assumes fresh: "ms_ready st" "ms_recent st = Map.empty" and times: "sorted (map fst calls @ [now])"
    and reply: "fst (tool_get_context E now p (context_calls E calls st)) = Inr (Reply response)"
  shows "gcr_routing_hint response \<longleftrightarrow> (\<exists>d. gc_depth p = Some d \<and> 2 \<le> d) \<and>
    \<not> (\<exists>t q. (t, q) \<in> set calls \<and> maps_symbol (normalize_fqdn (gc_fqdn p)) q \<and> now - t \<le> 300)"
proof -
  let ?st = "context_calls E calls st" and ?key = "normalize_fqdn (gc_fqdn p)"
  define start where "start = (case calls of [] \<Rightarrow> now | c # _ \<Rightarrow> fst c)"
  have srt: "sorted (start # map fst calls)" using times by (cases calls) (auto simp: start_def sorted_append)
  have "tracks [] start (ms_recent st)" using fresh by (simp add: tracks_def)
  from tracks_calls[OF this fresh(1) _ srt, of E] have r: "ms_ready ?st"
      and tr: "tracks calls (last (start # map fst calls)) (ms_recent ?st)" by auto
  have latest: "last (start # map fst calls) \<le> now" using times by (cases calls rule: rev_cases) (auto simp: start_def sorted_append)
  have hint: "gcr_routing_hint response \<longleftrightarrow> gc_depth p \<noteq> None \<and> compute_routing_hint ?st ?key (or_default GET_CONTEXT_DEFAULT_DEPTH (gc_depth p)) now"
    using reply r by (auto simp: tool_get_context_def Let_def dest!: reply_of_found split: if_splits)
  have "(\<exists>ts. ms_recent ?st ?key = Some ts \<and> now - ts \<le> 300) \<longleftrightarrow> (\<exists>t q. (t, q) \<in> set calls \<and> maps_symbol ?key q \<and> now - t \<le> 300)"
  proof
    assume "\<exists>t q. (t, q) \<in> set calls \<and> maps_symbol ?key q \<and> now - t \<le> 300"
    then obtain t q where q: "(t, q) \<in> set calls" "maps_symbol ?key q" "now - t \<le> 300" by blast
    then have "normalize_fqdn (gc_fqdn q) = ?key" "last (start # map fst calls) - t \<le> RECENT_DEPTH1_RETENTION_SECS"
      using latest by (auto simp: maps_symbol_def RECENT_DEPTH1_RETENTION_SECS_def)
    then obtain ts where "t \<le> ts" "ms_recent ?st ?key = Some ts" using tr q(1,2) unfolding tracks_def by metis
    then show "\<exists>ts. ms_recent ?st ?key = Some ts \<and> now - ts \<le> 300" using q(3) by auto
  next
    assume "\<exists>ts. ms_recent ?st ?key = Some ts \<and> now - ts \<le> 300"
    then show "\<exists>t q. (t, q) \<in> set calls \<and> maps_symbol ?key q \<and> now - t \<le> 300" using tr unfolding tracks_def by blast
  qed
  then show ?thesis unfolding hint
    by (cases "gc_depth p"; cases "ms_recent ?st ?key")
      (auto simp: compute_routing_hint_def or_default_def NAKED_DEPTH_2_WINDOW_SECS_def not_less)
qed

definition demo_mcp_env :: "nat mcp_env" where
  "demo_mcp_env = \<lparr> me_codec = demo_codec, me_args = demo_args, me_visit = id, me_fts = (\<lambda>_ _. []), me_alnum = (\<lambda>_. True),
     me_score = (\<lambda>_ _. 0), me_lower = id, me_in_unit = (\<lambda>_. True), me_show_score = (\<lambda>_. []), me_similar_threshold = 8,
     me_did_you_mean_threshold = 6, me_read_file = (\<lambda>_. None) \<rparr>"

definition demo_watch_state :: watch_state where
  "demo_watch_state = \<lparr> w_db = demo_db, w_queue = [], w_filters = no_filters, w_peers = [], w_debouncer = True \<rparr>"

definition demo_mcp :: mcp_state where
  "demo_mcp = (new_mcp demo_watch_state)\<lparr>ms_ready := True\<rparr>"

text \<open>A cheap call at second 100 keeps the call at second 400 free of the hint, not the one at 401.\<close>

theorem routing_hint_exact_witness:
  "let p = \<lparr> gc_fqdn = ''f'', gc_depth = Some 2 \<rparr>; calls = [(100, \<lparr> gc_fqdn = ''f'', gc_depth = Some 1 \<rparr>)]
   in \<exists>near far. fst (tool_get_context demo_mcp_env 400 p (context_calls demo_mcp_env calls demo_mcp)) = Inr (Reply near) \<and>
     \<not> gcr_routing_hint near \<and>
     fst (tool_get_context demo_mcp_env 401 p (context_calls demo_mcp_env calls demo_mcp)) = Inr (Reply far) \<and> gcr_routing_hint far"
proof -
  let ?p = "\<lparr> gc_fqdn = ''f'', gc_depth = Some 2 \<rparr> :: GetContextParams"
  let ?q = "\<lparr> gc_fqdn = ''f'', gc_depth = Some 1 \<rparr> :: GetContextParams"
  let ?st = "context_calls demo_mcp_env [(100, ?q)] demo_mcp"
  have f: "map_sum id (map_option (\<lambda>_. ())) (context_for_symbol_with_neighbors demo_codec demo_args id demo_db ''f'' 2) = Inr (Some ())"
    by code_simp
  have start: "ms_ready demo_mcp" "ms_recent demo_mcp = Map.empty" by (simp_all add: demo_mcp_def new_mcp_def)
  have st: "ms_ready ?st" "ms_db ?st = demo_db"
    by (simp_all add: tool_get_context_def Let_def demo_mcp_def new_mcp_def demo_watch_state_def record_recent_depth1_def)
  have found: "\<exists>r. fst (tool_get_context demo_mcp_env now ?p s) = Inr (Reply r)" if "ms_ready s" "ms_db s = demo_db" for now s
  proof -
    obtain x where "context_for_symbol_with_neighbors demo_codec demo_args id demo_db ''f'' 2 = Inr (Some x)"
      using f by (cases "context_for_symbol_with_neighbors demo_codec demo_args id demo_db ''f'' 2") auto
    then show ?thesis using that
      by (simp add: tool_get_context_def Let_def demo_mcp_env_def record_recent_depth1_def resolve_fqdn_fallback_def from_storage_def reply_of_def or_default_def)
  qed
  have key: "normalize_fqdn ''f'' = ''f''" by code_simp
  have called: "maps_symbol ''f'' ?q" by (simp add: maps_symbol_def key or_default_def)
  obtain near far where n: "fst (tool_get_context demo_mcp_env 400 ?p ?st) = Inr (Reply near)"
      and f: "fst (tool_get_context demo_mcp_env 401 ?p ?st) = Inr (Reply far)" using found[OF st] by metis
  have "\<not> gcr_routing_hint near" using routing_hint_exact[OF start _ n] called by (simp add: key)
  moreover have "gcr_routing_hint far" using routing_hint_exact[OF start _ f] by simp
  ultimately show ?thesis unfolding Let_def using n f by blast
qed

section \<open>The watcher follows the links\<close>

text \<open>The workspaces whose sources the primary reads.\<close>

definition read_links :: "db \<Rightarrow> string set" where
  "read_links db = {wc_workspace_id r |r. r \<in> set (t_catalog db) \<and> wc_link_direction r \<noteq> link_direction_as_i64 LinkDirection.Out}"

definition links_ok :: "mcp_state \<Rightarrow> bool" where
  "links_ok st \<longleftrightarrow> distinct (map wc_workspace_id (t_catalog (ms_db st))) \<and>
     distinct (map pr_workspace_id (w_peers (ms_world st))) \<and>
     pr_workspace_id ` set (w_peers (ms_world st)) \<subseteq> read_links (ms_db st) \<and>
     (if ms_slot st then w_debouncer (ms_world st) else w_peers (ms_world st) = [])"

lemma with_db_simps [simp]:
  "ms_world (with_db db st) = (ms_world st)\<lparr>w_db := db\<rparr>" "ms_slot (with_db db st) = ms_slot st"
  by (simp_all add: with_db_def)

lemma links_ok_more:
  "links_ok st \<Longrightarrow> distinct (map wc_workspace_id (t_catalog db)) \<Longrightarrow> read_links (ms_db st) \<subseteq> read_links db \<Longrightarrow> links_ok (with_db db st)"
  by (auto simp: links_ok_def)

lemma register_links_ok:
  "links_ok st \<Longrightarrow> w \<in> read_links (ms_db st) \<Longrightarrow> links_ok (register_peer_with_watcher L w root st)"
  by (auto simp: links_ok_def register_peer_with_watcher_def add_peer_def list_ex_iff split: option.splits)

lemma remove_first_gone:
  "remove_first (\<lambda>x. f x = k) xs = (r, ys) \<Longrightarrow> distinct (map f xs) \<Longrightarrow> set ys = {x \<in> set xs. f x \<noteq> k}"
proof (induction xs arbitrary: r ys)
  case (Cons x xs)
  obtain r' ys' where "remove_first (\<lambda>x. f x = k) xs = (r', ys')" by fastforce
  with Cons show ?case by (cases "f x = k") (auto simp: image_iff)
qed simp

lemma unregister_links_ok:
  assumes ok: "links_ok st" and cat: "distinct (map wc_workspace_id (t_catalog db))" "read_links (ms_db st) - {w} \<subseteq> read_links db"
  shows "links_ok (unregister_peer_from_watcher L w (with_db db st))"
proof -
  obtain r ys where rf: "remove_first (\<lambda>p. pr_workspace_id p = w) (w_peers (ms_world st)) = (r, ys)" by fastforce
  have d: "distinct (map pr_workspace_id (w_peers (ms_world st)))" using ok by (simp add: links_ok_def)
  have ys: "set ys = {p \<in> set (w_peers (ms_world st)). pr_workspace_id p \<noteq> w}" "distinct (map pr_workspace_id ys)"
    using remove_first_gone[OF rf d] remove_first_distinct[OF rf, of pr_workspace_id] d by auto
  show ?thesis
  proof (cases "ms_slot st")
    case True
    then have "w_debouncer (ms_world st)" using ok by (simp add: links_ok_def)
    then show ?thesis using True ok cat ys
      by (auto simp: links_ok_def unregister_peer_from_watcher_def remove_peer_def rf)
  next
    case False
    then show ?thesis using ok cat by (simp add: links_ok_def unregister_peer_from_watcher_def)
  qed
qed

lemma catalog_rows_unique:
  "distinct (map wc_workspace_id rows) \<Longrightarrow> r \<in> set rows \<Longrightarrow> q \<in> set rows \<Longrightarrow> wc_workspace_id r = wc_workspace_id q \<Longrightarrow> r = q"
  by (metis distinct_map inj_onD)

lemma link_workspace_Inl: "link_workspace D c pa uuid now root d m db = (Inl e, db') \<Longrightarrow> db' = db"
  by (cases "c root") (auto simp: link_workspace_def register_linked_workspace_def map_err_def sx_apply sthen_def sbind_def
      sql_insert_catalog_def split: if_splits)

lemma link_tool_state:
  obtains "snd (tool_link_workspace L p st) = st"
  | direction mode canonical where "le_uuid L \<notin> wc_workspace_id ` set (t_catalog (ms_db st))"
      "snd (tool_link_workspace L p st) =
         (let linked = with_db ((ms_db st)\<lparr>t_catalog := t_catalog (ms_db st) @ [link_row (le_uuid L) (le_now L) canonical direction mode]\<rparr>) st
          in if direction \<noteq> LinkDirection.Out then register_peer_with_watcher L (le_uuid L) (lk_path p) linked else linked)"
proof (cases "ebind (parse_link_direction (lk_direction p)) (\<lambda>d. ebind (parse_indexing_mode (lk_mode p)) (\<lambda>m. Inr (d, m)))")
  case (Inl e)
  then show thesis using that(1) by (simp add: tool_link_workspace_def)
next
  case parsed: (Inr dm)
  obtain direction mode where dm: "dm = (direction, mode)" by fastforce
  obtain r db where run: "link_workspace (le_dirs L) (le_canonicalize L) (le_parse L) (le_uuid L) (le_now L) (lk_path p) direction mode (ms_db st) = (r, db)"
    by fastforce
  show thesis
  proof (cases r)
    case (Inl e)
    then have "snd (tool_link_workspace L p st) = with_db (ms_db st) st"
      using link_workspace_Inl[OF run[unfolded Inl]] parsed dm run by (simp add: tool_link_workspace_def)
    then show thesis using that(1) by (simp add: with_db_def)
  next
    case (Inr w)
    from run[unfolded Inr] obtain canonical where l: "w = le_uuid L" "le_uuid L \<notin> wc_workspace_id ` set (t_catalog (ms_db st))"
        "db = (ms_db st)\<lparr>t_catalog := t_catalog (ms_db st) @ [link_row (le_uuid L) (le_now L) canonical direction mode]\<rparr>"
      by (rule link_workspace_Inr)
    show thesis
      by (rule that(2)[OF l(2), where direction = direction and mode = mode and canonical = canonical])
        (simp add: tool_link_workspace_def parsed dm run Inr l(1) Let_def flip: l(3))
  qed
qed

lemma link_tool_ok:
  assumes ok: "links_ok st"
  shows "links_ok (snd (tool_link_workspace L p st))"
proof (cases rule: link_tool_state[of L p st])
  case (2 direction mode canonical)
  define db where "db = (ms_db st)\<lparr>t_catalog := t_catalog (ms_db st) @ [link_row (le_uuid L) (le_now L) canonical direction mode]\<rparr>"
  have row: "wc_workspace_id (link_row (le_uuid L) (le_now L) canonical direction mode) = le_uuid L" by (simp add: link_row_def)
  have "links_ok (with_db db st)"
    by (rule links_ok_more[OF ok]) (use ok 2(1) row in \<open>auto simp: db_def links_ok_def read_links_def\<close>)
  moreover have "le_uuid L \<in> read_links db" if "direction \<noteq> LinkDirection.Out"
    unfolding read_links_def mem_Collect_eq
    by (intro exI[of _ "link_row (le_uuid L) (le_now L) canonical direction mode"]) (use that in \<open>cases direction; simp add: db_def link_row_def\<close>)
  ultimately show ?thesis using register_links_ok[of "with_db db st" "le_uuid L" L "lk_path p"]
    unfolding 2(2) Let_def db_def[symmetric] by simp
qed (use ok in simp)

lemma unlink_tool_ok:
  assumes ok: "links_ok st"
  shows "links_ok (snd (tool_unlink_workspace L w st))"
proof -
  obtain db where u: "unlink_workspace w (ms_db st) = (Inr (), db)" "t_catalog db = delete_by wc_workspace_id w (t_catalog (ms_db st))"
    by (simp add: unlink_workspace_def unregister_linked_workspace_def sthen_def sbind_def map_err_def
        sql_delete_imports_where_def sql_delete_lookups_where_def)
  have "distinct (map wc_workspace_id (t_catalog db))" using ok by (simp add: links_ok_def u(2) delete_by_def distinct_map_filter)
  moreover have "read_links (ms_db st) - {w} \<subseteq> read_links db" by (auto simp: read_links_def u(2) delete_by_def)
  ultimately show ?thesis using unregister_links_ok[OF ok] by (simp add: tool_unlink_workspace_def u(1))
qed

lemma change_direction_Inr:
  assumes "change_link_direction w d db = (Inr outcome, db')"
  obtains r where "lookup_by wc_workspace_id w (t_catalog db) = Some r" "sld_workspace_id outcome = w" "sld_new_direction outcome = d"
    "wc_link_direction r = link_direction_as_i64 (sld_previous_direction outcome)"
    "db' = db\<lparr>t_catalog := map (\<lambda>q. if wc_workspace_id q = w then q\<lparr>wc_link_direction := link_direction_as_i64 d\<rparr> else q) (t_catalog db)\<rparr>"
proof (cases "lookup_by wc_workspace_id w (t_catalog db)")
  case (Some r)
  then obtain peer where p: "row_to_linked_workspace r = Inr peer" "sld_workspace_id outcome = w" "sld_new_direction outcome = d"
      "sld_previous_direction outcome = lw_link_direction peer" "set_link_direction w d db = (Inr (), db')"
    using assms by (auto simp: change_link_direction_def get_linked_workspace_def sx_apply map_err_def elim!: sbind_InrE sthen_InrE
        split: sum.splits prod.splits)
  have "wc_link_direction r = link_direction_as_i64 (lw_link_direction peer)"
    using p(1) by (auto simp: row_to_linked_workspace_def link_direction_from_i64_def split: option.splits if_splits)
  moreover have "db' = db\<lparr>t_catalog := map (\<lambda>q. if wc_workspace_id q = w then q\<lparr>wc_link_direction := link_direction_as_i64 d\<rparr> else q) (t_catalog db)\<rparr>"
    using p(5) by (auto simp: set_link_direction_def update_catalog_def Let_def split: if_splits)
  ultimately show thesis using that[OF Some p(2,3)] p(4) by simp
qed (use assms in \<open>auto simp: change_link_direction_def get_linked_workspace_def sx_apply map_err_def elim!: sbind_InrE\<close>)

lemma change_direction_Inl: "change_link_direction w d db = (Inl e, db') \<Longrightarrow> db' = db"
  by (auto simp: change_link_direction_def get_linked_workspace_def sx_apply map_err_def sbind_def sthen_def set_link_direction_def
      update_catalog_def Let_def split: option.splits sum.splits if_splits prod.splits)

lemma watches_peer_iff: "watches_peer d \<longleftrightarrow> d \<noteq> LinkDirection.Out"
  by (cases d) (simp_all add: watches_peer_def)

lemma as_i64_out [simp]: "link_direction_as_i64 d = 1 \<longleftrightarrow> d = LinkDirection.Out"
  by (cases d) simp_all

lemma direction_tool_ok:
  assumes ok: "links_ok st"
  shows "links_ok (snd (tool_set_link_direction L p st))"
proof (cases "parse_link_direction (sd_direction p)")
  case (Inl e)
  then show ?thesis using ok by (simp add: tool_set_link_direction_def)
next
  case parsed: (Inr d)
  obtain res db where run: "change_link_direction (sd_workspace_id p) d (ms_db st) = (res, db)" by fastforce
  show ?thesis
  proof (cases res)
    case (Inl e)
    then have "db = ms_db st" using change_direction_Inl run by blast
    then show ?thesis using ok parsed run Inl by (simp add: tool_set_link_direction_def links_ok_def)
  next
    case (Inr outcome)
    from run[unfolded Inr] obtain r where c: "lookup_by wc_workspace_id (sd_workspace_id p) (t_catalog (ms_db st)) = Some r"
        "sld_workspace_id outcome = sd_workspace_id p" "sld_new_direction outcome = d"
        "wc_link_direction r = link_direction_as_i64 (sld_previous_direction outcome)"
        and db: "db = (ms_db st)\<lparr>t_catalog := map (\<lambda>q. if wc_workspace_id q = sd_workspace_id p
            then q\<lparr>wc_link_direction := link_direction_as_i64 d\<rparr> else q) (t_catalog (ms_db st))\<rparr>"
      by (rule change_direction_Inr)
    let ?w = "sd_workspace_id p"
    have ids: "map wc_workspace_id (t_catalog db) = map wc_workspace_id (t_catalog (ms_db st))" unfolding db by simp
    have cat: "distinct (map wc_workspace_id (t_catalog db))" using ok unfolding ids by (simp add: links_ok_def)
    have r: "r \<in> set (t_catalog (ms_db st))" "wc_workspace_id r = ?w" using lookup_by_Some[OF c(1)] by auto
    have others: "read_links (ms_db st) - {?w} \<subseteq> read_links db" unfolding read_links_def db by auto
    have state: "snd (tool_set_link_direction L p st) = cross_watch_boundary L outcome (with_db db st)"
      using parsed run Inr by (simp add: tool_set_link_direction_def)
    show ?thesis
    proof (cases "d = LinkDirection.Out")
      case False
      then have w: "?w \<in> read_links db"
        unfolding read_links_def db mem_Collect_eq
        using r by (intro exI[of _ "r\<lparr>wc_link_direction := link_direction_as_i64 d\<rparr>"]) (auto simp: image_iff)
      have "links_ok (with_db db st)" by (rule links_ok_more[OF ok cat]) (use others w in blast)
      then show ?thesis using register_links_ok[of "with_db db st" ?w] w False
        unfolding state cross_watch_boundary_def by (auto simp: watches_peer_iff c split: bool.splits)
    next
      case out: True
      show ?thesis
      proof (cases "sld_previous_direction outcome = LinkDirection.Out")
        case True
        have "?w \<notin> read_links (ms_db st)"
        proof
          assume "?w \<in> read_links (ms_db st)"
          then obtain q where "q \<in> set (t_catalog (ms_db st))" "wc_workspace_id q = ?w" "wc_link_direction q \<noteq> 1"
            by (auto simp: read_links_def)
          moreover have "wc_link_direction r = 1" using c(4) True by simp
          ultimately show False using catalog_rows_unique[of "t_catalog (ms_db st)" r q] ok r by (auto simp: links_ok_def)
        qed
        then have "links_ok (with_db db st)" using others by (intro links_ok_more[OF ok cat]) blast
        then show ?thesis using True out unfolding state by (simp add: cross_watch_boundary_def watches_peer_iff c)
      next
        case False
        then show ?thesis using unregister_links_ok[OF ok cat others, of L] out
          unfolding state by (simp add: cross_watch_boundary_def watches_peer_iff c)
      qed
    qed
  qed
qed

text \<open>
  The tools, the start of the watcher, and whatever else works on the index in between (the writer, the
  watcher's own events, a refresh of a peer) as long as it leaves the identifiers and the directions
  of the catalog alone.  Similarities are numbers here: they order the suggestions and touch no state.
\<close>

definition same_links :: "db \<Rightarrow> db \<Rightarrow> bool" where
  "same_links db db' \<longleftrightarrow>
     map (\<lambda>r. (wc_workspace_id r, wc_link_direction r)) (t_catalog db') = map (\<lambda>r. (wc_workspace_id r, wc_link_direction r)) (t_catalog db)"

inductive mcp_step :: "mcp_state \<Rightarrow> mcp_state \<Rightarrow> bool" where
  linked: "tool_link_workspace (L :: nat link_env) p st = (r, st') \<Longrightarrow> mcp_step st st'"
| unlinked: "tool_unlink_workspace (L :: nat link_env) w st = (r, st') \<Longrightarrow> mcp_step st st'"
| directed: "tool_set_link_direction (L :: nat link_env) d st = (r, st') \<Longrightarrow> mcp_step st st'"
| asked: "tool_get_context (E :: nat mcp_env) now q st = (r, st') \<Longrightarrow> mcp_step st st'"
| indexed: "same_links (ms_db st) db \<Longrightarrow> mcp_step st (st\<lparr>ms_world := (ms_world st)\<lparr>w_db := db, w_queue := queue, w_filters := filters\<rparr>\<rparr>)"
| started: "same_links (ms_db st) (ms_db st') \<Longrightarrow> \<not> ms_slot st \<Longrightarrow> kick_off_indexing R P T paused readonly starts fs st = st' \<Longrightarrow> mcp_step st st'"

lemma same_links_read: "same_links db db' \<Longrightarrow> read_links db' = read_links db \<and> map wc_workspace_id (t_catalog db') = map wc_workspace_id (t_catalog db)"
proof
  assume eq: "same_links db db'"
  have "read_links d = fst ` {x \<in> set (map (\<lambda>r. (wc_workspace_id r, wc_link_direction r)) (t_catalog d)). snd x \<noteq> 1}" for d
    by (force simp: read_links_def)
  then show "read_links db' = read_links db" using eq by (simp only: same_links_def)
  have "map fst (map (\<lambda>r. (wc_workspace_id r, wc_link_direction r)) (t_catalog d)) = map wc_workspace_id (t_catalog d)" for d
    by (simp add: comp_def)
  then show "map wc_workspace_id (t_catalog db') = map wc_workspace_id (t_catalog db)" using eq by (metis same_links_def)
qed

lemma started_links_ok:
  assumes ok: "links_ok st" and same: "same_links (ms_db st) (ms_db st')" and off: "\<not> ms_slot st"
    and run: "kick_off_indexing R P T paused readonly starts fs st = st'"
  shows "links_ok st'"
proof -
  have "w_peers (ms_world st') = [] \<and> (ms_slot st' \<longrightarrow> w_debouncer (ms_world st'))"
    using ok off run by (auto simp: kick_off_indexing_def links_ok_def spawn_watcher_def split: if_splits prod.splits sum.splits)
  then show ?thesis using ok same_links_read[OF same] by (simp add: links_ok_def)
qed

interpretation linking: step_invariant mcp_step links_ok
proof unfold_locales
  fix st st' assume "mcp_step st st'" and ok: "links_ok st"
  then show "links_ok st'"
  proof (cases rule: mcp_step.cases)
    case linked
    then show ?thesis using link_tool_ok[OF ok] by (metis snd_conv)
  next
    case unlinked
    then show ?thesis using unlink_tool_ok[OF ok] by (metis snd_conv)
  next
    case directed
    then show ?thesis using direction_tool_ok[OF ok] by (metis snd_conv)
  next
    case (asked E now q r)
    have "ms_world (snd (tool_get_context E now q st)) = ms_world st \<and> ms_slot (snd (tool_get_context E now q st)) = ms_slot st"
      by (simp add: tool_get_context_def Let_def record_recent_depth1_def)
    then show ?thesis using ok asked by (simp add: links_ok_def)
  next
    case (indexed db queue filters)
    then show ?thesis using ok same_links_read[OF indexed(2)] by (simp add: links_ok_def)
  next
    case started
    then show ?thesis using started_links_ok[OF ok] by blast
  qed
qed


definition demo_link_env :: "nat link_env" where
  "demo_link_env = \<lparr> le_dirs = demo_dirs, le_canonicalize = Some, le_parse = (\<lambda>_. \<lparr> fp_absolute = True, fp_components = [] \<rparr>),
     le_root = (\<lambda>_. Some [''p'']), le_uuid = ''u'', le_now = 5, le_watch_ok = True, le_unwatch_ok = True \<rparr>"

definition linked_mcp :: mcp_state where
  "linked_mcp = snd (tool_link_workspace demo_link_env \<lparr> lk_path = ''/p'', lk_direction = ''in'', lk_mode = None \<rparr> (demo_mcp\<lparr>ms_slot := True\<rparr>))"

lemma linked_mcp_eq:
  "linked_mcp = demo_mcp\<lparr>ms_slot := True, ms_world := demo_watch_state
     \<lparr>w_db := demo_db\<lparr>t_catalog := [link_row ''u'' 5 ''/p'' LinkDirection.In BlobImport]\<rparr>, w_peers := [\<lparr> pr_workspace_id = ''u'', pr_root = [''p''] \<rparr>]\<rparr>\<rparr>"
proof -
  have "t_catalog demo_db = []" by (simp add: demo_db_def init_db_def)
  then have "link_workspace demo_dirs Some (\<lambda>_. \<lparr> fp_absolute = True, fp_components = [] \<rparr>) ''u'' 5 ''/p'' LinkDirection.In BlobImport demo_db =
      (Inr ''u'', demo_db\<lparr>t_catalog := [link_row ''u'' 5 ''/p'' LinkDirection.In BlobImport]\<rparr>)"
    by (simp add: link_workspace_def register_linked_workspace_def sql_insert_catalog_def catalog_checks_def sthen_def sbind_def
        map_err_def sx_apply link_row_def)
  then show ?thesis
    by (simp add: linked_mcp_def tool_link_workspace_def parse_link_direction_def parse_indexing_mode_def demo_link_env_def with_db_def
        demo_mcp_def new_mcp_def demo_watch_state_def register_peer_with_watcher_def add_peer_def)
qed


text \<open>A link that is read is watched from now on when the watcher runs and takes the path.\<close>

lemma link_is_watched:
  assumes "fst (tool_link_workspace L p st) = Inr (Reply l)" "lj_direction l \<noteq> ''out''"
    and "ms_slot st" "w_debouncer (ms_world st)" "le_root L (lk_path p) = Some root" "le_watch_ok L"
  shows "lj_workspace_id l \<in> pr_workspace_id ` set (w_peers (ms_world (snd (tool_link_workspace L p st))))"
proof (cases "ebind (parse_link_direction (lk_direction p)) (\<lambda>d. ebind (parse_indexing_mode (lk_mode p)) (\<lambda>m. Inr (d, m)))")
  case (Inr dm)
  then obtain direction mode db where "dm = (direction, mode)"
      "link_workspace (le_dirs L) (le_canonicalize L) (le_parse L) (le_uuid L) (le_now L) (lk_path p) direction mode (ms_db st) = (Inr (lj_workspace_id l), db)"
      "lj_direction l = link_direction_label direction"
    using assms(1) by (cases dm) (auto simp: tool_link_workspace_def Let_def split: sum.splits prod.splits)
  then show ?thesis using assms(2-) Inr
    by (cases direction; auto simp: tool_link_workspace_def Let_def register_peer_with_watcher_def add_peer_def list_ex_iff image_iff; metis)
qed (use assms(1) in \<open>simp add: tool_link_workspace_def\<close>)

text \<open>
  After a restart nothing is: the watcher starts with an empty registry and the links of the catalog are
  not handed to it, although the comments on both helpers leave that to the next start.
\<close>

lemma restart_watches_no_peer:
  assumes "\<not> ms_slot st" "ms_slot (kick_off_indexing R P T paused readonly starts filters st)"
  shows "w_peers (ms_world (kick_off_indexing R P T paused readonly starts filters st)) = []"
  using assms by (auto simp: kick_off_indexing_def spawn_watcher_def split: if_splits prod.splits sum.splits)

section \<open>Walking the names\<close>

lemma clamp_limit_bounds: "0 < unat (clamp_limit raw) \<and> unat (clamp_limit raw) \<le> 100"
proof -
  have "1 \<le> clamp_limit raw \<and> clamp_limit raw \<le> 100"
    using word_less_1[of "or_default FIND_SYMBOL_DEFAULT_LIMIT raw"]
    by (auto simp: clamp_limit_def clamp_def FIND_SYMBOL_MAX_LIMIT_def not_less simp flip: not_le)
  then show ?thesis by (auto simp: word_le_nat_alt)
qed

fun walk_fqdns :: "nat \<Rightarrow> 'sc mcp_env \<Rightarrow> mcp_state \<Rightarrow> ListSymbolFqdnsParams \<Rightarrow> error_data + (string \<times> Kind) list option" where
  "walk_fqdns 0 E st p = Inr None"
| "walk_fqdns (Suc n) E st p =
    ebind (tool_list_symbol_fqdns E st p) (\<lambda>reply.
    case reply of
      Reply (items, None) \<Rightarrow> Inr (Some items)
    | Reply (items, Some c) \<Rightarrow> ebind (walk_fqdns n E st (p\<lparr>ls_cursor := Some c\<rparr>)) (\<lambda>rest. Inr (map_option (\<lambda>more. items @ more) rest))
    | _ \<Rightarrow> Inr None)"

definition shown_names :: "ListSymbolFqdnsParams \<Rightarrow> RawSymbol list \<Rightarrow> (string \<times> Kind) list" where
  "shown_names p symbols = map (fqdn_row (ls_relative_to p)) (apply_exclude_tests (or_default False (ls_exclude_tests p)) symbols)"

lemma shown_names_append: "shown_names p (xs @ ys) = shown_names p xs @ shown_names p ys"
  by (simp add: shown_names_def apply_exclude_tests_def)

lemma shown_names_cursor [simp]: "shown_names (p\<lparr>ls_cursor := c\<rparr>) = shown_names p"
  by (rule ext) (simp add: shown_names_def)

lemma walk_fqdns_pages:
  assumes r: "ms_ready st" and f: "parse_filter (ls_kind p) (ls_visibility p) (ls_module p) (ls_include_external p) (ls_workspace_id p) = Inr f"
  shows "walk_fqdns n E st p = map_sum (\<lambda>e. InternalError (StorageCause e)) (map_option (shown_names p))
    (walk_pages n (me_codec E) (ms_db st) f (unat (clamp_limit (ls_limit p))) (ls_cursor p))"
  using f
proof (induction n arbitrary: p)
  case (Suc n)
  let ?page = "list_symbols (me_codec E) (ms_db st) f (unat (clamp_limit (ls_limit p))) (ls_cursor p)"
  have tool: "tool_list_symbol_fqdns E st p = map_sum (\<lambda>e. InternalError (StorageCause e))
      (\<lambda>page. Reply (shown_names p (lsp_items page), lsp_next_cursor page)) ?page"
    using r Suc.prems by (cases ?page) (simp_all add: tool_list_symbol_fqdns_def when_ready_def from_storage_def shown_names_def)
  have rest: "walk_fqdns n E st (p\<lparr>ls_cursor := Some c\<rparr>) = map_sum (\<lambda>e. InternalError (StorageCause e)) (map_option (shown_names p))
      (walk_pages n (me_codec E) (ms_db st) f (unat (clamp_limit (ls_limit p))) (Some c))" for c
    using Suc.IH[of "p\<lparr>ls_cursor := Some c\<rparr>"] Suc.prems by simp
  show ?case
  proof (cases ?page)
    case (Inr page)
    show ?thesis
    proof (cases "lsp_next_cursor page")
      case (Some c)
      show ?thesis
        by (cases "walk_pages n (me_codec E) (ms_db st) f (unat (clamp_limit (ls_limit p))) (Some c)")
          (auto simp: tool Inr Some rest shown_names_append option.map_comp comp_def intro!: option.map_cong)
    qed (simp add: tool Inr)
  qed (simp add: tool)
qed simp

text \<open>
  C39. Walking \<^verbatim>\<open>list_symbol_fqdns\<close> by its cursors ends and shows every symbol that the filter selects once, in
  the order of the names, less the tests when they are excluded, although each page drops its tests only
  after the limit was applied.
\<close>

theorem fqdn_walk_covers_listing:
  assumes ok: "db_ok (ms_db st)" and r: "ms_ready st"
    and f: "parse_filter (ls_kind p) (ls_visibility p) (ls_module p) (ls_include_external p) (ls_workspace_id p) = Inr f"
    and items: "collect_ok (build_symbol (me_codec E)) (listed (ms_db st) f) = Inr items" and n: "length (listed (ms_db st) f) < n"
    and start: "ls_cursor p = None"
  shows "walk_fqdns n E st p = Inr (Some (map (fqdn_row (ls_relative_to p))
    (filter (\<lambda>s. \<not> (ls_exclude_tests p = Some True \<and> symbol_looks_like_test s)) items)))"
proof -
  have "walk_pages n (me_codec E) (ms_db st) f (unat (clamp_limit (ls_limit p))) None = Inr (Some items)"
    using walk_from[OF ok, of "unat (clamp_limit (ls_limit p))" f "[]" "listed (ms_db st) f" None "me_codec E" items n]
      clamp_limit_bounds[of "ls_limit p"] items n by (simp add: I64_MAX_def)
  moreover have "or_default False (ls_exclude_tests p) \<longleftrightarrow> ls_exclude_tests p = Some True"
    by (cases "ls_exclude_tests p") (simp_all add: or_default_def)
  ultimately show ?thesis using walk_fqdns_pages[OF r f, of n E] start by (simp add: shown_names_def apply_exclude_tests_def)
qed

definition list_all_params :: ListSymbolFqdnsParams where
  "list_all_params = \<lparr> ls_kind = None, ls_visibility = None, ls_module = None, ls_limit = Some 1, ls_include_external = None,
     ls_exclude_tests = Some True, ls_cursor = None, ls_workspace_id = None, ls_relative_to = None \<rparr>"

text \<open>A row of the example is read back.\<close>

lemma build_demo_row: "build_symbol demo_codec (demo_row i x) = Inr (demo_symbol x)"
proof -
  have "codec_reads demo_codec (demo_symbol x)" "readable_symbol (demo_symbol x) (ctx_file_path demo_ctx)"
    "opt_signature_json demo_codec (rs_signature (demo_symbol x)) = Inr None"
    by (simp_all add: codec_reads_def readable_symbol_def demo_codec_def demo_symbol_def demo_ctx_def opt_signature_json_def)
  then show ?thesis
    using build_symbol_row[of demo_codec "demo_symbol x" demo_ctx None i] by (simp add: demo_row_def) (simp add: demo_symbol_def)
qed

text \<open>Two symbols, one per page.\<close>

theorem fqdn_walk_covers_listing_witness:
  "walk_fqdns 3 demo_mcp_env demo_mcp list_all_params = Inr (Some [(''f'', Kind.Callable), (''g'', Kind.Callable)])"
proof -
  let ?f = "\<lparr> sf_kind = None, sf_visibility = None, sf_module = None, sf_include_external = True, sf_workspace_id = None \<rparr>"
  have l: "listed demo_db ?f = [demo_row 1 ''f'', demo_row 2 ''g'']"
    by (simp add: listed_def filter_matches_def shape_matches_def effective_workspace_id_def PRIMARY_WORKSPACE_ID_def)
  have items: "collect_ok (build_symbol (me_codec demo_mcp_env)) (listed (ms_db demo_mcp) ?f) = Inr [demo_symbol ''f'', demo_symbol ''g'']"
    by (simp add: demo_mcp_env_def demo_mcp_def new_mcp_def demo_watch_state_def l build_demo_row)
  have st: "db_ok (ms_db demo_mcp)" "ms_ready demo_mcp" "ls_cursor list_all_params = None" "length (listed (ms_db demo_mcp) ?f) < 3"
    "parse_filter (ls_kind list_all_params) (ls_visibility list_all_params) (ls_module list_all_params)
       (ls_include_external list_all_params) (ls_workspace_id list_all_params) = Inr ?f"
    using demo_db_ok l by (simp_all add: demo_mcp_def new_mcp_def demo_watch_state_def list_all_params_def parse_filter_def or_default_def)
  have plain: "\<not> symbol_looks_like_test (demo_symbol ''f'')" "\<not> symbol_looks_like_test (demo_symbol ''g'')" by code_simp+
  have rows: "fqdn_row None (demo_symbol x) = (x, Kind.Callable)" for x
    by (simp add: fqdn_row_def relative_fqdn_def or_default_def demo_symbol_def)
  have "ls_relative_to list_all_params = None" by (simp add: list_all_params_def)
  then show ?thesis using fqdn_walk_covers_listing[OF st(1,2,5) items st(4,3)] plain by (simp add: rows)
qed

section \<open>Searches\<close>

lemma find_similar_Inr:
  assumes "find_similar K score lo db reference threshold f limit = Inr xs"
  shows "length xs \<le> limit \<and> (\<forall>x\<in>set xs. threshold \<le> snd x \<and> snd x = score reference (rs_name (fst x)) \<and> lo (rs_name (fst x)) \<noteq> lo reference)"
  using assms by (auto simp: find_similar_def ebind_Inr Let_def map_filter_def dest!: in_set_takeD split: if_splits)

lemma from_storage_Inr [simp]: "from_storage m = Inr x \<longleftrightarrow> m = Inr x"
  by (cases m) (simp_all add: from_storage_def)

lemma search_fetch_length: "search_fetch K fts db f limit expr = Inr xs \<Longrightarrow> length xs \<le> limit_i64 limit"
  by (auto simp: search_fetch_def collect_ok_Inr dest!: list_all2_lengthD)

lemma search_text_length: "search_text K fts alnum db query limit f = Inr xs \<Longrightarrow> length xs \<le> limit_i64 limit"
  by (auto simp: search_text_def Let_def ebind_Inr neq_Nil_conv dest!: search_fetch_length split: if_splits list.splits option.splits)



section \<open>Small contracts\<close>

text \<open>The answer of \<^verbatim>\<open>check_stale\<close>: one entry per question, in order, fresh exactly when no later write touched the symbol.\<close>

lemma check_stale_entries:
  assumes "tool_check_stale st fetched = Inr (Reply entries)"
  shows "map se_fqdn entries = map fe_fqdn fetched \<and>
    (\<forall>i<length fetched. let e = fetched ! i; found = last_modified_revisions_for_fqdns (ms_db st) (map fe_fqdn fetched) (fe_fqdn e)
       in se_status (entries ! i) = (case found of None \<Rightarrow> MissingSymbol | Some revision \<Rightarrow> if fe_fetched_at_revision e < revision then Stale else Fresh))"
  using assms by (auto simp: tool_check_stale_def when_ready_def stale_entry_def Let_def split: if_splits option.split)

lemma parse_link_direction_label [simp]: "parse_link_direction (link_direction_label d) = Inr d"
  by (cases d) (simp_all add: parse_link_direction_def)

lemma parse_link_direction_Inr: "parse_link_direction s = Inr d \<longleftrightarrow> s = link_direction_label d"
  by (cases d) (auto simp: parse_link_direction_def split: if_splits)

text \<open>A shortened name can be restored: nothing, \<^verbatim>\<open>::rest\<close>, or a name outside the prefix.\<close>

lemma relative_fqdn_restores:
  assumes "base \<noteq> []" "fqdn \<noteq> []" "\<not> prefix ''::'' fqdn"
  shows "fqdn = (let r = relative_fqdn fqdn base in if r = [] then base else if prefix ''::'' r then base @ r else r)"
  using assms by (auto simp: relative_fqdn_def Let_def strip_prefix_Some prefix_def bind_eq_Some_conv split: option.splits)

text \<open>Before the index is built every gated tool says so and touches nothing.\<close>

lemma busy_tools:
  assumes "\<not> ms_ready st"
  shows "\<exists>m. fst (tool_get_context E now g st) = Inr (Busy m) \<and> snd (tool_get_context E now g st) = st \<and>
    tool_find_symbol E st p = Inr (Busy m) \<and> tool_list_symbols E st l = Inr (Busy m) \<and> tool_get_body E st b = Inr (Busy m) \<and>
    tool_check_stale st fetched = Inr (Busy m) \<and> tool_fetch_graph E st fg = Inr (Busy m) \<and>
    tool_resolve_external X rvs st fqdn = (Some (Inr (Busy m)), [])"
  using assms
  by (simp add: tool_get_context_def when_ready_def tool_find_symbol_def tool_list_symbols_def tool_get_body_def body_tool_def
      tool_check_stale_def tool_fetch_graph_def tool_resolve_external_def)

end
