(* ===== verification/Spec2Isabelle.thy ===== *)
theory Spec2Isabelle
  imports Query_Graph Query_Workspace Watcher Proxy Workspace_Provider Mcp
begin

text \<open>
  \<^bold>\<open>A verification development for standardoc\<close>

  standardoc indexes the source code of a workspace into an SQLite database and answers questions
  about it.  Language providers turn a source file into an \<^verbatim>\<open>ExtractedFile\<close> (symbols, edges, call
  sites, documents, FFI bindings, a module lookup); the pipeline of \<^verbatim>\<open>crates/standardoc-core\<close>
  stores extractions, one writer thread applying commands from a queue and the cold start
  committing whole batches; the resolvers connect edges across files, crates and linked peer
  workspaces; the query layer, the LSP and MCP servers and the command line read the result.

  This development models the data (\<^verbatim>\<open>crates/standardoc-ir\<close>), the storage layer
  (\<^verbatim>\<open>crates/standardoc-core/src/storage\<close> and the schema \<^verbatim>\<open>migrations/init_v0.sql\<close>) and the
  whole pipeline, from file events and the cold start to the writer, the resolvers and the passes
  after them, the query layer (\<^verbatim>\<open>crates/standardoc-core/src/query\<close>), the part of the language
  providers that handles single-file components (\<^verbatim>\<open>crates/standardoc-lang-provider\<close>), the tools of the
  MCP server (\<^verbatim>\<open>crates/standardoc-server/src/mcp\<close>) and the proxy in front of the servers of several
  workspaces (\<^verbatim>\<open>crates/standardoc-mcp-proxy\<close>).

  \<^bold>\<open>Theories\<close>

  \<^item> \<^verbatim>\<open>Prelude\<close>: the state-and-error monad \<^verbatim>\<open>sx\<close> in which every function that takes a
    \<^verbatim>\<open>&Connection\<close> is written, transactions, the calculus \<^verbatim>\<open>keeps\<close> (an operation preserves a
    state predicate, whether it fails or not), the calculus \<^verbatim>\<open>returns\<close> (total correctness with a
    budget), Rust string operations, list lemmas.
  \<^item> \<^verbatim>\<open>Keyed_Table\<close>: tables as lists of rows with a key; the locale \<^verbatim>\<open>keyed_table\<close> gives the laws of
    lookup after upsert and delete and is interpreted on the tables of the schema.
  \<^item> \<^verbatim>\<open>IR_Kinds\<close>, \<^verbatim>\<open>IR_Hash\<close>, \<^verbatim>\<open>IR_Lookup\<close>, \<^verbatim>\<open>IR_Types\<close>: the data types of \<^verbatim>\<open>standardoc-ir\<close>, the hex
    codec of digests, scoped name lookup (a partial function, since a malformed scope table can
    loop; it returns on every table the constructors build), the extracted structures.
  \<^item> \<^verbatim>\<open>Conv\<close>, \<^verbatim>\<open>Schema\<close>, \<^verbatim>\<open>Schema_Inv\<close>: errors and column codecs; the tables with every constraint,
    cascade and trigger of the schema as statements; the invariant \<^verbatim>\<open>db_ok\<close> and that every
    statement keeps it.
  \<^item> \<^verbatim>\<open>Storage\<close>, \<^verbatim>\<open>Sql_Text\<close>, \<^verbatim>\<open>Storage_Meta\<close>: the functions of the storage modules; number texts and
    \<^verbatim>\<open>LIKE\<close> as SQLite evaluates them.
  \<^item> \<^verbatim>\<open>Batch\<close>, \<^verbatim>\<open>Batch_Total\<close>: \<^verbatim>\<open>pipeline/diff.rs\<close> and \<^verbatim>\<open>pipeline/batch.rs\<close>.  The locales
    \<^verbatim>\<open>edge_frame\<close>, \<^verbatim>\<open>satellite_frame\<close>, \<^verbatim>\<open>symbol_frame\<close> and \<^verbatim>\<open>batch_frame\<close> say which views of the
    database a step cannot change.
  \<^item> \<^verbatim>\<open>Writer\<close>: \<^verbatim>\<open>commands.rs\<close>, \<^verbatim>\<open>pipeline/writer.rs\<close>, the bulk commit of \<^verbatim>\<open>pipeline/reindex.rs\<close>, the
    clean-up of \<^verbatim>\<open>pipeline/cold_start.rs\<close>, the path scoping of \<^verbatim>\<open>pipeline/peer_extract.rs\<close>; the
    step relation \<^verbatim>\<open>ingest_step\<close> and its invariants (locale \<^verbatim>\<open>step_invariant\<close>).
  \<^item> \<^verbatim>\<open>Resolver\<close>: \<^verbatim>\<open>cross_workspace_resolver.rs\<close> and \<^verbatim>\<open>pipeline/cross_workspace_post.rs\<close>; the locale
    \<^verbatim>\<open>cross_workspace_resolver\<close> is the trait of that name.
  \<^item> \<^verbatim>\<open>Sweep\<close>: the second pass over unresolved edges (\<^verbatim>\<open>pipeline/resolve_unresolved.rs\<close>); \<^verbatim>\<open>Seed\<close>: the
    synthetic symbols of builtins (\<^verbatim>\<open>pipeline/seed_builtins.rs\<close>); \<^verbatim>\<open>Ffi_Resolve\<close> and \<^verbatim>\<open>C_Join\<close>: the
    passes of those names; \<^verbatim>\<open>Grouping\<close>: grouping by a key and loops that finish, shared by them.
  \<^item> \<^verbatim>\<open>Invalidation\<close>: lockfile fingerprints and the purge of externals
    (\<^verbatim>\<open>pipeline/external_invalidation.rs\<close>), manifest names; \<^verbatim>\<open>Peer_Import\<close>: the copy of a peer's
    lookups; \<^verbatim>\<open>Config_Sxd\<close>: lowering and seeding of \<^verbatim>\<open>standardoc.sxd\<close> (\<^verbatim>\<open>config/sxd.rs\<close>);
    \<^verbatim>\<open>Projects\<close>: project discovery and the project of each file (\<^verbatim>\<open>pipeline/projects.rs\<close>).
  \<^item> \<^verbatim>\<open>Cold_Start\<close>: one file, one re-index, one peer, and the whole cold start
    (\<^verbatim>\<open>pipeline/reindex.rs\<close>, \<^verbatim>\<open>pipeline/cold_start.rs\<close>, \<^verbatim>\<open>pipeline/peer_extract.rs\<close>,
    \<^verbatim>\<open>pipeline/paths.rs\<close>), composing all of the above.
  \<^item> \<^verbatim>\<open>Filters\<close>: the layers of ignore patterns (\<^verbatim>\<open>pipeline/filters.rs\<close>): the closest directory with an
    opinion decides, whatever the configuration; the preview of a pattern is bounded.
  \<^item> \<^verbatim>\<open>Watcher\<close>: \<^verbatim>\<open>pipeline/watcher.rs\<close>, from a file event to the commands in the writer's bounded
    queue; the step relation \<^verbatim>\<open>watch_step\<close> interleaves events, the writer and changes of the peers
    (another interpretation of \<^verbatim>\<open>step_invariant\<close>); a removed file leaves the index.
  \<^item> \<^verbatim>\<open>Query_Rows\<close>, \<^verbatim>\<open>Query_List\<close>: row readers, lookups, listings with cursors, patterns, search, the
    symbol at a position (\<^verbatim>\<open>query.rs\<close>, \<^verbatim>\<open>query/rows.rs\<close>, \<^verbatim>\<open>query/similarity.rs\<close>); \<^verbatim>\<open>Query_Graph\<close>: the
    bounded graph queries (\<^verbatim>\<open>query/graph.rs\<close>) against balls in the graph of edges; \<^verbatim>\<open>Query_Body\<close>: slices
    of source text (\<^verbatim>\<open>query/body.rs\<close>), with a reference lexer for the comment stripper;
    \<^verbatim>\<open>Query_Context\<close>: call sites and the context of a symbol (\<^verbatim>\<open>query/call_sites.rs\<close>, \<^verbatim>\<open>query.rs\<close>);
    \<^verbatim>\<open>Query_Workspace\<close>: linked workspaces (\<^verbatim>\<open>query/workspace.rs\<close>).
  \<^item> \<^verbatim>\<open>Text\<close>: string operations of Rust the parsers share; \<^verbatim>\<open>Sfc\<close>: the blocks of Vue and Svelte files
    (\<^verbatim>\<open>sfc.rs\<close>); \<^verbatim>\<open>Template\<close>, \<^verbatim>\<open>Template_Vue\<close>, \<^verbatim>\<open>Template_Svelte\<close>: the template parsers (\<^verbatim>\<open>template/\<close>), whose
    common walk over attributes is the locale \<^verbatim>\<open>attribute_walker\<close>; \<^verbatim>\<open>Workspace_Provider\<close>: dispatch by
    extension, the padded script payload, template regions and positions (\<^verbatim>\<open>workspace.rs\<close>,
    \<^verbatim>\<open>utils/location.rs\<close>).  References point at their names, the payload is aligned with the file.
  \<^item> \<^verbatim>\<open>Notify\<close>: file events, shared by the watchers; \<^verbatim>\<open>Proxy\<close>: \<^verbatim>\<open>proxy.rs\<close>, from registration and endpoint
    files to the retry loop of a request; \<^verbatim>\<open>proxy_step\<close> interleaves requests, registrations and restarts of
    the daemons (a third interpretation of \<^verbatim>\<open>step_invariant\<close>).
  \<^item> \<^verbatim>\<open>Externals\<close>: the resolvers of external symbols (\<^verbatim>\<open>externals/\<close>), whose contract is the locale
    \<^verbatim>\<open>external_resolver\<close>: what they queue, what they answer, and that the wait for the writer ends.
  \<^item> \<^verbatim>\<open>Mcp_Params\<close>, \<^verbatim>\<open>Mcp\<close>: the MCP server (\<^verbatim>\<open>mcp/handler/\<close>, \<^verbatim>\<open>mcp/handler.rs\<close>): each tool from its arguments to
    its reply, over the query layer; the hint of \<^verbatim>\<open>get_context\<close> against the history of calls, complete
    walks, bounded searches; \<^verbatim>\<open>mcp_step\<close> interleaves the tools on links with everything else (a fourth
    interpretation of \<^verbatim>\<open>step_invariant\<close>): the watched peers are linked.

  \<^bold>\<open>What is a parameter\<close>

  The JSON and bincode encoders (record \<^verbatim>\<open>codec\<close>), the clock and fresh UUIDs, the BLAKE3
  computation, what the connection pool returns, the providers of single languages and the parser of
  template expressions; the HTTP client of the proxy; the programs
  the external resolvers run; the file tree, file
  contents and file events; gitignore matching; the full-text engine, the similarity score and the
  row order SQLite picks where a query does not order.  SQLite is part of
  the model: rows in storage order, constraints checked per statement, a failing statement or
  transaction rolled back.  Strings are the UTF-8 bytes of the Rust strings.

  \<^bold>\<open>Not modelled\<close>

  Opening, locking and migrating the database file, the connection pool and threads (operating-system
  effects); the walks of the language providers over third-party syntax trees, whose result is the
  input of the pipeline; the language server and the transports of the servers, the command line and the
  layout of the viewer.
\<close>

end
